(* ===== verification/Prelude.thy ===== *)
theory Prelude
  imports Main "HOL-Library.Sublist" "HOL-Library.AList"
begin

text \<open>
  Shared vocabulary of the development: the exceptions of the modelled Python code and the
  result type that carries them, Python text (character classes, \<open>strip\<close>, \<open>split\<close>,
  \<open>replace\<close>, \<open>lower\<close>, decimal printing) and ordered dictionaries as association lists,
  together with the generic lemmas the component theories use. Python text is modelled by
  \<^typ>\<open>string\<close>: a character stands for the code point of the same number, so the model
  covers text whose code points are below 256, and the character classes below are the ones
  Python assigns to those code points.
\<close>

section \<open>Collections of simplification rules\<close>

named_theorems py_text \<open>evaluation of Python text operations\<close>
named_theorems py_dict \<open>lookups in updated dictionaries\<close>
named_theorems res_simps \<open>propagation of exceptions\<close>

section \<open>Exceptions and results\<close>

text \<open>
  Every \<open>raise\<close> of the modelled code is a value of this type. \<open>ValueError\<close> carries the
  message, since several callers store it in a step result; \<open>pydantic.ValidationError\<close> is a
  subclass of \<open>ValueError\<close> and is represented by it. \<open>HTTPException\<close> has the status code and the
  messages of its detail.
\<close>

datatype pyexc =
    ValueError string
  | KeyError string
  | RuntimeError string
  | TypeError string
  | AttributeError string
  | NotImplementedError string
  | HTTPException nat "string list"

type_synonym 'a res = "pyexc + 'a"

abbreviation Ok :: "'a \<Rightarrow> 'a res" where
  "Ok \<equiv> Inr"

abbreviation Err :: "pyexc \<Rightarrow> 'a res" where
  "Err \<equiv> Inl"

text \<open>Sequencing: the second computation runs only if the first one returned.\<close>

definition then_do :: "'a res \<Rightarrow> ('a \<Rightarrow> 'b res) \<Rightarrow> 'b res" where
  "then_do r f = (case r of Inl e \<Rightarrow> Inl e | Inr x \<Rightarrow> f x)"

definition is_ok :: "'a res \<Rightarrow> bool" where
  "is_ok r = (case r of Inl _ \<Rightarrow> False | Inr _ \<Rightarrow> True)"

fun is_ValueError :: "pyexc \<Rightarrow> bool" where
  "is_ValueError (ValueError _) = True"
| "is_ValueError _ = False"

lemma then_do_simps [simp, res_simps]:
  "then_do (Inl e) f = Inl e"
  "then_do (Inr x) f = f x"
  by (simp_all add: then_do_def)

lemma then_do_Ok_iff [res_simps]:
  "then_do r f = Inr y \<longleftrightarrow> (\<exists>x. r = Inr x \<and> f x = Inr y)"
  by (cases r) auto

lemma then_do_Err_iff [res_simps]:
  "then_do r f = Inl e \<longleftrightarrow> r = Inl e \<or> (\<exists>x. r = Inr x \<and> f x = Inl e)"
  by (cases r) auto

text \<open>Reading a successful run of a sequence backwards.\<close>

lemma then_do_OkE:
  assumes "then_do r f = Inr y" obtains x where "r = Inr x" "f x = Inr y"
  using assms by (auto simp: then_do_Ok_iff)

lemma then_do_pair_OkE:
  assumes "then_do r (\<lambda>(a, b). f a b) = Inr y" obtains a b where "r = Inr (a, b)" "f a b = Inr y"
  using assms by (auto simp: then_do_Ok_iff)

lemma guard_OkE:
  assumes "(if c then Inl e else r) = Inr y" obtains "\<not> c" "r = Inr y"
  using assms by (cases c) auto

lemmas run_elims = guard_OkE then_do_pair_OkE then_do_OkE

lemma then_do_cong [fundef_cong]:
  assumes "r = r'" and "\<And>x. r' = Inr x \<Longrightarrow> f x = g x"
  shows "then_do r f = then_do r' g"
  using assms by (cases r') auto

lemma is_ok_simps [simp]: "is_ok (Inr x)" "\<not> is_ok (Inl e)"
  by (simp_all add: is_ok_def)

lemma is_ok_iff: "is_ok r \<longleftrightarrow> (\<exists>x. r = Inr x)"
  by (cases r) auto

text \<open>Running a fallible function over a list, left to right, stopping at the first error.\<close>

fun map_res :: "('a \<Rightarrow> 'b res) \<Rightarrow> 'a list \<Rightarrow> 'b list res" where
  "map_res f [] = Inr []"
| "map_res f (x # xs) =
     then_do (f x) (\<lambda>y. then_do (map_res f xs) (\<lambda>ys. Inr (y # ys)))"

lemma map_res_Ok_iff:
  "map_res f xs = Inr ys \<longleftrightarrow> list_all2 (\<lambda>x y. f x = Inr y) xs ys"
  by (induction xs arbitrary: ys) (auto simp: then_do_Ok_iff list_all2_Cons1)

lemma map_res_Err: "map_res f xs = Inl e \<Longrightarrow> \<exists>x \<in> set xs. f x = Inl e"
  by (induction xs) (auto simp: then_do_Err_iff)

lemma map_res_is_ok: "is_ok (map_res f xs) \<longleftrightarrow> list_all (\<lambda>x. is_ok (f x)) xs"
  by (induction xs) (auto simp: is_ok_iff then_do_Ok_iff)

lemma map_res_cong [fundef_cong]:
  "xs = ys \<Longrightarrow> (\<And>x. x \<in> set ys \<Longrightarrow> f x = g x) \<Longrightarrow> map_res f xs = map_res g ys"
  by (induction ys arbitrary: xs) (auto intro!: then_do_cong)

text \<open>
  Python's \<open>any\<close> and \<open>all\<close> over a generator: left to right, stopping at the first element that
  decides, so an exception in a later element is never raised.
\<close>

fun any_res :: "('a \<Rightarrow> bool res) \<Rightarrow> 'a list \<Rightarrow> bool res" where
  "any_res f [] = Inr False"
| "any_res f (x # xs) = then_do (f x) (\<lambda>b. if b then Inr True else any_res f xs)"

fun all_res :: "('a \<Rightarrow> bool res) \<Rightarrow> 'a list \<Rightarrow> bool res" where
  "all_res f [] = Inr True"
| "all_res f (x # xs) = then_do (f x) (\<lambda>b. if b then all_res f xs else Inr False)"

lemma any_res_cong [fundef_cong]:
  "xs = ys \<Longrightarrow> (\<And>x. x \<in> set ys \<Longrightarrow> f x = g x) \<Longrightarrow> any_res f xs = any_res g ys"
  by (induction ys arbitrary: xs) (auto intro!: then_do_cong)

lemma all_res_cong [fundef_cong]:
  "xs = ys \<Longrightarrow> (\<And>x. x \<in> set ys \<Longrightarrow> f x = g x) \<Longrightarrow> all_res f xs = all_res g ys"
  by (induction ys arbitrary: xs) (auto intro!: then_do_cong)

lemma any_res_single [simp]: "any_res f [x] = f x"
  by (cases "f x") auto

lemma all_res_single [simp]: "all_res f [x] = f x"
  by (cases "f x") auto

lemma any_res_Ok:
  "(\<And>x. x \<in> set xs \<Longrightarrow> f x = Inr (p x)) \<Longrightarrow> any_res f xs = Inr (list_ex p xs)"
  by (induction xs) auto

lemma all_res_Ok:
  "(\<And>x. x \<in> set xs \<Longrightarrow> f x = Inr (p x)) \<Longrightarrow> all_res f xs = Inr (list_all p xs)"
  by (induction xs) auto

lemma any_res_Err: "any_res f xs = Inl e \<Longrightarrow> \<exists>x \<in> set xs. f x = Inl e"
  by (induction xs) (auto simp: then_do_Err_iff split: if_splits)

lemma all_res_Err: "all_res f xs = Inl e \<Longrightarrow> \<exists>x \<in> set xs. f x = Inl e"
  by (induction xs) (auto simp: then_do_Err_iff split: if_splits)

section \<open>Python text\<close>

subsection \<open>Characters\<close>

abbreviation dq :: char where "dq \<equiv> CHR 0x22"
abbreviation sq :: char where "sq \<equiv> CHR 0x27"
abbreviation bslash :: char where "bslash \<equiv> CHR 0x5C"
abbreviation newline :: char where "newline \<equiv> CHR 0x0A"

definition code_of :: "char \<Rightarrow> nat" where
  "code_of c = of_char c"

text \<open>\<open>str.isspace\<close>, which is also the class \<open>\s\<close> of a text pattern and what \<open>strip\<close> removes.\<close>

definition py_space :: "char \<Rightarrow> bool" where
  "py_space c = (let n = code_of c in
     (9 \<le> n \<and> n \<le> 13) \<or> (28 \<le> n \<and> n \<le> 32) \<or> n = 133 \<or> n = 160)"

text \<open>The class \<open>\d\<close>.\<close>

definition py_digit :: "char \<Rightarrow> bool" where
  "py_digit c = (let n = code_of c in 48 \<le> n \<and> n \<le> 57)"

text \<open>The class \<open>\w\<close>: alphanumeric code points and the underscore.\<close>

definition py_word :: "char \<Rightarrow> bool" where
  "py_word c = (let n = code_of c in
     (48 \<le> n \<and> n \<le> 57) \<or> (65 \<le> n \<and> n \<le> 90) \<or> n = 95 \<or> (97 \<le> n \<and> n \<le> 122)
     \<or> n = 170 \<or> n = 178 \<or> n = 179 \<or> n = 181 \<or> n = 185 \<or> n = 186 \<or> (188 \<le> n \<and> n \<le> 190)
     \<or> (192 \<le> n \<and> n \<le> 214) \<or> (216 \<le> n \<and> n \<le> 246) \<or> (248 \<le> n \<and> n \<le> 255))"

definition lower_char :: "char \<Rightarrow> char" where
  "lower_char c = (let n = code_of c in
     if (65 \<le> n \<and> n \<le> 90) \<or> (192 \<le> n \<and> n \<le> 214) \<or> (216 \<le> n \<and> n \<le> 222)
     then char_of (n + 32) else c)"

definition py_lower :: "string \<Rightarrow> string" where
  "py_lower s = map lower_char s"

text \<open>\<open>str.upper\<close> on ASCII letters; the code points from 128 on are left alone.\<close>

definition upper_char :: "char \<Rightarrow> char" where
  "upper_char c = (let n = code_of c in if 97 \<le> n \<and> n \<le> 122 then char_of (n - 32) else c)"

subsection \<open>Trimming, splitting, replacing\<close>

definition py_lstrip :: "string \<Rightarrow> string" where
  "py_lstrip s = dropWhile py_space s"

definition py_strip :: "string \<Rightarrow> string" where
  "py_strip s = rev (dropWhile py_space (rev (dropWhile py_space s)))"

text \<open>\<open>s.split(sep)\<close> for a non-empty separator: non-overlapping occurrences, left to right.\<close>

function py_split_acc :: "string \<Rightarrow> string \<Rightarrow> string \<Rightarrow> string list" where
  "py_split_acc sep acc s =
     (if s = [] then [rev acc]
      else if sep \<noteq> [] \<and> prefix sep s then rev acc # py_split_acc sep [] (drop (length sep) s)
      else py_split_acc sep (hd s # acc) (tl s))"
  by pat_completeness auto
termination
  by (relation "measure (\<lambda>(sep, acc, s). length s)") auto

declare py_split_acc.simps [simp del]

definition py_split :: "string \<Rightarrow> string \<Rightarrow> string list" where
  "py_split sep s = py_split_acc sep [] s"

text \<open>\<open>s.replace(old, new)\<close> for a non-empty \<open>old\<close>.\<close>

function py_replace :: "string \<Rightarrow> string \<Rightarrow> string \<Rightarrow> string" where
  "py_replace old new s =
     (if s = [] then []
      else if old \<noteq> [] \<and> prefix old s then new @ py_replace old new (drop (length old) s)
      else hd s # py_replace old new (tl s))"
  by pat_completeness auto
termination
  by (relation "measure (\<lambda>(old, new, s). length s)") auto

declare py_replace.simps [simp del]

fun py_join :: "string \<Rightarrow> string list \<Rightarrow> string" where
  "py_join sep [] = []"
| "py_join sep [x] = x"
| "py_join sep (x # y # ys) = x @ sep @ py_join sep (y # ys)"

definition py_removeprefix :: "string \<Rightarrow> string \<Rightarrow> string" where
  "py_removeprefix p s = (if prefix p s then drop (length p) s else s)"

subsection \<open>Printing numbers\<close>

definition digit_char :: "nat \<Rightarrow> char" where
  "digit_char n = char_of (48 + n)"

fun show_nat :: "nat \<Rightarrow> string" where
  "show_nat n = (if n < 10 then [digit_char n] else show_nat (n div 10) @ [digit_char (n mod 10)])"

declare show_nat.simps [simp del]

definition show_int :: "int \<Rightarrow> string" where
  "show_int i = (if i < 0 then CHR ''-'' # show_nat (nat (- i)) else show_nat (nat i))"

definition hex_char :: "nat \<Rightarrow> char" where
  "hex_char n = (if n < 10 then char_of (48 + n) else char_of (87 + n))"

definition hex2 :: "nat \<Rightarrow> string" where
  "hex2 n = [hex_char (n div 16), hex_char (n mod 16)]"

text \<open>Reading a run of decimal digits, as \<open>int\<close> does on a \<open>\d+\<close> group.\<close>

definition read_nat :: "string \<Rightarrow> nat" where
  "read_nat s = foldl (\<lambda>a c. 10 * a + (code_of c - 48)) 0 s"

text \<open>
  \<open>int(s)\<close>: white space around, a sign, digits with single underscores between them. Python's limit
  of 4300 digits is left out here; no number the code reads this way can reach it.
\<close>

definition py_int :: "string \<Rightarrow> int option" where
  "py_int s =
     (let t = py_strip s;
          neg = prefix ''-'' t;
          groups = py_split ''_'' (if neg \<or> prefix ''+'' t then tl t else t) in
        if list_all (\<lambda>g. g \<noteq> [] \<and> list_all py_digit g) groups
        then Some ((if neg then -1 else 1) * int (read_nat (concat groups)))
        else None)"

subsection \<open>Facts about text\<close>

text \<open>Decimal numbers: digits only, and read back.\<close>

lemma code_of_digit_char [simp]: "n < 10 \<Longrightarrow> code_of (digit_char n) = 48 + n"
  by (simp add: code_of_def digit_char_def)

lemma show_nat_digits: "show_nat n \<noteq> [] \<and> list_all py_digit (show_nat n)"
proof (induction n rule: show_nat.induct)
  case (1 n)
  show ?case
  proof (cases "n < 10")
    case True
    then show ?thesis by (subst (1 2) show_nat.simps) (simp add: py_digit_def)
  next
    case False
    with 1 have "list_all py_digit (show_nat (n div 10))" by simp
    with False show ?thesis by (subst (1 2) show_nat.simps) (simp add: py_digit_def)
  qed
qed

lemma read_show_nat [simp]: "read_nat (show_nat n) = n"
proof (induction n rule: show_nat.induct)
  case (1 n)
  show ?case
  proof (cases "n < 10")
    case True
    then show ?thesis by (subst show_nat.simps) (simp add: read_nat_def)
  next
    case False
    with 1 have "read_nat (show_nat (n div 10)) = n div 10" by simp
    with False show ?thesis by (subst show_nat.simps) (simp add: read_nat_def)
  qed
qed

lemma py_lower_append [simp]: "py_lower (s @ t) = py_lower s @ py_lower t"
  by (simp add: py_lower_def)

lemma length_py_lower [simp]: "length (py_lower s) = length s"
  by (simp add: py_lower_def)

lemma length_py_strip: "length (py_strip s) \<le> length s"
proof -
  have "length (dropWhile py_space (rev (dropWhile py_space s))) \<le> length (dropWhile py_space s)"
    by (metis length_dropWhile_le length_rev)
  also have "\<dots> \<le> length s" by (rule length_dropWhile_le)
  finally show ?thesis by (simp add: py_strip_def)
qed

lemma py_split_acc_nonempty: "py_split_acc sep acc s \<noteq> []"
  by (induction sep acc s rule: py_split_acc.induct) (subst py_split_acc.simps, simp)

lemma py_split_nonempty [simp]: "py_split sep s \<noteq> []"
  by (simp add: py_split_def py_split_acc_nonempty)

text \<open>Joining the parts with the separator gives the text back.\<close>

lemma py_join_Cons: "xs \<noteq> [] \<Longrightarrow> py_join sep (x # xs) = x @ sep @ py_join sep xs"
  by (cases xs) auto

lemma py_join_split_acc: "sep \<noteq> [] \<Longrightarrow> py_join sep (py_split_acc sep acc s) = rev acc @ s"
proof (induction sep acc s rule: py_split_acc.induct)
  case (1 sep acc s)
  show ?case
  proof (cases "s = []")
    case True
    then show ?thesis by (simp add: py_split_acc.simps)
  next
    case ne: False
    show ?thesis
    proof (cases "prefix sep s")
      case True
      then have "sep @ drop (length sep) s = s"
        by (metis append_eq_conv_conj prefix_def)
      with 1 ne True show ?thesis
        by (subst py_split_acc.simps) (simp add: py_join_Cons py_split_acc_nonempty)
    next
      case False
      with 1 ne show ?thesis by (subst py_split_acc.simps) simp
    qed
  qed
qed

lemma py_join_split [simp]: "sep \<noteq> [] \<Longrightarrow> py_join sep (py_split sep s) = s"
  by (simp add: py_split_def py_join_split_acc)

lemma sublist_join_member: "x \<in> set xs \<Longrightarrow> sublist x (py_join sep xs)"
proof (induction xs)
  case (Cons a xs)
  show ?case
  proof (cases "xs = []")
    case True
    with Cons.prems show ?thesis by simp
  next
    case False
    with Cons show ?thesis
      by (auto simp: py_join_Cons intro: sublist_appendI sublist_order.order_trans)
        (metis append_assoc sublist_append_leftI sublist_order.order_trans)
  qed
qed simp

text \<open>A part of a split is never longer than the text, and shorter if the separator occurs.\<close>

lemma split_two_parts: "sep \<noteq> [] \<Longrightarrow> sublist sep s \<Longrightarrow> 2 \<le> length (py_split_acc sep acc s)"
proof (induction sep acc s rule: py_split_acc.induct)
  case (1 sep acc s)
  then have ne: "s \<noteq> []" by (auto simp: sublist_Nil_right)
  have tail: "1 \<le> length (py_split_acc sep a t)" for a t
    using py_split_acc_nonempty [of sep a t] by (cases "py_split_acc sep a t") auto
  show ?case
  proof (cases "prefix sep s")
    case True
    with 1 ne tail show ?thesis by (subst py_split_acc.simps) simp
  next
    case False
    with ne "1.prems" have "sublist sep (tl s)"
      by (cases s) (auto simp: sublist_Cons_right)
    with 1 ne False show ?thesis by (subst py_split_acc.simps) simp
  qed
qed

lemma join_part_length:
  "p \<in> set xs \<Longrightarrow> 2 \<le> length xs \<Longrightarrow> length p + length sep \<le> length (py_join sep xs)"
proof (induction xs)
  case (Cons x xs)
  then have ne: "xs \<noteq> []" by auto
  have sub: "length q \<le> length (py_join sep xs)" if "q \<in> set xs" for q
    using sublist_join_member [OF that, of sep] by (rule sublist_length_le)
  have tail: "length q \<le> length x + length (py_join sep xs)" if "q \<in> set xs" for q
    using sub [OF that] by simp
  from ne Cons.prems tail show ?case by (auto simp: py_join_Cons)
qed simp

lemma split_part_shorter:
  assumes "sep \<noteq> []" and "sublist sep s" and "p \<in> set (py_split sep s)"
  shows "length p < length s"
proof -
  have "length p + length sep \<le> length (py_join sep (py_split sep s))"
    using assms split_two_parts [of sep s "[]"]
    by (intro join_part_length) (auto simp: py_split_def)
  with assms(1) show ?thesis by (cases sep) simp_all
qed

lemma split_absent_acc:
  "\<not> sublist sep s \<Longrightarrow> py_split_acc sep acc s = [rev acc @ s]"
proof (induction s arbitrary: acc)
  case Nil
  then show ?case by (simp add: py_split_acc.simps)
next
  case (Cons c s)
  then have "\<not> prefix sep (c # s)" and "\<not> sublist sep s"
    by (auto simp: sublist_Cons_right)
  with Cons.IH show ?case by (subst py_split_acc.simps) simp
qed

lemma split_absent [simp]: "\<not> sublist sep s \<Longrightarrow> py_split sep s = [s]"
  by (simp add: py_split_def split_absent_acc)

text \<open>
  The separator occurs in no part. The first part is what precedes the first position where the
  separator starts, so no tail of it, continued by the rest of the text, starts with the separator.
\<close>

lemma split_first_part:
  "sep \<noteq> [] \<Longrightarrow> \<exists>q rest ps. py_split_acc sep acc s = (rev acc @ q) # ps \<and> s = q @ rest
     \<and> (\<forall>u w. q = u @ w \<longrightarrow> w \<noteq> [] \<longrightarrow> \<not> prefix sep (w @ rest))
     \<and> (\<forall>p \<in> set ps. \<not> sublist sep p)"
proof (induction sep acc s rule: py_split_acc.induct)
  case (1 sep acc s)
  consider (empty) "s = []" | (hit) "s \<noteq> []" "prefix sep s" | (miss) "s \<noteq> []" "\<not> prefix sep s"
    by blast
  then show ?case
  proof cases
    case empty
    then show ?thesis by (subst py_split_acc.simps) auto
  next
    case hit
    with "1.IH"(1) "1.prems" obtain q rest ps where
      eq: "py_split_acc sep [] (drop (length sep) s) = q # ps"
      and rest: "drop (length sep) s = q @ rest"
      and q: "\<forall>u w. q = u @ w \<longrightarrow> w \<noteq> [] \<longrightarrow> \<not> prefix sep (w @ rest)"
      and ps: "\<forall>p \<in> set ps. \<not> sublist sep p"
      by fastforce
    have "\<not> sublist sep q"
    proof
      assume "sublist sep q"
      then obtain u v where "q = u @ sep @ v" by (auto simp: sublist_def)
      with q "1.prems" show False by (auto dest: spec [of _ u] spec [of _ "sep @ v"])
    qed
    with hit eq ps "1.prems" show ?thesis
      by (subst py_split_acc.simps) (auto intro: exI [of _ s])
  next
    case miss
    then obtain c t where s: "s = c # t" by (cases s) auto
    from "1.IH"(2) miss "1.prems" s obtain q rest ps where
      eq: "py_split_acc sep (c # acc) t = (rev (c # acc) @ q) # ps"
      and t: "t = q @ rest"
      and q: "\<forall>u w. q = u @ w \<longrightarrow> w \<noteq> [] \<longrightarrow> \<not> prefix sep (w @ rest)"
      and ps: "\<forall>p \<in> set ps. \<not> sublist sep p"
      by fastforce
    have "\<not> prefix sep (w @ rest)" if "c # q = u @ w" and "w \<noteq> []" for u w
      using that miss q s t by (cases u) auto
    with miss s t eq ps show ?thesis
      by (subst py_split_acc.simps) (auto intro!: exI [of _ "c # q"] exI [of _ rest])
  qed
qed

lemma split_part_free:
  assumes "sep \<noteq> []" and "p \<in> set (py_split sep s)"
  shows "\<not> sublist sep p"
proof -
  from split_first_part [OF assms(1), of "[]" s] obtain q rest ps where
    eq: "py_split sep s = q # ps"
    and q: "\<And>u w. q = u @ w \<Longrightarrow> w \<noteq> [] \<Longrightarrow> \<not> prefix sep (w @ rest)"
    and ps: "\<forall>p \<in> set ps. \<not> sublist sep p"
    by (auto simp: py_split_def)
  have "\<not> sublist sep q"
  proof
    assume "sublist sep q"
    then obtain u v where "q = u @ (sep @ v)" by (auto simp: sublist_def)
    from q [OF this] assms(1) show False by simp
  qed
  with assms(2) eq ps show ?thesis by auto
qed

text \<open>Splitting at a single character undoes joining with it.\<close>

lemma split_acc_char:
  "c \<notin> set w \<Longrightarrow> py_split_acc [c] acc (w @ c # s) = (rev acc @ w) # py_split_acc [c] [] s"
proof (induction w arbitrary: acc)
  case Nil
  then show ?case by (subst py_split_acc.simps) simp
next
  case (Cons a w)
  then show ?case by (subst py_split_acc.simps) simp
qed

lemma sublist_single [simp]: "sublist [c] s \<longleftrightarrow> c \<in> set s"
  by (induction s) (auto simp: sublist_Cons_right)

lemma split_join_char:
  "xs \<noteq> [] \<Longrightarrow> \<forall>x \<in> set xs. c \<notin> set x \<Longrightarrow> py_split [c] (py_join [c] xs) = xs"
proof (induction xs)
  case (Cons x xs)
  show ?case
  proof (cases "xs = []")
    case True
    with Cons.prems show ?thesis by simp
  next
    case False
    with Cons show ?thesis
      by (simp add: py_join_Cons py_split_def split_acc_char)
  qed
qed simp

lemma sublist_py_strip: "sublist (py_strip s) s"
proof -
  have "suffix (dropWhile py_space s) s" by (rule suffix_dropWhile)
  moreover have "prefix (py_strip s) (dropWhile py_space s)"
    unfolding py_strip_def
    using suffix_dropWhile [of py_space "rev (dropWhile py_space s)"]
    by (simp add: suffix_to_prefix)
  ultimately show ?thesis
    by (meson prefix_imp_sublist sublist_order.order_trans suffix_imp_sublist)
qed

lemma dropWhile_idem [simp]: "dropWhile P (dropWhile P xs) = dropWhile P xs"
  by (induction xs) auto

lemma py_strip_idem [simp]: "py_strip (py_strip s) = py_strip s"
proof -
  let ?l = "dropWhile py_space s"
  let ?t = "rev (dropWhile py_space (rev ?l))"
  have "dropWhile py_space ?t = ?t"
  proof (cases ?t)
    case Nil
    then show ?thesis by (metis dropWhile.simps(1))
  next
    case (Cons c t')
    then have "prefix (c # t') ?l"
      by (metis rev_rev_ident suffix_dropWhile suffix_to_prefix)
    then obtain zs where "?l = c # zs" by (auto simp: prefix_def)
    then have "\<not> py_space c" using hd_dropWhile [of py_space s] by force
    then show ?thesis unfolding Cons by simp
  qed
  then show ?thesis by (simp add: py_strip_def)
qed

lemma py_strip_ends: "s \<noteq> [] \<Longrightarrow> \<not> py_space (hd s) \<Longrightarrow> \<not> py_space (List.last s) \<Longrightarrow> py_strip s = s"
proof -
  assume s: "s \<noteq> []" "\<not> py_space (hd s)" "\<not> py_space (List.last s)"
  then have "dropWhile py_space s = s" "dropWhile py_space (rev s) = rev s"
    by (simp_all add: dropWhile_eq_self_iff hd_rev)
  then show ?thesis by (simp add: py_strip_def)
qed

lemma digit_not_space: "py_digit c \<Longrightarrow> \<not> py_space c"
  by (auto simp: py_digit_def py_space_def Let_def)

text \<open>A printed number is read back, also with a text before it that a prefix test removed.\<close>

lemma py_int_show [simp]: "py_int (show_nat n) = Some (int n)"
proof -
  have d: "show_nat n \<noteq> []" "\<forall>c\<in>set (show_nat n). py_digit c"
    using show_nat_digits [of n] by (simp_all add: list_all_iff)
  then have strip: "py_strip (show_nat n) = show_nat n"
    by (intro py_strip_ends) (auto simp: digit_not_space)
  have hd: "\<not> prefix ''-'' (show_nat n)" "\<not> prefix ''+'' (show_nat n)"
    using d by (cases "show_nat n"; auto simp: py_digit_def code_of_def)+
  have "CHR ''_'' \<notin> set (show_nat n)" using d by (auto simp: py_digit_def code_of_def)
  then have "\<not> sublist ''_'' (show_nat n)" by (auto dest: set_mono_sublist)
  then show ?thesis using d strip hd by (simp add: py_int_def list_all_iff)
qed

section \<open>Ordered dictionaries\<close>

text \<open>
  A Python \<open>dict\<close> with text keys is an association list in insertion order.
  \<open>d[k] = v\<close> is \<^const>\<open>AList.update\<close>, which overwrites in place or appends;
  \<open>k in d\<close> is membership in \<open>map fst d\<close>; \<open>{**d, **e}\<close> and \<open>d.update(e)\<close> are \<open>dict_merge d e\<close>.
\<close>

type_synonym 'v dict = "(string \<times> 'v) list"

abbreviation keys :: "'v dict \<Rightarrow> string list" where
  "keys d \<equiv> map fst d"

abbreviation dict_set :: "string \<Rightarrow> 'v \<Rightarrow> 'v dict \<Rightarrow> 'v dict" where
  "dict_set \<equiv> AList.update"

fun dict_merge :: "'v dict \<Rightarrow> 'v dict \<Rightarrow> 'v dict" where
  "dict_merge d [] = d"
| "dict_merge d ((k, v) # e) = dict_merge (dict_set k v d) e"

definition wf_dict :: "'v dict \<Rightarrow> bool" where
  "wf_dict d = distinct (keys d)"

lemma map_of_dict_set [simp, py_dict]:
  "map_of (dict_set k v d) k' = (if k' = k then Some v else map_of d k')"
  by (simp add: update_conv')

lemma wf_dict_set [simp, intro]: "wf_dict d \<Longrightarrow> wf_dict (dict_set k v d)"
  by (simp add: wf_dict_def distinct_update)

lemma keys_dict_set: "set (keys (dict_set k v d)) = insert k (set (keys d))"
  by (induction d) auto

lemma map_of_dict_merge [py_dict]:
  "wf_dict e \<Longrightarrow>
   map_of (dict_merge d e) k = (case map_of e k of Some v \<Rightarrow> Some v | None \<Rightarrow> map_of d k)"
proof (induction d e rule: dict_merge.induct)
  case (2 d k' v e)
  then have wf: "wf_dict e" and new: "map_of e k' = None"
    by (auto simp: wf_dict_def map_of_eq_None_iff)
  from "2.IH" [OF wf] new show ?case
    by (cases "k = k'") (simp_all split: option.split)
qed simp

lemma wf_dict_merge [simp, intro]: "wf_dict d \<Longrightarrow> wf_dict (dict_merge d e)"
  by (induction d e rule: dict_merge.induct) auto

lemma wf_dict_Nil [simp]: "wf_dict []"
  by (simp add: wf_dict_def)

lemma map_of_filter [py_dict]:
  "wf_dict d \<Longrightarrow>
   map_of (filter p d) k = (case map_of d k of None \<Rightarrow> None | Some v \<Rightarrow> if p (k, v) then Some v else None)"
proof (induction d)
  case (Cons kv d)
  obtain a v where kv: "kv = (a, v)" by (cases kv)
  from Cons.prems kv have "wf_dict d" and "map_of d a = None"
    by (auto simp: wf_dict_def map_of_eq_None_iff)
  with Cons.IH show ?case by (auto simp: kv)
qed simp

lemma wf_dict_filter [simp, intro]: "wf_dict d \<Longrightarrow> wf_dict (filter p d)"
  by (simp add: wf_dict_def distinct_map_filter)

end
