(* ===== verification/PyValue.thy ===== *)
theory PyValue
  imports Prelude
begin

text \<open>
  The values that flow through workflow definitions, step outputs and run state: what a YAML or
  JSON document decodes to. \<open>VFloat\<close> carries the text Python prints for the float (\<open>repr\<close>), so
  that truth, comparison with booleans and serialisation need no rounding; comparison of a float
  with an integer is modelled for floats printed without an exponent. Dictionary keys are text.
\<close>

datatype pyval =
    VNone
  | VBool bool
  | VInt int
  | VFloat string
  | VStr string
  | VList "pyval list"
  | VDict "(string \<times> pyval) list"

type_synonym pydict = "pyval dict"

section \<open>Lookup, truth, type tests\<close>

text \<open>\<open>d.get(k)\<close> and \<open>d.get(k, default)\<close>.\<close>

definition dget :: "pydict \<Rightarrow> string \<Rightarrow> pyval" where
  "dget d k = (case map_of d k of None \<Rightarrow> VNone | Some v \<Rightarrow> v)"

definition dget_or :: "pydict \<Rightarrow> string \<Rightarrow> pyval \<Rightarrow> pyval" where
  "dget_or d k dflt = (case map_of d k of None \<Rightarrow> dflt | Some v \<Rightarrow> v)"

text \<open>\<open>bool(v)\<close>.\<close>

fun truthy :: "pyval \<Rightarrow> bool" where
  "truthy VNone = False"
| "truthy (VBool b) = b"
| "truthy (VInt i) = (i \<noteq> 0)"
| "truthy (VFloat f) = (f \<noteq> ''0.0'' \<and> f \<noteq> ''-0.0'')"
| "truthy (VStr s) = (s \<noteq> [])"
| "truthy (VList xs) = (xs \<noteq> [])"
| "truthy (VDict d) = (d \<noteq> [])"

fun is_dict :: "pyval \<Rightarrow> bool" where
  "is_dict (VDict _) = True"
| "is_dict _ = False"

fun is_list :: "pyval \<Rightarrow> bool" where
  "is_list (VList _) = True"
| "is_list _ = False"

fun is_str :: "pyval \<Rightarrow> bool" where
  "is_str (VStr _) = True"
| "is_str _ = False"

text \<open>
  Attribute access \<open>v.get\<close> on something that is not a dictionary raises; \<open>as_dict\<close> is used
  where the code calls a dictionary method on a value it has not tested.
\<close>

fun as_dict :: "pyval \<Rightarrow> pydict res" where
  "as_dict (VDict d) = Ok d"
| "as_dict _ = Err (AttributeError ''get'')"

lemma as_dict_Ok [simp]: "as_dict v = Ok d \<longleftrightarrow> v = VDict d"
  by (cases v) auto

fun opt_str :: "pyval \<Rightarrow> string option" where
  "opt_str (VStr s) = Some s"
| "opt_str _ = None"

section \<open>Equality\<close>

text \<open>Python \<open>==\<close>: booleans are the integers 0 and 1, dictionaries compare without order.\<close>

definition bool_int :: "bool \<Rightarrow> int" where
  "bool_int b = (if b then 1 else 0)"

definition float_eq_int :: "string \<Rightarrow> int \<Rightarrow> bool" where
  "float_eq_int f i = (f = show_int i @ ''.0'' \<or> (i = 0 \<and> f = ''-0.0''))"

definition float_eq :: "string \<Rightarrow> string \<Rightarrow> bool" where
  "float_eq f g = (f \<noteq> ''nan'' \<and> (f = g \<or> ({f, g} = {''0.0'', ''-0.0''})))"

function (sequential) py_eq :: "pyval \<Rightarrow> pyval \<Rightarrow> bool" where
  "py_eq VNone VNone = True"
| "py_eq (VBool a) (VBool b) = (a = b)"
| "py_eq (VBool a) (VInt i) = (bool_int a = i)"
| "py_eq (VInt i) (VBool a) = (bool_int a = i)"
| "py_eq (VInt i) (VInt j) = (i = j)"
| "py_eq (VFloat f) (VFloat g) = float_eq f g"
| "py_eq (VFloat f) (VInt i) = float_eq_int f i"
| "py_eq (VInt i) (VFloat f) = float_eq_int f i"
| "py_eq (VFloat f) (VBool a) = float_eq_int f (bool_int a)"
| "py_eq (VBool a) (VFloat f) = float_eq_int f (bool_int a)"
| "py_eq (VStr s) (VStr t) = (s = t)"
| "py_eq (VList []) (VList []) = True"
| "py_eq (VList (x # xs)) (VList (y # ys)) = (py_eq x y \<and> py_eq (VList xs) (VList ys))"
| "py_eq (VDict d) (VDict e) =
     (length d = length e
      \<and> list_all (\<lambda>(k, v). case map_of e k of None \<Rightarrow> False | Some w \<Rightarrow> py_eq v w) d)"
| "py_eq _ _ = False"
  by pat_completeness auto
termination
proof (relation "measure (\<lambda>(v, w). size v)", goal_cases)
  case (4 d e kv k v w)
  then have "(k, v) \<in> set d" by simp
  then have "size v \<le> size_list (size_prod (\<lambda>_. 0) size) d"
    by (induction d) auto
  then show ?case by simp
qed auto

section \<open>Printing: repr and json.dumps\<close>

text \<open>\<open>repr\<close> of text: single quotes unless the text has one and no double quote.\<close>

definition repr_char :: "char \<Rightarrow> char \<Rightarrow> string" where
  "repr_char q c =
     (if c = q \<or> c = bslash then [bslash, c]
      else if c = newline then [bslash, CHR ''n'']
      else if c = CHR 0x0D then [bslash, CHR ''r'']
      else if c = CHR 0x09 then [bslash, CHR ''t'']
      else let n = code_of c in
        if n < 32 \<or> (127 \<le> n \<and> n \<le> 160) \<or> n = 173 then [bslash, CHR ''x''] @ hex2 n else [c])"

definition repr_str :: "string \<Rightarrow> string" where
  "repr_str s =
     (let q = (if sq \<in> set s \<and> dq \<notin> set s then dq else sq)
      in q # concat (map (repr_char q) s) @ [q])"

fun py_repr :: "pyval \<Rightarrow> string" where
  "py_repr VNone = ''None''"
| "py_repr (VBool b) = (if b then ''True'' else ''False'')"
| "py_repr (VInt i) = show_int i"
| "py_repr (VFloat f) = f"
| "py_repr (VStr s) = repr_str s"
| "py_repr (VList xs) = ''['' @ py_join '', '' (map py_repr xs) @ '']''"
| "py_repr (VDict d) =
     ''{'' @ py_join '', '' (map (\<lambda>(k, v). repr_str k @ '': '' @ py_repr v) d) @ ''}''"

text \<open>\<open>str(v)\<close> and the text an f-string inserts for \<open>v\<close>.\<close>

fun py_str :: "pyval \<Rightarrow> string" where
  "py_str (VStr s) = s"
| "py_str v = py_repr v"

text \<open>\<open>json.dumps\<close> with its defaults (ASCII output, separators \<open>", "\<close> and \<open>": "\<close>).\<close>

definition json_char :: "char \<Rightarrow> string" where
  "json_char c =
     (if c = dq \<or> c = bslash then [bslash, c]
      else if c = newline then [bslash, CHR ''n'']
      else if c = CHR 0x0D then [bslash, CHR ''r'']
      else if c = CHR 0x09 then [bslash, CHR ''t'']
      else if c = CHR 0x0C then [bslash, CHR ''f'']
      else if c = CHR 0x08 then [bslash, CHR ''b'']
      else let n = code_of c in
        if n < 32 \<or> 127 \<le> n then [bslash, CHR ''u'', CHR ''0'', CHR ''0''] @ hex2 n else [c])"

definition json_str :: "string \<Rightarrow> string" where
  "json_str s = dq # concat (map json_char s) @ [dq]"

fun json_dumps :: "pyval \<Rightarrow> string" where
  "json_dumps VNone = ''null''"
| "json_dumps (VBool b) = (if b then ''true'' else ''false'')"
| "json_dumps (VInt i) = show_int i"
| "json_dumps (VFloat f) =
     (if f = ''nan'' then ''NaN'' else if f = ''inf'' then ''Infinity''
      else if f = ''-inf'' then ''-Infinity'' else f)"
| "json_dumps (VStr s) = json_str s"
| "json_dumps (VList xs) = ''['' @ py_join '', '' (map json_dumps xs) @ '']''"
| "json_dumps (VDict d) =
     ''{'' @ py_join '', '' (map (\<lambda>(k, v). json_str k @ '': '' @ json_dumps v) d) @ ''}''"

text \<open>\<open>str(exc)\<close>: a \<open>KeyError\<close> prints its key as \<open>repr\<close> does.\<close>

fun exc_str :: "pyexc \<Rightarrow> string" where
  "exc_str (KeyError k) = repr_str k"
| "exc_str (ValueError m) = m"
| "exc_str (RuntimeError m) = m"
| "exc_str (TypeError m) = m"
| "exc_str (AttributeError m) = m"
| "exc_str (NotImplementedError m) = m"
| "exc_str (HTTPException c ds) = show_nat c @ '': '' @ py_join '', '' ds"

section \<open>Facts\<close>

lemma dget_set [simp, py_dict]: "dget (dict_set k v d) k' = (if k' = k then v else dget d k')"
  by (simp add: dget_def)

lemma dget_or_set [simp, py_dict]:
  "dget_or (dict_set k v d) k' dflt = (if k' = k then v else dget_or d k' dflt)"
  by (simp add: dget_or_def)

lemma dget_Nil [simp]: "dget [] k = VNone" and dget_or_Nil [simp]: "dget_or [] k x = x"
  by (simp_all add: dget_def dget_or_def)

lemma dget_Cons [simp]: "dget ((k, v) # d) k' = (if k' = k then v else dget d k')"
  by (simp add: dget_def)

lemma dget_or_Cons [simp]: "dget_or ((k, v) # d) k' x = (if k' = k then v else dget_or d k' x)"
  by (simp add: dget_or_def)

lemma dget_merge [py_dict]:
  "wf_dict e \<Longrightarrow> dget (dict_merge d e) k = (if k \<in> set (keys e) then dget e k else dget d k)"
proof (cases "map_of e k")
  case None
  then have "k \<notin> set (keys e)" by (simp add: map_of_eq_None_iff)
  with None show "wf_dict e \<Longrightarrow> ?thesis" by (simp add: dget_def map_of_dict_merge)
next
  case (Some v)
  then have "k \<in> set (keys e)" by (metis map_of_eq_None_iff not_Some_eq set_map)
  with Some show "wf_dict e \<Longrightarrow> ?thesis" by (simp add: dget_def map_of_dict_merge)
qed

lemma dget_VNone_iff: "dget d k = VNone \<longleftrightarrow> map_of d k = None \<or> map_of d k = Some VNone"
  by (simp add: dget_def split: option.splits)

end
