(* ===== verification/Pydantic.thy ===== *)
theory Pydantic
  imports PyValue
begin

text \<open>
  The pydantic models the workflow code declares, as data: a \<open>ptype\<close> is the annotation of a field
  and a model is its list of fields with their defaults. The engine that checks a value against
  such a declaration is third-party code, so it is a parameter \<open>validate\<close> of the definitions that
  use it; the locale \<open>pydantic_engine\<close> states the documented behaviour they rely on, and is
  interpreted below on an engine without coercions. A model object is represented by the
  dictionary of its fields.
\<close>

section \<open>Declarations\<close>

text \<open>
  \<open>PStr n\<close> is text of length at least \<open>n\<close>; \<open>PInt lo hi\<close> an integer with optional inclusive
  bounds; \<open>PInstance\<close> a field that only ever receives an object of the named class, which pydantic
  accepts without looking inside; \<open>PCheck\<close> a text with a field validator, given by the texts it
  lets pass; \<open>PModel forbid fields\<close> a model class, \<open>forbid\<close> being \<open>extra="forbid"\<close>.
\<close>

datatype ptype =
    PAny
  | PInstance string
  | PStr nat
  | PInt "int option" "int option"
  | PBool
  | PLiteral "string list"
  | PList ptype
  | PMap ptype
  | POpt ptype
  | PUnion ptype ptype
  | PCheck "string \<Rightarrow> bool"
  | PModel bool "(string \<times> ptype \<times> pyval option) list"

definition in_bounds :: "int option \<Rightarrow> int option \<Rightarrow> int \<Rightarrow> bool" where
  "in_bounds lo hi i =
     ((case lo of None \<Rightarrow> True | Some l \<Rightarrow> l \<le> i) \<and> (case hi of None \<Rightarrow> True | Some h \<Rightarrow> i \<le> h))"

subsection \<open>Resource limits of a spawned pod\<close>

text \<open>
  The validators of \<open>SpawnConfig\<close>. The patterns are anchored with \<open>$\<close>, which also matches before
  one final newline.
\<close>

definition chop_newline :: "string \<Rightarrow> string" where
  "chop_newline s = (if s \<noteq> [] \<and> last s = newline then butlast s else s)"

definition validate_cpu_limit :: "string \<Rightarrow> bool" where
  "validate_cpu_limit v =
     (let s = chop_newline v; ds = takeWhile py_digit s; unit = dropWhile py_digit s in
        ds \<noteq> []
        \<and> (if unit = ''m'' then read_nat ds \<le> 4000 else unit = [] \<and> read_nat ds \<le> 4))"

definition validate_memory_limit :: "string \<Rightarrow> bool" where
  "validate_memory_limit v =
     (let s = chop_newline v; ds = takeWhile py_digit s; unit = dropWhile py_digit s in
        ds \<noteq> []
        \<and> (if unit = ''Mi'' then read_nat ds \<le> 4096
            else unit = ''Gi'' \<and> read_nat ds * 1024 \<le> 4096))"

definition SpawnConfig :: ptype where
  "SpawnConfig = PModel False
     [(''cpu_request'', PStr 0, Some (VStr ''100m'')),
      (''cpu_limit'', PCheck validate_cpu_limit, Some (VStr ''500m'')),
      (''memory_request'', PStr 0, Some (VStr ''256Mi'')),
      (''memory_limit'', PCheck validate_memory_limit, Some (VStr ''512Mi'')),
      (''timeout_seconds'', PInt (Some 5) (Some 300), Some (VInt 60)),
      (''health_path'', PStr 0, Some (VStr ''/healthz'')),
      (''sandbox_image'', POpt (PStr 0), Some VNone)]"

subsection \<open>The models of a workflow step\<close>

definition PermissionScope :: ptype where
  "PermissionScope = PModel False
     [(''service_account'', POpt (PStr 0), Some VNone),
      (''allowed_tools'', POpt (PList (PStr 0)), Some VNone),
      (''denied_tools'', POpt (PList (PStr 0)), Some VNone),
      (''max_tokens'', POpt (PInt (Some 1) None), Some VNone),
      (''timeout_seconds'', POpt (PInt (Some 1) None), Some VNone)]"

definition InferenceProviderSpec :: ptype where
  "InferenceProviderSpec = PModel True [(''name'', PStr 1, None), (''model'', PStr 1, None)]"

definition SecretHeaderRef :: ptype where
  "SecretHeaderRef = PModel True [(''secret_name'', PStr 0, None), (''key'', PStr 0, None)]"

definition MCPServerConfig :: ptype where
  "MCPServerConfig = PModel True
     [(''name'', PStr 0, None), (''url'', PStr 0, None),
      (''headers'', POpt (PMap (PStr 0)), Some VNone),
      (''secret_headers'', POpt (PMap SecretHeaderRef), Some VNone)]"

text \<open>
  \<open>AgentExecutionSpec\<close> and its subclass \<open>WorkflowAgentStep\<close>. Normalisation passes the provider,
  the permission scope and the spawn configuration as objects.
\<close>

definition AgentExecutionSpec :: "(string \<times> ptype \<times> pyval option) list" where
  "AgentExecutionSpec =
     [(''prompt'', PStr 0, None),
      (''instructions'', POpt (PStr 0), Some VNone),
      (''inference_provider'', POpt (PInstance ''InferenceProviderSpec''), Some VNone),
      (''tools'', PList (PStr 0), Some (VList [])),
      (''mcp_servers'', POpt (PList (PUnion (PStr 0) MCPServerConfig)), Some VNone),
      (''allowed_skills'', POpt (PList (PStr 0)), Some VNone),
      (''permissions'', POpt (PInstance ''PermissionScope''), Some VNone),
      (''spawn'', PLiteral [''none'', ''local'', ''ephemeral''], Some (VStr ''ephemeral'')),
      (''spawn_config'', POpt (PInstance ''SpawnConfig''), Some VNone),
      (''output_schema'', POpt (PMap PAny), Some VNone),
      (''context'', PMap PAny, Some (VDict [])),
      (''timeout_seconds'', POpt (PInt (Some 1) None), Some VNone)]"

definition WorkflowAgentStep :: ptype where
  "WorkflowAgentStep = PModel True (AgentExecutionSpec @
     [(''name'', PStr 0, None),
      (''output_key'', PStr 0, None),
      (''condition'', POpt (PStr 0), Some VNone),
      (''max_retries'', PInt (Some 0) None, Some (VInt 0)),
      (''parallel_group'', POpt (PStr 0), Some VNone),
      (''role'', POpt (PLiteral [''analysis'', ''execution'', ''verification'']), Some VNone)])"

section \<open>What the code relies on\<close>

text \<open>
  The contract of the engine: a model accepts dictionaries only, rejects unknown keys where it
  forbids them, checks every field it is given and fills in the others' defaults; text is not
  coerced, integers satisfy their bounds, and every failure is a \<open>ValidationError\<close>. \<open>dump\<close> is
  \<open>model_dump(exclude_none=True)\<close>.
\<close>

locale pydantic_engine =
  fixes validate :: "ptype \<Rightarrow> pyval \<Rightarrow> pyval res"
    and dump :: "pydict \<Rightarrow> pydict"
  assumes any_ok: "validate PAny v = Ok v"
    and instance_ok: "validate (PInstance c) v = Ok v"
    and str_ok: "validate (PStr n) v = Ok w \<Longrightarrow> \<exists>s. v = VStr s \<and> w = v \<and> n \<le> length s"
    and str_accept: "n \<le> length s \<Longrightarrow> validate (PStr n) (VStr s) = Ok (VStr s)"
    and int_ok: "validate (PInt lo hi) v = Ok w \<Longrightarrow> \<exists>i. w = VInt i \<and> in_bounds lo hi i"
    and int_accept: "in_bounds lo hi i \<Longrightarrow> validate (PInt lo hi) (VInt i) = Ok (VInt i)"
    and literal_ok: "validate (PLiteral ss) v = Ok w \<Longrightarrow> \<exists>s. v = VStr s \<and> w = v \<and> s \<in> set ss"
    and literal_accept: "s \<in> set ss \<Longrightarrow> validate (PLiteral ss) (VStr s) = Ok (VStr s)"
    and list_ok: "validate (PList t) v = Ok w \<Longrightarrow>
      \<exists>xs ys. v = VList xs \<and> w = VList ys \<and> list_all2 (\<lambda>x y. validate t x = Ok y) xs ys"
    and map_any_ok: "validate (PMap PAny) v = Ok w \<Longrightarrow> is_dict v \<and> w = v"
    and map_any_accept: "validate (PMap PAny) (VDict d) = Ok (VDict d)"
    and opt_none: "validate (POpt t) VNone = Ok VNone"
    and opt_some: "v \<noteq> VNone \<Longrightarrow> validate (POpt t) v = validate t v"
    and union_ok: "validate (PUnion t u) v = Ok w \<Longrightarrow> validate t v = Ok w \<or> validate u v = Ok w"
    and check_ok: "validate (PCheck p) v = Ok w \<Longrightarrow> \<exists>s. v = VStr s \<and> w = v \<and> p s"
    and model_ok: "validate (PModel forbid fs) v = Ok w \<Longrightarrow>
      \<exists>d e. v = VDict d \<and> w = VDict e \<and> map fst e = map fst fs
        \<and> (forbid \<longrightarrow> set (keys d) \<subseteq> fst ` set fs)
        \<and> (\<forall>(f, t, dflt) \<in> set fs.
              case map_of d f of
                Some x \<Rightarrow> validate t x = Ok (dget e f)
              | None \<Rightarrow> dflt = Some (dget e f))"
    and model_accept: "distinct (map fst fs) \<Longrightarrow> (forbid \<longrightarrow> set (keys d) \<subseteq> fst ` set fs) \<Longrightarrow>
      (\<forall>(f, t, dflt) \<in> set fs.
          case map_of d f of Some x \<Rightarrow> is_ok (validate t x) | None \<Rightarrow> dflt \<noteq> None) \<Longrightarrow>
      is_ok (validate (PModel forbid fs) (VDict d))"
    and rejects: "validate t v = Err e \<Longrightarrow> is_ValueError e"
    and dump_none: "wf_dict d \<Longrightarrow> dget (dump d) k = VNone \<longleftrightarrow> dget d k = VNone"
    and dump_plain: "wf_dict d \<Longrightarrow> \<not> is_dict (dget d k) \<Longrightarrow> \<not> is_list (dget d k) \<Longrightarrow>
      dget (dump d) k = dget d k"
begin

text \<open>A field of a validated model object: checked if it was given, the default otherwise.\<close>

lemma model_field:
  assumes "validate (PModel forbid fs) (VDict d) = Ok (VDict e)" and "(f, t, dflt) \<in> set fs"
  shows "case map_of d f of Some x \<Rightarrow> validate t x = Ok (dget e f) | None \<Rightarrow> dflt = Some (dget e f)"
  using model_ok [OF assms(1)] assms(2) by auto

lemma model_given:
  assumes "validate (PModel forbid fs) (VDict d) = Ok (VDict e)" and "(f, t, dflt) \<in> set fs"
    and "map_of d f = Some x"
  shows "validate t x = Ok (dget e f)"
  using model_field [OF assms(1,2)] assms(3) by simp

lemma model_dict:
  assumes "validate (PModel forbid fs) v = Ok w"
  obtains d e where "v = VDict d" "w = VDict e" "keys e = map fst fs"
  using model_ok [OF assms] by auto

lemma model_text_field:
  assumes "validate (PModel forbid fs) (VDict d) = Ok (VDict e)" and "(f, PStr n, None) \<in> set fs"
  shows "\<exists>s. dget d f = VStr s \<and> dget e f = VStr s \<and> n \<le> length s"
  using model_field [OF assms] str_ok by (fastforce simp: dget_def split: option.splits)

lemma opt_text_ok: "validate (POpt (PStr n)) v = Ok w \<Longrightarrow> w = v \<and> (v = VNone \<or> is_str v)"
  by (cases "v = VNone") (auto simp: opt_none opt_some dest: str_ok)

lemma opt_instance_ok: "validate (POpt (PInstance c)) v = Ok v"
  by (cases "v = VNone") (simp_all add: opt_none opt_some instance_ok)

lemma opt_int_ok:
  "validate (POpt (PInt lo hi)) v = Ok w \<Longrightarrow> w = VNone \<or> (\<exists>i. w = VInt i \<and> in_bounds lo hi i)"
  by (cases "v = VNone") (auto simp: opt_none opt_some dest: int_ok)

lemma list_text_ok: "validate (PList (PStr n)) v = Ok w \<Longrightarrow> w = v \<and> is_list v"
proof -
  assume "validate (PList (PStr n)) v = Ok w"
  then obtain xs ys where vw: "v = VList xs" "w = VList ys"
    and "list_all2 (\<lambda>x y. validate (PStr n) x = Ok y) xs ys"
    using list_ok by blast
  then have "list_all2 (=) xs ys" by (elim list_all2_mono) (auto dest: str_ok)
  with vw show "w = v \<and> is_list v" by (simp add: list.rel_eq)
qed

lemma provider_ok:
  assumes "validate InferenceProviderSpec v = Ok w"
  shows "\<exists>d e name model. v = VDict d \<and> w = VDict e \<and> keys e = [''name'', ''model'']
    \<and> set (keys d) \<subseteq> {''name'', ''model''}
    \<and> dget d ''name'' = VStr name \<and> dget e ''name'' = VStr name \<and> name \<noteq> []
    \<and> dget d ''model'' = VStr model \<and> dget e ''model'' = VStr model \<and> model \<noteq> []"
proof -
  from assms obtain d e where v: "v = VDict d" "w = VDict e" "keys e = [''name'', ''model'']"
    and known: "set (keys d) \<subseteq> {''name'', ''model''}"
    using model_ok [of True "[(''name'', PStr 1, None), (''model'', PStr 1, None)]" v w]
    by (auto simp: InferenceProviderSpec_def)
  have field: "\<exists>s. dget d f = VStr s \<and> dget e f = VStr s \<and> 1 \<le> length s"
    if "(f, PStr 1, None :: pyval option) \<in> set [(''name'', PStr 1, None), (''model'', PStr 1, None)]" for f
    using model_text_field [OF assms [unfolded v InferenceProviderSpec_def] that] .
  obtain n where "dget d ''name'' = VStr n" "dget e ''name'' = VStr n" "1 \<le> length n"
    using field [of "''name''"] by auto
  moreover obtain m where "dget d ''model'' = VStr m" "dget e ''model'' = VStr m" "1 \<le> length m"
    using field [of "''model''"] by auto
  ultimately show ?thesis using v known
    by (intro exI [of _ d] exI [of _ e] exI [of _ n] exI [of _ m]) auto
qed

lemma spawn_config_limits:
  assumes "validate SpawnConfig v = Ok w"
  shows "\<exists>e cpu mem t. w = VDict e \<and> dget e ''cpu_limit'' = VStr cpu \<and> validate_cpu_limit cpu
    \<and> dget e ''memory_limit'' = VStr mem \<and> validate_memory_limit mem
    \<and> dget e ''timeout_seconds'' = VInt t \<and> 5 \<le> t \<and> t \<le> 300"
proof -
  from assms obtain d e where v: "v = VDict d" "w = VDict e"
    unfolding SpawnConfig_def by (blast dest: model_ok)
  note field = model_field [OF assms [unfolded v SpawnConfig_def]]
  have "\<exists>cpu. dget e ''cpu_limit'' = VStr cpu \<and> validate_cpu_limit cpu"
    using field [of "''cpu_limit''" "PCheck validate_cpu_limit" "Some (VStr ''500m'')"]
    by (auto split: option.splits dest!: check_ok simp: dget_def) (code_simp)
  moreover have "\<exists>mem. dget e ''memory_limit'' = VStr mem \<and> validate_memory_limit mem"
    using field [of "''memory_limit''" "PCheck validate_memory_limit" "Some (VStr ''512Mi'')"]
    by (auto split: option.splits dest!: check_ok simp: dget_def) (code_simp)
  moreover have "\<exists>t. dget e ''timeout_seconds'' = VInt t \<and> 5 \<le> t \<and> t \<le> 300"
    using field [of "''timeout_seconds''" "PInt (Some 5) (Some 300)" "Some (VInt 60)"]
    by (cases "map_of d ''timeout_seconds''")
      (auto dest!: int_ok sym [of "VInt 60"] simp: in_bounds_def)
  ultimately show ?thesis using v by blast
qed

end

section \<open>An engine without coercions\<close>

text \<open>
  pydantic's strict mode on the declarations above. It shows that the contract can be met; the
  properties hold for every engine that meets it.
\<close>

lemma size_field:
  "(f, t, dflt) \<in> set fs \<Longrightarrow> size t < Suc (size_list (size_prod (\<lambda>_. 0) (size_prod size (\<lambda>_. 0))) fs)"
  by (induction fs) auto

abbreviation invalid :: "'a res" where
  "invalid \<equiv> Err (ValueError ''validation error'')"

function (sequential) strict_validate :: "ptype \<Rightarrow> pyval \<Rightarrow> pyval res" where
  "strict_validate PAny v = Ok v"
| "strict_validate (PInstance c) v = Ok v"
| "strict_validate (PStr n) (VStr s) = (if n \<le> length s then Ok (VStr s) else invalid)"
| "strict_validate (PInt lo hi) (VInt i) = (if in_bounds lo hi i then Ok (VInt i) else invalid)"
| "strict_validate PBool (VBool b) = Ok (VBool b)"
| "strict_validate (PLiteral ss) (VStr s) = (if s \<in> set ss then Ok (VStr s) else invalid)"
| "strict_validate (PList t) (VList xs) =
     then_do (map_res (strict_validate t) xs) (\<lambda>ys. Ok (VList ys))"
| "strict_validate (PMap t) (VDict d) =
     then_do (map_res (\<lambda>(k, x). then_do (strict_validate t x) (\<lambda>y. Ok (k, y))) d) (\<lambda>e. Ok (VDict e))"
| "strict_validate (POpt t) v = (if v = VNone then Ok VNone else strict_validate t v)"
| "strict_validate (PUnion t u) v =
     (if is_ok (strict_validate t v) then strict_validate t v else strict_validate u v)"
| "strict_validate (PCheck p) (VStr s) = (if p s then Ok (VStr s) else invalid)"
| "strict_validate (PModel forbid fs) (VDict d) =
     (if forbid \<and> \<not> list_all (\<lambda>k. k \<in> fst ` set fs) (keys d) then invalid
      else then_do
        (map_res (\<lambda>(f, t, dflt).
           case map_of d f of
             Some x \<Rightarrow> then_do (strict_validate t x) (\<lambda>y. Ok (f, y))
           | None \<Rightarrow> (case dflt of Some x \<Rightarrow> Ok (f, x) | None \<Rightarrow> invalid)) fs)
        (\<lambda>e. if distinct (map fst fs) then Ok (VDict e) else invalid))"
| "strict_validate _ _ = invalid"
  by pat_completeness auto
termination
  by (relation "measure (\<lambda>(t, v). size t)") (auto dest!: size_field)

declare strict_validate.simps [simp]

definition drop_none :: "pydict \<Rightarrow> pydict" where
  "drop_none d = filter (\<lambda>(k, v). v \<noteq> VNone) d"

lemma map_of_drop_none_absent: "k \<notin> set (keys d) \<Longrightarrow> map_of (drop_none d) k = None"
  by (induction d) (auto simp: drop_none_def)

lemma dget_drop_none: "wf_dict d \<Longrightarrow> dget (drop_none d) k = dget d k"
proof (induction d)
  case (Cons p d)
  obtain a b where p: "p = (a, b)" by (cases p)
  from Cons have "dget (drop_none d) k = dget d k" and "a \<notin> set (keys d)"
    by (auto simp: wf_dict_def p)
  then show ?case
    using map_of_drop_none_absent [of a d] by (auto simp: p drop_none_def dget_def)
qed (simp add: drop_none_def)

definition strict_field :: "pydict \<Rightarrow> string \<times> ptype \<times> pyval option \<Rightarrow> (string \<times> pyval) res" where
  "strict_field d = (\<lambda>(f, t, dflt).
     case map_of d f of
       Some x \<Rightarrow> then_do (strict_validate t x) (\<lambda>y. Ok (f, y))
     | None \<Rightarrow> (case dflt of Some x \<Rightarrow> Ok (f, x) | None \<Rightarrow> invalid))"

lemma strict_field_fst: "map_res (strict_field d) fs = Ok e \<Longrightarrow> map fst e = map fst fs"
  by (induction fs arbitrary: e)
    (auto simp: strict_field_def then_do_Ok_iff split: option.splits)

lemma strict_field_value:
  "map_res (strict_field d) fs = Ok e \<Longrightarrow> distinct (map fst fs) \<Longrightarrow> (f, t, dflt) \<in> set fs \<Longrightarrow>
   case map_of d f of Some x \<Rightarrow> strict_validate t x = Ok (dget e f) | None \<Rightarrow> dflt = Some (dget e f)"
proof (induction fs arbitrary: e)
  case (Cons p fs)
  obtain g u c where p: "p = (g, u, c)" by (cases p)
  from Cons.prems(1) obtain y e' where e: "e = (g, y) # e'" and tail: "map_res (strict_field d) fs = Ok e'"
    and head: "case map_of d g of Some x \<Rightarrow> strict_validate u x = Ok y | None \<Rightarrow> c = Some y"
    by (auto simp: p strict_field_def then_do_Ok_iff split: option.splits)
  show ?case
  proof (cases "(f, t, dflt) \<in> set fs")
    case True
    then have "f \<noteq> g" using Cons.prems(2) p by force
    then show ?thesis using Cons.IH [OF tail] True Cons.prems(2)
      by (auto simp: e split: option.splits)
  next
    case False
    then have "(f, t, dflt) = (g, u, c)" using Cons.prems(3) p by simp
    then show ?thesis using head by (auto simp: e split: option.splits)
  qed
qed simp

lemma strict_model:
  assumes "strict_validate (PModel forbid fs) v = Ok w"
  shows "\<exists>d e. v = VDict d \<and> w = VDict e \<and> map fst e = map fst fs
    \<and> (forbid \<longrightarrow> set (keys d) \<subseteq> fst ` set fs)
    \<and> (\<forall>(f, t, dflt) \<in> set fs. case map_of d f of
          Some x \<Rightarrow> strict_validate t x = Ok (dget e f) | None \<Rightarrow> dflt = Some (dget e f))"
proof -
  from assms obtain d where v: "v = VDict d" by (cases v) auto
  with assms obtain e where e: "w = VDict e" "distinct (map fst fs)"
    and fields: "map_res (strict_field d) fs = Ok e"
    and "forbid \<longrightarrow> list_all (\<lambda>k. k \<in> fst ` set fs) (keys d)"
    by (auto simp: then_do_Ok_iff strict_field_def [abs_def] split: if_splits)
  then show ?thesis
    using v strict_field_fst [OF fields] strict_field_value [OF fields e(2)]
    by (auto simp: list_all_iff)
qed

lemma strict_rejects: "strict_validate t v = Err e \<Longrightarrow> is_ValueError e"
proof (induction t v arbitrary: e rule: strict_validate.induct)
  case (7 t xs)
  then show ?case by (auto simp: then_do_Err_iff dest!: map_res_Err)
next
  case (8 t d)
  then show ?case by (fastforce simp: then_do_Err_iff dest!: map_res_Err)
next
  case (12 forbid fs d)
  then show ?case
    by (fastforce simp: then_do_Err_iff split: if_splits option.splits dest!: map_res_Err)
qed (auto split: if_splits)

lemma map_res_Ok_id: "map_res Ok d = Ok d"
  by (induction d) auto

lemma strict_model_accept:
  assumes "distinct (map fst fs)" and "forbid \<longrightarrow> set (keys d) \<subseteq> fst ` set fs"
    and "\<forall>(f, t, dflt) \<in> set fs.
      case map_of d f of Some x \<Rightarrow> is_ok (strict_validate t x) | None \<Rightarrow> dflt \<noteq> None"
  shows "is_ok (strict_validate (PModel forbid fs) (VDict d))"
proof -
  have "is_ok (map_res (strict_field d) fs)"
    unfolding map_res_is_ok list_all_iff
    using assms(3) by (force simp: strict_field_def is_ok_iff split: option.splits)
  then obtain e where "map_res (strict_field d) fs = Ok e" by (auto simp: is_ok_iff)
  with assms(1,2) show ?thesis
    by (auto simp: strict_field_def [abs_def] list_all_iff)
qed

interpretation strict: pydantic_engine strict_validate drop_none
proof (unfold_locales, goal_cases)
  case (3 n v w)
  then show ?case by (cases v) (auto split: if_splits)
next
  case (5 lo hi v w)
  then show ?case by (cases v) (auto split: if_splits)
next
  case (7 ss v w)
  then show ?case by (cases v) (auto split: if_splits)
next
  case (9 t v w)
  then show ?case by (cases v) (auto simp: then_do_Ok_iff map_res_Ok_iff)
next
  case (10 v w)
  then show ?case by (cases v) (auto simp: then_do_Ok_iff map_res_Ok_id)
next
  case (15 p v w)
  then show ?case by (cases v) (auto split: if_splits)
next
  case (16 forbid fs v w)
  then show ?case by (rule strict_model)
next
  case (17 fs forbid d)
  then show ?case by (rule strict_model_accept)
next
  case (18 t v e)
  then show ?case by (rule strict_rejects)
qed (auto simp: dget_drop_none map_res_Ok_id split: if_splits)

end
