(* ===== verification/Secrets.thy ===== *)
theory Secrets
  imports Pydantic "HOL-Library.Char_ord" "HOL-Library.List_Lexorder"
begin

text \<open>
  The security checks of \<open>core/execution.py\<close> that normalisation and the submission gate share:
  credential references, inference providers and the run's provider boundary, and the rejection
  of inline MCP configurations that carry secrets.
\<close>

section \<open>Credential references\<close>

definition secret_value_prefixes :: "string list" where
  "secret_value_prefixes =
     [''sk-'', ''bearer '', ''akia'', ''xoxb-'', ''xoxp-'', ''xoxa-'', ''xoxr-'', ''xoxs-'',
      ''ghp_'', ''gho_'', ''ghs_'', ''-----begin'']"

definition looks_like_secret_value :: "string \<Rightarrow> bool" where
  "looks_like_secret_value value = list_ex (\<lambda>p. prefix p (py_lower value)) secret_value_prefixes"

definition ascii_alpha :: "char \<Rightarrow> bool" where
  "ascii_alpha c = (let n = code_of c in (65 \<le> n \<and> n \<le> 90) \<or> (97 \<le> n \<and> n \<le> 122))"

definition ascii_alnum :: "char \<Rightarrow> bool" where
  "ascii_alnum c = (ascii_alpha c \<or> py_digit c)"

text \<open>\<open>fullmatch\<close> of \<open>[A-Za-z0-9][A-Za-z0-9_.\-]{0,253}\<close>.\<close>

definition credential_reference :: "string \<Rightarrow> bool" where
  "credential_reference s =
     (case s of
        [] \<Rightarrow> False
      | c # cs \<Rightarrow> ascii_alnum c \<and> length cs \<le> 253
          \<and> list_all (\<lambda>c. ascii_alnum c \<or> c \<in> set ''_.-'') cs)"

definition validate_credential_reference :: "pyval \<Rightarrow> string res" where
  "validate_credential_reference ref =
     (case ref of
        VStr s \<Rightarrow>
          if s = [] then
            Err (ValueError (''credentials_secret must be a secret name, got '' @ py_repr ref))
          else if length s > 254 \<or> \<not> credential_reference s then
            Err (ValueError (''credentials_secret '' @ py_repr ref @ '' is not a valid secret name ''
              @ ''(letters, digits, '' @ [sq] @ ''_'' @ [sq] @ '', '' @ [sq] @ ''-'' @ [sq] @ '', ''
              @ [sq] @ ''.'' @ [sq] @ '')''))
          else if list_ex (\<lambda>p. prefix p (py_lower s)) secret_value_prefixes then
            Err (ValueError (''credentials_secret '' @ py_repr ref
              @ '' looks like a secret value, not a secret name; runtime credential values must ''
              @ ''never enter workflow data (#269)''))
          else Ok s
      | _ \<Rightarrow> Err (ValueError (''credentials_secret must be a secret name, got '' @ py_repr ref)))"

lemma validate_credential_reference_Ok_iff:
  "validate_credential_reference ref = Ok s \<longleftrightarrow>
     ref = VStr s \<and> credential_reference s \<and> \<not> looks_like_secret_value s"
  by (cases ref)
    (auto simp: validate_credential_reference_def looks_like_secret_value_def credential_reference_def
      split: list.splits)

lemma validate_credential_reference_Err:
  "validate_credential_reference ref = Err e \<Longrightarrow> is_ValueError e"
  by (auto simp: validate_credential_reference_def split: pyval.splits if_splits)

section \<open>Inference providers\<close>

text \<open>\<open>SUPPORTED_PROVIDER_NAMES\<close>, the keys of \<open>_PROVIDER_NAME_MAP\<close>.\<close>

definition provider_name_map :: "(string \<times> string) list" where
  "provider_name_map =
     [(''openai'', ''openai''), (''anthropic'', ''anthropic''), (''claude'', ''anthropic''),
      (''gemini'', ''google-gla''), (''azure'', ''azure''), (''bedrock'', ''bedrock'')]"

definition approved_inference_providers :: "string list" where
  "approved_inference_providers = map fst provider_name_map"

definition approved :: "pyval \<Rightarrow> bool" where
  "approved v = (case v of VStr s \<Rightarrow> s \<in> set approved_inference_providers | _ \<Rightarrow> False)"

definition approved_text :: string where
  "approved_text = py_repr (VList (map VStr (sort approved_inference_providers)))"

definition validate_inference_provider ::
  "(ptype \<Rightarrow> pyval \<Rightarrow> pyval res) \<Rightarrow> pydict \<Rightarrow> pyval res" where
  "validate_inference_provider validate raw =
     then_do (validate InferenceProviderSpec (VDict raw)) (\<lambda>spec.
       then_do (as_dict spec) (\<lambda>d.
         if \<not> approved (dget d ''name'') then
           Err (ValueError (''unapproved inference provider '' @ py_repr (dget d ''name'')
             @ '': must be one of '' @ approved_text @ '' (approved catalog key, enforced stack-side)''))
         else Ok spec))"

definition inference_spec_from_provider_config ::
  "(ptype \<Rightarrow> pyval \<Rightarrow> pyval res) \<Rightarrow> pydict \<Rightarrow> pyval res" where
  "inference_spec_from_provider_config validate raw =
     (let unknown_keys = filter (\<lambda>k. k \<notin> set [''name'', ''model'', ''credentials_secret'', ''model_provider''])
                           (keys raw) in
        if unknown_keys \<noteq> [] then
          Err (ValueError (''unknown provider fields: '' @ py_join '', '' (sort unknown_keys)))
        else validate_inference_provider validate
               [(''name'', dget raw ''name''), (''model'', dget raw ''model'')])"

definition enforce_provider_boundary :: "pyval \<Rightarrow> pydict \<Rightarrow> unit res" where
  "enforce_provider_boundary selected_provider run_provider =
     (case selected_provider of
        VDict selected \<Rightarrow>
          let run_name = dget run_provider ''name'' in
            if \<not> truthy run_name then
              Err (ValueError (''provider override requires an authorized run provider; selected ''
                @ py_repr (dget selected ''name'') @ '' without a run boundary''))
            else if \<not> py_eq (dget selected ''name'') run_name then
              Err (ValueError (''cross-provider override is not authorized: run provider ''
                @ py_repr run_name @ '', selected provider '' @ py_repr (dget selected ''name'')
                @ ''; the stack must authorize the provider before execution''))
            else Ok ()
      | _ \<Rightarrow> Ok ())"

context pydantic_engine
begin

lemma validate_inference_provider_ok:
  assumes "validate_inference_provider validate raw = Ok spec"
  shows "\<exists>e name model. spec = VDict e \<and> keys e = [''name'', ''model'']
    \<and> name \<in> set approved_inference_providers
    \<and> dget raw ''name'' = VStr name \<and> dget e ''name'' = VStr name
    \<and> dget raw ''model'' = VStr model \<and> dget e ''model'' = VStr model \<and> model \<noteq> []"
proof -
  from assms obtain e where spec: "validate InferenceProviderSpec (VDict raw) = Ok spec" "spec = VDict e"
    and app: "approved (dget e ''name'')"
    by (auto simp: validate_inference_provider_def then_do_Ok_iff split: if_splits elim: as_dict.elims)
  from provider_ok [OF spec(1)] spec(2) app show ?thesis
    by (auto simp: approved_def)
qed

lemma inference_spec_from_provider_config_ok:
  assumes "inference_spec_from_provider_config validate raw = Ok spec"
  shows "\<exists>e name model. spec = VDict e \<and> keys e = [''name'', ''model'']
    \<and> name \<in> set approved_inference_providers
    \<and> dget raw ''name'' = VStr name \<and> dget e ''name'' = VStr name
    \<and> dget raw ''model'' = VStr model \<and> dget e ''model'' = VStr model \<and> model \<noteq> []"
proof -
  from assms have "validate_inference_provider validate
      [(''name'', dget raw ''name''), (''model'', dget raw ''model'')] = Ok spec"
    by (auto simp: inference_spec_from_provider_config_def Let_def split: if_splits)
  from validate_inference_provider_ok [OF this] show ?thesis by auto
qed

end

section \<open>Inline MCP configurations\<close>

subsection \<open>The authority of a URL\<close>

text \<open>
  \<open>urlparse(url).netloc\<close>: leading control characters and blanks are dropped, tabs and line breaks
  removed everywhere, a scheme is split off, and the authority is what follows \<open>//\<close> up to the
  first of \<open>/?#\<close>. Unbalanced brackets raise; a bracketed authority is checked by the parameter
  \<open>bracketed_ok\<close> (the address syntax of the standard library's \<open>ipaddress\<close>).
\<close>

definition scheme_char :: "char \<Rightarrow> bool" where
  "scheme_char c = (ascii_alnum c \<or> c \<in> set ''+-.'')"

definition clean_url :: "string \<Rightarrow> string" where
  "clean_url url =
     filter (\<lambda>c. code_of c \<notin> {9, 10, 13}) (dropWhile (\<lambda>c. code_of c \<le> 32) url)"

definition after_scheme :: "string \<Rightarrow> string" where
  "after_scheme url =
     (let scheme = takeWhile (\<lambda>c. c \<noteq> CHR '':'') url in
        if length scheme < length url \<and> scheme \<noteq> [] \<and> ascii_alpha (hd scheme)
           \<and> list_all scheme_char scheme
        then drop (Suc (length scheme)) url else url)"

definition url_netloc :: "(string \<Rightarrow> bool) \<Rightarrow> string \<Rightarrow> string res" where
  "url_netloc bracketed_ok url =
     (let rest = after_scheme (clean_url url) in
        if \<not> prefix ''//'' rest then Ok []
        else let netloc = takeWhile (\<lambda>c. c \<notin> set ''/?#'') (drop 2 rest);
                 opening = CHR ''['' \<in> set netloc; closing = CHR '']'' \<in> set netloc in
          if opening \<noteq> closing then Err (ValueError ''Invalid IPv6 URL'')
          else if opening \<and> \<not> bracketed_ok netloc then Err (ValueError ''Invalid IPv6 address'')
          else Ok netloc)"

text \<open>\<open>re.match(r"^[\w.%+\-]+:[^@/]+@", url)\<close>: both runs end at a character their class excludes.\<close>

definition schemeless_userinfo :: "string \<Rightarrow> bool" where
  "schemeless_userinfo url =
     (let user_char = (\<lambda>c. py_word c \<or> c \<in> set ''.%+-'');
          pass_char = (\<lambda>c. c \<notin> set ''@/'');
          user = takeWhile user_char url; rest = dropWhile user_char url;
          pass = takeWhile pass_char (drop 1 rest); rest' = dropWhile pass_char (drop 1 rest) in
        user \<noteq> [] \<and> prefix '':'' rest \<and> pass \<noteq> [] \<and> prefix ''@'' rest')"

text \<open>\<open>netloc.split("@", 1)\<close> has two parts and the first is not empty.\<close>

definition has_userinfo :: "string \<Rightarrow> bool" where
  "has_userinfo netloc = (CHR ''@'' \<in> set netloc \<and> takeWhile (\<lambda>c. c \<noteq> CHR ''@'') netloc \<noteq> [])"

subsection \<open>The gate\<close>

definition mcp_secret_key_markers :: "string list" where
  "mcp_secret_key_markers =
     [''secret'', ''credentials_secret'', ''api_key'', ''apikey'', ''token'', ''password'', ''authorization'']"

definition mcp_forbidden_plaintext_headers :: "string list" where
  "mcp_forbidden_plaintext_headers =
     [''authorization'', ''proxy-authorization'', ''cookie'', ''set-cookie'', ''x-api-key'']"

definition is_secret_key :: "string \<Rightarrow> bool" where
  "is_secret_key key = list_ex (\<lambda>m. sublist m (py_lower key)) mcp_secret_key_markers"

text \<open>Iterating over a value: the elements of a list, the characters of a text, the keys of a dictionary.\<close>

fun py_iter :: "pyval \<Rightarrow> pyval list res" where
  "py_iter (VList xs) = Ok xs"
| "py_iter (VStr s) = Ok (map (\<lambda>c. VStr [c]) s)"
| "py_iter (VDict d) = Ok (map VStr (keys d))"
| "py_iter _ = Err (TypeError ''object is not iterable'')"

definition inline_error :: "pyval \<Rightarrow> string \<Rightarrow> 'a res" where
  "inline_error name what =
     Err (ValueError (''inline mcp_servers entry '' @ py_repr name @ '' carries '' @ what))"

definition check_mcp_url :: "(string \<Rightarrow> bool) \<Rightarrow> pyval \<Rightarrow> pyval \<Rightarrow> unit res" where
  "check_mcp_url bracketed_ok name url =
     (case url of
        VStr u \<Rightarrow>
          if u = [] then Ok ()
          else then_do (url_netloc bracketed_ok u) (\<lambda>netloc.
            if has_userinfo netloc \<or> schemeless_userinfo u
            then inline_error name
              ''a credentialed URL (userinfo embedded); use an approved named catalog entry instead''
            else Ok ())
      | _ \<Rightarrow> Ok ())"

fun check_mcp_headers :: "pyval \<Rightarrow> pydict \<Rightarrow> unit res" where
  "check_mcp_headers name [] = Ok ()"
| "check_mcp_headers name ((header_name, header_value) # headers) =
     (if py_lower header_name \<in> set mcp_forbidden_plaintext_headers
      then inline_error name (''plaintext secret header '' @ repr_str header_name
             @ ''; use an approved named catalog entry instead'')
      else if is_secret_key header_name
      then inline_error name (''secret-like header '' @ repr_str header_name
             @ ''; use an approved named catalog entry instead'')
      else if (case header_value of VStr v \<Rightarrow> looks_like_secret_value v | _ \<Rightarrow> False)
      then inline_error name (''a credential-shaped value in header '' @ repr_str header_name
             @ ''; use an approved named catalog entry instead'')
      else check_mcp_headers name headers)"

fun check_mcp_keys :: "pyval \<Rightarrow> pydict \<Rightarrow> string list \<Rightarrow> unit res" where
  "check_mcp_keys name data [] = Ok ()"
| "check_mcp_keys name data (key # ks) =
     (if is_secret_key key \<and> key \<notin> set [''secret_headers'', ''headers'', ''url'', ''name'']
         \<and> truthy (dget data key)
      then inline_error name (''secret-bearing key '' @ repr_str key
             @ ''; use an approved named catalog entry instead'')
      else check_mcp_keys name data ks)"

definition check_mcp_entry :: "(string \<Rightarrow> bool) \<Rightarrow> pyval \<Rightarrow> unit res" where
  "check_mcp_entry bracketed_ok entry =
     (case entry of
        VDict data \<Rightarrow>
          let name = dget_or data ''name'' (VStr ''?'') in
            then_do (check_mcp_url bracketed_ok name (dget_or data ''url'' (VStr []))) (\<lambda>_.
              then_do (case dget data ''headers'' of
                         VDict headers \<Rightarrow> check_mcp_headers name headers
                       | _ \<Rightarrow> Ok ()) (\<lambda>_.
                if truthy (dget data ''credentials_secret'')
                then inline_error name
                  ''credentials_secret, which has no policy gate; use an approved named catalog entry instead''
                else check_mcp_keys name data (keys data)))
      | _ \<Rightarrow> Ok ())"

text \<open>The result of the code is its argument unchanged, so the model returns nothing.\<close>

definition reject_secret_bearing_mcp :: "(string \<Rightarrow> bool) \<Rightarrow> pyval \<Rightarrow> unit res" where
  "reject_secret_bearing_mcp bracketed_ok mcp_servers =
     (if \<not> truthy mcp_servers then Ok ()
      else then_do (py_iter mcp_servers) (\<lambda>entries.
        then_do (map_res (check_mcp_entry bracketed_ok) entries) (\<lambda>_. Ok ())))"

subsection \<open>What passes the gate\<close>

text \<open>The declarative reading: which entries carry nothing secret.\<close>

definition clean_url_of :: "(string \<Rightarrow> bool) \<Rightarrow> pyval \<Rightarrow> bool" where
  "clean_url_of bracketed_ok url =
     (case url of
        VStr u \<Rightarrow> u = [] \<or> (\<exists>n. url_netloc bracketed_ok u = Ok n \<and> \<not> has_userinfo n \<and> \<not> schemeless_userinfo u)
      | _ \<Rightarrow> True)"

definition clean_header :: "string \<times> pyval \<Rightarrow> bool" where
  "clean_header h =
     (py_lower (fst h) \<notin> set mcp_forbidden_plaintext_headers \<and> \<not> is_secret_key (fst h)
      \<and> (\<forall>v. snd h = VStr v \<longrightarrow> \<not> looks_like_secret_value v))"

definition clean_entry :: "(string \<Rightarrow> bool) \<Rightarrow> pyval \<Rightarrow> bool" where
  "clean_entry bracketed_ok entry =
     (\<forall>data. entry = VDict data \<longrightarrow>
        clean_url_of bracketed_ok (dget_or data ''url'' (VStr []))
        \<and> (\<forall>headers. dget data ''headers'' = VDict headers \<longrightarrow> list_all clean_header headers)
        \<and> (\<forall>key \<in> set (keys data). is_secret_key key \<and> key \<noteq> ''secret_headers'' \<longrightarrow> \<not> truthy (dget data key)))"

lemma check_mcp_url_iff: "check_mcp_url b name url = Ok () \<longleftrightarrow> clean_url_of b url"
  by (cases url) (auto simp: check_mcp_url_def clean_url_of_def then_do_Ok_iff inline_error_def)

lemma check_mcp_headers_iff: "check_mcp_headers name hs = Ok () \<longleftrightarrow> list_all clean_header hs"
  by (induction name hs rule: check_mcp_headers.induct)
    (auto simp: clean_header_def inline_error_def split: pyval.splits)

lemma check_mcp_keys_iff:
  "check_mcp_keys name data ks = Ok () \<longleftrightarrow>
     (\<forall>key \<in> set ks. is_secret_key key \<and> key \<notin> {''secret_headers'', ''headers'', ''url'', ''name''}
        \<longrightarrow> \<not> truthy (dget data key))"
  by (induction name data ks rule: check_mcp_keys.induct) (auto simp: inline_error_def)

lemma plain_keys: "\<not> is_secret_key ''headers''" "\<not> is_secret_key ''url''" "\<not> is_secret_key ''name''"
  "is_secret_key ''credentials_secret''"
  by code_simp+

lemma dget_absent: "k \<notin> set (keys d) \<Longrightarrow> dget d k = VNone"
  by (metis dget_VNone_iff map_of_eq_None_iff set_map)

lemma check_mcp_entry_iff: "check_mcp_entry b entry = Ok () \<longleftrightarrow> clean_entry b entry"
proof (cases entry)
  case (VDict data)
  have keys: "is_secret_key key \<and> key \<notin> {''secret_headers'', ''headers'', ''url'', ''name''}
      \<longleftrightarrow> is_secret_key key \<and> key \<noteq> ''secret_headers''" for key
    using plain_keys by blast
  have "\<not> truthy (dget data ''credentials_secret'')"
    if "\<forall>key \<in> set (keys data). is_secret_key key \<and> key \<noteq> ''secret_headers'' \<longrightarrow> \<not> truthy (dget data key)"
    using that plain_keys(4) dget_absent [of "''credentials_secret''" data]
    by (cases "''credentials_secret'' \<in> set (keys data)") auto
  then show ?thesis unfolding keys [symmetric]
    by (auto simp: VDict check_mcp_entry_def check_mcp_keys_iff [unfolded keys] clean_entry_def Let_def then_do_Ok_iff inline_error_def
        check_mcp_url_iff check_mcp_headers_iff split: pyval.splits)
qed (simp_all add: check_mcp_entry_def clean_entry_def)

lemma map_res_unit: "is_ok (map_res f xs) \<longleftrightarrow> (\<forall>x \<in> set xs. f x = Ok ())"
  by (induction xs) (auto simp: is_ok_iff then_do_Ok_iff)

text \<open>
  The gate passes a list of MCP servers exactly if no inline entry has a credentialed URL, a
  forbidden or secret-like header, a header value shaped like a credential, or any secret-like key
  with a value other than \<open>secret_headers\<close>, whatever the order in which the code looks at them.
\<close>

theorem reject_secret_bearing_mcp_iff:
  "reject_secret_bearing_mcp bracketed_ok (VList entries) = Ok () \<longleftrightarrow>
     list_all (clean_entry bracketed_ok) entries"
proof -
  have "reject_secret_bearing_mcp bracketed_ok (VList entries) = Ok () \<longleftrightarrow>
      is_ok (map_res (check_mcp_entry bracketed_ok) entries)"
    by (auto simp: reject_secret_bearing_mcp_def then_do_Ok_iff is_ok_iff)
  then show ?thesis by (simp add: map_res_unit check_mcp_entry_iff list_all_iff)
qed

subsection \<open>Credentialed URLs\<close>

definition plain_user_char :: "char \<Rightarrow> bool" where
  "plain_user_char c = (32 < code_of c \<and> c \<notin> set ''/?#@'')"

lemma takeWhile_then: "list_all p xs \<Longrightarrow> \<not> p y \<Longrightarrow> takeWhile p (xs @ y # ys) = xs"
  by (induction xs) auto

lemma dropWhile_then: "list_all p xs \<Longrightarrow> \<not> p y \<Longrightarrow> dropWhile p (xs @ y # ys) = y # ys"
  by (induction xs) auto

lemma scheme_char_plain: "scheme_char c \<Longrightarrow> 32 < code_of c \<and> c \<noteq> CHR '':''"
  by (auto simp: scheme_char_def ascii_alnum_def ascii_alpha_def py_digit_def code_of_def Let_def)

lemma after_scheme_split:
  assumes "scheme \<noteq> []" "ascii_alpha (hd scheme)" "list_all scheme_char scheme"
  shows "after_scheme (scheme @ CHR '':'' # rest) = rest"
proof -
  have "list_all (\<lambda>c. c \<noteq> CHR '':'') scheme"
    using assms(3) by (auto simp: list_all_iff dest: scheme_char_plain)
  then have "takeWhile (\<lambda>c. c \<noteq> CHR '':'') (scheme @ CHR '':'' # rest) = scheme"
    by (rule takeWhile_then) simp
  then show ?thesis using assms by (simp add: after_scheme_def)
qed

lemma clean_url_keeps:
  assumes "list_all (\<lambda>c. 32 < code_of c) s" "s \<noteq> []"
  shows "\<exists>rest'. clean_url (s @ rest) = s @ rest'"
proof -
  have d: "dropWhile (\<lambda>c. code_of c \<le> 32) (s @ rest) = s @ rest"
    using assms by (cases s) auto
  have "filter (\<lambda>c. code_of c \<notin> {9, 10, 13}) s = s"
    using assms(1) by (auto simp: list_all_iff filter_id_conv)
  then show ?thesis unfolding clean_url_def d by simp
qed

lemma visible: "32 < code_of (CHR '':'')" "32 < code_of (CHR ''/'')" "32 < code_of (CHR ''@'')"
  by code_simp+

lemma netloc_userinfo:
  assumes scheme: "scheme \<noteq> []" "ascii_alpha (hd scheme)" "list_all scheme_char scheme"
    and user: "user \<noteq> []" "list_all plain_user_char user"
  shows "case url_netloc b (scheme @ ''://'' @ user @ ''@'' @ rest) of Inl _ \<Rightarrow> True | Inr n \<Rightarrow> has_userinfo n"
proof -
  let ?front = "scheme @ ''://'' @ user @ ''@''"
  have "list_all (\<lambda>c. 32 < code_of c) ?front"
    using scheme(3) user(2) visible
    by (auto simp: list_all_iff plain_user_char_def dest!: scheme_char_plain)
  then obtain rest' where "clean_url (?front @ rest) = ?front @ rest'"
    using clean_url_keeps [of ?front rest] by auto
  then have c: "clean_url (scheme @ ''://'' @ user @ ''@'' @ rest)
      = scheme @ CHR '':'' # (''//'' @ user @ ''@'' @ rest')" by simp
  let ?n = "takeWhile (\<lambda>c. c \<notin> set ''/?#'') (user @ ''@'' @ rest')"
  have "list_all (\<lambda>c. c \<notin> set ''/?#'') user"
    using user(2) by (auto simp: list_all_iff plain_user_char_def)
  then have "\<exists>t. ?n = user @ CHR ''@'' # t"
    by (auto simp: list_all_iff takeWhile_append2)
  then have "has_userinfo ?n"
    using user takeWhile_then [of "\<lambda>c. c \<noteq> CHR ''@''" user "CHR ''@''"]
    by (auto simp: has_userinfo_def list_all_iff plain_user_char_def)
  then show ?thesis
    unfolding url_netloc_def c after_scheme_split [OF scheme] Let_def by simp
qed

text \<open>
  No inline MCP entry whose URL embeds user information gets through: for every scheme and
  every non-empty user part the entry is rejected, whatever follows the at sign and whatever the
  other entries are.
\<close>

theorem credentialed_url_rejected:
  assumes "scheme \<noteq> []" and "ascii_alpha (hd scheme)" and "list_all scheme_char scheme"
    and "user \<noteq> []" and "list_all plain_user_char user"
    and "VDict entry \<in> set entries"
    and "map_of entry ''url'' = Some (VStr (scheme @ ''://'' @ user @ ''@'' @ rest))"
  shows "reject_secret_bearing_mcp bracketed_ok (VList entries) \<noteq> Ok ()"
proof -
  have "\<not> clean_url_of bracketed_ok (VStr (scheme @ ''://'' @ user @ ''@'' @ rest))"
    using netloc_userinfo [OF assms(1-5), of bracketed_ok rest] assms(1)
    by (auto simp: clean_url_of_def)
  with assms(7) have "\<not> clean_entry bracketed_ok (VDict entry)"
    by (auto simp: clean_entry_def dget_or_def)
  with assms(6) have "\<not> is_ok (map_res (check_mcp_entry bracketed_ok) entries)"
    by (auto simp: map_res_unit check_mcp_entry_iff)
  with assms(6) show ?thesis
    by (auto simp: reject_secret_bearing_mcp_def then_do_Ok_iff is_ok_iff)
qed

theorem credentialed_url_rejected_witness:
  "reject_secret_bearing_mcp (\<lambda>_. True)
     (VList [VStr ''catalog'', VDict [(''name'', VStr ''x''), (''url'', VStr (''https'' @ ''://'' @ ''bob:pw'' @ ''@'' @ ''h/p''))]])
   \<noteq> Ok ()"
  by (rule credentialed_url_rejected [where entry = "[(''name'', VStr ''x''), (''url'', VStr (''https'' @ ''://'' @ ''bob:pw'' @ ''@'' @ ''h/p''))]"
        and scheme = "''https''" and user = "''bob:pw''" and rest = "''h/p''"]) (simp_all, code_simp+)

end
