(* ===== verification/Conditions.thy ===== *)
theory Conditions
  imports PyValue
begin

text \<open>
  The workflow state of \<open>core/state.py\<close> with its derived status, and the safe condition
  evaluator of \<open>core/conditions.py\<close>. The pattern \<open>CONDITION_PATTERN\<close> is translated to the
  parser \<open>match_condition\<close>: each group of the pattern is followed by a character its own class
  excludes, so the greedy match is the only one and no backtracking can change the outcome.
\<close>

section \<open>Workflow state (core/state.py)\<close>

datatype core_status = Pending | Running | Completed | Failed | Skipped | AwaitingApproval | Dispatched

fun core_status_text :: "core_status \<Rightarrow> string" where
  "core_status_text Pending = ''pending''"
| "core_status_text Running = ''running''"
| "core_status_text Completed = ''completed''"
| "core_status_text Failed = ''failed''"
| "core_status_text Skipped = ''skipped''"
| "core_status_text AwaitingApproval = ''awaiting_approval''"
| "core_status_text Dispatched = ''dispatched''"

record core_step_result =
  cr_step_name :: string
  cr_status :: core_status
  cr_output :: "pydict option"
  cr_error :: "string option"

datatype run_status = RunRunning | RunCompleted | RunFailed | RunPaused

record workflow_state =
  ws_workflow_id :: string
  ws_workflow_name :: string
  ws_status :: run_status
  ws_current_step :: "string option"
  ws_steps :: "core_step_result dict"

definition derive_status :: "core_step_result dict \<Rightarrow> run_status" where
  "derive_status steps =
     (if steps = [] then RunRunning
      else let statuses = map (cr_status \<circ> snd) steps in
        if AwaitingApproval \<in> set statuses then RunPaused
        else if Dispatched \<in> set statuses \<or> Running \<in> set statuses then RunRunning
        else if Failed \<in> set statuses then RunFailed
        else if list_all (\<lambda>s. s \<in> {Completed, Skipped}) statuses then RunCompleted
        else RunRunning)"

section \<open>Condition evaluation (core/conditions.py)\<close>

datatype cond_field = FStatus | FApproved | FOutput string

datatype cond_op = OpEq | OpNe

text \<open>The groups of a successful match: step, field path with output key, operator, raw value.\<close>

record cond_match =
  cm_step :: string
  cm_field :: cond_field
  cm_operator :: "cond_op option"
  cm_raw :: string

text \<open>The alternatives \<open>(status|approved|output\.(\w+))\<close> and what follows them.\<close>

definition match_field :: "string \<Rightarrow> (cond_field \<times> string) option" where
  "match_field s =
     (if prefix ''status'' s then Some (FStatus, drop 6 s)
      else if prefix ''approved'' s then Some (FApproved, drop 8 s)
      else if prefix ''output.'' s then
        let k = takeWhile py_word (drop 7 s) in
          if k = [] then None else Some (FOutput k, dropWhile py_word (drop 7 s))
      else None)"

definition match_operator :: "string \<Rightarrow> cond_op option \<times> string" where
  "match_operator s =
     (if prefix ''=='' s then (Some OpEq, drop 2 s)
      else if prefix ''!='' s then (Some OpNe, drop 2 s)
      else (None, s))"

text \<open>\<open>(.*)$\<close>: the dot does not match a newline, and \<open>$\<close> also matches before a final newline.\<close>

definition match_rest :: "string \<Rightarrow> string option" where
  "match_rest s =
     (let line = takeWhile (\<lambda>c. c \<noteq> newline) s in
        if drop (length line) s = [] \<or> drop (length line) s = [newline] then Some line else None)"

definition match_condition :: "string \<Rightarrow> cond_match option" where
  "match_condition s =
     (if \<not> prefix ''steps.'' s then None
      else let name = takeWhile py_word (drop 6 s); after = dropWhile py_word (drop 6 s) in
        if name = [] \<or> \<not> prefix ''.'' after then None
        else case match_field (drop 1 after) of
          None \<Rightarrow> None
        | Some (fld, s1) \<Rightarrow>
            (case match_operator (py_lstrip s1) of (oper, s2) \<Rightarrow>
              (case match_rest (py_lstrip s2) of
                None \<Rightarrow> None
              | Some raw \<Rightarrow>
                  Some \<lparr>cm_step = name, cm_field = fld, cm_operator = oper, cm_raw = raw\<rparr>)))"

text \<open>The literal on the right of the operator; \<open>raw[1:-1]\<close> drops the quotes.\<close>

definition expected_value :: "string \<Rightarrow> pyval" where
  "expected_value raw =
     (if raw = ''true'' then VBool True
      else if raw = ''false'' then VBool False
      else if raw = ''null'' then VNone
      else if prefix [dq] raw \<and> suffix [dq] raw then VStr (drop 1 (butlast raw))
      else if prefix [sq] raw \<and> suffix [sq] raw then VStr (drop 1 (butlast raw))
      else VStr raw)"

definition output_truthy :: "pydict option \<Rightarrow> bool" where
  "output_truthy o' = (case o' of None \<Rightarrow> False | Some d \<Rightarrow> d \<noteq> [])"

definition actual_value :: "core_step_result \<Rightarrow> cond_field \<Rightarrow> pyval" where
  "actual_value r fld =
     (case fld of
        FStatus \<Rightarrow> VStr (core_status_text (cr_status r))
      | FApproved \<Rightarrow>
          (case cr_output r of
             Some d \<Rightarrow> if d \<noteq> [] then dget_or d ''approved'' (VBool False) else VBool False
           | None \<Rightarrow> VBool False)
      | FOutput k \<Rightarrow>
          (case cr_output r of
             Some d \<Rightarrow> if d \<noteq> [] then dget d k else VNone
           | None \<Rightarrow> VNone))"

text \<open>The body of \<open>evaluate_condition\<close> below the combinators.\<close>

definition evaluate_atom :: "string \<Rightarrow> workflow_state \<Rightarrow> bool res" where
  "evaluate_atom condition state =
     (case match_condition condition of
        None \<Rightarrow> Err (ValueError (''Unparseable condition: '' @ repr_str condition))
      | Some m \<Rightarrow>
          (case map_of (ws_steps state) (cm_step m) of
             None \<Rightarrow> Ok False
           | Some result \<Rightarrow>
               let actual = actual_value result (cm_field m);
                   expected = expected_value (py_strip (cm_raw m)) in
                 (case cm_operator m of
                    None \<Rightarrow> Ok (truthy actual)
                  | Some OpEq \<Rightarrow> Ok (py_eq actual expected)
                  | Some OpNe \<Rightarrow> Ok (\<not> py_eq actual expected))))"

function evaluate_condition :: "string \<Rightarrow> workflow_state \<Rightarrow> bool res" where
  "evaluate_condition condition0 state =
     (let condition = py_strip condition0 in
        if sublist '' or '' condition then
          any_res (\<lambda>p. evaluate_condition (py_strip p) state) (py_split '' or '' condition)
        else if sublist '' and '' condition then
          all_res (\<lambda>p. evaluate_condition (py_strip p) state) (py_split '' and '' condition)
        else evaluate_atom condition state)"
  by pat_completeness auto

lemma stripped_part_shorter:
  assumes "sep \<noteq> []" and "sublist sep (py_strip c)" and "p \<in> set (py_split sep (py_strip c))"
  shows "length (py_strip p) < length c"
proof -
  have "length (py_strip p) \<le> length p" by (rule length_py_strip)
  also have "\<dots> < length (py_strip c)" using assms by (rule split_part_shorter)
  also have "\<dots> \<le> length c" by (rule length_py_strip)
  finally show ?thesis .
qed

termination evaluate_condition
  by (relation "measure (\<lambda>(c, st). length c)") (auto intro: stripped_part_shorter)

declare evaluate_condition.simps [simp del]

section \<open>The combinators have two levels\<close>

lemma part_has_no_sep: "sep \<noteq> [] \<Longrightarrow> p \<in> set (py_split sep c) \<Longrightarrow> \<not> sublist sep (py_strip p)"
  using split_part_free sublist_py_strip sublist_order.order_trans by metis

lemma sublist_and_part:
  assumes "p \<in> set (py_split '' and '' c)" and "\<not> sublist '' or '' c"
  shows "\<not> sublist '' or '' (py_strip p)"
proof
  assume "sublist '' or '' (py_strip p)"
  moreover have "sublist (py_strip p) p" by (rule sublist_py_strip)
  moreover have "sublist p c"
    using sublist_join_member [OF assms(1), of "'' and ''"] by simp
  ultimately show False using assms(2) sublist_order.order_trans by blast
qed

lemma evaluate_stripped [simp]: "evaluate_condition (py_strip c) st = evaluate_condition c st"
  by (simp add: evaluate_condition.simps [of "py_strip c"] evaluate_condition.simps [of c])

lemma evaluate_leaf:
  "\<not> sublist '' or '' (py_strip c) \<Longrightarrow> \<not> sublist '' and '' (py_strip c) \<Longrightarrow>
   evaluate_condition c st = evaluate_atom (py_strip c) st"
  by (simp add: evaluate_condition.simps)

lemma evaluate_conjunction:
  assumes "\<not> sublist '' or '' (py_strip c)"
  shows "evaluate_condition c st =
    all_res (\<lambda>q. evaluate_atom (py_strip q) st) (py_split '' and '' (py_strip c))"
proof (cases "sublist '' and '' (py_strip c)")
  case True
  have "evaluate_condition q st = evaluate_atom (py_strip q) st"
    if "q \<in> set (py_split '' and '' (py_strip c))" for q
    by (rule evaluate_leaf) (use that assms sublist_and_part part_has_no_sep in auto)
  with True assms show ?thesis
    by (simp add: evaluate_condition.simps [of c] cong: all_res_cong)
next
  case False
  with assms show ?thesis by (simp add: evaluate_leaf del: all_res.simps)
qed

lemma evaluate_dnf:
  "evaluate_condition c st =
     any_res (\<lambda>p. all_res (\<lambda>q. evaluate_atom (py_strip q) st) (py_split '' and '' (py_strip p)))
       (py_split '' or '' (py_strip c))"
proof (cases "sublist '' or '' (py_strip c)")
  case True
  have "evaluate_condition p st =
      all_res (\<lambda>q. evaluate_atom (py_strip q) st) (py_split '' and '' (py_strip p))"
    if "p \<in> set (py_split '' or '' (py_strip c))" for p
    by (rule evaluate_conjunction) (use that part_has_no_sep in auto)
  with True show ?thesis
    by (simp add: evaluate_condition.simps [of c] cong: any_res_cong)
next
  case False
  then show ?thesis by (simp add: evaluate_conjunction del: any_res.simps)
qed

text \<open>
  The recursive evaluator computes a fixed two-level reading of the expression:
  a disjunction over the parts between \<open>" or "\<close>, each a conjunction over the parts between
  \<open>" and "\<close>, each an atom. So \<open>and\<close> binds tighter than \<open>or\<close>, evaluation goes left to right, and an
  atom is parsed only if the ones before it did not decide.
\<close>

theorem evaluate_condition_two_levels:
  "evaluate_condition c st =
     any_res (\<lambda>p. all_res (\<lambda>q. evaluate_atom (py_strip q) st) (py_split '' and '' (py_strip p)))
       (py_split '' or '' (py_strip c))"
  by (rule evaluate_dnf)

lemma evaluate_atom_Err:
  "evaluate_atom c st = Inl e \<Longrightarrow>
   match_condition c = None \<and> e = ValueError (''Unparseable condition: '' @ repr_str c)"
  by (auto simp: evaluate_atom_def Let_def split: option.splits cond_op.splits)

lemma evaluate_condition_Err:
  assumes "evaluate_condition c st = Inl e"
  shows "\<exists>q. match_condition q = None \<and> e = ValueError (''Unparseable condition: '' @ repr_str q)"
proof -
  from assms obtain p where
    "all_res (\<lambda>q. evaluate_atom (py_strip q) st) (py_split '' and '' (py_strip p)) = Inl e"
    by (auto simp: evaluate_dnf dest: any_res_Err)
  then obtain q where "evaluate_atom (py_strip q) st = Inl e"
    by (auto dest: all_res_Err)
  then show ?thesis using evaluate_atom_Err by blast
qed

text \<open>
  The only exception the evaluator raises is a \<open>ValueError\<close> naming an atom that the condition
  grammar rejects; it never raises because of the workflow state.
\<close>

theorem evaluate_condition_only_value_errors:
  assumes "evaluate_condition c st = Inl e"
  shows "\<exists>q. match_condition q = None \<and> e = ValueError (''Unparseable condition: '' @ repr_str q)"
  using assms by (rule evaluate_condition_Err)

theorem evaluate_condition_only_value_errors_witness:
  "\<exists>q. match_condition q = None \<and>
       ValueError (''Unparseable condition: '' @ repr_str ''nonsense'') =
       ValueError (''Unparseable condition: '' @ repr_str q)"
proof -
  let ?st = "\<lparr>ws_workflow_id = [], ws_workflow_name = [], ws_status = RunRunning,
     ws_current_step = None, ws_steps = []\<rparr>"
  have "evaluate_condition ''nonsense'' ?st =
      Inl (ValueError (''Unparseable condition: '' @ repr_str ''nonsense''))"
    by code_simp
  then show ?thesis by (rule evaluate_condition_only_value_errors)
qed

section \<open>Rendering and parsing a condition\<close>

fun field_text :: "cond_field \<Rightarrow> string" where
  "field_text FStatus = ''status''"
| "field_text FApproved = ''approved''"
| "field_text (FOutput k) = ''output.'' @ k"

fun op_text :: "cond_op option \<Rightarrow> string" where
  "op_text None = []"
| "op_text (Some OpEq) = ''=='' "
| "op_text (Some OpNe) = ''!=''"

definition render_condition :: "cond_match \<Rightarrow> string" where
  "render_condition m =
     ''steps.'' @ cm_step m @ ''.'' @ field_text (cm_field m) @ '' '' @ op_text (cm_operator m)
     @ (if cm_operator m = None then [] else '' '' @ cm_raw m)"

definition word :: "string \<Rightarrow> bool" where
  "word s = (s \<noteq> [] \<and> list_all py_word s)"

definition wf_cond_match :: "cond_match \<Rightarrow> bool" where
  "wf_cond_match m =
     (word (cm_step m)
      \<and> (case cm_field m of FOutput k \<Rightarrow> word k | _ \<Rightarrow> True)
      \<and> newline \<notin> set (cm_raw m)
      \<and> (cm_raw m = [] \<or> \<not> py_space (hd (cm_raw m)))
      \<and> (cm_operator m = None \<longrightarrow> cm_raw m = []))"

lemma not_word_simps [simp]: "\<not> py_word CHR ''.''" "\<not> py_word CHR '' ''"
  by (simp_all add: py_word_def code_of_def)

lemma space_simps [simp]:
  "py_space CHR '' ''" "\<not> py_space CHR ''=''" "\<not> py_space CHR ''!''"
  by (simp_all add: py_space_def code_of_def)

lemma word_span:
  assumes "word w" and "\<not> py_word c"
  shows "takeWhile py_word (w @ c # s) = w" and "dropWhile py_word (w @ c # s) = c # s"
  using assms by (simp_all add: word_def list_all_iff)

lemma lstrip_stop [simp]: "s = [] \<or> \<not> py_space (hd s) \<Longrightarrow> py_lstrip s = s"
  by (cases s) (auto simp: py_lstrip_def)

lemma match_rest_line [simp]: "newline \<notin> set s \<Longrightarrow> match_rest s = Some s"
proof -
  assume "newline \<notin> set s"
  then have "takeWhile (\<lambda>c. c \<noteq> newline) s = s" by (auto simp: takeWhile_eq_all_conv)
  then show ?thesis unfolding match_rest_def Let_def by (simp only: drop_all order_refl) simp
qed

lemma match_field_render:
  "(case fld of FOutput k \<Rightarrow> word k | _ \<Rightarrow> True) \<Longrightarrow>
   match_field (field_text fld @ '' '' @ s) = Some (fld, '' '' @ s)"
  using word_span [of _ "CHR '' ''" s]
  by (cases fld) (auto simp: match_field_def word_def Let_def)

lemma match_tail_render:
  assumes "wf_cond_match m"
  shows "\<exists>s2. match_operator (py_lstrip ('' '' @ op_text (cm_operator m)
            @ (if cm_operator m = None then [] else '' '' @ cm_raw m))) = (cm_operator m, s2)
          \<and> match_rest (py_lstrip s2) = Some (cm_raw m)"
  using assms
  by (cases "cm_operator m" rule: op_text.cases)
    (auto simp: wf_cond_match_def py_lstrip_def match_operator_def
      simp del: lstrip_stop intro: match_rest_line
      split: if_splits, (metis dropWhile_eq_self_iff match_rest_line)+)

text \<open>
  Parsing a rendered condition gives back its step, field, operator and value, for every
  condition of the documented grammar (word-character step and output names, a value without
  newline or leading blank).
\<close>

theorem match_render_condition:
  assumes "wf_cond_match m"
  shows "match_condition (render_condition m) = Some m"
proof -
  let ?tail = "op_text (cm_operator m) @ (if cm_operator m = None then [] else '' '' @ cm_raw m)"
  have w: "word (cm_step m)" and f: "case cm_field m of FOutput k \<Rightarrow> word k | _ \<Rightarrow> True"
    using assms by (auto simp: wf_cond_match_def)
  have "drop 6 (render_condition m) = cm_step m @ CHR ''.'' # field_text (cm_field m) @ '' '' @ ?tail"
    by (simp add: render_condition_def)
  with w have name: "takeWhile py_word (drop 6 (render_condition m)) = cm_step m"
    and after: "dropWhile py_word (drop 6 (render_condition m)) =
      ''.'' @ field_text (cm_field m) @ '' '' @ ?tail"
    by (simp_all add: word_span)
  obtain s2 where oper: "match_operator (py_lstrip ('' '' @ ?tail)) = (cm_operator m, s2)"
    and raw: "match_rest (py_lstrip s2) = Some (cm_raw m)"
    using match_tail_render [OF assms] by auto
  have "prefix ''steps.'' (render_condition m)" by (simp add: render_condition_def)
  moreover have "cm_step m \<noteq> []" using w by (simp add: word_def)
  ultimately show ?thesis
    unfolding match_condition_def name after Let_def
    using match_field_render [OF f, of ?tail] oper raw by simp
qed

theorem match_render_condition_witness:
  "match_condition (render_condition
     \<lparr>cm_step = ''diagnose'', cm_field = FOutput ''severity'', cm_operator = Some OpNe, cm_raw = ''low''\<rparr>)
   = Some \<lparr>cm_step = ''diagnose'', cm_field = FOutput ''severity'', cm_operator = Some OpNe, cm_raw = ''low''\<rparr>"
  by (rule match_render_condition) code_simp

text \<open>
  The derived status of a run: paused exactly if a step awaits approval, completed exactly if
  every step is completed or skipped (and there is one), and failed exactly if some step failed
  and none is still awaiting, dispatched or running.
\<close>

theorem derive_status_cases:
  "(derive_status steps = RunPaused \<longleftrightarrow> (\<exists>s \<in> set steps. cr_status (snd s) = AwaitingApproval))
   \<and> (derive_status steps = RunCompleted \<longleftrightarrow>
        steps \<noteq> [] \<and> list_all (\<lambda>s. cr_status (snd s) \<in> {Completed, Skipped}) steps)
   \<and> (derive_status steps = RunFailed \<longleftrightarrow>
        (\<exists>s \<in> set steps. cr_status (snd s) = Failed)
        \<and> list_all (\<lambda>s. cr_status (snd s) \<notin> {AwaitingApproval, Dispatched, Running}) steps)"
proof -
  let ?S = "(cr_status \<circ> snd) ` set steps"
  have some: "(\<exists>s \<in> set steps. cr_status (snd s) = x) \<longleftrightarrow> x \<in> ?S" for x by auto
  have every: "list_all (\<lambda>s. cr_status (snd s) \<in> A) steps \<longleftrightarrow> ?S \<subseteq> A" for A
    by (auto simp: list_all_iff)
  have none: "list_all (\<lambda>s. cr_status (snd s) \<notin> A) steps \<longleftrightarrow> ?S \<inter> A = {}" for A
    by (auto simp: list_all_iff)
  have "derive_status steps =
      (if ?S = {} then RunRunning
       else if AwaitingApproval \<in> ?S then RunPaused
       else if Dispatched \<in> ?S \<or> Running \<in> ?S then RunRunning
       else if Failed \<in> ?S then RunFailed
       else if ?S \<subseteq> {Completed, Skipped} then RunCompleted else RunRunning)"
    unfolding derive_status_def Let_def by (auto simp: list_all_iff)
  moreover have "steps \<noteq> [] \<longleftrightarrow> ?S \<noteq> {}" by simp
  ultimately show ?thesis unfolding some every none
    by (cases "AwaitingApproval \<in> ?S"; cases "Dispatched \<in> ?S \<or> Running \<in> ?S"; cases "Failed \<in> ?S")
      (auto simp del: image_is_empty)
qed

end
