(* ===== verification/Interpolation.thy ===== *)
theory Interpolation
  imports Conditions
begin

text \<open>
  Prompt interpolation (\<open>core/interpolation.py\<close>): the path walker, the formatting of values and the
  substitution of \<open>{{ steps.X.output.path }}\<close> placeholders. The patterns of the module are
  translated to parsers; in each of them a group is followed by a character its class excludes, so
  the greedy match is the only one.
\<close>

section \<open>Paths\<close>

definition quoted :: "string \<Rightarrow> string" where
  "quoted s = [sq] @ s @ [sq]"

text \<open>\<open>_SEGMENT_PATTERN.fullmatch\<close>: a key and an optional index between brackets.\<close>

definition match_segment :: "string \<Rightarrow> (string \<times> string option) option" where
  "match_segment s =
     (let key = takeWhile py_word s; rest = dropWhile py_word s in
        if key = [] then None
        else if rest = [] then Some (key, None)
        else let ds = takeWhile py_digit (drop 1 rest) in
          if prefix ''['' rest \<and> ds \<noteq> [] \<and> dropWhile py_digit (drop 1 rest) = '']''
          then Some (key, Some ds) else None)"

text \<open>One round of the loop of \<open>resolve_path\<close>, and the loop.\<close>

fun index_value :: "pyval \<Rightarrow> string list \<Rightarrow> nat \<Rightarrow> pyval res" where
  "index_value (VList xs) visited idx =
     (if length xs \<le> idx
      then Err (ValueError (''Index ['' @ show_nat idx @ ''] out of range at ''
             @ quoted (py_join ''.'' visited) @ '' (length '' @ show_nat (length xs) @ '')''))
      else Ok (xs ! idx))"
| "index_value v visited idx =
     Err (ValueError (''Path '' @ quoted (py_join ''.'' visited)
          @ '' is not a list, cannot index with ['' @ show_nat idx @ '']''))"

fun key_value :: "pyval \<Rightarrow> string list \<Rightarrow> string \<Rightarrow> pyval res" where
  "key_value (VDict d) visited key =
     (case map_of d key of
        Some v \<Rightarrow> Ok v
      | None \<Rightarrow> Err (ValueError (''Key '' @ quoted key @ '' not found at ''
          @ quoted (if py_join ''.'' visited = [] then ''root'' else py_join ''.'' visited))))"
| "key_value v visited key =
     Err (ValueError (''Path '' @ quoted (py_join ''.'' visited)
          @ '' is not a dict, cannot access key '' @ quoted key))"

fun resolve_segments :: "pyval \<Rightarrow> string list \<Rightarrow> string list \<Rightarrow> pyval res" where
  "resolve_segments current visited [] = Ok current"
| "resolve_segments current visited (segment # rest) =
     (case match_segment segment of
        None \<Rightarrow> Err (ValueError (''Invalid path segment: '' @ quoted segment))
      | Some (key, index_str) \<Rightarrow>
          then_do (key_value current visited key) (\<lambda>v.
            case index_str of
              None \<Rightarrow> resolve_segments v (visited @ [key]) rest
            | Some ds \<Rightarrow>
                let idx = read_nat ds in
                  then_do (index_value v (visited @ [key]) idx) (\<lambda>w.
                    resolve_segments w (visited @ [key @ ''['' @ show_nat idx @ '']'']) rest)))"

definition resolve_path :: "pyval \<Rightarrow> string \<Rightarrow> pyval res" where
  "resolve_path data path = resolve_segments data [] (py_split ''.'' path)"

section \<open>Formatting\<close>

definition max_interpolated_value_length :: nat where
  "max_interpolated_value_length = 10000"

text \<open>\<open>_sanitize_value\<close> (its two log lines left out).\<close>

definition sanitize_value :: "string \<Rightarrow> string" where
  "sanitize_value value_str =
     (if length value_str > max_interpolated_value_length
      then take max_interpolated_value_length value_str @ ''...'' else value_str)"

definition format_value :: "pyval \<Rightarrow> string" where
  "format_value v =
     (if v = VNone then ''<data>null</data>''
      else ''<data>'' @ sanitize_value (json_dumps v) @ ''</data>'')"

section \<open>Placeholders\<close>

text \<open>\<open>[\w]+(?:\[\d+\])?\<close>: the text of one path segment and what follows it.\<close>

definition scan_segment :: "string \<Rightarrow> (string \<times> string) option" where
  "scan_segment s =
     (let w = takeWhile py_word s; r = dropWhile py_word s;
          ds = takeWhile py_digit (drop 1 r); r' = dropWhile py_digit (drop 1 r) in
        if w = [] then None
        else if prefix ''['' r \<and> ds \<noteq> [] \<and> prefix '']'' r'
        then Some (w @ ''['' @ ds @ '']'', drop 1 r')
        else Some (w, r))"

lemma scan_segment_consumes: "scan_segment s = Some (c, r) \<Longrightarrow> s = c @ r \<and> c \<noteq> []"
proof -
  assume a: "scan_segment s = Some (c, r)"
  let ?w = "takeWhile py_word s" and ?r = "dropWhile py_word s"
  have s: "s = ?w @ ?r" by simp
  have d: "drop 1 ?r = takeWhile py_digit (drop 1 ?r) @ dropWhile py_digit (drop 1 ?r)" by simp
  have one: "x = [y] @ drop 1 x" if "prefix [y] x" for x and y :: char
    using that by (cases x) auto
  show ?thesis
  proof (cases "prefix ''['' ?r \<and> takeWhile py_digit (drop 1 ?r) \<noteq> []
      \<and> prefix '']'' (dropWhile py_digit (drop 1 ?r))")
    case True
    then have "?r = ''['' @ takeWhile py_digit (drop 1 ?r) @ '']'' @ drop 1 (dropWhile py_digit (drop 1 ?r))"
      using one [of "CHR ''[''" ?r] one [of "CHR '']''" "dropWhile py_digit (drop 1 ?r)"] d by metis
    with True a s show ?thesis by (auto simp: scan_segment_def Let_def split: if_splits)
  next
    case False
    with a s show ?thesis by (auto simp: scan_segment_def Let_def split: if_splits)
  qed
qed

function scan_path :: "string \<Rightarrow> (string \<times> string) option" where
  "scan_path s =
     (case scan_segment s of
        None \<Rightarrow> None
      | Some (c, r) \<Rightarrow>
          (if prefix ''.'' r then
             (case scan_path (drop 1 r) of
                None \<Rightarrow> Some (c, r)
              | Some (c', r') \<Rightarrow> Some (c @ ''.'' @ c', r'))
           else Some (c, r)))"
  by pat_completeness auto
termination
proof (relation "measure length", goal_cases)
  case (2 s a c r)
  then show ?case using scan_segment_consumes [of s c r] by (cases r) auto
qed simp

declare scan_path.simps [simp del]

lemma scan_path_consumes: "scan_path s = Some (c, r) \<Longrightarrow> s = c @ r \<and> c \<noteq> []"
proof (induction s arbitrary: c r rule: scan_path.induct)
  case (1 s)
  obtain c1 r1 where seg: "scan_segment s = Some (c1, r1)"
    using "1.prems" by (auto simp: scan_path.simps [of s] split: option.splits)
  then have s: "s = c1 @ r1" "c1 \<noteq> []" using scan_segment_consumes by blast+
  show ?case
  proof (cases "prefix ''.'' r1")
    case True
    then have r1: "r1 = ''.'' @ drop 1 r1" by (cases r1) auto
    show ?thesis
    proof (cases "scan_path (drop 1 r1)")
      case None
      with seg True have "scan_path s = Some (c1, r1)" by (subst scan_path.simps) simp
      with "1.prems" s show ?thesis by simp
    next
      case (Some x)
      then obtain c' r' where x: "scan_path (drop 1 r1) = Some (c', r')" by (cases x) auto
      with "1.IH" seg True have "drop 1 r1 = c' @ r'" by blast
      moreover from seg True x have "scan_path s = Some (c1 @ ''.'' @ c', r')"
        by (subst scan_path.simps) simp
      ultimately show ?thesis using "1.prems" s r1 by auto
    qed
  next
    case False
    with seg have "scan_path s = Some (c1, r1)" by (subst scan_path.simps) simp
    with "1.prems" s show ?thesis by simp
  qed
qed

text \<open>
  \<open>TEMPLATE_PATTERN\<close> at the head of the text: the step name, the path, and what follows the
  placeholder.
\<close>

definition match_template :: "string \<Rightarrow> (string \<times> string \<times> string) option" where
  "match_template s =
     (if \<not> prefix ''{{'' s then None
      else let s1 = py_lstrip (drop 2 s) in
        if \<not> prefix ''steps.'' s1 then None
        else let name = takeWhile py_word (drop 6 s1); s2 = dropWhile py_word (drop 6 s1) in
          if name = [] \<or> \<not> prefix ''.output.'' s2 then None
          else case scan_path (drop 8 s2) of
            None \<Rightarrow> None
          | Some (path, s3) \<Rightarrow>
              let s4 = py_lstrip s3 in
                if prefix ''}}'' s4 then Some (name, path, drop 2 s4) else None)"

lemma match_template_shorter: "match_template s = Some (n, p, r) \<Longrightarrow> length r < length s"
proof -
  assume a: "match_template s = Some (n, p, r)"
  let ?s1 = "py_lstrip (drop 2 s)"
  let ?s2 = "dropWhile py_word (drop 6 ?s1)"
  have lstrip: "length (py_lstrip t) \<le> length t" for t
    by (simp add: py_lstrip_def length_dropWhile_le)
  from a obtain s3 where p: "scan_path (drop 8 ?s2) = Some (p, s3)" and pre: "prefix ''{{'' s"
    and r: "r = drop 2 (py_lstrip s3)"
    by (auto simp: match_template_def Let_def split: if_splits option.splits)
  have "length r \<le> length s3" using r lstrip [of s3] by simp
  also have "\<dots> \<le> length (drop 8 ?s2)" using scan_path_consumes [OF p] by simp
  also have "\<dots> \<le> length ?s2" by simp
  also have "\<dots> \<le> length (drop 6 ?s1)" by (rule length_dropWhile_le)
  also have "\<dots> \<le> length ?s1" by simp
  also have "\<dots> \<le> length (drop 2 s)" by (rule lstrip)
  also have "\<dots> < length s" using pre by (cases s) auto
  finally show ?thesis .
qed

text \<open>\<open>re.sub\<close> with the inner function \<open>replacer\<close>: one scan, left to right.\<close>

definition replacer :: "workflow_state \<Rightarrow> string \<Rightarrow> string \<Rightarrow> string res" where
  "replacer state name path =
     (let step_ref = ''steps.'' @ name @ ''.output.'' @ path;
          missing = Err (ValueError (''Template references missing step or output: '' @ step_ref)) in
        case map_of (ws_steps state) name of
          None \<Rightarrow> missing
        | Some result \<Rightarrow>
            (case cr_output result of
               None \<Rightarrow> missing
             | Some out \<Rightarrow>
                 then_do
                   (if CHR ''.'' \<notin> set path \<and> CHR ''['' \<notin> set path
                    then Ok (dget out path) else resolve_path (VDict out) path)
                   (\<lambda>v. Ok (format_value v))))"

function sub_template :: "(string \<Rightarrow> string \<Rightarrow> string res) \<Rightarrow> string \<Rightarrow> string res" where
  "sub_template repl s =
     (if s = [] then Ok []
      else case match_template s of
        None \<Rightarrow> then_do (sub_template repl (tl s)) (\<lambda>r. Ok (hd s # r))
      | Some (name, path, rest) \<Rightarrow>
          then_do (repl name path) (\<lambda>v. then_do (sub_template repl rest) (\<lambda>r. Ok (v @ r))))"
  by pat_completeness auto
termination
  by (relation "measure (\<lambda>(repl, s). length s)") (auto dest: match_template_shorter)

declare sub_template.simps [simp del]

definition interpolate :: "string \<Rightarrow> workflow_state \<Rightarrow> string res" where
  "interpolate template state = sub_template (replacer state) template"

section \<open>One pass over the template\<close>

text \<open>The template read on its own, without any workflow state: characters and references.\<close>

datatype piece = Lit char | Ref string string

function pieces :: "string \<Rightarrow> piece list" where
  "pieces s =
     (if s = [] then []
      else case match_template s of
        None \<Rightarrow> Lit (hd s) # pieces (tl s)
      | Some (name, path, rest) \<Rightarrow> Ref name path # pieces rest)"
  by pat_completeness auto
termination
  by (relation "measure length") (auto dest: match_template_shorter)

declare pieces.simps [simp del]

fun render_piece :: "workflow_state \<Rightarrow> piece \<Rightarrow> string res" where
  "render_piece st (Lit c) = Ok [c]"
| "render_piece st (Ref n p) = replacer st n p"

lemma sub_template_pieces:
  "sub_template (replacer st) t =
     then_do (map_res (render_piece st) (pieces t)) (\<lambda>xs. Ok (concat xs))"
proof (induction t rule: pieces.induct)
  case (1 s)
  show ?case
  proof (cases "s = []")
    case True
    then show ?thesis by (simp add: sub_template.simps pieces.simps)
  next
    case ne: False
    show ?thesis
    proof (cases "match_template s")
      case None
      have "sub_template (replacer st) s = then_do (sub_template (replacer st) (tl s)) (\<lambda>r. Ok (hd s # r))"
        using ne None by (subst sub_template.simps) simp
      moreover have "pieces s = Lit (hd s) # pieces (tl s)"
        using ne None by (subst pieces.simps) simp
      ultimately show ?thesis using "1.IH"(1) [OF ne None]
        by (cases "map_res (render_piece st) (pieces (tl s))") simp_all
    next
      case (Some m)
      then obtain n p r where m: "match_template s = Some (n, p, r)" by (cases m) auto
      have "sub_template (replacer st) s =
          then_do (replacer st n p) (\<lambda>v. then_do (sub_template (replacer st) r) (\<lambda>x. Ok (v @ x)))"
        using ne m by (subst sub_template.simps) simp
      moreover have "pieces s = Ref n p # pieces r"
        using ne m by (subst pieces.simps) simp
      moreover have "sub_template (replacer st) r =
          then_do (map_res (render_piece st) (pieces r)) (\<lambda>xs. Ok (concat xs))"
        using "1.IH"(2) ne m by blast
      ultimately show ?thesis
        by (cases "replacer st n p"; cases "map_res (render_piece st) (pieces r)") simp_all
    qed
  qed
qed

text \<open>
  Interpolation expands once: the references are those of the template alone, whatever the
  step outputs hold, and the result is the template's own characters with each reference replaced
  by its formatted value. A value that contains template syntax is inserted as it is.
\<close>

theorem interpolate_single_pass:
  "interpolate t st = then_do (map_res (render_piece st) (pieces t)) (\<lambda>xs. Ok (concat xs))"
  by (simp add: interpolate_def sub_template_pieces)

lemma key_value_Err: "key_value v vis k = Inl e \<Longrightarrow> is_ValueError e"
  by (cases v) (auto split: option.splits)

lemma index_value_Err: "index_value v vis i = Inl e \<Longrightarrow> is_ValueError e"
  by (cases v) (auto split: if_splits)

lemma resolve_segments_Err:
  "resolve_segments v vis segs = Inl e \<Longrightarrow> is_ValueError e"
proof (induction v vis segs rule: resolve_segments.induct)
  case (2 current visited segment rest)
  show ?case
  proof (cases "match_segment segment")
    case None
    with "2.prems" show ?thesis by auto
  next
    case (Some m)
    then obtain k i where m: "match_segment segment = Some (k, i)" by (cases m) auto
    show ?thesis
    proof (cases "key_value current visited k")
      case (Inl e')
      with "2.prems" m show ?thesis by (auto dest: key_value_Err)
    next
      case (Inr v)
      with 2 m show ?thesis
        by (cases i) (auto simp: Let_def then_do_Err_iff dest: index_value_Err)
    qed
  qed
qed simp

lemma replacer_Err: "replacer st n p = Inl e \<Longrightarrow> is_ValueError e"
  by (auto simp: replacer_def Let_def resolve_path_def then_do_Err_iff
      split: option.splits if_splits dest: resolve_segments_Err)

text \<open>
  Interpolation raises exactly if some reference of the template cannot be resolved in the
  state, and what it raises is a \<open>ValueError\<close>, which is the exception its callers catch.
\<close>

theorem interpolate_raises_iff:
  "(is_ok (interpolate t st) \<longleftrightarrow> list_all (\<lambda>x. is_ok (render_piece st x)) (pieces t))
   \<and> (case interpolate t st of Inl e \<Rightarrow> is_ValueError e | Inr _ \<Rightarrow> True)"
proof -
  have "is_ok (interpolate t st) \<longleftrightarrow> is_ok (map_res (render_piece st) (pieces t))"
    by (simp add: interpolate_def sub_template_pieces is_ok_iff then_do_Ok_iff)
  moreover have "is_ValueError e" if "interpolate t st = Inl e" for e
  proof -
    from that have "map_res (render_piece st) (pieces t) = Inl e"
      by (auto simp: interpolate_def sub_template_pieces then_do_Err_iff)
    then obtain x where "render_piece st x = Inl e" by (blast dest: map_res_Err)
    then show ?thesis by (cases x) (auto dest: replacer_Err)
  qed
  ultimately show ?thesis by (simp add: map_res_is_ok split: sum.split)
qed

lemma no_braces_no_match: "\<not> sublist ''{{'' s \<Longrightarrow> match_template s = None"
  by (auto simp: match_template_def dest: prefix_imp_sublist)

lemma interpolate_no_braces: "\<not> sublist ''{{'' t \<Longrightarrow> interpolate t st = Ok t"
  unfolding interpolate_def
proof (induction t)
  case Nil
  then show ?case by (simp add: sub_template.simps)
next
  case (Cons c t)
  then have "match_template (c # t) = None" and "\<not> sublist ''{{'' t"
    by (auto simp: no_braces_no_match sublist_Cons_right simp del: prefix_Cons)
  with Cons.IH show ?case by (subst sub_template.simps) simp
qed

section \<open>Size of what is inserted\<close>

lemma length_sanitize: "length (sanitize_value s) \<le> max_interpolated_value_length + 3"
  by (simp add: sanitize_value_def)

text \<open>
  Every inserted value is bounded and delimited: it is at most 10016 characters long and sits
  between \<open><data>\<close> and \<open></data>\<close>.
\<close>

theorem format_value_bounded:
  "length (format_value v) \<le> 10016 \<and> prefix ''<data>'' (format_value v) \<and> suffix ''</data>'' (format_value v)"
proof -
  have "suffix ''</data>'' (''<data>'' @ s @ ''</data>'')" for s
    by (metis append.assoc suffixI)
  moreover have "suffix ''</data>'' ''<data>null</data>''" by code_simp
  moreover have "length (sanitize_value (json_dumps v)) \<le> 10003"
    using length_sanitize [of "json_dumps v"] by (simp add: max_interpolated_value_length_def)
  ultimately show ?thesis by (auto simp: format_value_def)
qed

text \<open>
  The closing delimiter is not protected: JSON serialisation leaves \<open></data>\<close> in a text value
  as it is, so a step output can close the data section early.
\<close>

theorem format_value_delimiter_injection:
  "\<exists>inner. format_value (VStr (''</data>'' @ s)) = ''<data>'' @ [dq] @ ''</data>'' @ inner"
proof -
  have c: "json_str (''</data>'' @ s) = [dq] @ ''</data>'' @ concat (map json_char s) @ [dq]"
    by (simp add: json_str_def json_char_def code_of_def)
  have "\<exists>x. sanitize_value ([dq] @ ''</data>'' @ r) = [dq] @ ''</data>'' @ x" for r
    by (auto simp: sanitize_value_def max_interpolated_value_length_def take_Cons')
  then obtain x where "sanitize_value (json_str (''</data>'' @ s)) = [dq] @ ''</data>'' @ x"
    unfolding c by blast
  then have "format_value (VStr (''</data>'' @ s)) = ''<data>'' @ ([dq] @ ''</data>'' @ x) @ ''</data>''"
    by (simp only: format_value_def json_dumps.simps pyval.distinct if_False)
  then show ?thesis by (intro exI [of _ "x @ ''</data>''"]) simp
qed

section \<open>What a path denotes\<close>

text \<open>
  The abstract reading of a path: a list of keys, each with an optional index, walked through
  nested dictionaries and lists.
\<close>

fun walk :: "pyval \<Rightarrow> (string \<times> nat option) list \<Rightarrow> pyval option" where
  "walk v [] = Some v"
| "walk (VDict d) ((k, i) # segs) =
     Option.bind (map_of d k) (\<lambda>v.
       case (i, v) of
         (None, _) \<Rightarrow> walk v segs
       | (Some n, VList xs) \<Rightarrow> if n < length xs then walk (xs ! n) segs else None
       | (Some n, _) \<Rightarrow> None)"
| "walk _ (_ # _) = None"

fun render_seg :: "string \<times> nat option \<Rightarrow> string" where
  "render_seg (k, None) = k"
| "render_seg (k, Some n) = k @ ''['' @ show_nat n @ '']''"

lemma word_chars [simp]:
  "\<not> py_word CHR ''[''" "\<not> py_digit CHR '']''" "\<not> py_digit CHR ''.''"
  by (simp_all add: py_word_def py_digit_def code_of_def)

lemma match_segment_render:
  "word k \<Longrightarrow> match_segment (render_seg (k, i)) = Some (k, map_option show_nat i)"
proof (cases i)
  case None
  assume "word k"
  then have "takeWhile py_word k = k" "dropWhile py_word k = []" "k \<noteq> []"
    by (simp_all add: word_def list_all_iff takeWhile_eq_all_conv)
  with None show ?thesis
    by (simp add: match_segment_def Let_def del: takeWhile_eq_all_conv dropWhile_eq_Nil_conv)
next
  case (Some n)
  assume k: "word k"
  let ?d = "show_nat n"
  have d: "takeWhile py_digit (?d @ '']'') = ?d" "dropWhile py_digit (?d @ '']'') = '']''" "?d \<noteq> []"
    using show_nat_digits [of n] by (simp_all add: list_all_iff)
  from k have "takeWhile py_word (k @ CHR ''['' # ?d @ '']'') = k"
    "dropWhile py_word (k @ CHR ''['' # ?d @ '']'') = CHR ''['' # ?d @ '']''" "k \<noteq> []"
    by (simp_all add: word_span word_def)
  with d Some show ?thesis by (simp add: match_segment_def Let_def)
qed

lemma resolve_segments_walk:
  "list_all (word \<circ> fst) segs \<Longrightarrow>
   (resolve_segments v vis (map render_seg segs) = Ok w) = (walk v segs = Some w)"
proof (induction v segs arbitrary: vis rule: walk.induct)
  case (2 d k i segs)
  then have m: "match_segment (render_seg (k, i)) = Some (k, map_option show_nat i)"
    by (simp add: match_segment_render)
  show ?case
  proof (cases "map_of d k")
    case None
    with m show ?thesis by simp
  next
    case (Some v)
    show ?thesis
    proof (cases i)
      case i: None
      with 2 Some m show ?thesis by simp
    next
      case i: (Some n)
      show ?thesis
      proof (cases "\<exists>xs. v = VList xs")
        case True
        then obtain xs where v: "v = VList xs" by blast
        show ?thesis
        proof (cases "n < length xs")
          case True
          with 2 Some m i v show ?thesis by (simp add: Let_def)
        next
          case False
          with Some m i v show ?thesis by (simp add: Let_def)
        qed
      next
        case False
        then have "walk (VDict d) ((k, i) # segs) = None"
          using Some i by (cases v) auto
        moreover have "\<not> is_ok (index_value v vis' n)" for vis'
          using False by (cases v) auto
        ultimately show ?thesis using Some m i
          by (auto simp: Let_def is_ok_iff then_do_Ok_iff)
      qed
    qed
  qed
qed (auto simp: match_segment_render)

lemma dot_free_render:
  assumes "word k"
  shows "CHR ''.'' \<notin> set (render_seg (k, i))"
proof -
  have "CHR ''.'' \<notin> set k" using assms by (auto simp: word_def list_all_iff)
  moreover have "CHR ''.'' \<notin> set (show_nat n)" for n
    using show_nat_digits [of n] by (auto simp: list_all_iff)
  ultimately show ?thesis by (cases i) auto
qed

text \<open>
  Resolving a written path is walking the structure it denotes: for keys of word characters,
  \<open>resolve_path\<close> returns a value exactly if the walk through dictionaries and lists reaches it, and
  raises otherwise (missing key, index out of range, wrong kind of container).
\<close>

theorem resolve_path_walks:
  assumes "segs \<noteq> []" and "list_all (word \<circ> fst) segs"
  shows "(resolve_path v (py_join ''.'' (map render_seg segs)) = Ok w) = (walk v segs = Some w)"
proof -
  have "\<forall>x \<in> set (map render_seg segs). CHR ''.'' \<notin> set x"
    using assms(2) dot_free_render by (force simp: list_all_iff)
  then have "py_split ''.'' (py_join ''.'' (map render_seg segs)) = map render_seg segs"
    using assms(1) by (intro split_join_char) simp_all
  with assms(2) show ?thesis by (simp add: resolve_path_def resolve_segments_walk)
qed

theorem resolve_path_walks_witness:
  "(resolve_path (VDict [(''actions'', VList [VDict [(''host'', VStr ''db1'')]])])
      (py_join ''.'' (map render_seg [(''actions'', Some 0), (''host'', None)])) = Ok (VStr ''db1''))
   = (walk (VDict [(''actions'', VList [VDict [(''host'', VStr ''db1'')]])])
      [(''actions'', Some 0), (''host'', None)] = Some (VStr ''db1''))"
  by (rule resolve_path_walks) code_simp+

text \<open>
  A placeholder for a top-level output key that the step did not produce inserts \<open>null\<close>; only
  a nested path or a missing step or output raises.
\<close>

theorem missing_top_level_key_inserts_null:
  assumes "map_of (ws_steps st) n = Some r" and "cr_output r = Some out" and "map_of out k = None"
    and "word k"
  shows "replacer st n k = Ok ''<data>null</data>''"
proof -
  have "CHR ''.'' \<notin> set k \<and> CHR ''['' \<notin> set k"
    using assms(4) by (auto simp: word_def list_all_iff)
  with assms show ?thesis by (simp add: replacer_def Let_def dget_def format_value_def)
qed

theorem missing_top_level_key_inserts_null_witness:
  "replacer
     \<lparr>ws_workflow_id = [], ws_workflow_name = [], ws_status = RunRunning, ws_current_step = None,
      ws_steps = [(''s1'', \<lparr>cr_step_name = ''s1'', cr_status = Completed,
        cr_output = Some [(''x'', VInt 1)], cr_error = None\<rparr>)]\<rparr> ''s1'' ''y'' = Ok ''<data>null</data>''"
  by (rule missing_top_level_key_inserts_null [where out = "[(''x'', VInt 1)]"
        and r = "\<lparr>cr_step_name = ''s1'', cr_status = Completed,
          cr_output = Some [(''x'', VInt 1)], cr_error = None\<rparr>"])
    (simp_all, code_simp)

end
