(* ===== verification/Normalize.thy ===== *)
theory Normalize
  imports Secrets Interpolation
begin

text \<open>
  The canonical execution path of \<open>core/execution.py\<close>: one-step naming, permission collapse,
  context merge, step and definition normalisation and the construction of the executor input,
  with the MCP resolver of \<open>core/mcp_resolver.py\<close> and the tool filter of \<open>core/permissions.py\<close>.
  A definition arrives as the dictionary a YAML or JSON document decodes to.
\<close>

section \<open>Naming, permissions, context\<close>

definition one_step_error :: pyexc where
  "one_step_error = ValueError (''one-step defaults apply to single-step definitions only; ''
     @ ''multi-step definitions must set '' @ [sq] @ ''name'' @ [sq] @ '' and '' @ [sq] @ ''output_key''
     @ [sq] @ '' explicitly'')"

definition apply_one_step_defaults :: "pydict \<Rightarrow> int \<Rightarrow> pydict res" where
  "apply_one_step_defaults step step_count =
     (let result = (if dget step ''type'' = VNone then dict_set ''type'' (VStr ''agent'') step else step) in
        if dget result ''name'' = VNone \<or> dget result ''output_key'' = VNone then
          if step_count \<noteq> 1 then Err one_step_error
          else let result = (if dget result ''name'' = VNone
                             then dict_set ''name'' (VStr ''agent'') result else result);
                   result = (if dget result ''output_key'' = VNone
                             then dict_set ''output_key'' (VStr ''result'') result else result)
               in Ok result
        else Ok result)"

definition collapse_permissions ::
  "(ptype \<Rightarrow> pyval \<Rightarrow> pyval res) \<Rightarrow> pyval \<Rightarrow> pyval \<Rightarrow> pyval \<Rightarrow> pyval \<Rightarrow> (pyval \<times> pydict) res" where
  "collapse_permissions validate permissions service_account risk_level target_namespaces =
     then_do (if permissions = VNone then Ok VNone else validate PermissionScope permissions) (\<lambda>scope.
     then_do (if truthy service_account then
                (case scope of
                   VDict d \<Rightarrow>
                     if dget d ''service_account'' \<noteq> VNone
                        \<and> \<not> py_eq (dget d ''service_account'') service_account
                     then Err (ValueError (''conflicting service_account: permissions sets ''
                            @ py_repr (dget d ''service_account'') @ '' but the step sets ''
                            @ py_repr service_account @ ''; refusing to widen or silently narrow''))
                     else if dget d ''service_account'' = VNone
                     then Ok (VDict (dict_set ''service_account'' service_account d))
                     else Ok scope
                 | _ \<Rightarrow> validate PermissionScope (VDict [(''service_account'', service_account)]))
              else Ok scope) (\<lambda>scope.
     let meta = (if risk_level \<noteq> VNone then [(''risk_level'', risk_level)] else []) in
       if target_namespaces \<noteq> VNone
       then then_do (py_iter target_namespaces) (\<lambda>ns. Ok (scope, meta @ [(''target_namespaces'', VList ns)]))
       else Ok (scope, meta)))"

definition merge_context :: "pydict \<Rightarrow> pydict \<Rightarrow> pydict" where
  "merge_context workflow_context step_context = dict_merge workflow_context step_context"

text \<open>\<open>_as_mapping\<close>: \<open>dict(value)\<close> on what is not a dictionary needs an iterable of pairs.\<close>

fun pair_of :: "pyval \<Rightarrow> (string \<times> pyval) res" where
  "pair_of (VList [VStr k, v]) = Ok (k, v)"
| "pair_of (VStr [a, b]) = Ok ([a], VStr [b])"
| "pair_of (VDict [(k, _), (l, _)]) = Ok (k, VStr l)"
| "pair_of (VList _) = Err (ValueError ''dictionary update sequence element has wrong length'')"
| "pair_of (VStr _) = Err (ValueError ''dictionary update sequence element has wrong length'')"
| "pair_of (VDict _) = Err (ValueError ''dictionary update sequence element has wrong length'')"
| "pair_of _ = Err (TypeError ''cannot convert dictionary update sequence element to a sequence'')"

definition as_mapping :: "pyval \<Rightarrow> pydict res" where
  "as_mapping value =
     (case value of
        VDict d \<Rightarrow> Ok d
      | _ \<Rightarrow> then_do (py_iter value) (\<lambda>xs. then_do (map_res pair_of xs) (\<lambda>ps. Ok (dict_merge [] ps))))"

definition default_sandbox_image :: "pydict \<Rightarrow> pyval \<Rightarrow> pyval res" where
  "default_sandbox_image workflow_defaults run_image =
     then_do (if truthy (dget workflow_defaults ''spawn_config'')
              then as_mapping (dget workflow_defaults ''spawn_config'') else Ok []) (\<lambda>defaults_config.
       if truthy (dget defaults_config ''sandbox_image'') then Ok (dget defaults_config ''sandbox_image'')
       else if truthy run_image then Ok run_image else Ok (VStr ''sandbox:latest''))"

definition resolve_sandbox_image :: "pyval \<Rightarrow> pydict \<Rightarrow> pyval \<Rightarrow> pyval res" where
  "resolve_sandbox_image spawn_config workflow_defaults run_image =
     (case spawn_config of
        VDict c \<Rightarrow>
          if truthy (dget c ''sandbox_image'') then Ok (dget c ''sandbox_image'')
          else default_sandbox_image workflow_defaults run_image
      | _ \<Rightarrow> default_sandbox_image workflow_defaults run_image)"

section \<open>The tool filter of a permission scope\<close>

definition effective_tools :: "string list option \<Rightarrow> string list option \<Rightarrow> string list \<Rightarrow> string list" where
  "effective_tools allowed_tools denied_tools all_tools =
     (let result = (case allowed_tools of None \<Rightarrow> all_tools | Some a \<Rightarrow> filter (\<lambda>t. t \<in> set a) all_tools) in
        case denied_tools of None \<Rightarrow> result | Some d \<Rightarrow> filter (\<lambda>t. t \<notin> set d) result)"

section \<open>MCP servers\<close>

text \<open>
  \<open>resolve_mcp_servers\<close>; the result \<open>None\<close> stands for no servers. An object is its dictionary, so
  the cases of a dictionary and of a model object coincide.
\<close>

definition to_dict :: "pyval \<Rightarrow> pydict" where
  "to_dict server = (case server of VDict d \<Rightarrow> d | _ \<Rightarrow> [])"

fun mcp_by_name :: "pyval list \<Rightarrow> pyval dict \<Rightarrow> pyval dict" where
  "mcp_by_name [] index = index"
| "mcp_by_name (entry # catalog) index =
     mcp_by_name catalog
       (case dget (to_dict entry) ''name'' of
          VStr name \<Rightarrow> if name \<noteq> [] then dict_set name (VDict (to_dict entry)) index else index
        | _ \<Rightarrow> index)"

definition resolve_mcp_item :: "pyval dict \<Rightarrow> pyval \<Rightarrow> pyval list" where
  "resolve_mcp_item index item =
     (case item of
        VStr name \<Rightarrow> (case map_of index name of Some server \<Rightarrow> [server] | None \<Rightarrow> [])
      | VDict d \<Rightarrow> [VDict d]
      | _ \<Rightarrow> [])"

definition resolve_mcp_servers :: "pyval \<Rightarrow> pyval \<Rightarrow> pyval list option res" where
  "resolve_mcp_servers step_mcp_servers catalog =
     (if \<not> truthy step_mcp_servers then Ok None
      else then_do (if truthy catalog then py_iter catalog else Ok []) (\<lambda>entries.
        then_do (py_iter step_mcp_servers) (\<lambda>items.
          let resolved = concat (map (resolve_mcp_item (mcp_by_name entries [])) items) in
            Ok (if resolved = [] then None else Some resolved))))"

section \<open>Normalising one step\<close>

text \<open>\<open>raw.get(k)\<close>, and the workflow default if that is \<open>None\<close>.\<close>

definition inherit :: "pydict \<Rightarrow> pydict \<Rightarrow> string \<Rightarrow> pyval" where
  "inherit raw defaults k = (if dget raw k = VNone then dget defaults k else dget raw k)"

fun positive_int :: "pyval \<Rightarrow> bool" where
  "positive_int (VInt i) = (0 < i)"
| "positive_int _ = False"

text \<open>The inference provider: the step's, the step's legacy key, or the workflow's.\<close>

definition normalize_provider ::
  "(ptype \<Rightarrow> pyval \<Rightarrow> pyval res) \<Rightarrow> pydict \<Rightarrow> pydict \<Rightarrow> pyval res" where
  "normalize_provider validate raw defaults =
     (let own = (if dget raw ''inference_provider'' = VNone then dget raw ''provider''
                 else dget raw ''inference_provider'');
          provider_raw = (if own = VNone then dget defaults ''provider'' else own) in
        if provider_raw = VNone then Ok VNone
        else then_do (as_mapping provider_raw) (\<lambda>provider_mapping.
          if own = VNone \<and> (''credentials_secret'' \<in> set (keys provider_mapping)
                            \<or> ''model_provider'' \<in> set (keys provider_mapping))
          then inference_spec_from_provider_config validate provider_mapping
          else validate_inference_provider validate provider_mapping))"

definition normalize_spawn_config ::
  "(ptype \<Rightarrow> pyval \<Rightarrow> pyval res) \<Rightarrow> pydict \<Rightarrow> pydict \<Rightarrow> pyval res" where
  "normalize_spawn_config validate raw defaults =
     (let spawn_config_raw = inherit raw defaults ''spawn_config'' in
        if spawn_config_raw = VNone then Ok VNone
        else then_do (as_mapping spawn_config_raw) (\<lambda>m. validate SpawnConfig (VDict m)))"

definition normalize_tools :: "pydict \<Rightarrow> pyval res" where
  "normalize_tools raw =
     (case dget raw ''tools'' of
        VNone \<Rightarrow> Ok (VList [])
      | VList ts \<Rightarrow> Ok (VList ts)
      | v \<Rightarrow> Err (ValueError (''tools must be a list of tool names, got '' @ py_repr v
               @ '' (a bare string would splinter into per-character names)'')))"

definition context_of :: "pyval \<Rightarrow> string \<Rightarrow> pydict res" where
  "context_of v whose =
     (case v of
        VNone \<Rightarrow> Ok []
      | VDict d \<Rightarrow> Ok d
      | _ \<Rightarrow> Err (ValueError (whose @ '' context must be an object'')))"

definition step_type_error :: "pyval \<Rightarrow> pyexc" where
  "step_type_error step_type =
     (if py_eq step_type (VStr ''human-approval'')
      then ValueError (''human-approval steps carry no agent execution spec; they pass ''
             @ ''through normalization as workflow metadata (see normalize_definition)'')
      else ValueError (''unknown step type '' @ py_repr step_type @ '': only '' @ [sq] @ ''agent'' @ [sq]
             @ '' steps use AgentExecutionSpec''))"

text \<open>The keyword arguments of the \<open>WorkflowAgentStep\<close> that ends the normalisation.\<close>

definition agent_step_arguments ::
  "pydict \<Rightarrow> pydict \<Rightarrow> pyval \<Rightarrow> pyval \<Rightarrow> pyval \<Rightarrow> pyval \<Rightarrow> pydict \<Rightarrow> pydict \<Rightarrow> pydict" where
  "agent_step_arguments raw defaults inference_provider tools scope spawn_config
     workflow_context step_context =
       [(''prompt'', dget_or raw ''prompt'' (VStr [])),
        (''instructions'', dget raw ''instructions''),
        (''inference_provider'', inference_provider),
        (''tools'', tools),
        (''mcp_servers'', inherit raw defaults ''mcp_servers''),
        (''allowed_skills'', inherit raw defaults ''allowed_skills''),
        (''permissions'', scope),
        (''spawn'', if dget raw ''spawn'' = VNone then dget_or defaults ''spawn'' (VStr ''ephemeral'')
                  else dget raw ''spawn''),
        (''spawn_config'', spawn_config),
        (''output_schema'', dget raw ''output_schema''),
        (''context'', VDict (merge_context workflow_context step_context)),
        (''timeout_seconds'', inherit raw defaults ''timeout_seconds''),
        (''name'', dget raw ''name''),
        (''output_key'', dget raw ''output_key''),
        (''condition'', dget raw ''condition''),
        (''max_retries'', dget_or raw ''max_retries'' (VInt 0)),
        (''parallel_group'', dget raw ''parallel_group''),
        (''role'', dget raw ''role'')]"

text \<open>\<open>normalize_workflow_step\<close> returns the dictionary of the validated step and the metadata.\<close>

definition normalize_workflow_step ::
  "(ptype \<Rightarrow> pyval \<Rightarrow> pyval res) \<Rightarrow> (string \<Rightarrow> bool) \<Rightarrow> pydict \<Rightarrow> pydict \<Rightarrow> int
   \<Rightarrow> (pydict \<times> pydict) res" where
  "normalize_workflow_step validate bracketed_ok step defaults step_count =
     then_do (apply_one_step_defaults step step_count) (\<lambda>raw.
     let step_type = dget_or raw ''type'' (VStr ''agent'') in
     if \<not> py_eq step_type (VStr ''agent'') then Err (step_type_error step_type)
     else if \<not> truthy (dget raw ''name'') then
       Err (ValueError (''agent steps require '' @ [sq] @ ''name'' @ [sq]))
     else let timeout = inherit raw defaults ''timeout_seconds'' in
     if timeout \<noteq> VNone \<and> \<not> positive_int timeout then
       Err (ValueError (''timeout_seconds must be a positive per-step timeout, got '' @ py_repr timeout))
     else
     then_do (normalize_provider validate raw defaults) (\<lambda>inference_provider.
     then_do (reject_secret_bearing_mcp bracketed_ok (inherit raw defaults ''mcp_servers'')) (\<lambda>_.
     then_do (collapse_permissions validate (inherit raw defaults ''permissions'')
                (inherit raw defaults ''service_account'') (dget raw ''risk_level'')
                (dget raw ''target_namespaces'')) (\<lambda>(scope, perm_meta).
     then_do (normalize_spawn_config validate raw defaults) (\<lambda>spawn_config.
     then_do (normalize_tools raw) (\<lambda>tools.
     then_do (context_of (dget defaults ''context'') ''workflow'') (\<lambda>workflow_context.
     then_do (context_of (dget raw ''context'') ''step'') (\<lambda>step_context.
     then_do (validate WorkflowAgentStep (VDict (agent_step_arguments raw defaults inference_provider tools
       scope spawn_config workflow_context step_context))) (\<lambda>normalized.
     then_do (as_dict normalized) (\<lambda>n.
     Ok (n, dict_merge
              [(''type'', step_type), (''agent'', dget raw ''agent''), (''message'', dget raw ''message''),
               (''runtime'', dget raw ''runtime'')] perm_meta)))))))))))"

section \<open>Normalising a definition\<close>

definition workflow_default_keys :: "string list" where
  "workflow_default_keys =
     [''timeout_seconds'', ''spawn'', ''spawn_config'', ''service_account'', ''mcp_servers'',
      ''allowed_skills'', ''permissions'', ''context'']"

definition workflow_defaults_from_definition :: "pydict \<Rightarrow> pydict res" where
  "workflow_defaults_from_definition definition =
     then_do (as_dict (dget_or definition ''spec'' (VDict []))) (\<lambda>spec.
       Ok ((if dget definition ''provider'' \<noteq> VNone then [(''provider'', dget definition ''provider'')] else [])
           @ [(k, dget spec k). k \<leftarrow> workflow_default_keys, dget spec k \<noteq> VNone]))"

text \<open>Membership in a set of names: hashing a list or a dictionary raises.\<close>

fun hashable :: "pyval \<Rightarrow> bool" where
  "hashable (VList _) = False"
| "hashable (VDict _) = False"
| "hashable _ = True"

definition name_seen :: "pyval \<Rightarrow> pyval list \<Rightarrow> bool res" where
  "name_seen name seen =
     (if hashable name then Ok (list_ex (\<lambda>n. py_eq n name) seen) else Err (TypeError ''unhashable type''))"

definition duplicate_name :: "pyval \<Rightarrow> 'a res" where
  "duplicate_name name = Err (ValueError (''Duplicate step name: '' @ [sq] @ py_str name @ [sq]))"

text \<open>The first loop: explicit names of all step kinds are unique.\<close>

fun check_unique_names :: "pyval list \<Rightarrow> pyval list \<Rightarrow> pydict list res" where
  "check_unique_names [] seen = Ok []"
| "check_unique_names (raw # raws) seen =
     then_do (as_dict raw) (\<lambda>d.
       let name = dget d ''name'' in
         if name = VNone then then_do (check_unique_names raws seen) (\<lambda>ds. Ok (d # ds))
         else then_do (name_seen name seen) (\<lambda>dup.
           if dup then duplicate_name name
           else then_do (check_unique_names raws (name # seen)) (\<lambda>ds. Ok (d # ds))))"

fun normalize_steps ::
  "(ptype \<Rightarrow> pyval \<Rightarrow> pyval res) \<Rightarrow> (string \<Rightarrow> bool) \<Rightarrow> pydict \<Rightarrow> int \<Rightarrow> pydict list \<Rightarrow> pyval list
   \<Rightarrow> (pydict list \<times> pydict list) res" where
  "normalize_steps validate bracketed_ok defaults step_count [] used_names = Ok ([], [])"
| "normalize_steps validate bracketed_ok defaults step_count (raw # raws) used_names =
     (if py_eq (dget raw ''type'') (VStr ''human-approval'') then
        then_do (apply_one_step_defaults raw step_count) (\<lambda>gate.
        then_do (name_seen (dget gate ''name'') used_names) (\<lambda>dup.
        if dup then duplicate_name (dget gate ''name'')
        else then_do (normalize_steps validate bracketed_ok defaults step_count raws
                        (dget gate ''name'' # used_names)) (\<lambda>(steps, metas).
          Ok (steps,
              [(''type'', VStr ''human-approval''), (''agent'', VNone), (''message'', dget gate ''message''),
               (''runtime'', VStr ''sandbox''), (''name'', dget gate ''name''),
               (''output_key'', dget gate ''output_key''), (''condition'', dget gate ''condition'')] # metas))))
      else
        then_do (normalize_workflow_step validate bracketed_ok raw defaults step_count) (\<lambda>(normalized, meta).
        then_do (name_seen (dget normalized ''name'') used_names) (\<lambda>dup.
        if dup then duplicate_name (dget normalized ''name'')
        else then_do (normalize_steps validate bracketed_ok defaults step_count raws
                        (dget normalized ''name'' # used_names)) (\<lambda>(steps, metas).
          Ok (normalized # steps, meta # metas)))))"

definition normalize_definition ::
  "(ptype \<Rightarrow> pyval \<Rightarrow> pyval res) \<Rightarrow> (string \<Rightarrow> bool) \<Rightarrow> pydict \<Rightarrow> (pydict list \<times> pydict list) res" where
  "normalize_definition validate bracketed_ok definition =
     then_do (as_dict (dget_or definition ''spec'' (VDict []))) (\<lambda>spec.
     then_do (py_iter (dget_or spec ''steps'' (VList []))) (\<lambda>raw_steps.
     then_do (workflow_defaults_from_definition definition) (\<lambda>workflow_defaults.
     then_do (check_unique_names raw_steps []) (\<lambda>raws.
     normalize_steps validate bracketed_ok workflow_defaults (int (length raw_steps)) raws []))))"

section \<open>The executor input\<close>

definition CoreStepResult :: ptype where
  "CoreStepResult = PModel False
     [(''step_name'', PStr 0, None),
      (''status'', PLiteral [''pending'', ''running'', ''completed'', ''failed'', ''skipped'',
                           ''awaiting_approval'', ''dispatched''], Some (VStr ''pending'')),
      (''output'', POpt (PMap PAny), Some VNone),
      (''error'', POpt (PStr 0), Some VNone)]"

definition core_statuses :: "core_status list" where
  "core_statuses = [Pending, Running, Completed, Failed, Skipped, AwaitingApproval, Dispatched]"

text \<open>A status outside the known ones counts as completed.\<close>

definition status_of :: "pyval \<Rightarrow> core_status" where
  "status_of v =
     (case filter (\<lambda>s. v = VStr (core_status_text s)) core_statuses of [] \<Rightarrow> Completed | s # _ \<Rightarrow> s)"

definition core_result ::
  "(ptype \<Rightarrow> pyval \<Rightarrow> pyval res) \<Rightarrow> string \<Rightarrow> core_status \<Rightarrow> pyval \<Rightarrow> pyval \<Rightarrow> core_step_result res" where
  "core_result validate name status output err =
     then_do (validate CoreStepResult (VDict
        [(''step_name'', VStr name), (''status'', VStr (core_status_text status)),
         (''output'', output), (''error'', err)])) (\<lambda>r.
     then_do (as_dict r) (\<lambda>d.
       Ok \<lparr>cr_step_name = name, cr_status = status,
           cr_output = (case dget d ''output'' of VDict o' \<Rightarrow> Some o' | _ \<Rightarrow> None),
           cr_error = opt_str (dget d ''error'')\<rparr>))"

definition wrap_step_result ::
  "(ptype \<Rightarrow> pyval \<Rightarrow> pyval res) \<Rightarrow> string \<times> pyval \<Rightarrow> (string \<times> core_step_result) res" where
  "wrap_step_result validate = (\<lambda>(key, value).
     then_do (case value of
         VDict d \<Rightarrow> core_result validate key (status_of (dget_or d ''status'' (VStr ''completed'')))
                      (dget d ''output'') (dget d ''error'')
       | _ \<Rightarrow> core_result validate key Completed value VNone) (\<lambda>r. Ok (key, r)))"

text \<open>\<open>_interpolate_step_text\<close>: an unresolvable template is used as it is.\<close>

definition interpolate_step_text :: "pyval \<Rightarrow> workflow_state \<Rightarrow> pyval res" where
  "interpolate_step_text template wf_state =
     (case template of
        VStr t \<Rightarrow>
          if \<not> sublist ''{{'' t then Ok template
          else (case interpolate t wf_state of
                  Inr s \<Rightarrow> Ok (VStr s)
                | Inl (ValueError _) \<Rightarrow> Ok template
                | Inl e \<Rightarrow> Err e)
      | _ \<Rightarrow> Ok template)"

record step_metadata =
  sm_user_id :: pyval
  sm_session_id :: pyval

record step_input =
  si_prompt :: pyval
  si_provider :: pydict
  si_system_prompt :: pyval
  si_output_schema :: pyval
  si_tools :: pyval
  si_tools_module :: pyval
  si_context :: pydict
  si_execution_context :: pyval
  si_timeout_seconds :: pyval
  si_sandbox_image :: pyval
  si_skills_image :: pyval
  si_skills_paths :: pyval
  si_allowed_skills :: pyval
  si_mcp_servers :: "pyval list option"
  si_workflow_id :: pyval
  si_raw_step :: pydict
  si_step_name :: pyval
  si_output_key :: pyval
  si_metadata :: step_metadata

definition default_step_timeout_seconds :: int where
  "default_step_timeout_seconds = 600"

text \<open>Provider name, model and credential reference of the executor input.\<close>

definition select_provider ::
  "pydict \<Rightarrow> pydict \<Rightarrow> pydict \<Rightarrow> (pyval \<times> pyval \<times> pyval) res" where
  "select_provider normalized workflow_defaults run_provider =
     then_do
       (case dget normalized ''inference_provider'' of
          VDict p \<Rightarrow>
            then_do (enforce_provider_boundary (VDict p) run_provider) (\<lambda>_.
            let own = (if py_eq (dget p ''name'') (dget run_provider ''name'')
                       then dget run_provider ''credentials_secret'' else VNone) in
            if own \<noteq> VNone then Ok (dget p ''name'', dget p ''model'', own)
            else then_do (if truthy (dget workflow_defaults ''provider'')
                          then as_mapping (dget workflow_defaults ''provider'') else Ok []) (\<lambda>definition_provider.
              Ok (dget p ''name'', dget p ''model'',
                  if py_eq (dget definition_provider ''name'') (dget p ''name'')
                  then dget definition_provider ''credentials_secret'' else VNone)))
        | _ \<Rightarrow>
            let provider_name = dget_or run_provider ''name'' (VStr []) in
            if truthy provider_name \<and> \<not> approved provider_name then
              (if hashable provider_name
               then Err (ValueError (''unapproved inference provider '' @ py_repr provider_name
                      @ '': must be one of '' @ approved_text))
               else Err (TypeError ''unhashable type''))
            else Ok (provider_name, dget_or run_provider ''model'' (VStr []),
                     dget run_provider ''credentials_secret''))
       (\<lambda>(name, model, credentials_secret).
          if credentials_secret = VNone then Ok (name, model, VNone)
          else then_do (validate_credential_reference credentials_secret) (\<lambda>ref. Ok (name, model, VStr ref)))"

definition or_empty_dict :: "pyval \<Rightarrow> pydict res" where
  "or_empty_dict v = (if truthy v then as_dict v else Ok [])"

definition build_step_input ::
  "(ptype \<Rightarrow> pyval \<Rightarrow> pyval res) \<Rightarrow> (pydict \<Rightarrow> pydict) \<Rightarrow> (string \<Rightarrow> bool)
   \<Rightarrow> pydict \<Rightarrow> pydict \<Rightarrow> pydict \<Rightarrow> int \<Rightarrow> step_input res" where
  "build_step_input validate dump bracketed_ok step run_context workflow_defaults step_count =
     then_do (normalize_workflow_step validate bracketed_ok step workflow_defaults step_count) (\<lambda>(normalized, meta).
     then_do (or_empty_dict (dget run_context ''provider'')) (\<lambda>run_provider.
     then_do (select_provider normalized workflow_defaults run_provider)
       (\<lambda>(provider_name, provider_model, credentials_secret).
     then_do (or_empty_dict (dget run_context ''step_results'')) (\<lambda>step_results.
     then_do (map_res (wrap_step_result validate) step_results) (\<lambda>wrapped.
     then_do (validate (PStr 0) (dget_or run_context ''workflow_id'' (VStr []))) (\<lambda>workflow_id.
     let wf_state = \<lparr>ws_workflow_id = py_str workflow_id,
                     ws_workflow_name = [], ws_status = RunRunning,
                     ws_current_step = opt_str (dget normalized ''name''), ws_steps = wrapped\<rparr> in
     then_do (interpolate_step_text (dget normalized ''prompt'') wf_state) (\<lambda>text.
     let prompt = (if truthy text then text else VStr []) in
     then_do (interpolate_step_text (dget normalized ''instructions'') wf_state) (\<lambda>system_prompt.
     then_do (resolve_sandbox_image (dget normalized ''spawn_config'') workflow_defaults
                (dget run_context ''sandbox_image'')) (\<lambda>sandbox_image.
     then_do (resolve_mcp_servers (dget normalized ''mcp_servers'') (dget run_context ''mcp_servers'')) (\<lambda>mcp.
     let raw_step = dict_merge (dump normalized) (filter (\<lambda>(k, v). v \<noteq> VNone) meta);
         raw_step = dict_set ''prompt'' prompt raw_step;
         raw_step = (if system_prompt \<noteq> VNone then dict_set ''instructions'' system_prompt raw_step
                     else raw_step) in
     Ok \<lparr>si_prompt = prompt,
         si_provider = [(''name'', provider_name), (''model'', provider_model)]
           @ (if truthy credentials_secret then [(''credentials_secret'', credentials_secret)] else []),
         si_system_prompt = system_prompt,
         si_output_schema = dget normalized ''output_schema'',
         si_tools = dget normalized ''tools'',
         si_tools_module = dget run_context ''tools_module'',
         si_context = step_results,
         si_execution_context = dget normalized ''context'',
         si_timeout_seconds = (if truthy (dget normalized ''timeout_seconds'')
           then dget normalized ''timeout_seconds'' else VInt default_step_timeout_seconds),
         si_sandbox_image = sandbox_image,
         si_skills_image = dget run_context ''skills_image'',
         si_skills_paths = dget run_context ''skills_paths'',
         si_allowed_skills = dget normalized ''allowed_skills'',
         si_mcp_servers = mcp,
         si_workflow_id = dget_or run_context ''workflow_id'' (VStr []),
         si_raw_step = raw_step,
         si_step_name = dget normalized ''name'',
         si_output_key = dget normalized ''output_key'',
         si_metadata = \<lparr>sm_user_id = dget run_context ''user_id'',
                        sm_session_id = dget run_context ''session_id''\<rparr>\<rparr>))))))))))"

section \<open>Properties of normalisation\<close>

lemma one_step_defaults_get:
  assumes "apply_one_step_defaults step n = Ok raw" and "k \<notin> {''type'', ''name'', ''output_key''}"
  shows "dget raw k = dget step k" and "dget_or raw k x = dget_or step k x"
  using assms by (auto simp: apply_one_step_defaults_def Let_def split: if_splits)

lemma one_step_defaults_named:
  assumes "apply_one_step_defaults step n = Ok raw"
  shows "dget raw ''name'' \<noteq> VNone" "dget raw ''output_key'' \<noteq> VNone" "dget raw ''type'' \<noteq> VNone"
  using assms by (auto simp: apply_one_step_defaults_def Let_def split: if_splits)

lemma inherit_raw:
  assumes "apply_one_step_defaults step n = Ok raw" and "k \<notin> {''type'', ''name'', ''output_key''}"
  shows "inherit raw defaults k = inherit step defaults k"
  using one_step_defaults_get [OF assms] by (simp add: inherit_def)

text \<open>What a successful normalisation went through.\<close>

lemma normalize_workflow_step_parts:
  assumes "normalize_workflow_step validate b step defaults n = Ok (norm, meta)"
  obtains raw provider scope perm_meta spawn_config tools wctx sctx where
    "apply_one_step_defaults step n = Ok raw" "truthy (dget raw ''name'')"
    "inherit step defaults ''timeout_seconds'' = VNone \<or> positive_int (inherit step defaults ''timeout_seconds'')"
    "normalize_provider validate raw defaults = Ok provider"
    "reject_secret_bearing_mcp b (inherit step defaults ''mcp_servers'') = Ok ()"
    "collapse_permissions validate (inherit step defaults ''permissions'')
       (inherit step defaults ''service_account'') (dget step ''risk_level'')
       (dget step ''target_namespaces'') = Ok (scope, perm_meta)"
    "normalize_spawn_config validate raw defaults = Ok spawn_config"
    "normalize_tools raw = Ok tools"
    "context_of (dget defaults ''context'') ''workflow'' = Ok wctx"
    "context_of (dget step ''context'') ''step'' = Ok sctx"
    "validate WorkflowAgentStep (VDict (agent_step_arguments raw defaults provider tools
       scope spawn_config wctx sctx)) = Ok (VDict norm)"
proof -
  from assms obtain raw where raw: "apply_one_step_defaults step n = Ok raw"
    by (auto simp: normalize_workflow_step_def then_do_Ok_iff)
  have inh: "inherit raw defaults k = inherit step defaults k" "dget raw k = dget step k"
    if "k \<in> {''timeout_seconds'', ''mcp_servers'', ''permissions'', ''service_account'', ''risk_level'',
         ''target_namespaces'', ''context''}" for k
    using that inherit_raw [OF raw, of k] one_step_defaults_get(1) [OF raw, of k] by auto
  from assms [unfolded normalize_workflow_step_def raw then_do_simps Let_def] show thesis
    by (elim run_elims, intro that [OF raw]) (auto simp: inh)
qed

text \<open>The specification of a normalised step.\<close>

definition approved_provider :: "pyval \<Rightarrow> bool" where
  "approved_provider v =
     (\<exists>p name model. v = VDict p \<and> keys p = [''name'', ''model''] \<and> dget p ''name'' = VStr name
        \<and> name \<in> set approved_inference_providers \<and> dget p ''model'' = VStr model \<and> model \<noteq> [])"

context pydantic_engine
begin

lemma normalize_provider_ok:
  assumes "normalize_provider validate raw defaults = Ok provider"
  shows "provider = VNone \<or> approved_provider provider"
  using assms
  by (auto simp: normalize_provider_def Let_def then_do_Ok_iff approved_provider_def split: if_splits
      dest!: validate_inference_provider_ok inference_spec_from_provider_config_ok)

lemma step_field:
  assumes "validate WorkflowAgentStep (VDict (agent_step_arguments raw defaults provider tools
      scope spawn_config wctx sctx)) = Ok (VDict norm)"
    and "(f, t, dflt) \<in> set AgentExecutionSpec \<union> set
     [(''name'', PStr 0, None), (''output_key'', PStr 0, None), (''condition'', POpt (PStr 0), Some VNone),
      (''max_retries'', PInt (Some 0) None, Some (VInt 0)),
      (''parallel_group'', POpt (PStr 0), Some VNone),
      (''role'', POpt (PLiteral [''analysis'', ''execution'', ''verification'']), Some VNone)]"
    and "map_of (agent_step_arguments raw defaults provider tools scope spawn_config wctx sctx) f = Some x"
  shows "validate t x = Ok (dget norm f)"
  using model_given [OF assms(1) [unfolded WorkflowAgentStep_def] _ assms(3)] assms(2) by simp

lemma normalized_fields:
  assumes "validate WorkflowAgentStep (VDict (agent_step_arguments raw defaults provider tools
      scope spawn_config wctx sctx)) = Ok (VDict norm)"
  shows "dget norm ''name'' = dget raw ''name'' \<and> is_str (dget raw ''name'')"
    and "dget norm ''output_key'' = dget raw ''output_key'' \<and> is_str (dget raw ''output_key'')"
    and "dget norm ''inference_provider'' = provider"
    and "dget norm ''permissions'' = scope"
    and "dget norm ''spawn_config'' = spawn_config"
    and "dget norm ''tools'' = tools"
    and "dget norm ''context'' = VDict (merge_context wctx sctx)"
    and "dget norm ''allowed_skills'' = inherit raw defaults ''allowed_skills''"
    and "dget norm ''prompt'' = dget_or raw ''prompt'' (VStr [])"
    and "\<exists>i. dget norm ''max_retries'' = VInt i \<and> 0 \<le> i"
    and "\<exists>s \<in> set [''none'', ''local'', ''ephemeral'']. dget norm ''spawn'' = VStr s"
    and "validate (POpt (PInt (Some 1) None)) (inherit raw defaults ''timeout_seconds'')
           = Ok (dget norm ''timeout_seconds'')"
proof -
  note field = step_field [OF assms]
  show "dget norm ''name'' = dget raw ''name'' \<and> is_str (dget raw ''name'')"
    using str_ok [OF field [of "''name''" "PStr 0" None "dget raw ''name''"]]
    by (auto simp: agent_step_arguments_def)
  show "dget norm ''output_key'' = dget raw ''output_key'' \<and> is_str (dget raw ''output_key'')"
    using str_ok [OF field [of "''output_key''" "PStr 0" None "dget raw ''output_key''"]]
    by (auto simp: agent_step_arguments_def)
  show "dget norm ''inference_provider'' = provider"
    using field [of "''inference_provider''" _ _ provider]
    by (auto simp: agent_step_arguments_def AgentExecutionSpec_def opt_instance_ok)
  show "dget norm ''permissions'' = scope"
    using field [of "''permissions''" _ _ scope]
    by (auto simp: agent_step_arguments_def AgentExecutionSpec_def opt_instance_ok)
  show "dget norm ''spawn_config'' = spawn_config"
    using field [of "''spawn_config''" _ _ spawn_config]
    by (auto simp: agent_step_arguments_def AgentExecutionSpec_def opt_instance_ok)
  show "dget norm ''tools'' = tools"
    using list_text_ok [OF field [of "''tools''" "PList (PStr 0)" "Some (VList [])" tools]]
    by (auto simp: agent_step_arguments_def AgentExecutionSpec_def)
  show "dget norm ''context'' = VDict (merge_context wctx sctx)"
    using map_any_ok [OF field [of "''context''" "PMap PAny" "Some (VDict [])"]]
    by (auto simp: agent_step_arguments_def AgentExecutionSpec_def)
  show "dget norm ''allowed_skills'' = inherit raw defaults ''allowed_skills''"
    using field [of "''allowed_skills''" "POpt (PList (PStr 0))" "Some VNone"]
    by (cases "inherit raw defaults ''allowed_skills'' = VNone")
      (auto simp: agent_step_arguments_def AgentExecutionSpec_def opt_none opt_some dest!: list_text_ok)
  show "dget norm ''prompt'' = dget_or raw ''prompt'' (VStr [])"
    using str_ok [OF field [of "''prompt''" "PStr 0" None]]
    by (auto simp: agent_step_arguments_def AgentExecutionSpec_def)
  show "\<exists>i. dget norm ''max_retries'' = VInt i \<and> 0 \<le> i"
    using int_ok [OF field [of "''max_retries''" "PInt (Some 0) None" "Some (VInt 0)"]]
    by (auto simp: agent_step_arguments_def in_bounds_def)
  show "\<exists>s \<in> set [''none'', ''local'', ''ephemeral'']. dget norm ''spawn'' = VStr s"
    using literal_ok [OF field [of "''spawn''" _ "Some (VStr ''ephemeral'')"]]
    by (auto simp: agent_step_arguments_def AgentExecutionSpec_def)
  show "validate (POpt (PInt (Some 1) None)) (inherit raw defaults ''timeout_seconds'')
      = Ok (dget norm ''timeout_seconds'')"
    by (rule field) (simp_all add: agent_step_arguments_def AgentExecutionSpec_def)
qed

lemma normalized_step_ok:
  assumes "normalize_workflow_step validate b step defaults n = Ok (norm, meta)"
  shows "(\<exists>name. dget norm ''name'' = VStr name \<and> name \<noteq> [])
    \<and> is_str (dget norm ''output_key'')
    \<and> (dget norm ''inference_provider'' = VNone \<or> approved_provider (dget norm ''inference_provider''))
    \<and> (dget norm ''timeout_seconds'' = VNone \<or> positive_int (dget norm ''timeout_seconds''))
    \<and> (\<exists>i. dget norm ''max_retries'' = VInt i \<and> 0 \<le> i)
    \<and> (\<exists>s \<in> set [''none'', ''local'', ''ephemeral'']. dget norm ''spawn'' = VStr s)"
  using assms
proof (rule normalize_workflow_step_parts, goal_cases)
  case (1 raw provider scope perm_meta spawn_config tools wctx sctx)
  note fields = normalized_fields [OF 1(11)]
  have "\<exists>name. dget norm ''name'' = VStr name \<and> name \<noteq> []"
    using fields(1) 1(2) by (cases "dget raw ''name''") auto
  moreover have "dget norm ''timeout_seconds'' = VNone \<or> positive_int (dget norm ''timeout_seconds'')"
    using opt_int_ok [OF fields(12)] by (auto simp: in_bounds_def)
  ultimately show ?case
    using fields(2,3,10,11) normalize_provider_ok [OF 1(4)] by (auto simp: is_str.simps)
qed

lemma normalized_precedence:
  assumes "normalize_workflow_step validate b step defaults n = Ok (norm, meta)"
  shows "dget norm ''timeout_seconds'' = inherit step defaults ''timeout_seconds''"
    and "dget norm ''allowed_skills'' = inherit step defaults ''allowed_skills''"
    and "\<exists>wctx sctx. context_of (dget defaults ''context'') ''workflow'' = Ok wctx
      \<and> context_of (dget step ''context'') ''step'' = Ok sctx
      \<and> dget norm ''context'' = VDict (dict_merge wctx sctx)"
proof -
  have "dget norm ''timeout_seconds'' = inherit step defaults ''timeout_seconds''
    \<and> dget norm ''allowed_skills'' = inherit step defaults ''allowed_skills''
    \<and> (\<exists>wctx sctx. context_of (dget defaults ''context'') ''workflow'' = Ok wctx
      \<and> context_of (dget step ''context'') ''step'' = Ok sctx
      \<and> dget norm ''context'' = VDict (dict_merge wctx sctx))"
    using assms
  proof (rule normalize_workflow_step_parts, goal_cases)
    case (1 raw provider scope perm_meta spawn_config tools wctx sctx)
    note fields = normalized_fields [OF 1(11)] and inh = inherit_raw [OF 1(1)]
    have "validate (POpt (PInt (Some 1) None)) t = Ok t" if "t = VNone \<or> positive_int t" for t
      using that by (cases t) (auto simp: opt_none opt_some int_accept in_bounds_def)
    from this [OF 1(3)] have "dget norm ''timeout_seconds'' = inherit step defaults ''timeout_seconds''"
      using fields(12) inh [of "''timeout_seconds''" defaults] by simp
    then show ?case
      using fields(7,8) inh [of "''allowed_skills''" defaults] 1(9,10) by (simp add: merge_context_def)
  qed
  then show "dget norm ''timeout_seconds'' = inherit step defaults ''timeout_seconds''"
    "dget norm ''allowed_skills'' = inherit step defaults ''allowed_skills''"
    "\<exists>wctx sctx. context_of (dget defaults ''context'') ''workflow'' = Ok wctx
      \<and> context_of (dget step ''context'') ''step'' = Ok sctx
      \<and> dget norm ''context'' = VDict (dict_merge wctx sctx)"
    by blast+
qed

lemma normalized_mcp_gate:
  assumes "normalize_workflow_step validate b step defaults n = Ok (norm, meta)"
  shows "reject_secret_bearing_mcp b (inherit step defaults ''mcp_servers'') = Ok ()"
  using assms by (rule normalize_workflow_step_parts)

end

text \<open>
  C10. A normalised step is well formed, for every validation engine that meets its contract: it has
  a non-empty name and an output key, a provider only from the approved catalog and then with
  exactly the keys name and model, so no credential reference, a positive timeout if any, a
  non-negative retry count, a known isolation mode; and the MCP servers it inherits or sets passed
  the secret gate.
\<close>

theorem normalize_workflow_step_sound:
  assumes "pydantic_engine validate dump"
    and "normalize_workflow_step validate bracketed_ok step defaults step_count = Ok (normalized, meta)"
  shows "(\<exists>name. dget normalized ''name'' = VStr name \<and> name \<noteq> [])
    \<and> is_str (dget normalized ''output_key'')
    \<and> (dget normalized ''inference_provider'' = VNone
       \<or> approved_provider (dget normalized ''inference_provider''))
    \<and> (dget normalized ''timeout_seconds'' = VNone \<or> positive_int (dget normalized ''timeout_seconds''))
    \<and> (\<exists>i. dget normalized ''max_retries'' = VInt i \<and> 0 \<le> i)
    \<and> (\<exists>s \<in> set [''none'', ''local'', ''ephemeral'']. dget normalized ''spawn'' = VStr s)
    \<and> reject_secret_bearing_mcp bracketed_ok (inherit step defaults ''mcp_servers'') = Ok ()"
  using pydantic_engine.normalized_step_ok [OF assms] pydantic_engine.normalized_mcp_gate [OF assms]
  by blast

definition sample_step :: pydict where
  "sample_step = [(''prompt'', VStr ''Analyse {{ steps.scan.output.host }}''),
                  (''inference_provider'', VDict [(''name'', VStr ''openai''), (''model'', VStr ''gpt-4o'')]),
                  (''context'', VDict [(''tier'', VStr ''step'')])]"

definition sample_defaults :: pydict where
  "sample_defaults = [(''timeout_seconds'', VInt 30), (''allowed_skills'', VList [VStr ''oc'']),
                      (''context'', VDict [(''tier'', VStr ''workflow''), (''region'', VStr ''eu'')])]"

lemma sample_normalizes:
  "is_ok (normalize_workflow_step strict_validate (\<lambda>_. True) sample_step sample_defaults 1)"
  by code_simp

theorem normalize_workflow_step_sound_witness:
  "\<exists>normalized meta.
     normalize_workflow_step strict_validate (\<lambda>_. True) sample_step sample_defaults 1 = Ok (normalized, meta)
     \<and> (\<exists>name. dget normalized ''name'' = VStr name \<and> name \<noteq> [])
     \<and> approved_provider (dget normalized ''inference_provider'')"
proof -
  obtain normalized meta where ok: "normalize_workflow_step strict_validate (\<lambda>_. True) sample_step
      sample_defaults 1 = Ok (normalized, meta)"
    using sample_normalizes by (auto simp: is_ok_iff)
  then have "fst (projr (normalize_workflow_step strict_validate (\<lambda>_. True) sample_step
      sample_defaults 1)) = normalized" by simp
  moreover have "dget (fst (projr (normalize_workflow_step strict_validate (\<lambda>_. True) sample_step
      sample_defaults 1))) ''inference_provider'' \<noteq> VNone" by code_simp
  ultimately show ?thesis
    using ok normalize_workflow_step_sound [OF strict.pydantic_engine_axioms ok] by auto
qed

text \<open>
  The precedence chain: a value the step leaves out (or sets to null) comes from the workflow
  defaults, a value it sets wins, an explicit empty list included; contexts are merged key by key,
  the step's value winning.
\<close>

theorem normalize_workflow_step_precedence:
  assumes "pydantic_engine validate dump"
    and "normalize_workflow_step validate bracketed_ok step defaults step_count = Ok (normalized, meta)"
    and "dget step ''context'' = VDict sctx" and "wf_dict sctx"
    and "dget defaults ''context'' = VDict wctx"
  shows "dget normalized ''timeout_seconds''
      = (if dget step ''timeout_seconds'' = VNone then dget defaults ''timeout_seconds''
         else dget step ''timeout_seconds'')
    \<and> dget normalized ''allowed_skills''
      = (if dget step ''allowed_skills'' = VNone then dget defaults ''allowed_skills''
         else dget step ''allowed_skills'')
    \<and> (\<exists>ctx. dget normalized ''context'' = VDict ctx
      \<and> (\<forall>k. dget ctx k = (if k \<in> set (keys sctx) then dget sctx k else dget wctx k)))"
  using pydantic_engine.normalized_precedence [OF assms(1,2)] assms(3-5)
  by (auto simp: inherit_def context_of_def dget_merge)

theorem normalize_workflow_step_precedence_witness:
  "\<exists>normalized meta.
     normalize_workflow_step strict_validate (\<lambda>_. True) sample_step sample_defaults 1 = Ok (normalized, meta)
     \<and> dget normalized ''timeout_seconds'' = VInt 30
     \<and> (\<exists>ctx. dget normalized ''context'' = VDict ctx
          \<and> dget ctx ''tier'' = VStr ''step'' \<and> dget ctx ''region'' = VStr ''eu'')"
proof -
  obtain normalized meta where ok: "normalize_workflow_step strict_validate (\<lambda>_. True) sample_step
      sample_defaults 1 = Ok (normalized, meta)"
    using sample_normalizes by (auto simp: is_ok_iff)
  note facts = normalize_workflow_step_precedence [OF strict.pydantic_engine_axioms ok,
      of "[(''tier'', VStr ''step'')]" "[(''tier'', VStr ''workflow''), (''region'', VStr ''eu'')]"]
  have "dget normalized ''timeout_seconds'' = VInt 30"
    using facts by (simp add: sample_step_def sample_defaults_def wf_dict_def)
  moreover have "\<exists>ctx. dget normalized ''context'' = VDict ctx
      \<and> dget ctx ''tier'' = VStr ''step'' \<and> dget ctx ''region'' = VStr ''eu''"
    using facts by (auto simp: sample_step_def sample_defaults_def wf_dict_def)
  ultimately show ?thesis using ok by blast
qed

section \<open>Permissions, tools and MCP servers\<close>

text \<open>
  Collapsing the legacy fields never widens the scope: every field but the service account is
  the validated scope's, a service account the scope sets is kept, one it leaves open becomes the
  step's, and the effective scope does not depend on risk level or namespaces.
\<close>

theorem collapse_permissions_never_widens:
  assumes "collapse_permissions validate permissions service_account risk_level namespaces = Ok (scope, meta)"
    and "validate PermissionScope permissions = Ok (VDict d)" and "permissions \<noteq> VNone"
  shows "\<exists>d'. scope = VDict d'
    \<and> (\<forall>k. k \<noteq> ''service_account'' \<longrightarrow> dget d' k = dget d k)
    \<and> dget d' ''service_account'' =
        (if dget d ''service_account'' = VNone \<and> truthy service_account then service_account
         else dget d ''service_account'')
    \<and> (dget d ''service_account'' \<noteq> VNone \<and> truthy service_account \<longrightarrow>
         py_eq (dget d ''service_account'') service_account)"
  using assms
  by (auto simp: collapse_permissions_def then_do_Ok_iff Let_def split: if_splits)

theorem collapse_permissions_never_widens_witness:
  "\<exists>d'. VDict [(''service_account'', VStr ''sa''), (''allowed_tools'', VList [VStr ''ls'']),
                (''denied_tools'', VNone), (''max_tokens'', VNone), (''timeout_seconds'', VNone)] = VDict d'
    \<and> dget d' ''allowed_tools'' = VList [VStr ''ls''] \<and> dget d' ''service_account'' = VStr ''sa''"
proof -
  have c: "collapse_permissions strict_validate (VDict [(''allowed_tools'', VList [VStr ''ls''])])
      (VStr ''sa'') (VStr ''high'') VNone =
      Ok (VDict [(''service_account'', VStr ''sa''), (''allowed_tools'', VList [VStr ''ls'']),
                (''denied_tools'', VNone), (''max_tokens'', VNone), (''timeout_seconds'', VNone)],
          [(''risk_level'', VStr ''high'')])" by code_simp
  have v: "strict_validate PermissionScope (VDict [(''allowed_tools'', VList [VStr ''ls''])]) =
      Ok (VDict [(''service_account'', VNone), (''allowed_tools'', VList [VStr ''ls'']),
                (''denied_tools'', VNone), (''max_tokens'', VNone), (''timeout_seconds'', VNone)])"
    by code_simp
  show ?thesis using collapse_permissions_never_widens [OF c v] by auto
qed

text \<open>
  The tool filter of a permission scope keeps the order of the available tools and lets through
  exactly those that the whitelist, if there is one, names and the blacklist does not; applying it
  again changes nothing.
\<close>

theorem effective_tools_exact:
  "effective_tools allowed denied tools =
     filter (\<lambda>t. (\<forall>a. allowed = Some a \<longrightarrow> t \<in> set a) \<and> (\<forall>d. denied = Some d \<longrightarrow> t \<notin> set d)) tools
   \<and> effective_tools allowed denied (effective_tools allowed denied tools) = effective_tools allowed denied tools"
  by (cases allowed; cases denied) (auto simp: effective_tools_def conj_commute intro!: filter_cong)

theorem effective_tools_exact_witness:
  "effective_tools (Some [''ls'', ''rm'']) (Some [''rm'']) [''rm'', ''ls'', ''cat''] = [''ls'']"
  using effective_tools_exact [of "Some [''ls'', ''rm'']" "Some [''rm'']" "[''rm'', ''ls'', ''cat'']"] by simp

lemma mcp_by_name_from:
  "map_of (mcp_by_name entries index) n = Some s \<Longrightarrow>
   map_of index n = Some s \<or> (s \<in> set entries \<and> dget (to_dict s) ''name'' = VStr n)"
proof (induction entries index rule: mcp_by_name.induct)
  case (2 entry catalog index)
  then show ?case
    by (auto simp: to_dict_def split: pyval.splits if_splits)
qed simp

text \<open>
  Least privilege for MCP servers: a step gets a server only if it defines it inline or names it
  and the run's catalog has an entry of that name; a step that asks for nothing gets nothing.
\<close>

theorem resolve_mcp_servers_least_privilege:
  assumes "resolve_mcp_servers (VList items) (VList catalog) = Ok (Some servers)" and "s \<in> set servers"
  shows "(s \<in> set items \<and> is_dict s)
    \<or> (\<exists>name. VStr name \<in> set items \<and> s \<in> set catalog \<and> dget (to_dict s) ''name'' = VStr name)"
proof -
  have entries: "resolve_mcp_servers (VList items) (VList catalog) =
      (if items = [] then Ok None else let r = concat (map (resolve_mcp_item (mcp_by_name catalog [])) items)
       in Ok (if r = [] then None else Some r))"
    by (cases "catalog = []") (simp_all add: resolve_mcp_servers_def)
  with assms obtain item where "item \<in> set items" "s \<in> set (resolve_mcp_item (mcp_by_name catalog []) item)"
    by (auto simp: Let_def split: if_splits)
  then show ?thesis
    by (auto simp: resolve_mcp_item_def split: pyval.splits option.splits
        dest!: mcp_by_name_from [OF sym])
qed

theorem resolve_mcp_servers_least_privilege_witness:
  "(VDict [(''name'', VStr ''a'')] \<in> set [VStr ''a'', VStr ''zz''] \<and> is_dict (VDict [(''name'', VStr ''a'')]))
    \<or> (\<exists>name. VStr name \<in> set [VStr ''a'', VStr ''zz'']
        \<and> VDict [(''name'', VStr ''a'')] \<in> set [VDict [(''name'', VStr ''a'')], VDict [(''name'', VStr ''b'')]]
        \<and> dget (to_dict (VDict [(''name'', VStr ''a'')])) ''name'' = VStr name)"
  by (rule resolve_mcp_servers_least_privilege [of _ _ "[VDict [(''name'', VStr ''a'')]]"]) (code_simp, simp)

section \<open>Unique step names\<close>

lemma py_eq_text [simp]: "py_eq (VStr s) v \<longleftrightarrow> v = VStr s" "py_eq v (VStr s) \<longleftrightarrow> v = VStr s"
  by (cases v; auto)+

lemma name_seen_False: "name_seen (VStr name) used = Ok False \<Longrightarrow> VStr name \<notin> set used"
  by (auto simp: name_seen_def list_ex_iff)

abbreviation gate_names :: "pydict list \<Rightarrow> pyval list" where
  "gate_names metas \<equiv>
     [dget m ''name''. m \<leftarrow> metas, dget m ''type'' = VStr ''human-approval'', is_str (dget m ''name'')]"

context pydantic_engine
begin

lemma agent_meta_type:
  assumes "normalize_workflow_step validate b step defaults n = Ok (norm, meta)"
  shows "dget meta ''type'' \<noteq> VStr ''human-approval''"
proof -
  from assms obtain raw scope pm where py: "py_eq (dget_or raw ''type'' (VStr ''agent'')) (VStr ''agent'')"
    and pm: "collapse_permissions validate (inherit raw defaults ''permissions'')
      (inherit raw defaults ''service_account'') (dget raw ''risk_level'') (dget raw ''target_namespaces'')
      = Ok (scope, pm)"
    and meta: "meta = dict_merge [(''type'', dget_or raw ''type'' (VStr ''agent'')), (''agent'', dget raw ''agent''),
        (''message'', dget raw ''message''), (''runtime'', dget raw ''runtime'')] pm"
    unfolding normalize_workflow_step_def Let_def by (elim run_elims) auto
  from pm have "set (keys pm) \<subseteq> {''risk_level'', ''target_namespaces''} \<and> wf_dict pm"
    by (auto simp: collapse_permissions_def then_do_Ok_iff Let_def wf_dict_def split: if_splits)
  then have "dget meta ''type'' = dget_or raw ''type'' (VStr ''agent'')"
    unfolding meta by (subst dget_merge) auto
  with py show ?thesis by simp
qed

lemma normalize_steps_names:
  assumes "normalize_steps validate b defaults n raws used = Ok (steps, metas)"
  shows "distinct (map (\<lambda>s. dget s ''name'') steps @ gate_names metas)
    \<and> set (map (\<lambda>s. dget s ''name'') steps @ gate_names metas) \<inter> set used = {}
    \<and> length metas = length raws"
  using assms
proof (induction raws arbitrary: used steps metas)
  case (Cons raw raws)
  show ?case
  proof (cases "dget raw ''type'' = VStr ''human-approval''")
    case True
    with Cons.prems obtain gate steps' metas' where
      seen: "name_seen (dget gate ''name'') used = Ok False"
      and rest: "normalize_steps validate b defaults n raws (dget gate ''name'' # used) = Ok (steps', metas')"
      and res: "steps = steps'"
        "metas = [(''type'', VStr ''human-approval''), (''agent'', VNone), (''message'', dget gate ''message''),
               (''runtime'', VStr ''sandbox''), (''name'', dget gate ''name''),
               (''output_key'', dget gate ''output_key''), (''condition'', dget gate ''condition'')] # metas'"
      by (auto simp: then_do_Ok_iff duplicate_name_def split: if_splits)
    from seen name_seen_False have "is_str (dget gate ''name'') \<Longrightarrow> dget gate ''name'' \<notin> set used"
      by (cases "dget gate ''name''") auto
    with Cons.IH [OF rest] show ?thesis by (auto simp: res)
  next
    case False
    with Cons.prems obtain norm meta steps' metas' where
      norm: "normalize_workflow_step validate b raw defaults n = Ok (norm, meta)"
      and seen: "name_seen (dget norm ''name'') used = Ok False"
      and rest: "normalize_steps validate b defaults n raws (dget norm ''name'' # used) = Ok (steps', metas')"
      and res: "steps = norm # steps'" "metas = meta # metas'"
      by (auto simp: then_do_Ok_iff duplicate_name_def split: if_splits)
    have "dget norm ''name'' \<notin> set used"
      using normalized_step_ok [OF norm] seen name_seen_False by auto
    with Cons.IH [OF rest] agent_meta_type [OF norm] show ?thesis by (auto simp: res)
  qed
qed simp

end

lemma check_unique_names_length: "check_unique_names raws seen = Ok ds \<Longrightarrow> length ds = length raws"
  by (induction raws arbitrary: seen ds)
    (auto simp: then_do_Ok_iff Let_def duplicate_name_def split: if_splits)

text \<open>
  A normalised definition has one metadata entry per step, in order, and no step name twice:
  names are unique across agent steps and approval gates together, defaulted names included.
\<close>

theorem normalize_definition_unique:
  assumes "pydantic_engine validate dump"
    and "normalize_definition validate bracketed_ok definition = Ok (steps, metas)"
    and "dget definition ''spec'' = VDict spec" and "dget spec ''steps'' = VList raw_steps"
  shows "distinct (map (\<lambda>s. dget s ''name'') steps @ gate_names metas)
    \<and> length metas = length raw_steps"
proof -
  have spec: "dget_or definition ''spec'' (VDict []) = VDict spec"
    "dget_or spec ''steps'' (VList []) = VList raw_steps"
    using assms(3,4) by (simp_all add: dget_def dget_or_def split: option.splits)
  from assms(2) obtain defaults ds where ds: "check_unique_names raw_steps [] = Ok ds"
    and steps: "normalize_steps validate bracketed_ok defaults (int (length raw_steps)) ds [] = Ok (steps, metas)"
    unfolding normalize_definition_def spec by (elim run_elims) (auto simp: spec)
  show ?thesis
    using pydantic_engine.normalize_steps_names [OF assms(1) steps] check_unique_names_length [OF ds]
    by simp
qed

definition sample_definition :: pydict where
  "sample_definition =
     [(''provider'', VDict [(''name'', VStr ''openai''), (''model'', VStr ''gpt-4o''),
                           (''credentials_secret'', VStr ''team-openai-key'')]),
      (''spec'', VDict [(''timeout_seconds'', VInt 45), (''steps'', VList
        [VDict [(''name'', VStr ''scan''), (''output_key'', VStr ''scan''), (''prompt'', VStr ''look'')],
         VDict [(''name'', VStr ''gate''), (''type'', VStr ''human-approval''), (''output_key'', VStr ''ok'')],
         VDict [(''name'', VStr ''fix''), (''output_key'', VStr ''fix''), (''prompt'', VStr ''mend'')]])])]"

theorem normalize_definition_unique_witness:
  "\<exists>steps metas. normalize_definition strict_validate (\<lambda>_. True) sample_definition = Ok (steps, metas)
     \<and> distinct (map (\<lambda>s. dget s ''name'') steps @ gate_names metas) \<and> length metas = 3"
proof -
  have "is_ok (normalize_definition strict_validate (\<lambda>_. True) sample_definition)" by code_simp
  then obtain steps metas where
    ok: "normalize_definition strict_validate (\<lambda>_. True) sample_definition = Ok (steps, metas)"
    by (auto simp: is_ok_iff)
  show ?thesis
    using normalize_definition_unique [OF strict.pydantic_engine_axioms ok] ok
    by (auto simp: sample_definition_def)
qed

section \<open>The provider boundary\<close>

lemma select_provider_secret:
  assumes "select_provider normalized defaults run = Ok (name, model, secret)"
  shows "secret = VNone \<or> (\<exists>s. secret = VStr s \<and> credential_reference s \<and> \<not> looks_like_secret_value s)"
  using assms unfolding select_provider_def
  by (elim run_elims)
    (auto simp: then_do_Ok_iff validate_credential_reference_Ok_iff split: if_splits prod.splits)

lemma select_provider_name:
  assumes "select_provider normalized defaults run = Ok (name, model, secret)"
    and "dget normalized ''inference_provider'' = VNone \<or> approved_provider (dget normalized ''inference_provider'')"
    and "truthy name"
  shows "dget run ''name'' = name \<and> approved name"
proof (cases "dget normalized ''inference_provider''")
  case (VDict p)
  then have "approved_provider (VDict p)" using assms(2) by simp
  then obtain nm where nm: "dget p ''name'' = VStr nm" "nm \<in> set approved_inference_providers"
    by (auto simp: approved_provider_def)
  from assms(1) VDict have "name = dget p ''name''" and "enforce_provider_boundary (VDict p) run = Ok ()"
    by (auto simp: select_provider_def then_do_Ok_iff Let_def split: if_splits)
  then show ?thesis using nm
    by (auto simp: enforce_provider_boundary_def Let_def approved_def split: if_splits)
next
  case VNone
  with assms(1,3) show ?thesis
    by (auto simp: select_provider_def then_do_Ok_iff Let_def dget_def dget_or_def
        split: if_splits option.splits)
qed (use assms(2) in \<open>auto simp: approved_provider_def\<close>)

lemma build_step_input_parts:
  assumes "build_step_input validate dump b step run_context defaults n = Ok si"
  obtains normalized meta run_provider name model secret where
    "normalize_workflow_step validate b step defaults n = Ok (normalized, meta)"
    "or_empty_dict (dget run_context ''provider'') = Ok run_provider"
    "select_provider normalized defaults run_provider = Ok (name, model, secret)"
    "si_provider si = [(''name'', name), (''model'', model)]
       @ (if truthy secret then [(''credentials_secret'', secret)] else [])"
  using assms unfolding build_step_input_def
  by (elim run_elims) (auto simp: then_do_Ok_iff Let_def)

lemma step_input_boundary:
  assumes "pydantic_engine validate dump"
    and "build_step_input validate dump bracketed_ok step run_context workflow_defaults step_count = Ok si"
  shows "\<not> truthy (dget (si_provider si) ''name'')
      \<or> (\<exists>rp. dget run_context ''provider'' = VDict rp \<and> dget rp ''name'' = dget (si_provider si) ''name''
          \<and> approved (dget (si_provider si) ''name''))"
    and "map_of (si_provider si) ''credentials_secret'' = None
      \<or> (\<exists>s. map_of (si_provider si) ''credentials_secret'' = Some (VStr s)
          \<and> credential_reference s \<and> \<not> looks_like_secret_value s)"
proof -
  from assms(2) obtain normalized meta rp name model secret where
    norm: "normalize_workflow_step validate bracketed_ok step workflow_defaults step_count = Ok (normalized, meta)"
    and rp: "or_empty_dict (dget run_context ''provider'') = Ok rp"
    and sel: "select_provider normalized workflow_defaults rp = Ok (name, model, secret)"
    and si: "si_provider si = [(''name'', name), (''model'', model)]
       @ (if truthy secret then [(''credentials_secret'', secret)] else [])"
    by (rule build_step_input_parts)
  have "dget rp ''name'' = name \<and> approved name" if "truthy name"
    using select_provider_name [OF sel _ that] pydantic_engine.normalized_step_ok [OF assms(1) norm] by blast
  with rp si show "\<not> truthy (dget (si_provider si) ''name'')
      \<or> (\<exists>rp. dget run_context ''provider'' = VDict rp \<and> dget rp ''name'' = dget (si_provider si) ''name''
          \<and> approved (dget (si_provider si) ''name''))"
    by (auto simp: or_empty_dict_def split: if_splits)
  show "map_of (si_provider si) ''credentials_secret'' = None
      \<or> (\<exists>s. map_of (si_provider si) ''credentials_secret'' = Some (VStr s)
          \<and> credential_reference s \<and> \<not> looks_like_secret_value s)"
    using select_provider_secret [OF sel] si by auto
qed

text \<open>
  C9. The executor never leaves the run's authorization boundary: if the executor input names a
  provider, it is the run's own provider and in the approved catalog, whatever step and workflow
  ask for; and a credential entry, if there is one, is a well-formed secret name that does not have
  the shape of a secret value.
\<close>

theorem build_step_input_boundary:
  assumes "pydantic_engine validate dump"
    and "build_step_input validate dump bracketed_ok step run_context workflow_defaults step_count = Ok si"
  shows "(\<not> truthy (dget (si_provider si) ''name'')
      \<or> (\<exists>rp. dget run_context ''provider'' = VDict rp \<and> dget rp ''name'' = dget (si_provider si) ''name''
          \<and> approved (dget (si_provider si) ''name'')))
    \<and> (map_of (si_provider si) ''credentials_secret'' = None
      \<or> (\<exists>s. map_of (si_provider si) ''credentials_secret'' = Some (VStr s)
          \<and> credential_reference s \<and> \<not> looks_like_secret_value s))"
  using step_input_boundary [OF assms] by blast

definition sample_run :: pydict where
  "sample_run = [(''provider'', VDict [(''name'', VStr ''openai''), (''model'', VStr ''gpt-4o''),
                                     (''credentials_secret'', VStr ''team-openai-key'')]),
                 (''workflow_id'', VStr ''wf-1''),
                 (''step_results'', VDict [(''scan'', VDict [(''status'', VStr ''completed''),
                    (''output'', VDict [(''host'', VStr ''db1'')])])])]"

theorem build_step_input_boundary_witness:
  "\<exists>si. build_step_input strict_validate drop_none (\<lambda>_. True) sample_step sample_run sample_defaults 1 = Ok si
     \<and> (\<not> truthy (dget (si_provider si) ''name'')
        \<or> (\<exists>rp. dget sample_run ''provider'' = VDict rp \<and> dget rp ''name'' = dget (si_provider si) ''name''
            \<and> approved (dget (si_provider si) ''name'')))"
proof -
  have "is_ok (build_step_input strict_validate drop_none (\<lambda>_. True) sample_step sample_run sample_defaults 1)"
    by code_simp
  then obtain si where
    ok: "build_step_input strict_validate drop_none (\<lambda>_. True) sample_step sample_run sample_defaults 1 = Ok si"
    by (auto simp: is_ok_iff)
  show ?thesis using build_step_input_boundary [OF strict.pydantic_engine_axioms ok] ok by blast
qed

end
