(* ===== verification/Retry.thy ===== *)
theory Retry
  imports PyValue
begin

text \<open>
  Failure classification, the retry loop and parallel grouping of \<open>core/execution.py\<close>, which both
  runners share.
\<close>

section \<open>Transient failures\<close>

definition transient_failure_markers :: "string list" where
  "transient_failure_markers =
     [''timeout'', ''timed out'', ''connection'', ''rate limit'', ''429'', ''502'', ''503'', ''504'',
      ''unavailable'', ''temporarily'', ''spawn failed'', ''readiness'', ''heartbeat'']"

definition non_retryable_markers :: "string list" where
  "non_retryable_markers =
     [''approval'', ''denied'', ''denies'', ''policy'', ''validation'', ''output_schema'',
      ''unauthorized'', ''forbidden'', ''401'', ''403'', ''not found'', ''unknown tool'']"

definition tool_failure_words :: "string list" where
  "tool_failure_words = [''failed'', ''failure'', ''error'', ''timed out'']"

definition any_marker :: "string list \<Rightarrow> string \<Rightarrow> bool" where
  "any_marker markers s = list_ex (\<lambda>m. sublist m s) markers"

text \<open>
  \<open>TOOL_FAILURE_PATTERN.search\<close>, the pattern \<open>\btool \S+ (failed|error|timed out)\b\<close>: at a word
  boundary the text \<open>tool \<close>, a run without white space, a blank, one of three words, and a word
  boundary. The run without white space can only end at the blank, so it is the longest one.
\<close>

definition word_end :: "string \<Rightarrow> bool" where
  "word_end s = (s = [] \<or> \<not> py_word (hd s))"

definition tool_failure_at :: "string \<Rightarrow> bool" where
  "tool_failure_at s =
     (prefix ''tool '' s
      \<and> (let r = drop 5 s; name = takeWhile (Not \<circ> py_space) r; r' = dropWhile (Not \<circ> py_space) r in
           name \<noteq> [] \<and> prefix '' '' r'
           \<and> list_ex (\<lambda>w. prefix w (drop 1 r') \<and> word_end (drop (length w) (drop 1 r')))
               [''failed'', ''error'', ''timed out'']))"

fun tool_failure_search :: "bool \<Rightarrow> string \<Rightarrow> bool" where
  "tool_failure_search boundary [] = False"
| "tool_failure_search boundary (c # s) =
     ((boundary \<and> tool_failure_at (c # s)) \<or> tool_failure_search (\<not> py_word c) s)"

definition is_transient_failure :: "string option \<Rightarrow> bool" where
  "is_transient_failure error =
     (case error of
        None \<Rightarrow> False
      | Some e \<Rightarrow>
          if e = [] then False
          else let lowered = py_lower e in
            if any_marker non_retryable_markers lowered then False
            else if tool_failure_search True lowered then False
            else if sublist ''tool'' lowered \<and> any_marker tool_failure_words lowered then False
            else any_marker transient_failure_markers lowered)"

lemma tool_failure_at_words:
  "tool_failure_at s \<Longrightarrow> sublist ''tool'' s \<and> any_marker tool_failure_words s"
proof -
  assume a: "tool_failure_at s"
  let ?r' = "dropWhile (Not \<circ> py_space) (drop 5 s)"
  from a have "prefix ''tool '' s" by (simp add: tool_failure_at_def)
  then have t: "prefix ''tool'' s" by (auto simp: prefix_def)
  from a obtain w where w: "w \<in> {''failed'', ''error'', ''timed out''}" "prefix w (drop 1 ?r')"
    by (auto simp: tool_failure_at_def Let_def)
  have "suffix (drop 1 ?r') s"
    by (meson suffix_drop suffix_dropWhile suffix_order.order_trans)
  with w(2) have "sublist w s"
    by (meson prefix_imp_sublist sublist_order.order_trans suffix_imp_sublist)
  with w(1) t show ?thesis
    by (auto simp: any_marker_def tool_failure_words_def dest: prefix_imp_sublist)
qed

lemma any_marker_mono: "sublist s t \<Longrightarrow> any_marker ms s \<Longrightarrow> any_marker ms t"
  by (auto simp: any_marker_def list_ex_iff intro: sublist_order.order_trans)

lemma tool_failure_search_words:
  "tool_failure_search b s \<Longrightarrow> sublist ''tool'' s \<and> any_marker tool_failure_words s"
proof (induction b s rule: tool_failure_search.induct)
  case (2 boundary c s)
  have "sublist s (c # s)" by (simp add: sublist_Cons_right)
  with 2 show ?case
    by (auto dest: tool_failure_at_words intro: any_marker_mono sublist_order.order_trans
        simp del: sublist_code)
qed simp

text \<open>
  What is retried: an error text is transient exactly if it is non-empty and, in lower case,
  contains a transient marker, no non-retryable marker, and does not report a tool failure. In
  particular the tool pattern never decides on its own: the substring test that follows it covers
  every text it matches.
\<close>

theorem is_transient_failure_iff:
  "is_transient_failure error \<longleftrightarrow>
     (\<exists>e. error = Some e \<and> e \<noteq> []
        \<and> any_marker transient_failure_markers (py_lower e)
        \<and> \<not> any_marker non_retryable_markers (py_lower e)
        \<and> \<not> (sublist ''tool'' (py_lower e) \<and> any_marker tool_failure_words (py_lower e)))"
  by (auto simp: is_transient_failure_def Let_def split: option.splits dest: tool_failure_search_words)

section \<open>The retry loop\<close>

text \<open>
  One attempt is a state transformer that returns a result or raises an exception (an instance of
  Python's \<open>Exception\<close>; cancellation is not caught by the loop and leaves it). The loop is
  \<open>run_with_retries\<close>; besides the outcome and the final state it returns the delays it slept,
  in units of \<open>backoff_seconds\<close>. The outcome \<open>None\<close> is the failed assertion behind the loop,
  reached only if the range of attempts is empty.
\<close>

datatype ('e, 'r) outcome = Raised 'e | Returned 'r

definition max_attempts_for :: "int \<Rightarrow> int" where
  "max_attempts_for max_retries = max_retries + 1"

fun retry_loop ::
  "('s \<Rightarrow> ('e, 'r) outcome \<times> 's) \<Rightarrow> ('r \<Rightarrow> bool) \<Rightarrow> ('r \<Rightarrow> string option) \<Rightarrow> ('e \<Rightarrow> string)
   \<Rightarrow> nat \<Rightarrow> nat \<Rightarrow> 's \<Rightarrow> ('e, 'r) outcome option \<times> 's \<times> nat list" where
  "retry_loop attempt succeeded error_of text_of index 0 s = (None, s, [])"
| "retry_loop attempt succeeded error_of text_of index (Suc left) s =
     (case attempt s of
        (Raised exc, s') \<Rightarrow>
          if left = 0 \<or> \<not> is_transient_failure (Some (text_of exc))
          then (Some (Raised exc), s', [])
          else (case retry_loop attempt succeeded error_of text_of (Suc index) left s' of
                  (r, s'', ds) \<Rightarrow> (r, s'', 2 ^ index # ds))
      | (Returned result, s') \<Rightarrow>
          if succeeded result then (Some (Returned result), s', [])
          else if left = 0 \<or> \<not> is_transient_failure (error_of result)
          then (Some (Returned result), s', [])
          else (case retry_loop attempt succeeded error_of text_of (Suc index) left s' of
                  (r, s'', ds) \<Rightarrow> (r, s'', 2 ^ index # ds)))"

definition run_with_retries ::
  "('s \<Rightarrow> ('e, 'r) outcome \<times> 's) \<Rightarrow> int \<Rightarrow> ('r \<Rightarrow> bool) \<Rightarrow> ('r \<Rightarrow> string option) \<Rightarrow> ('e \<Rightarrow> string)
   \<Rightarrow> 's \<Rightarrow> ('e, 'r) outcome option \<times> 's \<times> nat list" where
  "run_with_retries attempt max_retries succeeded error_of text_of s =
     retry_loop attempt succeeded error_of text_of 0 (nat (max_attempts_for max_retries)) s"

text \<open>The specification: the \<open>n\<close>-th attempt's outcome, and which outcomes end the loop early.\<close>

fun state_after :: "('s \<Rightarrow> ('e, 'r) outcome \<times> 's) \<Rightarrow> nat \<Rightarrow> 's \<Rightarrow> 's" where
  "state_after attempt 0 s = s"
| "state_after attempt (Suc n) s = state_after attempt n (snd (attempt s))"

definition outcome_of :: "('s \<Rightarrow> ('e, 'r) outcome \<times> 's) \<Rightarrow> nat \<Rightarrow> 's \<Rightarrow> ('e, 'r) outcome" where
  "outcome_of attempt n s = fst (attempt (state_after attempt n s))"

fun final_outcome ::
  "('r \<Rightarrow> bool) \<Rightarrow> ('r \<Rightarrow> string option) \<Rightarrow> ('e \<Rightarrow> string) \<Rightarrow> ('e, 'r) outcome \<Rightarrow> bool" where
  "final_outcome succeeded error_of text_of (Raised exc) = (\<not> is_transient_failure (Some (text_of exc)))"
| "final_outcome succeeded error_of text_of (Returned r) =
     (succeeded r \<or> \<not> is_transient_failure (error_of r))"

lemma retry_loop_step:
  "retry_loop att suc err txt i (Suc left) s =
     (if left = 0 \<or> final_outcome suc err txt (fst (att s))
      then (Some (fst (att s)), snd (att s), [])
      else case retry_loop att suc err txt (Suc i) left (snd (att s)) of
             (r, s', ds) \<Rightarrow> (r, s', 2 ^ i # ds))"
  by (cases "att s"; cases "fst (att s)") auto

lemma outcome_of_Suc: "outcome_of att (Suc n) s = outcome_of att n (snd (att s))"
  by (simp add: outcome_of_def)

lemma retry_loop_spec:
  assumes "n \<le> m"
    and "n = m \<or> final_outcome suc err txt (outcome_of att n s)"
    and "\<And>k. k < n \<Longrightarrow> \<not> final_outcome suc err txt (outcome_of att k s)"
  shows "retry_loop att suc err txt i (Suc m) s =
    (Some (outcome_of att n s), state_after att (Suc n) s, map (\<lambda>k. 2 ^ (i + k)) [0..<n])"
  using assms
proof (induction n arbitrary: i m s)
  case 0
  then show ?case by (auto simp: retry_loop_step outcome_of_def simp del: retry_loop.simps)
next
  case (Suc n)
  then obtain m' where m: "m = Suc m'" by (cases m) auto
  have "\<not> final_outcome suc err txt (fst (att s))"
    using Suc.prems(3) [of 0] by (simp add: outcome_of_def)
  moreover have "retry_loop att suc err txt (Suc i) (Suc m') (snd (att s)) =
      (Some (outcome_of att n (snd (att s))), state_after att (Suc n) (snd (att s)),
       map (\<lambda>k. 2 ^ (Suc i + k)) [0..<n])"
  proof (rule Suc.IH)
    show "n \<le> m'" using Suc.prems(1) m by simp
    show "n = m' \<or> final_outcome suc err txt (outcome_of att n (snd (att s)))"
      using Suc.prems(2) m by (simp add: outcome_of_Suc)
    show "\<not> final_outcome suc err txt (outcome_of att k (snd (att s)))" if "k < n" for k
      using Suc.prems(3) [of "Suc k"] that by (simp add: outcome_of_Suc)
  qed
  moreover have "map (\<lambda>k. 2 ^ (i + k)) [0..<Suc n] = (2::nat) ^ i # map (\<lambda>k. 2 ^ (Suc i + k)) [0..<n]"
    by (simp add: upt_conv_Cons map_Suc_upt [symmetric] del: upt_Suc)
  ultimately show ?case using m
    by (simp add: retry_loop_step [of _ _ _ _ _ "Suc m'"] outcome_of_Suc del: retry_loop.simps)
qed

text \<open>
  The retry loop stops at the first attempt whose outcome is a success, a non-transient
  failure or the last one allowed: it makes \<open>n + 1 \<le> max_retries + 1\<close> attempts, all earlier ones
  failed transiently, the result is the outcome of attempt \<open>n\<close>, and it slept
  \<open>1, 2, 4, \<dots>\<close> times the base delay between them.
\<close>

theorem run_with_retries_stops_first:
  assumes "0 \<le> max_retries"
  shows "\<exists>n. n \<le> nat max_retries
    \<and> (\<forall>k < n. \<not> final_outcome suc err txt (outcome_of att k s))
    \<and> (n = nat max_retries \<or> final_outcome suc err txt (outcome_of att n s))
    \<and> run_with_retries att max_retries suc err txt s =
        (Some (outcome_of att n s), state_after att (Suc n) s, map (\<lambda>k. 2 ^ k) [0..<n])"
proof -
  let ?stop = "\<lambda>n. n = nat max_retries \<or> final_outcome suc err txt (outcome_of att n s)"
  define n where "n = (LEAST n. ?stop n)"
  have stop: "?stop n" unfolding n_def by (rule LeastI [of ?stop "nat max_retries"]) simp
  have le: "n \<le> nat max_retries" unfolding n_def by (rule Least_le) simp
  have early: "\<not> final_outcome suc err txt (outcome_of att k s)" if "k < n" for k
    using not_less_Least [of k ?stop] that unfolding n_def by blast
  have "nat (max_attempts_for max_retries) = Suc (nat max_retries)"
    using assms by (simp add: max_attempts_for_def nat_add_distrib)
  then have "run_with_retries att max_retries suc err txt s =
      (Some (outcome_of att n s), state_after att (Suc n) s, map (\<lambda>k. 2 ^ k) [0..<n])"
    using retry_loop_spec [OF le stop early, of 0] by (simp add: run_with_retries_def)
  with le stop early show ?thesis by blast
qed

theorem run_with_retries_stops_first_witness:
  "\<exists>n. n \<le> nat 2
    \<and> (\<forall>k < n. \<not> final_outcome (\<lambda>_. True) (\<lambda>_. None) id
          (outcome_of (\<lambda>s. (if s < 1 then Raised ''HTTP 503'' else Returned s, Suc s)) k (0::nat)))
    \<and> (n = nat 2 \<or> final_outcome (\<lambda>_. True) (\<lambda>_. None) id
          (outcome_of (\<lambda>s. (if s < 1 then Raised ''HTTP 503'' else Returned s, Suc s)) n (0::nat)))
    \<and> run_with_retries (\<lambda>s. (if s < 1 then Raised ''HTTP 503'' else Returned s, Suc s)) 2
        (\<lambda>_. True) (\<lambda>_. None) id (0::nat) =
        (Some (outcome_of (\<lambda>s. (if s < 1 then Raised ''HTTP 503'' else Returned s, Suc s)) n 0),
         state_after (\<lambda>s. (if s < 1 then Raised ''HTTP 503'' else Returned s, Suc s)) (Suc n) 0,
         map (\<lambda>k. 2 ^ k) [0..<n])"
  by (rule run_with_retries_stops_first) simp

section \<open>Classification text of a wrapped exception\<close>

text \<open>
  \<open>activity_error_text\<close>: exceptions are an arbitrary type with their text and their cause (the
  attribute \<open>cause\<close> or else \<open>__cause__\<close>, if it is an exception); the chain may be cyclic.
\<close>

fun error_parts :: "('e \<Rightarrow> string) \<Rightarrow> ('e \<Rightarrow> 'e option) \<Rightarrow> nat \<Rightarrow> 'e option \<Rightarrow> string list" where
  "error_parts text cause 0 current = []"
| "error_parts text cause (Suc n) None = []"
| "error_parts text cause (Suc n) (Some e) =
     (if text e \<noteq> [] then [text e] else []) @ error_parts text cause n (cause e)"

definition activity_error_text :: "('e \<Rightarrow> string) \<Rightarrow> ('e \<Rightarrow> 'e option) \<Rightarrow> 'e \<Rightarrow> string" where
  "activity_error_text text cause e = py_join '' | '' (error_parts text cause 5 (Some e))"

fun cause_at :: "('e \<Rightarrow> 'e option) \<Rightarrow> nat \<Rightarrow> 'e \<Rightarrow> 'e option" where
  "cause_at cause 0 e = Some e"
| "cause_at cause (Suc n) e = (case cause e of None \<Rightarrow> None | Some e' \<Rightarrow> cause_at cause n e')"

lemma error_parts_member:
  "cause_at cause k e = Some e' \<Longrightarrow> k < n \<Longrightarrow> text e' \<noteq> [] \<Longrightarrow>
   text e' \<in> set (error_parts text cause n (Some e))"
proof (induction k arbitrary: n e)
  case 0
  then show ?case by (cases n) auto
next
  case (Suc k)
  then obtain e1 n' where "cause e = Some e1" "cause_at cause k e1 = Some e'" "n = Suc n'"
    by (cases n) (auto split: option.splits)
  with Suc show ?case by auto
qed

text \<open>
  An exception is classified by its root cause: if a wrapper's cause chain reaches, within
  five levels, an exception whose text has a transient marker, the classification text of the
  wrapper has that marker too.
\<close>

theorem activity_error_text_sees_cause:
  assumes "cause_at cause k e = Some e'" and "k < 5" and "text e' \<noteq> []"
    and "any_marker markers (py_lower (text e'))"
  shows "any_marker markers (py_lower (activity_error_text text cause e))"
proof -
  have "sublist (text e') (activity_error_text text cause e)"
    unfolding activity_error_text_def
    using assms(1-3) by (intro sublist_join_member error_parts_member)
  then have "sublist (py_lower (text e')) (py_lower (activity_error_text text cause e))"
    by (fastforce simp: sublist_def)
  then show ?thesis using assms(4) by (rule any_marker_mono)
qed

theorem activity_error_text_sees_cause_witness:
  "any_marker transient_failure_markers (py_lower (activity_error_text
     (\<lambda>n. if n = 0 then ''activity failed'' else ''HTTP 502'') (\<lambda>n. if n = 0 then Some 1 else None) (0::nat)))"
  by (rule activity_error_text_sees_cause [where k = 1 and e' = 1]) (simp_all, code_simp)

section \<open>Parallel groups\<close>

text \<open>The texts a step's prompt and condition contribute; adding anything but text raises.\<close>

definition text_or_empty :: "pyval \<Rightarrow> string res" where
  "text_or_empty v =
     (if truthy v then (case v of VStr s \<Rightarrow> Ok s | _ \<Rightarrow> Err (TypeError ''can only concatenate str''))
      else Ok [])"

text \<open>\<open>re.findall(r"(?:\{\{\s*)?steps\.(\w+)", text)\<close>.\<close>

definition match_steps :: "string \<Rightarrow> (string \<times> string) option" where
  "match_steps s =
     (if prefix ''steps.'' s \<and> takeWhile py_word (drop 6 s) \<noteq> []
      then Some (takeWhile py_word (drop 6 s), dropWhile py_word (drop 6 s)) else None)"

definition match_reference :: "string \<Rightarrow> (string \<times> string) option" where
  "match_reference s =
     (case (if prefix ''{{'' s then match_steps (py_lstrip (drop 2 s)) else None) of
        Some m \<Rightarrow> Some m
      | None \<Rightarrow> match_steps s)"

lemma match_reference_shorter: "match_reference s = Some (n, r) \<Longrightarrow> length r < length s"
proof -
  have steps: "length r < length t" if "match_steps t = Some (n, r)" for t
  proof -
    from that have "r = dropWhile py_word (drop 6 t)" and "prefix ''steps.'' t"
      by (auto simp: match_steps_def split: if_splits)
    then show ?thesis
      using length_dropWhile_le [of py_word "drop 6 t"] by (cases t) auto
  qed
  have "length (py_lstrip (drop 2 s)) \<le> length s"
    using length_dropWhile_le [of py_space "drop 2 s"] by (simp add: py_lstrip_def)
  then show "match_reference s = Some (n, r) \<Longrightarrow> length r < length s"
    by (auto simp: match_reference_def split: if_splits option.splits dest!: steps)
qed

function find_references :: "string \<Rightarrow> string list" where
  "find_references s =
     (if s = [] then []
      else case match_reference s of
        None \<Rightarrow> find_references (tl s)
      | Some (name, rest) \<Rightarrow> name # find_references rest)"
  by pat_completeness auto
termination
  by (relation "measure length") (auto dest: match_reference_shorter)

declare find_references.simps [simp del]

text \<open>\<open>member_names\<close>: the truthy names and output keys; a list or dictionary cannot be hashed.\<close>

fun unhashable :: "pyval \<Rightarrow> bool" where
  "unhashable (VList _) = True"
| "unhashable (VDict _) = True"
| "unhashable _ = False"

definition identifiers :: "pydict \<Rightarrow> pyval list" where
  "identifiers member = filter truthy [dget member ''name'', dget member ''output_key'']"

definition member_names :: "pydict list \<Rightarrow> pyval list res" where
  "member_names members =
     (let ids = concat (map identifiers members) in
        if list_ex unhashable ids then Err (TypeError ''unhashable type'') else Ok ids)"

definition references_of :: "pydict \<Rightarrow> string list res" where
  "references_of member =
     then_do (text_or_empty (dget member ''prompt'')) (\<lambda>p.
       then_do (text_or_empty (dget member ''condition'')) (\<lambda>c. Ok (find_references (p @ '' '' @ c))))"

definition has_internal_dependency :: "pydict list \<Rightarrow> bool res" where
  "has_internal_dependency members =
     then_do (member_names members) (\<lambda>ids.
       any_res (\<lambda>m. then_do (references_of m) (\<lambda>rs. Ok (list_ex (\<lambda>r. VStr r \<in> set ids) rs))) members)"

text \<open>
  \<open>chunk_parallel_groups\<close>. The outer loop takes the first step of a group unconditionally: the
  inner loop's test compares its group name, a text, with itself.
\<close>

function chunk_parallel_groups :: "pydict list \<Rightarrow> (pyval option \<times> pydict list) list res" where
  "chunk_parallel_groups [] = Ok []"
| "chunk_parallel_groups (step # steps) =
     (let group = dget step ''parallel_group'' in
        if truthy group then
          let same = (\<lambda>m. py_eq (dget m ''parallel_group'') group);
              members = step # takeWhile same steps in
            then_do (has_internal_dependency members) (\<lambda>dep.
              then_do (chunk_parallel_groups (dropWhile same steps)) (\<lambda>rest.
                Ok ((if dep then map (\<lambda>m. (None, [m])) members else [(Some group, members)]) @ rest)))
        else then_do (chunk_parallel_groups steps) (\<lambda>rest. Ok ((None, [step]) # rest)))"
  by pat_completeness auto
termination
  by (relation "measure length") (auto intro: le_imp_less_Suc length_dropWhile_le)

text \<open>What a unit promises to the scheduler that runs its members concurrently.\<close>

definition unit_ok :: "pyval option \<times> pydict list \<Rightarrow> bool" where
  "unit_ok u = (case u of
      (None, members) \<Rightarrow> length members = 1
    | (Some g, members) \<Rightarrow>
        members \<noteq> [] \<and> truthy g
        \<and> list_all (\<lambda>m. py_eq (dget m ''parallel_group'') g) (tl members)
        \<and> dget (hd members) ''parallel_group'' = g
        \<and> has_internal_dependency members = Ok False)"

lemma chunk_Cons_group:
  assumes "truthy (dget step ''parallel_group'')"
  shows "chunk_parallel_groups (step # steps) =
    (let same = (\<lambda>m. py_eq (dget m ''parallel_group'') (dget step ''parallel_group''));
         members = step # takeWhile same steps in
       then_do (has_internal_dependency members) (\<lambda>dep.
         then_do (chunk_parallel_groups (dropWhile same steps)) (\<lambda>rest.
           Ok ((if dep then map (\<lambda>m. (None, [m])) members
                else [(Some (dget step ''parallel_group''), members)]) @ rest))))"
  using assms by (simp add: Let_def)

lemma chunk_units:
  "chunk_parallel_groups steps = Ok units \<Longrightarrow> concat (map snd units) = steps \<and> list_all unit_ok units"
proof (induction steps arbitrary: units rule: chunk_parallel_groups.induct)
  case (2 step steps)
  show ?case
  proof (cases "truthy (dget step ''parallel_group'')")
    case True
    let ?same = "\<lambda>m. py_eq (dget m ''parallel_group'') (dget step ''parallel_group'')"
    let ?members = "step # takeWhile ?same steps"
    from "2.prems" True obtain dep rest where
      dep: "has_internal_dependency ?members = Ok dep"
      and rest: "chunk_parallel_groups (dropWhile ?same steps) = Ok rest"
      and units: "units = (if dep then map (\<lambda>m. (None, [m])) ?members
                           else [(Some (dget step ''parallel_group''), ?members)]) @ rest"
      unfolding chunk_Cons_group [OF True] Let_def by (auto simp: then_do_Ok_iff)
    have IH: "concat (map snd rest) = dropWhile ?same steps \<and> list_all unit_ok rest"
      using "2.IH"(1) True dep rest by blast
    have "concat (map (snd \<circ> (\<lambda>m. (None :: pyval option, [m]))) xs) = xs" for xs :: "pydict list"
      by (induction xs) auto
    moreover have "list_all unit_ok (map (\<lambda>m. (None, [m])) xs)" for xs
      by (simp add: list_all_iff unit_ok_def)
    moreover have "unit_ok (None, [step])" by (simp add: unit_ok_def)
    moreover have "unit_ok (Some (dget step ''parallel_group''), ?members)" if "\<not> dep"
      using that dep True by (auto simp: unit_ok_def list_all_iff dest: set_takeWhileD)
    ultimately show ?thesis using IH units by (cases dep) simp_all
  next
    case False
    with 2 show ?thesis by (auto simp: Let_def then_do_Ok_iff unit_ok_def)
  qed
qed simp

text \<open>
  Grouping loses nothing and keeps the order, ungrouped units have one step, and a concurrent
  unit is a non-empty run of steps of one group none of which refers, in its prompt or condition,
  to the name or output key of a member.
\<close>

theorem chunk_parallel_groups_sound:
  "chunk_parallel_groups steps = Ok units \<Longrightarrow> concat (map snd units) = steps \<and> list_all unit_ok units"
  by (rule chunk_units)

theorem chunk_parallel_groups_sound_witness:
  "concat (map snd [(Some (VStr ''g''), [[(''name'', VStr ''a''), (''parallel_group'', VStr ''g'')],
                                       [(''name'', VStr ''b''), (''parallel_group'', VStr ''g'')]]),
                    (None, [[(''name'', VStr ''c'')]])]) =
     [[(''name'', VStr ''a''), (''parallel_group'', VStr ''g'')],
      [(''name'', VStr ''b''), (''parallel_group'', VStr ''g'')], [(''name'', VStr ''c'')]]
   \<and> list_all unit_ok
       [(Some (VStr ''g''), [[(''name'', VStr ''a''), (''parallel_group'', VStr ''g'')],
                           [(''name'', VStr ''b''), (''parallel_group'', VStr ''g'')]]),
        (None, [[(''name'', VStr ''c'')]])]"
  by (rule chunk_parallel_groups_sound) code_simp

end
