(* ===== verification/Validation.thy ===== *)
theory Validation
  imports Normalize Retry
begin

text \<open>
  The gate a definition passes when it is submitted: \<open>validate_definition\<close> of \<open>core/validation.py\<close>
  with the recursive schema check, the content policy of \<open>security/content_policy.py\<close> and the tool
  check of \<open>core/tool_validation.py\<close>. Each collects its findings in a list of messages; what Python
  raises on ill-typed fields is an exception here too. The regular expressions of a content policy
  are written by its author: their search is a parameter.
\<close>

section \<open>Content policy\<close>

record content_policy =
  cp_max_prompt_length :: int
  cp_blocked_patterns :: "(string \<times> string) list"
  cp_required_fields :: "string list"
  cp_allowed_namespaces :: "string list option"

definition default_content_policy :: content_policy where
  "default_content_policy = \<lparr>cp_max_prompt_length = 10000, cp_blocked_patterns = [],
     cp_required_fields = [], cp_allowed_namespaces = None\<rparr>"

record violation =
  vi_rule :: string
  vi_step_name :: string
  vi_reason :: string

text \<open>\<open>step.get(k) or ""\<close> for a field that has to be text.\<close>

definition text_field :: "pydict \<Rightarrow> string \<Rightarrow> string res" where
  "text_field step k =
     (let v = dget step k in
        if truthy v then (case v of VStr s \<Rightarrow> Ok s | _ \<Rightarrow> Err (TypeError k)) else Ok [])"

definition length_violations :: "content_policy \<Rightarrow> string \<Rightarrow> string \<Rightarrow> string \<Rightarrow> violation list" where
  "length_violations policy step_name label text =
     (if text \<noteq> [] \<and> int (length text) > cp_max_prompt_length policy
      then [\<lparr>vi_rule = ''max_prompt_length'', vi_step_name = step_name,
             vi_reason = label @ '' exceeds '' @ show_int (cp_max_prompt_length policy) @ '' chars (got ''
               @ show_nat (length text) @ '')''\<rparr>] else [])"

definition pattern_violations ::
  "(string \<Rightarrow> string \<Rightarrow> bool) \<Rightarrow> string \<Rightarrow> string \<Rightarrow> string \<Rightarrow> string \<times> string \<Rightarrow> violation list" where
  "pattern_violations search step_name prompt instructions = (\<lambda>(pattern, reason).
     (let matched_in = (if prompt \<noteq> [] \<and> search pattern prompt then [''prompt''] else [])
                     @ (if instructions \<noteq> [] \<and> search pattern instructions then [''instructions''] else []) in
        if matched_in = [] then []
        else [\<lparr>vi_rule = ''blocked_pattern'', vi_step_name = step_name,
               vi_reason = reason @ '' (matched in '' @ py_join '', '' matched_in @ '')''\<rparr>]))"

definition field_violations :: "string \<Rightarrow> pydict \<Rightarrow> string \<Rightarrow> violation list" where
  "field_violations step_name step field =
     (if truthy (dget step field) then []
      else [\<lparr>vi_rule = ''required_field'', vi_step_name = step_name,
             vi_reason = ''Step '' @ [sq] @ step_name @ [sq] @ '' is missing required field '' @ [sq] @ field @ [sq]\<rparr>])"

definition namespace_violations :: "string list \<Rightarrow> string \<Rightarrow> pyval \<Rightarrow> violation list" where
  "namespace_violations allowed step_name ns =
     (if (\<exists>n \<in> set allowed. ns = VStr n) then []
      else [\<lparr>vi_rule = ''allowed_namespaces'', vi_step_name = step_name,
             vi_reason = ''Namespace '' @ [sq] @ py_str ns @ [sq] @ '' is not in the allowed list: ''
               @ py_repr (VList (map VStr allowed))\<rparr>])"

definition namespace_findings :: "content_policy \<Rightarrow> string \<Rightarrow> pydict \<Rightarrow> violation list res" where
  "namespace_findings policy step_name step =
     (case cp_allowed_namespaces policy of
        None \<Rightarrow> Ok []
      | Some allowed \<Rightarrow>
          then_do (if truthy (dget step ''target_namespaces'')
                   then py_iter (dget step ''target_namespaces'') else Ok [])
            (\<lambda>target_ns. Ok (concat (map (namespace_violations allowed step_name) target_ns))))"

definition step_violations ::
  "(string \<Rightarrow> string \<Rightarrow> bool) \<Rightarrow> content_policy \<Rightarrow> pydict \<Rightarrow> violation list res" where
  "step_violations search policy step =
     (let step_name = py_str (dget_or step ''name'' (VStr ''unknown'')) in
     then_do (text_field step ''prompt'') (\<lambda>prompt.
     then_do (text_field step ''instructions'') (\<lambda>instructions.
     then_do (namespace_findings policy step_name step) (\<lambda>ns_violations.
     let violations = length_violations policy step_name ''Prompt'' prompt
           @ length_violations policy step_name ''Instructions'' instructions
           @ concat (map (pattern_violations search step_name prompt instructions) (cp_blocked_patterns policy))
           @ concat (map (field_violations step_name step) (cp_required_fields policy))
           @ ns_violations in
       if violations \<noteq> [] \<and> \<not> is_str (dget_or step ''name'' (VStr ''unknown''))
       then Err (ValueError ''step_name'') else Ok violations))))"

definition evaluate_content_policy ::
  "(string \<Rightarrow> string \<Rightarrow> bool) \<Rightarrow> pydict \<Rightarrow> content_policy option \<Rightarrow> violation list res" where
  "evaluate_content_policy search defn policy =
     (case policy of
        None \<Rightarrow> Ok []
      | Some p \<Rightarrow>
          then_do (as_dict (dget_or defn ''spec'' (VDict []))) (\<lambda>spec.
          then_do (py_iter (dget_or spec ''steps'' (VList []))) (\<lambda>steps.
          then_do (map_res (\<lambda>s. then_do (as_dict s) (step_violations search p)) steps)
            (\<lambda>vs. Ok (concat vs)))))"

section \<open>Output schemas\<close>

lemma dict_value_size: "map_of d k = Some v \<Longrightarrow> size v < Suc (size_list (size_prod (\<lambda>_. 0) size) d)"
  by (induction d) (auto split: if_splits)

lemma dict_item_size: "(k, v) \<in> set d \<Longrightarrow> size v < Suc (size_list (size_prod (\<lambda>_. 0) size) d)"
  by (induction d) auto

text \<open>\<open>_validate_schema\<close>: the messages of a schema and of the schemas in its items and properties.\<close>

definition append_res :: "'a list res \<Rightarrow> 'a list res \<Rightarrow> 'a list res" where
  "append_res a b = then_do a (\<lambda>xs. then_do b (\<lambda>ys. Ok (xs @ ys)))"

lemma append_res_Ok: "append_res a b = Ok zs \<longleftrightarrow> (\<exists>xs ys. a = Ok xs \<and> b = Ok ys \<and> zs = xs @ ys)"
  by (auto simp: append_res_def then_do_Ok_iff)

definition array_errors :: "pydict \<Rightarrow> string \<Rightarrow> string \<Rightarrow> string list" where
  "array_errors schema step_name path =
     (if dget schema ''type'' = VStr ''array'' \<and> map_of schema ''items'' = None
      then [''output_schema for step '' @ [sq] @ step_name @ [sq] @ '': '' @ [sq] @ path @ [sq]
            @ '' is type '' @ [sq] @ ''array'' @ [sq] @ '' but missing required '' @ [sq] @ ''items'' @ [sq]
            @ '' definition''] else [])"

function validate_schema :: "pydict \<Rightarrow> string \<Rightarrow> string \<Rightarrow> string list res" where
  "validate_schema schema step_name path =
     append_res (Ok (array_errors schema step_name path))
       (append_res
          (case map_of schema ''items'' of
             Some (VDict items) \<Rightarrow> validate_schema items step_name (path @ ''.items'')
           | _ \<Rightarrow> Ok [])
          (case map_of schema ''properties'' of
             None \<Rightarrow> Ok []
           | Some (VDict props) \<Rightarrow>
               then_do (map_res (\<lambda>kv. case snd kv of
                    VDict s \<Rightarrow> validate_schema s step_name (path @ ''.'' @ fst kv)
                  | _ \<Rightarrow> Ok []) props) (\<lambda>es. Ok (concat es))
           | Some _ \<Rightarrow> Err (AttributeError ''items'')))"
  by pat_completeness auto
termination
proof (relation "measure (\<lambda>(d, n, p). size (VDict d))", goal_cases)
  case (2 schema step_name path v items)
  then show ?case using dict_value_size [of schema "''items''"] by simp
next
  case (3 schema step_name path v props kv s)
  then have "size (VDict s) < Suc (size_list (size_prod (\<lambda>_. 0) size) props)"
    by (intro dict_item_size [of "fst kv"]) (metis prod.collapse)
  moreover have "size (VDict props) < Suc (size_list (size_prod (\<lambda>_. 0) size) schema)"
    using 3 by (intro dict_value_size [of _ "''properties''"]) simp
  ultimately show ?case by simp
qed auto


declare validate_schema.simps [simp del]

section \<open>validate\_definition\<close>

definition quote :: "string \<Rightarrow> string" where
  "quote s = [sq] @ s @ [sq]"

definition definition_fields :: "string list" where
  "definition_fields = [''apiVersion'', ''kind'', ''metadata'', ''provider'', ''skills'', ''spec'', ''advisory'']"

definition spec_fields :: "string list" where
  "spec_fields = [''input_prompt'', ''steps'', ''timeout_seconds'', ''spawn'', ''spawn_config'', ''mcp_servers'',
     ''allowed_skills'', ''permissions'', ''service_account'', ''context'', ''escalation'']"

definition step_fields :: "string list" where
  "step_fields = [''name'', ''type'', ''agent'', ''prompt'', ''output_key'', ''condition'', ''message'',
     ''timeout_seconds'', ''max_retries'', ''spawn'', ''risk_level'', ''permissions'', ''parallel_group'',
     ''mcp_servers'', ''spawn_config'', ''runtime'', ''role'', ''instructions'', ''output_schema'', ''tools'',
     ''context'', ''service_account'', ''target_namespaces'', ''allowed_skills'', ''inference_provider'', ''provider'']"

definition unknown_fields :: "string list \<Rightarrow> pydict \<Rightarrow> string list" where
  "unknown_fields known d = sort (filter (\<lambda>k. k \<notin> set known) (keys d))"

definition unknown_errors :: "string \<Rightarrow> string list \<Rightarrow> pydict \<Rightarrow> string list" where
  "unknown_errors label known d =
     (if unknown_fields known d = [] then [] else [label @ py_join '', '' (unknown_fields known d)])"

text \<open>A check inside \<open>try ... except ValueError\<close>: the message of a \<open>ValueError\<close>, other exceptions pass.\<close>

definition caught :: "string \<Rightarrow> 'a res \<Rightarrow> string list res" where
  "caught label r =
     (case r of Inr _ \<Rightarrow> Ok [] | Inl (ValueError m) \<Rightarrow> Ok [label @ m] | Inl e \<Rightarrow> Err e)"

text \<open>\<open>re.findall(r"\{\{\s*steps\.(\w+)\.", prompt)\<close>.\<close>

definition match_prompt_reference :: "string \<Rightarrow> (string \<times> string) option" where
  "match_prompt_reference s =
     (if prefix ''{{'' s then
        (case match_steps (py_lstrip (drop 2 s)) of
           Some (n, CHR ''.'' # rest) \<Rightarrow> Some (n, rest)
         | _ \<Rightarrow> None)
      else None)"

lemma match_prompt_reference_shorter: "match_prompt_reference s = Some (n, r) \<Longrightarrow> length r < length s"
proof -
  assume m: "match_prompt_reference s = Some (n, r)"
  let ?t = "py_lstrip (drop 2 s)"
  from m have "match_steps ?t = Some (n, CHR ''.'' # r)"
    by (auto simp: match_prompt_reference_def split: if_splits option.splits list.splits prod.splits char.splits bool.splits)
  then have "CHR ''.'' # r = dropWhile py_word (drop 6 ?t)" by (auto simp: match_steps_def split: if_splits)
  then have "Suc (length r) \<le> length ?t"
    using length_dropWhile_le [of py_word "drop 6 ?t"] by (metis diff_le_self le_trans length_Cons length_drop)
  also have "length ?t \<le> length s"
    using length_dropWhile_le [of py_space "drop 2 s"] by (simp add: py_lstrip_def)
  finally show "length r < length s" by simp
qed

function find_prompt_references :: "string \<Rightarrow> string list" where
  "find_prompt_references s =
     (if s = [] then []
      else case match_prompt_reference s of
        None \<Rightarrow> find_prompt_references (tl s)
      | Some (name, rest) \<Rightarrow> name # find_prompt_references rest)"
  by pat_completeness auto
termination
  by (relation "measure length") (auto dest: match_prompt_reference_shorter)

declare find_prompt_references.simps [simp del]

fun retries_ok :: "pyval \<Rightarrow> bool" where
  "retries_ok VNone = True"
| "retries_ok (VInt i) = (0 \<le> i)"
| "retries_ok _ = False"

definition key_in :: "pyval list \<Rightarrow> string \<Rightarrow> bool" where
  "key_in ks ref = list_ex (\<lambda>k. py_eq k (VStr ref)) ks"

definition prompt_errors :: "string \<Rightarrow> pydict \<Rightarrow> pyval list \<Rightarrow> string list res" where
  "prompt_errors name step output_keys =
     then_do (text_field step ''prompt'') (\<lambda>prompt.
       Ok (map (\<lambda>ref. ''Step '' @ quote name @ '' references undefined step '' @ quote ref @ '' in prompt template'')
            (filter (\<lambda>ref. \<not> key_in output_keys ref) (find_prompt_references prompt))))"

definition schema_errors :: "string \<Rightarrow> pydict \<Rightarrow> string list res" where
  "schema_errors name step =
     (case dget step ''output_schema'' of
        VDict s \<Rightarrow> if s = [] then Ok [] else validate_schema s name ''root''
      | _ \<Rightarrow> Ok [])"

fun has_slash :: "pyval \<Rightarrow> bool res" where
  "has_slash (VStr s) = Ok (CHR ''/'' \<in> set s)"
| "has_slash (VList xs) = Ok (list_ex (\<lambda>x. py_eq x (VStr ''/'')) xs)"
| "has_slash (VDict d) = Ok (''/'' \<in> set (keys d))"
| "has_slash _ = Err (TypeError ''argument is not iterable'')"

definition skill_errors :: "string \<Rightarrow> pyval \<Rightarrow> string list res" where
  "skill_errors name skill =
     (if \<not> truthy skill then Ok [''Step '' @ quote name @ '': allowed_skills entries must not be empty'']
      else then_do (has_slash skill) (\<lambda>slash.
        Ok (if slash then [''Step '' @ quote name @ '': allowed_skills entries must not contain '' @ quote ''/''
                           @ '': '' @ py_repr skill]
            else if skill \<in> {VStr ''.'', VStr ''..''}
            then [''Step '' @ quote name @ '': allowed_skills entries must not be '' @ quote ''.'' @ '' or ''
                  @ quote ''..'' @ '': '' @ py_repr skill]
            else [])))"

definition skills_errors :: "string \<Rightarrow> pydict \<Rightarrow> string list res" where
  "skills_errors name step =
     (let skills = dget step ''allowed_skills'' in
        if \<not> truthy skills then Ok []
        else then_do (py_iter skills) (\<lambda>xs. then_do (map_res (skill_errors name) xs) (\<lambda>es. Ok (concat es))))"

definition mcp_entry_errors :: "string \<Rightarrow> nat \<Rightarrow> pyval \<Rightarrow> string list" where
  "mcp_entry_errors name j entry =
     (case entry of
        VStr s \<Rightarrow> if s = [] then [''Step '' @ quote name @ '': mcp_servers string entries must not be empty''] else []
      | VDict d \<Rightarrow>
          if \<not> truthy (dget d ''name'') \<or> \<not> truthy (dget d ''url'')
          then [''Step '' @ quote name @ '': inline mcp_servers entry ['' @ show_nat j @ ''] requires non-empty ''
                @ quote ''name'' @ '' and '' @ quote ''url''] else []
      | _ \<Rightarrow> [''Step '' @ quote name @ '': mcp_servers entries must be strings or inline configs''])"

definition merged_mcp :: "pyval \<Rightarrow> pydict \<Rightarrow> pyval" where
  "merged_mcp workflow_mcp_default step =
     (if dget step ''mcp_servers'' = VNone then workflow_mcp_default else dget step ''mcp_servers'')"

definition mcp_errors :: "string \<Rightarrow> pyval \<Rightarrow> string list res" where
  "mcp_errors name mcp_servers =
     (if \<not> truthy mcp_servers then Ok []
      else then_do (py_iter mcp_servers) (\<lambda>xs.
        Ok (concat (map (\<lambda>(j, e). mcp_entry_errors name j e) (zip [0..<length xs] xs)))))"

definition provider_errors ::
  "(ptype \<Rightarrow> pyval \<Rightarrow> pyval res) \<Rightarrow> string \<Rightarrow> pydict \<Rightarrow> string list res" where
  "provider_errors validate name step =
     (let step_provider = (if truthy (dget step ''inference_provider'') then dget step ''inference_provider''
                           else dget step ''provider'') in
        if step_provider = VNone then Ok []
        else caught (''Step '' @ quote name @ '': '')
               (then_do (as_mapping step_provider) (validate_inference_provider validate)))"

text \<open>The checks of one step after its name and output key.\<close>

definition step_checks ::
  "(ptype \<Rightarrow> pyval \<Rightarrow> pyval res) \<Rightarrow> (string \<Rightarrow> bool) \<Rightarrow> pyval \<Rightarrow> string \<Rightarrow> pydict \<Rightarrow> pyval list \<Rightarrow> string list res" where
  "step_checks validate bracketed_ok workflow_mcp_default name step output_keys =
     append_res (Ok (if retries_ok (dget step ''max_retries'') then []
                     else [''Step '' @ quote name @ '' max_retries must be a non-negative integer'']))
    (append_res (prompt_errors name step output_keys)
    (append_res (schema_errors name step)
    (append_res (skills_errors name step)
    (append_res (mcp_errors name (merged_mcp workflow_mcp_default step))
    (append_res (caught (''Step '' @ quote name @ '': '')
                   (reject_secret_bearing_mcp bracketed_ok (merged_mcp workflow_mcp_default step)))
                (provider_errors validate name step))))))"

fun validate_steps ::
  "(ptype \<Rightarrow> pyval \<Rightarrow> pyval res) \<Rightarrow> (string \<Rightarrow> bool) \<Rightarrow> pyval \<Rightarrow> nat \<Rightarrow> pydict list
   \<Rightarrow> pyval list \<Rightarrow> pyval list \<Rightarrow> string list res" where
  "validate_steps validate bracketed_ok mcp i [] step_names output_keys = Ok []"
| "validate_steps validate bracketed_ok mcp i (step # steps) step_names output_keys =
     append_res (Ok (unknown_errors (''Step '' @ show_nat i @ '' contains unknown fields: '') step_fields step))
     (let name = dget step ''name''; output_key = dget step ''output_key'' in
      if \<not> truthy name then
        append_res (Ok [''Step '' @ show_nat i @ '' is missing required field '' @ quote ''name''])
          (validate_steps validate bracketed_ok mcp (Suc i) steps step_names output_keys)
      else
        then_do (name_seen name step_names) (\<lambda>dup_name.
        then_do (if truthy output_key then name_seen output_key output_keys else Ok False) (\<lambda>dup_key.
        let output_keys' = (if truthy output_key \<and> \<not> dup_key then output_keys @ [output_key] else output_keys) in
          append_res (Ok ((if dup_name then [''Duplicate step name: '' @ quote (py_str name)] else [])
                          @ (if \<not> truthy output_key
                             then [''Step '' @ quote (py_str name) @ '' is missing required field '' @ quote ''output_key'']
                             else if dup_key
                             then [''Duplicate output_key: '' @ quote (py_str output_key) @ '' in step '' @ quote (py_str name)]
                             else [])))
          (append_res (step_checks validate bracketed_ok mcp (py_str name) step output_keys')
             (validate_steps validate bracketed_ok mcp (Suc i) steps (step_names @ [name]) output_keys')))))"

definition type_name :: "pyval \<Rightarrow> string" where
  "type_name v = (case v of VNone \<Rightarrow> ''NoneType'' | VBool _ \<Rightarrow> ''bool'' | VInt _ \<Rightarrow> ''int'' | VFloat _ \<Rightarrow> ''float''
     | VStr _ \<Rightarrow> ''str'' | VList _ \<Rightarrow> ''list'' | VDict _ \<Rightarrow> ''dict'')"

definition definition_provider_errors :: "(ptype \<Rightarrow> pyval \<Rightarrow> pyval res) \<Rightarrow> pyval \<Rightarrow> string list res" where
  "definition_provider_errors validate provider =
     (case provider of
        VNone \<Rightarrow> Ok []
      | VDict p \<Rightarrow>
          append_res (caught ''Definition provider: '' (inference_spec_from_provider_config validate p))
            (if dget p ''credentials_secret'' = VNone then Ok []
             else caught ''Definition provider: '' (validate_credential_reference (dget p ''credentials_secret'')))
      | v \<Rightarrow> Ok [''Definition provider must be an object, got '' @ type_name v])"

definition policy_errors :: "(string \<Rightarrow> string \<Rightarrow> bool) \<Rightarrow> pydict \<Rightarrow> content_policy option \<Rightarrow> string list res" where
  "policy_errors search defn policy =
     then_do (evaluate_content_policy search defn policy) (\<lambda>vs.
       Ok (map (\<lambda>v. ''Content policy violation ('' @ vi_rule v @ '') in step '' @ quote (vi_step_name v) @ '': ''
                    @ vi_reason v) vs))"

text \<open>The one-step convention, then the checks over all steps.\<close>

definition canonical_steps :: "pydict list \<Rightarrow> pydict list res" where
  "canonical_steps steps =
     (case steps of [s] \<Rightarrow> then_do (apply_one_step_defaults s 1) (\<lambda>s'. Ok [s']) | _ \<Rightarrow> Ok steps)"

definition validate_definition ::
  "(ptype \<Rightarrow> pyval \<Rightarrow> pyval res) \<Rightarrow> (string \<Rightarrow> bool) \<Rightarrow> (string \<Rightarrow> string \<Rightarrow> bool) \<Rightarrow> pyval
   \<Rightarrow> content_policy option \<Rightarrow> string list res" where
  "validate_definition validate bracketed_ok search defn policy =
     (case defn of
        VDict d \<Rightarrow>
          append_res (Ok (unknown_errors ''Workflow definition contains unknown fields: '' definition_fields d))
          (case dget_or d ''spec'' (VDict []) of
             VDict spec \<Rightarrow>
               append_res (Ok (unknown_errors ''Workflow spec contains unknown fields: '' spec_fields spec))
               (case dget_or spec ''steps'' (VList []) of
                  VList raw \<Rightarrow>
                    if raw = [] then Ok [''Workflow must have at least one step'']
                    else if list_ex (\<lambda>s. \<not> is_dict s) raw
                    then Ok (map (\<lambda>(i, s). ''Step '' @ show_nat i @ '' must be an object'')
                           (filter (\<lambda>(i, s). \<not> is_dict s) (zip [0..<length raw] raw)))
                    else
                      then_do (map_res as_dict raw) (\<lambda>dicts.
                      then_do (canonical_steps dicts) (\<lambda>steps.
                        append_res (definition_provider_errors validate (dget d ''provider''))
                        (append_res
                          (validate_steps validate bracketed_ok (dget spec ''mcp_servers'') 0 steps [] [])
                          (policy_errors search d policy))))
                | _ \<Rightarrow> Ok [''Workflow spec steps must be an array''])
           | _ \<Rightarrow> Ok [''Workflow spec must be an object''])
      | _ \<Rightarrow> Ok [''Workflow definition must be an object''])"

section \<open>Tools\<close>

definition unknown_tools :: "string list \<Rightarrow> pyval \<Rightarrow> string list res" where
  "unknown_tools registered step =
     (case step of
        VDict s \<Rightarrow>
          (case dget_or s ''tools'' (VList []) of
             VList tools \<Rightarrow>
               then_do (map_res (\<lambda>t. then_do (name_seen t (map VStr registered)) (\<lambda>known. Ok (t, known))) tools) (\<lambda>seen.
               let unknown = map fst (filter (\<lambda>(t, known). \<not> known) seen) in
               Ok (if unknown = [] then []
                   else [''Unknown tools in step '' @ quote (py_str (dget_or s ''name'' (VStr ''?''))) @ '': ''
                         @ py_repr (VList unknown) @ ''. Registered: ''
                         @ (if registered = [] then ''(none)''
                            else py_repr (VList (map VStr (sort (remdups registered)))))]))
           | _ \<Rightarrow> Ok [])
      | _ \<Rightarrow> Ok [])"

definition validate_workflow_tools :: "string list \<Rightarrow> pydict \<Rightarrow> string list res" where
  "validate_workflow_tools registered definition =
     (case dget_or definition ''spec'' (VDict []) of
        VDict spec \<Rightarrow>
          (case dget_or spec ''steps'' (VList []) of
             VList steps \<Rightarrow> then_do (map_res (unknown_tools registered) steps) (\<lambda>es. Ok (concat es))
           | _ \<Rightarrow> Ok [])
      | _ \<Rightarrow> Ok [])"

section \<open>What an accepted definition satisfies\<close>

text \<open>The steps a definition is checked with.\<close>

definition accepted_steps :: "pydict \<Rightarrow> pydict list res" where
  "accepted_steps d =
     then_do (as_dict (dget_or d ''spec'' (VDict []))) (\<lambda>spec.
     case dget_or spec ''steps'' (VList []) of
       VList raw \<Rightarrow> then_do (map_res as_dict raw) canonical_steps
     | _ \<Rightarrow> Err (TypeError ''steps''))"

definition step_accepted :: "(string \<Rightarrow> bool) \<Rightarrow> pyval \<Rightarrow> pydict \<Rightarrow> bool" where
  "step_accepted bracketed_ok mcp step =
     (truthy (dget step ''name'') \<and> truthy (dget step ''output_key'') \<and> retries_ok (dget step ''max_retries'')
      \<and> set (keys step) \<subseteq> set step_fields
      \<and> reject_secret_bearing_mcp bracketed_ok (merged_mcp mcp step) = Ok ())"

lemma append_res_Nil [simp]: "append_res a b = Ok [] \<longleftrightarrow> a = Ok [] \<and> b = Ok []"
  by (auto simp: append_res_Ok)

lemma caught_Nil: "caught label r = Ok [] \<longleftrightarrow> is_ok r"
  by (auto simp: caught_def is_ok_iff split: sum.splits pyexc.splits)

lemma unknown_errors_Nil: "unknown_errors label known d = [] \<longleftrightarrow> set (keys d) \<subseteq> set known"
proof -
  have "unknown_fields known d = [] \<longleftrightarrow> filter (\<lambda>k. k \<notin> set known) (keys d) = []"
    unfolding unknown_fields_def by (metis set_empty set_sort)
  then show ?thesis by (auto simp: unknown_errors_def filter_empty_conv subset_iff)
qed

lemma name_unseen: "name_seen n seen = Ok False \<longleftrightarrow> hashable n \<and> (\<forall>m \<in> set seen. \<not> py_eq m n)"
  by (auto simp: name_seen_def list_ex_iff)

lemma prompt_errors_Nil:
  "prompt_errors name step ks = Ok [] \<longleftrightarrow>
     (\<exists>p. text_field step ''prompt'' = Ok p \<and> (\<forall>r \<in> set (find_prompt_references p). key_in ks r))"
  by (auto simp: prompt_errors_def then_do_Ok_iff filter_empty_conv)

lemma validate_steps_Cons_Nil:
  "validate_steps validate b mcp i (step # steps) names ks = Ok [] \<longleftrightarrow>
     set (keys step) \<subseteq> set step_fields \<and> truthy (dget step ''name'') \<and> truthy (dget step ''output_key'')
     \<and> name_seen (dget step ''name'') names = Ok False \<and> name_seen (dget step ''output_key'') ks = Ok False
     \<and> step_checks validate b mcp (py_str (dget step ''name'')) step (ks @ [dget step ''output_key'']) = Ok []
     \<and> validate_steps validate b mcp (Suc i) steps (names @ [dget step ''name'']) (ks @ [dget step ''output_key'']) = Ok []"
  by (auto simp: unknown_errors_Nil Let_def then_do_Ok_iff split: if_splits)

text \<open>References of a prompt point to output keys of steps up to its own.\<close>

fun references_resolved :: "pyval list \<Rightarrow> pydict list \<Rightarrow> bool" where
  "references_resolved ks [] = True"
| "references_resolved ks (step # steps) =
     ((\<exists>p. text_field step ''prompt'' = Ok p
         \<and> (\<forall>r \<in> set (find_prompt_references p). key_in (ks @ [dget step ''output_key'']) r))
      \<and> references_resolved (ks @ [dget step ''output_key'']) steps)"

lemma validate_steps_accepted:
  "validate_steps validate b mcp i steps names ks = Ok [] \<Longrightarrow>
     list_all (step_accepted b mcp) steps \<and> references_resolved ks steps
     \<and> sorted_wrt (\<lambda>m n. \<not> py_eq m n) (map (\<lambda>s. dget s ''name'') steps)
     \<and> sorted_wrt (\<lambda>m n. \<not> py_eq m n) (map (\<lambda>s. dget s ''output_key'') steps)
     \<and> (\<forall>m \<in> set names. \<forall>s \<in> set steps. \<not> py_eq m (dget s ''name''))
     \<and> (\<forall>m \<in> set ks. \<forall>s \<in> set steps. \<not> py_eq m (dget s ''output_key''))"
proof (induction steps arbitrary: i names ks)
  case (Cons step steps)
  note C = Cons.prems [unfolded validate_steps_Cons_Nil]
  have checks: "retries_ok (dget step ''max_retries'')"
      "prompt_errors (py_str (dget step ''name'')) step (ks @ [dget step ''output_key'']) = Ok []"
      "reject_secret_bearing_mcp b (merged_mcp mcp step) = Ok ()"
    using C by (auto simp: step_checks_def caught_Nil is_ok_iff split: if_splits)
  show ?case
    using Cons.IH [of "Suc i" "names @ [dget step ''name'']" "ks @ [dget step ''output_key'']"] C checks
    by (auto simp: step_accepted_def prompt_errors_Nil name_unseen)
qed simp

lemma accepted_facts:
  assumes "validate_definition validate bracketed_ok search (VDict d) policy = Ok []"
  shows "\<exists>spec steps. dget_or d ''spec'' (VDict []) = VDict spec \<and> accepted_steps d = Ok steps \<and> steps \<noteq> []
    \<and> list_all (step_accepted bracketed_ok (dget spec ''mcp_servers'')) steps
    \<and> sorted_wrt (\<lambda>m n. \<not> py_eq m n) (map (\<lambda>s. dget s ''name'') steps)
    \<and> sorted_wrt (\<lambda>m n. \<not> py_eq m n) (map (\<lambda>s. dget s ''output_key'') steps)
    \<and> references_resolved [] steps"
proof -
  obtain spec where spec: "dget_or d ''spec'' (VDict []) = VDict spec"
    using assms by (cases "dget_or d ''spec'' (VDict [])") (auto simp: validate_definition_def)
  obtain raw where raw: "dget_or spec ''steps'' (VList []) = VList raw"
    using assms spec by (cases "dget_or spec ''steps'' (VList [])") (auto simp: validate_definition_def)
  have ne: "raw \<noteq> []" using assms spec raw by (auto simp: validate_definition_def)
  have dicts: "\<not> list_ex (\<lambda>s. \<not> is_dict s) raw"
  proof
    assume ex: "list_ex (\<lambda>s. \<not> is_dict s) raw"
    then obtain i where "i < length raw" "\<not> is_dict (raw ! i)" by (auto simp: list_ex_length)
    then have "(i, raw ! i) \<in> set (zip [0..<length raw] raw)" by (auto simp: in_set_zip intro!: exI [of _ i])
    with \<open>\<not> is_dict (raw ! i)\<close> assms spec raw ne ex show False
      by (auto simp: validate_definition_def filter_empty_conv)
  qed
  obtain ds steps where ds: "map_res as_dict raw = Ok ds" and steps: "canonical_steps ds = Ok steps"
    and v: "validate_steps validate bracketed_ok (dget spec ''mcp_servers'') 0 steps [] [] = Ok []"
    using assms spec raw ne dicts by (auto simp: validate_definition_def then_do_Ok_iff)
  have "ds \<noteq> []" using ds ne by (auto simp: map_res_Ok_iff)
  then have "steps \<noteq> []" using steps by (auto simp: canonical_steps_def then_do_Ok_iff split: list.splits)
  moreover have "accepted_steps d = Ok steps" using spec raw ds steps by (simp add: accepted_steps_def)
  ultimately show ?thesis using validate_steps_accepted [OF v] spec by blast
qed


definition ready_definition :: pydict where
  "ready_definition =
     [(''metadata'', VDict [(''name'', VStr ''triage'')]),
      (''spec'', VDict [(''steps'', VList
        [VDict [(''name'', VStr ''scan''), (''prompt'', VStr ''scan''), (''output_key'', VStr ''hosts'')],
         VDict [(''name'', VStr ''fix''), (''prompt'', VStr ''fix {{ steps.hosts.output.names }}''),
                (''output_key'', VStr ''fixed''), (''max_retries'', VInt 2)]])])]"


section \<open>What the content policy and the schema check enforce\<close>

text \<open>The policy, read declaratively for one step.\<close>

definition complies :: "(string \<Rightarrow> string \<Rightarrow> bool) \<Rightarrow> content_policy \<Rightarrow> pydict \<Rightarrow> bool" where
  "complies search p step =
     ((\<forall>k \<in> {''prompt'', ''instructions''}. \<forall>t. text_field step k = Ok t \<and> t \<noteq> [] \<longrightarrow>
         int (length t) \<le> cp_max_prompt_length p
         \<and> (\<forall>(pattern, reason) \<in> set (cp_blocked_patterns p). \<not> search pattern t))
      \<and> (\<forall>f \<in> set (cp_required_fields p). truthy (dget step f))
      \<and> (\<forall>allowed nss. cp_allowed_namespaces p = Some allowed \<and> truthy (dget step ''target_namespaces'')
           \<and> py_iter (dget step ''target_namespaces'') = Ok nss \<longrightarrow> (\<forall>n \<in> set nss. n \<in> VStr ` set allowed)))"

lemma length_violations_Nil:
  "length_violations p n l t = [] \<longleftrightarrow> t = [] \<or> int (length t) \<le> cp_max_prompt_length p"
  by (auto simp: length_violations_def)

lemma pattern_violations_Nil:
  "pattern_violations search n p i (pat, r) = [] \<longleftrightarrow>
     (p = [] \<or> \<not> search pat p) \<and> (i = [] \<or> \<not> search pat i)"
  by (auto simp: pattern_violations_def)

lemma field_violations_Nil: "field_violations n s f = [] \<longleftrightarrow> truthy (dget s f)"
  by (simp add: field_violations_def)

lemma namespace_violations_Nil: "namespace_violations allowed n ns = [] \<longleftrightarrow> ns \<in> VStr ` set allowed"
  by (auto simp: namespace_violations_def)

lemma step_violations_Nil:
  assumes "step_violations search p step = Ok vs"
  shows "vs = [] \<longleftrightarrow> complies search p step"
proof -
  define n where "n = py_str (dget_or step ''name'' (VStr ''unknown''))"
  obtain pr ins nsv where pr: "text_field step ''prompt'' = Ok pr" and ins: "text_field step ''instructions'' = Ok ins"
    and nsv: "namespace_findings p n step = Ok nsv"
    and vs: "vs = length_violations p n ''Prompt'' pr @ length_violations p n ''Instructions'' ins
           @ concat (map (pattern_violations search n pr ins) (cp_blocked_patterns p))
           @ concat (map (field_violations n step) (cp_required_fields p)) @ nsv"
    using assms unfolding step_violations_def Let_def n_def [symmetric]
    by (elim run_elims) (simp split: if_splits)
  have "nsv = [] \<longleftrightarrow> (\<forall>allowed nss. cp_allowed_namespaces p = Some allowed \<and> truthy (dget step ''target_namespaces'')
           \<and> py_iter (dget step ''target_namespaces'') = Ok nss \<longrightarrow> (\<forall>n \<in> set nss. n \<in> VStr ` set allowed))"
    using nsv by (auto simp: namespace_findings_def then_do_Ok_iff namespace_violations_Nil split: option.splits if_splits)
  then show ?thesis
    using pr ins by (auto simp: vs complies_def length_violations_Nil pattern_violations_Nil field_violations_Nil)
qed

text \<open>
  The content policy reports nothing exactly for the definitions that comply with it in every step:
  prompt and instructions within the limit and free of blocked patterns, the required fields
  present, and only allowed namespaces targeted.
\<close>

theorem content_policy_exact:
  assumes "dget_or d ''spec'' (VDict []) = VDict spec" and "dget_or spec ''steps'' (VList []) = VList (map VDict steps)"
    and "evaluate_content_policy search d (Some p) = Ok vs"
  shows "vs = [] \<longleftrightarrow> list_all (complies search p) steps"
proof -
  obtain vss where vss: "map_res (\<lambda>s. then_do (as_dict s) (step_violations search p)) (map VDict steps) = Ok vss"
    and vs: "vs = concat vss"
    using assms by (auto simp: evaluate_content_policy_def then_do_Ok_iff)
  have "list_all2 (\<lambda>s v. step_violations search p s = Ok v) steps vss"
    using vss by (simp add: map_res_Ok_iff list_all2_map1)
  then have "list_all (\<lambda>v. v = []) vss \<longleftrightarrow> list_all (complies search p) steps"
    by (induction rule: list_all2_induct) (auto simp: step_violations_Nil)
  then show ?thesis by (simp add: vs list_all_iff)
qed

theorem content_policy_exact_witness:
  "\<not> list_all (complies (\<lambda>p t. sublist p t) (default_content_policy\<lparr>cp_blocked_patterns := [(''rm -rf'', ''destructive'')]\<rparr>))
     [[(''name'', VStr ''fix''), (''prompt'', VStr ''run rm -rf / now'')]]"
proof -
  define d where "d = [(''spec'', VDict [(''steps'', VList
    (map VDict [[(''name'', VStr ''fix''), (''prompt'', VStr ''run rm -rf / now'')]]))])]"
  have run: "evaluate_content_policy (\<lambda>p t. sublist p t) d
      (Some (default_content_policy\<lparr>cp_blocked_patterns := [(''rm -rf'', ''destructive'')]\<rparr>))
    = Ok [\<lparr>vi_rule = ''blocked_pattern'', vi_step_name = ''fix'', vi_reason = ''destructive (matched in prompt)''\<rparr>]"
    unfolding d_def by code_simp
  have "dget_or d ''spec'' (VDict []) = VDict [(''steps'', VList
      (map VDict [[(''name'', VStr ''fix''), (''prompt'', VStr ''run rm -rf / now'')]]))]" by (simp add: d_def)
  from content_policy_exact [OF this _ run, of "[[(''name'', VStr ''fix''), (''prompt'', VStr ''run rm -rf / now'')]]"]
  show ?thesis by simp
qed

text \<open>The schemas inside a schema that the check reaches.\<close>

inductive subschema :: "pydict \<Rightarrow> pydict \<Rightarrow> bool" where
  itself: "subschema s s"
| items: "map_of s ''items'' = Some (VDict t) \<Longrightarrow> subschema t u \<Longrightarrow> subschema s u"
| property: "map_of s ''properties'' = Some (VDict ps) \<Longrightarrow> (k, VDict t) \<in> set ps \<Longrightarrow> subschema t u \<Longrightarrow> subschema s u"

definition open_array :: "pydict \<Rightarrow> bool" where
  "open_array s = (dget s ''type'' = VStr ''array'' \<and> map_of s ''items'' = None)"

lemma array_errors_Nil: "array_errors s n p = [] \<longleftrightarrow> \<not> open_array s"
  by (simp add: array_errors_def open_array_def)

lemma subschema_all:
  "(\<forall>u. subschema s u \<longrightarrow> \<not> open_array u) \<longleftrightarrow> \<not> open_array s
     \<and> (\<forall>t u. map_of s ''items'' = Some (VDict t) \<longrightarrow> subschema t u \<longrightarrow> \<not> open_array u)
     \<and> (\<forall>ps k t u. map_of s ''properties'' = Some (VDict ps) \<longrightarrow> (k, VDict t) \<in> set ps \<longrightarrow>
         subschema t u \<longrightarrow> \<not> open_array u)"
  (is "(\<forall>u. _ \<longrightarrow> _) \<longleftrightarrow> ?R")
proof
  assume "\<forall>u. subschema s u \<longrightarrow> \<not> open_array u"
  then show ?R by (blast intro: subschema.intros)
next
  assume R: ?R
  show "\<forall>u. subschema s u \<longrightarrow> \<not> open_array u"
  proof (intro allI impI)
    fix u assume "subschema s u"
    then show "\<not> open_array u" using R by cases blast+
  qed
qed

text \<open>The messages from the items and from the properties of a schema.\<close>

definition item_errors :: "pydict \<Rightarrow> string \<Rightarrow> string \<Rightarrow> string list res" where
  "item_errors s n p =
     (case map_of s ''items'' of Some (VDict t) \<Rightarrow> validate_schema t n (p @ ''.items'') | _ \<Rightarrow> Ok [])"

definition property_errors :: "pydict \<Rightarrow> string \<Rightarrow> string \<Rightarrow> string list res" where
  "property_errors s n p =
     (case map_of s ''properties'' of
        None \<Rightarrow> Ok []
      | Some (VDict props) \<Rightarrow>
          then_do (map_res (\<lambda>kv. case snd kv of VDict t \<Rightarrow> validate_schema t n (p @ ''.'' @ fst kv) | _ \<Rightarrow> Ok []) props)
            (\<lambda>es. Ok (concat es))
      | Some _ \<Rightarrow> Err (AttributeError ''items''))"

lemma validate_schema_parts:
  assumes "validate_schema s n p = Ok es"
  obtains ie pe where "item_errors s n p = Ok ie" "property_errors s n p = Ok pe" "es = array_errors s n p @ ie @ pe"
proof -
  have "validate_schema s n p = append_res (Ok (array_errors s n p)) (append_res (item_errors s n p) (property_errors s n p))"
    unfolding item_errors_def property_errors_def by (rule validate_schema.simps)
  with assms have "append_res (Ok (array_errors s n p)) (append_res (item_errors s n p) (property_errors s n p)) = Ok es"
    by simp
  then show thesis using that by (auto simp: append_res_Ok)
qed

text \<open>
  The schema check reports nothing exactly if no schema it reaches through items and properties, at
  any depth, is an array without items.
\<close>

theorem validate_schema_exact:
  assumes "validate_schema s step_name path = Ok es"
  shows "es = [] \<longleftrightarrow> (\<forall>u. subschema s u \<longrightarrow> \<not> open_array u)"
  using assms
proof (induction s step_name path arbitrary: es rule: validate_schema.induct)
  case (1 s n p es)
  obtain ie pe where ie: "item_errors s n p = Ok ie" and pe: "property_errors s n p = Ok pe"
    and es: "es = array_errors s n p @ ie @ pe"
    using "1.prems" by (rule validate_schema_parts)
  have I: "ie = [] \<longleftrightarrow> (\<forall>t u. map_of s ''items'' = Some (VDict t) \<longrightarrow> subschema t u \<longrightarrow> \<not> open_array u)"
  proof (cases "\<exists>t. map_of s ''items'' = Some (VDict t)")
    case True
    then obtain t where t: "map_of s ''items'' = Some (VDict t)" by blast
    with ie have "validate_schema t n (p @ ''.items'') = Ok ie" by (simp add: item_errors_def)
    from "1.IH"(1) [OF t refl this] t show ?thesis by simp
  next
    case False
    then have "ie = []" using ie by (auto simp: item_errors_def split: option.splits pyval.splits)
    with False show ?thesis by blast
  qed
  have P: "pe = [] \<longleftrightarrow> (\<forall>ps k t u. map_of s ''properties'' = Some (VDict ps) \<longrightarrow> (k, VDict t) \<in> set ps \<longrightarrow>
      subschema t u \<longrightarrow> \<not> open_array u)"
  proof (cases "map_of s ''properties''")
    case None
    with pe show ?thesis by (simp add: property_errors_def)
  next
    case (Some v)
    with pe obtain props pes where v: "v = VDict props"
      and m: "map_res (\<lambda>kv. case snd kv of VDict t \<Rightarrow> validate_schema t n (p @ ''.'' @ fst kv) | _ \<Rightarrow> Ok []) props = Ok pes"
      and c: "pe = concat pes"
      by (cases v) (auto simp: property_errors_def then_do_Ok_iff)
    have one: "x = [] \<longleftrightarrow> (\<forall>t u. snd kv = VDict t \<longrightarrow> subschema t u \<longrightarrow> \<not> open_array u)"
      if "kv \<in> set props" "(case snd kv of VDict t \<Rightarrow> validate_schema t n (p @ ''.'' @ fst kv) | _ \<Rightarrow> Ok []) = Ok x" for kv x
    proof (cases "\<exists>t. snd kv = VDict t")
      case True
      then obtain t where t: "snd kv = VDict t" by blast
      with that(2) have "validate_schema t n (p @ ''.'' @ fst kv) = Ok x" by simp
      from "1.IH"(2) [OF Some v that(1) t this] t show ?thesis by simp
    next
      case False
      then have "x = []" using that(2) by (auto split: pyval.splits)
      with False show ?thesis by blast
    qed
    have "list_all2 (\<lambda>kv x. x = [] \<longleftrightarrow> (\<forall>t u. snd kv = VDict t \<longrightarrow> subschema t u \<longrightarrow> \<not> open_array u)) props pes"
      unfolding list_all2_conv_all_nth
    proof (intro conjI allI impI)
      note m' = m [unfolded map_res_Ok_iff list_all2_conv_all_nth]
      show "length props = length pes" using m' by blast
      fix i assume i: "i < length props"
      show "(pes ! i = []) = (\<forall>t u. snd (props ! i) = VDict t \<longrightarrow> subschema t u \<longrightarrow> \<not> open_array u)"
        by (rule one) (use m' i in auto)
    qed
    then have "(\<forall>x \<in> set pes. x = []) \<longleftrightarrow> (\<forall>kv \<in> set props. \<forall>t u. snd kv = VDict t \<longrightarrow> subschema t u \<longrightarrow> \<not> open_array u)"
      by (induction rule: list_all2_induct) auto
    then show ?thesis using Some v by (auto simp: c)
  qed
  have "(\<forall>u. subschema s u \<longrightarrow> \<not> open_array u) \<longleftrightarrow> \<not> open_array s
      \<and> (\<forall>t u. map_of s ''items'' = Some (VDict t) \<longrightarrow> subschema t u \<longrightarrow> \<not> open_array u)
      \<and> (\<forall>ps k t u. map_of s ''properties'' = Some (VDict ps) \<longrightarrow> (k, VDict t) \<in> set ps \<longrightarrow>
          subschema t u \<longrightarrow> \<not> open_array u)"
    by (rule subschema_all)
  then show ?case using I P array_errors_Nil [of s n p] by (simp only: es append_is_Nil_conv)
qed

theorem validate_schema_exact_witness:
  "\<not> (\<forall>u. subschema [(''type'', VStr ''object''), (''properties'', VDict [(''ids'', VDict [(''type'', VStr ''array'')])])] u
       \<longrightarrow> \<not> open_array u)"
proof -
  have "validate_schema [(''type'', VStr ''object''), (''properties'', VDict [(''ids'', VDict [(''type'', VStr ''array'')])])]
      ''scan'' ''root'' = Ok [''output_schema for step '' @ quote ''scan'' @ '': '' @ quote ''root.ids'' @ '' is type ''
        @ quote ''array'' @ '' but missing required '' @ quote ''items'' @ '' definition'']"
    by code_simp
  from validate_schema_exact [OF this] show ?thesis by simp
qed

end
