(* ===== verification/DefinitionStore.thy ===== *)
theory DefinitionStore
  imports Secrets
begin

text \<open>
  The versioned store of workflow definitions, \<open>core/definition_store.py\<close>, as it is deployed: without
  a shared persistence backend (no module constructs it with one). The latest entry of a name and the
  last of its versions are the same object, so deactivating the one deactivates the other; the model
  writes both. The contract the request handlers use is the locale \<open>definition_catalog\<close>.
\<close>

section \<open>The models of core/definition.py\<close>

definition WorkflowStepSpec :: ptype where
  "WorkflowStepSpec = PModel True
     [(''name'', POpt (PStr 0), Some VNone),
      (''type'', PLiteral [''agent'', ''human-approval''], Some (VStr ''agent'')),
      (''agent'', POpt (PStr 0), Some VNone), (''prompt'', POpt (PStr 0), Some VNone),
      (''output_key'', POpt (PStr 0), Some VNone), (''condition'', POpt (PStr 0), Some VNone),
      (''message'', POpt (PStr 0), Some VNone), (''timeout_seconds'', POpt (PInt None None), Some VNone),
      (''max_retries'', PInt (Some 0) None, Some (VInt 0)),
      (''spawn'', POpt (PLiteral [''none'', ''local'', ''ephemeral'']), Some VNone),
      (''risk_level'', POpt (PLiteral [''low'', ''medium'', ''high'', ''critical'']), Some VNone),
      (''permissions'', POpt PermissionScope, Some VNone), (''parallel_group'', POpt (PStr 0), Some VNone),
      (''mcp_servers'', POpt (PList (PUnion (PStr 0) MCPServerConfig)), Some VNone),
      (''spawn_config'', POpt SpawnConfig, Some VNone),
      (''runtime'', PLiteral [''sandbox'', ''generic''], Some (VStr ''sandbox'')),
      (''role'', POpt (PLiteral [''analysis'', ''execution'', ''verification'']), Some VNone),
      (''instructions'', POpt (PStr 0), Some VNone), (''output_schema'', POpt (PMap PAny), Some VNone),
      (''tools'', PList (PStr 0), Some (VList [])), (''context'', POpt (PMap PAny), Some VNone),
      (''service_account'', POpt (PStr 0), Some VNone),
      (''target_namespaces'', POpt (PList (PStr 0)), Some VNone),
      (''allowed_skills'', POpt (PList (PStr 0)), Some VNone),
      (''inference_provider'', POpt InferenceProviderSpec, Some VNone)]"

definition WorkflowSpec :: ptype where
  "WorkflowSpec = PModel True
     [(''input_prompt'', POpt (PStr 0), Some VNone), (''steps'', PList WorkflowStepSpec, None),
      (''timeout_seconds'', POpt (PInt None None), Some VNone),
      (''spawn'', POpt (PLiteral [''none'', ''local'', ''ephemeral'']), Some VNone),
      (''spawn_config'', POpt SpawnConfig, Some VNone),
      (''mcp_servers'', POpt (PList (PUnion (PStr 0) MCPServerConfig)), Some VNone),
      (''allowed_skills'', POpt (PList (PStr 0)), Some VNone), (''permissions'', POpt PermissionScope, Some VNone),
      (''service_account'', POpt (PStr 0), Some VNone), (''context'', POpt (PMap PAny), Some VNone),
      (''escalation'', POpt (PMap PAny), Some VNone)]"

text \<open>The validator of a credential reference lets the well-formed secret names pass.\<close>

definition secret_reference :: "string \<Rightarrow> bool" where
  "secret_reference s = is_ok (validate_credential_reference (VStr s))"

definition ProviderSpec :: ptype where
  "ProviderSpec = PModel True
     [(''name'', PStr 0, None), (''model'', PStr 0, None),
      (''credentials_secret'', POpt (PCheck secret_reference), Some VNone)]"

text \<open>The provider of a run, \<open>ProviderConfig\<close> of \<open>core/models.py\<close>.\<close>

definition ProviderConfig :: ptype where
  "ProviderConfig = PModel True
     [(''name'', PLiteral [''claude'', ''openai'', ''gemini''], None), (''model'', PStr 0, None),
      (''credentials_secret'', POpt (PCheck secret_reference), Some VNone),
      (''model_provider'', POpt (PStr 0), Some VNone)]"

definition SkillsSpec :: ptype where
  "SkillsSpec = PModel False [(''image'', PStr 0, None), (''paths'', POpt (PList (PStr 0)), Some VNone)]"

definition WorkflowDefinition :: ptype where
  "WorkflowDefinition = PModel True
     [(''apiVersion'', PStr 0, None), (''kind'', PLiteral [''AgentWorkflow''], None), (''metadata'', PMap PAny, None),
      (''spec'', WorkflowSpec, None), (''provider'', POpt ProviderSpec, Some VNone),
      (''skills'', POpt SkillsSpec, Some VNone), (''advisory'', PBool, Some (VBool False))]"

section \<open>The store\<close>

text \<open>A stored definition; \<open>sd_definition\<close> is the dictionary of the validated model.\<close>

record stored_definition =
  sd_name :: string
  sd_version :: nat
  sd_definition :: pydict
  sd_created_at :: string
  sd_active :: bool

record definition_store =
  ds_definitions :: "stored_definition dict"
  ds_versions :: "stored_definition list dict"

definition empty_definitions :: definition_store where
  "empty_definitions = \<lparr>ds_definitions = [], ds_versions = []\<rparr>"

definition versions_of :: "definition_store \<Rightarrow> string \<Rightarrow> stored_definition list" where
  "versions_of s name = (case map_of (ds_versions s) name of None \<Rightarrow> [] | Some vs \<Rightarrow> vs)"

text \<open>\<open>definition.metadata["name"]\<close>; the model \<open>StoredDefinition\<close> demands text.\<close>

definition definition_name :: "pydict \<Rightarrow> string res" where
  "definition_name definition =
     then_do (as_dict (dget definition ''metadata'')) (\<lambda>metadata.
       case map_of metadata ''name'' of
         None \<Rightarrow> Err (KeyError ''name'')
       | Some (VStr n) \<Rightarrow> Ok n
       | Some (VList _) \<Rightarrow> Err (TypeError ''unhashable type: list'')
       | Some (VDict _) \<Rightarrow> Err (TypeError ''unhashable type: dict'')
       | Some _ \<Rightarrow> Err (ValueError ''name''))"

definition save_definition ::
  "string \<Rightarrow> pydict \<Rightarrow> definition_store \<Rightarrow> (stored_definition \<times> definition_store) res" where
  "save_definition now definition s =
     then_do (definition_name definition) (\<lambda>name.
       let versions = versions_of s name;
           stored = \<lparr>sd_name = name, sd_version = length versions + 1, sd_definition = definition,
                     sd_created_at = now, sd_active = True\<rparr> in
         Ok (stored, \<lparr>ds_definitions = dict_set name stored (ds_definitions s),
                      ds_versions = dict_set name (versions @ [stored]) (ds_versions s)\<rparr>))"

definition get_definition :: "string \<Rightarrow> definition_store \<Rightarrow> stored_definition option" where
  "get_definition name s =
     (case map_of (ds_definitions s) name of
        None \<Rightarrow> None
      | Some stored \<Rightarrow> if sd_active stored then Some stored else None)"

definition get_version :: "string \<Rightarrow> int \<Rightarrow> definition_store \<Rightarrow> stored_definition option" where
  "get_version name version s =
     (let versions = versions_of s name in
        if version < 1 \<or> version > int (length versions) then None else Some (versions ! nat (version - 1)))"

definition list_definitions :: "definition_store \<Rightarrow> stored_definition list" where
  "list_definitions s = filter sd_active (map snd (ds_definitions s))"

definition delete_definition :: "string \<Rightarrow> definition_store \<Rightarrow> bool \<times> definition_store" where
  "delete_definition name s =
     (case get_definition name s of
        None \<Rightarrow> (False, s)
      | Some stored \<Rightarrow>
          let stored = stored\<lparr>sd_active := False\<rparr>; versions = versions_of s name in
            (True, \<lparr>ds_definitions = dict_set name stored (ds_definitions s),
                    ds_versions = dict_set name (butlast versions @ [stored]) (ds_versions s)\<rparr>))"

section \<open>The invariant\<close>

text \<open>
  The latest entry of a name is its last version, versions are numbered from one, and only the last
  one can be active or not by a deletion.
\<close>

definition store_inv :: "definition_store \<Rightarrow> bool" where
  "store_inv s =
     (wf_dict (ds_definitions s) \<and> wf_dict (ds_versions s)
      \<and> (\<forall>name. map_of (ds_definitions s) name
            = (if versions_of s name = [] then None else Some (last (versions_of s name))))
      \<and> (\<forall>name i. i < length (versions_of s name) \<longrightarrow>
            sd_version (versions_of s name ! i) = Suc i \<and> sd_name (versions_of s name ! i) = name))"

lemma versions_of_set [simp]:
  "versions_of \<lparr>ds_definitions = ds, ds_versions = dict_set n vs (ds_versions s)\<rparr> n' =
     (if n' = n then vs else versions_of s n')"
  by (simp add: versions_of_def)

lemma empty_inv: "store_inv empty_definitions"
  by (simp add: store_inv_def empty_definitions_def versions_of_def)

lemma save_inv:
  assumes "store_inv s" and "save_definition now d s = Ok (stored, s')" shows "store_inv s'"
proof -
  obtain name where "definition_name d = Ok name" and s': "s' = \<lparr>ds_definitions = dict_set name stored (ds_definitions s),
      ds_versions = dict_set name (versions_of s name @ [stored]) (ds_versions s)\<rparr>"
    and st: "sd_version stored = Suc (length (versions_of s name))" "sd_name stored = name"
    using assms(2) by (auto simp: save_definition_def then_do_Ok_iff Let_def)
  have "sd_version ((versions_of s name @ [stored]) ! i) = Suc i \<and> sd_name ((versions_of s name @ [stored]) ! i) = name"
    if "i < Suc (length (versions_of s name))" for i
    using that assms(1) st by (cases "i = length (versions_of s name)") (auto simp: store_inv_def nth_append)
  then show ?thesis using assms(1) by (auto simp: s' store_inv_def)
qed

lemma delete_versions:
  assumes "store_inv s" and "get_definition name s = Some stored"
  shows "versions_of s name = butlast (versions_of s name) @ [stored]"
  using assms by (auto simp: store_inv_def get_definition_def split: option.splits if_splits)

lemma delete_inv:
  assumes "store_inv s" shows "store_inv (snd (delete_definition name s))"
proof (cases "get_definition name s")
  case (Some stored)
  obtain xs where vs: "versions_of s name = xs @ [stored]" using delete_versions [OF assms Some] by blast
  have nums: "sd_version ((xs @ [stored]) ! i) = Suc i \<and> sd_name ((xs @ [stored]) ! i) = name"
    if "i < Suc (length xs)" for i
    using assms that vs by (auto simp: store_inv_def dest!: spec [of _ name])
  have "sd_version ((xs @ [stored\<lparr>sd_active := False\<rparr>]) ! i) = Suc i
      \<and> sd_name ((xs @ [stored\<lparr>sd_active := False\<rparr>]) ! i) = name" if "i < Suc (length xs)" for i
    using nums [OF that] that by (auto simp: nth_append less_Suc_eq)
  then show ?thesis using assms Some vs
    by (auto simp: delete_definition_def Let_def store_inv_def)
qed (use assms in \<open>simp add: delete_definition_def\<close>)

section \<open>The contract\<close>

text \<open>The two operations that change the store, as steps of a sequence.\<close>

datatype catalog_op = Save string pydict | Remove string

fun apply_catalog_op ::
  "(string \<Rightarrow> pydict \<Rightarrow> 's \<Rightarrow> (stored_definition \<times> 's) res) \<Rightarrow> (string \<Rightarrow> 's \<Rightarrow> bool \<times> 's) \<Rightarrow> catalog_op \<Rightarrow> 's \<Rightarrow> 's" where
  "apply_catalog_op save remove (Save now d) s = (case save now d s of Inl _ \<Rightarrow> s | Inr xs \<Rightarrow> snd xs)"
| "apply_catalog_op save remove (Remove n) s = snd (remove n s)"

text \<open>
  What the handlers rely on: after saving, the name resolves to what was saved, other names are
  untouched; after a deletion the name does not resolve; a recorded version keeps its content.
\<close>

locale definition_catalog =
  fixes inv :: "'s \<Rightarrow> bool"
    and save :: "string \<Rightarrow> pydict \<Rightarrow> 's \<Rightarrow> (stored_definition \<times> 's) res"
    and resolve :: "string \<Rightarrow> 's \<Rightarrow> stored_definition option"
    and recorded :: "string \<Rightarrow> int \<Rightarrow> 's \<Rightarrow> stored_definition option"
    and remove :: "string \<Rightarrow> 's \<Rightarrow> bool \<times> 's"
  assumes save_keeps: "inv s \<Longrightarrow> save now d s = Ok (x, s') \<Longrightarrow> inv s'"
    and remove_keeps: "inv s \<Longrightarrow> inv (snd (remove n s))"
    and resolve_saved: "inv s \<Longrightarrow> save now d s = Ok (x, s') \<Longrightarrow>
      resolve n s' = (if n = sd_name x then Some x else resolve n s)"
    and resolve_removed: "inv s \<Longrightarrow> resolve n (snd (remove m s)) = (if n = m then None else resolve n s)"
    and recorded_saved: "inv s \<Longrightarrow> save now d s = Ok (x, s') \<Longrightarrow> recorded n v s = Some y \<Longrightarrow> recorded n v s' = Some y"
    and recorded_new: "inv s \<Longrightarrow> save now d s = Ok (x, s') \<Longrightarrow> recorded (sd_name x) (int (sd_version x)) s' = Some x"
    and recorded_removed: "inv s \<Longrightarrow> recorded n v s = Some y \<Longrightarrow>
      \<exists>b. recorded n v (snd (remove m s)) = Some (y\<lparr>sd_active := b\<rparr>)"
begin

lemma apply_inv: "inv s \<Longrightarrow> inv (apply_catalog_op save remove op s)"
  by (cases op) (auto simp: remove_keeps split: sum.splits intro: save_keeps)

lemma run_inv: "inv s \<Longrightarrow> inv (fold (apply_catalog_op save remove) ops s)"
  by (induction ops arbitrary: s) (auto simp: apply_inv)

text \<open>History is immutable: no sequence of saves and deletions changes a recorded version.\<close>

lemma history_kept:
  "inv s \<Longrightarrow> recorded n v s = Some y \<Longrightarrow> \<exists>b. recorded n v (fold (apply_catalog_op save remove) ops s) = Some (y\<lparr>sd_active := b\<rparr>)"
proof (induction ops arbitrary: s y)
  case Nil
  then show ?case by (intro exI [of _ "sd_active y"]) simp
next
  case (Cons op ops)
  have "\<exists>b. recorded n v (apply_catalog_op save remove op s) = Some (y\<lparr>sd_active := b\<rparr>)"
  proof (cases op)
    case (Save now d)
    show ?thesis
    proof (cases "save now d s")
      case (Inr xs)
      then show ?thesis using recorded_saved [OF Cons.prems(1)] Cons.prems(2) Save
        by (cases xs) (auto intro!: exI [of _ "sd_active y"])
    qed (use Cons.prems Save in \<open>auto intro!: exI [of _ "sd_active y"]\<close>)
  next
    case (Remove m)
    then show ?thesis using recorded_removed [OF Cons.prems] by simp
  qed
  then obtain b where b: "recorded n v (apply_catalog_op save remove op s) = Some (y\<lparr>sd_active := b\<rparr>)" ..
  from Cons.IH [OF apply_inv [OF Cons.prems(1)] b] show ?case by auto
qed

end

lemma saved_iff:
  "save_definition now d s = Ok (x, s') \<longleftrightarrow>
     (\<exists>name. definition_name d = Ok name
       \<and> x = \<lparr>sd_name = name, sd_version = length (versions_of s name) + 1, sd_definition = d,
              sd_created_at = now, sd_active = True\<rparr>
       \<and> s' = \<lparr>ds_definitions = dict_set name x (ds_definitions s),
               ds_versions = dict_set name (versions_of s name @ [x]) (ds_versions s)\<rparr>)"
  by (auto simp: save_definition_def then_do_Ok_iff Let_def)

interpretation catalog: definition_catalog store_inv save_definition get_definition get_version delete_definition
proof unfold_locales
  fix s s' :: definition_store and now d x y n m v
  assume inv: "store_inv s"
  show "store_inv (snd (delete_definition n s))" by (rule delete_inv [OF inv])
  show "get_definition n (snd (delete_definition m s)) = (if n = m then None else get_definition n s)"
    by (cases "get_definition m s") (auto simp: delete_definition_def Let_def get_definition_def)
  assume r: "get_version n v s = Some y"
  show "\<exists>b. get_version n v (snd (delete_definition m s)) = Some (y\<lparr>sd_active := b\<rparr>)"
  proof (cases "n = m \<and> get_definition m s \<noteq> None")
    case True
    then obtain stored xs where st: "get_definition m s = Some stored" and vs: "versions_of s m = xs @ [stored]"
      using delete_versions [OF inv] by blast
    show ?thesis using r True st vs
      by (cases "nat (v - 1) = length xs")
         (auto simp: delete_definition_def Let_def get_version_def nth_append split: if_splits
           intro: exI [of _ False] exI [of _ "sd_active y"])
  next
    case False
    then have "get_version n v (snd (delete_definition m s)) = get_version n v s"
      by (auto simp: delete_definition_def Let_def get_version_def split: option.splits)
    then show ?thesis using r by (auto intro!: exI [of _ "sd_active y"])
  qed
next
  fix s s' :: definition_store and now d x y n v
  assume inv: "store_inv s" and sv: "save_definition now d s = Ok (x, s')"
  show "store_inv s'" by (rule save_inv [OF inv sv])
  show "get_definition n s' = (if n = sd_name x then Some x else get_definition n s)"
    using sv by (auto simp: saved_iff get_definition_def)
  show "get_version (sd_name x) (int (sd_version x)) s' = Some x"
    using sv by (auto simp: saved_iff get_version_def)
  assume "get_version n v s = Some y"
  then show "get_version n v s' = Some y"
    using sv by (auto simp: saved_iff get_version_def nth_append Let_def split: if_splits)
qed

abbreviation store_after :: "catalog_op list \<Rightarrow> definition_store" where
  "store_after ops \<equiv> fold (apply_catalog_op save_definition delete_definition) ops empty_definitions"

lemma store_after_inv: "store_inv (store_after ops)"
  by (rule catalog.run_inv [OF empty_inv])

text \<open>C37. Recorded versions are immutable: what \<open>get_version\<close> returns for a name and a version number after
  some saves and deletions keeps its content, its name, its number and its date through every further
  sequence of saves and deletions, of this name or others; a deletion changes the active flag alone.\<close>

theorem history_immutable:
  assumes "get_version name version (store_after before) = Some stored"
  shows "\<exists>active. get_version name version (store_after (before @ later)) = Some (stored\<lparr>sd_active := active\<rparr>)"
  using catalog.history_kept [OF store_after_inv assms, of later] by simp

text \<open>Saving and reading back: after any history, a definition whose metadata carries a text name is
  stored under the next version number of that name, resolves by name to exactly what was saved, is
  recorded under its version number, and is found by name until a deletion of that name, which hides
  it; what any other name resolves to is untouched.\<close>

theorem save_get_roundtrip:
  assumes "definition_name d = Ok name"
  shows "\<exists>x s'. save_definition now d (store_after ops) = Ok (x, s')
     \<and> sd_definition x = d \<and> sd_version x = Suc (length (versions_of (store_after ops) name))
     \<and> get_definition name s' = Some x \<and> get_version name (int (sd_version x)) s' = Some x
     \<and> get_definition name (snd (delete_definition name s')) = None
     \<and> (\<forall>other. other \<noteq> name \<longrightarrow> get_definition other s' = get_definition other (store_after ops)
            \<and> get_definition other (snd (delete_definition name s')) = get_definition other (store_after ops))"
proof -
  obtain x s' where sv: "save_definition now d (store_after ops) = Ok (x, s')" using assms
    by (auto simp: save_definition_def Let_def)
  then have x: "sd_name x = name" "sd_definition x = d" "sd_version x = Suc (length (versions_of (store_after ops) name))"
    using assms by (auto simp: saved_iff)
  have inv: "store_inv s'" by (rule save_inv [OF store_after_inv sv])
  note laws = catalog.resolve_saved [OF store_after_inv sv] catalog.recorded_new [OF store_after_inv sv]
    catalog.resolve_removed [OF inv]
  show ?thesis using sv x laws by auto
qed

definition sample_body :: "string \<Rightarrow> pydict" where
  "sample_body prompt = [(''metadata'', VDict [(''name'', VStr ''triage'')]),
     (''spec'', VDict [(''steps'', VList [VDict [(''name'', VStr ''look''), (''prompt'', VStr prompt)]])])]"

theorem history_immutable_witness:
  "\<exists>active. get_version ''triage'' 1 (store_after ([Save ''t1'' (sample_body ''a'')]
       @ [Save ''t2'' (sample_body ''b''), Remove ''triage''])) =
     Some (\<lparr>sd_name = ''triage'', sd_version = 1, sd_definition = sample_body ''a'', sd_created_at = ''t1'',
            sd_active = True\<rparr>\<lparr>sd_active := active\<rparr>)"
  by (rule history_immutable) code_simp

theorem save_get_roundtrip_witness:
  "\<exists>x s'. save_definition ''t2'' (sample_body ''b'') (store_after [Save ''t1'' (sample_body ''a'')]) = Ok (x, s')
     \<and> get_definition ''triage'' s' = Some x \<and> get_definition ''triage'' (snd (delete_definition ''triage'' s')) = None"
proof -
  have "definition_name (sample_body ''b'') = Ok ''triage''" by code_simp
  from save_get_roundtrip [OF this, of "''t2''" "[Save ''t1'' (sample_body ''a'')]"] show ?thesis by blast
qed

end
