(* ===== verification/Authorization.thy ===== *)
theory Authorization
  imports PyValue
begin

text \<open>
  Who may do what: the identity, action, resource and decision models and the no-op authorizer of
  \<open>security/authorization.py\<close>, the policy file authorizer of \<open>security/policy_authorizer.py\<close>
  with the glob matching of the standard library's \<open>fnmatch\<close> it relies on, risk classification
  (\<open>security/auto_approve.py\<close>) and advisory mode (\<open>security/advisory.py\<close>).
\<close>

section \<open>Identities, actions, decisions\<close>

record caller_identity =
  ci_username :: string
  ci_uid :: "string option"
  ci_groups :: "string list"
  ci_auth_mode :: string

datatype workflow_action =
    Trigger | Approve | View | Cancel | ViewDefs | ManageDefs | ScheduleCreate | ScheduleView
  | ScheduleDelete | SchedulePause | ScheduleResume | SessionMessage

fun action_value :: "workflow_action \<Rightarrow> string" where
  "action_value Trigger = ''trigger''"
| "action_value Approve = ''approve''"
| "action_value View = ''view''"
| "action_value Cancel = ''cancel''"
| "action_value ViewDefs = ''view_defs''"
| "action_value ManageDefs = ''manage_defs''"
| "action_value ScheduleCreate = ''schedule_create''"
| "action_value ScheduleView = ''schedule_view''"
| "action_value ScheduleDelete = ''schedule_delete''"
| "action_value SchedulePause = ''schedule_pause''"
| "action_value ScheduleResume = ''schedule_resume''"
| "action_value SessionMessage = ''session_message''"

record workflow_resource =
  wr_workflow_id :: "string option"
  wr_workflow_name :: "string option"
  wr_owner :: "string option"
  wr_namespace :: "string option"
  wr_step :: "string option"

record authz_decision =
  ad_allowed :: bool
  ad_reason :: string

definition noop_authorize :: "caller_identity \<Rightarrow> workflow_action \<Rightarrow> workflow_resource \<Rightarrow> authz_decision" where
  "noop_authorize identity action resource = \<lparr>ad_allowed = True, ad_reason = ''authorization disabled''\<rparr>"

text \<open>
  \<open>get_caller_identity\<close>: the identity attached to the request, if any; without one the request is
  anonymous only if \<open>WORKFLOW_AUTHZ\<close> is absent or \<open>none\<close>, and otherwise refused (\<open>None\<close>, status 401).
\<close>

definition get_caller_identity :: "caller_identity option \<Rightarrow> string option \<Rightarrow> caller_identity option" where
  "get_caller_identity attached workflow_authz =
     (case attached of
        Some identity \<Rightarrow> Some identity
      | None \<Rightarrow>
          if (case workflow_authz of None \<Rightarrow> ''none'' | Some m \<Rightarrow> m) \<noteq> ''none'' then None
          else Some \<lparr>ci_username = ''anonymous'', ci_uid = None, ci_groups = [],
                     ci_auth_mode = ''shared_secret''\<rparr>)"

definition parse_namespace_from_sa_username :: "string \<Rightarrow> string option" where
  "parse_namespace_from_sa_username username =
     (case py_split '':'' username of
        [a, b, ns, _] \<Rightarrow> if a = ''system'' \<and> b = ''serviceaccount'' then Some ns else None
      | _ \<Rightarrow> None)"

section \<open>Glob patterns (fnmatch)\<close>

text \<open>
  A pattern is read into tokens: \<open>*\<close>, \<open>?\<close>, a bracket expression, a character. A bracket without
  its closing partner is a character; a closing bracket in first place belongs to the set. A
  reversed range matches nothing.
\<close>

datatype class_item = One char | Range char char

datatype glob_token = GStar | GAny | GLit char | GClass bool "class_item list"

fun class_items :: "string \<Rightarrow> class_item list" where
  "class_items (a # b # c # s) =
     (if b = CHR ''-'' then Range a c # class_items s else One a # class_items (b # c # s))"
| "class_items (a # s) = One a # class_items s"
| "class_items [] = []"

definition item_has :: "char \<Rightarrow> class_item \<Rightarrow> bool" where
  "item_has x i = (case i of One c \<Rightarrow> x = c | Range a b \<Rightarrow> code_of a \<le> code_of x \<and> code_of x \<le> code_of b)"

text \<open>The text between the brackets and what follows, if there is a closing bracket.\<close>

definition bracket_body :: "string \<Rightarrow> (string \<times> string) option" where
  "bracket_body s =
     (let neg = (if prefix ''!'' s then ''!'' else []);
          s1 = drop (length neg) s;
          fst_close = (if prefix '']'' s1 then '']'' else []);
          s2 = drop (length fst_close) s1;
          body = takeWhile (\<lambda>c. c \<noteq> CHR '']'') s2; rest = dropWhile (\<lambda>c. c \<noteq> CHR '']'') s2 in
        if rest = [] then None else Some (neg @ fst_close @ body, tl rest))"

lemma bracket_body_shorter: "bracket_body s = Some (body, rest) \<Longrightarrow> length rest \<le> length s"
proof -
  have "length (dropWhile p t) \<le> length t" for p and t :: string by (rule length_dropWhile_le)
  then show "bracket_body s = Some (body, rest) \<Longrightarrow> length rest \<le> length s"
    by (fastforce simp: bracket_body_def Let_def split: if_splits
        intro: le_trans [OF diff_le_self] le_trans [OF length_dropWhile_le])
qed

function parse_glob :: "string \<Rightarrow> glob_token list" where
  "parse_glob [] = []"
| "parse_glob (c # s) =
     (if c = CHR ''*'' then GStar # parse_glob s
      else if c = CHR ''?'' then GAny # parse_glob s
      else if c = CHR ''['' then
        (case bracket_body s of
           None \<Rightarrow> GLit c # parse_glob s
         | Some (body, rest) \<Rightarrow>
             (if prefix ''!'' body then GClass True (class_items (tl body)) else GClass False (class_items body))
             # parse_glob rest)
      else GLit c # parse_glob s)"
  by pat_completeness auto
termination
  by (relation "measure length") (auto dest: bracket_body_shorter)

fun token_matches :: "glob_token \<Rightarrow> char \<Rightarrow> bool" where
  "token_matches GStar x = True"
| "token_matches GAny x = True"
| "token_matches (GLit c) x = (x = c)"
| "token_matches (GClass negated items) x = (list_ex (item_has x) items \<noteq> negated)"

function match_glob :: "glob_token list \<Rightarrow> string \<Rightarrow> bool" where
  "match_glob [] s = (s = [])"
| "match_glob (GStar # ts) s = 
     (if s = [] then match_glob ts [] else match_glob ts s \<or> match_glob (GStar # ts) (tl s))"
| "t \<noteq> GStar \<Longrightarrow> match_glob (t # ts) s = (s \<noteq> [] \<and> token_matches t (hd s) \<and> match_glob ts (tl s))"
  by (atomize_elim, case_tac x) (auto, metis list.exhaust)
termination
  by (relation "measures [\<lambda>(ts, s). length ts + length s]") (auto simp: neq_Nil_conv)

lemma match_glob_code [code]:
  "match_glob [] s = (s = [])"
  "match_glob (t # ts) s =
     (if t = GStar then (if s = [] then match_glob ts [] else match_glob ts s \<or> match_glob (t # ts) (tl s))
      else s \<noteq> [] \<and> token_matches t (hd s) \<and> match_glob ts (tl s))"
  by simp_all

definition fnmatch :: "string \<Rightarrow> string \<Rightarrow> bool" where
  "fnmatch name pat = match_glob (parse_glob pat) name"

text \<open>The language of a pattern: each token consumes its share of the name.\<close>

definition token_lang :: "glob_token \<Rightarrow> string set" where
  "token_lang t = (if t = GStar then UNIV else {[c] | c. token_matches t c})"

fun glob_lang :: "glob_token list \<Rightarrow> string set" where
  "glob_lang [] = {[]}"
| "glob_lang (t # ts) = {u @ v | u v. u \<in> token_lang t \<and> v \<in> glob_lang ts}"

lemma glob_lang_char:
  "t \<noteq> GStar \<Longrightarrow>
   s \<in> glob_lang (t # ts) \<longleftrightarrow> (\<exists>c v. s = c # v \<and> token_matches t c \<and> v \<in> glob_lang ts)"
  by (auto simp: token_lang_def) (metis append_Cons append_Nil)

lemma match_glob_iff: "match_glob ts s \<longleftrightarrow> s \<in> glob_lang ts"
proof (induction ts s rule: match_glob.induct)
  case (2 ts s)
  have star: "t \<in> glob_lang (GStar # ts) \<longleftrightarrow> (\<exists>u v. t = u @ v \<and> v \<in> glob_lang ts)" for t
    by (simp add: token_lang_def)
  show ?case
  proof (cases s)
    case (Cons c s')
    have "(\<exists>u v. c # s' = u @ v \<and> v \<in> glob_lang ts) \<longleftrightarrow>
        c # s' \<in> glob_lang ts \<or> (\<exists>u v. s' = u @ v \<and> v \<in> glob_lang ts)"
      by (auto simp: Cons_eq_append_conv)
    with 2 Cons show ?thesis unfolding star by simp
  qed (use 2 in \<open>simp add: star del: glob_lang.simps\<close>)
next
  case (3 t ts s)
  then show ?case unfolding glob_lang_char [OF 3(1)] by (cases s) simp_all
qed simp_all

section \<open>The policy file authorizer\<close>

record policy_rule =
  pr_identity :: string
  pr_actions :: "string list"
  pr_workflows :: "string list"
  pr_conditions :: "pydict option"

record policy_defaults =
  pd_allow :: "string list"
  pd_deny_unless_matched :: "string list"

record policy_config =
  pc_rules :: "policy_rule list"
  pc_defaults :: policy_defaults

definition default_policy :: policy_defaults where
  "default_policy = \<lparr>pd_allow = [''view''],
     pd_deny_unless_matched = [''trigger'', ''approve'', ''cancel'', ''manage_defs'']\<rparr>"

definition identity_matches :: "string \<Rightarrow> caller_identity \<Rightarrow> bool" where
  "identity_matches pattern identity =
     (if pattern = ''anonymous'' then ci_username identity = ''anonymous''
      else if prefix ''user:'' pattern then ci_username identity = py_removeprefix ''user:'' pattern
      else if prefix ''team:'' pattern then
        let team = py_removeprefix ''team:'' pattern in
          team \<in> set (ci_groups identity) \<or> ''team:'' @ team \<in> set (ci_groups identity)
      else if prefix ''sa:'' pattern then
        ci_username identity = ''system:serviceaccount:'' @ py_removeprefix ''sa:'' pattern
      else pattern = ci_username identity)"

definition workflow_matches :: "string list \<Rightarrow> workflow_resource \<Rightarrow> bool" where
  "workflow_matches patterns resource =
     (case wr_workflow_name resource of
        None \<Rightarrow> True
      | Some name \<Rightarrow> name = [] \<or> list_ex (fnmatch name) patterns)"

definition conditions_met :: "pydict \<Rightarrow> caller_identity \<Rightarrow> workflow_resource \<Rightarrow> bool" where
  "conditions_met conditions identity resource =
     (if truthy (dget conditions ''require_owner'')
      then (case wr_owner resource of
              None \<Rightarrow> True
            | Some owner \<Rightarrow> owner = [] \<or> ci_username identity = owner)
      else True)"

definition rule_matches :: "caller_identity \<Rightarrow> workflow_action \<Rightarrow> workflow_resource \<Rightarrow> policy_rule \<Rightarrow> bool" where
  "rule_matches identity action resource rule =
     (identity_matches (pr_identity rule) identity
      \<and> action_value action \<in> set (pr_actions rule)
      \<and> workflow_matches (pr_workflows rule) resource)"

text \<open>\<open>f"\<dots>{resource.owner!r}"\<close>.\<close>

definition repr_opt :: "string option \<Rightarrow> string" where
  "repr_opt v = (case v of None \<Rightarrow> ''None'' | Some s \<Rightarrow> repr_str s)"

fun authorize_rules ::
  "policy_rule list \<Rightarrow> policy_defaults \<Rightarrow> caller_identity \<Rightarrow> workflow_action \<Rightarrow> workflow_resource
   \<Rightarrow> authz_decision" where
  "authorize_rules [] defaults identity action resource =
     (if action_value action \<in> set (pd_allow defaults)
      then \<lparr>ad_allowed = True, ad_reason = ''default allow''\<rparr>
      else \<lparr>ad_allowed = False, ad_reason = ''no matching rule''\<rparr>)"
| "authorize_rules (rule # rules) defaults identity action resource =
     (if \<not> identity_matches (pr_identity rule) identity then
        authorize_rules rules defaults identity action resource
      else if action_value action \<notin> set (pr_actions rule) then
        authorize_rules rules defaults identity action resource
      else if \<not> workflow_matches (pr_workflows rule) resource then
        authorize_rules rules defaults identity action resource
      else if (case pr_conditions rule of None \<Rightarrow> False
               | Some c \<Rightarrow> c \<noteq> [] \<and> \<not> conditions_met c identity resource) then
        \<lparr>ad_allowed = False, ad_reason = ''rule '' @ pr_identity rule
           @ '' matched but conditions not met (owner mismatch: resource owner=''
           @ repr_opt (wr_owner resource) @ '')''\<rparr>
      else \<lparr>ad_allowed = True, ad_reason = ''rule: '' @ pr_identity rule\<rparr>)"

definition policy_authorize ::
  "policy_config \<Rightarrow> caller_identity \<Rightarrow> workflow_action \<Rightarrow> workflow_resource \<Rightarrow> authz_decision" where
  "policy_authorize config = authorize_rules (pc_rules config) (pc_defaults config)"

definition rule_conditions_met :: "policy_rule \<Rightarrow> caller_identity \<Rightarrow> workflow_resource \<Rightarrow> bool" where
  "rule_conditions_met rule identity resource =
     (\<forall>c. pr_conditions rule = Some c \<longrightarrow> conditions_met c identity resource)"

lemma authorize_rules_find:
  "ad_allowed (authorize_rules rules defaults identity action resource) \<longleftrightarrow>
     (case find (rule_matches identity action resource) rules of
        Some rule \<Rightarrow> rule_conditions_met rule identity resource
      | None \<Rightarrow> action_value action \<in> set (pd_allow defaults))"
  by (induction rules)
    (auto simp: rule_matches_def rule_conditions_met_def conditions_met_def split: option.splits)

text \<open>
  The policy decision: the first rule whose identity pattern, actions and workflow globs all
  match decides, by its conditions alone; without such a rule the default allow list decides.
  Workflow globs denote the language of their tokens.
\<close>

theorem policy_authorize_first_match:
  "ad_allowed (policy_authorize config identity action resource) \<longleftrightarrow>
     (case find (\<lambda>rule. identity_matches (pr_identity rule) identity
                   \<and> action_value action \<in> set (pr_actions rule)
                   \<and> (wr_workflow_name resource \<in> {None, Some []}
                      \<or> (\<exists>name pat. wr_workflow_name resource = Some name \<and> pat \<in> set (pr_workflows rule)
                           \<and> name \<in> glob_lang (parse_glob pat)))) (pc_rules config) of
        Some rule \<Rightarrow> rule_conditions_met rule identity resource
      | None \<Rightarrow> action_value action \<in> set (pd_allow (pc_defaults config)))"
proof -
  have "workflow_matches patterns resource \<longleftrightarrow> wr_workflow_name resource \<in> {None, Some []}
      \<or> (\<exists>name pat. wr_workflow_name resource = Some name \<and> pat \<in> set patterns \<and> name \<in> glob_lang (parse_glob pat))"
    for patterns
    by (auto simp: workflow_matches_def fnmatch_def match_glob_iff list_ex_iff split: option.splits)
  then show ?thesis
    unfolding policy_authorize_def authorize_rules_find rule_matches_def [abs_def] by simp
qed

text \<open>
  The list \<open>deny_unless_matched\<close> of a policy file has no effect: two policies that differ only
  in it decide every request alike.
\<close>

theorem deny_unless_matched_ignored:
  "policy_authorize (config\<lparr>pc_defaults := (pc_defaults config)\<lparr>pd_deny_unless_matched := denied\<rparr>\<rparr>) identity action resource
   = policy_authorize config identity action resource"
proof -
  have "authorize_rules rules (d\<lparr>pd_deny_unless_matched := denied\<rparr>) identity action resource
      = authorize_rules rules d identity action resource" for rules d
    by (induction rules) auto
  then show ?thesis by (simp add: policy_authorize_def)
qed

text \<open>
  The interface both authorizers implement. What a caller may rely on: a decision depends on the
  caller only through name and groups, so on nothing the authentication mode adds.
\<close>

locale workflow_authorizer =
  fixes authorize :: "caller_identity \<Rightarrow> workflow_action \<Rightarrow> workflow_resource \<Rightarrow> authz_decision"
  assumes identity_extensional:
    "ci_username i = ci_username j \<Longrightarrow> ci_groups i = ci_groups j \<Longrightarrow> authorize i a r = authorize j a r"
begin

lemma auth_mode_irrelevant: "authorize (i\<lparr>ci_uid := u, ci_auth_mode := m\<rparr>) a r = authorize i a r"
  by (rule identity_extensional) simp_all

end

interpretation noop: workflow_authorizer noop_authorize
  by unfold_locales (simp add: noop_authorize_def)

lemma authorize_rules_extensional:
  assumes "ci_username i = ci_username j" and "ci_groups i = ci_groups j"
  shows "authorize_rules rules d i a r = authorize_rules rules d j a r"
proof -
  have "identity_matches p i = identity_matches p j" for p
    using assms by (simp add: identity_matches_def)
  moreover have "conditions_met c i r = conditions_met c j r" for c
    using assms by (simp add: conditions_met_def cong: option.case_cong)
  ultimately show ?thesis by (induction rules) (simp_all cong: option.case_cong)
qed

interpretation policy_file: workflow_authorizer "policy_authorize config" for config
  by unfold_locales (unfold policy_authorize_def, rule authorize_rules_extensional)

text \<open>
  A rule for a service account reaches that service account only: if a rule's pattern is
  \<open>sa:namespace:name\<close> and it matches a caller, the namespace read off the caller's user name is
  that namespace, and no other pattern of this form matches the caller.
\<close>

theorem service_account_rule_scoped:
  assumes "CHR '':'' \<notin> set ns" and "CHR '':'' \<notin> set name"
    and "identity_matches (''sa:'' @ ns @ '':'' @ name) identity"
  shows "parse_namespace_from_sa_username (ci_username identity) = Some ns
    \<and> (identity_matches (''sa:'' @ other) identity \<longleftrightarrow> other = ns @ '':'' @ name)"
proof -
  have u: "ci_username identity = ''system:serviceaccount:'' @ ns @ '':'' @ name"
    using assms(3) by (simp add: identity_matches_def py_removeprefix_def)
  have "py_join '':'' [''system'', ''serviceaccount'', ns, name] = ci_username identity"
    by (simp add: u py_join_Cons)
  moreover have "py_split '':'' (py_join '':'' [''system'', ''serviceaccount'', ns, name]) =
      [''system'', ''serviceaccount'', ns, name]"
    using assms(1,2) by (intro split_join_char) auto
  ultimately have "parse_namespace_from_sa_username (ci_username identity) = Some ns"
    by (simp add: parse_namespace_from_sa_username_def)
  then show ?thesis by (auto simp: identity_matches_def py_removeprefix_def u)
qed

theorem service_account_rule_scoped_witness:
  "parse_namespace_from_sa_username ''system:serviceaccount:prod:bot'' = Some ''prod''"
  using service_account_rule_scoped [of "''prod''" "''bot''"
    "\<lparr>ci_username = ''system:serviceaccount:prod:bot'', ci_uid = None, ci_groups = [], ci_auth_mode = ''jwt''\<rparr>"]
  by (simp add: identity_matches_def py_removeprefix_def)

section \<open>Risk classification\<close>

datatype risk = Low | Medium | High | Critical

fun risk_text :: "risk \<Rightarrow> string" where
  "risk_text Low = ''low''"
| "risk_text Medium = ''medium''"
| "risk_text High = ''high''"
| "risk_text Critical = ''critical''"

record approval_policy =
  ap_auto_approve_risk_levels :: "risk list"
  ap_default_risk :: risk

datatype step_kind = AgentStep | HumanApproval

text \<open>The fields of \<open>WorkflowStepSpec\<close> the classification could look at.\<close>

record step_spec =
  sp_name :: string
  sp_type :: step_kind
  sp_risk_level :: "risk option"
  sp_tools :: "string list"

record risk_classification =
  rc_step_name :: string
  rc_risk_level :: risk
  rc_reason :: string
  rc_auto_approved :: bool

definition classify_agent_risk :: "step_spec \<Rightarrow> approval_policy \<Rightarrow> risk" where
  "classify_agent_risk step policy = (case sp_risk_level step of Some r \<Rightarrow> r | None \<Rightarrow> High)"

text \<open>The dash of the messages, outside the text model, is written with two hyphens.\<close>

definition explain_agent_risk :: "step_spec \<Rightarrow> risk \<Rightarrow> string" where
  "explain_agent_risk step risk =
     ''Step '' @ [sq] @ sp_name step @ [sq] @ '' classified as '' @
     (if risk = Low then ''low risk -- read/analysis operations only''
      else if risk = High then ''high risk -- contains modification/execution keywords''
      else risk_text risk @ '' risk -- default classification'')"

definition classify_step_risk :: "step_spec \<Rightarrow> approval_policy \<Rightarrow> risk_classification" where
  "classify_step_risk step policy =
     (let (risk, reason) =
        (case sp_type step of
           HumanApproval \<Rightarrow>
             (case sp_risk_level step of
                Some r \<Rightarrow> (r, ''Human approval step -- uses explicit risk level'')
              | None \<Rightarrow> (ap_default_risk policy, ''Human approval step -- uses default risk level''))
         | AgentStep \<Rightarrow>
             (let r = classify_agent_risk step policy in (r, explain_agent_risk step r))) in
      \<lparr>rc_step_name = sp_name step, rc_risk_level = risk, rc_reason = reason,
       rc_auto_approved = (risk \<in> set (ap_auto_approve_risk_levels policy))\<rparr>)"

text \<open>
  Risk follows the declared level only: neither the tools nor the name of a step change its
  level, an agent step without a level is high, and a step is approved without a human exactly if
  its level is on the policy's list. The documented rules on read-only tools and on names that
  mention remediation are not in the code.
\<close>

theorem classify_step_risk_declared_only:
  "rc_risk_level (classify_step_risk (step\<lparr>sp_name := name, sp_tools := tools\<rparr>) policy)
     = rc_risk_level (classify_step_risk step policy)
   \<and> rc_risk_level (classify_step_risk (step\<lparr>sp_type := AgentStep, sp_risk_level := None\<rparr>) policy) = High
   \<and> rc_auto_approved (classify_step_risk step policy) =
       (rc_risk_level (classify_step_risk step policy) \<in> set (ap_auto_approve_risk_levels policy))"
  by (cases "sp_type step"; cases "sp_risk_level step")
    (simp_all add: classify_step_risk_def classify_agent_risk_def Let_def)

section \<open>Advisory mode\<close>

definition advisory_prompt_suffix :: string where
  "advisory_prompt_suffix = [newline, newline]
     @ ''ADVISORY MODE: Diagnose only. Report what you would do without taking action.''"

definition annotate_prompt :: "bool \<Rightarrow> string \<Rightarrow> string" where
  "annotate_prompt enabled prompt = (if \<not> enabled then prompt else prompt @ advisory_prompt_suffix)"

definition filter_tools :: "bool \<Rightarrow> (string \<times> 'f) list \<Rightarrow> string list option \<Rightarrow> (string \<times> 'f) list" where
  "filter_tools enabled tools read_only_tools =
     (if \<not> enabled then tools
      else case read_only_tools of
        None \<Rightarrow> tools
      | Some ro \<Rightarrow> if ro = [] then tools else filter (\<lambda>(name, fn). name \<in> set ro) tools)"

definition should_skip_approval :: "bool \<Rightarrow> bool" where
  "should_skip_approval enabled = enabled"

definition annotate_output :: "bool \<Rightarrow> pydict \<Rightarrow> pydict" where
  "annotate_output enabled output = (if \<not> enabled then output else dict_set ''advisory'' (VBool True) output)"

text \<open>
  Advisory mode: with a non-empty classification every remaining tool is read-only and every
  read-only tool remains, in order; without one no tool is removed; every other output key is kept.
\<close>

theorem advisory_filter_sound:
  "filter_tools True tools (Some (r # rs)) = filter (\<lambda>t. fst t \<in> set (r # rs)) tools
   \<and> filter_tools True tools (Some []) = tools
   \<and> filter_tools enabled (filter_tools enabled tools ro) ro = filter_tools enabled tools ro
   \<and> dget (annotate_output True output) ''advisory'' = VBool True
   \<and> dget (annotate_output enabled output) k = (if enabled \<and> k = ''advisory'' then VBool True else dget output k)"
  by (cases ro) (auto simp: filter_tools_def annotate_output_def split_beta intro!: filter_cong)

end
