(* ===== verification/Transcript.thy ===== *)
theory Transcript
  imports Pydantic
begin

text \<open>
  Step transcripts of \<open>core/models.py\<close>: the event and transcript models, normalisation of the
  executors' raw events, and truncation for storage in the workflow's history. A limit is a
  natural number, as at every call.
\<close>

record transcript_event =
  te_ts :: string
  te_type :: string
  te_data :: pydict

record step_transcript =
  st_step_name :: string
  st_events :: "transcript_event list"
  st_cost_usd :: pyval
  st_input_tokens :: pyval
  st_output_tokens :: pyval
  st_duration_ms :: pyval

definition valid_transcript_event_types :: "string list" where
  "valid_transcript_event_types = [''tool_call'', ''tool_result'', ''thinking'', ''result'', ''error'']"

definition TranscriptEvent :: ptype where
  "TranscriptEvent = PModel False
     [(''ts'', PStr 0, None), (''type'', PLiteral valid_transcript_event_types, None),
      (''data'', PMap PAny, Some (VDict []))]"

definition StepTranscript :: ptype where
  "StepTranscript = PModel False
     [(''step_name'', PStr 0, None), (''events'', PList TranscriptEvent, Some (VList [])),
      (''cost_usd'', POpt PAny, Some VNone), (''input_tokens'', POpt (PInt None None), Some VNone),
      (''output_tokens'', POpt (PInt None None), Some VNone), (''duration_ms'', POpt (PInt None None), Some VNone)]"

text \<open>Between a model object, given by its dictionary, and the record.\<close>

definition text_of :: "pyval \<Rightarrow> string" where
  "text_of v = (case v of VStr s \<Rightarrow> s | _ \<Rightarrow> [])"

definition dict_of :: "pyval \<Rightarrow> pydict" where
  "dict_of v = (case v of VDict d \<Rightarrow> d | _ \<Rightarrow> [])"

definition list_of :: "pyval \<Rightarrow> pyval list" where
  "list_of v = (case v of VList xs \<Rightarrow> xs | _ \<Rightarrow> [])"

definition event_of :: "pydict \<Rightarrow> transcript_event" where
  "event_of d = \<lparr>te_ts = text_of (dget d ''ts''), te_type = text_of (dget d ''type''),
                 te_data = dict_of (dget d ''data'')\<rparr>"

definition event_dump :: "transcript_event \<Rightarrow> pydict" where
  "event_dump e = [(''ts'', VStr (te_ts e)), (''type'', VStr (te_type e)), (''data'', VDict (te_data e))]"

definition transcript_of :: "pydict \<Rightarrow> step_transcript" where
  "transcript_of d = \<lparr>st_step_name = text_of (dget d ''step_name''),
     st_events = map (event_of \<circ> dict_of) (list_of (dget d ''events'')),
     st_cost_usd = dget d ''cost_usd'', st_input_tokens = dget d ''input_tokens'',
     st_output_tokens = dget d ''output_tokens'', st_duration_ms = dget d ''duration_ms''\<rparr>"

definition empty_transcript :: "string \<Rightarrow> step_transcript" where
  "empty_transcript name = \<lparr>st_step_name = name, st_events = [], st_cost_usd = VNone,
     st_input_tokens = VNone, st_output_tokens = VNone, st_duration_ms = VNone\<rparr>"

section \<open>Raw events\<close>

definition valid_event_type :: "pyval \<Rightarrow> bool res" where
  "valid_event_type v =
     (case v of
        VStr s \<Rightarrow> Ok (s \<in> set valid_transcript_event_types)
      | VList _ \<Rightarrow> Err (TypeError ''unhashable type'')
      | VDict _ \<Rightarrow> Err (TypeError ''unhashable type'')
      | _ \<Rightarrow> Ok False)"

definition make_event ::
  "(ptype \<Rightarrow> pyval \<Rightarrow> pyval res) \<Rightarrow> pyval \<Rightarrow> pyval \<Rightarrow> pydict \<Rightarrow> transcript_event res" where
  "make_event validate ts ty data =
     then_do (validate TranscriptEvent (VDict [(''ts'', ts), (''type'', ty), (''data'', VDict data)])) (\<lambda>v.
       then_do (as_dict v) (\<lambda>d. Ok (event_of d)))"

definition normalize_event :: "(ptype \<Rightarrow> pyval \<Rightarrow> pyval res) \<Rightarrow> pydict \<Rightarrow> transcript_event res" where
  "normalize_event validate e =
     then_do (valid_event_type (dget e ''type'')) (\<lambda>valid.
       case (valid, dget e ''data'') of
         (True, VDict data) \<Rightarrow> make_event validate (dget_or e ''ts'' (VStr [])) (dget e ''type'') data
       | _ \<Rightarrow> make_event validate (dget_or e ''ts'' (VStr []))
                (if valid then dget e ''type'' else VStr ''result'')
                (filter (\<lambda>(k, v). k \<notin> {''ts'', ''type''}) e))"

definition normalize_transcript_events ::
  "(ptype \<Rightarrow> pyval \<Rightarrow> pyval res) \<Rightarrow> pydict list option \<Rightarrow> transcript_event list res" where
  "normalize_transcript_events validate raw_events =
     map_res (normalize_event validate) (case raw_events of None \<Rightarrow> [] | Some es \<Rightarrow> es)"

section \<open>Truncation\<close>

definition truncate_field :: "nat \<Rightarrow> string \<Rightarrow> pydict \<Rightarrow> pydict" where
  "truncate_field max_payload key data =
     (case map_of data key of
        None \<Rightarrow> data
      | Some v \<Rightarrow>
          let serialized = (case v of VStr s \<Rightarrow> s | _ \<Rightarrow> json_dumps v) in
            if length serialized > max_payload
            then dict_set key (VStr (take max_payload serialized @ ''...(truncated)'')) data
            else data)"

definition truncate_event :: "nat \<Rightarrow> transcript_event \<Rightarrow> transcript_event" where
  "truncate_event max_payload e =
     e\<lparr>te_data := truncate_field max_payload ''text'' (truncate_field max_payload ''output''
        (truncate_field max_payload ''input'' (te_data e)))\<rparr>"

definition truncation_marker :: "nat \<Rightarrow> transcript_event" where
  "truncation_marker omitted = \<lparr>te_ts = [], te_type = ''result'',
     te_data = [(''_truncated'', VBool True), (''omitted_events'', VInt (int omitted))]\<rparr>"

definition truncate_transcript :: "nat \<Rightarrow> nat \<Rightarrow> step_transcript \<Rightarrow> step_transcript" where
  "truncate_transcript max_events max_payload t =
     (let truncated_events = map (truncate_event max_payload) (st_events t) in
        if length truncated_events \<le> max_events then t\<lparr>st_events := truncated_events\<rparr>
        else
          let half = max_events div 2;
              front = take half truncated_events;
              back = (if half > 0 then drop (length truncated_events - half) truncated_events else []);
              omitted = length truncated_events - (length front + length back) in
            t\<lparr>st_events := front @ [truncation_marker omitted] @ back\<rparr>)"

text \<open>
  Truncation bounds the history: at most one event more than the limit is stored; if events
  are dropped, the stored ones are a prefix and a suffix around a marker that states exactly how
  many are missing; otherwise all are kept in order.
\<close>

theorem truncate_events_bounded:
  "length (st_events (truncate_transcript max_events max_payload t)) \<le> max_events + 1
   \<and> (length (st_events t) \<le> max_events \<longrightarrow>
        st_events (truncate_transcript max_events max_payload t) = map (truncate_event max_payload) (st_events t))
   \<and> (max_events < length (st_events t) \<longrightarrow>
        (\<exists>front mid back. st_events t = front @ mid @ back \<and> length front = max_events div 2
           \<and> length back = max_events div 2
           \<and> st_events (truncate_transcript max_events max_payload t) =
               map (truncate_event max_payload) front @ [truncation_marker (length mid)]
               @ map (truncate_event max_payload) back))"
proof (cases "length (st_events t) \<le> max_events")
  case False
  let ?es = "st_events t" and ?h = "max_events div 2" and ?n = "length (st_events t)"
  have h: "2 * ?h \<le> max_events" "?h + ?h < ?n" using False by auto
  have split: "?es = take ?h ?es @ take (?n - 2 * ?h) (drop ?h ?es) @ drop (?n - ?h) ?es"
  proof -
    have "drop (?n - ?h) ?es = drop (?n - 2 * ?h) (drop ?h ?es)" using h by simp
    then show ?thesis by (simp only: append_take_drop_id)
  qed
  have ev: "st_events (truncate_transcript max_events max_payload t) =
      map (truncate_event max_payload) (take ?h ?es) @ [truncation_marker (?n - 2 * ?h)]
      @ map (truncate_event max_payload) (drop (?n - ?h) ?es)"
    using False h by (simp add: truncate_transcript_def Let_def take_map drop_map mult_2)
  have "length (take (?n - 2 * ?h) (drop ?h ?es)) = ?n - 2 * ?h" using h by simp
  then have "\<exists>front mid back. ?es = front @ mid @ back \<and> length front = ?h \<and> length back = ?h
      \<and> st_events (truncate_transcript max_events max_payload t) =
          map (truncate_event max_payload) front @ [truncation_marker (length mid)]
          @ map (truncate_event max_payload) back"
    using split ev h
    by (intro exI [of _ "take ?h ?es"] exI [of _ "take (?n - 2 * ?h) (drop ?h ?es)"]
        exI [of _ "drop (?n - ?h) ?es"]) simp
  moreover have "length (st_events (truncate_transcript max_events max_payload t)) \<le> max_events + 1"
    using h by (simp add: ev)
  ultimately show ?thesis using False by simp
qed (simp add: truncate_transcript_def)

theorem truncate_events_bounded_witness:
  "st_events (truncate_transcript 2 5 (empty_transcript ''s''\<lparr>st_events := map (\<lambda>n. \<lparr>te_ts = show_nat n, te_type = ''result'', te_data = []\<rparr>) [0..<5]\<rparr>))
     = [\<lparr>te_ts = ''0'', te_type = ''result'', te_data = []\<rparr>, truncation_marker 3,
        \<lparr>te_ts = ''4'', te_type = ''result'', te_data = []\<rparr>]
   \<and> length (st_events (truncate_transcript 2 5 (empty_transcript ''s''\<lparr>st_events := map (\<lambda>n. \<lparr>te_ts = show_nat n, te_type = ''result'', te_data = []\<rparr>) [0..<5]\<rparr>))) \<le> 3"
proof
  show "st_events (truncate_transcript 2 5 (empty_transcript ''s''\<lparr>st_events := map (\<lambda>n. \<lparr>te_ts = show_nat n, te_type = ''result'', te_data = []\<rparr>) [0..<5]\<rparr>))
     = [\<lparr>te_ts = ''0'', te_type = ''result'', te_data = []\<rparr>, truncation_marker 3,
        \<lparr>te_ts = ''4'', te_type = ''result'', te_data = []\<rparr>]"
    by code_simp
  show "length (st_events (truncate_transcript 2 5 (empty_transcript ''s''\<lparr>st_events := map (\<lambda>n. \<lparr>te_ts = show_nat n, te_type = ''result'', te_data = []\<rparr>) [0..<5]\<rparr>))) \<le> 3"
    using truncate_events_bounded [of 2 5 "empty_transcript ''s''\<lparr>st_events := map (\<lambda>n. \<lparr>te_ts = show_nat n, te_type = ''result'', te_data = []\<rparr>) [0..<5]\<rparr>"] by simp
qed

lemma truncate_field_other: "k \<noteq> key \<Longrightarrow> map_of (truncate_field n key d) k = map_of d k"
  by (simp add: truncate_field_def Let_def split: option.splits)

lemma truncate_field_text:
  "map_of (truncate_field n key d) key = Some (VStr s) \<Longrightarrow> length s \<le> n + 14"
  by (auto simp: truncate_field_def Let_def split: option.splits if_splits pyval.splits)

text \<open>
  Truncating an event bounds its payload: a text stored under \<open>input\<close>, \<open>output\<close> or \<open>text\<close>
  has at most the limit plus the 14 characters of the marker; every other entry, the time stamp
  and the type are untouched.
\<close>

theorem truncate_event_bounded:
  assumes "k \<in> {''input'', ''output'', ''text''}"
    and "map_of (te_data (truncate_event n e)) k = Some (VStr s)"
    and "k' \<notin> {''input'', ''output'', ''text''}"
  shows "length s \<le> n + 14"
    and "map_of (te_data (truncate_event n e)) k' = map_of (te_data e) k'"
    and "te_ts (truncate_event n e) = te_ts e \<and> te_type (truncate_event n e) = te_type e"
proof -
  show "length s \<le> n + 14"
    using assms(1,2) truncate_field_text
    by (auto simp: truncate_event_def truncate_field_other)
  show "map_of (te_data (truncate_event n e)) k' = map_of (te_data e) k'"
    using assms(3) by (simp add: truncate_event_def truncate_field_other)
  show "te_ts (truncate_event n e) = te_ts e \<and> te_type (truncate_event n e) = te_type e"
    by (simp add: truncate_event_def)
qed

theorem truncate_event_bounded_witness:
  "length (''abc'' @ ''...(truncated)'') \<le> 3 + 14"
  by (rule truncate_event_bounded(1) [where k = "''output''" and k' = "''name''"
        and e = "\<lparr>te_ts = [], te_type = ''tool_result'', te_data = [(''output'', VStr ''abcdef'')]\<rparr>"])
    (simp, code_simp, simp)

context pydantic_engine
begin

lemma canonical_event:
  assumes "ty \<in> set valid_transcript_event_types"
  shows "\<exists>d. validate TranscriptEvent (VDict [(''ts'', VStr ts), (''type'', VStr ty), (''data'', VDict data)])
      = Ok (VDict d) \<and> dget d ''ts'' = VStr ts \<and> dget d ''type'' = VStr ty \<and> dget d ''data'' = VDict data"
proof -
  let ?fs = "[(''ts'', PStr 0, None), (''type'', PLiteral valid_transcript_event_types, None),
      (''data'', PMap PAny, Some (VDict []))]"
  let ?d = "[(''ts'', VStr ts), (''type'', VStr ty), (''data'', VDict data)]"
  have "is_ok (validate (PModel False ?fs) (VDict ?d))"
    by (rule model_accept) (auto simp: str_accept literal_accept [OF assms] map_any_accept)
  then obtain w where w: "validate (PModel False ?fs) (VDict ?d) = Ok w" by (auto simp: is_ok_iff)
  then obtain e where e: "w = VDict e" by (auto dest: model_ok)
  note given = model_given [OF w [unfolded e]]
  have "dget e ''ts'' = VStr ts" using given [of "''ts''" "PStr 0" None] by (auto simp: str_accept)
  moreover have "dget e ''type'' = VStr ty"
    using given [of "''type''" "PLiteral valid_transcript_event_types" None] by (auto simp: literal_accept [OF assms])
  moreover have "dget e ''data'' = VDict data"
    using given [of "''data''" "PMap PAny" "Some (VDict [])"] by (auto simp: map_any_accept)
  ultimately show ?thesis using w by (auto simp: TranscriptEvent_def e)
qed

end

text \<open>
  Normalising raw events is lossless on canonical ones: events that were stored by a transcript
  come back unchanged, so normalising twice is normalising once.
\<close>

theorem normalize_canonical_roundtrip:
  assumes "pydantic_engine validate dump"
    and "list_all (\<lambda>e. te_type e \<in> set valid_transcript_event_types) events"
  shows "normalize_transcript_events validate (Some (map event_dump events)) = Ok events"
proof -
  have "normalize_event validate (event_dump e) = Ok e"
    if "te_type e \<in> set valid_transcript_event_types" for e
    using that pydantic_engine.canonical_event [OF assms(1) that, of "te_ts e" "te_data e"]
    by (auto simp: normalize_event_def event_dump_def valid_event_type_def make_event_def
        event_of_def text_of_def dict_of_def)
  with assms(2) show ?thesis
    unfolding normalize_transcript_events_def by (induction events) auto
qed

theorem normalize_canonical_roundtrip_witness:
  "normalize_transcript_events strict_validate (Some (map event_dump
     [\<lparr>te_ts = ''t0'', te_type = ''thinking'', te_data = [(''text'', VStr ''hm'')]\<rparr>]))
   = Ok [\<lparr>te_ts = ''t0'', te_type = ''thinking'', te_data = [(''text'', VStr ''hm'')]\<rparr>]"
  by (rule normalize_canonical_roundtrip [OF strict.pydantic_engine_axioms]) code_simp

end
