(* ===== verification/TemporalWorkflow.thy ===== *)
theory TemporalWorkflow
  imports Normalize Retry Authorization Transcript
begin

text \<open>
  The Temporal workflow \<open>AgentWorkflow\<close> of \<open>executor/temporal/workflow.py\<close>. Every coroutine is cut
  at its awaits: \<open>execute_step\<close> runs a step up to its first await and returns the phase it waits
  in, \<open>resume\<close> continues a waiting step with the reply of the environment (an activity's result, a
  timer, a decision). What Temporal adds is the order in which members of a parallel group, signals
  and timers take their turns; it is the step relation of the theory \<open>TemporalRuns\<close>. The platform
  record holds the third-party functions of the normalisation.
\<close>

section \<open>State\<close>

record platform =
  pf_validate :: "ptype \<Rightarrow> pyval \<Rightarrow> pyval res"
  pf_dump :: "pydict \<Rightarrow> pydict"
  pf_bracketed_ok :: "string \<Rightarrow> bool"

datatype model_status = MPending | MCompleted | MFailed | MSkipped | MEscalated | MDenied

record step_result =
  sr_status :: model_status
  sr_output :: "pydict option"
  sr_error :: "string option"

record wf_event =
  we_type :: string
  we_step :: string
  we_timestamp :: string

record decision =
  de_decision :: string
  de_selected_option_id :: pyval
  de_approver_username :: pyval
  de_approver_uid :: pyval

record workflow_input =
  wi_definition :: pydict
  wi_input_prompt :: "string option"
  wi_workflow_id :: string
  wi_provider :: pydict
  wi_sandbox_image :: string
  wi_skills_image :: pyval
  wi_skills_paths :: pyval
  wi_approval_policy :: "pydict option"
  wi_advisory :: bool
  wi_notifier_config :: pyval
  wi_escalation_config :: pyval
  wi_mcp_servers :: pyval
  wi_authz_context :: "pydict option"

text \<open>The instance attributes of \<open>AgentWorkflow\<close>; \<open>wf_now\<close> is what \<open>workflow.now()\<close> prints.\<close>

record agent_workflow =
  wf_steps :: "step_result dict"
  wf_approval_decisions :: "decision dict"
  wf_events :: "wf_event list"
  wf_authz_context :: "pydict option"
  wf_workflow_context :: "pydict option"
  wf_step_transcripts :: "step_transcript dict"
  wf_session_results :: "pydict dict"
  wf_now :: string

definition init_workflow :: "string \<Rightarrow> agent_workflow" where
  "init_workflow now = \<lparr>wf_steps = [], wf_approval_decisions = [], wf_events = [], wf_authz_context = None,
     wf_workflow_context = None, wf_step_transcripts = [], wf_session_results = [], wf_now = now\<rparr>"

section \<open>Signals and helpers\<close>

definition session_result :: "string \<Rightarrow> pydict \<Rightarrow> agent_workflow \<Rightarrow> agent_workflow" where
  "session_result session_id result_data w =
     w\<lparr>wf_session_results := dict_set session_id result_data (wf_session_results w)\<rparr>"

definition approve :: "string \<Rightarrow> string \<Rightarrow> pyval \<Rightarrow> pyval \<Rightarrow> pyval \<Rightarrow> agent_workflow \<Rightarrow> agent_workflow" where
  "approve step_name decision selected_option_id approver_username approver_uid w =
     w\<lparr>wf_approval_decisions := dict_set step_name
         \<lparr>de_decision = decision, de_selected_option_id = selected_option_id,
          de_approver_username = approver_username, de_approver_uid = approver_uid\<rparr>
         (wf_approval_decisions w)\<rparr>"

definition emit :: "string \<Rightarrow> string \<Rightarrow> agent_workflow \<Rightarrow> agent_workflow" where
  "emit event_type step_name w =
     w\<lparr>wf_events := wf_events w @ [\<lparr>we_type = event_type, we_step = step_name, we_timestamp = wf_now w\<rparr>]\<rparr>"

definition set_step :: "string \<Rightarrow> step_result \<Rightarrow> agent_workflow \<Rightarrow> agent_workflow" where
  "set_step output_key r w = w\<lparr>wf_steps := dict_set output_key r (wf_steps w)\<rparr>"

definition set_transcript :: "string \<Rightarrow> step_transcript \<Rightarrow> agent_workflow \<Rightarrow> agent_workflow" where
  "set_transcript output_key t w = w\<lparr>wf_step_transcripts := dict_set output_key t (wf_step_transcripts w)\<rparr>"

text \<open>\<open>status_map\<close>: denied and escalated steps count as failed for conditions.\<close>

fun legacy_status :: "model_status \<Rightarrow> core_status" where
  "legacy_status MPending = Pending"
| "legacy_status MCompleted = Completed"
| "legacy_status MFailed = Failed"
| "legacy_status MSkipped = Skipped"
| "legacy_status MEscalated = Failed"
| "legacy_status MDenied = Failed"

definition build_workflow_state :: "agent_workflow \<Rightarrow> workflow_state" where
  "build_workflow_state w =
     \<lparr>ws_workflow_id = ''eval'', ws_workflow_name = ''eval'', ws_status = RunRunning, ws_current_step = None,
      ws_steps = map (\<lambda>(k, v). (k, \<lparr>cr_step_name = k, cr_status = legacy_status (sr_status v),
                                   cr_output = sr_output v, cr_error = None\<rparr>)) (wf_steps w)\<rparr>"

definition eval_condition :: "string \<Rightarrow> agent_workflow \<Rightarrow> bool res" where
  "eval_condition condition w =
     (case evaluate_condition condition (build_workflow_state w) of
        Inr b \<Rightarrow> Ok b
      | Inl (ValueError _) \<Rightarrow> Ok False
      | Inl e \<Rightarrow> Err e)"

definition interpolate_prompt :: "string \<Rightarrow> workflow_input \<Rightarrow> agent_workflow \<Rightarrow> string res" where
  "interpolate_prompt template input w =
     (let template = (case wi_input_prompt input of
                        None \<Rightarrow> template
                      | Some p \<Rightarrow> if p \<noteq> [] \<and> sublist ''{{ input }}'' template
                                  then py_replace ''{{ input }}'' p template else template) in
        if \<not> sublist ''{{'' template then Ok template
        else (case interpolate template (build_workflow_state w) of
                Inr s \<Rightarrow> Ok s
              | Inl (ValueError _) \<Rightarrow> Ok template
              | Inl e \<Rightarrow> Err e))"

text \<open>\<open>d[k]\<close>, and where the code needs a text (names and output keys, which the submission gate checks).\<close>

definition text_at :: "pydict \<Rightarrow> string \<Rightarrow> string res" where
  "text_at d k =
     (case map_of d k of
        None \<Rightarrow> Err (KeyError k)
      | Some (VStr s) \<Rightarrow> Ok s
      | Some _ \<Rightarrow> Err (TypeError k))"

definition item_at :: "pydict \<Rightarrow> string \<Rightarrow> pyval res" where
  "item_at d k = (case map_of d k of None \<Rightarrow> Err (KeyError k) | Some v \<Rightarrow> Ok v)"

text \<open>\<open>StepResult(**data)\<close>.\<close>

definition StepResultModel :: ptype where
  "StepResultModel = PModel False
     [(''status'', PLiteral [''completed'', ''failed'', ''skipped'', ''escalated'', ''denied''], Some (VStr ''pending'')),
      (''output'', POpt (PMap PAny), Some VNone), (''error'', POpt (PStr 0), Some VNone)]"

definition model_status_of :: "pyval \<Rightarrow> model_status" where
  "model_status_of v =
     (if v = VStr ''completed'' then MCompleted else if v = VStr ''failed'' then MFailed
      else if v = VStr ''skipped'' then MSkipped else if v = VStr ''escalated'' then MEscalated
      else if v = VStr ''denied'' then MDenied else MPending)"

definition step_result_of :: "platform \<Rightarrow> pydict \<Rightarrow> step_result res" where
  "step_result_of pf data =
     then_do (pf_validate pf StepResultModel (VDict data)) (\<lambda>v. then_do (as_dict v) (\<lambda>d.
       Ok \<lparr>sr_status = model_status_of (dget d ''status''),
           sr_output = (case dget d ''output'' of VDict r \<Rightarrow> Some r | _ \<Rightarrow> None),
           sr_error = opt_str (dget d ''error'')\<rparr>))"

section \<open>Phases\<close>

text \<open>
  A step that waits for a decision, and one whose activity is being attempted. The request of an
  attempt is rebuilt from the dispatch record each time, with the step results of that moment.
\<close>

record approval_wait =
  aw_step_name :: string
  aw_output_key :: string
  aw_timeout :: pyval
  aw_message :: pyval

record dispatch =
  dp_step_name :: string
  dp_output_key :: string
  dp_timeout :: pyval
  dp_max_retries :: int
  dp_step :: pydict
  dp_provider :: pydict
  dp_sandbox_image :: pyval
  dp_execution_context :: pyval

datatype phase =
    Done "step_result option"
  | Notifying approval_wait
  | Waiting approval_wait
  | Attempting dispatch nat
  | Sleeping dispatch nat
  | Escalating string step_result

text \<open>
  Replies. An activity error is given by the texts of the exception and of its causes, outermost
  first.
\<close>

datatype reply =
    NotificationOver
  | TimedOut
  | DecisionSeen
  | ActivityReturned pyval
  | ActivityRaised "string list"
  | SleepOver
  | EscalationReturned pyval
  | EscalationRaised

definition exc_text :: "string list \<Rightarrow> string" where
  "exc_text chain = activity_error_text (\<lambda>c. if c = [] then [] else hd c)
     (\<lambda>c. if tl c = [] then None else Some (tl c)) chain"

section \<open>Approval steps\<close>

definition risk_names :: "string list" where
  "risk_names = [''low'', ''medium'', ''high'', ''critical'']"

definition ApprovalPolicyModel :: ptype where
  "ApprovalPolicyModel = PModel False
     [(''auto_approve_risk_levels'', PList (PLiteral risk_names), Some (VList [VStr ''low''])),
      (''default_risk'', PLiteral risk_names, Some (VStr ''medium''))]"

definition risk_of :: "pyval \<Rightarrow> risk" where
  "risk_of v = (if v = VStr ''low'' then Low else if v = VStr ''medium'' then Medium
                else if v = VStr ''high'' then High else Critical)"

definition approval_policy_of :: "platform \<Rightarrow> pydict option \<Rightarrow> approval_policy res" where
  "approval_policy_of pf policy =
     then_do (pf_validate pf ApprovalPolicyModel (VDict (case policy of None \<Rightarrow> [] | Some d \<Rightarrow> d))) (\<lambda>v.
     then_do (as_dict v) (\<lambda>d.
       Ok \<lparr>ap_auto_approve_risk_levels = map risk_of (list_of (dget d ''auto_approve_risk_levels'')),
           ap_default_risk = risk_of (dget d ''default_risk'')\<rparr>))"

text \<open>The \<open>WorkflowStepSpec\<close> built for the classification: its other fields keep their defaults.\<close>

definition WorkflowStepSpecGate :: ptype where
  "WorkflowStepSpecGate = PModel True
     [(''name'', POpt (PStr 0), Some VNone), (''type'', PLiteral [''agent'', ''human-approval''], Some (VStr ''agent'')),
      (''output_key'', POpt (PStr 0), Some VNone), (''risk_level'', POpt (PLiteral risk_names), Some VNone),
      (''message'', POpt (PStr 0), Some VNone)]"

definition gate_spec_of :: "platform \<Rightarrow> string \<Rightarrow> string \<Rightarrow> pydict \<Rightarrow> step_spec res" where
  "gate_spec_of pf step_name output_key step =
     then_do (pf_validate pf WorkflowStepSpecGate (VDict
        [(''name'', VStr step_name), (''type'', dget step ''type''), (''output_key'', VStr output_key),
         (''risk_level'', dget step ''risk_level''), (''message'', dget step ''message'')])) (\<lambda>v.
     then_do (as_dict v) (\<lambda>d.
       Ok \<lparr>sp_name = step_name,
           sp_type = (if dget d ''type'' = VStr ''human-approval'' then HumanApproval else AgentStep),
           sp_risk_level = (if dget d ''risk_level'' = VNone then None else Some (risk_of (dget d ''risk_level''))),
           sp_tools = []\<rparr>))"

definition completed_with :: "pydict \<Rightarrow> step_result" where
  "completed_with output = \<lparr>sr_status = MCompleted, sr_output = Some output, sr_error = None\<rparr>"

definition failed_with :: "string \<Rightarrow> step_result" where
  "failed_with err = \<lparr>sr_status = MFailed, sr_output = None, sr_error = Some err\<rparr>"

text \<open>\<open>_handle_approval\<close> up to the notification activity.\<close>

definition handle_approval ::
  "platform \<Rightarrow> workflow_input \<Rightarrow> pydict \<Rightarrow> string \<Rightarrow> string \<Rightarrow> agent_workflow
   \<Rightarrow> (agent_workflow \<times> phase) res" where
  "handle_approval pf input step step_name output_key w =
     then_do (approval_policy_of pf (wi_approval_policy input)) (\<lambda>policy.
     then_do (gate_spec_of pf step_name output_key step) (\<lambda>step_spec.
     let classification = classify_step_risk step_spec policy;
         raw_message = dget_or step ''message'' (VStr []) in
     then_do (case raw_message of
                VStr m \<Rightarrow> if m \<noteq> [] then then_do (interpolate_prompt m input w) (\<lambda>t. Ok (VStr t)) else Ok raw_message
              | _ \<Rightarrow> if truthy raw_message then Err (TypeError ''message'') else Ok raw_message) (\<lambda>message.
     if rc_auto_approved classification then
       let result = completed_with [(''approved'', VBool True), (''auto_approved'', VBool True)] in
         Ok (emit ''step.auto_approved'' step_name (set_step output_key result w), Done (Some result))
     else
       Ok (emit ''workflow.paused'' step_name w,
           Notifying \<lparr>aw_step_name = step_name, aw_output_key = output_key,
                      aw_timeout = dget_or step ''timeout_seconds'' (VInt 86400), aw_message = message\<rparr>))))"

text \<open>
  After the notification, whether it succeeded or not: \<open>timedelta(seconds=timeout_seconds)\<close> needs a
  number.
\<close>

fun is_number :: "pyval \<Rightarrow> bool" where
  "is_number (VInt _) = True"
| "is_number (VFloat _) = True"
| "is_number (VBool _) = True"
| "is_number _ = False"

definition start_wait :: "approval_wait \<Rightarrow> phase res" where
  "start_wait a =
     (if is_number (aw_timeout a) then Ok (Waiting a)
      else Err (TypeError ''unsupported type for timedelta seconds component''))"

definition approval_timeout :: "approval_wait \<Rightarrow> agent_workflow \<Rightarrow> agent_workflow \<times> phase" where
  "approval_timeout a w =
     (let result = \<lparr>sr_status = MDenied,
                    sr_output = Some [(''approved'', VBool False), (''reason'', VStr ''timeout'')],
                    sr_error = None\<rparr> in
        (emit ''step.denied'' (aw_step_name a) (set_step (aw_output_key a) result w), Done (Some result)))"

definition approval_decided :: "approval_wait \<Rightarrow> decision \<Rightarrow> agent_workflow \<Rightarrow> agent_workflow \<times> phase" where
  "approval_decided a d w =
     (let approved = (de_decision d = ''approved'');
          result = \<lparr>sr_status = (if approved then MCompleted else MDenied),
                    sr_output = Some [(''approved'', VBool approved),
                                      (''selected_option_id'', de_selected_option_id d),
                                      (''approver_username'', de_approver_username d),
                                      (''approver_uid'', de_approver_uid d)],
                    sr_error = None\<rparr> in
        (emit (if approved then ''step.completed'' else ''step.denied'') (aw_step_name a)
           (set_step (aw_output_key a) result w), Done (Some result)))"

section \<open>Agent steps\<close>

text \<open>The provider sent to the activity.\<close>

definition activity_provider :: "workflow_input \<Rightarrow> pydict \<Rightarrow> pydict \<Rightarrow> pydict" where
  "activity_provider input definition_defaults normalized =
     (case dget normalized ''inference_provider'' of
        VDict p \<Rightarrow>
          let ap = dict_set ''model'' (dget p ''model'') (dict_set ''name'' (dget p ''name'') (wi_provider input)) in
            if \<not> py_eq (dget p ''name'') (dget (wi_provider input) ''name'')
            then filter (\<lambda>(k, v). k \<noteq> ''credentials_secret'') ap
            else if \<not> truthy (dget ap ''credentials_secret'') then
              (case dget definition_defaults ''provider'' of
                 VDict dp \<Rightarrow>
                   if truthy (dget dp ''credentials_secret'')
                   then dict_set ''credentials_secret'' (dget dp ''credentials_secret'') ap else ap
               | _ \<Rightarrow> ap)
            else ap
      | _ \<Rightarrow> wi_provider input)"

text \<open>The step sent to the activity: the normalised one, with prompt and advisory flag.\<close>

definition resolved_step ::
  "platform \<Rightarrow> workflow_input \<Rightarrow> pydict \<Rightarrow> pydict \<Rightarrow> agent_workflow \<Rightarrow> pydict res" where
  "resolved_step pf input normalized meta w =
     (let base = dict_merge (pf_dump pf normalized) (filter (\<lambda>(k, v). v \<noteq> VNone) meta) in
        then_do (case dget normalized ''prompt'' of
                   VStr p \<Rightarrow>
                     if p = [] then Ok base
                     else then_do (interpolate_prompt p input w) (\<lambda>t.
                       Ok (dict_set ''prompt'' (VStr (annotate_prompt (wi_advisory input) t)) base))
                 | _ \<Rightarrow> Ok base) (\<lambda>r.
          Ok (if wi_advisory input then dict_set ''advisory'' (VBool True) r else r)))"

definition fail_before_dispatch :: "pydict \<Rightarrow> string \<Rightarrow> agent_workflow \<Rightarrow> agent_workflow \<times> phase" where
  "fail_before_dispatch step err w =
     (let failed_name = text_of (dget_or step ''name'' (VStr ''agent''));
          failed_key = text_of (dget_or step ''output_key'' (VStr ''result''));
          result = failed_with err in
        (emit ''step.failed'' failed_name
           (set_transcript failed_key (empty_transcript failed_name) (set_step failed_key result w)),
         Done (Some result)))"

text \<open>The message of a caught \<open>ValueError\<close>.\<close>

fun error_text :: "pyexc \<Rightarrow> string" where
  "error_text (ValueError m) = m"
| "error_text (KeyError m) = m"
| "error_text (RuntimeError m) = m"
| "error_text (TypeError m) = m"
| "error_text (AttributeError m) = m"
| "error_text (NotImplementedError m) = m"

definition retries_of :: "pydict \<Rightarrow> int" where
  "retries_of normalized = (case dget normalized ''max_retries'' of VInt i \<Rightarrow> i | _ \<Rightarrow> 0)"

definition normalize_for_dispatch ::
  "platform \<Rightarrow> workflow_input \<Rightarrow> pydict \<Rightarrow> pydict \<Rightarrow> int \<Rightarrow> (pydict \<times> pydict) res" where
  "normalize_for_dispatch pf input step definition_defaults step_count =
     then_do (normalize_workflow_step (pf_validate pf) (pf_bracketed_ok pf) step definition_defaults step_count)
       (\<lambda>(normalized, meta).
          then_do (enforce_provider_boundary (dget normalized ''inference_provider'') (wi_provider input))
            (\<lambda>_. Ok (normalized, meta)))"

text \<open>\<open>_handle_agent_step\<close> up to the first attempt.\<close>

definition handle_agent_step ::
  "platform \<Rightarrow> workflow_input \<Rightarrow> pydict \<Rightarrow> agent_workflow \<Rightarrow> (agent_workflow \<times> phase) res" where
  "handle_agent_step pf input step w =
     then_do (as_dict (dget_or (wi_definition input) ''spec'' (VDict []))) (\<lambda>spec.
     then_do (py_iter (dget_or spec ''steps'' (VList []))) (\<lambda>raw_steps.
     then_do (workflow_defaults_from_definition (wi_definition input)) (\<lambda>definition_defaults.
     case normalize_for_dispatch pf input step definition_defaults (int (length raw_steps)) of
       Inl e \<Rightarrow> if is_ValueError e then Ok (fail_before_dispatch step (error_text e) w) else Err e
     | Inr (normalized, meta) \<Rightarrow>
         then_do (resolve_sandbox_image (dget normalized ''spawn_config'') definition_defaults
                    (VStr (wi_sandbox_image input))) (\<lambda>sandbox_image.
         then_do (resolved_step pf input normalized meta w) (\<lambda>rstep.
         let step_name = text_of (dget normalized ''name'') in
         Ok (emit ''step.started'' step_name w,
             Attempting
               \<lparr>dp_step_name = step_name, dp_output_key = text_of (dget normalized ''output_key''),
                dp_timeout = (if truthy (dget normalized ''timeout_seconds'')
                  then dget normalized ''timeout_seconds'' else VInt default_step_timeout_seconds),
                dp_max_retries = retries_of normalized, dp_step = rstep,
                dp_provider = activity_provider input definition_defaults normalized,
                dp_sandbox_image = sandbox_image, dp_execution_context = dget normalized ''context''\<rparr> 1))))))"

text \<open>\<open>_execute_step\<close> up to its first await.\<close>

definition execute_step ::
  "platform \<Rightarrow> workflow_input \<Rightarrow> pydict \<Rightarrow> agent_workflow \<Rightarrow> (agent_workflow \<times> phase) res" where
  "execute_step pf input step w =
     then_do (text_at step ''name'') (\<lambda>step_name.
     then_do (text_at step ''output_key'') (\<lambda>output_key.
     then_do (case dget step ''condition'' of
                VStr c \<Rightarrow> if c \<noteq> [] then eval_condition c w else Ok True
              | v \<Rightarrow> if truthy v then Err (TypeError ''condition'') else Ok True) (\<lambda>holds.
     if \<not> holds then
       Ok (emit ''step.skipped'' step_name
             (set_step output_key \<lparr>sr_status = MSkipped, sr_output = None, sr_error = None\<rparr> w), Done None)
     else
     then_do (item_at step ''type'') (\<lambda>step_type.
     if step_type = VStr ''human-approval'' then
       if should_skip_approval (wi_advisory input) then
         let result = completed_with [(''approved'', VBool True), (''advisory'', VBool True)] in
           Ok (emit ''step.advisory_skipped'' step_name (set_step output_key result w), Done (Some result))
       else handle_approval pf input step step_name output_key w
     else if step_type = VStr ''agent'' then handle_agent_step pf input step w
     else
       let result = failed_with (''unknown step type '' @ py_repr step_type @ '': only '' @ [sq] @ ''agent'' @ [sq]
                      @ '' and '' @ [sq] @ ''human-approval'' @ [sq] @ '' are supported'') in
         Ok (emit ''step.failed'' step_name (set_step output_key result w), Done (Some result))))))"

section \<open>Attempts and their end\<close>

definition activity_succeeded :: "pyval \<Rightarrow> bool" where
  "activity_succeeded result =
     (case result of VDict d \<Rightarrow> dget d ''status'' = VStr ''completed'' | _ \<Rightarrow> False)"

definition activity_error :: "pyval \<Rightarrow> string option" where
  "activity_error result =
     (case result of
        VDict d \<Rightarrow> (case dget d ''error'' of VStr e \<Rightarrow> Some e | VNone \<Rightarrow> None | v \<Rightarrow> Some (py_str v))
      | _ \<Rightarrow> None)"

text \<open>
  The request of one attempt, the argument of \<open>run_sandbox_step\<close>; the results of earlier steps are
  those at the time of the attempt.
\<close>

fun model_status_text :: "model_status \<Rightarrow> string" where
  "model_status_text MPending = ''pending''"
| "model_status_text MCompleted = ''completed''"
| "model_status_text MFailed = ''failed''"
| "model_status_text MSkipped = ''skipped''"
| "model_status_text MEscalated = ''escalated''"
| "model_status_text MDenied = ''denied''"

definition step_result_dump :: "step_result \<Rightarrow> pyval" where
  "step_result_dump r = VDict
     [(''status'', VStr (model_status_text (sr_status r))),
      (''output'', case sr_output r of None \<Rightarrow> VNone | Some d \<Rightarrow> VDict d),
      (''error'', case sr_error r of None \<Rightarrow> VNone | Some e \<Rightarrow> VStr e)]"

definition activity_request :: "workflow_input \<Rightarrow> dispatch \<Rightarrow> nat \<Rightarrow> agent_workflow \<Rightarrow> pydict" where
  "activity_request input dp attempt w =
     [(''step'', VDict (dp_step dp)), (''workflow_id'', VStr (wi_workflow_id input)),
      (''provider'', VDict (dp_provider dp)), (''sandbox_image'', dp_sandbox_image dp),
      (''execution_context'', dp_execution_context dp), (''attempt'', VInt (int attempt)),
      (''skills_image'', wi_skills_image input), (''skills_paths'', wi_skills_paths input),
      (''mcp_servers'', if truthy (wi_mcp_servers input) then wi_mcp_servers input else VNone),
      (''context'', VDict (map (\<lambda>(k, r). (k, step_result_dump r)) (wf_steps w)))]"

text \<open>What follows a returned result: transcript, step result, advisory mark, event.\<close>

definition finish_result ::
  "platform \<Rightarrow> workflow_input \<Rightarrow> dispatch \<Rightarrow> pyval \<Rightarrow> agent_workflow \<Rightarrow> (agent_workflow \<times> phase) res" where
  "finish_result pf input dp result w =
     (case result of
        VDict d \<Rightarrow>
          let transcript_data = dget d ''transcript'' in
          then_do (step_result_of pf (filter (\<lambda>(k, v). k \<noteq> ''transcript'') d)) (\<lambda>r.
          then_do (if truthy transcript_data then
                     then_do (pf_validate pf StepTranscript transcript_data) (\<lambda>v.
                     then_do (as_dict v) (\<lambda>t. Ok (truncate_transcript 50 256 (transcript_of t))))
                   else Ok (empty_transcript (dp_step_name dp))) (\<lambda>transcript.
          let r = (case sr_output r of
                     Some out \<Rightarrow> if wi_advisory input \<and> out \<noteq> []
                                 then r\<lparr>sr_output := Some (annotate_output True out)\<rparr> else r
                   | None \<Rightarrow> r) in
          Ok (emit (if sr_status r = MCompleted then ''step.completed'' else ''step.failed'') (dp_step_name dp)
                (set_step (dp_output_key dp) r (set_transcript (dp_output_key dp) transcript w)),
              Done (Some r))))
      | _ \<Rightarrow> Err (AttributeError ''status''))"

definition finish_error :: "dispatch \<Rightarrow> string list \<Rightarrow> agent_workflow \<Rightarrow> agent_workflow \<times> phase" where
  "finish_error dp chain w =
     (let detail = exc_text chain;
          result = failed_with (if detail = [] then ''retries exhausted'' else ''retries exhausted: '' @ detail) in
        (emit ''step.failed'' (dp_step_name dp)
           (set_transcript (dp_output_key dp) (empty_transcript (dp_step_name dp))
             (set_step (dp_output_key dp) result w)),
         Escalating (dp_step_name dp) result))"

text \<open>
  \<open>resume\<close>: a waiting step and a reply. A reply the phase does not wait for has no successor
  (\<open>None\<close>); a decision is seen only once the signal has arrived.
\<close>

fun resume ::
  "platform \<Rightarrow> workflow_input \<Rightarrow> phase \<Rightarrow> reply \<Rightarrow> agent_workflow \<Rightarrow> (agent_workflow \<times> phase) res option" where
  "resume pf input (Notifying a) NotificationOver w = Some (then_do (start_wait a) (\<lambda>p. Ok (w, p)))"
| "resume pf input (Waiting a) TimedOut w = Some (Ok (approval_timeout a w))"
| "resume pf input (Waiting a) DecisionSeen w =
     (case map_of (wf_approval_decisions w) (aw_step_name a) of
        None \<Rightarrow> None
      | Some d \<Rightarrow> Some (Ok (approval_decided a d w)))"
| "resume pf input (Attempting dp n) (ActivityReturned result) w =
     Some (if activity_succeeded result then finish_result pf input dp result w
           else if max_attempts_for (dp_max_retries dp) \<le> int n \<or> \<not> is_transient_failure (activity_error result)
           then finish_result pf input dp result w
           else Ok (w, Sleeping dp n))"
| "resume pf input (Attempting dp n) (ActivityRaised chain) w =
     Some (if max_attempts_for (dp_max_retries dp) \<le> int n \<or> \<not> is_transient_failure (Some (exc_text chain))
           then Ok (finish_error dp chain w)
           else Ok (w, Sleeping dp n))"
| "resume pf input (Sleeping dp n) SleepOver w = Some (Ok (w, Attempting dp (n + 1)))"
| "resume pf input (Escalating step_name result) (EscalationReturned v) w =
     Some (case v of
             VDict d \<Rightarrow> then_do (step_result_of pf d) (\<lambda>r.
               Ok (emit ''workflow.escalated'' step_name (set_step ''escalation'' r w), Done (Some result)))
           | _ \<Rightarrow> Err (AttributeError ''escalation''))"
| "resume pf input (Escalating step_name result) EscalationRaised w =
     Some (Err (RuntimeError ''build_escalation_activity failed''))"
| "resume pf input _ _ w = None"

section \<open>Facts about single steps\<close>

lemma eval_condition_total: "\<exists>b. eval_condition c w = Ok b"
proof (cases "evaluate_condition c (build_workflow_state w)")
  case (Inl e)
  then have "is_ValueError e" by (auto dest: evaluate_condition_Err)
  with Inl show ?thesis by (cases e) (auto simp: eval_condition_def)
qed (auto simp: eval_condition_def)

lemma eval_condition_iff: "eval_condition c w = Ok True \<longleftrightarrow> evaluate_condition c (build_workflow_state w) = Ok True"
  by (auto simp: eval_condition_def split: sum.splits pyexc.splits)

text \<open>A platform and an input for examples.\<close>

definition strict_platform :: platform where
  "strict_platform = \<lparr>pf_validate = strict_validate, pf_dump = drop_none, pf_bracketed_ok = (\<lambda>_. True)\<rparr>"

definition sample_input :: workflow_input where
  "sample_input = \<lparr>wi_definition = sample_definition, wi_input_prompt = None, wi_workflow_id = ''wf-1'',
     wi_provider = [(''name'', VStr ''openai''), (''model'', VStr ''gpt-4o''), (''credentials_secret'', VNone),
                    (''model_provider'', VNone)],
     wi_sandbox_image = ''sandbox:1'', wi_skills_image = VNone, wi_skills_paths = VNone,
     wi_approval_policy = None, wi_advisory = False, wi_notifier_config = VNone,
     wi_escalation_config = VNone, wi_mcp_servers = VNone, wi_authz_context = None\<rparr>"

text \<open>
  Conditions fail closed: a step whose condition is false or cannot be evaluated is recorded as
  skipped and does nothing else, whatever its type; in particular no activity is dispatched.
\<close>

theorem condition_fails_closed:
  assumes "text_at step ''name'' = Ok name" and "text_at step ''output_key'' = Ok key"
    and "dget step ''condition'' = VStr c" and "c \<noteq> []"
    and "evaluate_condition c (build_workflow_state w) \<noteq> Ok True"
  shows "execute_step pf input step w =
    Ok (emit ''step.skipped'' name (set_step key \<lparr>sr_status = MSkipped, sr_output = None, sr_error = None\<rparr> w),
        Done None)"
proof -
  from assms(5) eval_condition_iff eval_condition_total have "eval_condition c w = Ok False"
    by (metis (full_types))
  with assms(1-4) show ?thesis by (simp add: execute_step_def)
qed

theorem condition_fails_closed_witness:
  "execute_step strict_platform sample_input
      [(''name'', VStr ''fix''), (''output_key'', VStr ''fix''), (''type'', VStr ''agent''),
       (''condition'', VStr ''steps.gate.approved'')] (init_workflow ''t'') =
    Ok (emit ''step.skipped'' ''fix'' (set_step ''fix'' \<lparr>sr_status = MSkipped, sr_output = None, sr_error = None\<rparr>
         (init_workflow ''t'')), Done None)"
  by (rule condition_fails_closed [where c = "''steps.gate.approved''"]) (simp_all add: text_at_def, code_simp)

text \<open>
  C11. A gate opens only on an explicit approval: a step that waits for a decision ends as completed
  exactly if a decision \<open>approved\<close> has been signalled for it; a timeout or any other decision ends
  it as denied.
\<close>

theorem approval_needs_decision:
  assumes "resume pf input (Waiting a) reply w = Some (Ok (w', p))"
  shows "\<exists>r. p = Done (Some r) \<and> map_of (wf_steps w') (aw_output_key a) = Some r
    \<and> (sr_status r = MCompleted \<longleftrightarrow> reply = DecisionSeen
         \<and> (\<exists>d. map_of (wf_approval_decisions w) (aw_step_name a) = Some d \<and> de_decision d = ''approved''))
    \<and> (sr_status r \<noteq> MCompleted \<longrightarrow> sr_status r = MDenied)"
  using assms
  by (cases reply)
    (auto simp: approval_timeout_def approval_decided_def Let_def set_step_def emit_def split: option.splits)

theorem approval_needs_decision_witness:
  "\<exists>w'. resume strict_platform sample_input (Waiting \<lparr>aw_step_name = ''gate'', aw_output_key = ''ok'', aw_timeout = VInt 60, aw_message = VNone\<rparr>)
      DecisionSeen (approve ''gate'' ''approved'' VNone (VStr ''ann'') VNone (init_workflow ''t'')) = Some (Ok w')
    \<and> (\<exists>r. snd w' = Done (Some r) \<and> sr_status r = MCompleted)"
proof -
  let ?a = "\<lparr>aw_step_name = ''gate'', aw_output_key = ''ok'', aw_timeout = VInt 60, aw_message = VNone\<rparr>"
  let ?w = "approve ''gate'' ''approved'' VNone (VStr ''ann'') VNone (init_workflow ''t'')"
  obtain w' p where res: "resume strict_platform sample_input (Waiting ?a) DecisionSeen ?w = Some (Ok (w', p))"
    by (simp add: approve_def init_workflow_def approval_decided_def Let_def)
  then show ?thesis
    using approval_needs_decision [OF res] by (auto simp: approve_def init_workflow_def)
qed

text \<open>
  A step without a type, which the submission gate accepts and normalisation treats as an agent
  step, ends a multi-step run with a \<open>KeyError\<close>: the run loop fills in the default for one-step
  definitions only.
\<close>

theorem missing_type_crashes:
  assumes "text_at step ''name'' = Ok name" and "text_at step ''output_key'' = Ok key"
    and "dget step ''condition'' = VNone" and "map_of step ''type'' = None"
  shows "execute_step pf input step w = Err (KeyError ''type'')"
  using assms by (simp add: execute_step_def item_at_def)

definition untyped_step :: pydict where
  "untyped_step = [(''name'', VStr ''scan''), (''output_key'', VStr ''scan''), (''prompt'', VStr ''look'')]"

theorem missing_type_crashes_witness:
  "execute_step strict_platform sample_input untyped_step (init_workflow ''t'') = Err (KeyError ''type'')
   \<and> is_ok (normalize_workflow_step strict_validate (\<lambda>_. True) untyped_step [] 2)"
proof
  show "execute_step strict_platform sample_input untyped_step (init_workflow ''t'') = Err (KeyError ''type'')"
    by (rule missing_type_crashes) (simp_all add: untyped_step_def text_at_def)
  show "is_ok (normalize_workflow_step strict_validate (\<lambda>_. True) untyped_step [] 2)" by code_simp
qed

text \<open>
  An approval step whose timeout is null, as every stored definition that leaves it out has it,
  ends the run with a \<open>TypeError\<close> when the wait starts: the default of one day applies only if the
  key is absent.
\<close>

theorem null_timeout_crashes:
  assumes "handle_approval pf input step name key w = Ok (w1, Notifying a)"
    and "map_of step ''timeout_seconds'' = Some VNone"
  shows "resume pf input (Notifying a) NotificationOver w' =
    Some (Err (TypeError ''unsupported type for timedelta seconds component''))"
proof -
  from assms(1) have "aw_timeout a = dget_or step ''timeout_seconds'' (VInt 86400)"
    unfolding handle_approval_def Let_def by (elim run_elims) (auto split: if_splits)
  with assms(2) show ?thesis by (simp add: start_wait_def dget_or_def)
qed

theorem null_timeout_crashes_witness:
  "resume strict_platform sample_input (Notifying \<lparr>aw_step_name = ''gate'', aw_output_key = ''ok'',
      aw_timeout = VNone, aw_message = VStr ''go?''\<rparr>) NotificationOver (init_workflow ''t'') =
    Some (Err (TypeError ''unsupported type for timedelta seconds component''))"
proof (rule null_timeout_crashes)
  let ?step = "[(''type'', VStr ''human-approval''), (''message'', VStr ''go?''), (''timeout_seconds'', VNone)]"
  show "handle_approval strict_platform sample_input ?step ''gate'' ''ok'' (init_workflow ''t'') =
      Ok (emit ''workflow.paused'' ''gate'' (init_workflow ''t''),
          Notifying \<lparr>aw_step_name = ''gate'', aw_output_key = ''ok'', aw_timeout = VNone, aw_message = VStr ''go?''\<rparr>)"
    by code_simp
  show "map_of ?step ''timeout_seconds'' = Some VNone" by simp
qed

section \<open>Retries\<close>

text \<open>
  Attempts driven by the environment: the outcome of each attempt is fed to the waiting step, the
  timers of the backoff run out, and the outcome that ends the attempts is returned with their
  number.
\<close>

fun reply_of :: "(string list, pyval) outcome \<Rightarrow> reply" where
  "reply_of (Raised chain) = ActivityRaised chain"
| "reply_of (Returned v) = ActivityReturned v"

fun drive ::
  "platform \<Rightarrow> workflow_input \<Rightarrow> dispatch \<Rightarrow> nat \<Rightarrow> (string list, pyval) outcome list \<Rightarrow> agent_workflow
   \<Rightarrow> ((string list, pyval) outcome \<times> nat) option" where
  "drive pf input dp n [] w = None"
| "drive pf input dp n (out # outs) w =
     (case resume pf input (Attempting dp n) (reply_of out) w of
        Some (Inr (w', Sleeping dp' m)) \<Rightarrow>
          (case resume pf input (Sleeping dp' m) SleepOver w' of
             Some (Inr (w'', Attempting dp'' k)) \<Rightarrow> drive pf input dp'' k outs w''
           | _ \<Rightarrow> None)
      | _ \<Rightarrow> Some (out, n))"

definition pop :: "'a list \<Rightarrow> 'a \<times> 'a list" where
  "pop xs = (hd xs, tl xs)"

lemma pop_Cons [simp]: "pop (x # xs) = (x, xs)"
  by (simp add: pop_def)

lemma finish_result_not_sleeping: "finish_result pf input dp v w \<noteq> Ok (w', Sleeping dp' m)"
proof
  assume "finish_result pf input dp v w = Ok (w', Sleeping dp' m)"
  then show False
    unfolding finish_result_def by (cases v) (auto simp: Let_def then_do_Ok_iff)
qed

lemma drive_Cons:
  "drive pf input dp n (out # outs) w =
     (if max_attempts_for (dp_max_retries dp) \<le> int n
         \<or> final_outcome activity_succeeded activity_error exc_text out
      then Some (out, n) else drive pf input dp (n + 1) outs w)"
proof (cases out)
  case (Raised chain)
  then show ?thesis by (simp add: finish_error_def Let_def)
next
  case (Returned v)
  have stop: "(case Some (finish_result pf input dp v w) of
      Some (Inr (w', Sleeping dp' m)) \<Rightarrow> g w' dp' m | _ \<Rightarrow> Some (out, n)) = Some (out, n)" for g
    using finish_result_not_sleeping [of pf input dp v w]
    by (auto split: sum.splits prod.splits phase.splits)
  then show ?thesis unfolding Returned by (simp add: stop)
qed

lemma retry_loop_returns: "fst (retry_loop att suc err txt i (Suc k) st) \<noteq> None"
proof (induction k arbitrary: i st)
  case (Suc k)
  then show ?case
    by (subst retry_loop_step) (auto split: prod.splits simp del: retry_loop.simps, metis fst_conv)
qed (simp add: retry_loop_step del: retry_loop.simps)

lemma drive_retry_loop:
  assumes "left < length outs" and "int n + int left = max_attempts_for (dp_max_retries dp)"
    and "retry_loop pop activity_succeeded activity_error exc_text i (Suc left) outs = (Some out, rest, ds)"
  shows "\<exists>m. drive pf input dp n outs w = Some (out, n + m) \<and> m \<le> left \<and> rest = drop (Suc m) outs"
  using assms
proof (induction left arbitrary: n i outs ds)
  case 0
  then obtain x xs where "outs = x # xs" by (cases outs) auto
  with 0 show ?case by (auto simp: drive_Cons split: outcome.splits if_splits simp del: drive.simps)
next
  case (Suc left)
  then obtain x xs where xs: "outs = x # xs" by (cases outs) auto
  show ?case
  proof (cases "final_outcome activity_succeeded activity_error exc_text x")
    case True
    with Suc.prems xs show ?thesis
      by (auto simp: retry_loop_step drive_Cons simp del: drive.simps retry_loop.simps)
  next
    case False
    with Suc.prems(3) obtain ds' where
      "retry_loop pop activity_succeeded activity_error exc_text (Suc i) (Suc left) xs = (Some out, rest, ds')"
      by (auto simp: retry_loop_step [of pop _ _ _ i "Suc left"] xs split: prod.splits
          simp del: retry_loop.simps)
    then obtain m where "drive pf input dp (n + 1) xs w = Some (out, n + 1 + m)" "m \<le> left"
      "rest = drop (Suc m) xs"
      using Suc.IH [of xs "n + 1" "Suc i"] Suc.prems(1,2) xs by auto
    moreover have "\<not> max_attempts_for (dp_max_retries dp) \<le> int n" using Suc.prems(2) by simp
    ultimately show ?thesis
      using False by (auto simp: xs drive_Cons simp del: drive.simps intro!: exI [of _ "Suc m"])
  qed
qed

text \<open>
  C12. The Temporal runner retries exactly as the shared loop \<open>run_with_retries\<close>: for every sequence
  of attempt outcomes both end with the same outcome after the same number of attempts, at most
  \<open>max_retries + 1\<close>.
\<close>

theorem temporal_retries_refine:
  assumes "0 \<le> dp_max_retries dp" and "nat (dp_max_retries dp) < length outs"
    and "run_with_retries pop (dp_max_retries dp) activity_succeeded activity_error exc_text outs
      = (result, rest, delays)"
  shows "\<exists>out m. result = Some out \<and> drive pf input dp 1 outs w = Some (out, m)
    \<and> m \<le> nat (dp_max_retries dp) + 1 \<and> rest = drop m outs"
proof -
  let ?n = "nat (dp_max_retries dp)"
  have max: "nat (max_attempts_for (dp_max_retries dp)) = Suc ?n"
    using assms(1) by (simp add: max_attempts_for_def nat_add_distrib)
  have "\<exists>out. result = Some out"
    using retry_loop_returns [of pop activity_succeeded activity_error exc_text 0 ?n outs] assms(3)
    by (auto simp: run_with_retries_def max)
  then obtain out where out: "result = Some out" ..
  have "int 1 + int ?n = max_attempts_for (dp_max_retries dp)"
    using assms(1) by (simp add: max_attempts_for_def)
  from drive_retry_loop [OF assms(2) this, of 0 out rest delays pf input w] assms(3) out
  show ?thesis by (auto simp: run_with_retries_def max simp del: drive.simps retry_loop.simps)
qed

definition sample_dispatch :: dispatch where
  "sample_dispatch = \<lparr>dp_step_name = ''s'', dp_output_key = ''s'', dp_timeout = VInt 600, dp_max_retries = 2,
     dp_step = [], dp_provider = [], dp_sandbox_image = VNone, dp_execution_context = VNone\<rparr>"

theorem temporal_retries_refine_witness:
  "\<exists>out m. drive strict_platform sample_input sample_dispatch 1
      [Raised [''activity'', ''HTTP 503''], Returned (VDict [(''status'', VStr ''completed'')]), Raised [''x'']]
      (init_workflow ''t'') = Some (out, m) \<and> m \<le> 3"
proof -
  let ?outs = "[Raised [''activity'', ''HTTP 503''], Returned (VDict [(''status'', VStr ''completed'')]), Raised [''x'']]"
  obtain result rest delays where run: "run_with_retries pop (dp_max_retries sample_dispatch)
      activity_succeeded activity_error exc_text ?outs = (result, rest, delays)"
    by (rule prod_cases3 [of "run_with_retries pop (dp_max_retries sample_dispatch) activity_succeeded activity_error
        exc_text ?outs"])
  have "0 \<le> dp_max_retries sample_dispatch" "nat (dp_max_retries sample_dispatch) < length ?outs"
    by (simp_all add: sample_dispatch_def)
  from temporal_retries_refine [OF this run, of strict_platform sample_input "init_workflow ''t''"]
  show ?thesis by (auto simp: sample_dispatch_def simp del: drive.simps)
qed

end
