(* ===== verification/TemporalRuns.thy ===== *)
theory TemporalRuns
  imports TemporalWorkflow
begin

text \<open>
  Runs of \<open>AgentWorkflow.run\<close>: the main loop over the units of a definition, as a step relation in
  which the members of a parallel group, the signals and the clock take turns in any order. A
  state is active (the phases of the current unit's members, and the units still to come),
  finished, or crashed with an exception that the workflow code does not handle.
\<close>

section \<open>The main loop\<close>

type_synonym unit_list = "(pyval option \<times> pydict list) list"

datatype run_state =
    Active agent_workflow "phase list" unit_list
  | Finished agent_workflow
  | Crashed pyexc agent_workflow

text \<open>The units of a run: the steps of the definition, one-step defaults applied, in groups.\<close>

definition plan :: "workflow_input \<Rightarrow> unit_list res" where
  "plan input =
     then_do (as_dict (dget_or (wi_definition input) ''spec'' (VDict []))) (\<lambda>spec.
     then_do (py_iter (dget_or spec ''steps'' (VList []))) (\<lambda>vs.
     then_do (map_res as_dict vs) (\<lambda>steps.
     then_do (case steps of [step] \<Rightarrow> then_do (apply_one_step_defaults step 1) (\<lambda>s. Ok [s]) | _ \<Rightarrow> Ok steps)
       chunk_parallel_groups)))"

definition begin_run :: "workflow_input \<Rightarrow> agent_workflow \<Rightarrow> agent_workflow" where
  "begin_run input w =
     w\<lparr>wf_authz_context := (case wi_authz_context input of
                              Some c \<Rightarrow> if c \<noteq> [] then Some c else wf_authz_context w
                            | None \<Rightarrow> wf_authz_context w),
       wf_workflow_context := Some
         [(''definition'', VDict (wi_definition input)),
          (''input_prompt'', case wi_input_prompt input of None \<Rightarrow> VNone | Some p \<Rightarrow> VStr p),
          (''provider_name'', dget (wi_provider input) ''name''),
          (''provider_model'', dget (wi_provider input) ''model'')]\<rparr>"

fun start_members ::
  "platform \<Rightarrow> workflow_input \<Rightarrow> pydict list \<Rightarrow> agent_workflow \<Rightarrow> (agent_workflow \<times> phase list) res" where
  "start_members pf input [] w = Ok (w, [])"
| "start_members pf input (s # ss) w =
     then_do (execute_step pf input s w) (\<lambda>(w1, p).
     then_do (start_members pf input ss w1) (\<lambda>(w2, ps). Ok (w2, p # ps)))"

fun is_done :: "phase \<Rightarrow> bool" where
  "is_done (Done _) = True"
| "is_done _ = False"

text \<open>\<open>r and r.status in ("failed", "denied")\<close>.\<close>

fun stops :: "phase \<Rightarrow> bool" where
  "stops (Done (Some r)) = (sr_status r \<in> {MFailed, MDenied})"
| "stops _ = False"

definition next_unit :: "platform \<Rightarrow> workflow_input \<Rightarrow> agent_workflow \<Rightarrow> unit_list \<Rightarrow> run_state" where
  "next_unit pf input w units =
     (case units of
        [] \<Rightarrow> Finished w
      | (grp, members) # rest \<Rightarrow>
          (case start_members pf input (if grp = None then take 1 members else members) w of
             Inl e \<Rightarrow> Crashed e w
           | Inr (w', ps) \<Rightarrow> Active w' ps rest))"

definition advance :: "platform \<Rightarrow> workflow_input \<Rightarrow> agent_workflow \<Rightarrow> phase list \<Rightarrow> unit_list \<Rightarrow> run_state" where
  "advance pf input w ps rest = (if list_ex stops ps then Finished w else next_unit pf input w rest)"

definition initial :: "platform \<Rightarrow> workflow_input \<Rightarrow> string \<Rightarrow> run_state" where
  "initial pf input now =
     (let w = begin_run input (init_workflow now) in
        case plan input of Inl e \<Rightarrow> Crashed e w | Inr units \<Rightarrow> next_unit pf input w units)"

inductive run_step :: "platform \<Rightarrow> workflow_input \<Rightarrow> run_state \<Rightarrow> run_state \<Rightarrow> bool" for pf input where
  member: "i < length ps \<Longrightarrow> resume pf input (ps ! i) r w = Some (Inr (w', p)) \<Longrightarrow>
    run_step pf input (Active w ps rest) (Active w' (ps[i := p]) rest)"
| crash: "i < length ps \<Longrightarrow> resume pf input (ps ! i) r w = Some (Inl e) \<Longrightarrow>
    run_step pf input (Active w ps rest) (Crashed e w)"
| approval_signal: "run_step pf input (Active w ps rest)
    (Active (approve step_name decision option_id username uid w) ps rest)"
| session_signal: "run_step pf input (Active w ps rest) (Active (session_result session_id data w) ps rest)"
| clock: "run_step pf input (Active w ps rest) (Active (w\<lparr>wf_now := t\<rparr>) ps rest)"
| unit_over: "list_all is_done ps \<Longrightarrow> run_step pf input (Active w ps rest) (advance pf input w ps rest)"

inductive_cases run_step_ActiveE: "run_step pf input (Active w ps rest) s"
inductive_simps run_step_Finished: "run_step pf input (Finished w) s"
inductive_simps run_step_Crashed: "run_step pf input (Crashed e w) s"

section \<open>What a step writes\<close>

abbreviation key_of :: "pydict \<Rightarrow> string" where
  "key_of step \<equiv> text_of (dget step ''output_key'')"

abbreviation result_at :: "agent_workflow \<Rightarrow> string \<Rightarrow> step_result option" where
  "result_at w k \<equiv> map_of (wf_steps w) k"

lemma wf_steps_simps [simp]:
  "wf_steps (emit ty n w) = wf_steps w"
  "wf_steps (set_step k r w) = dict_set k r (wf_steps w)"
  "wf_steps (set_transcript k t w) = wf_steps w"
  "wf_steps (approve a b c d e w) = wf_steps w"
  "wf_steps (session_result a d' w) = wf_steps w"
  by (simp_all add: emit_def set_step_def set_transcript_def approve_def session_result_def)

text \<open>The phase of a member step agrees with the results recorded so far.\<close>

fun phase_ok :: "agent_workflow \<Rightarrow> string \<Rightarrow> phase \<Rightarrow> bool" where
  "phase_ok w k (Done None) = (\<exists>r. result_at w k = Some r \<and> sr_status r = MSkipped)"
| "phase_ok w k (Done (Some r)) = (result_at w k = Some r)"
| "phase_ok w k (Notifying a) = (aw_output_key a = k)"
| "phase_ok w k (Waiting a) = (aw_output_key a = k)"
| "phase_ok w k (Attempting dp n) = (dp_output_key dp = k)"
| "phase_ok w k (Sleeping dp n) = (dp_output_key dp = k)"
| "phase_ok w k (Escalating n r) = (result_at w k = Some r)"

definition same_elsewhere :: "string set \<Rightarrow> agent_workflow \<Rightarrow> agent_workflow \<Rightarrow> bool" where
  "same_elsewhere ks w w' = (\<forall>k. k \<notin> ks \<longrightarrow> result_at w' k = result_at w k)"

lemma phase_ok_frame: "phase_ok w k p \<Longrightarrow> result_at w' k = result_at w k \<Longrightarrow> phase_ok w' k p"
  by (cases "(w, k, p)" rule: phase_ok.cases) auto

lemma resume_frame:
  assumes "resume pf input p r w = Some (Inr (w', p'))" and "phase_ok w k p" and "k \<noteq> ''escalation''"
  shows "phase_ok w' k p'" and "same_elsewhere {k, ''escalation''} w w'"
proof -
  have "phase_ok w' k p' \<and> same_elsewhere {k, ''escalation''} w w'"
    using assms
  proof (cases "(pf, input, p, r, w)" rule: resume.cases)
    case (4 pf input dp n result w)
    have "phase_ok w1 k p1 \<and> same_elsewhere {k, ''escalation''} w w1"
      if "finish_result pf input dp result w = Ok (w1, p1)" "dp_output_key dp = k" for w1 p1
      using that unfolding finish_result_def same_elsewhere_def
      by (cases result) (auto simp: Let_def then_do_Ok_iff)
    with 4 assms show ?thesis by (auto simp: same_elsewhere_def split: if_splits)
  qed (auto simp: same_elsewhere_def start_wait_def approval_timeout_def approval_decided_def Let_def
      finish_error_def then_do_Ok_iff split: if_splits option.splits pyval.splits)
  then show "phase_ok w' k p'" and "same_elsewhere {k, ''escalation''} w w'" by auto
qed

lemma handle_approval_frame:
  assumes "handle_approval pf input step name key w = Ok (w', p)"
  shows "phase_ok w' key p \<and> same_elsewhere {key} w w'"
  using assms unfolding handle_approval_def Let_def
  by (elim then_do_OkE) (auto simp: same_elsewhere_def split: if_splits)

context pydantic_engine
begin

lemma normalized_output_key:
  assumes "normalize_workflow_step validate b step defaults n = Ok (norm, meta)"
    and "dget step ''output_key'' = VStr k"
  shows "dget norm ''output_key'' = VStr k"
  using assms(1)
proof (rule normalize_workflow_step_parts, goal_cases)
  case (1 raw provider scope perm_meta spawn_config tools wctx sctx)
  have "dget raw ''output_key'' = VStr k"
    using 1(1) assms(2) by (auto simp: apply_one_step_defaults_def Let_def split: if_splits)
  then show ?case using normalized_fields(2) [OF 1(11)] by simp
qed

lemma handle_agent_step_frame:
  assumes "pf_validate pf = validate" and "handle_agent_step pf input step w = Ok (w', p)"
    and "dget step ''output_key'' = VStr k"
  shows "phase_ok w' k p \<and> same_elsewhere {k} w w'"
proof -
  from assms(2) obtain defaults c where
    res: "(case normalize_for_dispatch pf input step defaults c of
       Inl e \<Rightarrow> if is_ValueError e then Ok (fail_before_dispatch step (error_text e) w) else Err e
     | Inr (normalized, meta) \<Rightarrow>
         then_do (resolve_sandbox_image (dget normalized ''spawn_config'') defaults
                    (VStr (wi_sandbox_image input))) (\<lambda>sandbox_image.
         then_do (resolved_step pf input normalized meta w) (\<lambda>rstep.
         let step_name = text_of (dget normalized ''name'') in
         Ok (emit ''step.started'' step_name w,
             Attempting
               \<lparr>dp_step_name = step_name, dp_output_key = text_of (dget normalized ''output_key''),
                dp_timeout = (if truthy (dget normalized ''timeout_seconds'')
                  then dget normalized ''timeout_seconds'' else VInt default_step_timeout_seconds),
                dp_max_retries = retries_of normalized, dp_step = rstep,
                dp_provider = activity_provider input defaults normalized,
                dp_sandbox_image = sandbox_image, dp_execution_context = dget normalized ''context''\<rparr> 1)))) = Ok (w', p)"
    unfolding handle_agent_step_def by (elim run_elims) blast
  show ?thesis
  proof (cases "normalize_for_dispatch pf input step defaults c")
    case (Inl e)
    have "dget_or step ''output_key'' (VStr ''result'') = VStr k"
      using assms(3) by (simp add: dget_def dget_or_def split: option.splits)
    with res Inl show ?thesis
      by (auto simp: fail_before_dispatch_def Let_def text_of_def same_elsewhere_def split: if_splits)
  next
    case (Inr nm)
    then obtain norm meta where nm: "nm = (norm, meta)"
      and norm: "normalize_workflow_step validate (pf_bracketed_ok pf) step defaults c = Ok (norm, meta)"
      unfolding normalize_for_dispatch_def assms(1) by (elim run_elims) auto
    from res Inr nm have "same_elsewhere {k} w w'" "\<exists>dp. p = Attempting dp 1 \<and> dp_output_key dp = text_of (dget norm ''output_key'')"
      by (auto simp: Let_def then_do_Ok_iff same_elsewhere_def)
    then show ?thesis using normalized_output_key [OF norm assms(3)] by (auto simp: text_of_def)
  qed
qed

lemma execute_step_frame:
  assumes "pf_validate pf = validate" and "execute_step pf input step w = Ok (w', p)"
  shows "phase_ok w' (key_of step) p \<and> same_elsewhere {key_of step} w w'"
proof -
  from assms(2) obtain name key holds where key: "text_at step ''output_key'' = Ok key"
    and res: "(if \<not> holds then
       Ok (emit ''step.skipped'' name
             (set_step key \<lparr>sr_status = MSkipped, sr_output = None, sr_error = None\<rparr> w), Done None)
     else
     then_do (item_at step ''type'') (\<lambda>step_type.
     if step_type = VStr ''human-approval'' then
       if should_skip_approval (wi_advisory input) then
         let result = completed_with [(''approved'', VBool True), (''advisory'', VBool True)] in
           Ok (emit ''step.advisory_skipped'' name (set_step key result w), Done (Some result))
       else handle_approval pf input step name key w
     else if step_type = VStr ''agent'' then handle_agent_step pf input step w
     else
       let result = failed_with (''unknown step type '' @ py_repr step_type @ '': only '' @ [sq] @ ''agent'' @ [sq]
                      @ '' and '' @ [sq] @ ''human-approval'' @ [sq] @ '' are supported'') in
         Ok (emit ''step.failed'' name (set_step key result w), Done (Some result)))) = Ok (w', p)"
    unfolding execute_step_def by (elim then_do_OkE) blast
  from key have out: "dget step ''output_key'' = VStr key" and k: "key_of step = key"
    by (auto simp: text_at_def dget_def text_of_def split: option.splits pyval.splits)
  have "phase_ok w' key p \<and> same_elsewhere {key} w w'"
    using res handle_agent_step_frame [OF assms(1) _ out, of input w w' p]
      handle_approval_frame [of pf input step name key w w' p]
    by (auto simp: Let_def then_do_Ok_iff same_elsewhere_def split: if_splits)
  then show ?thesis by (simp only: k)
qed

end

section \<open>The invariant of a run\<close>

definition unit_members :: "pyval option \<times> pydict list \<Rightarrow> pydict list" where
  "unit_members u = (if fst u = None then take 1 (snd u) else snd u)"

abbreviation plan_steps :: "unit_list \<Rightarrow> pydict list" where
  "plan_steps units \<equiv> concat (map unit_members units)"

text \<open>A step that is over and does not stop the run.\<close>

definition settled :: "agent_workflow \<Rightarrow> pydict \<Rightarrow> bool" where
  "settled w s = (\<exists>r. result_at w (key_of s) = Some r \<and> sr_status r \<notin> {MFailed, MDenied})"

text \<open>Output keys are unique and none of them is the key the escalation is stored under.\<close>

definition keys_ok :: "unit_list \<Rightarrow> bool" where
  "keys_ok units = (distinct (map key_of (plan_steps units)) \<and> ''escalation'' \<notin> set (map key_of (plan_steps units)))"

fun run_inv :: "unit_list \<Rightarrow> run_state \<Rightarrow> bool" where
  "run_inv units (Active w ps rest) =
     (\<exists>over u. units = over @ u # rest
        \<and> list_all2 (\<lambda>s p. phase_ok w (key_of s) p) (unit_members u) ps
        \<and> list_all (settled w) (plan_steps over))"
| "run_inv units (Finished w) =
     (list_all (settled w) (plan_steps units)
      \<or> (\<exists>over u rest. units = over @ u # rest \<and> list_all (settled w) (plan_steps over)
            \<and> (\<exists>s \<in> set (unit_members u). \<exists>r. result_at w (key_of s) = Some r
                  \<and> sr_status r \<in> {MFailed, MDenied})))"
| "run_inv units (Crashed e w) = True"

lemma settled_frame: "settled w s \<Longrightarrow> result_at w' (key_of s) = result_at w (key_of s) \<Longrightarrow> settled w' s"
  by (simp add: settled_def)

lemma settled_signals [simp]:
  "settled (approve a b c d e w) = settled w"
  "settled (session_result a x w) = settled w"
  "settled (w\<lparr>wf_now := t\<rparr>) = settled w"
  by (simp_all add: settled_def fun_eq_iff)

lemma phase_ok_signals:
  "phase_ok (approve a b c d e w) = phase_ok w"
  "phase_ok (session_result a x w) = phase_ok w"
  "phase_ok (w\<lparr>wf_now := t\<rparr>) = phase_ok w"
proof -
  have same: "phase_ok w' = phase_ok w" if "wf_steps w' = wf_steps w" for w'
  proof (intro ext)
    show "phase_ok w' k p = phase_ok w k p" for k p
      using that by (cases "(w, k, p)" rule: phase_ok.cases) auto
  qed
  show "phase_ok (approve a b c d e w) = phase_ok w" "phase_ok (session_result a x w) = phase_ok w"
    "phase_ok (w\<lparr>wf_now := t\<rparr>) = phase_ok w"
    by (rule same, simp)+
qed

lemma done_settled: "phase_ok w (key_of s) p \<Longrightarrow> is_done p \<Longrightarrow> \<not> stops p \<Longrightarrow> settled w s"
  by (cases "(w, key_of s, p)" rule: phase_ok.cases) (auto simp: settled_def)

lemma keys_split:
  "keys_ok (over @ u # rest) \<Longrightarrow> s \<in> set (plan_steps over) \<Longrightarrow> t \<in> set (unit_members u) \<Longrightarrow>
   key_of s \<noteq> key_of t \<and> key_of s \<noteq> ''escalation''"
proof -
  assume ok: "keys_ok (over @ u # rest)" and st: "s \<in> set (plan_steps over)" "t \<in> set (unit_members u)"
  have ks: "key_of s \<in> set (map key_of (plan_steps over))" using st(1) unfolding set_map by (rule imageI)
  have kt: "key_of t \<in> set (map key_of (unit_members u))" using st(2) unfolding set_map by (rule imageI)
  have steps: "plan_steps (over @ u # rest) = plan_steps over @ unit_members u @ plan_steps rest" by simp
  note ok' = ok [unfolded keys_ok_def steps, unfolded map_append distinct_append set_append]
  from ok' have "set (map key_of (plan_steps over)) \<inter>
      (set (map key_of (unit_members u)) \<union> set (map key_of (plan_steps rest))) = {}"
    by (elim conjE)
  then have disj: "set (map key_of (plan_steps over)) \<inter> set (map key_of (unit_members u)) = {}"
    unfolding Int_Un_distrib Un_empty by (rule conjunct1)
  from ok' have esc: "''escalation'' \<notin> set (map key_of (plan_steps over))"
    unfolding Un_iff by (elim conjE) (rule notI, erule notE, rule disjI1)
  show "key_of s \<noteq> key_of t \<and> key_of s \<noteq> ''escalation''"
  proof
    show "key_of s \<noteq> key_of t"
    proof
      assume "key_of s = key_of t"
      then have "key_of s \<in> set (map key_of (plan_steps over)) \<inter> set (map key_of (unit_members u))"
        using ks kt by (simp only: Int_iff)
      then show False by (simp only: disj empty_iff)
    qed
    show "key_of s \<noteq> ''escalation''"
    proof
      assume "key_of s = ''escalation''"
      with ks esc show False by (simp only:)
    qed
  qed
qed

lemma member_frame:
  assumes inv: "list_all2 (\<lambda>s p. phase_ok w (key_of s) p) ss ps" and i: "i < length ps"
    and step: "resume pf input (ps ! i) r w = Some (Inr (w', p))"
    and keys: "distinct (map key_of ss)" "''escalation'' \<notin> set (map key_of ss)"
  shows "list_all2 (\<lambda>s p. phase_ok w' (key_of s) p) ss (ps[i := p])"
    and "same_elsewhere {key_of (ss ! i), ''escalation''} w w'"
proof -
  have len: "length ss = length ps" using inv by (rule list_all2_lengthD)
  have member: "key_of (ss ! j) \<noteq> ''escalation''" if "j < length ss" for j
  proof -
    have "key_of (ss ! j) \<in> set (map key_of ss)" unfolding set_map using nth_mem [OF that] by (rule imageI)
    with keys(2) show ?thesis by metis
  qed
  from member [of i] i len have "key_of (ss ! i) \<noteq> ''escalation''" by simp
  then have ok: "phase_ok w' (key_of (ss ! i)) p"
    and frame: "same_elsewhere {key_of (ss ! i), ''escalation''} w w'"
    using resume_frame [OF step, of "key_of (ss ! i)"] list_all2_nthD2 [OF inv i] by auto
  show "same_elsewhere {key_of (ss ! i), ''escalation''} w w'" by (rule frame)
  have "phase_ok w' (key_of (ss ! j)) (ps[i := p] ! j)" if "j < length ss" for j
  proof (cases "j = i")
    case False
    have "key_of (ss ! j) \<noteq> key_of (ss ! i)"
      using keys(1) that i len False by (simp add: distinct_conv_nth)
    then have "result_at w' (key_of (ss ! j)) = result_at w (key_of (ss ! j))"
      using frame member [OF that] by (simp add: same_elsewhere_def)
    with list_all2_nthD [OF inv that] have "phase_ok w' (key_of (ss ! j)) (ps ! j)" by (rule phase_ok_frame)
    with False show ?thesis by simp
  qed (use ok i in simp)
  then show "list_all2 (\<lambda>s p. phase_ok w' (key_of s) p) ss (ps[i := p])"
    using len by (simp add: list_all2_conv_all_nth)
qed

lemma next_unit_Cons:
  "next_unit pf input w (u # rest) =
     (case start_members pf input (unit_members u) w of
        Inl e \<Rightarrow> Crashed e w | Inr (w', ps) \<Rightarrow> Active w' ps rest)"
  by (cases u) (simp add: next_unit_def unit_members_def)

context pydantic_engine
begin

lemma start_members_frame:
  assumes "pf_validate pf = validate" and "start_members pf input ss w = Ok (w', ps)"
    and "distinct (map key_of ss)"
  shows "list_all2 (\<lambda>s p. phase_ok w' (key_of s) p) ss ps \<and> same_elsewhere (set (map key_of ss)) w w'"
  using assms(2,3)
proof (induction ss arbitrary: w ps)
  case (Cons s ss)
  then obtain w1 p ps' where ex: "execute_step pf input s w = Ok (w1, p)"
    and rest: "start_members pf input ss w1 = Ok (w', ps')" and ps: "ps = p # ps'"
    by (auto simp: then_do_Ok_iff)
  have "phase_ok w1 (key_of s) p" and f1: "same_elsewhere {key_of s} w w1"
    using execute_step_frame [OF assms(1) ex] by auto
  moreover have IH: "list_all2 (\<lambda>s p. phase_ok w' (key_of s) p) ss ps'"
    and f2: "same_elsewhere (set (map key_of ss)) w1 w'"
    using Cons.IH [OF rest] Cons.prems(2) by auto
  ultimately have "phase_ok w' (key_of s) p"
    using Cons.prems(2) phase_ok_frame by (auto simp: same_elsewhere_def)
  with IH f1 f2 show ?case by (auto simp: ps same_elsewhere_def)
qed (simp add: same_elsewhere_def)

lemma next_unit_inv:
  assumes "pf_validate pf = validate" and "keys_ok units" and "units = over @ rest"
    and "list_all (settled w) (plan_steps over)"
  shows "run_inv units (next_unit pf input w rest)"
proof (cases rest)
  case (Cons u rest')
  show ?thesis
  proof (cases "start_members pf input (unit_members u) w")
    case (Inr res)
    then obtain w' ps where ps: "start_members pf input (unit_members u) w = Ok (w', ps)" by (cases res) auto
    have dist: "distinct (map key_of (unit_members u))"
      using assms(2,3) Cons by (auto simp: keys_ok_def)
    note frame = start_members_frame [OF assms(1) ps dist]
    have "settled w' s" if "s \<in> set (plan_steps over)" for s
    proof (rule settled_frame)
      show "settled w s" using assms(4) that by (auto simp: list_all_iff)
      have "key_of s \<notin> set (map key_of (unit_members u))"
        using keys_split [of over u rest' s] assms(2,3) Cons that by auto
      then show "result_at w' (key_of s) = result_at w (key_of s)"
        using frame by (simp add: same_elsewhere_def)
    qed
    then have "run_inv units (Active w' ps rest')"
      using frame assms(3) Cons by (auto simp: list_all_iff intro!: exI [of _ over] exI [of _ u])
    then show ?thesis unfolding Cons next_unit_Cons ps by simp
  qed (simp add: Cons next_unit_Cons)
next
  case Nil
  then show ?thesis using assms(3,4) by (simp add: next_unit_def)
qed

lemma run_step_inv:
  assumes "pf_validate pf = validate" and "keys_ok units" and "run_inv units s" and "run_step pf input s s'"
  shows "run_inv units s'"
  using assms(4,3)
proof (cases rule: run_step.cases)
  case (member i ps r w w' p rest)
  with assms(3) obtain over u where units: "units = over @ u # rest"
    and ph: "list_all2 (\<lambda>s p. phase_ok w (key_of s) p) (unit_members u) ps"
    and set: "list_all (settled w) (plan_steps over)" by auto
  have keys: "distinct (map key_of (unit_members u))" "''escalation'' \<notin> set (map key_of (unit_members u))"
    using assms(2) units by (auto simp: keys_ok_def)
  note frame = member_frame [OF ph member(3,4) keys]
  have i: "unit_members u ! i \<in> set (unit_members u)"
    using member(3) list_all2_lengthD [OF ph] by simp
  have "settled w' s" if "s \<in> set (plan_steps over)" for s
  proof (rule settled_frame)
    show "settled w s" using set that by (auto simp: list_all_iff)
    have "key_of s \<noteq> key_of (unit_members u ! i)" "key_of s \<noteq> ''escalation''"
      using keys_split [of over u rest s, OF _ that i] assms(2) units by auto
    then show "result_at w' (key_of s) = result_at w (key_of s)"
      using frame(2) by (simp add: same_elsewhere_def)
  qed
  then show ?thesis using frame(1) units member(2) by (auto simp: list_all_iff intro!: exI [of _ over] exI [of _ u])
next
  case (unit_over ps w rest)
  with assms(3) obtain over u where units: "units = over @ u # rest"
    and ph: "list_all2 (\<lambda>s p. phase_ok w (key_of s) p) (unit_members u) ps"
    and set: "list_all (settled w) (plan_steps over)" by auto
  show ?thesis
  proof (cases "list_ex stops ps")
    case False
    have "settled w s" if "s \<in> set (unit_members u)" for s
    proof -
      from that obtain j where j: "j < length (unit_members u)" "s = unit_members u ! j" by (auto simp: in_set_conv_nth)
      then have "j < length ps" using list_all2_lengthD [OF ph] by simp
      then show ?thesis
        using list_all2_nthD [OF ph j(1)] unit_over(3) False j(2) done_settled
        by (auto simp: list_all_length list_ex_length)
    qed
    then have "list_all (settled w) (plan_steps (over @ [u]))" using set by (auto simp: list_all_iff)
    then have "run_inv units (next_unit pf input w rest)"
      using next_unit_inv [OF assms(1,2), of "over @ [u]" rest] units by simp
    with False show ?thesis by (simp add: unit_over(2) advance_def)
  next
    case True
    then obtain j where j: "j < length ps" "stops (ps ! j)" by (auto simp: list_ex_length)
    then obtain r where r: "ps ! j = Done (Some r)" "sr_status r \<in> {MFailed, MDenied}"
      by (cases "ps ! j" rule: stops.cases) auto
    have "result_at w (key_of (unit_members u ! j)) = Some r"
      using list_all2_nthD2 [OF ph j(1)] r(1) by simp
    moreover have "unit_members u ! j \<in> set (unit_members u)"
      using j(1) list_all2_lengthD [OF ph] by simp
    ultimately have "\<exists>s \<in> set (unit_members u). \<exists>r. result_at w (key_of s) = Some r
        \<and> sr_status r \<in> {MFailed, MDenied}" using r(2) by blast
    with units set have "run_inv units (Finished w)" unfolding run_inv.simps by blast
    with True show ?thesis by (simp only: unit_over(2) advance_def if_True)
  qed
qed (auto simp: phase_ok_signals)

lemma reachable_inv:
  assumes "pf_validate pf = validate" and "plan input = Ok units" and "keys_ok units"
    and "(run_step pf input)\<^sup>*\<^sup>* (initial pf input now) s"
  shows "run_inv units s"
  using assms(4)
proof (induction rule: rtranclp_induct)
  case base
  have "list_all (settled w) (plan_steps [])" for w by simp
  then show ?case
    unfolding initial_def assms(2) Let_def
    using next_unit_inv [OF assms(1,3), of "[]" units] by simp
next
  case (step s t)
  then show ?case by (blast intro: run_step_inv [OF assms(1,3)])
qed

end

text \<open>
  C5. Nothing runs past a failed step or a closed gate: in every reachable state of a run, under any
  interleaving of parallel members, signals and timers, all steps of the units before the current
  one are over and none of them failed or was denied.
\<close>

theorem no_step_after_failure:
  assumes "pydantic_engine (pf_validate pf) dump" and "plan input = Ok units" and "keys_ok units"
    and "(run_step pf input)\<^sup>*\<^sup>* (initial pf input now) (Active w ps rest)"
  shows "\<exists>over u. units = over @ u # rest
    \<and> (\<forall>s \<in> set (plan_steps over). \<exists>r. map_of (wf_steps w) (key_of s) = Some r
          \<and> sr_status r \<notin> {MFailed, MDenied})"
proof -
  from pydantic_engine.reachable_inv [OF assms(1) refl assms(2-4)] obtain over u where
    "units = over @ u # rest" "list_all (settled w) (plan_steps over)" by auto
  then show ?thesis unfolding list_all_iff settled_def by blast
qed

text \<open>
  C6. The outcome of a run explains itself: a run that ends either has a result for every step, none
  failed or denied, or it ended with the first unit that has a failed or denied member, after all
  units before it went through.
\<close>

theorem finished_run_explained:
  assumes "pydantic_engine (pf_validate pf) dump" and "plan input = Ok units" and "keys_ok units"
    and "(run_step pf input)\<^sup>*\<^sup>* (initial pf input now) (Finished w)"
  shows "(\<forall>s \<in> set (plan_steps units). settled w s)
    \<or> (\<exists>over u rest. units = over @ u # rest \<and> (\<forall>s \<in> set (plan_steps over). settled w s)
        \<and> (\<exists>s \<in> set (unit_members u). \<exists>r. map_of (wf_steps w) (key_of s) = Some r
              \<and> sr_status r \<in> {MFailed, MDenied}))"
  using pydantic_engine.reachable_inv [OF assms(1) refl assms(2-4)]
  unfolding run_inv.simps list_all_iff by blast


section \<open>An example run\<close>

definition typed_definition :: pydict where
  "typed_definition =
     [(''spec'', VDict [(''steps'', VList
        [VDict [(''name'', VStr ''scan''), (''type'', VStr ''agent''), (''output_key'', VStr ''scan''), (''prompt'', VStr ''look'')],
         VDict [(''name'', VStr ''gate''), (''type'', VStr ''human-approval''), (''output_key'', VStr ''ok'')],
         VDict [(''name'', VStr ''fix''), (''type'', VStr ''agent''), (''output_key'', VStr ''fix''), (''prompt'', VStr ''mend'')]])])]"

definition typed_input :: workflow_input where
  "typed_input = sample_input\<lparr>wi_definition := typed_definition\<rparr>"

fun is_active :: "run_state \<Rightarrow> bool" where
  "is_active (Active w ps rest) = True"
| "is_active _ = False"

lemma typed_start: "is_active (initial strict_platform typed_input ''t0'')"
  by code_simp

lemma typed_plan: "\<exists>units. plan typed_input = Ok units \<and> keys_ok units"
proof -
  have "case plan typed_input of Inl _ \<Rightarrow> False | Inr units \<Rightarrow> keys_ok units" by code_simp
  then show ?thesis by (cases "plan typed_input") auto
qed

lemma strict_platform_engine: "pydantic_engine (pf_validate strict_platform) drop_none"
  by (simp add: strict_platform_def strict.pydantic_engine_axioms)

theorem no_step_after_failure_witness:
  "\<exists>units w ps rest over u. plan typed_input = Ok units
     \<and> initial strict_platform typed_input ''t0'' = Active w ps rest \<and> units = over @ u # rest
     \<and> (\<forall>s \<in> set (plan_steps over). \<exists>r. map_of (wf_steps w) (key_of s) = Some r \<and> sr_status r \<notin> {MFailed, MDenied})"
proof -
  obtain units where units: "plan typed_input = Ok units" "keys_ok units" using typed_plan by blast
  obtain w ps rest where start: "initial strict_platform typed_input ''t0'' = Active w ps rest"
    using typed_start by (cases "initial strict_platform typed_input ''t0''") auto
  have "(run_step strict_platform typed_input)\<^sup>*\<^sup>* (initial strict_platform typed_input ''t0'') (Active w ps rest)"
    unfolding start by (rule rtranclp.rtrancl_refl)
  from no_step_after_failure [OF strict_platform_engine units this] units(1) start show ?thesis by blast
qed

text \<open>A run whose only step fails validation ends at once.\<close>

definition failing_input :: workflow_input where
  "failing_input = sample_input\<lparr>wi_definition :=
     [(''spec'', VDict [(''steps'', VList [VDict [(''prompt'', VStr ''p''), (''tools'', VStr ''ls'')]])])]\<rparr>"

fun active_parts :: "run_state \<Rightarrow> (phase list \<times> unit_list) option" where
  "active_parts (Active w ps rest) = Some (ps, rest)"
| "active_parts _ = None"

theorem finished_run_explained_witness:
  "\<exists>units w. plan failing_input = Ok units
     \<and> (run_step strict_platform failing_input)\<^sup>*\<^sup>* (initial strict_platform failing_input ''t0'') (Finished w)
     \<and> ((\<forall>s \<in> set (plan_steps units). settled w s)
        \<or> (\<exists>over u rest. units = over @ u # rest \<and> (\<forall>s \<in> set (plan_steps over). settled w s)
            \<and> (\<exists>s \<in> set (unit_members u). \<exists>r. map_of (wf_steps w) (key_of s) = Some r
                  \<and> sr_status r \<in> {MFailed, MDenied})))"
proof -
  have "case plan failing_input of Inl _ \<Rightarrow> False | Inr units \<Rightarrow> keys_ok units" by code_simp
  then obtain units where units: "plan failing_input = Ok units" "keys_ok units"
    by (cases "plan failing_input") auto
  have "case active_parts (initial strict_platform failing_input ''t0'') of
      None \<Rightarrow> False | Some (ps, rest) \<Rightarrow> list_all is_done ps \<and> list_ex stops ps" by code_simp
  then obtain w ps rest where start: "initial strict_platform failing_input ''t0'' = Active w ps rest"
    and over: "list_all is_done ps" "list_ex stops ps"
    by (cases "initial strict_platform failing_input ''t0''") auto
  have "run_step strict_platform failing_input (Active w ps rest) (Finished w)"
    using run_step.unit_over [OF over(1), of strict_platform failing_input w rest] over(2) by (simp add: advance_def)
  then have run: "(run_step strict_platform failing_input)\<^sup>*\<^sup>* (initial strict_platform failing_input ''t0'') (Finished w)"
    unfolding start by (rule r_into_rtranclp)
  from finished_run_explained [OF strict_platform_engine units run] units(1) run show ?thesis by blast
qed

end
