(* ===== verification/Submission.thy ===== *)
theory Submission
  imports Validation DefinitionStore Authorization TemporalRuns
begin

text \<open>
  The request handlers of \<open>executor/temporal/api.py\<close>: starting a run, the definition endpoints, and
  the endpoints that act on a running workflow. A handler returns its response or the exception it
  raises, and the new state: the definition store, the audit trail and the calls made to Temporal.
  What Temporal answers is an argument.
\<close>

section \<open>Requests and state\<close>

record run_request =
  rq_workflow_name :: "string option"
  rq_definition :: "pydict option"
  rq_input_prompt :: "string option"
  rq_provider :: "pydict option"
  rq_sandbox_image :: string
  rq_skills_image :: pyval
  rq_skills_paths :: pyval
  rq_advisory :: "bool option"
  rq_workflow_id :: "string option"
  rq_mcp_servers :: pyval
  rq_approval_policy :: "pydict option"
  rq_notifier_config :: pyval
  rq_escalation_config :: pyval

record approve_request =
  aq_step_name :: string
  aq_decision :: string
  aq_selected_option_id :: "string option"

record audit_event =
  au_type :: string
  au_workflow_id :: string
  au_step_name :: string
  au_actor :: string
  au_details :: pydict

datatype temporal_call =
    StartWorkflow workflow_input
  | SignalApprove string string string "string option" string "string option"
  | CancelWorkflow string

record api_state =
  as_store :: "definition_store option"
  as_audit :: "audit_event list"
  as_calls :: "temporal_call list"

text \<open>
  What the router is built with: the models engine, the host check of urllib, the search of the
  policy's expressions, the registered tools, the content policy, the authorizer and the value of
  \<open>WORKFLOW_AUTHZ\<close>.
\<close>

record service =
  sv_validate :: "ptype \<Rightarrow> pyval \<Rightarrow> pyval res"
  sv_bracketed_ok :: "string \<Rightarrow> bool"
  sv_search :: "string \<Rightarrow> string \<Rightarrow> bool"
  sv_registered :: "string list"
  sv_content_policy :: "content_policy option"
  sv_authorize :: "caller_identity \<Rightarrow> workflow_action \<Rightarrow> workflow_resource \<Rightarrow> authz_decision"
  sv_workflow_authz :: string

abbreviation no_resource :: workflow_resource where
  "no_resource \<equiv> \<lparr>wr_workflow_id = None, wr_workflow_name = None, wr_owner = None, wr_namespace = None, wr_step = None\<rparr>"

definition audit :: "audit_event \<Rightarrow> api_state \<Rightarrow> api_state" where
  "audit e st = st\<lparr>as_audit := as_audit st @ [e]\<rparr>"

definition call :: "temporal_call \<Rightarrow> api_state \<Rightarrow> api_state" where
  "call c st = st\<lparr>as_calls := as_calls st @ [c]\<rparr>"

text \<open>The guard every handler opens with.\<close>

definition require :: "service \<Rightarrow> caller_identity \<Rightarrow> workflow_action \<Rightarrow> workflow_resource \<Rightarrow> unit res" where
  "require sv caller action resource =
     (let decision = sv_authorize sv caller action resource in
        if ad_allowed decision then Ok () else Err (HTTPException 403 [ad_reason decision]))"

lemma calls_simps [simp]:
  "as_calls (audit e st) = as_calls st" "as_store (audit e st) = as_store st"
  "as_calls (call c st) = as_calls st @ [c]" "as_store (call c st) = as_store st"
  by (simp_all add: audit_def call_def)

lemma require_Ok: "require sv c a r = Ok u \<longleftrightarrow> ad_allowed (sv_authorize sv c a r)"
  by (simp add: require_def Let_def)

text \<open>An optional text field of a model.\<close>

fun text_or_none :: "pyval \<Rightarrow> string option res" where
  "text_or_none VNone = Ok None"
| "text_or_none (VStr s) = Ok (Some s)"
| "text_or_none _ = Err (ValueError ''Input should be a valid string'')"

text \<open>\<open>except ValidationError\<close> around a model.\<close>

fun unprocessable :: "'a res \<Rightarrow> 'a res" where
  "unprocessable (Inl (ValueError m)) = Err (HTTPException 422 [m])"
| "unprocessable r = r"

section \<open>Starting a run\<close>

definition given :: "pydict option \<Rightarrow> pydict option" where
  "given d = (case d of Some (x # xs) \<Rightarrow> Some (x # xs) | _ \<Rightarrow> None)"

definition given_text :: "string option \<Rightarrow> string option" where
  "given_text s = (case s of Some (x # xs) \<Rightarrow> Some (x # xs) | _ \<Rightarrow> None)"

text \<open>The name the caller is authorized for: the requested one, or the one in the inline definition.\<close>

definition requested_name :: "run_request \<Rightarrow> string option res" where
  "requested_name req =
     (case (given_text (rq_workflow_name req), given (rq_definition req)) of
        (None, Some definition) \<Rightarrow>
          (case dget_or definition ''metadata'' (VDict []) of
             VDict metadata \<Rightarrow> text_or_none (dget metadata ''name'')
           | _ \<Rightarrow> Ok (rq_workflow_name req))
      | _ \<Rightarrow> Ok (rq_workflow_name req))"

text \<open>The definition that will run, and the provider as far as it is known before validation.\<close>

definition resolve_definition ::
  "service \<Rightarrow> definition_store option \<Rightarrow> run_request \<Rightarrow> (pydict \<times> pydict option) res" where
  "resolve_definition sv store req =
     (case (given_text (rq_workflow_name req), given (rq_definition req)) of
        (Some name, None) \<Rightarrow>
          (case store of
             None \<Rightarrow> Err (HTTPException 400 [''workflow_name requires a definition store''])
           | Some s \<Rightarrow>
               (case get_definition name s of
                  None \<Rightarrow> Err (HTTPException 404 [''Workflow '' @ quote name @ '' not found''])
                | Some stored \<Rightarrow>
                    then_do
                      (case rq_provider req of
                         Some p \<Rightarrow> Ok (Some p)
                       | None \<Rightarrow>
                           if dget (sd_definition stored) ''provider'' = VNone then Ok None
                           else then_do (sv_validate sv ProviderConfig (dget (sd_definition stored) ''provider''))
                                  (\<lambda>p. then_do (as_dict p) (\<lambda>d. Ok (Some d))))
                      (\<lambda>provider. Ok (sd_definition stored, provider))))
      | (_, Some definition) \<Rightarrow> Ok (definition, rq_provider req)
      | _ \<Rightarrow> Err (HTTPException 400 [''Either definition or workflow_name is required'']))"

definition need_provider :: "pydict \<Rightarrow> pydict option \<Rightarrow> unit res" where
  "need_provider definition provider =
     (if provider = None \<and> dget definition ''provider'' = VNone
      then Err (HTTPException 400 [''Provider configuration is required'']) else Ok ())"

definition check_tools :: "service \<Rightarrow> pydict \<Rightarrow> unit res" where
  "check_tools sv definition =
     then_do (validate_workflow_tools (sv_registered sv) definition) (\<lambda>tool_errors.
       case tool_errors of [] \<Rightarrow> Ok () | e # _ \<Rightarrow> Err (HTTPException 422 [e]))"

text \<open>Everything up to the validation of the definition.\<close>

definition resolve_run ::
  "service \<Rightarrow> caller_identity \<Rightarrow> definition_store option \<Rightarrow> run_request \<Rightarrow> (pydict \<times> pydict option) res" where
  "resolve_run sv caller store req =
     then_do (requested_name req) (\<lambda>name.
     then_do (require sv caller Trigger (no_resource\<lparr>wr_workflow_name := name\<rparr>)) (\<lambda>_.
     then_do (resolve_definition sv store req) (\<lambda>(definition, provider).
     then_do (need_provider definition provider) (\<lambda>_.
     then_do (check_tools sv definition) (\<lambda>_. Ok (definition, provider))))))"

text \<open>\<open>definition.get("metadata", {}).get("name", "")\<close>\<close>

definition metadata_name :: "pydict \<Rightarrow> pyval res" where
  "metadata_name definition =
     then_do (as_dict (dget_or definition ''metadata'' (VDict []))) (\<lambda>m. Ok (dget_or m ''name'' (VStr [])))"

definition emit_content_policy_audit :: "string \<Rightarrow> pydict \<Rightarrow> string list \<Rightarrow> api_state \<Rightarrow> api_state res" where
  "emit_content_policy_audit workflow_id definition errors st =
     (let policy_errors = filter (\<lambda>e. sublist ''content policy'' (py_lower e)) errors in
        if policy_errors = [] then Ok st
        else then_do (metadata_name definition) (\<lambda>name.
          Ok (audit \<lparr>au_type = ''content_policy_violation'', au_workflow_id = workflow_id, au_step_name = [],
                     au_actor = [], au_details = [(''definition_name'', name),
                       (''violations'', VList (map VStr policy_errors))]\<rparr> st)))"

text \<open>The definition is rejected: the audit entry of a policy violation, then status 422.\<close>

definition reject_definition ::
  "service \<Rightarrow> string \<Rightarrow> pydict \<Rightarrow> string list \<Rightarrow> api_state \<Rightarrow> 'a res \<times> api_state" where
  "reject_definition sv workflow_id definition errors st =
     (if sv_content_policy sv = None then (Err (HTTPException 422 errors), st)
      else case emit_content_policy_audit workflow_id definition errors st of
        Inl e \<Rightarrow> (Err e, st)
      | Inr st' \<Rightarrow> (Err (HTTPException 422 errors), st'))"

definition run_provider :: "service \<Rightarrow> pydict \<Rightarrow> pydict option \<Rightarrow> pydict res" where
  "run_provider sv definition provider =
     (case provider of
        Some p \<Rightarrow> Ok p
      | None \<Rightarrow>
          (case dget definition ''provider'' of
             VDict raw \<Rightarrow> then_do (unprocessable (sv_validate sv ProviderConfig (VDict raw))) as_dict
           | _ \<Rightarrow> Err (HTTPException 400 [''Provider configuration is required''])))"

definition run_advisory :: "definition_store option \<Rightarrow> run_request \<Rightarrow> bool" where
  "run_advisory store req =
     (case rq_advisory req of
        Some a \<Rightarrow> a
      | None \<Rightarrow>
          (case (given_text (rq_workflow_name req), store) of
             (Some name, Some s) \<Rightarrow>
               (case get_definition name s of
                  None \<Rightarrow> False
                | Some stored \<Rightarrow> truthy (dget (sd_definition stored) ''advisory''))
           | _ \<Rightarrow> False))"

text \<open>\<open>WorkflowAuthzContext\<close>, as the dictionary its model dumps to; the name has to be text.\<close>

definition authz_context :: "caller_identity \<Rightarrow> pyval \<Rightarrow> string option \<Rightarrow> pydict res" where
  "authz_context caller name namespace =
     (case name of
        VStr n \<Rightarrow> Ok [(''owner_username'', VStr (ci_username caller)),
                      (''owner_groups'', VList (map VStr (ci_groups caller))),
                      (''workflow_name'', VStr n),
                      (''namespace'', case namespace of None \<Rightarrow> VNone | Some ns \<Rightarrow> VStr ns)]
      | _ \<Rightarrow> Err (ValueError ''workflow_name''))"

text \<open>Everything from the validated definition to the input of the workflow.\<close>

definition build_run ::
  "service \<Rightarrow> caller_identity \<Rightarrow> definition_store option \<Rightarrow> run_request \<Rightarrow> string \<Rightarrow> pydict \<Rightarrow> pydict option
   \<Rightarrow> workflow_input res" where
  "build_run sv caller store req fresh_id definition provider =
     then_do (unprocessable (sv_validate sv WorkflowDefinition (VDict definition))) (\<lambda>_.
     then_do (run_provider sv definition provider) (\<lambda>provider.
     then_do (metadata_name definition) (\<lambda>name.
     then_do (authz_context caller name (parse_namespace_from_sa_username (ci_username caller))) (\<lambda>ctx.
       Ok \<lparr>wi_definition = definition, wi_input_prompt = rq_input_prompt req,
           wi_workflow_id = (case given_text (rq_workflow_id req) of Some i \<Rightarrow> i | None \<Rightarrow> ''wf-'' @ fresh_id),
           wi_provider = provider, wi_sandbox_image = rq_sandbox_image req,
           wi_skills_image = rq_skills_image req, wi_skills_paths = rq_skills_paths req,
           wi_approval_policy = rq_approval_policy req, wi_advisory = run_advisory store req,
           wi_notifier_config = rq_notifier_config req, wi_escalation_config = rq_escalation_config req,
           wi_mcp_servers = rq_mcp_servers req, wi_authz_context = Some ctx\<rparr>))))"

datatype start_reply = Started | AlreadyExists | StartFailed

text \<open>The start itself; the audit entry repeats the name, the provider and the advisory flag.\<close>

definition start_run :: "workflow_input \<Rightarrow> start_reply \<Rightarrow> api_state \<Rightarrow> string res \<times> api_state" where
  "start_run input reply st =
     (case reply of
        Started \<Rightarrow>
          (Ok (wi_workflow_id input),
           audit \<lparr>au_type = ''workflow_started'', au_workflow_id = wi_workflow_id input, au_step_name = [],
                  au_actor = [],
                  au_details = [(''definition_name'', case metadata_name (wi_definition input) of Inr n \<Rightarrow> n | Inl _ \<Rightarrow> VNone),
                    (''provider'', dget (wi_provider input) ''name''), (''advisory'', VBool (wi_advisory input))]\<rparr>
             (call (StartWorkflow input) st))
      | AlreadyExists \<Rightarrow>
          (Err (HTTPException 409 [''Workflow '' @ quote (wi_workflow_id input) @ '' already exists'']), st)
      | StartFailed \<Rightarrow> (Err (HTTPException 500 [''Internal workflow error'']), st))"

definition run_workflow ::
  "service \<Rightarrow> caller_identity \<Rightarrow> run_request \<Rightarrow> string \<Rightarrow> start_reply \<Rightarrow> api_state \<Rightarrow> string res \<times> api_state" where
  "run_workflow sv caller req fresh_id reply st =
     (case resolve_run sv caller (as_store st) req of
        Inl e \<Rightarrow> (Err e, st)
      | Inr (definition, provider) \<Rightarrow>
          (case validate_definition (sv_validate sv) (sv_bracketed_ok sv) (sv_search sv) (VDict definition) (sv_content_policy sv) of
             Inl e \<Rightarrow> (Err e, st)
           | Inr (e # es) \<Rightarrow>
               reject_definition sv (case given_text (rq_workflow_id req) of Some i \<Rightarrow> i | None \<Rightarrow> ''unknown'')
                 definition (e # es) st
           | Inr [] \<Rightarrow>
               (case build_run sv caller (as_store st) req fresh_id definition provider of
                  Inl e \<Rightarrow> (Err e, st)
                | Inr input \<Rightarrow> start_run input reply st)))"

section \<open>Definitions\<close>

definition submit_definition ::
  "service \<Rightarrow> caller_identity \<Rightarrow> pydict \<Rightarrow> string \<Rightarrow> definition_store \<Rightarrow> api_state \<Rightarrow> (string \<times> nat) res \<times> api_state" where
  "submit_definition sv caller body now store st =
     (case then_do (require sv caller ManageDefs no_resource) (\<lambda>_.
            validate_definition (sv_validate sv) (sv_bracketed_ok sv) (sv_search sv) (VDict body) (sv_content_policy sv)) of
        Inl e \<Rightarrow> (Err e, st)
      | Inr (e # es) \<Rightarrow> reject_definition sv ''definition-submission'' body (e # es) st
      | Inr [] \<Rightarrow>
          (case then_do (unprocessable (sv_validate sv WorkflowDefinition (VDict body))) (\<lambda>defn.
                then_do (as_dict defn) (\<lambda>d. save_definition now d store)) of
             Inl e \<Rightarrow> (Err e, st)
           | Inr (stored, store') \<Rightarrow> (Ok (sd_name stored, sd_version stored), st\<lparr>as_store := Some store'\<rparr>)))"

definition list_definitions_endpoint ::
  "service \<Rightarrow> caller_identity \<Rightarrow> definition_store \<Rightarrow> (string \<times> nat) list res" where
  "list_definitions_endpoint sv caller store =
     then_do (require sv caller ViewDefs no_resource) (\<lambda>_.
       Ok (map (\<lambda>d. (sd_name d, sd_version d)) (list_definitions store)))"

definition get_definition_endpoint ::
  "service \<Rightarrow> caller_identity \<Rightarrow> string \<Rightarrow> definition_store \<Rightarrow> (string \<times> nat \<times> pydict) res" where
  "get_definition_endpoint sv caller name store =
     then_do (require sv caller ViewDefs no_resource) (\<lambda>_.
       case get_definition name store of
         None \<Rightarrow> Err (HTTPException 404 [''Definition '' @ quote name @ '' not found''])
       | Some stored \<Rightarrow> Ok (sd_name stored, sd_version stored, sd_definition stored))"

section \<open>Running workflows\<close>

text \<open>
  The context a running workflow was started with, as its query returns it. A workflow without one
  is a resource with its identifier only; so is one whose context cannot be read, unless
  authorization is on.
\<close>

datatype 'a query_reply = Replied 'a | QueryFailed string

definition context_resource :: "string \<Rightarrow> pydict \<Rightarrow> workflow_resource res" where
  "context_resource workflow_id ctx =
     then_do (text_or_none (dget ctx ''workflow_name'')) (\<lambda>name.
     then_do (text_or_none (dget ctx ''owner_username'')) (\<lambda>owner.
     then_do (text_or_none (dget ctx ''namespace'')) (\<lambda>namespace.
       Ok \<lparr>wr_workflow_id = Some workflow_id, wr_workflow_name = name, wr_owner = owner,
           wr_namespace = namespace, wr_step = None\<rparr>)))"

definition authz_unavailable :: "service \<Rightarrow> string \<Rightarrow> string \<Rightarrow> workflow_resource res" where
  "authz_unavailable sv workflow_id reason =
     (if sv_workflow_authz sv \<noteq> ''none''
      then Err (HTTPException 503 [''Cannot load authorization context for workflow '' @ quote workflow_id @ '': '' @ reason])
      else Ok (no_resource\<lparr>wr_workflow_id := Some workflow_id\<rparr>))"

definition get_workflow_authz ::
  "service \<Rightarrow> string \<Rightarrow> pydict option query_reply \<Rightarrow> workflow_resource res" where
  "get_workflow_authz sv workflow_id reply =
     (case reply of
        QueryFailed reason \<Rightarrow> authz_unavailable sv workflow_id reason
      | Replied ctx \<Rightarrow>
          (case given ctx of
             None \<Rightarrow> Ok (no_resource\<lparr>wr_workflow_id := Some workflow_id\<rparr>)
           | Some c \<Rightarrow>
               (case context_resource workflow_id c of
                  Inl _ \<Rightarrow> authz_unavailable sv workflow_id ''validation error''
                | Inr resource \<Rightarrow> Ok resource)))"

text \<open>The opening of every handler below: load the resource, then ask the authorizer.\<close>

definition require_on ::
  "service \<Rightarrow> caller_identity \<Rightarrow> workflow_action \<Rightarrow> string \<Rightarrow> string option \<Rightarrow> pydict option query_reply \<Rightarrow> unit res" where
  "require_on sv caller action workflow_id step reply =
     then_do (get_workflow_authz sv workflow_id reply) (\<lambda>resource.
       require sv caller action (resource\<lparr>wr_step := step\<rparr>))"

definition opt_val :: "string option \<Rightarrow> pyval" where
  "opt_val s = (case s of None \<Rightarrow> VNone | Some t \<Rightarrow> VStr t)"

definition approval_audit :: "caller_identity \<Rightarrow> string \<Rightarrow> approve_request \<Rightarrow> string \<Rightarrow> audit_event" where
  "approval_audit caller workflow_id req now =
     \<lparr>au_type = (if aq_decision req = ''approved'' then ''step_approved'' else ''step_denied''),
      au_workflow_id = workflow_id, au_step_name = aq_step_name req, au_actor = ci_username caller,
      au_details = [(''decision'', VStr (aq_decision req)), (''selected_option_id'', opt_val (aq_selected_option_id req)),
        (''approver'', VDict [(''username'', VStr (ci_username caller)), (''uid'', opt_val (ci_uid caller)),
                              (''approved_at'', VStr now)])]\<rparr>"

definition approve_workflow ::
  "service \<Rightarrow> caller_identity \<Rightarrow> string \<Rightarrow> approve_request \<Rightarrow> string \<Rightarrow> pydict option query_reply \<Rightarrow> unit res
   \<Rightarrow> api_state \<Rightarrow> string res \<times> api_state" where
  "approve_workflow sv caller workflow_id req now reply signal st =
     (case then_do (require_on sv caller Approve workflow_id (Some (aq_step_name req)) reply) (\<lambda>_. signal) of
        Inl e \<Rightarrow> (Err e, st)
      | Inr _ \<Rightarrow>
          (Ok ''signal_sent'',
           audit (approval_audit caller workflow_id req now)
             (call (SignalApprove workflow_id (aq_step_name req) (aq_decision req) (aq_selected_option_id req)
                      (ci_username caller) (ci_uid caller)) st)))"

definition cancel_workflow ::
  "service \<Rightarrow> caller_identity \<Rightarrow> string \<Rightarrow> pydict option query_reply \<Rightarrow> unit res
   \<Rightarrow> api_state \<Rightarrow> string res \<times> api_state" where
  "cancel_workflow sv caller workflow_id reply cancelled st =
     (case then_do (require_on sv caller Cancel workflow_id None reply) (\<lambda>_. cancelled) of
        Inl e \<Rightarrow> (Err e, st)
      | Inr _ \<Rightarrow> (Ok ''cancelled'', call (CancelWorkflow workflow_id) st))"

text \<open>A status that is not a model object is answered with an empty one.\<close>

definition get_workflow_status ::
  "service \<Rightarrow> caller_identity \<Rightarrow> string \<Rightarrow> pydict option query_reply \<Rightarrow> pydict option res \<Rightarrow> pydict res" where
  "get_workflow_status sv caller workflow_id reply status =
     then_do (require_on sv caller View workflow_id None reply) (\<lambda>_.
     then_do status (\<lambda>s. Ok (case s of Some d \<Rightarrow> d | None \<Rightarrow> [(''steps'', VDict []), (''events'', VList [])])))"

text \<open>
  A transcript: the full one of the store if there is one and it answers, otherwise the truncated one
  the workflow keeps.
\<close>

definition transcript_from_query :: "string \<Rightarrow> string \<Rightarrow> pydict dict query_reply \<Rightarrow> pydict res" where
  "transcript_from_query workflow_id step_key transcripts =
     (case transcripts of
        QueryFailed reason \<Rightarrow>
          Err (HTTPException 404 [''Workflow '' @ quote workflow_id @ '' not found or not queryable: '' @ reason])
      | Replied ts \<Rightarrow>
          (case map_of ts step_key of
             None \<Rightarrow> Err (HTTPException 404 [''Transcript for step '' @ quote step_key @ '' not found in workflow ''
                        @ quote workflow_id])
           | Some t \<Rightarrow> Ok (dict_set ''truncated'' (VBool True) t)))"

definition get_step_transcript ::
  "service \<Rightarrow> caller_identity \<Rightarrow> string \<Rightarrow> string \<Rightarrow> pydict option query_reply
   \<Rightarrow> (string \<Rightarrow> string \<Rightarrow> pydict option query_reply) option \<Rightarrow> pydict dict query_reply \<Rightarrow> pydict res" where
  "get_step_transcript sv caller workflow_id step_key reply transcript_store transcripts =
     then_do (require_on sv caller View workflow_id None reply) (\<lambda>_.
       case transcript_store of
         None \<Rightarrow> transcript_from_query workflow_id step_key transcripts
       | Some lookup \<Rightarrow>
           (case lookup workflow_id step_key of
              Replied (Some t) \<Rightarrow> Ok (dict_set ''truncated'' (VBool False) t)
            | _ \<Rightarrow> transcript_from_query workflow_id step_key transcripts))"

subsection \<open>The event stream\<close>

text \<open>
  One round of the generator: what the status query and the description answered. The stream ends
  after the description of a workflow that is over and after a query that failed; a description that
  failed only delays the end.
\<close>

datatype description = StillOpen | Closed | DescribeFailed

datatype poll = Polled "pyval list" description | PollFailed

definition sse :: "string \<Rightarrow> string" where
  "sse data = ''data: '' @ data @ [newline, newline]"

abbreviation completed_event :: string where
  "completed_event \<equiv> sse (json_dumps (VDict [(''type'', VStr ''workflow.completed'')]))"

abbreviation error_event :: string where
  "error_event \<equiv> sse (json_dumps (VDict [(''type'', VStr ''workflow.error'')]))"

fun event_generator :: "nat \<Rightarrow> poll list \<Rightarrow> string list" where
  "event_generator seen_count [] = []"
| "event_generator seen_count (PollFailed # polls) = [error_event]"
| "event_generator seen_count (Polled events d # polls) =
     map (\<lambda>e. sse (json_dumps e)) (drop seen_count events)
     @ (if d = Closed then [completed_event] else event_generator (length events) polls)"

end
