(* ===== verification/SubmissionGates.thy ===== *)
theory SubmissionGates
  imports Submission
begin

text \<open>
  What the request handlers guarantee: nothing is started, signalled or cancelled without the
  authorizer's consent and the full validation, and a refused request changes nothing. Two theorems
  show where the guarantee ends: which name is authorized, and which providers can run.
\<close>

section \<open>Starting a run\<close>

lemma check_tools_Ok: "check_tools sv d = Ok u \<longleftrightarrow> validate_workflow_tools (sv_registered sv) d = Ok []"
  unfolding check_tools_def by (cases "validate_workflow_tools (sv_registered sv) d") (auto split: list.split)

definition refused :: "'a res \<times> api_state \<Rightarrow> api_state \<Rightarrow> bool" where
  "refused out st =
     (\<exists>e st'. out = (Err e, st') \<and> as_calls st' = as_calls st \<and> as_store st' = as_store st)"

lemma refused_simps [simp]: "refused (Inl e, st) st" "\<not> refused (Inr x, st') st"
  by (simp_all add: refused_def)

lemma reject_definition_refused: "refused (reject_definition sv wid d es st) st"
  by (auto simp: refused_def reject_definition_def emit_content_policy_audit_def Let_def then_do_Ok_iff
      split: sum.splits if_splits)

lemma build_run_Ok:
  assumes "build_run sv caller store req i d p = Ok input"
  obtains provider ctx name where "is_ok (sv_validate sv WorkflowDefinition (VDict d))"
    "run_provider sv d p = Ok provider" "metadata_name d = Ok (VStr name)"
    "authz_context caller (VStr name) (parse_namespace_from_sa_username (ci_username caller)) = Ok ctx"
    "wi_definition input = d" "wi_provider input = provider" "wi_authz_context input = Some ctx"
    "wi_advisory input = run_advisory store req"
proof -
  have unp: "is_ok r" if "unprocessable r = Ok x" for r :: "'a res" and x
    using that by (cases r rule: unprocessable.cases) auto
  obtain w provider n ctx where *: "unprocessable (sv_validate sv WorkflowDefinition (VDict d)) = Ok w"
    "run_provider sv d p = Ok provider" "metadata_name d = Ok n"
    "authz_context caller n (parse_namespace_from_sa_username (ci_username caller)) = Ok ctx"
    and input: "wi_definition input = d" "wi_provider input = provider" "wi_authz_context input = Some ctx"
    "wi_advisory input = run_advisory store req"
    using assms by (auto simp: build_run_def then_do_Ok_iff)
  from *(4) obtain name where "n = VStr name" by (auto simp: authz_context_def split: pyval.splits)
  with * input unp show thesis by (intro that) auto
qed

lemma resolve_run_Ok:
  "resolve_run sv caller store req = Ok (d, p) \<longleftrightarrow>
   (\<exists>name. requested_name req = Ok name
      \<and> ad_allowed (sv_authorize sv caller Trigger (no_resource\<lparr>wr_workflow_name := name\<rparr>))
      \<and> resolve_definition sv store req = Ok (d, p) \<and> need_provider d p = Ok ()
      \<and> validate_workflow_tools (sv_registered sv) d = Ok [])"
  by (auto simp: resolve_run_def then_do_Ok_iff require_Ok check_tools_Ok)

definition runs_definition :: "definition_store option \<Rightarrow> run_request \<Rightarrow> pydict \<Rightarrow> bool" where
  "runs_definition store req d =
     (case given (rq_definition req) of
        Some inline \<Rightarrow> d = inline
      | None \<Rightarrow> (\<exists>s name stored. store = Some s \<and> given_text (rq_workflow_name req) = Some name
                  \<and> get_definition name s = Some stored \<and> d = sd_definition stored))"

lemma resolve_definition_runs: "resolve_definition sv store req = Ok (d, p) \<Longrightarrow> runs_definition store req d"
  by (auto simp: resolve_definition_def runs_definition_def then_do_Ok_iff split: option.splits)

lemma given_cases: "given d = Some x \<longleftrightarrow> d = Some x \<and> x \<noteq> []" "given_text t = Some y \<longleftrightarrow> t = Some y \<and> y \<noteq> []"
  by (auto simp: given_def given_text_def split: option.splits list.splits)

text \<open>A request is refused, or everything passed and the start decides.\<close>

lemma run_workflow_cases:
  obtains "refused (run_workflow sv caller req fresh_id reply st) st"
  | d p input where "resolve_run sv caller (as_store st) req = Ok (d, p)"
    "validate_definition (sv_validate sv) (sv_bracketed_ok sv) (sv_search sv) (VDict d) (sv_content_policy sv) = Ok []"
    "build_run sv caller (as_store st) req fresh_id d p = Ok input"
    "run_workflow sv caller req fresh_id reply st = start_run input reply st"
proof (cases "resolve_run sv caller (as_store st) req")
  case (Inr dp)
  obtain d p where dp: "dp = (d, p)" by (cases dp)
  let ?v = "validate_definition (sv_validate sv) (sv_bracketed_ok sv) (sv_search sv) (VDict d) (sv_content_policy sv)"
  consider (raised) e where "?v = Inl e" | (errors) e es where "?v = Ok (e # es)" | (accepted) "?v = Ok []"
    by (metis list.exhaust old.sum.exhaust)
  then show thesis
  proof cases
    case accepted
    then show ?thesis using that Inr dp
      by (cases "build_run sv caller (as_store st) req fresh_id d p") (simp_all add: run_workflow_def)
  next
    case (errors e es)
    then show ?thesis using that(1) Inr dp reject_definition_refused [where 'a = string]
      by (simp add: run_workflow_def)
  qed (use that(1) Inr dp in \<open>simp add: run_workflow_def\<close>)
qed (use that(1) in \<open>simp add: run_workflow_def\<close>)

lemma run_workflow_OkE:
  assumes "run_workflow sv caller req fresh_id reply st = (Ok workflow_id, st')"
  obtains d p input where "resolve_run sv caller (as_store st) req = Ok (d, p)"
    "build_run sv caller (as_store st) req fresh_id d p = Ok input"
    "wi_workflow_id input = workflow_id" "as_calls st' = as_calls st @ [StartWorkflow input]"
proof (rule run_workflow_cases [of sv caller req fresh_id reply st])
  fix d p input
  assume *: "resolve_run sv caller (as_store st) req = Ok (d, p)"
    "build_run sv caller (as_store st) req fresh_id d p = Ok input"
    and run: "run_workflow sv caller req fresh_id reply st = start_run input reply st"
  then have "wi_workflow_id input = workflow_id" "as_calls st' = as_calls st @ [StartWorkflow input]"
    using assms by (cases reply; auto simp: start_run_def)+
  with * show thesis by (rule that)
qed (use assms in simp)


text \<open>Only the requested name is authorized: when a request carries both a workflow name and an inline
  definition, the inline definition runs, and the decision of the authorizer on any other name has no
  influence. A caller allowed to trigger one workflow can therefore run any definition, and the run then
  carries the name of that definition as its authorization context.\<close>

theorem inline_definition_not_authorized:
  assumes "rq_workflow_name req = Some name" and "name \<noteq> []"
    and "authorize caller Trigger (no_resource\<lparr>wr_workflow_name := Some name\<rparr>)
       = sv_authorize sv caller Trigger (no_resource\<lparr>wr_workflow_name := Some name\<rparr>)"
  shows "run_workflow (sv\<lparr>sv_authorize := authorize\<rparr>) caller req fresh_id reply st
       = run_workflow sv caller req fresh_id reply st"
proof -
  have "given_text (rq_workflow_name req) = Some name" using assms by (simp add: given_cases)
  then have "requested_name req = Ok (Some name)" using assms(1) by (simp add: requested_name_def)
  moreover have "require (sv\<lparr>sv_authorize := authorize\<rparr>) caller Trigger (no_resource\<lparr>wr_workflow_name := Some name\<rparr>)
      = require sv caller Trigger (no_resource\<lparr>wr_workflow_name := Some name\<rparr>)"
    using assms(3) by (simp add: require_def)
  moreover have "resolve_definition (sv\<lparr>sv_authorize := authorize\<rparr>) store req = resolve_definition sv store req"
    "check_tools (sv\<lparr>sv_authorize := authorize\<rparr>) d = check_tools sv d" for store d
    by (simp_all add: resolve_definition_def check_tools_def split: option.split)
  ultimately have "resolve_run (sv\<lparr>sv_authorize := authorize\<rparr>) caller store req = resolve_run sv caller store req" for store
    unfolding resolve_run_def by simp
  moreover have "build_run (sv\<lparr>sv_authorize := authorize\<rparr>) caller store req i d p = build_run sv caller store req i d p"
    for store i d p
  proof -
    have "run_provider (sv\<lparr>sv_authorize := authorize\<rparr>) d p = run_provider sv d p"
      by (simp add: run_provider_def split: option.split pyval.split)
    then show ?thesis by (simp add: build_run_def)
  qed
  moreover have "(reject_definition (sv\<lparr>sv_authorize := authorize\<rparr>) i d es st :: string res \<times> api_state)
      = reject_definition sv i d es st" for i d es
    by (simp add: reject_definition_def)
  ultimately show ?thesis by (simp add: run_workflow_def cong: sum.case_cong prod.case_cong list.case_cong)
qed

text \<open>The advisory flag of an inline definition is ignored: a run of an inline definition without a
  workflow name is advisory only if the request itself says so, whatever the definition declares.\<close>

theorem inline_advisory_ignored:
  assumes "run_workflow sv caller req fresh_id reply st = (Ok workflow_id, st')"
    and "rq_workflow_name req = None" and "rq_advisory req = None"
  shows "\<exists>input. as_calls st' = as_calls st @ [StartWorkflow input] \<and> rq_definition req = Some (wi_definition input)
     \<and> wi_advisory input = False"
proof -
  obtain d p input where "resolve_run sv caller (as_store st) req = Ok (d, p)"
    and b: "build_run sv caller (as_store st) req fresh_id d p = Ok input"
    and st': "as_calls st' = as_calls st @ [StartWorkflow input]"
    by (rule run_workflow_OkE [OF assms(1)])
  then have "runs_definition (as_store st) req d"
    by (auto simp: resolve_run_Ok dest: resolve_definition_runs)
  then have "rq_definition req = Some d"
    using assms(2) by (auto simp: runs_definition_def given_cases given_text_def split: option.splits)
  moreover have "run_advisory (as_store st) req = False"
    using assms(2,3) by (simp add: run_advisory_def given_text_def)
  moreover have "wi_definition input = d" "wi_advisory input = run_advisory (as_store st) req"
    by (rule build_run_Ok [OF b], assumption)+
  ultimately show ?thesis using st' by simp
qed


subsection \<open>Providers\<close>

lemma ProviderConfig_name:
  assumes "pydantic_engine validate dump" and "validate ProviderConfig (VDict p) = Ok w"
  shows "\<exists>n \<in> {''claude'', ''openai'', ''gemini''}. dget p ''name'' = VStr n"
proof -
  let ?fs = "[(''name'', PLiteral [''claude'', ''openai'', ''gemini''], None), (''model'', PStr 0, None),
      (''credentials_secret'', POpt (PCheck secret_reference), Some VNone),
      (''model_provider'', POpt (PStr 0), Some VNone)] :: (string \<times> ptype \<times> pyval option) list"
  have w: "validate (PModel True ?fs) (VDict p) = Ok w" using assms(2) by (simp add: ProviderConfig_def)
  obtain e where e: "w = VDict e" using pydantic_engine.model_ok [OF assms(1) w] by auto
  have "case map_of p ''name'' of
      Some x \<Rightarrow> validate (PLiteral [''claude'', ''openai'', ''gemini'']) x = Ok (dget e ''name'')
    | None \<Rightarrow> None = Some (dget e ''name'')"
    by (rule pydantic_engine.model_field [OF assms(1) w [unfolded e]]) simp
  then show ?thesis by (auto simp: dget_def split: option.splits dest!: pydantic_engine.literal_ok [OF assms(1)])
qed

lemma ProviderConfig_rejects:
  assumes "pydantic_engine validate dump" and "dget p ''name'' = VStr n" and "n \<notin> {''claude'', ''openai'', ''gemini''}"
  shows "\<exists>m. validate ProviderConfig (VDict p) = Err (ValueError m)"
proof (cases "validate ProviderConfig (VDict p)")
  case (Inl e)
  then have "is_ValueError e" by (rule pydantic_engine.rejects [OF assms(1)])
  then show ?thesis using Inl by (cases e) auto
next
  case (Inr w)
  then show ?thesis using ProviderConfig_name [OF assms(1) Inr] assms(2,3) by auto
qed

text \<open>A stored workflow whose provider is not one of the three names of \<open>ProviderConfig\<close> cannot be run by
  name: the handler raises the validation error itself instead of answering with a status, although the
  catalog of approved providers, and with it the submission of the definition, also admits others
  (\<open>anthropic\<close>, \<open>azure\<close>, \<open>bedrock\<close>).\<close>

theorem unsupported_provider_crashes:
  assumes "pydantic_engine (sv_validate sv) dump"
    and "rq_workflow_name req = Some name" and "name \<noteq> []" and "rq_definition req = None" and "rq_provider req = None"
    and "as_store st = Some s" and "get_definition name s = Some stored"
    and "dget (sd_definition stored) ''provider'' = VDict p" and "dget p ''name'' = VStr provider"
    and "provider \<notin> {''claude'', ''openai'', ''gemini''}"
    and "ad_allowed (sv_authorize sv caller Trigger (no_resource\<lparr>wr_workflow_name := Some name\<rparr>))"
  shows "\<exists>message. run_workflow sv caller req fresh_id reply st = (Err (ValueError message), st)"
proof -
  obtain m where m: "sv_validate sv ProviderConfig (VDict p) = Err (ValueError m)"
    using ProviderConfig_rejects [OF assms(1,9,10)] by blast
  have g: "given_text (rq_workflow_name req) = Some name" "given (rq_definition req) = None"
    using assms(2-4) by (simp_all add: given_cases given_def)
  have "requested_name req = Ok (Some name)" using g assms(2) by (simp add: requested_name_def)
  moreover have "resolve_definition sv (as_store st) req = Err (ValueError m)"
    using g assms(5-8) m by (simp add: resolve_definition_def)
  ultimately have "resolve_run sv caller (as_store st) req = Err (ValueError m)"
    using assms(11) by (simp add: resolve_run_def require_def Let_def)
  then show ?thesis by (simp add: run_workflow_def)
qed

section \<open>Acting on a running workflow\<close>

text \<open>Nothing is approved or cancelled without consent, and nothing at all if the context of the run cannot
  be read while authorization is on. If the handler makes its call, the authorizer allowed the action on the
  resource of the run's own context; with authorization on, that context was read.\<close>

theorem action_needs_consent:
  "(case approve_workflow sv caller workflow_id req now reply signal st of
      (Inr _, st') \<Rightarrow>
        (\<exists>resource. get_workflow_authz sv workflow_id reply = Ok resource
          \<and> ad_allowed (sv_authorize sv caller Approve (resource\<lparr>wr_step := Some (aq_step_name req)\<rparr>)))
        \<and> as_calls st' = as_calls st @ [SignalApprove workflow_id (aq_step_name req) (aq_decision req)
             (aq_selected_option_id req) (ci_username caller) (ci_uid caller)]
        \<and> (sv_workflow_authz sv = ''none'' \<or> (\<exists>ctx. reply = Replied ctx))
    | (Inl _, st') \<Rightarrow> st' = st)
   \<and> (case cancel_workflow sv caller workflow_id reply cancelled st of
      (Inr _, st') \<Rightarrow>
        (\<exists>resource. get_workflow_authz sv workflow_id reply = Ok resource
          \<and> ad_allowed (sv_authorize sv caller Cancel (resource\<lparr>wr_step := None\<rparr>)))
        \<and> as_calls st' = as_calls st @ [CancelWorkflow workflow_id]
        \<and> (sv_workflow_authz sv = ''none'' \<or> (\<exists>ctx. reply = Replied ctx))
    | (Inl _, st') \<Rightarrow> st' = st)"
proof -
  have loaded: "sv_workflow_authz sv = ''none'' \<or> (\<exists>ctx. reply = Replied ctx)"
    if "get_workflow_authz sv workflow_id reply = Ok r" for r
    using that by (cases reply) (auto simp: get_workflow_authz_def authz_unavailable_def split: if_splits)
  have consent: "\<exists>resource. get_workflow_authz sv workflow_id reply = Ok resource
      \<and> ad_allowed (sv_authorize sv caller a (resource\<lparr>wr_step := step\<rparr>))
      \<and> (sv_workflow_authz sv = ''none'' \<or> (\<exists>ctx. reply = Replied ctx))"
    if "then_do (require_on sv caller a workflow_id step reply) (\<lambda>_. x) = Ok y" for a step y and x :: "unit res"
    using that by (auto simp: require_on_def then_do_Ok_iff require_Ok dest: loaded)
  show ?thesis
    unfolding approve_workflow_def cancel_workflow_def
    by (intro conjI) (auto split: sum.split dest!: consent)
qed

section \<open>The event stream\<close>

text \<open>
  How the event list of a workflow develops: each round sees an extension of what the one before saw.
\<close>

fun growing :: "pyval list \<Rightarrow> poll list \<Rightarrow> bool" where
  "growing seen [] = True"
| "growing seen (Polled events d # polls) = (prefix seen events \<and> growing events polls)"
| "growing seen (PollFailed # polls) = growing seen polls"

lemma event_generator_rounds:
  assumes "growing seen (polls @ [Polled events Closed])"
    and "\<forall>p \<in> set polls. \<exists>es d. p = Polled es d \<and> d \<noteq> Closed"
  shows "event_generator (length seen) (polls @ Polled events Closed # later) =
    map (\<lambda>e. sse (json_dumps e)) (drop (length seen) events) @ [completed_event] \<and> prefix seen events"
  using assms
proof (induction polls arbitrary: seen)
  case (Cons p polls)
  from Cons.prems obtain es d where p: "p = Polled es d" "d \<noteq> Closed" by auto
  from Cons.prems p have "prefix seen es" and ih: "event_generator (length es) (polls @ Polled events Closed # later) =
      map (\<lambda>e. sse (json_dumps e)) (drop (length es) events) @ [completed_event]" "prefix es events"
    using Cons.IH [of es] by auto
  moreover from this have "drop (length seen) es @ drop (length es) events = drop (length seen) events"
    by (auto simp: prefix_def)
  ultimately show ?case using p by (auto simp: prefix_order.trans simp flip: map_append append_assoc)
qed (simp add: prefix_def)

text \<open>The event stream delivers every event once and in order: if the event list of the workflow only grows
  and no query fails before the round that finds the workflow over, the stream consists of exactly the events
  of that round followed by the completion event, however the events were spread over the rounds and whichever
  descriptions failed, and it stops there.\<close>

theorem event_stream_exact:
  assumes "growing [] (polls @ [Polled events Closed])"
    and "\<forall>p \<in> set polls. \<exists>es d. p = Polled es d \<and> d \<noteq> Closed"
  shows "event_generator 0 (polls @ Polled events Closed # later) = map (\<lambda>e. sse (json_dumps e)) events @ [completed_event]"
  using event_generator_rounds [OF assms, of later] by simp

section \<open>Concrete requests\<close>

definition named_definition :: "string \<Rightarrow> string \<Rightarrow> pydict" where
  "named_definition name provider =
     [(''apiVersion'', VStr ''v1''), (''kind'', VStr ''AgentWorkflow''), (''metadata'', VDict [(''name'', VStr name)]),
      (''spec'', VDict [(''steps'', VList [VDict [(''name'', VStr ''look''), (''prompt'', VStr ''look''),
         (''output_key'', VStr ''seen'')]])]),
      (''provider'', VDict [(''name'', VStr provider), (''model'', VStr ''m'')]), (''advisory'', VBool True)]"

definition triage_only :: policy_config where
  "triage_only = \<lparr>pc_rules = [\<lparr>pr_identity = ''user:ann'', pr_actions = [''trigger''], pr_workflows = [''triage''],
                               pr_conditions = None\<rparr>],
                  pc_defaults = default_policy\<rparr>"

definition ann :: caller_identity where
  "ann = \<lparr>ci_username = ''ann'', ci_uid = None, ci_groups = [], ci_auth_mode = ''oidc''\<rparr>"

definition strict_service :: service where
  "strict_service = \<lparr>sv_validate = strict_validate, sv_bracketed_ok = (\<lambda>_. True), sv_search = (\<lambda>_ _. False),
     sv_registered = [], sv_content_policy = None, sv_authorize = policy_authorize triage_only,
     sv_workflow_authz = ''policy''\<rparr>"

definition run_of :: "string option \<Rightarrow> pydict option \<Rightarrow> run_request" where
  "run_of name definition =
     \<lparr>rq_workflow_name = name, rq_definition = definition, rq_input_prompt = None, rq_provider = None,
      rq_sandbox_image = ''img'', rq_skills_image = VNone, rq_skills_paths = VNone, rq_advisory = None,
      rq_workflow_id = None, rq_mcp_servers = VNone, rq_approval_policy = None, rq_notifier_config = VNone,
      rq_escalation_config = VNone\<rparr>"

definition idle :: api_state where
  "idle = \<lparr>as_store = None, as_audit = [], as_calls = []\<rparr>"

abbreviation started_names :: "api_state \<Rightarrow> pyval list" where
  "started_names st \<equiv> map (\<lambda>c. case c of StartWorkflow i \<Rightarrow> dget (the (wi_authz_context i)) ''workflow_name'' | _ \<Rightarrow> VNone)
     (as_calls st)"

theorem inline_definition_not_authorized_witness:
  "\<not> ad_allowed (policy_authorize triage_only ann Trigger (no_resource\<lparr>wr_workflow_name := Some ''wipe''\<rparr>))
   \<and> fst (run_workflow strict_service ann (run_of (Some ''triage'') (Some (named_definition ''wipe'' ''claude''))) ''7'' Started idle)
       = Ok ''wf-7''
   \<and> started_names (snd (run_workflow strict_service ann (run_of (Some ''triage'') (Some (named_definition ''wipe'' ''claude'')))
         ''7'' Started idle)) = [VStr ''wipe'']"
proof -
  let ?open = "strict_service\<lparr>sv_authorize := \<lambda>_ _ _. sv_authorize strict_service ann Trigger (no_resource\<lparr>wr_workflow_name := Some ''triage''\<rparr>)\<rparr>"
  let ?req = "run_of (Some ''triage'') (Some (named_definition ''wipe'' ''claude''))"
  have "run_workflow ?open ann ?req ''7'' Started idle = run_workflow strict_service ann ?req ''7'' Started idle"
    by (rule inline_definition_not_authorized) (simp_all add: run_of_def)
  moreover have "fst (run_workflow ?open ann ?req ''7'' Started idle) = Ok ''wf-7''" by code_simp
  moreover have "started_names (snd (run_workflow ?open ann ?req ''7'' Started idle)) = [VStr ''wipe'']" by code_simp
  moreover have "\<not> ad_allowed (policy_authorize triage_only ann Trigger (no_resource\<lparr>wr_workflow_name := Some ''wipe''\<rparr>))"
    by code_simp
  ultimately show ?thesis by simp
qed

theorem inline_advisory_ignored_witness:
  "\<exists>input. as_calls (snd (run_workflow strict_service ann (run_of None (Some (named_definition ''triage'' ''claude''))) ''7'' Started idle))
       = [StartWorkflow input] \<and> dget (wi_definition input) ''advisory'' = VBool True \<and> wi_advisory input = False"
proof -
  let ?req = "run_of None (Some (named_definition ''triage'' ''claude''))"
  let ?out = "run_workflow strict_service ann ?req ''7'' Started idle"
  have "fst ?out = Ok ''wf-7''" by code_simp
  then have "run_workflow strict_service ann ?req ''7'' Started idle = (Ok ''wf-7'', snd ?out)" by (metis prod.collapse)
  from inline_advisory_ignored [OF this] obtain input where "as_calls (snd ?out) = [StartWorkflow input]"
    "named_definition ''triage'' ''claude'' = wi_definition input" "wi_advisory input = False"
    by (auto simp: run_of_def idle_def)
  moreover have "dget (named_definition ''triage'' ''claude'') ''advisory'' = VBool True" by code_simp
  ultimately show ?thesis by auto
qed

definition anthropic_store :: definition_store where
  "anthropic_store = the (as_store (snd (submit_definition (strict_service\<lparr>sv_authorize := noop_authorize\<rparr>) ann
     (named_definition ''triage'' ''anthropic'') ''t0'' empty_definitions idle)))"

theorem unsupported_provider_crashes_witness:
  "\<exists>message. run_workflow strict_service ann (run_of (Some ''triage'') None) ''7'' Started (idle\<lparr>as_store := Some anthropic_store\<rparr>)
     = (Err (ValueError message), idle\<lparr>as_store := Some anthropic_store\<rparr>)"
proof -
  obtain stored where st: "get_definition ''triage'' anthropic_store = Some stored"
    "dget (sd_definition stored) ''provider'' = VDict [(''name'', VStr ''anthropic''), (''model'', VStr ''m''), (''credentials_secret'', VNone)]"
  proof -
    have "map_option (\<lambda>d. dget (sd_definition d) ''provider'') (get_definition ''triage'' anthropic_store)
      = Some (VDict [(''name'', VStr ''anthropic''), (''model'', VStr ''m''), (''credentials_secret'', VNone)])" by code_simp
    then show ?thesis using that by auto
  qed
  show ?thesis
  proof (rule unsupported_provider_crashes [OF _ _ _ _ _ _ st, of _ drop_none])
    show "pydantic_engine (sv_validate strict_service) drop_none"
      using strict.pydantic_engine_axioms by (simp add: strict_service_def)
    show "ad_allowed (sv_authorize strict_service ann Trigger (no_resource\<lparr>wr_workflow_name := Some ''triage''\<rparr>))" by code_simp
    show "''anthropic'' \<notin> {''claude'', ''openai'', ''gemini''}" by code_simp
  qed (simp_all add: run_of_def)
qed

theorem event_stream_exact_witness:
  "event_generator 0 [Polled [VInt 1] StillOpen, Polled [VInt 1, VInt 2] DescribeFailed, Polled [VInt 1, VInt 2, VInt 3] Closed]
   = map (\<lambda>e. sse (json_dumps e)) [VInt 1, VInt 2, VInt 3] @ [completed_event]"
  using event_stream_exact [of "[Polled [VInt 1] StillOpen, Polled [VInt 1, VInt 2] DescribeFailed]" "[VInt 1, VInt 2, VInt 3]" "[]"]
  by simp

end
