(* ===== verification/RunContext.thy ===== *)
theory RunContext
  imports SubmissionGates
begin

text \<open>
  The handlers and the runs they act on: the authorization context is written when a run starts and
  never again, so a later approval or cancellation is decided on the caller and the definition of the
  request that started the run.
\<close>

section \<open>The contexts of a run are immutable\<close>

definition contexts :: "agent_workflow \<Rightarrow> pydict option \<times> pydict option" where
  "contexts w = (wf_authz_context w, wf_workflow_context w)"

lemma contexts_simps [simp]:
  "contexts (emit ty n w) = contexts w" "contexts (set_step k r w) = contexts w"
  "contexts (set_transcript k t w) = contexts w" "contexts (approve a b c d e w) = contexts w"
  "contexts (session_result i x w) = contexts w" "contexts (w\<lparr>wf_now := now\<rparr>) = contexts w"
  by (simp_all add: contexts_def emit_def set_step_def set_transcript_def approve_def session_result_def)

lemma finish_result_contexts: "finish_result pf input dp result w = Ok (w', p) \<Longrightarrow> contexts w' = contexts w"
  by (cases result) (auto simp: finish_result_def Let_def then_do_Ok_iff)

lemma resume_contexts: "resume pf input p r w = Some (Inr (w', p')) \<Longrightarrow> contexts w' = contexts w"
  by (cases "(pf, input, p, r, w)" rule: resume.cases)
    (auto simp: approval_timeout_def approval_decided_def Let_def finish_error_def then_do_Ok_iff
      split: if_splits option.splits pyval.splits dest: finish_result_contexts)

lemma handle_approval_contexts: "handle_approval pf input step name key w = Ok (w', p) \<Longrightarrow> contexts w' = contexts w"
  unfolding handle_approval_def Let_def by (elim then_do_OkE) (auto split: if_splits)

lemma handle_agent_step_contexts: "handle_agent_step pf input step w = Ok (w', p) \<Longrightarrow> contexts w' = contexts w"
  unfolding handle_agent_step_def
  by (elim run_elims) (auto simp: fail_before_dispatch_def Let_def then_do_Ok_iff split: sum.splits if_splits prod.splits)

lemma execute_step_contexts: "execute_step pf input step w = Ok (w', p) \<Longrightarrow> contexts w' = contexts w"
  unfolding execute_step_def
  by (elim then_do_OkE)
    (auto simp: Let_def then_do_Ok_iff split: if_splits dest: handle_approval_contexts handle_agent_step_contexts)

lemma start_members_contexts: "start_members pf input ss w = Ok (w', ps) \<Longrightarrow> contexts w' = contexts w"
  by (induction ss arbitrary: w ps) (auto simp: then_do_Ok_iff dest!: execute_step_contexts)

fun workflow_of :: "run_state \<Rightarrow> agent_workflow" where
  "workflow_of (Active w ps rest) = w"
| "workflow_of (Finished w) = w"
| "workflow_of (Crashed e w) = w"

lemma next_unit_contexts: "contexts (workflow_of (next_unit pf input w units)) = contexts w"
proof (cases units)
  case (Cons u rest)
  show ?thesis
    by (cases "start_members pf input (unit_members u) w")
      (auto simp: Cons next_unit_Cons dest: start_members_contexts)
qed (simp add: next_unit_def)

lemma run_step_contexts: "run_step pf input s s' \<Longrightarrow> contexts (workflow_of s') = contexts (workflow_of s)"
  by (induction rule: run_step.induct) (auto simp: advance_def next_unit_contexts dest: resume_contexts)

lemma reachable_contexts:
  "(run_step pf input)\<^sup>*\<^sup>* (initial pf input now) s \<Longrightarrow> contexts (workflow_of s) = contexts (begin_run input (init_workflow now))"
proof (induction rule: rtranclp_induct)
  case base
  show ?case by (cases "plan input") (simp_all add: initial_def Let_def next_unit_contexts)
qed (simp add: run_step_contexts)

section \<open>Decisions about a run follow its start\<close>

text \<open>C3. Every later decision about a run is taken on the request that started it: if \<open>/run\<close> started a workflow,
  then whatever steps, signals and timers the run has seen, the resource that the approve, cancel and view
  handlers load from it has the identifier of the run, its starter as the owner, the starter's namespace and the
  name of the definition that runs.\<close>

theorem run_resource_is_its_start:
  assumes "run_workflow sv caller req fresh_id reply st = (Ok workflow_id, st')"
    and "as_calls st' = as_calls st @ [StartWorkflow input]"
    and "(run_step pf input)\<^sup>*\<^sup>* (initial pf input now) s"
  shows "\<exists>name. metadata_name (wi_definition input) = Ok (VStr name)
     \<and> get_workflow_authz sv workflow_id (Replied (wf_authz_context (workflow_of s))) =
         Ok \<lparr>wr_workflow_id = Some workflow_id, wr_workflow_name = Some name, wr_owner = Some (ci_username caller),
             wr_namespace = parse_namespace_from_sa_username (ci_username caller), wr_step = None\<rparr>"
proof -
  let ?ns = "parse_namespace_from_sa_username (ci_username caller)"
  obtain d p where b: "build_run sv caller (as_store st) req fresh_id d p = Ok input"
    by (rule run_workflow_OkE [OF assms(1)]) (use assms(2) in auto)
  from build_run_Ok [OF b] obtain ctx name where name: "metadata_name (wi_definition input) = Ok (VStr name)"
    and ctx: "authz_context caller (VStr name) ?ns = Ok ctx" and stored: "wi_authz_context input = Some ctx" by metis
  have ne: "ctx \<noteq> []" and fields: "dget ctx ''workflow_name'' = VStr name"
    "dget ctx ''owner_username'' = VStr (ci_username caller)"
    "dget ctx ''namespace'' = (case ?ns of None \<Rightarrow> VNone | Some ns \<Rightarrow> VStr ns)"
    using ctx by (auto simp: authz_context_def)
  have "wf_authz_context (workflow_of s) = Some ctx"
    using reachable_contexts [OF assms(3)] ne stored by (simp add: contexts_def begin_run_def)
  moreover have "context_resource workflow_id ctx = Ok \<lparr>wr_workflow_id = Some workflow_id, wr_workflow_name = Some name,
      wr_owner = Some (ci_username caller), wr_namespace = ?ns, wr_step = None\<rparr>"
    using fields by (cases ?ns) (simp_all add: context_resource_def)
  ultimately show ?thesis using name ne by (auto simp: get_workflow_authz_def given_def split: list.split)
qed

theorem run_resource_is_its_start_witness:
  "\<exists>input. as_calls (snd (run_workflow strict_service ann (run_of None (Some (named_definition ''triage'' ''claude''))) ''7'' Started idle))
      = [StartWorkflow input]
    \<and> get_workflow_authz strict_service ''wf-7'' (Replied (wf_authz_context (workflow_of (initial strict_platform input ''t0'')))) =
        Ok \<lparr>wr_workflow_id = Some ''wf-7'', wr_workflow_name = Some ''triage'', wr_owner = Some ''ann'',
            wr_namespace = None, wr_step = None\<rparr>"
proof -
  let ?req = "run_of None (Some (named_definition ''triage'' ''claude''))"
  let ?out = "run_workflow strict_service ann ?req ''7'' Started idle"
  have "fst ?out = Ok ''wf-7''" by code_simp
  then have run: "run_workflow strict_service ann ?req ''7'' Started idle = (Ok ''wf-7'', snd ?out)" by (metis prod.collapse)
  obtain input where c: "as_calls (snd ?out) = as_calls idle @ [StartWorkflow input]" by (rule run_workflow_OkE [OF run])
  from run_resource_is_its_start [OF run c rtranclp.rtrancl_refl, of strict_platform "''t0''"] obtain name where
    n: "metadata_name (wi_definition input) = Ok (VStr name)"
    and r: "get_workflow_authz strict_service ''wf-7'' (Replied (wf_authz_context (workflow_of (initial strict_platform input ''t0'')))) =
      Ok \<lparr>wr_workflow_id = Some ''wf-7'', wr_workflow_name = Some name, wr_owner = Some (ci_username ann),
          wr_namespace = parse_namespace_from_sa_username (ci_username ann), wr_step = None\<rparr>" by blast
  have "wi_definition input = named_definition ''triage'' ''claude''"
  proof -
    have "map (\<lambda>x. case x of StartWorkflow i \<Rightarrow> wi_definition i | _ \<Rightarrow> []) (as_calls (snd ?out)) = [named_definition ''triage'' ''claude'']"
      by code_simp
    then show ?thesis using c by (simp add: idle_def)
  qed
  moreover have "metadata_name (named_definition ''triage'' ''claude'') = Ok (VStr ''triage'')" by code_simp
  ultimately have "name = ''triage''" using n by simp
  moreover have "ci_username ann = ''ann''" "parse_namespace_from_sa_username (ci_username ann) = None" by code_simp+
  ultimately show ?thesis using c r by (auto simp: idle_def)
qed

end
