(* ===== verification/AcceptedRuns.thy ===== *)
theory AcceptedRuns
  imports RunContext
begin

text \<open>
  From an accepted request to a well-formed run: the gates of a submission establish what the step
  relation of a run relies on, unique output keys that are text. The property that joins both ends
  is stated in the root theory.
\<close>

section \<open>The steps of a validated definition\<close>

definition text_key :: "pydict \<Rightarrow> bool" where
  "text_key s = (dget s ''output_key'' = VNone \<or> is_str (dget s ''output_key''))"

context pydantic_engine
begin

lemma step_spec_key:
  assumes "validate WorkflowStepSpec v = Ok w" obtains s where "v = VDict s" "text_key s"
proof -
  from assms obtain s e where v: "v = VDict s" "w = VDict e"
    unfolding WorkflowStepSpec_def by (blast dest: model_ok)
  have "case map_of s ''output_key'' of
      Some x \<Rightarrow> validate (POpt (PStr 0)) x = Ok (dget e ''output_key'')
    | None \<Rightarrow> Some VNone = Some (dget e ''output_key'')"
    by (rule model_field [OF assms [unfolded v WorkflowStepSpec_def]]) simp
  then have "text_key s" by (auto simp: text_key_def dget_def split: option.splits dest: opt_text_ok)
  with v show thesis by (intro that)
qed

lemma workflow_spec_steps:
  assumes "validate WorkflowSpec v = Ok w"
  obtains spec raw where "v = VDict spec" "dget_or spec ''steps'' dflt = VList raw"
    "\<forall>x \<in> set raw. \<exists>s. x = VDict s \<and> text_key s"
proof -
  from assms obtain spec e where v: "v = VDict spec" "w = VDict e"
    unfolding WorkflowSpec_def by (blast dest: model_ok)
  have "case map_of spec ''steps'' of
      Some x \<Rightarrow> validate (PList WorkflowStepSpec) x = Ok (dget e ''steps'')
    | None \<Rightarrow> None = Some (dget e ''steps'')"
    by (rule model_field [OF assms [unfolded v WorkflowSpec_def]]) simp
  then obtain x where x: "map_of spec ''steps'' = Some x" "validate (PList WorkflowStepSpec) x = Ok (dget e ''steps'')"
    by (auto split: option.splits)
  from list_ok [OF x(2)] obtain raw ys where raw: "x = VList raw" "list_all2 (\<lambda>x y. validate WorkflowStepSpec x = Ok y) raw ys"
    by auto
  have "\<exists>s. x = VDict s \<and> text_key s" if x: "x \<in> set raw" for x
  proof -
    obtain y where "validate WorkflowStepSpec x = Ok y"
      using raw(2) x by (auto simp: list_all2_conv_all_nth in_set_conv_nth)
    then show ?thesis by (rule step_spec_key) blast
  qed
  with v x(1) raw(1) show thesis by (intro that) (auto simp: dget_or_def)
qed

lemma definition_steps:
  assumes "validate WorkflowDefinition (VDict d) = Ok w"
  obtains spec raw where "dget_or d ''spec'' dflt = VDict spec" "dget_or spec ''steps'' dflt' = VList raw"
    "\<forall>x \<in> set raw. \<exists>s. x = VDict s \<and> text_key s"
proof -
  from assms obtain e where w: "w = VDict e"
    unfolding WorkflowDefinition_def by (blast dest: model_ok)
  have "case map_of d ''spec'' of
      Some x \<Rightarrow> validate WorkflowSpec x = Ok (dget e ''spec'')
    | None \<Rightarrow> None = Some (dget e ''spec'')"
    by (rule model_field [OF assms [unfolded w WorkflowDefinition_def]]) simp
  then obtain x where x: "map_of d ''spec'' = Some x" "validate WorkflowSpec x = Ok (dget e ''spec'')"
    by (auto split: option.splits)
  then have "dget_or d ''spec'' dflt = x" by (simp add: dget_or_def)
  with workflow_spec_steps [OF x(2)] that show thesis by metis
qed

lemma accepted_keys_text:
  assumes "validate WorkflowDefinition (VDict d) = Ok w" and "accepted_steps d = Ok steps"
    and "list_all (\<lambda>s. truthy (dget s ''output_key'')) steps"
  shows "list_all (\<lambda>s. is_str (dget s ''output_key'')) steps"
proof -
  obtain spec raw where spec: "dget_or d ''spec'' (VDict []) = VDict spec" "dget_or spec ''steps'' (VList []) = VList raw"
    and raw: "\<forall>x \<in> set raw. \<exists>s. x = VDict s \<and> text_key s" by (rule definition_steps [OF assms(1)])
  obtain ds where ds: "map_res as_dict raw = Ok ds" "canonical_steps ds = Ok steps"
    using assms(2) spec by (auto simp: accepted_steps_def then_do_Ok_iff)
  have keys: "list_all text_key ds"
    using ds(1) raw by (induction raw arbitrary: ds) (auto simp: then_do_Ok_iff)
  have "list_all text_key steps"
  proof (cases "\<exists>s. ds = [s]")
    case True
    then obtain s t where s: "ds = [s]" "steps = [t]" "apply_one_step_defaults s 1 = Ok t"
      using ds(2) by (auto simp: canonical_steps_def then_do_Ok_iff)
    then show ?thesis using keys
      by (auto simp: apply_one_step_defaults_def Let_def text_key_def split: if_splits)
  next
    case False
    then have "steps = ds" using ds(2) by (cases ds rule: list.exhaust; cases "tl ds") (auto simp: canonical_steps_def)
    then show ?thesis using keys by simp
  qed
  then show ?thesis using assms(3) by (fastforce simp: list_all_iff text_key_def)
qed

end

section \<open>The plan of an accepted definition\<close>

lemma unit_members_all: "list_all unit_ok units \<Longrightarrow> plan_steps units = concat (map snd units)"
  by (induction units) (auto simp: unit_members_def unit_ok_def split: option.splits prod.splits)

lemma plan_accepted:
  assumes "plan input = Ok units" and "accepted_steps (wi_definition input) = Ok steps"
  shows "plan_steps units = steps"
proof -
  obtain spec where spec: "dget_or (wi_definition input) ''spec'' (VDict []) = VDict spec"
    using assms(2) by (auto simp: accepted_steps_def then_do_Ok_iff)
  then obtain raw ds where "dget_or spec ''steps'' (VList []) = VList raw" "map_res as_dict raw = Ok ds"
      "canonical_steps ds = Ok steps"
    using assms(2) by (cases "dget_or spec ''steps'' (VList [])") (auto simp: accepted_steps_def then_do_Ok_iff)
  note this spec
  then have "chunk_parallel_groups steps = Ok units"
    using assms(1) by (auto simp: plan_def then_do_Ok_iff canonical_steps_def)
  then show ?thesis using chunk_units unit_members_all by metis
qed

lemma is_str_iff: "is_str v \<longleftrightarrow> (\<exists>a. v = VStr a)"
  by (cases v) auto

lemma text_keys_distinct:
  assumes "sorted_wrt (\<lambda>m n. \<not> py_eq m n) (map (\<lambda>s. dget s ''output_key'') steps)"
    and "list_all (\<lambda>s. is_str (dget s ''output_key'')) steps"
  shows "distinct (map key_of steps)"
  using assms
proof (induction steps)
  case (Cons s steps)
  have "key_of s \<noteq> key_of t" if t: "t \<in> set steps" for t
  proof -
    obtain a b where "dget s ''output_key'' = VStr a" "dget t ''output_key'' = VStr b"
      using Cons.prems(2) t by (auto simp: list_all_iff is_str_iff)
    moreover have "\<not> py_eq (dget s ''output_key'') (dget t ''output_key'')" using Cons.prems(1) t by simp
    ultimately show ?thesis by (simp add: text_of_def)
  qed
  then show ?case using Cons by auto
qed simp

lemma accepted_keys_ok:
  assumes "pydantic_engine validate dump" and "is_ok (validate WorkflowDefinition (VDict (wi_definition input)))"
    and "validate_definition validate bracketed_ok search (VDict (wi_definition input)) policy = Ok []"
    and "accepted_steps (wi_definition input) = Ok steps" and "''escalation'' \<notin> set (map key_of steps)"
    and "plan input = Ok units"
  shows "keys_ok units"
proof -
  from accepted_facts [OF assms(3)] assms(4) have acc: "list_all (\<lambda>s. truthy (dget s ''output_key'')) steps"
    "sorted_wrt (\<lambda>m n. \<not> py_eq m n) (map (\<lambda>s. dget s ''output_key'') steps)"
    by (auto simp: list_all_iff step_accepted_def)
  obtain w where "validate WorkflowDefinition (VDict (wi_definition input)) = Ok w" using assms(2) by (auto simp: is_ok_iff)
  from pydantic_engine.accepted_keys_text [OF assms(1) this assms(4) acc(1)]
  have "distinct (map key_of steps)" by (rule text_keys_distinct [OF acc(2)])
  then show ?thesis using plan_accepted [OF assms(6,4)] assms(5) by (simp add: keys_ok_def)
qed

lemma run_workflow_validated:
  assumes "run_workflow sv caller req fresh_id reply st = (Ok workflow_id, st')"
    and "as_calls st' = as_calls st @ [StartWorkflow input]"
  shows "is_ok (sv_validate sv WorkflowDefinition (VDict (wi_definition input)))
    \<and> validate_definition (sv_validate sv) (sv_bracketed_ok sv) (sv_search sv) (VDict (wi_definition input))
        (sv_content_policy sv) = Ok []"
proof (rule run_workflow_cases [of sv caller req fresh_id reply st])
  fix d p i
  assume v: "validate_definition (sv_validate sv) (sv_bracketed_ok sv) (sv_search sv) (VDict d) (sv_content_policy sv) = Ok []"
    and b: "build_run sv caller (as_store st) req fresh_id d p = Ok i"
    and run: "run_workflow sv caller req fresh_id reply st = start_run i reply st"
  have "i = input" using run assms by (cases reply) (auto simp: start_run_def)
  moreover have "is_ok (sv_validate sv WorkflowDefinition (VDict d))" "wi_definition i = d"
    by (rule build_run_Ok [OF b], assumption)+
  ultimately show ?thesis using v by simp
qed (use assms(1) in simp)

lemma active_planned:
  assumes "(run_step pf input)\<^sup>*\<^sup>* (initial pf input now) (Active w ps rest)"
  obtains units where "plan input = Ok units"
proof (cases "plan input")
  case (Inl e)
  then have crashed: "initial pf input now = Crashed e (begin_run input (init_workflow now))"
    by (simp add: initial_def Let_def)
  have "s = Crashed e v" if "(run_step pf input)\<^sup>*\<^sup>* (Crashed e v) s" for v s
    using that by (induction rule: rtranclp_induct) (auto simp: run_step_Crashed)
  with assms crashed show thesis by fastforce
qed (use that in blast)

end
