(* ===== verification/RunTermination.thy ===== *)
theory RunTermination
  imports TemporalRuns
begin

text \<open>
  A run does not go on forever: every reply a member step receives, every exception and every move to
  the next unit brings it closer to its end, whatever the retry budgets are. Signals and the clock
  are not progress; they can arrive at any time.
\<close>

inductive progress :: "platform \<Rightarrow> workflow_input \<Rightarrow> run_state \<Rightarrow> run_state \<Rightarrow> bool" for pf input where
  reply: "i < length ps \<Longrightarrow> resume pf input (ps ! i) r w = Some (Inr (w', p)) \<Longrightarrow>
    progress pf input (Active w ps rest) (Active w' (ps[i := p]) rest)"
| crash: "i < length ps \<Longrightarrow> resume pf input (ps ! i) r w = Some (Inl e) \<Longrightarrow>
    progress pf input (Active w ps rest) (Crashed e w)"
| move: "list_all is_done ps \<Longrightarrow> progress pf input (Active w ps rest) (advance pf input w ps rest)"

lemma progress_run_step: "progress pf input s s' \<Longrightarrow> run_step pf input s s'"
  by (induction rule: progress.induct) (auto intro: run_step.intros)

text \<open>How much a member still has to do; each attempt counts twice, for itself and for the pause after it.\<close>

fun phase_work :: "phase \<Rightarrow> nat" where
  "phase_work (Done r) = 0"
| "phase_work (Notifying a) = 2"
| "phase_work (Waiting a) = 1"
| "phase_work (Escalating n r) = 1"
| "phase_work (Attempting dp n) = 2 + 2 * (nat (max_attempts_for (dp_max_retries dp)) - n)"
| "phase_work (Sleeping dp n) = 3 + 2 * (nat (max_attempts_for (dp_max_retries dp)) - Suc n)"

lemma finish_result_done: "finish_result pf input dp result w = Ok (w', p) \<Longrightarrow> \<exists>r. p = Done r"
  by (cases result) (auto simp: finish_result_def Let_def then_do_Ok_iff)

lemma resume_work: "resume pf input p r w = Some (Inr (w', p')) \<Longrightarrow> phase_work p' < phase_work p"
  by (cases "(pf, input, p, r, w)" rule: resume.cases)
    (auto simp: start_wait_def approval_timeout_def approval_decided_def finish_error_def Let_def then_do_Ok_iff
      split: if_splits option.splits pyval.splits dest!: finish_result_done)

fun work :: "run_state \<Rightarrow> nat \<times> nat" where
  "work (Active w ps rest) = (Suc (length rest), sum_list (map phase_work ps))"
| "work _ = (0, 0)"

lemma sum_list_update_less:
  fixes f :: "'a \<Rightarrow> nat"
  assumes "i < length xs" and "f y < f (xs ! i)" shows "sum_list (map f (xs[i := y])) < sum_list (map f xs)"
  using assms
proof (induction xs arbitrary: i)
  case (Cons x xs)
  then show ?case by (cases i) auto
qed simp

lemma next_unit_work: "fst (work (next_unit pf input w units)) \<le> length units"
  by (cases units) (auto simp: next_unit_def split: sum.split prod.split)

lemma progress_decreases: "progress pf input s s' \<Longrightarrow> (work s', work s) \<in> less_than <*lex*> less_than"
proof (induction rule: progress.induct)
  case (reply i ps r w w' p rest)
  then show ?case using sum_list_update_less [OF reply(1), of phase_work p] resume_work [OF reply(2)] by simp
next
  case (move ps w rest)
  have "fst (work (advance pf input w ps rest)) \<le> length rest"
    using next_unit_work [of pf input w rest] by (simp add: advance_def)
  then show ?case by (cases "work (advance pf input w ps rest)") simp
qed simp

text \<open>C4. Runs terminate: there is no infinite sequence of progress, whatever the replies are; together with the fact
  that a run that is not over always has a member waiting for a reply, a run whose replies arrive ends.\<close>

theorem run_terminates:
  "wfp (\<lambda>s' s. progress pf input s s') \<and> (\<forall>f. \<exists>i. \<not> progress pf input (f i) (f (Suc i)))"
proof -
  let ?r = "inv_image (less_than <*lex*> less_than) work"
  have wf: "wf ?r" by (intro wf_inv_image wf_lex_prod wf_less_than)
  have sub: "{(s', s). progress pf input s s'} \<subseteq> ?r" by (auto simp: in_inv_image dest: progress_decreases)
  have "wf {(s', s). progress pf input s s'}" by (rule wf_subset [OF wf sub])
  moreover from this have "\<nexists>f. \<forall>i. (f (Suc i), f i) \<in> {(s', s). progress pf input s s'}"
    by (simp add: wf_iff_no_infinite_down_chain)
  ultimately show ?thesis by (auto simp: wfp_def)
qed

end
