(* ===== verification/Keyed.thy ===== *)
theory Keyed
  imports Prelude
begin

text \<open>
  The interface shared by components that keep one record per key and whose operations touch the
  record of their own key only. The circuit breaker keeps one per provider, the run-state store one
  per workflow.
\<close>

locale keyed_component =
  fixes step :: "'e \<Rightarrow> 's \<Rightarrow> 's"
    and key_of :: "'e \<Rightarrow> 'k"
    and view :: "'s \<Rightarrow> 'k \<Rightarrow> 'v"
  assumes isolated: "key_of e \<noteq> k \<Longrightarrow> view (step e s) k = view s k"
    and local_step: "view s k = view s' k \<Longrightarrow> key_of e = k \<Longrightarrow> view (step e s) k = view (step e s') k"
begin

definition run :: "'e list \<Rightarrow> 's \<Rightarrow> 's" where
  "run es s = fold step es s"

lemma run_Cons [simp]: "run (e # es) s = run es (step e s)"
  by (simp add: run_def)

lemma run_Nil [simp]: "run [] s = s"
  by (simp add: run_def)

lemma run_append: "run (es @ fs) s = run fs (run es s)"
  by (simp add: run_def)

lemma run_cong:
  "view s k = view s' k \<Longrightarrow> (\<And>e. e \<in> set es \<Longrightarrow> key_of e = k) \<Longrightarrow>
   view (run es s) k = view (run es s') k"
proof (induction es arbitrary: s s')
  case (Cons e es)
  have "view (step e s) k = view (step e s') k"
    by (rule local_step [OF Cons.prems(1)]) (rule Cons.prems(2), simp)
  then have "view (run es (step e s)) k = view (run es (step e s')) k"
    by (rule Cons.IH) (rule Cons.prems(2), simp)
  then show ?case by (simp only: run_Cons)
qed simp

text \<open>A key sees its own events only: the others may be interleaved in any way.\<close>

lemma projection: "view (run es s) k = view (run (filter (\<lambda>e. key_of e = k) es) s) k"
proof (induction es arbitrary: s)
  case (Cons e es)
  show ?case
  proof (cases "key_of e = k")
    case False
    have "view (run (filter (\<lambda>e. key_of e = k) es) (step e s)) k
        = view (run (filter (\<lambda>e. key_of e = k) es) s) k"
      by (rule run_cong) (auto simp: isolated [OF False])
    with Cons False show ?thesis by simp
  qed (simp add: Cons)
qed simp

lemma interleaving_irrelevant:
  assumes "filter (\<lambda>e. key_of e = k) es = filter (\<lambda>e. key_of e = k) fs"
  shows "view (run es s) k = view (run fs s) k"
  by (subst (1 2) projection) (simp add: assms)

end

end
