(* ===== verification/RunStateStore.thy ===== *)
theory RunStateStore
  imports PyValue Keyed "HOL-Library.Multiset"
begin

text \<open>
  The run-state store of \<open>storage/run_state_store.py\<close>: one row of the table
  \<open>workflow_run_state\<close> per workflow, each operation one SQL statement on the row of its workflow.
  The table is a dictionary of rows by \<open>workflow_id\<close>, its primary key; an operation before
  \<open>connect()\<close> raises. JSON columns hold the value itself; PostgreSQL keeps the keys of a JSON object
  in an order of its own, so the statements below speak about lookups in \<open>steps\<close>, never about the
  order of its keys. The column \<open>steps\<close> holds one dictionary per step, since \<open>update_step\<close> is its
  only writer. The interface the local runner uses is the locale \<open>row_store\<close>.
\<close>

section \<open>Rows and the table\<close>

text \<open>An instant of \<open>datetime.now(UTC)\<close>, with what \<open>isoformat()\<close> prints for it.\<close>

record instant =
  in_time :: nat
  in_iso :: string

record run_row =
  rr_workflow_name :: string
  rr_status :: string
  rr_current_step :: "string option"
  rr_steps :: "pydict dict"
  rr_events :: "pydict list"
  rr_definition :: pydict
  rr_provider :: pydict
  rr_authz_context :: pydict
  rr_workflow_context :: pydict
  rr_user_id :: "string option"
  rr_session_id :: "string option"
  rr_parent_workflow_id :: "string option"
  rr_created_at :: nat
  rr_updated_at :: nat

record run_state_store =
  rs_connected :: bool
  rs_rows :: "run_row dict"

definition not_connected :: pyexc where
  "not_connected = RuntimeError ''RunStateStore not connected -- call connect() first''"

definition not_found :: "string \<Rightarrow> pyexc" where
  "not_found workflow_id = KeyError (''Workflow '' @ [sq] @ workflow_id @ [sq] @ '' not found'')"

text \<open>\<open>connect\<close>: the schema is applied and the pool opened; the rows are the database's.\<close>

definition connect :: "run_state_store \<Rightarrow> run_state_store" where
  "connect s = s\<lparr>rs_connected := True\<rparr>"

text \<open>The visible row of a workflow.\<close>

definition row_at :: "run_state_store \<Rightarrow> string \<Rightarrow> run_row option" where
  "row_at s workflow_id = (if rs_connected s then map_of (rs_rows s) workflow_id else None)"

text \<open>
  An \<open>UPDATE ... WHERE workflow_id = $1\<close> with the check of the number of rows it changed.
\<close>

definition update_row :: "string \<Rightarrow> (run_row \<Rightarrow> run_row) \<Rightarrow> run_state_store \<Rightarrow> run_state_store res" where
  "update_row workflow_id f s =
     (if \<not> rs_connected s then Err not_connected
      else case map_of (rs_rows s) workflow_id of
             None \<Rightarrow> Err (not_found workflow_id)
           | Some r \<Rightarrow> Ok (s\<lparr>rs_rows := dict_set workflow_id (f r) (rs_rows s)\<rparr>))"

section \<open>Operations\<close>

definition initial_row ::
  "instant \<Rightarrow> string \<Rightarrow> pydict \<Rightarrow> pydict \<Rightarrow> pydict \<Rightarrow> string option \<Rightarrow> string option \<Rightarrow> string option \<Rightarrow> run_row" where
  "initial_row now workflow_name definition provider authz_context user_id session_id parent_workflow_id =
     \<lparr>rr_workflow_name = workflow_name, rr_status = ''running'', rr_current_step = None,
      rr_steps = [], rr_events = [], rr_definition = definition, rr_provider = provider,
      rr_authz_context = authz_context, rr_workflow_context = [], rr_user_id = user_id,
      rr_session_id = session_id, rr_parent_workflow_id = parent_workflow_id,
      rr_created_at = in_time now, rr_updated_at = in_time now\<rparr>"

definition create ::
  "instant \<Rightarrow> string \<Rightarrow> string \<Rightarrow> pydict \<Rightarrow> pydict \<Rightarrow> pydict \<Rightarrow> string option \<Rightarrow> string option \<Rightarrow> string option
   \<Rightarrow> run_state_store \<Rightarrow> run_state_store res" where
  "create now workflow_id workflow_name definition provider authz_context user_id session_id
     parent_workflow_id s =
     (if \<not> rs_connected s then Err not_connected
      else if map_of (rs_rows s) workflow_id \<noteq> None
      then Err (ValueError (''Workflow '' @ [sq] @ workflow_id @ [sq] @ '' already exists''))
      else Ok (s\<lparr>rs_rows := rs_rows s @ [(workflow_id,
             initial_row now workflow_name definition provider authz_context user_id session_id
               parent_workflow_id)]\<rparr>))"

definition get :: "string \<Rightarrow> run_state_store \<Rightarrow> run_row option res" where
  "get workflow_id s =
     (if \<not> rs_connected s then Err not_connected else Ok (map_of (rs_rows s) workflow_id))"

definition step_data :: "string \<Rightarrow> pyval \<Rightarrow> pyval \<Rightarrow> pyval \<Rightarrow> pydict" where
  "step_data step_name status output err =
     [(''step_name'', VStr step_name), (''status'', status), (''output'', output), (''error'', err)]"

definition update_step ::
  "instant \<Rightarrow> string \<Rightarrow> string \<Rightarrow> pyval \<Rightarrow> pyval \<Rightarrow> pyval \<Rightarrow> run_state_store \<Rightarrow> run_state_store res" where
  "update_step now workflow_id step_name status output err =
     update_row workflow_id (\<lambda>r. r\<lparr>
       rr_steps := dict_set step_name (step_data step_name status output err) (rr_steps r),
       rr_current_step := Some step_name, rr_updated_at := in_time now\<rparr>)"

definition stamped :: "instant \<Rightarrow> pydict \<Rightarrow> pydict" where
  "stamped now event =
     (if map_of event ''timestamp'' = None then dict_set ''timestamp'' (VStr (in_iso now)) event else event)"

definition append_event ::
  "instant \<Rightarrow> string \<Rightarrow> pydict \<Rightarrow> run_state_store \<Rightarrow> run_state_store res" where
  "append_event now workflow_id event =
     update_row workflow_id (\<lambda>r. r\<lparr>
       rr_events := rr_events r @ [stamped now event], rr_updated_at := in_time now\<rparr>)"

definition set_status ::
  "instant \<Rightarrow> string \<Rightarrow> string \<Rightarrow> string option \<Rightarrow> run_state_store \<Rightarrow> run_state_store res" where
  "set_status now workflow_id status current_step =
     update_row workflow_id (\<lambda>r. r\<lparr>
       rr_status := status, rr_current_step := current_step, rr_updated_at := in_time now\<rparr>)"

definition set_paused :: "instant \<Rightarrow> string \<Rightarrow> string \<Rightarrow> run_state_store \<Rightarrow> run_state_store res" where
  "set_paused now workflow_id step_name = set_status now workflow_id ''paused'' (Some step_name)"

definition resume_run :: "instant \<Rightarrow> string \<Rightarrow> run_state_store \<Rightarrow> run_state_store res" where
  "resume_run now workflow_id = set_status now workflow_id ''running'' None"

definition terminal_statuses :: "string list" where
  "terminal_statuses = [''completed'', ''failed'', ''cancelled'']"

definition mark_terminal :: "instant \<Rightarrow> string \<Rightarrow> string \<Rightarrow> run_state_store \<Rightarrow> run_state_store res" where
  "mark_terminal now workflow_id status s =
     (if status \<notin> set terminal_statuses
      then Err (ValueError ([sq] @ status @ [sq] @ '' is not a terminal status''))
      else set_status now workflow_id status None s)"

definition update_workflow_context ::
  "instant \<Rightarrow> string \<Rightarrow> pydict \<Rightarrow> run_state_store \<Rightarrow> run_state_store res" where
  "update_workflow_context now workflow_id context =
     update_row workflow_id (\<lambda>r. r\<lparr>rr_workflow_context := context, rr_updated_at := in_time now\<rparr>)"

definition list_paused :: "run_state_store \<Rightarrow> string list res" where
  "list_paused s =
     (if \<not> rs_connected s then Err not_connected
      else Ok (map fst (sort_key (rr_updated_at \<circ> snd)
                 (filter (\<lambda>(w, r). rr_status r = ''paused'') (rs_rows s)))))"

definition newest_first :: "run_row dict \<Rightarrow> string list" where
  "newest_first rows = map fst (sort_key (\<lambda>(w, r). - int (rr_created_at r)) rows)"

definition list_by_user :: "string \<Rightarrow> run_state_store \<Rightarrow> string list res" where
  "list_by_user user_id s =
     (if \<not> rs_connected s then Err not_connected
      else Ok (newest_first (filter (\<lambda>(w, r). rr_user_id r = Some user_id) (rs_rows s))))"

definition list_by_session :: "string \<Rightarrow> run_state_store \<Rightarrow> string list res" where
  "list_by_session session_id s =
     (if \<not> rs_connected s then Err not_connected
      else Ok (newest_first (filter (\<lambda>(w, r). rr_session_id r = Some session_id) (rs_rows s))))"

definition delete_run :: "string \<Rightarrow> run_state_store \<Rightarrow> run_state_store res" where
  "delete_run workflow_id s =
     (if \<not> rs_connected s then Err not_connected
      else Ok (s\<lparr>rs_rows := filter (\<lambda>(w, r). w \<noteq> workflow_id) (rs_rows s)\<rparr>))"

section \<open>The interface of the runner: a store of rows\<close>

text \<open>
  What the local runner relies on: an update of a row either fails, because there is no such row,
  or changes that row by the given function and no other row.
\<close>

locale row_store =
  fixes lookup_row :: "'s \<Rightarrow> string \<Rightarrow> 'r option"
    and modify :: "string \<Rightarrow> ('r \<Rightarrow> 'r) \<Rightarrow> 's \<Rightarrow> 's res"
  assumes lookup_modify:
      "modify w f s = Ok s' \<Longrightarrow> lookup_row s' = (lookup_row s)(w := map_option f (lookup_row s w))"
    and modify_present: "is_ok (modify w f s) \<longleftrightarrow> lookup_row s w \<noteq> None"
begin

fun modify_all :: "string \<Rightarrow> ('r \<Rightarrow> 'r) list \<Rightarrow> 's \<Rightarrow> 's res" where
  "modify_all w [] s = Ok s"
| "modify_all w (f # fs) s = then_do (modify w f s) (modify_all w fs)"

lemma modified_row:
  "modify w f s = Ok s' \<Longrightarrow> lookup_row s w = Some r \<Longrightarrow> lookup_row s' w = Some (f r)"
  by (simp add: lookup_modify)

lemma other_row: "modify w f s = Ok s' \<Longrightarrow> w' \<noteq> w \<Longrightarrow> lookup_row s' w' = lookup_row s w'"
  by (simp add: lookup_modify)

lemma modify_succeeds:
  assumes "lookup_row s w = Some r"
  obtains s' where "modify w f s = Ok s'" and "lookup_row s' = (lookup_row s)(w \<mapsto> f r)"
proof -
  have "is_ok (modify w f s)" using assms by (simp add: modify_present)
  then obtain s' where "modify w f s = Ok s'" by (auto simp: is_ok_iff)
  with assms show thesis by (intro that) (auto dest: lookup_modify)
qed

text \<open>A sequence of updates of one row is one update, by the composition.\<close>

lemma lookup_modify_all:
  "modify_all w fs s = Ok s' \<Longrightarrow> lookup_row s' = (lookup_row s)(w := map_option (fold (\<lambda>f. f) fs) (lookup_row s w))"
proof (induction fs arbitrary: s)
  case (Cons f fs)
  then obtain s1 where s1: "modify w f s = Ok s1" "modify_all w fs s1 = Ok s'"
    by (auto elim: then_do_OkE)
  show ?case using Cons.IH [OF s1(2)] lookup_modify [OF s1(1)]
    by (cases "lookup_row s w") auto
qed (auto simp: map_option.id fun_upd_idem option.map_ident)

lemma modify_all_succeeds:
  assumes "lookup_row s w = Some r"
  shows "\<exists>s'. modify_all w fs s = Ok s' \<and> lookup_row s' = (lookup_row s)(w \<mapsto> fold (\<lambda>f. f) fs r)"
  using assms
proof (induction fs arbitrary: s r)
  case (Cons f fs)
  obtain s1 where s1: "modify w f s = Ok s1" "lookup_row s1 = (lookup_row s)(w \<mapsto> f r)"
    by (rule modify_succeeds [OF Cons.prems])
  obtain s' where "modify_all w fs s1 = Ok s' \<and> lookup_row s' = (lookup_row s1)(w \<mapsto> fold (\<lambda>f. f) fs (f r))"
    using Cons.IH [of s1 "f r"] s1 by fastforce
  with s1 have "modify_all w (f # fs) s = Ok s'"
    and "lookup_row s' = (lookup_row s)(w \<mapsto> fold (\<lambda>f. f) (f # fs) r)" by simp_all
  then show ?case by blast
qed auto

end

interpretation rows: row_store row_at update_row
proof
  fix w f s s'
  assume "update_row w f s = Ok s'"
  then show "row_at s' = (row_at s)(w := map_option f (row_at s w))"
    by (auto simp: update_row_def row_at_def fun_eq_iff split: if_splits option.splits)
next
  fix w f s
  show "is_ok (update_row w f s) \<longleftrightarrow> row_at s w \<noteq> None"
    by (auto simp: update_row_def row_at_def split: option.splits)
qed

lemma get_row_at: "rs_connected s \<Longrightarrow> get w s = Ok (row_at s w)"
  by (simp add: get_def row_at_def)

lemma get_Ok_iff: "get w s = Ok r \<longleftrightarrow> rs_connected s \<and> row_at s w = r"
  by (auto simp: get_def row_at_def)

lemma update_row_connected: "update_row w f s = Ok s' \<Longrightarrow> rs_connected s' = rs_connected s"
  by (auto simp: update_row_def split: if_splits option.splits)

lemma row_at_connected: "row_at s w = Some r \<Longrightarrow> rs_connected s"
  by (simp add: row_at_def split: if_splits)

lemmas row_writes = update_step_def append_event_def set_status_def set_paused_def resume_run_def
  update_workflow_context_def

section \<open>Operations as messages\<close>

datatype store_op =
    Create instant string string pydict pydict pydict "string option" "string option" "string option"
  | UpdateStep instant string string pyval pyval pyval
  | AppendEvent instant string pydict
  | SetPaused instant string string
  | ResumeRun instant string
  | MarkTerminal instant string string
  | UpdateContext instant string pydict
  | DeleteRun string

fun op_result :: "store_op \<Rightarrow> run_state_store \<Rightarrow> run_state_store res" where
  "op_result (Create now w n d p a u se pa) s = create now w n d p a u se pa s"
| "op_result (UpdateStep now w k st out err) s = update_step now w k st out err s"
| "op_result (AppendEvent now w e) s = append_event now w e s"
| "op_result (SetPaused now w k) s = set_paused now w k s"
| "op_result (ResumeRun now w) s = resume_run now w s"
| "op_result (MarkTerminal now w st) s = mark_terminal now w st s"
| "op_result (UpdateContext now w c) s = update_workflow_context now w c s"
| "op_result (DeleteRun w) s = delete_run w s"

fun op_workflow :: "store_op \<Rightarrow> string" where
  "op_workflow (Create _ w _ _ _ _ _ _ _) = w"
| "op_workflow (UpdateStep _ w _ _ _ _) = w"
| "op_workflow (AppendEvent _ w _) = w"
| "op_workflow (SetPaused _ w _) = w"
| "op_workflow (ResumeRun _ w) = w"
| "op_workflow (MarkTerminal _ w _) = w"
| "op_workflow (UpdateContext _ w _) = w"
| "op_workflow (DeleteRun w) = w"

text \<open>An operation that raises leaves the table as it was.\<close>

definition store_step :: "store_op \<Rightarrow> run_state_store \<Rightarrow> run_state_store" where
  "store_step op s = (case op_result op s of Inl _ \<Rightarrow> s | Inr s' \<Rightarrow> s')"

definition visible_row :: "run_state_store \<Rightarrow> string \<Rightarrow> bool \<times> run_row option" where
  "visible_row s w = (rs_connected s, map_of (rs_rows s) w)"

lemma visible_row_step:
  "visible_row (case update_row w f s of Inl _ \<Rightarrow> s | Inr s' \<Rightarrow> s') w'
     = (if w' = w \<and> fst (visible_row s w) then (True, map_option f (snd (visible_row s w))) else visible_row s w')"
  by (auto simp: update_row_def visible_row_def split: option.splits)

lemma map_of_snoc: "map_of (d @ [(k, v)]) k' = (case map_of d k' of None \<Rightarrow> if k' = k then Some v else None | Some x \<Rightarrow> Some x)"
  by (auto simp: map_add_def split: option.splits)

lemma map_of_filter_key: "map_of (filter (\<lambda>(w, r). w \<noteq> k) d) k' = (if k' = k then None else map_of d k')"
  by (induction d) auto

lemma visible_row_create:
  "visible_row (case create now w n d p a u se pa s of Inl _ \<Rightarrow> s | Inr s' \<Rightarrow> s') k =
     (if k = w \<and> fst (visible_row s w) \<and> snd (visible_row s w) = None
      then (True, Some (initial_row now n d p a u se pa)) else visible_row s k)"
  by (auto simp: create_def visible_row_def map_of_snoc simp del: map_of_append split: option.splits)

lemma visible_row_delete:
  "visible_row (case delete_run w s of Inl _ \<Rightarrow> s | Inr s' \<Rightarrow> s') k =
     (if k = w then (fst (visible_row s k), if fst (visible_row s k) then None else snd (visible_row s k))
      else visible_row s k)"
  by (auto simp: delete_run_def visible_row_def map_of_filter_key)

lemma visible_row_terminal:
  "visible_row (case mark_terminal now w st s of Inl _ \<Rightarrow> s | Inr s' \<Rightarrow> s') k =
     (if st \<in> set terminal_statuses
      then visible_row (case set_status now w st None s of Inl _ \<Rightarrow> s | Inr s' \<Rightarrow> s') k
      else visible_row s k)"
  by (simp add: mark_terminal_def)

lemmas visible_row_ops = visible_row_create visible_row_delete visible_row_terminal visible_row_step

interpretation by_workflow: keyed_component store_step op_workflow visible_row
proof
  fix op k s
  assume "op_workflow op \<noteq> k"
  then show "visible_row (store_step op s) k = visible_row s k"
    by (cases op) (simp_all add: store_step_def row_writes visible_row_ops)
next
  fix op k s s'
  assume "visible_row s k = visible_row s' k" and "op_workflow op = k"
  then show "visible_row (store_step op s) k = visible_row (store_step op s') k"
    by (cases op) (simp_all add: store_step_def row_writes visible_row_ops)
qed

section \<open>Properties\<close>

text \<open>
  C8. The state of a run depends on the operations of that run alone: whatever other workflows write,
  in whatever interleaving, its row is the one its own operations give.
\<close>

theorem workflows_isolated:
  assumes "filter (\<lambda>op. op_workflow op = w) ops = filter (\<lambda>op. op_workflow op = w) ops'"
  shows "row_at (fold store_step ops s) w = row_at (fold store_step ops' s) w"
  using by_workflow.interleaving_irrelevant [OF assms, of s]
  by (simp add: by_workflow.run_def visible_row_def row_at_def)

definition sample_store :: run_state_store where
  "sample_store = \<lparr>rs_connected = True, rs_rows = []\<rparr>"

theorem workflows_isolated_witness:
  "row_at (fold store_step [Create \<lparr>in_time = 1, in_iso = ''t1''\<rparr> ''a'' ''n'' [] [] [] None None None,
       Create \<lparr>in_time = 2, in_iso = ''t2''\<rparr> ''b'' ''n'' [] [] [] None None None,
       SetPaused \<lparr>in_time = 3, in_iso = ''t3''\<rparr> ''a'' ''gate'',
       MarkTerminal \<lparr>in_time = 4, in_iso = ''t4''\<rparr> ''b'' ''failed''] sample_store) ''a''
   = row_at (fold store_step [Create \<lparr>in_time = 1, in_iso = ''t1''\<rparr> ''a'' ''n'' [] [] [] None None None,
       SetPaused \<lparr>in_time = 3, in_iso = ''t3''\<rparr> ''a'' ''gate''] sample_store) ''a''"
  by (rule workflows_isolated) simp

lemma list_paused_facts:
  assumes "wf_dict (rs_rows s)" and "list_paused s = Ok ws"
  shows "distinct ws"
    and "set ws = {w. \<exists>r. row_at s w = Some r \<and> rr_status r = ''paused''}"
    and "sorted (map (\<lambda>w. rr_updated_at (the (row_at s w))) ws)"
proof -
  let ?p = "filter (\<lambda>(w, r). rr_status r = ''paused'') (rs_rows s)"
  let ?q = "sort_key (rr_updated_at \<circ> snd) ?p"
  from assms(2) have con: "rs_connected s" and ws: "ws = map fst ?q"
    by (simp_all add: list_paused_def split: if_splits)
  have dist: "distinct (map fst (rs_rows s))" using assms(1) by (simp add: wf_dict_def)
  then have "distinct (map fst ?p)" by (simp add: distinct_map_filter)
  moreover have "distinct (map fst ?q) = distinct (map fst ?p)"
    by (rule mset_eq_imp_distinct_iff) (simp only: mset_map mset_sort)
  ultimately show "distinct ws" unfolding ws by blast
  have row: "row_at s w = Some r" if "(w, r) \<in> set ?q" for w r
    using that con dist by (auto simp: row_at_def)
  have "set ws = fst ` set ?p" by (simp add: ws)
  also have "\<dots> = {w. \<exists>r. row_at s w = Some r \<and> rr_status r = ''paused''}"
  proof (rule set_eqI)
    fix w
    have "w \<in> fst ` set ?p \<longleftrightarrow> (\<exists>r. (w, r) \<in> set (rs_rows s) \<and> rr_status r = ''paused'')"
      by (simp add: image_iff Bex_def)
    then show "w \<in> fst ` set ?p \<longleftrightarrow> w \<in> {w. \<exists>r. row_at s w = Some r \<and> rr_status r = ''paused''}"
      using con dist by (simp add: row_at_def map_of_eq_Some_iff)
  qed
  finally show "set ws = {w. \<exists>r. row_at s w = Some r \<and> rr_status r = ''paused''}" .
  have "map (\<lambda>w. rr_updated_at (the (row_at s w))) ws = map (rr_updated_at \<circ> snd) ?q"
    unfolding ws map_map
  proof (rule map_cong)
    fix x assume "x \<in> set ?q"
    then have "row_at s (fst x) = Some (snd x)" using row [of "fst x" "snd x"] by simp
    then show "((\<lambda>w. rr_updated_at (the (row_at s w))) \<circ> fst) x = (rr_updated_at \<circ> snd) x" by simp
  qed simp
  then show "sorted (map (\<lambda>w. rr_updated_at (the (row_at s w))) ws)"
    by (simp only: sorted_sort_key)
qed


text \<open>
  Recovery finds exactly the paused runs, the longest paused first: the answer of \<open>list_paused\<close> has
  every workflow whose row is paused, once, in the order of its last update.
\<close>

theorem list_paused_exact:
  assumes "wf_dict (rs_rows s)" and "list_paused s = Ok ws"
  shows "distinct ws \<and> set ws = {w. \<exists>r. row_at s w = Some r \<and> rr_status r = ''paused''}
    \<and> sorted (map (\<lambda>w. rr_updated_at (the (row_at s w))) ws)"
  using list_paused_facts [OF assms] by blast

definition paused_store :: run_state_store where
  "paused_store = \<lparr>rs_connected = True, rs_rows =
     [(''a'', (initial_row \<lparr>in_time = 1, in_iso = ''t1''\<rparr> ''n'' [] [] [] None None None)
               \<lparr>rr_status := ''paused'', rr_updated_at := 7\<rparr>),
      (''b'', initial_row \<lparr>in_time = 2, in_iso = ''t2''\<rparr> ''n'' [] [] [] None None None),
      (''c'', (initial_row \<lparr>in_time = 3, in_iso = ''t3''\<rparr> ''n'' [] [] [] None None None)
               \<lparr>rr_status := ''paused'', rr_updated_at := 5\<rparr>)]\<rparr>"

theorem list_paused_exact_witness:
  "list_paused paused_store = Ok [''c'', ''a'']
   \<and> {w. \<exists>r. row_at paused_store w = Some r \<and> rr_status r = ''paused''} = {''c'', ''a''}"
proof -
  have wf: "wf_dict (rs_rows paused_store)" by (simp add: paused_store_def wf_dict_def)
  have run: "list_paused paused_store = Ok [''c'', ''a'']" by code_simp
  show ?thesis using run list_paused_exact [OF wf run] by auto
qed

end
