(* ===== verification/LocalRunner.thy ===== *)
theory LocalRunner
  imports TemporalWorkflow RunStateStore
begin

text \<open>
  The in-process runner: the translation of a definition into a chain of graph nodes
  (\<open>executor/graph_translator.py\<close>), the choice of a step executor (\<open>executor/step/dispatch.py\<close>) and
  the runner with its pauses and resumptions (\<open>executor/local/executor.py\<close>).

  What is not this code is a field of the record \<open>local_env\<close>: the step executors with their
  middleware (one attempt: a result or the text of an exception), the clock, the delivery of a
  cancellation, the trace context, and the third-party graph engine. Of the engine the runner sees
  what the successive calls of \<open>run.next()\<close> return: lists of tasks, and the end marker after the
  last one; a call runs the tasks of the previous answer. The laws the runner relies on are the
  locale \<open>graph_engine\<close>. An exception of an executor is a \<open>RuntimeError\<close> with its text here. Step
  names and output keys are text, as the definition schema demands; other values raise.
\<close>

section \<open>Graph state\<close>

record graph_state =
  gs_workflow_id :: string
  gs_workflow_name :: pyval
  gs_step_defs :: "pydict dict"
  gs_step_results :: "pydict dict"
  gs_provider :: pydict
  gs_sandbox_image :: pyval
  gs_skills_image :: pyval
  gs_skills_paths :: pyval
  gs_mcp_servers :: pyval
  gs_approval_policy :: pyval
  gs_user_id :: pyval
  gs_trace_parent :: pyval
  gs_resume_trace_parent :: pyval
  gs_session_id :: pyval
  gs_paused_at_step :: "string option"
  gs_workflow_defaults :: pydict

datatype step_executor = DirectExecutor | SubprocessExecutor | SandboxExecutor

record exec_result =
  ex_status :: string
  ex_output :: pyval
  ex_error :: "string option"

record 'w local_env =
  le_platform :: platform
  le_spawner :: bool
  le_tools_module :: pyval
  le_attempt :: "step_executor \<Rightarrow> step_input \<Rightarrow> nat \<Rightarrow> 'w \<Rightarrow> (string, exec_result) outcome \<times> 'w"
  le_trace_parent :: "'w \<Rightarrow> pyval"
  le_now :: "'w \<Rightarrow> instant"
  le_cancelled :: "'w \<Rightarrow> bool"
  le_yields :: "string list \<Rightarrow> string list list"

section \<open>Choice of the executor (step/dispatch.py)\<close>

definition get_step_executor :: "pydict \<Rightarrow> bool \<Rightarrow> step_executor res" where
  "get_step_executor step spawner =
     (let mode = dget_or step ''spawn'' (VStr ''ephemeral'');
          step_name = dget_or step ''name'' (VStr ''unknown'') in
        if mode = VStr ''none'' then Ok DirectExecutor
        else if mode = VStr ''local'' then Ok SubprocessExecutor
        else if mode = VStr ''ephemeral'' then
          if \<not> spawner then
            Err (ValueError (''Step '' @ [sq] @ py_str step_name @ [sq] @ '' requires spawn: ephemeral but no spawner ''
              @ ''is configured. Either deploy an OpenShell gateway and set ''
              @ ''OPENSHELL_GATEWAY_URL, or change the step to spawn: local or spawn: none.''))
          else Ok SandboxExecutor
        else Err (ValueError (''Unknown spawn mode '' @ [sq] @ py_str mode @ [sq] @ '' for step '' @ [sq]
               @ py_str step_name @ [sq] @ ''. Valid values: none, local, ephemeral.'')))"

section \<open>Building the graph\<close>

text \<open>A node is a step name with the kind of handler that was registered for it.\<close>

datatype node_kind = AgentNode | ApprovalNode

fun list_or_raise :: "pyval \<Rightarrow> pyval list res" where
  "list_or_raise (VList xs) = Ok xs"
| "list_or_raise _ = Err (TypeError ''steps'')"

definition node_of :: "pydict \<Rightarrow> (string \<times> node_kind) res" where
  "node_of step =
     then_do (text_at step ''name'') (\<lambda>step_name.
       Ok (step_name, if dget_or step ''type'' (VStr ''agent'') = VStr ''human-approval''
                      then ApprovalNode else AgentNode))"

fun step_defs_of :: "pydict list \<Rightarrow> pydict dict \<Rightarrow> pydict dict res" where
  "step_defs_of [] defs = Ok defs"
| "step_defs_of (step # steps) defs =
     then_do (text_at step ''name'') (\<lambda>n. step_defs_of steps (dict_set n step defs))"

definition graph_steps :: "pydict \<Rightarrow> pydict list res" where
  "graph_steps definition =
     then_do (as_dict (dget_or definition ''spec'' (VDict []))) (\<lambda>spec.
     then_do (list_or_raise (dget_or spec ''steps'' (VList []))) (\<lambda>raw.
     then_do (map_res as_dict raw) (\<lambda>steps.
       if length steps = 1
       then then_do (apply_one_step_defaults (hd steps) 1) (\<lambda>s. Ok [s]) else Ok steps)))"

record run_args =
  ra_provider :: pydict
  ra_sandbox_image :: pyval
  ra_skills_image :: pyval
  ra_skills_paths :: pyval
  ra_mcp_servers :: pyval
  ra_approval_policy :: pyval
  ra_user_id :: pyval
  ra_session_id :: pyval

definition build_graph ::
  "pydict \<Rightarrow> string \<Rightarrow> run_args \<Rightarrow> ((string \<times> node_kind) list \<times> graph_state) res" where
  "build_graph definition workflow_id args =
     then_do (graph_steps definition) (\<lambda>steps.
     then_do (as_dict (dget_or definition ''metadata'' (VDict []))) (\<lambda>metadata.
     then_do (step_defs_of steps []) (\<lambda>step_defs.
     then_do (workflow_defaults_from_definition definition) (\<lambda>definition_defaults.
     then_do (map_res node_of steps) (\<lambda>nodes.
       Ok (nodes,
         \<lparr>gs_workflow_id = workflow_id, gs_workflow_name = dget_or metadata ''name'' (VStr ''unnamed''),
          gs_step_defs = step_defs, gs_step_results = [], gs_provider = ra_provider args,
          gs_sandbox_image = ra_sandbox_image args, gs_skills_image = ra_skills_image args,
          gs_skills_paths = ra_skills_paths args, gs_mcp_servers = ra_mcp_servers args,
          gs_approval_policy = ra_approval_policy args, gs_user_id = ra_user_id args,
          gs_trace_parent = VNone, gs_resume_trace_parent = VNone, gs_session_id = ra_session_id args,
          gs_paused_at_step = None, gs_workflow_defaults = definition_defaults\<rparr>))))))"

section \<open>Step handlers\<close>

definition paused :: "graph_state \<Rightarrow> bool" where
  "paused gs = (case gs_paused_at_step gs of None \<Rightarrow> False | Some n \<Rightarrow> n \<noteq> [])"

definition set_result :: "string \<Rightarrow> pydict \<Rightarrow> graph_state \<Rightarrow> graph_state" where
  "set_result output_key r gs = gs\<lparr>gs_step_results := dict_set output_key r (gs_step_results gs)\<rparr>"

definition result_at :: "graph_state \<Rightarrow> string \<Rightarrow> pydict" where
  "result_at gs output_key = (case map_of (gs_step_results gs) output_key of None \<Rightarrow> [] | Some r \<Rightarrow> r)"

fun key_text :: "pyval \<Rightarrow> string res" where
  "key_text (VStr s) = Ok s"
| "key_text _ = Err (TypeError ''output_key'')"

definition output_key_of :: "graph_state \<Rightarrow> string \<Rightarrow> (pydict \<times> string) res" where
  "output_key_of gs step_name =
     (case map_of (gs_step_defs gs) step_name of
        None \<Rightarrow> Err (KeyError step_name)
      | Some step_def \<Rightarrow>
          then_do (key_text (dget_or step_def ''output_key'' (VStr step_name))) (\<lambda>k. Ok (step_def, k)))"

text \<open>\<open>_to_workflow_state\<close>: every result is validated as a \<open>StepResult\<close>, so an unknown status raises.\<close>

definition to_step_result ::
  "(ptype \<Rightarrow> pyval \<Rightarrow> pyval res) \<Rightarrow> string \<times> pydict \<Rightarrow> (string \<times> core_step_result) res" where
  "to_step_result validate = (\<lambda>(key, result).
     then_do (validate CoreStepResult (VDict
        [(''step_name'', VStr key), (''status'', dget_or result ''status'' (VStr ''completed'')),
         (''output'', dget result ''output''), (''error'', dget result ''error'')])) (\<lambda>r.
     then_do (as_dict r) (\<lambda>d.
       Ok (key, \<lparr>cr_step_name = key, cr_status = status_of (dget d ''status''),
                 cr_output = (case dget d ''output'' of VDict o' \<Rightarrow> Some o' | _ \<Rightarrow> None),
                 cr_error = opt_str (dget d ''error'')\<rparr>))))"

definition to_workflow_state ::
  "(ptype \<Rightarrow> pyval \<Rightarrow> pyval res) \<Rightarrow> graph_state \<Rightarrow> workflow_state res" where
  "to_workflow_state validate gs =
     then_do (map_res (to_step_result validate) (gs_step_results gs)) (\<lambda>steps.
     then_do (validate (PStr 0) (gs_workflow_name gs)) (\<lambda>name.
       Ok \<lparr>ws_workflow_id = gs_workflow_id gs, ws_workflow_name = py_str name, ws_status = RunRunning,
           ws_current_step = None, ws_steps = steps\<rparr>))"

text \<open>The condition of a step; an absent or empty one always holds.\<close>

definition condition_met :: "pyval \<Rightarrow> workflow_state \<Rightarrow> bool res" where
  "condition_met condition wf_state =
     (case condition of
        VStr c \<Rightarrow> if c = [] then Ok True else evaluate_condition c wf_state
      | _ \<Rightarrow> if truthy condition then Err (TypeError ''condition'') else Ok True)"

definition step_run_context :: "'w local_env \<Rightarrow> graph_state \<Rightarrow> pydict" where
  "step_run_context env gs =
     [(''provider'', VDict (gs_provider gs)), (''sandbox_image'', gs_sandbox_image gs),
      (''skills_image'', gs_skills_image gs), (''skills_paths'', gs_skills_paths gs),
      (''mcp_servers'', gs_mcp_servers gs), (''workflow_id'', VStr (gs_workflow_id gs)),
      (''step_results'', VDict (map (\<lambda>(k, r). (k, VDict r)) (gs_step_results gs))),
      (''user_id'', gs_user_id gs), (''session_id'', gs_session_id gs),
      (''tools_module'', le_tools_module env)]"

fun local_retries :: "pyval \<Rightarrow> int" where
  "local_retries (VInt i) = (if 0 \<le> i then i else 0)"
| "local_retries (VBool b) = bool_int b"
| "local_retries _ = 0"

text \<open>
  The handler of an agent step from the construction of the executor input on. The state of the
  retry loop is the environment with the number of attempts made.
\<close>

definition run_agent ::
  "'w local_env \<Rightarrow> pydict \<Rightarrow> string \<Rightarrow> graph_state \<Rightarrow> 'w \<Rightarrow> unit res \<times> graph_state \<times> 'w" where
  "run_agent env step_def output_key gs w =
     (let pf = le_platform env in
      case build_step_input (pf_validate pf) (pf_dump pf) (pf_bracketed_ok pf) step_def
             (step_run_context env gs) (gs_workflow_defaults gs) (int (length (gs_step_defs gs))) of
        Inl (ValueError m) \<Rightarrow>
          (Ok (), set_result output_key [(''status'', VStr ''failed''), (''error'', VStr m)] gs, w)
      | Inl e \<Rightarrow> (Err e, gs, w)
      | Inr step_input \<Rightarrow>
          (case get_step_executor (if si_raw_step step_input = [] then step_def else si_raw_step step_input)
                  (le_spawner env) of
             Inl e \<Rightarrow> (Err e, gs, w)
           | Inr executor \<Rightarrow>
               let gs1 = (if truthy (gs_resume_trace_parent gs) then gs\<lparr>gs_resume_trace_parent := VNone\<rparr> else gs);
                   attempt = (\<lambda>(w, n). case le_attempt env executor step_input (Suc n) w of
                                          (out, w') \<Rightarrow> (out, (w', Suc n))) in
                 (case run_with_retries attempt (local_retries (dget_or step_def ''max_retries'' (VInt 0)))
                         (\<lambda>r. ex_status r = ''completed'') ex_error (\<lambda>t. t) (w, 0) of
                    (Some (Returned r), (w', _), _) \<Rightarrow>
                      (Ok (), set_result output_key
                         [(''status'', VStr (ex_status r)), (''output'', ex_output r),
                          (''error'', case ex_error r of None \<Rightarrow> VNone | Some t \<Rightarrow> VStr t)]
                         (gs1\<lparr>gs_trace_parent := le_trace_parent env w'\<rparr>), w')
                  | (Some (Raised t), (w', _), _) \<Rightarrow> (Err (RuntimeError t), gs1, w')
                  | (None, (w', _), _) \<Rightarrow> (Err (RuntimeError ''AssertionError''), gs1, w'))))"

definition agent_step ::
  "'w local_env \<Rightarrow> string \<Rightarrow> graph_state \<Rightarrow> 'w \<Rightarrow> unit res \<times> graph_state \<times> 'w" where
  "agent_step env step_name gs w =
     (case output_key_of gs step_name of
        Inl e \<Rightarrow> (Err e, gs, w)
      | Inr (step_def, output_key) \<Rightarrow>
          let existing = result_at gs output_key in
          if dget existing ''status'' \<in> {VStr ''completed'', VStr ''failed''} then (Ok (), gs, w)
          else if paused gs then
            (Ok (), set_result output_key
               [(''status'', VStr ''skipped''), (''reason'', VStr ''workflow_paused'')] gs, w)
          else
            (case then_do (to_workflow_state (pf_validate (le_platform env)) gs)
                    (condition_met (dget step_def ''condition'')) of
               Inl e \<Rightarrow> (Err e, gs, w)
             | Inr False \<Rightarrow> (Ok (), set_result output_key [(''status'', VStr ''skipped'')] gs, w)
             | Inr True \<Rightarrow> run_agent env step_def output_key gs w))"

text \<open>The message of an approval step.\<close>

definition approval_message :: "(ptype \<Rightarrow> pyval \<Rightarrow> pyval res) \<Rightarrow> pyval \<Rightarrow> graph_state \<Rightarrow> pyval res" where
  "approval_message validate raw_message gs =
     (if truthy raw_message
      then then_do (to_workflow_state validate gs) (interpolate_step_text raw_message)
      else Ok VNone)"

definition auto_approve :: "pyval \<Rightarrow> bool res" where
  "auto_approve policy =
     (if truthy policy
      then then_do (as_dict policy) (\<lambda>d. Ok (truthy (dget_or d ''auto_approve'' (VBool False)))) else Ok False)"

definition approval_step ::
  "'w local_env \<Rightarrow> string \<Rightarrow> graph_state \<Rightarrow> 'w \<Rightarrow> unit res \<times> graph_state \<times> 'w" where
  "approval_step env step_name gs w =
     (case output_key_of gs step_name of
        Inl e \<Rightarrow> (Err e, gs, w)
      | Inr (step_def, output_key) \<Rightarrow>
          if dget (result_at gs output_key) ''status'' = VStr ''completed'' then (Ok (), gs, w)
          else (case auto_approve (gs_approval_policy gs) of
             Inl e \<Rightarrow> (Err e, gs, w)
           | Inr True \<Rightarrow>
               (Ok (), set_result output_key [(''status'', VStr ''completed''),
                  (''output'', VDict [(''approved'', VBool True), (''auto_approved'', VBool True)])] gs, w)
           | Inr False \<Rightarrow>
               (case approval_message (pf_validate (le_platform env)) (dget step_def ''message'') gs of
                  Inl e \<Rightarrow> (Err e, gs, w)
                | Inr message \<Rightarrow>
                    (Ok (), set_result output_key
                       [(''status'', VStr ''awaiting_approval''),
                        (''output'', if truthy message then VDict [(''message'', message)] else VNone)]
                       (gs\<lparr>gs_paused_at_step := Some step_name\<rparr>), w))))"

section \<open>Running a segment (local/executor.py)\<close>

definition run_node ::
  "'w local_env \<Rightarrow> (string \<times> node_kind) list \<Rightarrow> string \<Rightarrow> graph_state \<Rightarrow> 'w \<Rightarrow> unit res \<times> graph_state \<times> 'w" where
  "run_node env nodes n gs w =
     (case map_of nodes n of
        None \<Rightarrow> (Ok (), gs, w)
      | Some AgentNode \<Rightarrow> agent_step env n gs w
      | Some ApprovalNode \<Rightarrow> approval_step env n gs w)"

fun run_tasks ::
  "'w local_env \<Rightarrow> (string \<times> node_kind) list \<Rightarrow> string list \<Rightarrow> graph_state \<Rightarrow> 'w \<Rightarrow> unit res \<times> graph_state \<times> 'w" where
  "run_tasks env nodes [] gs w = (Ok (), gs, w)"
| "run_tasks env nodes (n # ns) gs w =
     (case run_node env nodes n gs w of
        (Inl e, gs', w') \<Rightarrow> (Inl e, gs', w')
      | (Inr _, gs', w') \<Rightarrow> run_tasks env nodes ns gs' w')"

definition failed_steps :: "graph_state \<Rightarrow> string list" where
  "failed_steps gs =
     map fst (filter (\<lambda>(k, r). dget r ''status'' \<in> {VStr ''failed'', VStr ''denied''}) (gs_step_results gs))"

text \<open>Every store access is guarded by \<open>if self._store\<close>.\<close>

fun with_store ::
  "(run_state_store \<Rightarrow> run_state_store res) \<Rightarrow> run_state_store option \<Rightarrow> run_state_store option res" where
  "with_store f None = Ok None"
| "with_store f (Some s) = then_do (f s) (\<lambda>s'. Ok (Some s'))"

definition event :: "string \<Rightarrow> pydict \<Rightarrow> pydict" where
  "event ty rest = (''type'', VStr ty) # rest"

fun note_started :: "instant \<Rightarrow> string \<Rightarrow> string list \<Rightarrow> run_state_store \<Rightarrow> run_state_store res" where
  "note_started now workflow_id [] s = Ok s"
| "note_started now workflow_id (n # ns) s =
     (if prefix ''__'' n then note_started now workflow_id ns s
      else then_do (append_event now workflow_id (event ''step.started'' [(''step'', VStr n)]) s)
             (note_started now workflow_id ns))"

fun persist_steps :: "instant \<Rightarrow> string \<Rightarrow> (string \<times> pydict) list \<Rightarrow> run_state_store \<Rightarrow> run_state_store res" where
  "persist_steps now workflow_id [] s = Ok s"
| "persist_steps now workflow_id ((key, r) # rs) s =
     then_do (update_step now workflow_id key (dget_or r ''status'' (VStr ''completed''))
                (dget r ''output'') (dget r ''error'') s)
       (persist_steps now workflow_id rs)"

text \<open>What is persisted after each call of \<open>run.next()\<close>: the results whose keys are new.\<close>

definition new_results :: "string list \<Rightarrow> graph_state \<Rightarrow> (string \<times> pydict) list" where
  "new_results persisted gs = filter (\<lambda>(k, r). k \<notin> set persisted) (gs_step_results gs)"

definition note_progress ::
  "instant \<Rightarrow> string \<Rightarrow> string list \<Rightarrow> string list \<Rightarrow> graph_state \<Rightarrow> run_state_store \<Rightarrow> run_state_store res" where
  "note_progress now workflow_id tasks persisted gs s =
     then_do (note_started now workflow_id tasks s) (persist_steps now workflow_id (new_results persisted gs))"

definition note_failed ::
  "instant \<Rightarrow> string \<Rightarrow> string list \<Rightarrow> run_state_store \<Rightarrow> run_state_store res" where
  "note_failed now workflow_id failed s =
     then_do (append_event now workflow_id
        (event ''workflow.failed'' [(''steps'', VList (map VStr failed))]) s)
       (mark_terminal now workflow_id ''failed'')"

definition persist_trace_parent ::
  "instant \<Rightarrow> string \<Rightarrow> pyval \<Rightarrow> run_state_store \<Rightarrow> run_state_store" where
  "persist_trace_parent now workflow_id trace_parent s =
     (case then_do (get workflow_id s) (\<lambda>existing.
             update_workflow_context now workflow_id
               (dict_set ''trace_parent'' trace_parent
                  (case existing of None \<Rightarrow> [] | Some r \<Rightarrow> rr_workflow_context r)) s) of
        Inl _ \<Rightarrow> s
      | Inr s' \<Rightarrow> s')"

definition note_paused ::
  "instant \<Rightarrow> string \<Rightarrow> pyval \<Rightarrow> string \<Rightarrow> run_state_store \<Rightarrow> run_state_store res" where
  "note_paused now workflow_id trace_parent step s =
     (let s1 = (if truthy trace_parent then persist_trace_parent now workflow_id trace_parent s else s) in
        then_do (set_paused now workflow_id step s1)
          (append_event now workflow_id (event ''workflow.paused'' [(''step'', VStr step)])))"

definition note_completed :: "instant \<Rightarrow> string \<Rightarrow> run_state_store \<Rightarrow> run_state_store res" where
  "note_completed now workflow_id s =
     then_do (append_event now workflow_id (event ''workflow.completed'' []) s)
       (mark_terminal now workflow_id ''completed'')"

definition note_crashed :: "instant \<Rightarrow> string \<Rightarrow> pyexc \<Rightarrow> run_state_store \<Rightarrow> run_state_store res" where
  "note_crashed now workflow_id exc s =
     then_do (append_event now workflow_id (event ''workflow.failed'' [(''error'', VStr (exc_str exc))]) s)
       (mark_terminal now workflow_id ''failed'')"

datatype segment_end =
    SegCompleted
  | SegFailed
  | SegPaused string
  | SegCancelled
  | SegCrashed pyexc

type_synonym 'w segment = "segment_end \<times> graph_state \<times> run_state_store option \<times> 'w"

text \<open>
  Leaving a segment: the bookkeeping of that exit, and if it fails the \<open>except Exception\<close> branch,
  whose own failure ends the task and leaves the store as it is. A row never disappears between two
  writes of one exit, so a group of writes fails at its first one or not at all.
\<close>

definition crash_segment ::
  "'w local_env \<Rightarrow> string \<Rightarrow> pyexc \<Rightarrow> graph_state \<Rightarrow> run_state_store option \<Rightarrow> 'w \<Rightarrow> 'w segment" where
  "crash_segment env workflow_id exc gs st w =
     (case with_store (note_crashed (le_now env w) workflow_id exc) st of
        Inl _ \<Rightarrow> (SegCrashed exc, gs, st, w)
      | Inr st' \<Rightarrow> (SegCrashed exc, gs, st', w))"

definition leave_segment ::
  "'w local_env \<Rightarrow> string \<Rightarrow> segment_end \<Rightarrow> (run_state_store \<Rightarrow> run_state_store res)
   \<Rightarrow> graph_state \<Rightarrow> run_state_store option \<Rightarrow> 'w \<Rightarrow> 'w segment" where
  "leave_segment env workflow_id out note gs st w =
     (case with_store note st of
        Inl e \<Rightarrow> crash_segment env workflow_id e gs st w
      | Inr st' \<Rightarrow> (out, gs, st', w))"

definition cancel_segment ::
  "'w local_env \<Rightarrow> string \<Rightarrow> graph_state \<Rightarrow> run_state_store option \<Rightarrow> 'w \<Rightarrow> 'w segment" where
  "cancel_segment env workflow_id gs st w =
     (case with_store (mark_terminal (le_now env w) workflow_id ''cancelled'') st of
        Inl e \<Rightarrow> (SegCrashed e, gs, st, w)
      | Inr st' \<Rightarrow> (SegCancelled, gs, st', w))"

text \<open>
  The loop of \<open>_execute\<close>: \<open>pending\<close> are the tasks the last call of \<open>run.next()\<close> returned, the list
  after it what the remaining calls return. A cancellation is delivered while the tasks run.
\<close>

fun execute_loop ::
  "'w local_env \<Rightarrow> string \<Rightarrow> (string \<times> node_kind) list \<Rightarrow> string list \<Rightarrow> string list list \<Rightarrow> string list
   \<Rightarrow> graph_state \<Rightarrow> run_state_store option \<Rightarrow> 'w \<Rightarrow> 'w segment" where
  "execute_loop env workflow_id nodes pending upcoming persisted gs st w =
     (case run_tasks env nodes pending gs w of
        (r, gs, w) \<Rightarrow>
          if le_cancelled env w then cancel_segment env workflow_id gs st w
          else case r of
            Inl e \<Rightarrow> crash_segment env workflow_id e gs st w
          | Inr _ \<Rightarrow>
            (case upcoming of
               [] \<Rightarrow> leave_segment env workflow_id SegCompleted (note_completed (le_now env w) workflow_id) gs st w
             | tasks # upcoming \<Rightarrow>
                 (case with_store (note_progress (le_now env w) workflow_id tasks persisted gs) st of
                    Inl e \<Rightarrow> crash_segment env workflow_id e gs st w
                  | Inr st \<Rightarrow>
                      if failed_steps gs \<noteq> [] then
                        leave_segment env workflow_id SegFailed
                          (note_failed (le_now env w) workflow_id (failed_steps gs)) gs st w
                      else if paused gs then
                        leave_segment env workflow_id (SegPaused (the (gs_paused_at_step gs)))
                          (note_paused (le_now env w) workflow_id (gs_trace_parent gs)
                             (the (gs_paused_at_step gs))) gs st w
                      else execute_loop env workflow_id nodes tasks upcoming
                             (keys (gs_step_results gs) @ persisted) gs st w)))"

declare execute_loop.simps [simp del]

definition execute ::
  "'w local_env \<Rightarrow> string \<Rightarrow> (string \<times> node_kind) list \<Rightarrow> graph_state \<Rightarrow> run_state_store option \<Rightarrow> 'w \<Rightarrow> 'w segment" where
  "execute env workflow_id nodes gs st w =
     execute_loop env workflow_id nodes [] (le_yields env (map fst nodes)) (keys (gs_step_results gs)) gs st w"

section \<open>The runner\<close>

text \<open>
  \<open>_running\<close> holds the tasks that were launched: for each the graph and the graph state it runs on.
  The lock of a workflow makes \<open>approve\<close> atomic; a launched task runs one segment.
\<close>

record local_runner =
  lr_store :: "run_state_store option"
  lr_running :: "((string \<times> node_kind) list \<times> graph_state) dict"

definition launch ::
  "string \<Rightarrow> (string \<times> node_kind) list \<Rightarrow> graph_state \<Rightarrow> local_runner \<Rightarrow> local_runner" where
  "launch workflow_id nodes gs lr = lr\<lparr>lr_running := dict_set workflow_id (nodes, gs) (lr_running lr)\<rparr>"

definition initial_context :: "pydict \<Rightarrow> pydict" where
  "initial_context input =
     [(''sandbox_image'', dget_or input ''sandbox_image'' (VStr ''sandbox:latest'')),
      (''skills_image'', dget input ''skills_image''), (''skills_paths'', dget input ''skills_paths''),
      (''mcp_servers'', dget input ''mcp_servers''), (''approval_policy'', dget input ''approval_policy'')]"

definition args_of_input :: "pydict \<Rightarrow> pydict \<Rightarrow> run_args" where
  "args_of_input provider input =
     \<lparr>ra_provider = provider, ra_sandbox_image = dget_or input ''sandbox_image'' (VStr ''sandbox:latest''),
      ra_skills_image = dget input ''skills_image'', ra_skills_paths = dget input ''skills_paths'',
      ra_mcp_servers = dget input ''mcp_servers'', ra_approval_policy = dget input ''approval_policy'',
      ra_user_id = dget input ''user_id'', ra_session_id = dget input ''session_id''\<rparr>"

definition start ::
  "instant \<Rightarrow> string \<Rightarrow> pydict \<Rightarrow> local_runner \<Rightarrow> string res \<times> local_runner" where
  "start now fresh_id input lr =
     (let workflow_id = (if truthy (dget input ''workflow_id'') then py_str (dget input ''workflow_id'')
                         else fresh_id) in
      case then_do (then_do (item_at input ''definition'') as_dict) (\<lambda>definition.
           then_do (as_dict (dget_or input ''provider'' (VDict []))) (\<lambda>provider.
           then_do (as_dict (dget_or definition ''metadata'' (VDict []))) (\<lambda>metadata.
           then_do (key_text (dget_or metadata ''name'' (VStr ''unnamed''))) (\<lambda>workflow_name.
           then_do (as_dict (dget_or input ''authz_context'' (VDict []))) (\<lambda>authz_context.
           then_do (with_store (\<lambda>s. then_do
                (create now workflow_id workflow_name definition provider authz_context
                   (opt_str (dget input ''user_id'')) (opt_str (dget input ''session_id''))
                   (opt_str (dget input ''parent_workflow_id'')) s)
                (update_workflow_context now workflow_id (initial_context input))) (lr_store lr)) (\<lambda>st.
             Ok (definition, provider, st))))))) of
        Inl e \<Rightarrow> (Err e, lr)
      | Inr (definition, provider, st) \<Rightarrow>
          (case build_graph definition workflow_id (args_of_input provider input) of
             Inl e \<Rightarrow> (Err e, lr\<lparr>lr_store := st\<rparr>)
           | Inr (nodes, gs) \<Rightarrow> (Ok workflow_id, launch workflow_id nodes gs (lr\<lparr>lr_store := st\<rparr>))))"

text \<open>The task of a workflow runs its segment and leaves \<open>_running\<close>.\<close>

definition run_task ::
  "'w local_env \<Rightarrow> string \<Rightarrow> local_runner \<Rightarrow> 'w \<Rightarrow> (segment_end \<times> local_runner \<times> 'w) option" where
  "run_task env workflow_id lr w =
     (case map_of (lr_running lr) workflow_id of
        None \<Rightarrow> None
      | Some (nodes, gs) \<Rightarrow>
          (case execute env workflow_id nodes gs (lr_store lr) w of
             (out, _, st, w') \<Rightarrow>
               Some (out, lr\<lparr>lr_store := st,
                             lr_running := filter (\<lambda>(k, v). k \<noteq> workflow_id) (lr_running lr)\<rparr>, w')))"

definition args_of_row :: "run_row \<Rightarrow> run_args" where
  "args_of_row r =
     (let ctx = rr_workflow_context r;
          opt = (\<lambda>x. case x of None \<Rightarrow> VNone | Some s \<Rightarrow> VStr s) in
        \<lparr>ra_provider = rr_provider r, ra_sandbox_image = dget_or ctx ''sandbox_image'' (VStr ''sandbox:latest''),
         ra_skills_image = dget ctx ''skills_image'', ra_skills_paths = dget ctx ''skills_paths'',
         ra_mcp_servers = dget ctx ''mcp_servers'', ra_approval_policy = dget ctx ''approval_policy'',
         ra_user_id = opt (rr_user_id r), ra_session_id = opt (rr_session_id r)\<rparr>)"

definition resume_from_store :: "string \<Rightarrow> run_state_store \<Rightarrow> local_runner \<Rightarrow> unit res \<times> local_runner" where
  "resume_from_store workflow_id s lr =
     (case get workflow_id s of
        Inl e \<Rightarrow> (Err e, lr)
      | Inr None \<Rightarrow> (Ok (), lr)
      | Inr (Some r) \<Rightarrow>
          (case build_graph (rr_definition r) workflow_id (args_of_row r) of
             Inl e \<Rightarrow> (Err e, lr)
           | Inr (nodes, gs) \<Rightarrow>
               let gs = gs\<lparr>gs_resume_trace_parent := dget (rr_workflow_context r) ''trace_parent'',
                           gs_paused_at_step := None,
                           gs_step_results := dict_merge (gs_step_results gs) (rr_steps r)\<rparr> in
                 if rr_status r = ''cancelled'' then (Ok (), lr)
                 else (Ok (), launch workflow_id nodes gs lr)))"

text \<open>\<open>_approve_inner\<close> up to the writes: the guards and the key under which the decision is stored.\<close>

definition approval_key :: "string \<Rightarrow> string \<Rightarrow> run_state_store \<Rightarrow> string res" where
  "approval_key workflow_id step_name s =
     then_do (get workflow_id s) (\<lambda>row. case row of
         None \<Rightarrow> Err (not_found workflow_id)
       | Some r \<Rightarrow>
           if rr_status r \<noteq> ''paused'' then
             Err (RuntimeError (''Workflow '' @ [sq] @ workflow_id @ [sq] @ '' is not paused (status=''
               @ rr_status r @ '')''))
           else if rr_current_step r \<noteq> Some step_name then
             Err (RuntimeError (''Workflow '' @ [sq] @ workflow_id @ [sq] @ '' is paused at '' @ [sq]
               @ (case rr_current_step r of None \<Rightarrow> ''None'' | Some c \<Rightarrow> c) @ [sq] @ '', not '' @ [sq]
               @ step_name @ [sq]))
           else
             then_do (as_dict (dget_or (rr_definition r) ''spec'' (VDict []))) (\<lambda>spec.
             then_do (list_or_raise (dget_or spec ''steps'' (VList []))) (\<lambda>raw.
             then_do (map_res as_dict raw) (\<lambda>steps.
             then_do (step_defs_of steps []) (\<lambda>step_defs.
               key_text (dget_or (case map_of step_defs step_name of None \<Rightarrow> [] | Some d \<Rightarrow> d)
                 ''output_key'' (VStr step_name)))))))"

definition record_decision ::
  "instant \<Rightarrow> string \<Rightarrow> string \<Rightarrow> string \<Rightarrow> string \<Rightarrow> run_state_store \<Rightarrow> run_state_store res" where
  "record_decision now workflow_id step_name decision output_key s =
     then_do (update_step now workflow_id output_key (VStr ''completed'')
        (VDict [(''approved'', VBool (decision = ''approved''))]) VNone s) (\<lambda>s.
     then_do (append_event now workflow_id
        (event ''step.approved'' [(''step'', VStr step_name), (''decision'', VStr decision)]) s)
       (resume_run now workflow_id))"

definition approve_run ::
  "instant \<Rightarrow> string \<Rightarrow> string \<Rightarrow> string \<Rightarrow> local_runner \<Rightarrow> unit res \<times> local_runner" where
  "approve_run now workflow_id step_name decision lr =
     (case lr_store lr of
        None \<Rightarrow> (Err (RuntimeError ''RunStateStore required for approval''), lr)
      | Some s \<Rightarrow>
          (case then_do (approval_key workflow_id step_name s)
                  (\<lambda>k. record_decision now workflow_id step_name decision k s) of
             Inl e \<Rightarrow> (Err e, lr)
           | Inr s' \<Rightarrow> resume_from_store workflow_id s' (lr\<lparr>lr_store := Some s'\<rparr>)))"

text \<open>\<open>cancel\<close>: a launched task is asked to stop, and marks the run itself; otherwise
  the run is marked, if there is a store.\<close>

datatype cancel_effect = CancelRequested | CancelMarked | CancelIgnored

definition cancel :: "instant \<Rightarrow> string \<Rightarrow> local_runner \<Rightarrow> cancel_effect res \<times> local_runner" where
  "cancel now workflow_id lr =
     (case lr_store lr of
        None \<Rightarrow> (Ok (if map_of (lr_running lr) workflow_id \<noteq> None then CancelRequested else CancelIgnored), lr)
      | Some s \<Rightarrow>
          (case get workflow_id s of
             Inl e \<Rightarrow> (Err e, lr)
           | Inr None \<Rightarrow> (Err (not_found workflow_id), lr)
           | Inr (Some r) \<Rightarrow>
               if map_of (lr_running lr) workflow_id \<noteq> None then (Ok CancelRequested, lr)
               else (case mark_terminal now workflow_id ''cancelled'' s of
                       Inl e \<Rightarrow> (Err e, lr)
                     | Inr s' \<Rightarrow> (Ok CancelMarked, lr\<lparr>lr_store := Some s'\<rparr>))))"

text \<open>Queries.\<close>

definition row_of :: "string \<Rightarrow> local_runner \<Rightarrow> run_row res" where
  "row_of workflow_id lr =
     (case lr_store lr of
        None \<Rightarrow> Err (not_found workflow_id)
      | Some s \<Rightarrow> then_do (get workflow_id s)
                    (\<lambda>row. case row of None \<Rightarrow> Err (not_found workflow_id) | Some r \<Rightarrow> Ok r))"

record workflow_status =
  st_workflow_id :: string
  st_status :: string
  st_steps :: "pydict dict"
  st_events :: "pydict list"
  st_is_terminal :: bool

definition get_status :: "string \<Rightarrow> local_runner \<Rightarrow> workflow_status res" where
  "get_status workflow_id lr =
     then_do (row_of workflow_id lr) (\<lambda>r.
       Ok \<lparr>st_workflow_id = workflow_id, st_status = rr_status r, st_steps = rr_steps r,
           st_events = rr_events r, st_is_terminal = (rr_status r \<in> set terminal_statuses)\<rparr>)"

definition is_terminal :: "string \<Rightarrow> local_runner \<Rightarrow> bool res" where
  "is_terminal workflow_id lr =
     then_do (row_of workflow_id lr) (\<lambda>r. Ok (rr_status r \<in> set terminal_statuses))"

definition get_authz_context :: "string \<Rightarrow> local_runner \<Rightarrow> pydict res" where
  "get_authz_context workflow_id lr = then_do (row_of workflow_id lr) (\<lambda>r. Ok (rr_authz_context r))"

definition get_workflow_context :: "string \<Rightarrow> local_runner \<Rightarrow> pydict res" where
  "get_workflow_context workflow_id lr = then_do (row_of workflow_id lr) (\<lambda>r. Ok (rr_workflow_context r))"

definition recover_paused :: "local_runner \<Rightarrow> string list res" where
  "recover_paused lr = (case lr_store lr of None \<Rightarrow> Ok [] | Some s \<Rightarrow> list_paused s)"

section \<open>The graph engine\<close>

text \<open>
  What the runner relies on: the engine visits the nodes of a chain of distinct step names one at a
  time and in order, and its last answer before the end marker holds no step. Names with the prefix
  \<open>__\<close> belong to the engine.
\<close>

definition chain_ok :: "string list \<Rightarrow> bool" where
  "chain_ok chain = (distinct chain \<and> list_all (\<lambda>n. \<not> prefix ''__'' n) chain)"

locale graph_engine =
  fixes yields :: "string list \<Rightarrow> string list list"
  assumes in_order: "chain_ok chain \<Longrightarrow> filter (\<lambda>n. n \<in> set chain) (concat (yields chain)) = chain"
    and one_at_a_time: "chain_ok chain \<Longrightarrow> ts \<in> set (yields chain) \<Longrightarrow> length ts \<le> 1"
    and ends_without_step: "chain_ok chain \<Longrightarrow> \<exists>front ts. yields chain = front @ [ts] \<and> set ts \<inter> set chain = {}"
begin

lemma answers_exist: "chain_ok chain \<Longrightarrow> yields chain \<noteq> []"
  using ends_without_step [of chain] by auto

end

definition chain_yields :: "string list \<Rightarrow> string list list" where
  "chain_yields chain = map (\<lambda>n. [n]) chain @ [[''__end__'']]"

lemma chain_end: "chain_ok chain \<Longrightarrow> ''__end__'' \<notin> set chain"
  by (auto simp: chain_ok_def list_all_iff)

interpretation chain: graph_engine chain_yields
proof
  fix chain :: "string list"
  assume ok: "chain_ok chain"
  have "filter (\<lambda>n. n \<in> set chain) (concat (map (\<lambda>n. [n]) xs)) = xs" if "set xs \<subseteq> set chain" for xs
    using that by (induction xs) auto
  then show "filter (\<lambda>n. n \<in> set chain) (concat (chain_yields chain)) = chain"
    using chain_end [OF ok] by (simp add: chain_yields_def)
  show "\<exists>front ts. chain_yields chain = front @ [ts] \<and> set ts \<inter> set chain = {}"
    using chain_end [OF ok] by (auto simp: chain_yields_def)
next
  fix chain ts
  show "ts \<in> set (chain_yields chain) \<Longrightarrow> length ts \<le> 1" by (auto simp: chain_yields_def)
qed

end
