(* ===== verification/LocalRuns.thy ===== *)
theory LocalRuns
  imports LocalRunner
begin

text \<open>
  What the local runner guarantees. A segment of \<open>_execute\<close> refines the plain sequential reading of
  the chain (\<open>run_chain\<close>), its writes reach the row of its own run only and keep the stored results in
  step with the graph state, a pause can be answered, and a decision takes effect exactly when the
  run is paused at the step it names.
\<close>

section \<open>The writes of a segment\<close>

text \<open>Every group of writes is a sequence of updates of the row of the run.\<close>

lemma update_row_all: "update_row wid f s = rows.modify_all wid [f] s"
  by (cases "update_row wid f s") auto

lemma modify_all_append:
  "then_do (rows.modify_all wid fs s) (rows.modify_all wid gs) = rows.modify_all wid (fs @ gs) s"
proof (induction fs arbitrary: s)
  case (Cons f fs)
  then show ?case by (cases "update_row wid f s") auto
qed simp

definition row_note :: "string \<Rightarrow> (run_state_store \<Rightarrow> run_state_store res) \<Rightarrow> bool" where
  "row_note wid note = (\<exists>fs. \<forall>s. note s = rows.modify_all wid fs s)"

lemma row_note_update: "row_note wid (update_row wid f)"
  unfolding row_note_def by (rule exI [of _ "[f]"]) (simp add: update_row_all del: rows.modify_all.simps)

lemma row_note_then:
  assumes "row_note wid m" and "row_note wid n" shows "row_note wid (\<lambda>s. then_do (m s) n)"
proof -
  obtain fs gs where "\<And>s. m s = rows.modify_all wid fs s" "\<And>s. n s = rows.modify_all wid gs s"
    using assms by (auto simp: row_note_def)
  then show ?thesis unfolding row_note_def
    by (intro exI [of _ "fs @ gs"]) (simp add: modify_all_append [symmetric] fun_eq_iff then_do_def split: sum.splits)
qed

lemma row_note_skip: "row_note wid Ok"
  unfolding row_note_def by (rule exI [of _ "[]"]) simp

lemmas row_note_intros = row_note_update row_note_then row_note_skip

lemma row_note_append_event: "row_note wid (append_event now wid e)"
  unfolding append_event_def by (rule row_note_update)

lemma row_note_update_step: "row_note wid (update_step now wid k st out err)"
  unfolding update_step_def by (rule row_note_update)

lemma row_note_set_status: "row_note wid (set_status now wid st c)"
  unfolding set_status_def by (rule row_note_update)

lemma row_note_terminal: "st \<in> set terminal_statuses \<Longrightarrow> row_note wid (mark_terminal now wid st)"
  using row_note_set_status [of wid now st None] by (simp add: row_note_def mark_terminal_def)

lemma row_note_started: "row_note wid (note_started now wid ns)"
proof (induction ns)
  case Nil
  then show ?case using row_note_skip [of wid] by (simp add: row_note_def)
next
  case (Cons n ns)
  show ?case
    using Cons row_note_then [OF row_note_append_event Cons, of now "event ''step.started'' [(''step'', VStr n)]"]
    by (cases "prefix ''__'' n") (simp_all add: row_note_def)
qed

lemma row_note_persist: "row_note wid (persist_steps now wid rs)"
proof (induction rs)
  case Nil
  then show ?case using row_note_skip [of wid] by (simp add: row_note_def)
next
  case (Cons kr rs)
  show ?case
    using row_note_then [OF row_note_update_step Cons, of now "fst kr" "dget_or (snd kr) ''status'' (VStr ''completed'')"
        "dget (snd kr) ''output''" "dget (snd kr) ''error''"]
    by (cases kr) (simp add: row_note_def)
qed

lemma row_note_progress: "row_note wid (note_progress now wid ts persisted gs)"
  unfolding note_progress_def [abs_def] by (intro row_note_then row_note_started row_note_persist)

lemma row_note_failed: "row_note wid (note_failed now wid ks)"
  unfolding note_failed_def [abs_def]
  by (intro row_note_then row_note_append_event row_note_terminal) (simp add: terminal_statuses_def)

lemma row_note_completed: "row_note wid (note_completed now wid)"
  unfolding note_completed_def [abs_def]
  by (intro row_note_then row_note_append_event row_note_terminal) (simp add: terminal_statuses_def)

text \<open>A group of writes succeeds on an existing row and changes no other row.\<close>

definition has_row :: "string \<Rightarrow> run_state_store option \<Rightarrow> bool" where
  "has_row wid st = (case st of None \<Rightarrow> True | Some s \<Rightarrow> row_at s wid \<noteq> None)"

lemma row_note_row:
  assumes "row_note wid note" and "row_at s wid = Some r"
  shows "\<exists>s' r'. note s = Ok s' \<and> row_at s' = (row_at s)(wid \<mapsto> r')"
  using assms rows.modify_all_succeeds [OF assms(2)] unfolding row_note_def by metis

lemma with_store_note:
  assumes "row_note wid note" and "has_row wid st"
  obtains st' where "with_store note st = Ok st'" "has_row wid st'"
proof (cases st)
  case None
  then show thesis using that by (simp add: has_row_def)
next
  case (Some s)
  then obtain r where "row_at s wid = Some r" using assms(2) by (auto simp: has_row_def)
  from row_note_row [OF assms(1) this] obtain s' r' where "note s = Ok s'" "row_at s' = (row_at s)(wid \<mapsto> r')"
    by blast
  with Some that show thesis by (simp add: has_row_def)
qed

lemma trace_parent_keeps_row: "has_row wid (Some s) \<Longrightarrow> has_row wid (Some (persist_trace_parent now wid tp s))"
  by (auto simp: persist_trace_parent_def has_row_def update_workflow_context_def then_do_Ok_iff
      split: sum.splits dest!: rows.lookup_modify)

lemma with_store_paused:
  assumes "has_row wid st"
  obtains st' where "with_store (note_paused now wid tp n) st = Ok st'" "has_row wid st'"
proof -
  have "row_note wid (\<lambda>s. then_do (set_paused now wid n s)
          (append_event now wid (event ''workflow.paused'' [(''step'', VStr n)])))"
    unfolding set_paused_def by (intro row_note_then row_note_append_event row_note_set_status)
  then show thesis
  proof (rule with_store_note)
    show "has_row wid (case st of None \<Rightarrow> None | Some s \<Rightarrow>
        Some (if truthy tp then persist_trace_parent now wid tp s else s))"
      using assms trace_parent_keeps_row by (auto simp: has_row_def split: option.splits if_splits)
  qed (cases st, auto simp: note_paused_def intro: that)
qed

section \<open>The sequential reading\<close>

text \<open>
  The specification of a segment: before each step the run must not be cancelled, crashed, failed
  or paused; then the step runs. Nothing of the store or of the engine is left in it.
\<close>

fun run_chain ::
  "'w local_env \<Rightarrow> (string \<times> node_kind) list \<Rightarrow> unit res \<Rightarrow> string list \<Rightarrow> graph_state \<Rightarrow> 'w
   \<Rightarrow> segment_end \<times> graph_state \<times> 'w" where
  "run_chain env nodes r ns gs w =
     (if le_cancelled env w then (SegCancelled, gs, w)
      else case r of
        Inl e \<Rightarrow> (SegCrashed e, gs, w)
      | Inr _ \<Rightarrow>
          if failed_steps gs \<noteq> [] then (SegFailed, gs, w)
          else if paused gs then (SegPaused (the (gs_paused_at_step gs)), gs, w)
          else case ns of
            [] \<Rightarrow> (SegCompleted, gs, w)
          | n # ns \<Rightarrow> (case run_node env nodes n gs w of (r', gs', w') \<Rightarrow> run_chain env nodes r' ns gs' w'))"

declare run_chain.simps [simp del]

definition outcome_part :: "'w segment \<Rightarrow> segment_end \<times> graph_state \<times> 'w" where
  "outcome_part seg = (case seg of (out, gs, st, w) \<Rightarrow> (out, gs, w))"

lemma leave_outcome:
  assumes "with_store note st = Ok st'"
  shows "outcome_part (leave_segment env wid out note gs st w) = (out, gs, w)"
  using assms by (simp add: leave_segment_def outcome_part_def)

lemma crash_outcome: "outcome_part (crash_segment env wid e gs st w) = (SegCrashed e, gs, w)"
  by (auto simp: crash_segment_def outcome_part_def split: sum.splits)

lemma cancel_outcome:
  assumes "has_row wid st" shows "outcome_part (cancel_segment env wid gs st w) = (SegCancelled, gs, w)"
proof -
  have "row_note wid (mark_terminal (le_now env w) wid ''cancelled'')"
    by (rule row_note_terminal) (simp add: terminal_statuses_def)
  from with_store_note [OF this assms] obtain st'
    where "with_store (mark_terminal (le_now env w) wid ''cancelled'') st = Ok st'" by blast
  then show ?thesis by (simp add: cancel_segment_def outcome_part_def)
qed

text \<open>One turn of the loop, after the pending tasks have run.\<close>

definition after_tasks ::
  "'w local_env \<Rightarrow> string \<Rightarrow> (string \<times> node_kind) list \<Rightarrow> unit res \<Rightarrow> string list list \<Rightarrow> string list
   \<Rightarrow> graph_state \<Rightarrow> run_state_store option \<Rightarrow> 'w \<Rightarrow> 'w segment" where
  "after_tasks env wid nodes r upcoming persisted gs st w =
     (if le_cancelled env w then cancel_segment env wid gs st w
      else case r of
        Inl e \<Rightarrow> crash_segment env wid e gs st w
      | Inr _ \<Rightarrow>
        (case upcoming of
           [] \<Rightarrow> leave_segment env wid SegCompleted (note_completed (le_now env w) wid) gs st w
         | tasks # upcoming \<Rightarrow>
             (case with_store (note_progress (le_now env w) wid tasks persisted gs) st of
                Inl e \<Rightarrow> crash_segment env wid e gs st w
              | Inr st \<Rightarrow>
                  if failed_steps gs \<noteq> [] then
                    leave_segment env wid SegFailed (note_failed (le_now env w) wid (failed_steps gs)) gs st w
                  else if paused gs then
                    leave_segment env wid (SegPaused (the (gs_paused_at_step gs)))
                      (note_paused (le_now env w) wid (gs_trace_parent gs) (the (gs_paused_at_step gs))) gs st w
                  else execute_loop env wid nodes tasks upcoming (keys (gs_step_results gs) @ persisted) gs st w)))"

lemma execute_loop_turn:
  "execute_loop env wid nodes pending upcoming persisted gs st w =
     (case run_tasks env nodes pending gs w of (r, gs', w') \<Rightarrow>
        after_tasks env wid nodes r upcoming persisted gs' st w')"
  unfolding after_tasks_def by (subst execute_loop.simps) (rule refl)

text \<open>A turn with answers left does what the sequential reading does, if the rest of the loop does.\<close>

lemma turn_refines:
  assumes row: "has_row wid st"
    and rest: "\<And>st' w. has_row wid st' \<Longrightarrow> \<not> le_cancelled env w \<Longrightarrow> failed_steps gs = [] \<Longrightarrow> \<not> paused gs \<Longrightarrow>
      outcome_part (execute_loop env wid nodes ts upcoming (keys (gs_step_results gs) @ persisted) gs st' w)
        = run_chain env nodes (Ok ()) ns gs w"
  shows "outcome_part (after_tasks env wid nodes r (ts # upcoming) persisted gs st w) = run_chain env nodes r ns gs w"
proof -
  obtain st1 where st1: "with_store (note_progress (le_now env w) wid ts persisted gs) st = Ok st1" "has_row wid st1"
    using with_store_note [OF row_note_progress row] by blast
  obtain st2 where st2: "with_store (note_failed (le_now env w) wid (failed_steps gs)) st1 = Ok st2"
    using with_store_note [OF row_note_failed st1(2)] by blast
  obtain st3 where st3: "with_store (note_paused (le_now env w) wid (gs_trace_parent gs) (the (gs_paused_at_step gs))) st1
      = Ok st3"
    using with_store_paused [OF st1(2)] by blast
  have r: "run_chain env nodes r ns gs w = run_chain env nodes (Ok ()) ns gs w" if "r = Inr u" for u
    using that by simp
  show ?thesis
    using st1 rest [OF st1(2)] r
    by (cases r) (auto simp: after_tasks_def run_chain.simps [of env nodes _ ns gs w] cancel_outcome [OF row]
        crash_outcome leave_outcome [OF st2] leave_outcome [OF st3])
qed

text \<open>What is left of the answers of the engine: at most one task each, none of them a step in the last.\<close>

definition answers_ok :: "string set \<Rightarrow> string list list \<Rightarrow> bool" where
  "answers_ok names as = (as \<noteq> [] \<and> (\<forall>ts \<in> set as. length ts \<le> 1) \<and> set (last as) \<inter> names = {})"

lemma answers_ok_Cons: "answers_ok names (ts # as) \<Longrightarrow> as \<noteq> [] \<Longrightarrow> answers_ok names as"
  by (simp add: answers_ok_def)

lemma run_tasks_foreign:
  "set ts \<inter> fst ` set nodes = {} \<Longrightarrow> run_tasks env nodes ts gs w = (Ok (), gs, w)"
proof (induction ts)
  case (Cons n ts)
  then have "map_of nodes n = None" by (simp add: map_of_eq_None_iff)
  with Cons show ?case by (simp add: run_node_def)
qed simp

lemma run_tasks_single: "run_tasks env nodes [n] gs w = run_node env nodes n gs w"
  by (auto split: prod.splits sum.splits)

lemma loop_refines:
  assumes "answers_ok (fst ` set nodes) (pending # upcoming)" and "has_row wid st"
    and "\<not> le_cancelled env w" and "failed_steps gs = []" and "\<not> paused gs"
  shows "outcome_part (execute_loop env wid nodes pending upcoming persisted gs st w)
    = run_chain env nodes (Ok ()) (filter (\<lambda>n. n \<in> fst ` set nodes) (concat (pending # upcoming))) gs w"
  using assms
proof (induction upcoming arbitrary: pending persisted gs st w)
  case Nil
  then have pend: "set pending \<inter> fst ` set nodes = {}" by (simp add: answers_ok_def)
  then have "filter (\<lambda>n. n \<in> fst ` set nodes) pending = []" by (auto simp: filter_empty_conv)
  moreover obtain st' where "with_store (note_completed (le_now env w) wid) st = Ok st'"
    using with_store_note [OF row_note_completed Nil.prems(2)] by blast
  ultimately show ?case using Nil.prems pend
    by (simp add: execute_loop_turn run_tasks_foreign after_tasks_def leave_outcome run_chain.simps)
next
  case (Cons ts upcoming)
  let ?P = "\<lambda>n. n \<in> fst ` set nodes"
  let ?ns = "filter ?P (concat (ts # upcoming))"
  have rest: "outcome_part (execute_loop env wid nodes ts upcoming pers gs' st' w') = run_chain env nodes (Ok ()) ?ns gs' w'"
    if "has_row wid st'" "\<not> le_cancelled env w'" "failed_steps gs' = []" "\<not> paused gs'" for pers gs' st' w'
    using Cons.IH [of ts st' w' gs' pers] answers_ok_Cons [OF Cons.prems(1)] that by simp
  obtain r gs' w' where run: "run_tasks env nodes pending gs w = (r, gs', w')" by (cases "run_tasks env nodes pending gs w")
  have "outcome_part (execute_loop env wid nodes pending (ts # upcoming) persisted gs st w)
      = run_chain env nodes r ?ns gs' w'"
    unfolding execute_loop_turn run prod.case by (rule turn_refines [OF Cons.prems(2) rest])
  also have "\<dots> = run_chain env nodes (Ok ()) (filter ?P (concat (pending # ts # upcoming))) gs w"
  proof (cases "set pending \<inter> fst ` set nodes = {}")
    case True
    then have "filter ?P pending = []" by (auto simp: filter_empty_conv)
    with True run show ?thesis by (simp add: run_tasks_foreign)
  next
    case False
    moreover have "length pending \<le> 1" using Cons.prems(1) by (simp add: answers_ok_def)
    ultimately obtain n where "pending = [n]" "?P n" by (cases pending) auto
    with run Cons.prems show ?thesis
      by (simp add: run_tasks_single run_chain.simps [of env nodes "Ok ()" "n # _"] del: run_tasks.simps)
  qed
  finally show ?case .
qed

lemma engine_answers:
  assumes "graph_engine yields" and "chain_ok (map fst nodes)"
  shows "answers_ok (fst ` set nodes) (yields (map fst nodes))"
    and "filter (\<lambda>n. n \<in> fst ` set nodes) (concat (yields (map fst nodes))) = map fst nodes"
proof -
  obtain front ts where y: "yields (map fst nodes) = front @ [ts]" "set ts \<inter> fst ` set nodes = {}"
    using graph_engine.ends_without_step [OF assms] by auto
  moreover have "\<forall>ts \<in> set (yields (map fst nodes)). length ts \<le> 1"
    using graph_engine.one_at_a_time [OF assms] by blast
  ultimately show "answers_ok (fst ` set nodes) (yields (map fst nodes))" unfolding answers_ok_def by simp
  show "filter (\<lambda>n. n \<in> fst ` set nodes) (concat (yields (map fst nodes))) = map fst nodes"
    using graph_engine.in_order [OF assms] by simp
qed

text \<open>
  C7. A segment of the local runner is the sequential reading of the chain: with any engine that
  keeps the documented order, and as long as the row of the run exists, \<open>_execute\<close> ends in the
  same way, with the same results and after the same executor calls as running the steps one after
  the other and stopping at the first that is cancelled, crashes, fails or pauses.
\<close>

theorem execute_refines_chain:
  assumes "graph_engine (le_yields env)" and "chain_ok (map fst nodes)" and "has_row wid st"
  shows "outcome_part (execute env wid nodes gs st w) = run_chain env nodes (Ok ()) (map fst nodes) gs w"
proof -
  note ans = engine_answers [OF assms(1,2)]
  obtain ts as where y: "le_yields env (map fst nodes) = ts # as" using ans(1)
    by (cases "le_yields env (map fst nodes)") (auto simp: answers_ok_def)
  have "outcome_part (after_tasks env wid nodes (Ok ()) (ts # as) (keys (gs_step_results gs)) gs st w)
      = run_chain env nodes (Ok ()) (filter (\<lambda>n. n \<in> fst ` set nodes) (concat (ts # as))) gs w"
    by (rule turn_refines [OF assms(3) loop_refines]) (use ans(1) y in simp_all)
  then show ?thesis using ans(2) by (simp add: execute_def execute_loop_turn y)
qed

section \<open>What a step changes\<close>

text \<open>A step writes the result of its own output key, and pauses the run at itself or not at all.\<close>

definition node_key :: "graph_state \<Rightarrow> string \<Rightarrow> string option" where
  "node_key gs n = (case output_key_of gs n of Inl _ \<Rightarrow> None | Inr (d, k) \<Rightarrow> Some k)"

definition touches_only :: "string \<Rightarrow> graph_state \<Rightarrow> graph_state \<Rightarrow> bool" where
  "touches_only n gs gs' =
     (gs_step_defs gs' = gs_step_defs gs
      \<and> (\<forall>k. node_key gs n \<noteq> Some k \<longrightarrow> map_of (gs_step_results gs') k = map_of (gs_step_results gs) k)
      \<and> (wf_dict (gs_step_results gs) \<longrightarrow> wf_dict (gs_step_results gs'))
      \<and> (gs_paused_at_step gs' = gs_paused_at_step gs \<or> gs_paused_at_step gs' = Some n))"

lemma touches_only_simps [simp]:
  "touches_only n gs gs"
  "node_key gs n = Some k \<Longrightarrow> touches_only n gs gs1 \<Longrightarrow> touches_only n gs (set_result k r gs1)"
  "touches_only n gs (gs1\<lparr>gs_trace_parent := x\<rparr>) = touches_only n gs gs1"
  "touches_only n gs (gs1\<lparr>gs_resume_trace_parent := x\<rparr>) = touches_only n gs gs1"
  "touches_only n gs gs1 \<Longrightarrow> touches_only n gs (gs1\<lparr>gs_paused_at_step := Some n\<rparr>)"
  by (auto simp: touches_only_def set_result_def)

lemma run_agent_touches [simp]:
  assumes "node_key gs n = Some k" shows "touches_only n gs (fst (snd (run_agent env step_def k gs w)))"
  using assms unfolding run_agent_def Let_def
  by (simp split: sum.split pyexc.split prod.split option.split outcome.split)

lemma agent_step_touches: "touches_only n gs (fst (snd (agent_step env n gs w)))"
proof (cases "output_key_of gs n")
  case (Inr dk)
  then have "node_key gs n = Some (snd dk)" by (cases dk) (simp add: node_key_def)
  with Inr show ?thesis
    by (cases dk) (simp add: agent_step_def Let_def split: sum.split bool.split)
qed (simp add: agent_step_def)

lemma approval_step_touches: "touches_only n gs (fst (snd (approval_step env n gs w)))"
proof (cases "output_key_of gs n")
  case (Inr dk)
  then have "node_key gs n = Some (snd dk)" by (cases dk) (simp add: node_key_def)
  with Inr show ?thesis
    by (cases dk) (simp add: approval_step_def split: sum.split bool.split)
qed (simp add: approval_step_def)

lemma run_node_touches: "run_node env nodes n gs w = (r, gs', w') \<Longrightarrow> touches_only n gs gs'"
  using agent_step_touches [of n gs env w] approval_step_touches [of n gs env w]
  by (auto simp: run_node_def split: option.splits node_kind.splits)

section \<open>The stored results\<close>

definition stored_result :: "string \<Rightarrow> pydict \<Rightarrow> pydict" where
  "stored_result k r =
     step_data k (dget_or r ''status'' (VStr ''completed'')) (dget r ''output'') (dget r ''error'')"

text \<open>
  The row mirrors the graph state: under a key of the beginning of the segment it has what it had,
  under every other key the stored form of the result.
\<close>

definition mirrors :: "string set \<Rightarrow> (string \<Rightarrow> pydict option) \<Rightarrow> graph_state \<Rightarrow> run_row \<Rightarrow> bool" where
  "mirrors K0 old gs r =
     (\<forall>k. map_of (rr_steps r) k =
        (if k \<in> K0 then old k else map_option (stored_result k) (map_of (gs_step_results gs) k)))"

fun status_row :: "segment_end \<Rightarrow> run_row \<Rightarrow> bool" where
  "status_row SegCompleted r = (rr_status r = ''completed'' \<and> rr_current_step r = None)"
| "status_row SegFailed r = (rr_status r = ''failed'' \<and> rr_current_step r = None)"
| "status_row (SegPaused n) r = (rr_status r = ''paused'' \<and> rr_current_step r = Some n)"
| "status_row SegCancelled r = (rr_status r = ''cancelled'' \<and> rr_current_step r = None)"
| "status_row (SegCrashed e) r = (rr_status r = ''failed'' \<and> rr_current_step r = None)"

text \<open>The writes, one by one.\<close>

lemma update_row_Some:
  assumes "row_at s wid = Some r"
  shows "\<exists>s'. update_row wid f s = Ok s' \<and> row_at s' wid = Some (f r)"
  using rows.modify_succeeds [OF assms] by (metis fun_upd_same)

lemma append_event_row:
  assumes "row_at s wid = Some r" and "append_event now wid e s = Ok s'"
  shows "\<exists>r'. row_at s' wid = Some r' \<and> rr_steps r' = rr_steps r \<and> rr_status r' = rr_status r
    \<and> rr_current_step r' = rr_current_step r"
  using rows.modified_row [OF assms(2) [unfolded append_event_def] assms(1)] by simp

lemma set_status_row:
  assumes "row_at s wid = Some r" and "set_status now wid st c s = Ok s'"
  shows "\<exists>r'. row_at s' wid = Some r' \<and> rr_steps r' = rr_steps r \<and> rr_status r' = st \<and> rr_current_step r' = c"
  using rows.modified_row [OF assms(2) [unfolded set_status_def] assms(1)] by simp

lemma note_started_row:
  "row_at s wid = Some r \<Longrightarrow> note_started now wid ns s = Ok s' \<Longrightarrow>
   \<exists>r'. row_at s' wid = Some r' \<and> rr_steps r' = rr_steps r"
proof (induction ns arbitrary: s r)
  case (Cons n ns)
  show ?case
  proof (cases "prefix ''__'' n")
    case True
    then show ?thesis using Cons by simp
  next
    case False
    with Cons.prems(2) obtain s1 where
      "append_event now wid (event ''step.started'' [(''step'', VStr n)]) s = Ok s1" "note_started now wid ns s1 = Ok s'"
      by (auto simp: then_do_Ok_iff)
    then show ?thesis using append_event_row [OF Cons.prems(1)] Cons.IH by metis
  qed
qed simp

lemma persist_steps_row:
  "row_at s wid = Some r \<Longrightarrow> wf_dict rs \<Longrightarrow> persist_steps now wid rs s = Ok s' \<Longrightarrow>
   \<exists>r'. row_at s' wid = Some r' \<and> (\<forall>k. map_of (rr_steps r') k =
     (case map_of rs k of None \<Rightarrow> map_of (rr_steps r) k | Some x \<Rightarrow> Some (stored_result k x)))"
proof (induction rs arbitrary: s r)
  case (Cons kx rs)
  obtain k0 x0 where kx: "kx = (k0, x0)" by (cases kx)
  with Cons.prems(3) obtain s1 where
    up: "update_step now wid k0 (dget_or x0 ''status'' (VStr ''completed'')) (dget x0 ''output'') (dget x0 ''error'') s = Ok s1"
    and rest: "persist_steps now wid rs s1 = Ok s'" by (auto simp: then_do_Ok_iff)
  have wf: "wf_dict rs" "map_of rs k0 = None"
    using Cons.prems(2) kx by (auto simp: wf_dict_def map_of_eq_None_iff)
  obtain r1 where r1: "row_at s1 wid = Some r1" "rr_steps r1 = dict_set k0 (stored_result k0 x0) (rr_steps r)"
    using rows.modified_row [OF up [unfolded update_step_def] Cons.prems(1)] by (simp add: stored_result_def)
  from Cons.IH [OF r1(1) wf(1) rest] obtain r' where r': "row_at s' wid = Some r'"
    "\<And>k. map_of (rr_steps r') k =
       (case map_of rs k of None \<Rightarrow> map_of (rr_steps r1) k | Some x \<Rightarrow> Some (stored_result k x))" by blast
  show ?case by (rule exI [of _ r']) (simp add: r' r1(2) wf(2) kx split: option.split)
qed simp

lemma note_progress_row:
  assumes "row_at s wid = Some r" and "wf_dict (gs_step_results gs)" and "note_progress now wid ts persisted gs s = Ok s'"
  shows "\<exists>r'. row_at s' wid = Some r' \<and> (\<forall>k. map_of (rr_steps r') k =
    (if k \<in> set persisted then map_of (rr_steps r) k
     else case map_of (gs_step_results gs) k of None \<Rightarrow> map_of (rr_steps r) k | Some x \<Rightarrow> Some (stored_result k x)))"
proof -
  obtain s1 where s1: "note_started now wid ts s = Ok s1" "persist_steps now wid (new_results persisted gs) s1 = Ok s'"
    using assms(3) by (auto simp: note_progress_def then_do_Ok_iff)
  obtain r1 where r1: "row_at s1 wid = Some r1" "rr_steps r1 = rr_steps r"
    using note_started_row [OF assms(1) s1(1)] by blast
  have new: "map_of (new_results persisted gs) k = (if k \<in> set persisted then None else map_of (gs_step_results gs) k)" for k
    using assms(2) by (auto simp: new_results_def map_of_filter split: option.splits)
  have wf: "wf_dict (new_results persisted gs)" using assms(2) by (simp add: new_results_def)
  from persist_steps_row [OF r1(1) wf s1(2)] obtain r' where r': "row_at s' wid = Some r'"
    "\<forall>k. map_of (rr_steps r') k = (case map_of (new_results persisted gs) k of
       None \<Rightarrow> map_of (rr_steps r1) k | Some x \<Rightarrow> Some (stored_result k x))" by blast
  show ?thesis using r' unfolding new r1(2) by (intro exI [of _ r']) simp
qed

lemma note_terminal_row:
  assumes "row_at s wid = Some r" and "then_do (append_event now wid e s) (mark_terminal now wid st) = Ok s'"
  shows "\<exists>r'. row_at s' wid = Some r' \<and> rr_steps r' = rr_steps r \<and> rr_status r' = st \<and> rr_current_step r' = None"
proof -
  obtain s1 where s1: "append_event now wid e s = Ok s1" "mark_terminal now wid st s1 = Ok s'"
    using assms(2) by (auto simp: then_do_Ok_iff)
  obtain r1 where r1: "row_at s1 wid = Some r1" "rr_steps r1 = rr_steps r"
    using append_event_row [OF assms(1) s1(1)] by blast
  have "set_status now wid st None s1 = Ok s'" using s1(2) by (simp add: mark_terminal_def split: if_splits)
  from set_status_row [OF r1(1) this] r1(2) show ?thesis by simp
qed

lemma trace_parent_row:
  assumes "row_at s wid = Some r"
  shows "\<exists>r'. row_at (persist_trace_parent now wid tp s) wid = Some r' \<and> rr_steps r' = rr_steps r"
proof -
  have "get wid s = Ok (Some r)" using assms row_at_connected by (simp add: get_Ok_iff)
  then show ?thesis
    using update_row_Some [OF assms, of "\<lambda>r'. r'\<lparr>rr_workflow_context :=
        dict_set ''trace_parent'' tp (rr_workflow_context r), rr_updated_at := in_time now\<rparr>"]
    by (auto simp: persist_trace_parent_def update_workflow_context_def)
qed

lemma note_paused_row:
  assumes "row_at s wid = Some r" and "note_paused now wid tp n s = Ok s'"
  shows "\<exists>r'. row_at s' wid = Some r' \<and> rr_steps r' = rr_steps r \<and> rr_status r' = ''paused''
    \<and> rr_current_step r' = Some n"
proof -
  let ?s = "if truthy tp then persist_trace_parent now wid tp s else s"
  obtain r0 where r0: "row_at ?s wid = Some r0" "rr_steps r0 = rr_steps r"
    using assms(1) trace_parent_row [OF assms(1), of now tp] by (cases "truthy tp") auto
  obtain s1 where s1: "set_paused now wid n ?s = Ok s1"
    "append_event now wid (event ''workflow.paused'' [(''step'', VStr n)]) s1 = Ok s'"
    using assms(2) by (auto simp: note_paused_def Let_def then_do_Ok_iff)
  obtain r1 where r1: "row_at s1 wid = Some r1" "rr_steps r1 = rr_steps r" "rr_status r1 = ''paused''"
      "rr_current_step r1 = Some n"
    using set_status_row [OF r0(1) s1(1) [unfolded set_paused_def]] r0(2) by auto
  from append_event_row [OF r1(1) s1(2)] r1 show ?thesis by simp
qed

text \<open>What a settled segment leaves in the row.\<close>

fun settled_end :: "segment_end \<Rightarrow> bool" where
  "settled_end SegCompleted = True"
| "settled_end SegFailed = True"
| "settled_end (SegPaused n) = True"
| "settled_end _ = False"

definition row_reports ::
  "string \<Rightarrow> string set \<Rightarrow> (string \<Rightarrow> pydict option) \<Rightarrow> 'w segment \<Rightarrow> bool" where
  "row_reports wid K0 old seg =
     (case seg of (out, gs, st, w) \<Rightarrow>
        settled_end out \<longrightarrow> (\<exists>s r. st = Some s \<and> row_at s wid = Some r \<and> mirrors K0 old gs r \<and> status_row out r))"

lemma crash_reports: "row_reports wid K0 old (crash_segment env wid' e gs st w)"
  by (auto simp: crash_segment_def row_reports_def split: sum.splits)

lemma cancel_reports: "row_reports wid K0 old (cancel_segment env wid' gs st w)"
  by (auto simp: cancel_segment_def row_reports_def split: sum.splits)

lemma leave_reports:
  assumes "\<And>s'. note s = Ok s' \<Longrightarrow> \<exists>r'. row_at s' wid = Some r' \<and> rr_steps r' = rr_steps r \<and> status_row out r'"
    and "mirrors K0 old gs r"
  shows "row_reports wid K0 old (leave_segment env wid out note gs (Some s) w)"
proof (cases "note s")
  case (Inl e)
  then show ?thesis by (simp add: leave_segment_def crash_reports)
next
  case (Inr s')
  with assms(1) obtain r' where "row_at s' wid = Some r'" "rr_steps r' = rr_steps r" "status_row out r'" by blast
  with Inr assms(2) show ?thesis by (simp add: leave_segment_def row_reports_def mirrors_def)
qed

lemma completed_reports:
  assumes "row_at s wid = Some r" and "mirrors K0 old gs r"
  shows "row_reports wid K0 old (leave_segment env wid SegCompleted (note_completed now wid) gs (Some s) w)"
  by (rule leave_reports [OF _ assms(2)])
     (use note_terminal_row [OF assms(1)] in \<open>auto simp: note_completed_def\<close>)

lemma failed_reports:
  assumes "row_at s wid = Some r" and "mirrors K0 old gs r"
  shows "row_reports wid K0 old (leave_segment env wid SegFailed (note_failed now wid ks) gs (Some s) w)"
  by (rule leave_reports [OF _ assms(2)])
     (use note_terminal_row [OF assms(1)] in \<open>auto simp: note_failed_def\<close>)

lemma paused_reports:
  assumes "row_at s wid = Some r" and "mirrors K0 old gs r"
  shows "row_reports wid K0 old (leave_segment env wid (SegPaused n) (note_paused now wid tp n) gs (Some s) w)"
  by (rule leave_reports [OF _ assms(2)]) (use note_paused_row [OF assms(1)] in auto)

text \<open>The keys that may still be written are new or belong to the beginning of the segment.\<close>

definition keys_fresh :: "string set \<Rightarrow> graph_state \<Rightarrow> string list \<Rightarrow> bool" where
  "keys_fresh K0 gs ns =
     (distinct (map (node_key gs) ns)
      \<and> (\<forall>n \<in> set ns. \<forall>k. node_key gs n = Some k \<longrightarrow> k \<in> K0 \<or> map_of (gs_step_results gs) k = None))"

lemma node_key_touches: "touches_only n gs gs' \<Longrightarrow> node_key gs' = node_key gs"
  by (simp add: touches_only_def node_key_def output_key_of_def fun_eq_iff)

lemma keys_fresh_step:
  assumes "touches_only n gs gs'" and "keys_fresh K0 gs (n # ns)"
  shows "keys_fresh K0 gs' ns"
proof -
  have "node_key gs m \<noteq> node_key gs n" if "m \<in> set ns" for m
  proof
    assume "node_key gs m = node_key gs n"
    then have "node_key gs n \<in> node_key gs ` set ns" using that by (metis image_eqI)
    with assms(2) show False by (simp add: keys_fresh_def)
  qed
  then have "map_of (gs_step_results gs') k = map_of (gs_step_results gs) k" if "m \<in> set ns" "node_key gs m = Some k" for m k
    using assms(1) that by (metis touches_only_def)
  with assms(2) show ?thesis by (auto simp: keys_fresh_def node_key_touches [OF assms(1)])
qed

lemma mirrors_progress:
  assumes m: "mirrors K0 old gs r" and pers: "set persisted = K0 \<union> set (keys (gs_step_results gs))"
    and same: "\<And>k. k \<notin> K0 \<Longrightarrow> map_of (gs_step_results gs) k \<noteq> None \<Longrightarrow>
      map_of (gs_step_results gs') k = map_of (gs_step_results gs) k"
    and prog: "\<forall>k. map_of (rr_steps r') k = (if k \<in> set persisted then map_of (rr_steps r) k
      else case map_of (gs_step_results gs') k of None \<Rightarrow> map_of (rr_steps r) k | Some x \<Rightarrow> Some (stored_result k x))"
  shows "mirrors K0 old gs' r'"
  unfolding mirrors_def
proof
  fix k
  have "k \<in> set (keys (gs_step_results gs)) \<longleftrightarrow> map_of (gs_step_results gs) k \<noteq> None"
    by (simp add: map_of_eq_None_iff)
  then show "map_of (rr_steps r') k =
      (if k \<in> K0 then old k else map_option (stored_result k) (map_of (gs_step_results gs') k))"
    using m pers same [of k] prog by (auto simp: mirrors_def split: option.split)
qed

lemma turn_reports:
  assumes row: "row_at s wid = Some r" and m: "mirrors K0 old gs r"
    and pers: "set persisted = K0 \<union> set (keys (gs_step_results gs))"
    and same: "\<And>k. k \<notin> K0 \<Longrightarrow> map_of (gs_step_results gs) k \<noteq> None \<Longrightarrow>
      map_of (gs_step_results gs') k = map_of (gs_step_results gs) k"
    and wf: "wf_dict (gs_step_results gs')"
    and rest: "\<And>s1 r1 w. row_at s1 wid = Some r1 \<Longrightarrow> mirrors K0 old gs' r1 \<Longrightarrow>
      row_reports wid K0 old (execute_loop env wid nodes ts upcoming (keys (gs_step_results gs') @ persisted) gs' (Some s1) w)"
  shows "row_reports wid K0 old (after_tasks env wid nodes res (ts # upcoming) persisted gs' (Some s) w)"
proof (cases "note_progress (le_now env w) wid ts persisted gs' s")
  case (Inl e)
  then show ?thesis
    by (cases res) (simp_all add: after_tasks_def cancel_reports crash_reports)
next
  case (Inr s1)
  from note_progress_row [OF row wf Inr] obtain r1 where r1: "row_at s1 wid = Some r1"
    and prog: "\<forall>k. map_of (rr_steps r1) k = (if k \<in> set persisted then map_of (rr_steps r) k
      else case map_of (gs_step_results gs') k of None \<Rightarrow> map_of (rr_steps r) k | Some x \<Rightarrow> Some (stored_result k x))"
    by blast
  have m1: "mirrors K0 old gs' r1" by (rule mirrors_progress [OF m pers same prog])
  show ?thesis
    by (cases res) (simp_all add: Inr after_tasks_def cancel_reports crash_reports failed_reports [OF r1 m1]
        paused_reports [OF r1 m1] rest [OF r1 m1])
qed

lemma loop_reports:
  assumes "answers_ok (fst ` set nodes) (pending # upcoming)" and "row_at s wid = Some r" and "mirrors K0 old gs r"
    and "set persisted = K0 \<union> set (keys (gs_step_results gs))" and "wf_dict (gs_step_results gs)"
    and "keys_fresh K0 gs (filter (\<lambda>n. n \<in> fst ` set nodes) (concat (pending # upcoming)))"
  shows "row_reports wid K0 old (execute_loop env wid nodes pending upcoming persisted gs (Some s) w)"
  using assms
proof (induction upcoming arbitrary: pending persisted gs s r w)
  case Nil
  then have "set pending \<inter> fst ` set nodes = {}" by (simp add: answers_ok_def)
  then show ?case
    by (simp add: execute_loop_turn run_tasks_foreign after_tasks_def cancel_reports
        completed_reports [OF Nil.prems(2,3)])
next
  case (Cons ts upcoming)
  let ?P = "\<lambda>n. n \<in> fst ` set nodes"
  obtain res gs' w' where run: "run_tasks env nodes pending gs w = (res, gs', w')"
    by (cases "run_tasks env nodes pending gs w")
  have step: "(\<forall>k. k \<notin> K0 \<longrightarrow> map_of (gs_step_results gs) k \<noteq> None \<longrightarrow>
        map_of (gs_step_results gs') k = map_of (gs_step_results gs) k)
      \<and> wf_dict (gs_step_results gs') \<and> keys_fresh K0 gs' (filter ?P (concat (ts # upcoming)))"
  proof (cases "set pending \<inter> fst ` set nodes = {}")
    case True
    then have "gs' = gs" and "filter ?P pending = []" using run by (auto simp: run_tasks_foreign filter_empty_conv)
    with Cons.prems show ?thesis by simp
  next
    case False
    moreover have "length pending \<le> 1" using Cons.prems(1) by (simp add: answers_ok_def)
    ultimately obtain n where n: "pending = [n]" "?P n" by (cases pending) auto
    then have t: "touches_only n gs gs'"
      using run by (simp add: run_tasks_single run_node_touches del: run_tasks.simps)
    have fresh: "keys_fresh K0 gs (n # filter ?P (concat (ts # upcoming)))" using Cons.prems(6) n by simp
    then have "node_key gs n \<noteq> Some k" if "k \<notin> K0" "map_of (gs_step_results gs) k \<noteq> None" for k
      using that by (auto simp: keys_fresh_def)
    then show ?thesis using t Cons.prems(5) keys_fresh_step [OF t fresh] by (auto simp: touches_only_def)
  qed
  have "k \<in> set (keys d) \<longleftrightarrow> map_of d k \<noteq> None" for k and d :: "pydict dict"
    by (simp add: map_of_eq_None_iff)
  then have "set (keys (gs_step_results gs)) \<subseteq> K0 \<union> set (keys (gs_step_results gs'))"
    using step by (metis UnI1 UnI2 subsetI)
  then have "set (keys (gs_step_results gs') @ persisted) = K0 \<union> set (keys (gs_step_results gs'))"
    using Cons.prems(4) by auto
  then have "row_reports wid K0 old (execute_loop env wid nodes ts upcoming (keys (gs_step_results gs') @ persisted) gs' (Some s1) w1)"
    if "row_at s1 wid = Some r1" "mirrors K0 old gs' r1" for s1 r1 w1
    using Cons.IH [OF _ that] answers_ok_Cons [OF Cons.prems(1)] step by simp
  with step show ?case unfolding execute_loop_turn [of env wid nodes pending] run prod.case
    by (intro turn_reports [OF Cons.prems(2,3,4)]) auto
qed

text \<open>
  What the store says after a segment is what happened: when a segment completes, fails or pauses,
  the row of the run has that status (a pause names the step), and its \<open>steps\<close> hold the result of
  every step that was added in the segment, in the stored form; results the segment began with are
  kept as they were stored.
\<close>

theorem segment_reports:
  assumes "graph_engine (le_yields env)" and "chain_ok (map fst nodes)" and "row_at s wid = Some r"
    and "wf_dict (gs_step_results gs)" and "distinct (map (node_key gs) (map fst nodes))"
    and "set (keys (rr_steps r)) \<subseteq> set (keys (gs_step_results gs))"
    and "execute env wid nodes gs (Some s) w = (out, gs', st', w')" and "settled_end out"
  shows "\<exists>s' r'. st' = Some s' \<and> row_at s' wid = Some r' \<and> status_row out r'
    \<and> (\<forall>k. map_of (rr_steps r') k =
         (if k \<in> set (keys (gs_step_results gs)) then map_of (rr_steps r) k
          else map_option (stored_result k) (map_of (gs_step_results gs') k)))"
proof -
  let ?K = "set (keys (gs_step_results gs))"
  note ans = engine_answers [OF assms(1,2)]
  have none: "map_of d k = None" if "k \<notin> set (keys d)" for k and d :: "pydict dict"
    using that by (simp add: map_of_eq_None_iff)
  have "mirrors ?K (map_of (rr_steps r)) gs r"
    unfolding mirrors_def
  proof
    fix k
    show "map_of (rr_steps r) k = (if k \<in> ?K then map_of (rr_steps r) k
        else map_option (stored_result k) (map_of (gs_step_results gs) k))"
      using assms(6) none [of k "rr_steps r"] none [of k "gs_step_results gs"] by (cases "k \<in> ?K") auto
  qed
  moreover have "answers_ok (fst ` set nodes) ([] # le_yields env (map fst nodes))"
    using ans(1) by (simp add: answers_ok_def)
  moreover have "keys_fresh ?K gs (filter (\<lambda>n. n \<in> fst ` set nodes) (concat ([] # le_yields env (map fst nodes))))"
    unfolding keys_fresh_def using ans(2) assms(5) none by (metis concat.simps(2) append_Nil)
  ultimately have "row_reports wid ?K (map_of (rr_steps r)) (execute env wid nodes gs (Some s) w)"
    unfolding execute_def by (intro loop_reports [OF _ assms(3) _ _ assms(4)]) auto
  then show ?thesis using assms(7,8) by (auto simp: row_reports_def mirrors_def)
qed

section \<open>Decisions\<close>

text \<open>Facts about a decision that was accepted.\<close>

lemma approval_key_guard:
  assumes "approval_key wid step_name s = Ok k"
  obtains r where "row_at s wid = Some r" "rr_status r = ''paused''" "rr_current_step r = Some step_name"
  using assms unfolding approval_key_def
  by (auto simp: then_do_Ok_iff get_Ok_iff split: option.splits if_splits)

lemma record_decision_row:
  assumes "row_at s wid = Some r" and "record_decision now wid step_name decision k s = Ok s'"
  shows "\<exists>r'. row_at s' = (row_at s)(wid \<mapsto> r') \<and> rr_status r' = ''running''
    \<and> rr_definition r' = rr_definition r \<and> rr_workflow_context r' = rr_workflow_context r
    \<and> rr_steps r' = dict_set k (step_data k (VStr ''completed'')
         (VDict [(''approved'', VBool (decision = ''approved''))]) VNone) (rr_steps r)
    \<and> rr_events r' = rr_events r @ [stamped now (event ''step.approved''
         [(''step'', VStr step_name), (''decision'', VStr decision)])]"
proof -
  obtain s1 s2 where "update_step now wid k (VStr ''completed'')
        (VDict [(''approved'', VBool (decision = ''approved''))]) VNone s = Ok s1"
    "append_event now wid (event ''step.approved''
        [(''step'', VStr step_name), (''decision'', VStr decision)]) s1 = Ok s2"
    "resume_run now wid s2 = Ok s'"
    using assms(2) by (auto simp: record_decision_def then_do_Ok_iff)
  then show ?thesis using assms(1) by (auto simp: row_writes dest!: rows.lookup_modify)
qed

lemma record_decision_succeeds:
  assumes "row_at s wid = Some r" obtains s' where "record_decision now wid step_name decision k s = Ok s'"
proof -
  have "row_note wid (record_decision now wid step_name decision k)"
    unfolding record_decision_def [abs_def] resume_run_def
    by (intro row_note_then row_note_update_step row_note_append_event row_note_set_status)
  from row_note_row [OF this assms] that show thesis by blast
qed

lemma restored_results:
  "wf_dict d \<Longrightarrow> map_of (dict_merge [] d) = map_of d"
  by (rule ext) (simp add: map_of_dict_merge split: option.split)

text \<open>
  A decision reaches a run only if it is paused at the step the decision names; in every other
  case \<open>approve\<close> raises and leaves store and tasks as they were.
\<close>

theorem approve_needs_pause:
  assumes "\<nexists>s r. lr_store lr = Some s \<and> row_at s wid = Some r \<and> rr_status r = ''paused''
     \<and> rr_current_step r = Some step_name"
  shows "\<exists>e. approve_run now wid step_name decision lr = (Err e, lr)"
proof (cases "lr_store lr")
  case (Some s)
  have "approval_key wid step_name s \<noteq> Ok k" for k
    using assms Some by (blast elim: approval_key_guard)
  then obtain e where "approval_key wid step_name s = Err e" by (cases "approval_key wid step_name s") auto
  with Some show ?thesis by (simp add: approve_run_def)
qed (simp add: approve_run_def)

text \<open>
  An accepted decision is recorded for the step and the run goes on: the step's result becomes
  completed with the decision in its output, no other result and no other run changes, the decision
  is appended to the events, and a task is launched on the stored results. The recorded status does
  not depend on the decision.
\<close>

theorem approve_records_decision:
  assumes "lr_store lr = Some s" and "row_at s wid = Some r" and "wf_dict (rr_steps r)"
    and "approve_run now wid step_name decision lr = (Ok (), lr')"
  shows "\<exists>k s' r' nodes gs. approval_key wid step_name s = Ok k
    \<and> lr_store lr' = Some s' \<and> row_at s' = (row_at s)(wid \<mapsto> r')
    \<and> map_of (rr_steps r') = (map_of (rr_steps r))(k \<mapsto> step_data k (VStr ''completed'')
         (VDict [(''approved'', VBool (decision = ''approved''))]) VNone)
    \<and> rr_events r' = rr_events r @ [stamped now (event ''step.approved''
         [(''step'', VStr step_name), (''decision'', VStr decision)])]
    \<and> rr_status r' = ''running''
    \<and> map_of (lr_running lr') wid = Some (nodes, gs)
    \<and> map_of (gs_step_results gs) = map_of (rr_steps r') \<and> \<not> paused gs"
proof -
  obtain k s' where k: "approval_key wid step_name s = Ok k" "record_decision now wid step_name decision k s = Ok s'"
    and res: "resume_from_store wid s' (lr\<lparr>lr_store := Some s'\<rparr>) = (Ok (), lr')"
    using assms(1,4) by (auto simp: approve_run_def then_do_Ok_iff split: sum.splits)
  from record_decision_row [OF assms(2) k(2)] obtain r' where
    r': "row_at s' = (row_at s)(wid \<mapsto> r')" "rr_status r' = ''running''"
      "rr_steps r' = dict_set k (step_data k (VStr ''completed'')
         (VDict [(''approved'', VBool (decision = ''approved''))]) VNone) (rr_steps r)"
      "rr_events r' = rr_events r @ [stamped now (event ''step.approved''
         [(''step'', VStr step_name), (''decision'', VStr decision)])]" by blast
  have "row_at s' wid = Some r'" using r'(1) by simp
  then have get: "get wid s' = Ok (Some r')" using row_at_connected by (simp add: get_Ok_iff)
  obtain nodes gs where b: "build_graph (rr_definition r') wid (args_of_row r') = Ok (nodes, gs)"
    using res get by (auto simp: resume_from_store_def split: sum.splits)
  let ?gs = "gs\<lparr>gs_resume_trace_parent := dget (rr_workflow_context r') ''trace_parent'',
      gs_paused_at_step := None, gs_step_results := dict_merge (gs_step_results gs) (rr_steps r')\<rparr>"
  have lr': "lr' = launch wid nodes ?gs (lr\<lparr>lr_store := Some s'\<rparr>)"
    using res get b r'(2) by (simp add: resume_from_store_def Let_def)
  have "gs_step_results gs = []" using b by (auto simp: build_graph_def then_do_Ok_iff)
  moreover have "wf_dict (rr_steps r')" using r'(3) assms(3) by simp
  ultimately have "map_of (gs_step_results ?gs) = map_of (rr_steps r')" by (simp add: restored_results)
  then show ?thesis using k(1) r' lr' by (auto simp: launch_def paused_def fun_eq_iff)
qed

section \<open>A one-step approval gate\<close>

definition one_gate :: "string \<Rightarrow> pydict \<Rightarrow> bool" where
  "one_gate n definition =
     (\<exists>spec step. dget_or definition ''spec'' (VDict []) = VDict spec \<and> dget_or spec ''steps'' (VList []) = VList [VDict step]
        \<and> map_of step ''name'' = Some (VStr n) \<and> map_of step ''type'' = Some (VStr ''human-approval'')
        \<and> map_of step ''output_key'' = None \<and> map_of step ''message'' = None
        \<and> is_dict (dget_or definition ''metadata'' (VDict [])))"

lemma one_gate_graph:
  assumes "one_gate n definition"
  obtains gs step where "build_graph definition wid args = Ok ([(n, ApprovalNode)], gs)"
    "gs_step_defs gs = [(n, step)]" "dget_or step ''output_key'' (VStr n) = VStr ''result''"
    "dget step ''message'' = VNone" "gs_step_results gs = []" "gs_approval_policy gs = ra_approval_policy args"
proof -
  obtain spec step where d: "dget_or definition ''spec'' (VDict []) = VDict spec"
    "dget_or spec ''steps'' (VList []) = VList [VDict step]"
    "map_of step ''name'' = Some (VStr n)" "map_of step ''type'' = Some (VStr ''human-approval'')"
    "map_of step ''output_key'' = None" "map_of step ''message'' = None"
    "is_dict (dget_or definition ''metadata'' (VDict []))"
    using assms by (auto simp: one_gate_def)
  let ?step = "dict_set ''output_key'' (VStr ''result'') step"
  obtain md where md: "dget_or definition ''metadata'' (VDict []) = VDict md"
    using d(7) by (cases "dget_or definition ''metadata'' (VDict [])") auto
  have "graph_steps definition = Ok [?step]"
    using d by (simp add: graph_steps_def apply_one_step_defaults_def dget_def Let_def)
  moreover have "text_at ?step ''name'' = Ok n" using d by (simp add: text_at_def)
  moreover have "node_of ?step = Ok (n, ApprovalNode)" using d by (simp add: node_of_def text_at_def dget_or_def)
  moreover obtain defaults where "workflow_defaults_from_definition definition = Ok defaults"
    using d(1) by (simp add: workflow_defaults_from_definition_def)
  ultimately have "\<exists>gs. build_graph definition wid args = Ok ([(n, ApprovalNode)], gs)
      \<and> gs_step_defs gs = [(n, ?step)] \<and> gs_step_results gs = [] \<and> gs_approval_policy gs = ra_approval_policy args"
    using md by (simp add: build_graph_def)
  moreover have "dget_or ?step ''output_key'' (VStr n) = VStr ''result''" "dget ?step ''message'' = VNone"
    using d(6) by (simp_all add: dget_def)
  ultimately show thesis using that by blast
qed

text \<open>
  The graph of a one-step definition stores under the defaulted key \<open>result\<close>, the decision is stored
  under the step's name. Hence a one-step approval workflow that leaves the output key to the default
  is accepted and started, but approving it never gets it past its gate: the resumed run pauses at
  the same step again.
\<close>

theorem one_step_gate_never_passes:
  assumes "graph_engine (le_yields env)" and "lr_store lr = Some s" and "row_at s wid = Some r"
    and "rr_status r = ''paused''" and "rr_current_step r = Some n" and "one_gate n (rr_definition r)"
    and "rr_steps r = [(''result'', step_data ''result'' (VStr ''awaiting_approval'') VNone VNone)]"
    and "n \<notin> {[], ''result''}" and "\<not> prefix ''__'' n"
    and "auto_approve (dget (rr_workflow_context r) ''approval_policy'') = Ok False" and "\<not> le_cancelled env w"
  shows "\<exists>lr' lr''. approve_run now wid n ''approved'' lr = (Ok (), lr') \<and> run_task env wid lr' w = Some (SegPaused n, lr'', w)"
proof -
  obtain spec step where d: "dget_or (rr_definition r) ''spec'' (VDict []) = VDict spec"
    "dget_or spec ''steps'' (VList []) = VList [VDict step]" "map_of step ''name'' = Some (VStr n)"
    "map_of step ''output_key'' = None"
    using assms(6) by (auto simp: one_gate_def)
  have "get wid s = Ok (Some r)" using assms(3) row_at_connected by (simp add: get_Ok_iff)
  then have key: "approval_key wid n s = Ok n"
    using d assms(4,5) by (simp add: approval_key_def text_at_def dget_or_def)
  obtain s' where s': "record_decision now wid n ''approved'' n s = Ok s'"
    using record_decision_succeeds [OF assms(3)] by blast
  from record_decision_row [OF assms(3) s'] obtain r' where r': "row_at s' = (row_at s)(wid \<mapsto> r')"
    "rr_status r' = ''running''" "rr_definition r' = rr_definition r" "rr_workflow_context r' = rr_workflow_context r"
    "rr_steps r' = dict_set n (step_data n (VStr ''completed'') (VDict [(''approved'', VBool True)]) VNone) (rr_steps r)"
    by auto
  have row': "row_at s' wid = Some r'" using r'(1) by simp
  then have get': "get wid s' = Ok (Some r')" using row_at_connected by (simp add: get_Ok_iff)
  have gate: "one_gate n (rr_definition r')" using assms(6) r'(3) by simp
  obtain gs0 step' where b: "build_graph (rr_definition r') wid (args_of_row r') = Ok ([(n, ApprovalNode)], gs0)"
    "gs_step_defs gs0 = [(n, step')]" "dget_or step' ''output_key'' (VStr n) = VStr ''result''"
    "dget step' ''message'' = VNone" "gs_step_results gs0 = []"
    "gs_approval_policy gs0 = ra_approval_policy (args_of_row r')"
    by (rule one_gate_graph [OF gate])
  define gs where "gs = gs0\<lparr>gs_resume_trace_parent := dget (rr_workflow_context r') ''trace_parent'',
      gs_paused_at_step := None, gs_step_results := dict_merge (gs_step_results gs0) (rr_steps r')\<rparr>"
  let ?lr = "launch wid [(n, ApprovalNode)] gs (lr\<lparr>lr_store := Some s'\<rparr>)"
  have appr: "approve_run now wid n ''approved'' lr = (Ok (), ?lr)"
    using assms(2) key s' get' b(1) r'(2) by (simp add: approve_run_def resume_from_store_def gs_def Let_def)
  have ne: "''result'' \<noteq> n" using assms(8) by auto
  have res: "gs_step_results gs = [(''result'', step_data ''result'' (VStr ''awaiting_approval'') VNone VNone),
      (n, step_data n (VStr ''completed'') (VDict [(''approved'', VBool True)]) VNone)]"
    using b(5) by (simp add: gs_def r'(5) assms(7) ne ne [symmetric])
  have key': "output_key_of gs n = Ok (step', ''result'')" using b(2,3) by (simp add: output_key_of_def gs_def)
  have auto: "auto_approve (gs_approval_policy gs) = Ok False"
    using assms(10) b(6) r'(4) by (simp add: gs_def args_of_row_def Let_def)
  have clean: "failed_steps gs = []" "\<not> paused gs"
    by (simp add: failed_steps_def res step_data_def) (simp add: paused_def gs_def)
  let ?gs' = "set_result ''result'' [(''status'', VStr ''awaiting_approval''), (''output'', VNone)]
      (gs\<lparr>gs_paused_at_step := Some n\<rparr>)"
  have step: "run_node env [(n, ApprovalNode)] n gs w = (Ok (), ?gs', w)"
    using key' auto b(4) by (simp add: run_node_def approval_step_def result_at_def res step_data_def approval_message_def)
  have after: "failed_steps ?gs' = []" "paused ?gs'" "gs_paused_at_step ?gs' = Some n"
    using assms(8) by (simp_all add: failed_steps_def set_result_def res step_data_def paused_def)
  have "outcome_part (execute env wid [(n, ApprovalNode)] gs (Some s') w) = (SegPaused n, ?gs', w)"
    using execute_refines_chain [OF assms(1), of "[(n, ApprovalNode)]" wid "Some s'" gs w] assms(9,11) row' clean step after
    by (simp add: chain_ok_def has_row_def run_chain.simps)
  then obtain st where "execute env wid [(n, ApprovalNode)] gs (Some s') w = (SegPaused n, ?gs', st, w)"
    by (cases "execute env wid [(n, ApprovalNode)] gs (Some s') w") (simp add: outcome_part_def)
  then have "run_task env wid ?lr w = Some (SegPaused n, ?lr\<lparr>lr_store := st,
      lr_running := filter (\<lambda>(k, v). k \<noteq> wid) (lr_running ?lr)\<rparr>, w)"
    by (simp add: run_task_def launch_def)
  with appr show ?thesis by blast
qed

section \<open>A concrete run\<close>

definition now0 :: instant where
  "now0 = \<lparr>in_time = 0, in_iso = ''2026-01-01T00:00:00+00:00''\<rparr>"

definition sample_env :: "nat local_env" where
  "sample_env = \<lparr>le_platform = strict_platform, le_spawner = False, le_tools_module = VNone,
     le_attempt = (\<lambda>_ _ _ w. (Returned \<lparr>ex_status = ''completed'', ex_output = VDict [(''hosts'', VInt 3)],
                                       ex_error = None\<rparr>, Suc w)),
     le_trace_parent = (\<lambda>_. VNone), le_now = (\<lambda>w. now0\<lparr>in_time := w\<rparr>), le_cancelled = (\<lambda>_. False),
     le_yields = chain_yields\<rparr>"

definition triage_definition :: pydict where
  "triage_definition =
     [(''metadata'', VDict [(''name'', VStr ''triage'')]),
      (''spec'', VDict [(''steps'', VList
        [VDict [(''name'', VStr ''scan''), (''type'', VStr ''agent''), (''prompt'', VStr ''scan the hosts''),
                (''output_key'', VStr ''hosts''), (''spawn'', VStr ''none'')],
         VDict [(''name'', VStr ''gate''), (''type'', VStr ''human-approval''), (''output_key'', VStr ''ok'')]])])]"

definition sample_row :: run_row where
  "sample_row = initial_row now0 ''triage'' triage_definition [(''name'', VStr ''openai''), (''model'', VStr ''gpt-4o'')] []
     None None None"

definition one_row_store :: "run_row \<Rightarrow> run_state_store" where
  "one_row_store r = \<lparr>rs_connected = True, rs_rows = [(''wf'', r)]\<rparr>"

definition sample_graph :: "(string \<times> node_kind) list \<times> graph_state" where
  "sample_graph = (case build_graph triage_definition ''wf'' (args_of_row sample_row) of Inr g \<Rightarrow> g | Inl _ \<Rightarrow> undefined)"

definition sample_nodes :: "(string \<times> node_kind) list" where
  "sample_nodes = [(''scan'', AgentNode), (''gate'', ApprovalNode)]"

definition sample_state :: graph_state where
  "sample_state = snd sample_graph"

lemma sample_engine: "graph_engine (le_yields sample_env)"
  by (simp add: sample_env_def chain.graph_engine_axioms)

lemma sample_chain: "chain_ok (map fst sample_nodes)"
  by (simp add: sample_nodes_def chain_ok_def)

theorem execute_refines_chain_witness:
  "outcome_part (execute sample_env ''wf'' sample_nodes sample_state (Some (one_row_store sample_row)) 0)
     = run_chain sample_env sample_nodes (Ok ()) (map fst sample_nodes) sample_state 0"
  by (rule execute_refines_chain [OF sample_engine sample_chain]) (simp add: has_row_def one_row_store_def row_at_def)

theorem segment_reports_witness:
  "\<exists>gs' s' r' w'. execute sample_env ''wf'' sample_nodes sample_state (Some (one_row_store sample_row)) 0
       = (SegPaused ''gate'', gs', Some s', w')
     \<and> row_at s' ''wf'' = Some r' \<and> rr_status r' = ''paused'' \<and> rr_current_step r' = Some ''gate''
     \<and> map_of (rr_steps r') ''hosts'' = map_option (stored_result ''hosts'') (map_of (gs_step_results gs') ''hosts'')"
proof -
  obtain out gs' st' w' where run: "execute sample_env ''wf'' sample_nodes sample_state (Some (one_row_store sample_row)) 0
      = (out, gs', st', w')" by (cases "execute sample_env ''wf'' sample_nodes sample_state (Some (one_row_store sample_row)) 0")
  have "fst (execute sample_env ''wf'' sample_nodes sample_state (Some (one_row_store sample_row)) 0) = SegPaused ''gate''"
    by code_simp
  then have out: "out = SegPaused ''gate''" by (simp add: run)
  have st: "gs_step_results sample_state = []" by code_simp
  have row: "row_at (one_row_store sample_row) ''wf'' = Some sample_row" by (simp add: one_row_store_def row_at_def)
  have "wf_dict (gs_step_results sample_state)" by (simp add: st)
  moreover have "distinct (map (node_key sample_state) (map fst sample_nodes))" by code_simp
  moreover have "set (keys (rr_steps sample_row)) \<subseteq> set (keys (gs_step_results sample_state))"
    by (simp add: sample_row_def initial_row_def)
  ultimately show ?thesis
    using segment_reports [OF sample_engine sample_chain row _ _ _ run] out run by (auto simp: st)
qed

definition paused_row :: run_row where
  "paused_row = sample_row\<lparr>rr_status := ''paused'', rr_current_step := Some ''gate'',
     rr_steps := [(''hosts'', stored_result ''hosts'' [(''status'', VStr ''completed'')]),
                  (''ok'', stored_result ''ok'' [(''status'', VStr ''awaiting_approval'')])]\<rparr>"

definition paused_runner :: local_runner where
  "paused_runner = \<lparr>lr_store = Some (one_row_store paused_row), lr_running = []\<rparr>"

theorem approve_needs_pause_witness:
  "\<exists>e. approve_run now0 ''wf'' ''scan'' ''approved'' paused_runner = (Err e, paused_runner)"
  by (rule approve_needs_pause) (auto simp: paused_runner_def one_row_store_def row_at_def paused_row_def)

theorem approve_records_decision_witness:
  "\<exists>lr' r' nodes gs. approve_run now0 ''wf'' ''gate'' ''rejected'' paused_runner = (Ok (), lr')
     \<and> (\<exists>s'. lr_store lr' = Some s' \<and> row_at s' ''wf'' = Some r') \<and> rr_status r' = ''running''
     \<and> map_of (rr_steps r') ''ok'' = Some (step_data ''ok'' (VStr ''completed'') (VDict [(''approved'', VBool False)]) VNone)
     \<and> map_of (lr_running lr') ''wf'' = Some (nodes, gs)"
proof -
  have ok: "approve_run now0 ''wf'' ''gate'' ''rejected'' paused_runner
      = (Ok (), snd (approve_run now0 ''wf'' ''gate'' ''rejected'' paused_runner))"
    by (rule prod_eqI) (code_simp, simp)
  have key: "approval_key ''wf'' ''gate'' (one_row_store paused_row) = Ok ''ok''" by code_simp
  have "lr_store paused_runner = Some (one_row_store paused_row)" by (simp add: paused_runner_def)
  moreover have "row_at (one_row_store paused_row) ''wf'' = Some paused_row" by (simp add: one_row_store_def row_at_def)
  moreover have "wf_dict (rr_steps paused_row)" by (simp add: paused_row_def wf_dict_def)
  ultimately show ?thesis using approve_records_decision [OF _ _ _ ok] key ok by (fastforce simp: fun_eq_iff)
qed

definition gate_row :: run_row where
  "gate_row = (initial_row now0 ''gated'' [(''spec'', VDict [(''steps'', VList
        [VDict [(''name'', VStr ''gate''), (''type'', VStr ''human-approval'')]])])] [] [] None None None)
     \<lparr>rr_status := ''paused'', rr_current_step := Some ''gate'',
      rr_steps := [(''result'', step_data ''result'' (VStr ''awaiting_approval'') VNone VNone)]\<rparr>"

theorem one_step_gate_never_passes_witness:
  "\<exists>lr' lr''. approve_run now0 ''wf'' ''gate'' ''approved'' \<lparr>lr_store = Some (one_row_store gate_row), lr_running = []\<rparr>
       = (Ok (), lr') \<and> run_task sample_env ''wf'' lr' 0 = Some (SegPaused ''gate'', lr'', 0)"
proof (rule one_step_gate_never_passes [OF sample_engine])
  show "row_at (one_row_store gate_row) ''wf'' = Some gate_row" by (simp add: one_row_store_def row_at_def)
  show "one_gate ''gate'' (rr_definition gate_row)" by (simp add: one_gate_def gate_row_def initial_row_def)
qed (simp_all add: gate_row_def initial_row_def auto_approve_def sample_env_def)

end
