(* ===== verification/Guards.thy ===== *)
theory Guards
  imports Complex_Main Keyed
begin

text \<open>
  The in-process guards of \<open>runtime/\<close>: the per-provider circuit breaker of
  \<open>circuit_breaker.py\<close> and the token bucket of \<open>rate_limiter.py\<close> with its ASGI middleware. Times
  and token counts are rational numbers where the code has floats; the value of
  \<open>time.monotonic()\<close> is an argument of each operation.
\<close>

section \<open>Circuit breaker\<close>

record provider_state =
  ps_failures :: nat
  ps_last_failure :: rat

type_synonym breaker = "provider_state dict"

definition record_success :: "string \<Rightarrow> breaker \<Rightarrow> breaker" where
  "record_success provider providers =
     (case map_of providers provider of
        None \<Rightarrow> providers
      | Some st \<Rightarrow> dict_set provider (st\<lparr>ps_failures := 0\<rparr>) providers)"

definition record_failure :: "string \<Rightarrow> rat \<Rightarrow> breaker \<Rightarrow> breaker" where
  "record_failure provider now providers =
     (let st = (case map_of providers provider of
                  None \<Rightarrow> \<lparr>ps_failures = 0, ps_last_failure = 0\<rparr>
                | Some st \<Rightarrow> st) in
        dict_set provider \<lparr>ps_failures = ps_failures st + 1, ps_last_failure = now\<rparr> providers)"

definition is_open :: "int \<Rightarrow> rat \<Rightarrow> string \<Rightarrow> rat \<Rightarrow> breaker \<Rightarrow> bool \<times> breaker" where
  "is_open threshold reset_seconds provider now providers =
     (case map_of providers provider of
        None \<Rightarrow> (False, providers)
      | Some st \<Rightarrow>
          if int (ps_failures st) < threshold then (False, providers)
          else if now - ps_last_failure st > reset_seconds then
            (False, dict_set provider (st\<lparr>ps_failures := 0\<rparr>) providers)
          else (True, providers))"

datatype breaker_event = Success string | Failure string rat | Probe string rat

fun event_provider :: "breaker_event \<Rightarrow> string" where
  "event_provider (Success p) = p"
| "event_provider (Failure p t) = p"
| "event_provider (Probe p t) = p"

fun breaker_step :: "int \<Rightarrow> rat \<Rightarrow> breaker_event \<Rightarrow> breaker \<Rightarrow> breaker" where
  "breaker_step threshold reset (Success p) s = record_success p s"
| "breaker_step threshold reset (Failure p t) s = record_failure p t s"
| "breaker_step threshold reset (Probe p t) s = snd (is_open threshold reset p t s)"

text \<open>Each provider has a breaker of its own.\<close>

interpretation breaker: keyed_component "breaker_step threshold reset" event_provider map_of
  for threshold reset
proof (unfold_locales, goal_cases)
  case (1 e k s)
  then show ?case
    by (cases e) (auto simp: record_success_def record_failure_def is_open_def split: option.splits)
next
  case (2 s k s' e)
  then show ?case
    by (cases e) (auto simp: record_success_def record_failure_def is_open_def split: option.splits)
qed

text \<open>
  The abstract breaker of one provider: the failures in a row, counting from the last success or
  from the last probe that found the reset time elapsed, and the time of the last failure.
\<close>

fun streak :: "int \<Rightarrow> rat \<Rightarrow> breaker_event list \<Rightarrow> (nat \<times> rat) \<Rightarrow> nat \<times> rat" where
  "streak threshold reset [] st = st"
| "streak threshold reset (Success p # es) (n, t) = streak threshold reset es (0, t)"
| "streak threshold reset (Failure p now # es) (n, t) = streak threshold reset es (n + 1, now)"
| "streak threshold reset (Probe p now # es) (n, t) =
     streak threshold reset es (if threshold \<le> int n \<and> now - t > reset then 0 else n, t)"

definition own_events :: "string \<Rightarrow> breaker_event list \<Rightarrow> breaker_event list" where
  "own_events p es = filter (\<lambda>e. event_provider e = p) es"

definition abs_state :: "string \<Rightarrow> breaker \<Rightarrow> nat \<times> rat" where
  "abs_state p s = (case map_of s p of None \<Rightarrow> (0, 0) | Some st \<Rightarrow> (ps_failures st, ps_last_failure st))"

lemma abs_state_step:
  "event_provider e = p \<Longrightarrow> abs_state p (breaker_step threshold reset e s) = streak threshold reset [e] (abs_state p s)"
  by (cases e) (auto simp: abs_state_def record_success_def record_failure_def is_open_def
      split: option.splits)

lemma streak_append: "streak th r (es @ fs) st = streak th r fs (streak th r es st)"
  by (induction th r es st rule: streak.induct) auto

lemma abs_state_run:
  "(\<And>e. e \<in> set es \<Longrightarrow> event_provider e = p) \<Longrightarrow>
   abs_state p (breaker.run threshold reset es s) = streak threshold reset es (abs_state p s)"
proof (induction es arbitrary: s)
  case (Cons e es)
  then show ?case
    using streak_append [of threshold reset "[e]" es] by (simp add: abs_state_step)
qed simp

lemma abs_state_projection:
  "abs_state p (breaker.run threshold reset es s) = streak threshold reset (own_events p es) (abs_state p s)"
proof -
  have "abs_state p (breaker.run threshold reset es s)
      = abs_state p (breaker.run threshold reset (own_events p es) s)"
    unfolding abs_state_def own_events_def by (subst breaker.projection) simp
  also have "\<dots> = streak threshold reset (own_events p es) (abs_state p s)"
    by (rule abs_state_run) (simp add: own_events_def)
  finally show ?thesis .
qed

text \<open>
  The breaker fails fast exactly when it should: after any sequence of calls on a fresh breaker
  the circuit of a provider is open iff that provider's own events end in at least \<open>threshold\<close>
  failures in a row, the last of them no longer than the reset time ago. Calls for other
  providers, in whatever order, have no influence.
\<close>

theorem breaker_open_iff:
  assumes "0 < threshold"
  shows "fst (is_open threshold reset p now (fold (breaker_step threshold reset) es [])) \<longleftrightarrow>
    (case streak threshold reset (own_events p es) (0, 0) of
       (n, t) \<Rightarrow> threshold \<le> int n \<and> now - t \<le> reset)"
proof -
  have "abs_state p [] = (0, 0)" by (simp add: abs_state_def)
  then have "abs_state p (fold (breaker_step threshold reset) es []) = streak threshold reset (own_events p es) (0, 0)"
    using abs_state_projection [of p threshold reset es "[]"] by (simp add: breaker.run_def)
  then show ?thesis
    using assms by (auto simp: is_open_def abs_state_def split: option.splits)
qed

theorem breaker_open_iff_witness:
  "fst (is_open 2 60 ''openai'' 10 (fold (breaker_step 2 60)
      [Failure ''openai'' 1, Failure ''claude'' 2, Failure ''openai'' 3] [])) \<longleftrightarrow>
    (case streak 2 60 (own_events ''openai''
        [Failure ''openai'' 1, Failure ''claude'' 2, Failure ''openai'' 3]) (0, 0) of
       (n, t) \<Rightarrow> 2 \<le> int n \<and> 10 - t \<le> (60::rat))"
  by (rule breaker_open_iff) simp

section \<open>Token bucket\<close>

record bucket =
  bk_tokens :: rat
  bk_last_refill :: rat

record limiter =
  lm_buckets :: "bucket dict"
  lm_call_count :: nat

definition cleanup_interval :: nat where
  "cleanup_interval = 100"

definition refill :: "rat \<Rightarrow> int \<Rightarrow> rat \<Rightarrow> bucket \<Rightarrow> bucket" where
  "refill rate burst now b =
     (let elapsed = now - bk_last_refill b in
        if elapsed > 0
        then \<lparr>bk_tokens = min (of_int burst) (bk_tokens b + elapsed * rate), bk_last_refill = now\<rparr>
        else b)"

definition cleanup_stale :: "rat \<Rightarrow> int \<Rightarrow> rat \<Rightarrow> bucket dict \<Rightarrow> bucket dict" where
  "cleanup_stale rate burst now buckets =
     (if rate \<le> 0 then buckets
      else let max_age = 2 * of_int burst / rate in
        filter (\<lambda>(k, b). \<not> now - bk_last_refill b > max_age) buckets)"

definition maybe_cleanup :: "rat \<Rightarrow> int \<Rightarrow> rat \<Rightarrow> limiter \<Rightarrow> limiter" where
  "maybe_cleanup rate burst now s =
     (if lm_call_count s + 1 < cleanup_interval then s\<lparr>lm_call_count := lm_call_count s + 1\<rparr>
      else s\<lparr>lm_call_count := 0, lm_buckets := cleanup_stale rate burst now (lm_buckets s)\<rparr>)"

definition allow :: "rat \<Rightarrow> int \<Rightarrow> string \<Rightarrow> rat \<Rightarrow> limiter \<Rightarrow> bool \<times> limiter" where
  "allow rate burst key now s =
     (if rate \<le> 0 then (True, s)
      else
        let b = (case map_of (lm_buckets s) key of
                   None \<Rightarrow> \<lparr>bk_tokens = of_int burst, bk_last_refill = now\<rparr>
                 | Some b \<Rightarrow> b);
            b = refill rate burst now b in
        if bk_tokens b \<ge> 1 then
          (True, maybe_cleanup rate burst now
             (s\<lparr>lm_buckets := dict_set key (b\<lparr>bk_tokens := bk_tokens b - 1\<rparr>) (lm_buckets s)\<rparr>))
        else
          (False, maybe_cleanup rate burst now (s\<lparr>lm_buckets := dict_set key b (lm_buckets s)\<rparr>)))"

text \<open>
  The abstract state of a limiter: how many tokens a key would have at a time. A key without a
  bucket has a full one.
\<close>

definition level :: "rat \<Rightarrow> int \<Rightarrow> limiter \<Rightarrow> string \<Rightarrow> rat \<Rightarrow> rat" where
  "level rate burst s key t =
     (case map_of (lm_buckets s) key of
        None \<Rightarrow> of_int burst
      | Some b \<Rightarrow> min (of_int burst) (bk_tokens b + (t - bk_last_refill b) * rate))"

text \<open>The invariant between calls, at clock \<open>now\<close>.\<close>

definition limiter_ok :: "int \<Rightarrow> rat \<Rightarrow> limiter \<Rightarrow> bool" where
  "limiter_ok burst now s =
     (wf_dict (lm_buckets s)
      \<and> (\<forall>(k, b) \<in> set (lm_buckets s). 0 \<le> bk_tokens b \<and> bk_tokens b \<le> of_int burst \<and> bk_last_refill b \<le> now))"

lemma limiter_ok_lookup:
  "limiter_ok burst now s \<Longrightarrow> map_of (lm_buckets s) k = Some b \<Longrightarrow>
   0 \<le> bk_tokens b \<and> bk_tokens b \<le> of_int burst \<and> bk_last_refill b \<le> now"
  by (auto simp: limiter_ok_def dest!: map_of_SomeD)

lemma level_cleanup:
  assumes "0 < rate" "0 \<le> burst" "limiter_ok burst now s" "now \<le> t"
  shows "level rate burst (maybe_cleanup rate burst now s) k t = level rate burst s k t"
proof (cases "lm_call_count s + 1 < cleanup_interval")
  case False
  let ?keep = "\<lambda>(k, b). \<not> now - bk_last_refill b > 2 * of_int burst / rate"
  have find: "map_of (filter ?keep (lm_buckets s)) k =
      (case map_of (lm_buckets s) k of None \<Rightarrow> None | Some b \<Rightarrow> if ?keep (k, b) then Some b else None)"
    using assms(3) by (simp add: limiter_ok_def map_of_filter)
  have "min (of_int burst) (bk_tokens b + (t - bk_last_refill b) * rate) = of_int burst"
    if b: "map_of (lm_buckets s) k = Some b" and stale: "now - bk_last_refill b > 2 * of_int burst / rate" for b
  proof -
    have "2 * of_int burst < (now - bk_last_refill b) * rate"
      using stale assms(1) by (simp add: divide_less_eq)
    also have "\<dots> \<le> (t - bk_last_refill b) * rate" using assms(1,4) by simp
    finally show ?thesis using limiter_ok_lookup [OF assms(3) b] assms(2) by simp
  qed
  then show ?thesis
    using False assms(1)
    by (auto simp: level_def maybe_cleanup_def cleanup_stale_def Let_def find split: option.splits)
qed (simp add: level_def maybe_cleanup_def)

lemma limiter_ok_cleanup:
  "limiter_ok burst now s \<Longrightarrow> limiter_ok burst now (maybe_cleanup rate burst now s)"
  by (auto simp: limiter_ok_def maybe_cleanup_def cleanup_stale_def Let_def)

lemma limiter_ok_later: "limiter_ok burst now s \<Longrightarrow> now \<le> t \<Longrightarrow> limiter_ok burst t s"
  by (force simp: limiter_ok_def)

lemma limiter_ok_set:
  assumes "limiter_ok burst now s" "0 \<le> bk_tokens b" "bk_tokens b \<le> of_int burst" "bk_last_refill b \<le> now"
  shows "limiter_ok burst now (s\<lparr>lm_buckets := dict_set k b (lm_buckets s)\<rparr>)"
proof -
  have "(a, v) \<in> set (dict_set k b d) \<Longrightarrow> (a, v) \<in> set d \<or> v = b" for a v d
    by (induction d) (auto split: if_splits)
  then show ?thesis using assms by (fastforce simp: limiter_ok_def)
qed

text \<open>The bucket a call works on, refilled to the call's time.\<close>

definition current_bucket :: "rat \<Rightarrow> int \<Rightarrow> string \<Rightarrow> rat \<Rightarrow> limiter \<Rightarrow> bucket" where
  "current_bucket rate burst key now s =
     refill rate burst now (case map_of (lm_buckets s) key of
        None \<Rightarrow> \<lparr>bk_tokens = of_int burst, bk_last_refill = now\<rparr> | Some b \<Rightarrow> b)"

lemma current_bucket_ok:
  assumes "0 < rate" "0 \<le> burst" "limiter_ok burst now0 s" "now0 \<le> now"
  shows "bk_tokens (current_bucket rate burst key now s) = level rate burst s key now"
    and "0 \<le> level rate burst s key now" and "level rate burst s key now \<le> of_int burst"
    and "bk_last_refill (current_bucket rate burst key now s) = now"
proof -
  have "0 \<le> bk_tokens b + (now - bk_last_refill b) * rate"
    if "map_of (lm_buckets s) key = Some b" for b
    using limiter_ok_lookup [OF assms(3) that] assms(1,4) by (intro add_nonneg_nonneg) auto
  then show "0 \<le> level rate burst s key now" and "level rate burst s key now \<le> of_int burst"
    using assms(2) by (auto simp: level_def split: option.splits)
  have "bk_last_refill b = now \<or> bk_last_refill b < now" and "bk_tokens b \<le> of_int burst"
    if "map_of (lm_buckets s) key = Some b" for b
    using limiter_ok_lookup [OF assms(3) that] assms(4) by auto
  then show "bk_tokens (current_bucket rate burst key now s) = level rate burst s key now"
    "bk_last_refill (current_bucket rate burst key now s) = now"
    by (fastforce simp: current_bucket_def level_def refill_def Let_def split: option.splits)+
qed

text \<open>The call without the cleanup that follows it; also the reference the code is compared with.\<close>

definition ideal_allow :: "rat \<Rightarrow> int \<Rightarrow> string \<Rightarrow> rat \<Rightarrow> limiter \<Rightarrow> bool \<times> limiter" where
  "ideal_allow rate burst key now s =
     (let b = current_bucket rate burst key now s; ok = (1 \<le> bk_tokens b) in
       (ok, s\<lparr>lm_buckets := dict_set key (b\<lparr>bk_tokens := bk_tokens b - (if ok then 1 else 0)\<rparr>) (lm_buckets s)\<rparr>))"

lemma allow_ideal:
  "0 < rate \<Longrightarrow> allow rate burst key now s =
    (case ideal_allow rate burst key now s of (ok, s1) \<Rightarrow> (ok, maybe_cleanup rate burst now s1))"
  by (simp add: allow_def ideal_allow_def current_bucket_def Let_def)

lemma ideal_spec:
  assumes "0 < rate" "0 \<le> burst" "limiter_ok burst now0 s" "now0 \<le> now"
    and "ideal_allow rate burst key now s = (ok, s1)"
  shows "ok \<longleftrightarrow> 1 \<le> level rate burst s key now"
    and "limiter_ok burst now s1"
    and "level rate burst s1 k t =
      (if k = key then min (of_int burst) (level rate burst s key now - (if ok then 1 else 0) + (t - now) * rate)
       else level rate burst s k t)"
proof -
  let ?b = "current_bucket rate burst key now s"
  let ?s1 = "s\<lparr>lm_buckets := dict_set key (?b\<lparr>bk_tokens := bk_tokens ?b - (if ok then 1 else 0)\<rparr>) (lm_buckets s)\<rparr>"
  note b = current_bucket_ok [OF assms(1-4), of key]
  show ok: "ok \<longleftrightarrow> 1 \<le> level rate burst s key now"
    using assms(5) b(1) by (simp add: ideal_allow_def Let_def)
  have s1: "s1 = ?s1"
    using assms(5) by (auto simp: ideal_allow_def Let_def)
  show "limiter_ok burst now s1" unfolding s1
    using b ok by (intro limiter_ok_set limiter_ok_later [OF assms(3,4)]) auto
  show "level rate burst s1 k t =
      (if k = key then min (of_int burst) (level rate burst s key now - (if ok then 1 else 0) + (t - now) * rate)
       else level rate burst s k t)"
    unfolding s1 using b by (simp add: level_def)
qed

lemma allow_spec:
  assumes "0 < rate" "0 \<le> burst" "limiter_ok burst now0 s" "now0 \<le> now"
    and "allow rate burst key now s = (ok, s')"
  shows "ok \<longleftrightarrow> 1 \<le> level rate burst s key now"
    and "limiter_ok burst now s'"
    and "now \<le> t \<Longrightarrow> level rate burst s' k t =
      (if k = key then min (of_int burst) (level rate burst s key now - (if ok then 1 else 0) + (t - now) * rate)
       else level rate burst s k t)"
proof -
  obtain s1 where s1: "ideal_allow rate burst key now s = (ok, s1)" "s' = maybe_cleanup rate burst now s1"
    using assms(5) by (auto simp: allow_ideal [OF assms(1)] split: prod.splits)
  note spec = ideal_spec [OF assms(1-4) s1(1)]
  show "ok \<longleftrightarrow> 1 \<le> level rate burst s key now" by (rule spec(1))
  show "limiter_ok burst now s'" unfolding s1(2) by (rule limiter_ok_cleanup) (rule spec(2))
  show "level rate burst s' k t =
      (if k = key then min (of_int burst) (level rate burst s key now - (if ok then 1 else 0) + (t - now) * rate)
       else level rate burst s k t)" if "now \<le> t"
    unfolding s1(2) level_cleanup [OF assms(1,2) spec(2) that] by (rule spec(3))
qed

text \<open>A run of the limiter over requests with their times, and the decisions it makes.\<close>

fun decisions :: "rat \<Rightarrow> int \<Rightarrow> limiter \<Rightarrow> (string \<times> rat) list \<Rightarrow> bool list" where
  "decisions rate burst s [] = []"
| "decisions rate burst s ((key, now) # reqs) =
     (case allow rate burst key now s of (ok, s') \<Rightarrow> ok # decisions rate burst s' reqs)"

definition admitted :: "rat \<Rightarrow> int \<Rightarrow> string \<Rightarrow> limiter \<Rightarrow> (string \<times> rat) list \<Rightarrow> nat" where
  "admitted rate burst key s reqs =
     length (filter (\<lambda>((k, t), ok). k = key \<and> ok) (zip reqs (decisions rate burst s reqs)))"

fun times_from :: "rat \<Rightarrow> (string \<times> rat) list \<Rightarrow> bool" where
  "times_from now [] = True"
| "times_from now ((k, t) # reqs) = (now \<le> t \<and> times_from t reqs)"

fun last_time :: "rat \<Rightarrow> (string \<times> rat) list \<Rightarrow> rat" where
  "last_time now [] = now"
| "last_time now ((k, t) # reqs) = last_time t reqs"

lemma last_time_ge: "times_from now reqs \<Longrightarrow> now \<le> last_time now reqs"
  by (induction now reqs rule: times_from.induct) auto

lemma min_add_le: "0 \<le> d \<Longrightarrow> min B (y + d) \<le> min B y + (d::rat)"
  by (simp add: min_def)

lemma level_growth:
  assumes "0 < rate" "now \<le> t"
  shows "level rate burst s k t \<le> level rate burst s k now + (t - now) * rate"
proof (cases "map_of (lm_buckets s) k")
  case None
  then show ?thesis using assms by (simp add: level_def)
next
  case (Some b)
  let ?y = "bk_tokens b + (now - bk_last_refill b) * rate" and ?d = "(t - now) * rate"
  have "bk_tokens b + (t - bk_last_refill b) * rate = ?y + ?d" by (simp add: algebra_simps)
  moreover have "0 \<le> ?d" using assms by simp
  ultimately show ?thesis
    using min_add_le [of ?d "of_int burst" ?y] by (simp only: level_def Some option.case)
qed

lemma admitted_Cons:
  "allow rate burst k t s = (ok, s') \<Longrightarrow>
   admitted rate burst key s ((k, t) # reqs) = (if k = key \<and> ok then 1 else 0) + admitted rate burst key s' reqs"
  by (simp add: admitted_def)

lemma admitted_bound:
  assumes "0 < rate" "0 \<le> burst" "limiter_ok burst now s" "times_from now reqs"
  shows "of_nat (admitted rate burst key s reqs) \<le> level rate burst s key now + (last_time now reqs - now) * rate"
  using assms(3,4)
proof (induction reqs arbitrary: s now)
  case Nil
  then show ?case using current_bucket_ok(2) [OF assms(1,2) Nil(1) order_refl] by (simp add: admitted_def)
next
  case (Cons req reqs)
  obtain k t where req: "req = (k, t)" by (cases req)
  obtain ok s' where step: "allow rate burst k t s = (ok, s')" by fastforce
  have t: "now \<le> t" and rest: "times_from t reqs" using Cons.prems(2) by (auto simp: req)
  note spec = allow_spec [OF assms(1,2) Cons.prems(1) t step]
  have "of_nat (admitted rate burst key s' reqs) \<le> level rate burst s' key t + (last_time t reqs - t) * rate"
    using Cons.IH [OF spec(2) rest] .
  moreover have "level rate burst s' key t \<le> level rate burst s key t - (if k = key \<and> ok then 1 else 0)"
    using spec(3) [OF order_refl, of key] by auto
  moreover have "level rate burst s key t \<le> level rate burst s key now + (t - now) * rate"
    by (rule level_growth [OF assms(1) t])
  moreover have "(last_time t reqs - now) * rate = (t - now) * rate + (last_time t reqs - t) * rate"
    by (simp add: algebra_simps)
  ultimately show ?case unfolding req admitted_Cons [OF step] by (cases "k = key \<and> ok") auto
qed



fun ideal_decisions :: "rat \<Rightarrow> int \<Rightarrow> limiter \<Rightarrow> (string \<times> rat) list \<Rightarrow> bool list" where
  "ideal_decisions rate burst s [] = []"
| "ideal_decisions rate burst s ((key, now) # reqs) =
     (case ideal_allow rate burst key now s of (ok, s') \<Rightarrow> ok # ideal_decisions rate burst s' reqs)"

lemma decisions_simulated:
  assumes "0 < rate" "0 \<le> burst" "limiter_ok burst now s" "limiter_ok burst now m" "times_from now reqs"
    and "\<And>k t. now \<le> t \<Longrightarrow> level rate burst s k t = level rate burst m k t"
  shows "decisions rate burst s reqs = ideal_decisions rate burst m reqs"
  using assms(3-6)
proof (induction reqs arbitrary: s m now)
  case (Cons req reqs)
  obtain k t where req: "req = (k, t)" by (cases req)
  obtain ok s' where s': "allow rate burst k t s = (ok, s')" by fastforce
  obtain ok' m' where m': "ideal_allow rate burst k t m = (ok', m')" by fastforce
  have t: "now \<le> t" and rest: "times_from t reqs" using Cons.prems(3) by (auto simp: req)
  note spec = allow_spec [OF assms(1,2) Cons.prems(1) t s'] and ideal = ideal_spec [OF assms(1,2) Cons.prems(2) t m']
  have same: "ok = ok'" using spec(1) ideal(1) Cons.prems(4) [OF t] by simp
  have "level rate burst s' j u = level rate burst m' j u" if "t \<le> u" for j u
    using spec(3) [OF that] ideal(3) same Cons.prems(4) t that by (simp add: order_trans [OF t that])
  with Cons.IH [OF spec(2) ideal(2) rest] same show ?case by (simp add: req s' m')
qed simp

text \<open>
  Pruning stale buckets is unobservable: over every sequence of requests with non-decreasing
  times the limiter decides exactly like one that never removes a bucket.
\<close>

theorem cleanup_unobservable:
  assumes "0 < rate" and "0 \<le> burst" and "times_from now reqs"
  shows "decisions rate burst \<lparr>lm_buckets = [], lm_call_count = 0\<rparr> reqs
    = ideal_decisions rate burst \<lparr>lm_buckets = [], lm_call_count = 0\<rparr> reqs"
  by (rule decisions_simulated [OF assms(1,2) _ _ assms(3)]) (simp_all add: limiter_ok_def)

theorem cleanup_unobservable_witness:
  "decisions 2 1 \<lparr>lm_buckets = [], lm_call_count = 0\<rparr> [(''k'', 1), (''j'', 1), (''k'', 1), (''k'', 2)]
    = ideal_decisions 2 1 \<lparr>lm_buckets = [], lm_call_count = 0\<rparr> [(''k'', 1), (''j'', 1), (''k'', 1), (''k'', 2)]"
  by (rule cleanup_unobservable [of _ _ 1]) simp_all

section \<open>Rate limit middleware\<close>

text \<open>
  \<open>RateLimitMiddleware\<close>. The hash of a bearer token (hexadecimal digest, cut to 16 digits) is a
  parameter. A request is answered with status 429 or passed to the wrapped application; the
  model returns which, and the audit event that is emitted, if any.
\<close>

record asgi_scope =
  sc_type :: string
  sc_path :: string
  sc_headers :: "(string \<times> string) list"
  sc_client :: "string option"

record rate_middleware =
  rm_limiter :: limiter
  rm_audit :: "rat dict"

record audit_event =
  au_key :: string
  au_path :: string
  au_client_ip :: string

datatype response = Forward | TooManyRequests string "audit_event option"

definition exempt_paths :: "string list" where
  "exempt_paths = [''/healthz'', ''/livez'', ''/readyz'', ''/metrics'']"

definition extract_key :: "(string \<Rightarrow> string) \<Rightarrow> asgi_scope \<Rightarrow> string" where
  "extract_key digest scope =
     (let auth_header = (case map_of (rev (sc_headers scope)) ''authorization'' of None \<Rightarrow> [] | Some v \<Rightarrow> v) in
        if prefix ''Bearer '' auth_header then take 16 (digest (drop 7 auth_header))
        else case sc_client scope of Some ip \<Rightarrow> ''ip:'' @ ip | None \<Rightarrow> ''anonymous'')"

definition maybe_emit_audit :: "string \<Rightarrow> rat \<Rightarrow> asgi_scope \<Rightarrow> rat dict \<Rightarrow> audit_event option \<times> rat dict" where
  "maybe_emit_audit key now scope audit =
     (case map_of audit key of
        Some prev \<Rightarrow>
          if now - prev < 60 then (None, audit)
          else (Some \<lparr>au_key = key, au_path = sc_path scope,
                      au_client_ip = (case sc_client scope of None \<Rightarrow> ''unknown'' | Some ip \<Rightarrow> ip)\<rparr>,
                dict_set key now audit)
      | None \<Rightarrow>
          (Some \<lparr>au_key = key, au_path = sc_path scope,
                 au_client_ip = (case sc_client scope of None \<Rightarrow> ''unknown'' | Some ip \<Rightarrow> ip)\<rparr>,
           dict_set key now audit))"

definition prune_stale_audit :: "limiter \<Rightarrow> rat dict \<Rightarrow> rat dict" where
  "prune_stale_audit s audit = filter (\<lambda>(k, t). k \<in> set (keys (lm_buckets s))) audit"

definition retry_after :: "rat \<Rightarrow> string" where
  "retry_after rate = (if rate > 0 then show_int (max 1 \<lceil>1 / rate\<rceil>) else ''60'')"

definition rate_limit_call ::
  "(string \<Rightarrow> string) \<Rightarrow> rat \<Rightarrow> int \<Rightarrow> asgi_scope \<Rightarrow> rat \<Rightarrow> rate_middleware \<Rightarrow> response \<times> rate_middleware" where
  "rate_limit_call digest rate burst scope now m =
     (if sc_type scope \<noteq> ''http'' then (Forward, m)
      else if sc_path scope \<in> set exempt_paths then (Forward, m)
      else
        let key = extract_key digest scope;
            (allowed, limiter) = allow rate burst key now (rm_limiter m);
            audit = (if lm_call_count limiter = 0 \<and> rm_audit m \<noteq> []
                     then prune_stale_audit limiter (rm_audit m) else rm_audit m) in
          if \<not> allowed then
            (case maybe_emit_audit key now scope audit of
               (event, audit') \<Rightarrow>
                 (TooManyRequests (retry_after rate) event, m\<lparr>rm_limiter := limiter, rm_audit := audit'\<rparr>))
          else (Forward, m\<lparr>rm_limiter := limiter, rm_audit := audit\<rparr>))"

text \<open>
  The middleware never turns away a probe of the health or metrics endpoints, a non-HTTP
  connection, or anything while limiting is switched off; and a request it turns away consumed no
  token of any caller.
\<close>

theorem rate_limit_call_safe:
  "(sc_type scope \<noteq> ''http'' \<or> sc_path scope \<in> set exempt_paths \<or> rate \<le> 0 \<longrightarrow>
      fst (rate_limit_call digest rate burst scope now m) = Forward)
   \<and> (0 < rate \<and> 0 \<le> burst \<and> limiter_ok burst now0 (rm_limiter m) \<and> now0 \<le> now
      \<and> fst (rate_limit_call digest rate burst scope now m) \<noteq> Forward \<and> now \<le> t \<longrightarrow>
      level rate burst (rm_limiter (snd (rate_limit_call digest rate burst scope now m))) k t
        = (if k = extract_key digest scope
           then min (of_int burst) (level rate burst (rm_limiter m) k now + (t - now) * rate)
           else level rate burst (rm_limiter m) k t))"
proof -
  obtain ok s' where step: "allow rate burst (extract_key digest scope) now (rm_limiter m) = (ok, s')"
    by fastforce
  then have "rate \<le> 0 \<Longrightarrow> ok" by (simp add: allow_def)
  then show ?thesis
    using allow_spec(3) [of rate burst now0 "rm_limiter m" now, OF _ _ _ _ step]
    by (auto simp: rate_limit_call_def step Let_def split_beta)
qed

theorem rate_limit_call_safe_witness:
  "level 1 1 (rm_limiter (snd (rate_limit_call id 1 1
      \<lparr>sc_type = ''http'', sc_path = ''/run'', sc_headers = [], sc_client = Some ''10.0.0.1''\<rparr> 5
      \<lparr>rm_limiter = \<lparr>lm_buckets = [(''ip:10.0.0.1'', \<lparr>bk_tokens = 0, bk_last_refill = 5\<rparr>)], lm_call_count = 3\<rparr>,
       rm_audit = []\<rparr>))) ''ip:10.0.0.1'' 6 = 1"
proof -
  let ?sc = "\<lparr>sc_type = ''http'', sc_path = ''/run'', sc_headers = [], sc_client = Some ''10.0.0.1''\<rparr>"
  let ?m = "\<lparr>rm_limiter = \<lparr>lm_buckets = [(''ip:10.0.0.1'', \<lparr>bk_tokens = 0, bk_last_refill = 5\<rparr>)],
      lm_call_count = 3\<rparr>, rm_audit = []\<rparr>"
  have "fst (rate_limit_call id 1 1 ?sc 5 ?m) \<noteq> Forward" by code_simp
  moreover have "limiter_ok 1 5 (rm_limiter ?m)" by (simp add: limiter_ok_def wf_dict_def)
  ultimately show ?thesis
    using rate_limit_call_safe [of ?sc 1 id 1 5 ?m 5 6 "''ip:10.0.0.1''"]
    by (simp add: extract_key_def level_def)
qed

end
