(* ===== verification/AuditEvents.thy ===== *)
theory AuditEvents
  imports Submission
begin

text \<open>
  Audit events (\<open>runtime/audit.py\<close>): the closed list of event types that \<open>AuditEvent\<close> accepts. An emission with
  another type is refused by the model's validation before anything is logged, and the caller gets the exception.
\<close>

definition audit_event_types :: "string list" where
  "audit_event_types =
     [''workflow_started'', ''step_approved'', ''step_denied'', ''sandbox_spawned'', ''sandbox_destroyed'', ''sandbox_timeout'',
      ''escalation_triggered'', ''mcp_secret_mounted'', ''orphan_cleanup'', ''content_policy_violation'', ''auth_rejected'',
      ''rate_limit_exceeded'', ''alert_triggered'', ''alert_validation_failed'', ''schedule_created'', ''schedule_deleted'',
      ''schedule_triggered'', ''tls_error'', ''cli_session_launched'', ''cli_session_terminated'', ''cli_session_failed'',
      ''cli_session_message_sent'']"

definition unknown_event :: pyexc where
  "unknown_event = ValueError ''1 validation error for AuditEvent''"

definition emit_audit_event :: "audit_event \<Rightarrow> api_state \<Rightarrow> unit res \<times> api_state" where
  "emit_audit_event e st = (if au_type e \<in> set audit_event_types then (Ok (), audit e st) else (Err unknown_event, st))"

lemma emit_keeps [simp]:
  "as_calls (snd (emit_audit_event e st)) = as_calls st" "as_store (snd (emit_audit_event e st)) = as_store st"
  by (simp_all add: emit_audit_event_def audit_def)

text \<open>For an event of the list the emission is the plain record that the handlers use.\<close>

lemma emit_known: "au_type e \<in> set audit_event_types \<Longrightarrow> emit_audit_event e st = (Ok (), audit e st)"
  by (simp add: emit_audit_event_def)

end
