(* ===== verification/AlertTrigger.thy ===== *)
theory AlertTrigger
  imports AuditEvents Complex_Main
begin

text \<open>
  The Alertmanager webhook, \<open>triggers/alert_trigger.py\<close>: the mapping of an alert to a workflow and a
  prompt, the deduplication of fingerprints, and the handler that works through the alerts of one
  payload. Time is a rational number; what the clock, the identifier source and Temporal give while one
  alert is processed is an argument.
\<close>

section \<open>Alerts\<close>

record alert =
  al_status :: string
  al_labels :: "string dict"
  al_annotations :: "string dict"
  al_starts_at :: string
  al_ends_at :: string
  al_generator_url :: string
  al_fingerprint :: string

record alert_config =
  ac_workflow_name_label :: string
  ac_fire_on_resolved :: bool
  ac_default_workflow :: "string option"
  ac_dedup_window_seconds :: int

definition should_process_alert :: "alert \<Rightarrow> alert_config \<Rightarrow> bool" where
  "should_process_alert alert config = (\<not> (al_status alert = ''resolved'' \<and> \<not> ac_fire_on_resolved config))"

definition max_alert_field_chars :: nat where
  "max_alert_field_chars = 2000"

definition truncate_text :: "string \<Rightarrow> string" where
  "truncate_text text =
     (if length text \<le> max_alert_field_chars then text else take max_alert_field_chars text @ ''...[truncated]'')"

definition label_or :: "string dict \<Rightarrow> string \<Rightarrow> string \<Rightarrow> string" where
  "label_or d k dflt = (case map_of d k of Some v \<Rightarrow> v | None \<Rightarrow> dflt)"

definition alert_prompt :: "alert \<Rightarrow> string" where
  "alert_prompt alert =
     (let alertname = label_or (al_labels alert) ''alertname'' ''unknown'';
          severity = label_or (al_labels alert) ''severity'' ''unknown'';
          description = label_or (al_annotations alert) ''description'' (label_or (al_annotations alert) ''summary'' []) in
        ''Alert: '' @ alertname @ '', Severity: '' @ severity @ '', Description: '' @ truncate_text description
        @ '', Labels: '' @ truncate_text (json_dumps (VDict (map (\<lambda>(k, v). (k, VStr v)) (al_labels alert)))))"

definition map_alert_to_workflow_input :: "alert \<Rightarrow> alert_config \<Rightarrow> (string \<times> string) res" where
  "map_alert_to_workflow_input alert config =
     (let labelled = given_text (map_of (al_labels alert) (ac_workflow_name_label config));
          workflow_name = (if labelled = None then given_text (ac_default_workflow config) else labelled) in
        case workflow_name of
          None \<Rightarrow> Err (ValueError (''No workflow name found in alert label '' @ quote (ac_workflow_name_label config)
                       @ '' and no default_workflow configured''))
        | Some name \<Rightarrow> Ok (name, alert_prompt alert))"

section \<open>Deduplication\<close>

record dedup_tracker =
  dt_window_seconds :: int
  dt_last_fired :: "rat dict"

definition prune :: "rat \<Rightarrow> dedup_tracker \<Rightarrow> dedup_tracker" where
  "prune now t =
     t\<lparr>dt_last_fired := filter (\<lambda>(fp, ts). \<not> ts < now - 2 * of_int (dt_window_seconds t)) (dt_last_fired t)\<rparr>"

definition should_fire :: "string \<Rightarrow> rat \<Rightarrow> dedup_tracker \<Rightarrow> bool \<times> dedup_tracker" where
  "should_fire fingerprint now t =
     (let t = prune now t;
          suppressed = (case map_of (dt_last_fired t) fingerprint of
                          Some fired \<Rightarrow> now - fired < of_int (dt_window_seconds t)
                        | None \<Rightarrow> False) in
        if suppressed then (False, t)
        else (True, t\<lparr>dt_last_fired := dict_set fingerprint now (dt_last_fired t)\<rparr>))"

section \<open>The webhook\<close>

text \<open>What the surroundings give while one alert is processed.\<close>

record alert_round =
  ro_now :: rat
  ro_uuid :: string
  ro_reply :: start_reply

datatype alert_outcome = AlertStarted | AlertSkipped | AlertFailed

definition alert_caller :: "string \<Rightarrow> caller_identity" where
  "alert_caller namespace = \<lparr>ci_username = ''alertmanager'', ci_uid = None,
     ci_groups = [namespace @ '':alertmanager''], ci_auth_mode = ''webhook''\<rparr>"

definition alert_audit :: "string \<Rightarrow> string \<Rightarrow> pydict \<Rightarrow> audit_event" where
  "alert_audit event_type workflow_id details =
     \<lparr>au_type = event_type, au_workflow_id = workflow_id, au_step_name = [], au_actor = [], au_details = details\<rparr>"

text \<open>The input of the started workflow; the fields that are not given keep their defaults.\<close>

definition alert_input :: "string \<Rightarrow> alert \<Rightarrow> string \<Rightarrow> string \<Rightarrow> string \<Rightarrow> pydict \<Rightarrow> pydict \<Rightarrow> workflow_input" where
  "alert_input namespace alert uuid workflow_name input_prompt definition provider =
     \<lparr>wi_definition = definition, wi_input_prompt = Some input_prompt,
      wi_workflow_id = ''alert-'' @ al_fingerprint alert @ ''-'' @ uuid, wi_provider = provider,
      wi_sandbox_image = ''lightspeed-agentic-sandbox:latest'', wi_skills_image = VNone, wi_skills_paths = VNone,
      wi_approval_policy = None, wi_advisory = False, wi_notifier_config = VNone, wi_escalation_config = VNone,
      wi_mcp_servers = VNone,
      wi_authz_context = Some [(''owner_username'', VStr ''alertmanager''),
        (''owner_groups'', VList [VStr (namespace @ '':alertmanager'')]), (''workflow_name'', VStr workflow_name),
        (''namespace'', VStr namespace)]\<rparr>"

definition start_alert :: "alert \<Rightarrow> string \<Rightarrow> string \<Rightarrow> workflow_input \<Rightarrow> start_reply \<Rightarrow> api_state \<Rightarrow> alert_outcome \<times> api_state" where
  "start_alert alert alertname workflow_name input reply st =
     (if reply = Started
      then (AlertStarted,
            audit (alert_audit ''alert_triggered'' (wi_workflow_id input)
                [(''alertname'', VStr alertname), (''workflow_name'', VStr workflow_name),
                 (''fingerprint'', VStr (al_fingerprint alert)), (''alert_status'', VStr (al_status alert))])
              (call (StartWorkflow input) st))
      else (AlertFailed, st))"

definition policy_findings :: "service \<Rightarrow> pydict \<Rightarrow> string list res" where
  "policy_findings sv definition =
     (if sv_content_policy sv = None then Ok []
      else validate_definition (sv_validate sv) (sv_bracketed_ok sv) (sv_search sv) (VDict definition) (sv_content_policy sv))"

text \<open>From a mapped alert to the start: authorization, lookup, policy, provider.\<close>

definition trigger_workflow ::
  "service \<Rightarrow> string \<Rightarrow> definition_store \<Rightarrow> alert \<Rightarrow> alert_round \<Rightarrow> string \<Rightarrow> string \<Rightarrow> string \<Rightarrow> api_state
   \<Rightarrow> alert_outcome res \<times> api_state" where
  "trigger_workflow sv namespace store alert ro alertname workflow_name input_prompt st =
     (let decision = sv_authorize sv (alert_caller namespace) Trigger (no_resource\<lparr>wr_workflow_name := Some workflow_name\<rparr>) in
      if \<not> ad_allowed decision then
        (case emit_audit_event (alert_audit ''alert_authorization_denied'' []
           [(''alertname'', VStr alertname), (''workflow_name'', VStr workflow_name), (''reason'', VStr (ad_reason decision))]) st of
           (r, st') \<Rightarrow> (then_do r (\<lambda>_. Ok AlertFailed), st'))
      else case get_definition workflow_name store of
        None \<Rightarrow>
          (Ok AlertFailed, audit (alert_audit ''alert_validation_failed'' []
             [(''alertname'', VStr alertname), (''workflow_name'', VStr workflow_name),
              (''error'', VStr (''Definition '' @ quote workflow_name @ '' not found''))]) st)
      | Some stored \<Rightarrow>
          (case policy_findings sv (sd_definition stored) of
             Inl e \<Rightarrow> (Err e, st)
           | Inr (e # es) \<Rightarrow>
               (Ok AlertFailed, audit (alert_audit ''content_policy_violation'' []
                  [(''alertname'', VStr alertname), (''workflow_name'', VStr workflow_name),
                   (''violations'', VList (map VStr (e # es)))]) st)
           | Inr [] \<Rightarrow>
               if dget (sd_definition stored) ''provider'' = VNone then
                 (Ok AlertFailed, audit (alert_audit ''alert_validation_failed'' []
                    [(''alertname'', VStr alertname), (''workflow_name'', VStr workflow_name),
                     (''error'', VStr (''Definition '' @ quote workflow_name @ '' has no provider''))]) st)
               else (case then_do (sv_validate sv ProviderConfig (dget (sd_definition stored) ''provider'')) as_dict of
                       Inl e \<Rightarrow> (Err e, st)
                     | Inr provider \<Rightarrow>
                         (let (out, st') = start_alert alert alertname workflow_name
                                (alert_input namespace alert (ro_uuid ro) workflow_name input_prompt (sd_definition stored) provider)
                                (ro_reply ro) st
                          in (Ok out, st')))))"

definition process_alert ::
  "service \<Rightarrow> alert_config \<Rightarrow> string \<Rightarrow> definition_store \<Rightarrow> alert \<Rightarrow> alert_round \<Rightarrow> dedup_tracker \<times> api_state
   \<Rightarrow> alert_outcome res \<times> dedup_tracker \<times> api_state" where
  "process_alert sv config namespace store alert ro = (\<lambda>(tracker, st).
     let alertname = label_or (al_labels alert) ''alertname'' ''unknown'' in
     if \<not> should_process_alert alert config then (Ok AlertSkipped, tracker, st)
     else
       let (fires, tracker') = should_fire (al_fingerprint alert) (ro_now ro) tracker in
       if \<not> fires then (Ok AlertSkipped, tracker', st)
       else case map_alert_to_workflow_input alert config of
         Inl (ValueError m) \<Rightarrow>
           (Ok AlertFailed, tracker', audit (alert_audit ''alert_validation_failed'' []
              [(''alertname'', VStr alertname), (''fingerprint'', VStr (al_fingerprint alert)), (''error'', VStr m)]) st)
       | Inl e \<Rightarrow> (Err e, tracker', st)
       | Inr (workflow_name, input_prompt) \<Rightarrow>
           (let (out, st') = trigger_workflow sv namespace store alert ro alertname workflow_name input_prompt st
            in (out, tracker', st')))"

record alert_summary =
  su_started :: nat
  su_skipped :: nat
  su_errors :: nat

fun count_outcome :: "alert_outcome \<Rightarrow> alert_summary \<Rightarrow> alert_summary" where
  "count_outcome AlertStarted s = s\<lparr>su_started := su_started s + 1\<rparr>"
| "count_outcome AlertSkipped s = s\<lparr>su_skipped := su_skipped s + 1\<rparr>"
| "count_outcome AlertFailed s = s\<lparr>su_errors := su_errors s + 1\<rparr>"

text \<open>The loop over the alerts of a payload; an exception ends it and the request.\<close>

fun receive_alerts ::
  "service \<Rightarrow> alert_config \<Rightarrow> string \<Rightarrow> definition_store \<Rightarrow> (alert \<times> alert_round) list \<Rightarrow> alert_summary
   \<Rightarrow> dedup_tracker \<times> api_state \<Rightarrow> alert_summary res \<times> dedup_tracker \<times> api_state" where
  "receive_alerts sv config namespace store [] summary s = (Ok summary, s)"
| "receive_alerts sv config namespace store ((alert, ro) # rest) summary s =
     (case process_alert sv config namespace store alert ro s of
        (Inl e, s') \<Rightarrow> (Err e, s')
      | (Inr out, s') \<Rightarrow> receive_alerts sv config namespace store rest (count_outcome out summary) s')"

definition receive_alertmanager ::
  "service \<Rightarrow> alert_config \<Rightarrow> string \<Rightarrow> definition_store \<Rightarrow> (alert \<times> alert_round) list
   \<Rightarrow> dedup_tracker \<times> api_state \<Rightarrow> alert_summary res \<times> dedup_tracker \<times> api_state" where
  "receive_alertmanager sv config namespace store alerts s =
     receive_alerts sv config namespace store alerts \<lparr>su_started = 0, su_skipped = 0, su_errors = 0\<rparr> s"

section \<open>What the tracker decides\<close>

fun dedup_run :: "(string \<times> rat) list \<Rightarrow> dedup_tracker \<Rightarrow> bool list \<times> dedup_tracker" where
  "dedup_run [] t = ([], t)"
| "dedup_run ((fp, now) # es) t =
     (let (b, t1) = should_fire fp now t; (bs, t2) = dedup_run es t1 in (b # bs, t2))"

text \<open>The promise: an alert fires unless one of the same fingerprint fired less than a window ago.\<close>

fun dedup_spec :: "int \<Rightarrow> (string \<times> rat) list \<Rightarrow> (string \<times> rat) list \<Rightarrow> bool list" where
  "dedup_spec window fired [] = []"
| "dedup_spec window fired ((fp, now) # es) =
     (let b = (\<forall>(f, t) \<in> set fired. f = fp \<longrightarrow> of_int window \<le> now - t) in
        b # dedup_spec window (if b then (fp, now) # fired else fired) es)"

text \<open>
  The tracker remembers the latest firing of a fingerprint, or there is none in the last two windows.
\<close>

definition remembers :: "int \<Rightarrow> rat dict \<Rightarrow> (string \<times> rat) list \<Rightarrow> rat \<Rightarrow> string \<Rightarrow> bool" where
  "remembers window last_fired fired clock fp =
     (case map_of last_fired fp of
        Some u \<Rightarrow> (fp, u) \<in> set fired \<and> (\<forall>v. (fp, v) \<in> set fired \<longrightarrow> v \<le> u)
      | None \<Rightarrow> (\<forall>v. (fp, v) \<in> set fired \<longrightarrow> v < clock - 2 * of_int window))"

definition tracks :: "dedup_tracker \<Rightarrow> (string \<times> rat) list \<Rightarrow> rat \<Rightarrow> bool" where
  "tracks t fired clock =
     (wf_dict (dt_last_fired t) \<and> (\<forall>fp. remembers (dt_window_seconds t) (dt_last_fired t) fired clock fp))"

lemma prune_window [simp]: "dt_window_seconds (prune now t) = dt_window_seconds t"
  by (simp add: prune_def)

lemma prune_tracks:
  assumes "tracks t fired clock" and "clock \<le> now" shows "tracks (prune now t) fired now"
proof -
  have wf: "wf_dict (dt_last_fired t)" using assms(1) by (simp add: tracks_def)
  have "remembers (dt_window_seconds t) (dt_last_fired (prune now t)) fired now fp" for fp
  proof -
    have "map_of (dt_last_fired (prune now t)) fp = (case map_of (dt_last_fired t) fp of
        Some u \<Rightarrow> if \<not> u < now - 2 * of_int (dt_window_seconds t) then Some u else None | None \<Rightarrow> None)"
      using wf by (simp add: prune_def map_of_filter split: option.split)
    moreover have "remembers (dt_window_seconds t) (dt_last_fired t) fired clock fp"
      using assms(1) by (simp add: tracks_def)
    ultimately show ?thesis using assms(2)
      by (cases "map_of (dt_last_fired t) fp") (auto simp: remembers_def intro: le_less_trans less_le_trans)
  qed
  moreover have "wf_dict (dt_last_fired (prune now t))" using wf by (simp add: prune_def)
  ultimately show ?thesis by (simp add: tracks_def)
qed

lemma fire_tracks:
  assumes "tracks t fired now" and "\<forall>(f, u) \<in> set fired. u \<le> now"
  shows "tracks (t\<lparr>dt_last_fired := dict_set fp now (dt_last_fired t)\<rparr>) ((fp, now) # fired) now"
proof -
  have "remembers (dt_window_seconds t) (dict_set fp now (dt_last_fired t)) ((fp, now) # fired) now fp'" for fp'
  proof (cases "fp' = fp")
    case False
    have "remembers (dt_window_seconds t) (dt_last_fired t) fired now fp'" using assms(1) by (simp add: tracks_def)
    then show ?thesis using False by (cases "map_of (dt_last_fired t) fp'") (auto simp: remembers_def)
  qed (use assms(2) in \<open>auto simp: remembers_def\<close>)
  then show ?thesis using assms(1) by (simp add: tracks_def)
qed

lemma should_fire_spec:
  assumes "tracks t fired clock" and "clock \<le> now" and "0 \<le> dt_window_seconds t"
    and "\<forall>(f, u) \<in> set fired. u \<le> now"
  shows "fst (should_fire fp now t) \<longleftrightarrow> (\<forall>(f, u) \<in> set fired. f = fp \<longrightarrow> of_int (dt_window_seconds t) \<le> now - u)"
    and "tracks (snd (should_fire fp now t)) (if fst (should_fire fp now t) then (fp, now) # fired else fired) now"
proof -
  let ?t = "prune now t" and ?w = "of_int (dt_window_seconds t) :: rat"
  have w: "0 \<le> ?w" using assms(3) by simp
  have tr: "tracks ?t fired now" by (rule prune_tracks [OF assms(1,2)])
  then have at: "remembers (dt_window_seconds t) (dt_last_fired ?t) fired now fp" by (simp add: tracks_def)
  show fst: "fst (should_fire fp now t) \<longleftrightarrow> (\<forall>(f, u) \<in> set fired. f = fp \<longrightarrow> ?w \<le> now - u)"
  proof (cases "map_of (dt_last_fired ?t) fp")
    case None
    then have "\<forall>v. (fp, v) \<in> set fired \<longrightarrow> ?w \<le> now - v" using at w by (fastforce simp: remembers_def)
    then show ?thesis using None by (auto simp: should_fire_def Let_def)
  next
    case (Some u)
    then have "(fp, u) \<in> set fired" "\<forall>v. (fp, v) \<in> set fired \<longrightarrow> v \<le> u" using at by (auto simp: remembers_def)
    then have "(\<forall>v. (fp, v) \<in> set fired \<longrightarrow> ?w \<le> now - v) \<longleftrightarrow> ?w \<le> now - u" by fastforce
    then show ?thesis using Some by (auto simp: should_fire_def Let_def)
  qed
  show "tracks (snd (should_fire fp now t)) (if fst (should_fire fp now t) then (fp, now) # fired else fired) now"
    using tr fire_tracks [OF tr assms(4), of fp] by (auto simp: should_fire_def Let_def)
qed

lemma should_fire_window [simp]: "dt_window_seconds (snd (should_fire fp now t)) = dt_window_seconds t"
  by (simp add: should_fire_def Let_def)

lemma dedup_run_spec:
  assumes "tracks t fired clock" and "0 \<le> dt_window_seconds t" and "sorted (clock # map snd es)"
    and "\<forall>(f, u) \<in> set fired. u \<le> clock"
  shows "fst (dedup_run es t) = dedup_spec (dt_window_seconds t) fired es"
  using assms
proof (induction es arbitrary: t fired clock)
  case (Cons e es)
  obtain fp now where e: "e = (fp, now)" by (cases e)
  have now: "clock \<le> now" "sorted (now # map snd es)" using Cons.prems(3) by (auto simp: e)
  have fired: "\<forall>(f, u) \<in> set fired. u \<le> now" using Cons.prems(4) now(1) by force
  note sf = should_fire_spec [OF Cons.prems(1) now(1) Cons.prems(2) fired, of fp]
  let ?fired = "if fst (should_fire fp now t) then (fp, now) # fired else fired"
  have "fst (dedup_run es (snd (should_fire fp now t))) = dedup_spec (dt_window_seconds t) ?fired es"
    using Cons.IH [OF sf(2) _ now(2)] Cons.prems(2) fired by auto
  then show ?case using sf(1) by (auto simp: e Let_def split: prod.splits)
qed simp

text \<open>C38. Deduplication keeps its promise: over any sequence of alerts with a clock that does not run backwards,
  an alert fires exactly if no alert of its fingerprint fired less than a window before it; what the pruning
  forgets never matters.\<close>

theorem dedup_exact:
  assumes "sorted (map snd es)" and "0 \<le> window"
  shows "fst (dedup_run es \<lparr>dt_window_seconds = window, dt_last_fired = []\<rparr>) = dedup_spec window [] es"
proof (cases es)
  case (Cons e es')
  have "sorted (snd e # map snd es)" using assms(1) Cons by simp
  then show ?thesis
    using dedup_run_spec [of "\<lparr>dt_window_seconds = window, dt_last_fired = []\<rparr>" "[]" "snd e" es] assms(2)
    by (simp add: tracks_def remembers_def)
qed simp

theorem dedup_exact_witness:
  "fst (dedup_run [(''a'', 0), (''b'', 5), (''a'', 10), (''a'', 299), (''a'', 300), (''a'', 599)]
     \<lparr>dt_window_seconds = 300, dt_last_fired = []\<rparr>) = [True, True, False, False, True, False]"
proof -
  have "sorted (map snd [(''a'', 0::rat), (''b'', 5), (''a'', 10), (''a'', 299), (''a'', 300), (''a'', 599)])" by simp
  from dedup_exact [OF this, of 300] show ?thesis by simp
qed

section \<open>What the webhook starts\<close>

text \<open>A workflow the webhook may start: named, authorized, stored, within the policy, with a provider.\<close>

definition alert_start_ok :: "service \<Rightarrow> string \<Rightarrow> definition_store \<Rightarrow> temporal_call \<Rightarrow> bool" where
  "alert_start_ok sv namespace store c =
     (\<exists>input name stored. c = StartWorkflow input
        \<and> ad_allowed (sv_authorize sv (alert_caller namespace) Trigger (no_resource\<lparr>wr_workflow_name := Some name\<rparr>))
        \<and> get_definition name store = Some stored \<and> wi_definition input = sd_definition stored
        \<and> policy_findings sv (sd_definition stored) = Ok []
        \<and> sv_validate sv ProviderConfig (dget (sd_definition stored) ''provider'') = Ok (VDict (wi_provider input))
        \<and> map_option (\<lambda>ctx. dget ctx ''workflow_name'') (wi_authz_context input) = Some (VStr name))"

definition grows :: "service \<Rightarrow> string \<Rightarrow> definition_store \<Rightarrow> nat \<Rightarrow> api_state \<Rightarrow> api_state \<Rightarrow> bool" where
  "grows sv namespace store n st st' =
     (\<exists>cs. as_calls st' = as_calls st @ cs \<and> length cs = n \<and> list_all (alert_start_ok sv namespace store) cs)"

lemma grows_0: "as_calls st' = as_calls st \<Longrightarrow> grows sv namespace store 0 st st'"
  by (simp add: grows_def)

lemma grows_trans: "grows sv namespace store m st st' \<Longrightarrow> grows sv namespace store n st' st'' \<Longrightarrow> grows sv namespace store (m + n) st st''"
  by (auto simp: grows_def)

definition triggered :: "alert_outcome res \<Rightarrow> nat" where
  "triggered out = (if out = Ok AlertStarted then 1 else 0)"

lemma triggered_simps [simp]:
  "triggered (Inl e) = 0" "triggered (Inr AlertSkipped) = 0" "triggered (Inr AlertFailed) = 0"
  "triggered (Inr AlertStarted) = 1"
  by (simp_all add: triggered_def)

lemma start_alert_grows:
  assumes "alert_start_ok sv namespace store (StartWorkflow input)" and "start_alert alert n w input reply st = (out, st')"
  shows "grows sv namespace store (triggered (Ok out)) st st'"
  using assms by (auto simp: start_alert_def grows_def triggered_def split: if_splits)

text \<open>The event of a refused alert is none that \<open>AuditEvent\<close> accepts, so the refusal raises.\<close>

lemma denied_alert_raises:
  assumes "\<not> ad_allowed (sv_authorize sv (alert_caller namespace) Trigger (no_resource\<lparr>wr_workflow_name := Some name\<rparr>))"
  shows "trigger_workflow sv namespace store alert ro n name prompt st = (Err unknown_event, st)"
  using assms by (simp add: trigger_workflow_def Let_def emit_audit_event_def alert_audit_def audit_event_types_def)

lemma trigger_workflow_grows:
  assumes "trigger_workflow sv namespace store alert ro n name prompt st = (out, st')"
  shows "grows sv namespace store (triggered out) st st'"
proof (cases "ad_allowed (sv_authorize sv (alert_caller namespace) Trigger (no_resource\<lparr>wr_workflow_name := Some name\<rparr>))")
  case allowed: True
  show ?thesis
  proof (cases "get_definition name store")
    case stored: (Some stored)
    let ?d = "sd_definition stored"
    consider (refused) "as_calls st' = as_calls st" "triggered out = 0"
      | (starts) provider where "policy_findings sv ?d = Ok []" "sv_validate sv ProviderConfig (dget ?d ''provider'') = Ok (VDict provider)"
        "(case start_alert alert n name (alert_input namespace alert (ro_uuid ro) name prompt ?d provider) (ro_reply ro) st of
            (o', s') \<Rightarrow> (Ok o', s')) = (out, st')"
      using assms allowed stored
      by (cases "policy_findings sv ?d"; cases "sv_validate sv ProviderConfig (dget ?d ''provider'')")
        (auto simp: trigger_workflow_def Let_def triggered_def then_do_Ok_iff
          split: list.splits if_splits sum.splits)
    then show ?thesis
    proof cases
      case (starts provider)
      let ?input = "alert_input namespace alert (ro_uuid ro) name prompt ?d provider"
      have "alert_start_ok sv namespace store (StartWorkflow ?input)"
        using allowed stored starts(1,2) by (auto simp: alert_start_ok_def alert_input_def intro!: exI [of _ name])
      then show ?thesis using starts(3) start_alert_grows by (auto split: prod.splits)
    qed (simp add: grows_0)
  qed (use assms allowed in \<open>auto simp: trigger_workflow_def triggered_def intro: grows_0\<close>)
qed (use assms denied_alert_raises in \<open>auto simp: triggered_def intro: grows_0\<close>)

lemma process_alert_grows:
  assumes "process_alert sv config namespace store alert ro (t, st) = (out, t', st')"
  shows "grows sv namespace store (triggered out) st st'"
proof (cases "map_alert_to_workflow_input alert config")
  case (Inl e)
  then show ?thesis using assms
    by (cases e) (auto simp: process_alert_def Let_def grows_0 split: if_splits prod.splits)
next
  case (Inr np)
  then show ?thesis using assms trigger_workflow_grows
    by (cases np) (auto simp: process_alert_def Let_def grows_0 split: if_splits prod.splits)
qed

definition total :: "alert_summary \<Rightarrow> nat" where
  "total s = su_started s + su_skipped s + su_errors s"

lemma count_outcome_total [simp]: "total (count_outcome o' s) = Suc (total s)"
  "su_started (count_outcome o' s) = su_started s + triggered (Ok o')"
  by (cases o'; simp add: total_def)+

lemma receive_alerts_grows:
  "receive_alerts sv config namespace store alerts s0 (t, st) = (out, t', st') \<Longrightarrow>
   (case out of
      Inr s \<Rightarrow> total s = total s0 + length alerts \<and> su_started s0 \<le> su_started s
        \<and> grows sv namespace store (su_started s - su_started s0) st st'
    | Inl _ \<Rightarrow> (\<exists>n. grows sv namespace store n st st'))"
proof (induction alerts arbitrary: s0 t st)
  case (Cons ar alerts)
  obtain alert ro where ar: "ar = (alert, ro)" by (cases ar)
  obtain o1 t1 st1 where p: "process_alert sv config namespace store alert ro (t, st) = (o1, t1, st1)" by (metis prod_cases3)
  note g = process_alert_grows [OF p]
  show ?case
  proof (cases o1)
    case (Inl e)
    then show ?thesis using Cons.prems p g by (auto simp: ar triggered_def)
  next
    case (Inr o2)
    then have rest: "receive_alerts sv config namespace store alerts (count_outcome o2 s0) (t1, st1) = (out, t', st')"
      using Cons.prems p by (simp add: ar)
    show ?thesis
    proof (cases out)
      case (Inl e)
      then show ?thesis using Cons.IH [OF rest] grows_trans [OF g] by auto
    next
      case out: (Inr s)
      have "grows sv namespace store (triggered o1 + (su_started s - su_started (count_outcome o2 s0))) st st'"
      proof (rule grows_trans [OF g])
        show "grows sv namespace store (su_started s - su_started (count_outcome o2 s0)) st1 st'"
          using Cons.IH [OF rest] out by simp
      qed
      moreover have "triggered o1 + (su_started s - su_started (count_outcome o2 s0)) = su_started s - su_started s0"
        using Cons.IH [OF rest] out Inr by simp
      ultimately show ?thesis using Cons.IH [OF rest] out by simp
    qed
  qed
qed (auto simp: grows_0)

text \<open>The webhook accounts for every alert and starts only what it may: when it answers, its three counters add
  up to the number of alerts and exactly as many workflows were started as it reports; whether it answers or
  raises, every workflow it started is a stored, active definition within the content policy, with a valid
  provider, whose name the webhook's identity is authorized to trigger and the run keeps as its context.\<close>

theorem webhook_accounts:
  "case receive_alertmanager sv config namespace store alerts (t, st) of
     (Inr summary, t', st') \<Rightarrow>
       su_started summary + su_skipped summary + su_errors summary = length alerts
       \<and> (\<exists>cs. as_calls st' = as_calls st @ cs \<and> length cs = su_started summary \<and> list_all (alert_start_ok sv namespace store) cs)
   | (Inl e, t', st') \<Rightarrow> \<exists>cs. as_calls st' = as_calls st @ cs \<and> list_all (alert_start_ok sv namespace store) cs"
proof -
  obtain out t' st' where r: "receive_alertmanager sv config namespace store alerts (t, st) = (out, t', st')" by (metis prod_cases3)
  from receive_alerts_grows [OF this [unfolded receive_alertmanager_def]] show ?thesis
    unfolding r by (cases out) (auto simp: grows_def total_def)
qed

section \<open>Alerts whose start failed\<close>

lemma process_failed_recorded:
  assumes "process_alert sv config namespace store alert ro (t, st) = (Ok AlertFailed, t', st')"
  shows "t' = (prune (ro_now ro) t)\<lparr>dt_last_fired := dict_set (al_fingerprint alert) (ro_now ro) (dt_last_fired (prune (ro_now ro) t))\<rparr>"
  using assms
  by (cases "map_alert_to_workflow_input alert config"; cases "projl (map_alert_to_workflow_input alert config)")
    (auto simp: process_alert_def should_fire_def Let_def split: if_splits prod.splits)

text \<open>A failed start silences the alert: the fingerprint counts as fired before anything is looked up or started,
  so if an alert could not be mapped, found, validated or started, every further delivery of it within
  the window is skipped without another attempt.\<close>

theorem failed_start_suppresses_retry:
  assumes "process_alert sv config namespace store alert ro (t, st) = (Ok AlertFailed, t', st')"
    and "wf_dict (dt_last_fired t)" and "al_fingerprint retry = al_fingerprint alert"
    and "ro_now ro \<le> ro_now ro'" and "ro_now ro' - ro_now ro < of_int (dt_window_seconds t)"
  shows "\<exists>t''. process_alert sv config namespace store' retry ro' (t', st'') = (Ok AlertSkipped, t'', st'')"
proof -
  let ?fp = "al_fingerprint alert"
  note t' = process_failed_recorded [OF assms(1)]
  have last: "map_of (dt_last_fired t') ?fp = Some (ro_now ro)" "wf_dict (dt_last_fired t')"
    "dt_window_seconds t' = dt_window_seconds t"
    using assms(2) by (simp_all add: t' prune_def)
  moreover have "\<not> ro_now ro < ro_now ro' - 2 * of_int (dt_window_seconds t)" using assms(4,5) by linarith
  ultimately have "map_of (dt_last_fired (prune (ro_now ro') t')) ?fp = Some (ro_now ro)"
    by (simp add: prune_def map_of_filter)
  then show ?thesis using assms(3,5) last(3)
    by (simp add: process_alert_def should_fire_def Let_def)
qed

text \<open>
  A denied alert ends the whole request. The event of its refusal is none of those that \<open>AuditEvent\<close> accepts, so
  the handler raises instead of counting an error: the alerts after it are not processed, and a repeated delivery
  finds the fingerprints of those before it in the tracker.
\<close>

theorem denied_alert_drops_batch:
  assumes "should_process_alert alert config" "fst (should_fire (al_fingerprint alert) (ro_now ro) t)"
    and "map_alert_to_workflow_input alert config = Ok (name, prompt)"
    and "\<not> ad_allowed (sv_authorize sv (alert_caller namespace) Trigger (no_resource\<lparr>wr_workflow_name := Some name\<rparr>))"
  shows "fst (receive_alertmanager sv config namespace store ((alert, ro) # alerts) (t, st)) = Err unknown_event
    \<and> snd (snd (receive_alertmanager sv config namespace store ((alert, ro) # alerts) (t, st))) = st"
  using assms denied_alert_raises [OF assms(4), of store alert ro _ prompt st]
  by (auto simp: receive_alertmanager_def process_alert_def Let_def split: prod.splits)

section \<open>The prompt\<close>

text \<open>The prompt of an alert has no bound: the description and the labels are truncated, the alert name and the
  severity are inserted as they are, so for every length there is an alert that maps to a longer prompt.\<close>

theorem alert_prompt_unbounded:
  "\<exists>alert name prompt. map_alert_to_workflow_input alert config = Ok (name, prompt) \<and> n < length prompt"
proof -
  let ?alert = "\<lparr>al_status = ''firing'', al_labels = [(''alertname'', replicate (Suc n) (CHR ''x'')),
      (ac_workflow_name_label config, ''w'')], al_annotations = [], al_starts_at = [], al_ends_at = [],
      al_generator_url = [], al_fingerprint = ''f''\<rparr>"
  have "n < length (alert_prompt ?alert)" by (simp add: alert_prompt_def Let_def label_or_def)
  moreover have "\<exists>name. map_alert_to_workflow_input ?alert config = Ok (name, alert_prompt ?alert)"
    by (simp add: map_alert_to_workflow_input_def Let_def given_text_def)
  ultimately show ?thesis by blast
qed

definition alert_of :: "string \<Rightarrow> alert" where
  "alert_of name = \<lparr>al_status = ''firing'', al_labels = [(''cloud_agents_workflow'', name)], al_annotations = [], al_starts_at = [],
     al_ends_at = [], al_generator_url = [], al_fingerprint = ''f1''\<rparr>"

definition default_alert_config :: alert_config where
  "default_alert_config = \<lparr>ac_workflow_name_label = ''cloud_agents_workflow'', ac_fire_on_resolved = False,
     ac_default_workflow = None, ac_dedup_window_seconds = 300\<rparr>"

theorem failed_start_suppresses_retry_witness:
  "\<exists>t''. process_alert \<lparr>sv_validate = strict_validate, sv_bracketed_ok = (\<lambda>_. True), sv_search = (\<lambda>_ _. False),
       sv_registered = [], sv_content_policy = None, sv_authorize = noop_authorize, sv_workflow_authz = ''none''\<rparr>
     default_alert_config ''system'' empty_definitions (alert_of ''triage'') \<lparr>ro_now = 60, ro_uuid = ''u'', ro_reply = Started\<rparr>
     (\<lparr>dt_window_seconds = 300, dt_last_fired = [(''f1'', 0)]\<rparr>, \<lparr>as_store = None, as_audit = [], as_calls = []\<rparr>)
   = (Ok AlertSkipped, t'', \<lparr>as_store = None, as_audit = [], as_calls = []\<rparr>)"
proof -
  let ?sv = "\<lparr>sv_validate = strict_validate, sv_bracketed_ok = (\<lambda>_. True), sv_search = (\<lambda>_ _. False),
       sv_registered = [], sv_content_policy = None, sv_authorize = noop_authorize, sv_workflow_authz = ''none''\<rparr>"
  let ?ro = "\<lparr>ro_now = 0, ro_uuid = ''u'', ro_reply = Started\<rparr>"
  let ?st = "\<lparr>as_store = None, as_audit = [], as_calls = []\<rparr>"
  let ?out = "process_alert ?sv default_alert_config ''system'' empty_definitions (alert_of ''triage'') ?ro
    (\<lparr>dt_window_seconds = 300, dt_last_fired = []\<rparr>, ?st)"
  have "fst ?out = Ok AlertFailed" "fst (snd ?out) = \<lparr>dt_window_seconds = 300, dt_last_fired = [(''f1'', 0)]\<rparr>"
    by (simp_all add: process_alert_def default_alert_config_def alert_of_def should_process_alert_def should_fire_def
        prune_def Let_def map_alert_to_workflow_input_def given_text_def trigger_workflow_def noop_authorize_def
        get_definition_def empty_definitions_def)
  then have "process_alert ?sv default_alert_config ''system'' empty_definitions (alert_of ''triage'') ?ro
      (\<lparr>dt_window_seconds = 300, dt_last_fired = []\<rparr>, ?st) = (Ok AlertFailed, \<lparr>dt_window_seconds = 300, dt_last_fired = [(''f1'', 0)]\<rparr>, snd (snd ?out))"
    by (metis prod.collapse)
  then show ?thesis by (rule failed_start_suppresses_retry) simp_all
qed

end
