(* ===== verification/ScheduleTrigger.thy ===== *)
theory ScheduleTrigger
  imports AlertTrigger
begin

text \<open>
  Cron schedules, \<open>triggers/schedule_trigger.py\<close>: the validator of cron expressions, the creation of a
  Temporal schedule from a stored definition, and the endpoints that show, pause, resume and delete
  one. Temporal's own schedules are a map from identifiers to what was registered.
\<close>

section \<open>Cron expressions\<close>

text \<open>\<open>str.split()\<close>: the maximal runs of characters that are not white space.\<close>

function split_words :: "string \<Rightarrow> string list" where
  "split_words s =
     (let t = dropWhile py_space s in
        if t = [] then [] else takeWhile (\<lambda>c. \<not> py_space c) t # split_words (dropWhile (\<lambda>c. \<not> py_space c) t))"
  by pat_completeness auto
termination
proof (relation "measure length", goal_cases)
  case (2 s t)
  have "dropWhile (\<lambda>c. \<not> py_space c) t \<noteq> t" using 2 hd_dropWhile [of py_space s]
    by (metis dropWhile_eq_self_iff)
  then have "length (dropWhile (\<lambda>c. \<not> py_space c) t) < length t"
    by (metis dropWhile_eq_drop length_drop length_takeWhile_le diff_less le_less drop_0 neq0_conv less_le_trans)
  also have "length t \<le> length s" using 2 by (simp add: length_dropWhile_le)
  finally show ?case by simp
qed simp

declare split_words.simps [simp del]

definition cron_shorthands :: "string list" where
  "cron_shorthands = [''@annually'', ''@daily'', ''@every'', ''@hourly'', ''@midnight'', ''@monthly'', ''@weekly'', ''@yearly'']"

definition cron_char :: "char \<Rightarrow> bool" where
  "cron_char c = (py_digit c \<or> c \<in> set ''*/-,'')"

text \<open>
  The pattern of five fields matches a text whose words are five exactly if every word consists of
  the characters of a field.
\<close>

definition validate_cron :: "string \<Rightarrow> string res" where
  "validate_cron v =
     (let stripped = py_strip v; fields = split_words stripped in
      if stripped = [] then Err (ValueError ''Cron expression must not be empty'')
      else if hd stripped = CHR ''@'' then
        let keyword = py_lower (hd fields) in
          if keyword \<notin> set cron_shorthands then
            Err (ValueError (''Unknown cron shorthand '' @ quote stripped @ ''. Supported: '' @ py_join '', '' cron_shorthands))
          else if keyword = ''@every'' \<and> length fields < 2 then
            Err (ValueError (''@every requires an interval argument, e.g. '' @ quote ''@every 5m''))
          else Ok stripped
      else if length fields \<noteq> 5 then
        Err (ValueError (''Expected 5-field cron expression (minute hour day month weekday), got ''
          @ show_nat (length fields) @ '' fields: '' @ quote stripped))
      else if \<not> list_all (list_all cron_char) fields then
        Err (ValueError (''Invalid cron expression: '' @ quote stripped
          @ ''. Each field must contain digits, *, /, -, or commas.''))
      else Ok stripped)"

section \<open>Requests\<close>

record schedule_spec =
  ss_cron :: string
  ss_timezone :: string
  ss_jitter_seconds :: int
  ss_overlap_policy :: string

record schedule_input =
  sch_schedule_id :: string
  sch_workflow_name :: string
  sch_schedule :: schedule_spec
  sch_provider :: "pydict option"
  sch_sandbox_image :: string
  sch_input_prompt :: "string option"
  sch_paused :: bool

text \<open>The model of a request: the cron expression is replaced by the validated one, a missing identifier by a new one.\<close>

definition schedule_request ::
  "string option \<Rightarrow> string \<Rightarrow> string \<Rightarrow> schedule_spec \<Rightarrow> pydict option \<Rightarrow> string \<Rightarrow> string option \<Rightarrow> bool \<Rightarrow> schedule_input res" where
  "schedule_request schedule_id fresh workflow_name spec provider sandbox_image input_prompt paused =
     then_do (validate_cron (ss_cron spec)) (\<lambda>cron.
       Ok \<lparr>sch_schedule_id = (case schedule_id of Some i \<Rightarrow> i | None \<Rightarrow> ''sched-'' @ fresh), sch_workflow_name = workflow_name,
           sch_schedule = spec\<lparr>ss_cron := cron\<rparr>, sch_provider = provider, sch_sandbox_image = sandbox_image,
           sch_input_prompt = input_prompt, sch_paused = paused\<rparr>)"

datatype overlap = SKIP | BUFFER_ONE | CANCEL_OTHER | ALLOW_ALL

definition overlap_of :: "string \<Rightarrow> overlap" where
  "overlap_of policy =
     (if policy = ''buffer_one'' then BUFFER_ONE else if policy = ''cancel_other'' then CANCEL_OTHER
      else if policy = ''allow_all'' then ALLOW_ALL else SKIP)"

text \<open>What is registered with Temporal.\<close>

record temporal_schedule =
  ts_input :: workflow_input
  ts_action_id :: string
  ts_cron_expressions :: "string list"
  ts_jitter_seconds :: int
  ts_overlap :: overlap
  ts_paused :: bool
  ts_memo :: "string dict"

record schedule_state =
  sc_schedules :: "temporal_schedule dict"
  sc_audit :: "audit_event list"

section \<open>Creating a schedule\<close>

definition schedule_provider :: "service \<Rightarrow> schedule_input \<Rightarrow> stored_definition \<Rightarrow> pydict res" where
  "schedule_provider sv req stored =
     (case sch_provider req of
        Some p \<Rightarrow> Ok p
      | None \<Rightarrow>
          if dget (sd_definition stored) ''provider'' = VNone
          then Err (HTTPException 400 [''No provider configured for workflow '' @ quote (sch_workflow_name req)
                 @ '' and none provided in request''])
          else then_do (sv_validate sv ProviderConfig (dget (sd_definition stored) ''provider'')) as_dict)"

text \<open>The definition and the provider of the schedule, up to the policy check.\<close>

definition resolve_schedule ::
  "service \<Rightarrow> caller_identity \<Rightarrow> definition_store \<Rightarrow> schedule_input \<Rightarrow> (pydict \<times> pydict) res" where
  "resolve_schedule sv caller store req =
     then_do (require sv caller ScheduleCreate (no_resource\<lparr>wr_workflow_name := Some (sch_workflow_name req)\<rparr>)) (\<lambda>_.
       case get_definition (sch_workflow_name req) store of
         None \<Rightarrow> Err (HTTPException 404 [''Workflow '' @ quote (sch_workflow_name req) @ '' not found''])
       | Some stored \<Rightarrow>
           then_do (schedule_provider sv req stored) (\<lambda>provider. Ok (sd_definition stored, provider)))"

definition scheduled_input ::
  "caller_identity \<Rightarrow> schedule_input \<Rightarrow> string \<Rightarrow> pydict \<Rightarrow> pydict \<Rightarrow> workflow_input" where
  "scheduled_input caller req uuid definition provider =
     \<lparr>wi_definition = definition, wi_input_prompt = sch_input_prompt req,
      wi_workflow_id = ''sched-'' @ sch_schedule_id req @ ''-'' @ uuid, wi_provider = provider,
      wi_sandbox_image = sch_sandbox_image req, wi_skills_image = VNone, wi_skills_paths = VNone,
      wi_approval_policy = None, wi_advisory = False, wi_notifier_config = VNone, wi_escalation_config = VNone,
      wi_mcp_servers = VNone,
      wi_authz_context = Some [(''owner_username'', VStr (ci_username caller)),
        (''owner_groups'', VList (map VStr (ci_groups caller))), (''workflow_name'', VStr (sch_workflow_name req)),
        (''namespace'', VNone)]\<rparr>"

definition registered_schedule :: "schedule_input \<Rightarrow> workflow_input \<Rightarrow> temporal_schedule" where
  "registered_schedule req input =
     (let spec = sch_schedule req in
        \<lparr>ts_input = input, ts_action_id = ''sched-'' @ sch_schedule_id req @ ''-{{.Now}}'',
         ts_cron_expressions = [ss_cron spec], ts_jitter_seconds = ss_jitter_seconds spec,
         ts_overlap = overlap_of (ss_overlap_policy spec), ts_paused = sch_paused req,
         ts_memo = [(''workflow_name'', sch_workflow_name req), (''cron'', ss_cron spec)]\<rparr>)"

definition schedule_audit :: "caller_identity \<Rightarrow> schedule_input \<Rightarrow> audit_event list" where
  "schedule_audit caller req =
     [\<lparr>au_type = ''schedule_created'', au_workflow_id = [], au_step_name = [], au_actor = ci_username caller,
       au_details = [(''schedule_id'', VStr (sch_schedule_id req)), (''workflow_name'', VStr (sch_workflow_name req)),
         (''cron'', VStr (ss_cron (sch_schedule req))), (''timezone'', VStr (ss_timezone (sch_schedule req))),
         (''paused'', VBool (sch_paused req))]\<rparr>,
      \<lparr>au_type = ''schedule_triggered'', au_workflow_id = [], au_step_name = [], au_actor = ci_username caller,
       au_details = [(''schedule_id'', VStr (sch_schedule_id req)), (''workflow_name'', VStr (sch_workflow_name req)),
         (''trigger'', VStr ''schedule_registered'')]\<rparr>]"

definition schedule_policy_audit :: "schedule_input \<Rightarrow> pydict \<Rightarrow> string list \<Rightarrow> audit_event list res" where
  "schedule_policy_audit req definition errors =
     (let policy_errors = filter (\<lambda>e. sublist ''content policy'' (py_lower e)) errors in
        if policy_errors = [] then Ok []
        else then_do (metadata_name definition) (\<lambda>name.
          Ok [\<lparr>au_type = ''content_policy_violation'', au_workflow_id = [], au_step_name = [], au_actor = [],
               au_details = [(''schedule_id'', VStr (sch_schedule_id req)), (''definition_name'', name),
                 (''violations'', VList (map VStr policy_errors))]\<rparr>]))"

text \<open>
  Temporal refuses an identifier that is taken; \<open>reachable\<close> is whether the call gets through at all. A
  negative jitter is refused by Temporal like any other failure.
\<close>

definition create_schedule ::
  "service \<Rightarrow> caller_identity \<Rightarrow> definition_store \<Rightarrow> schedule_input \<Rightarrow> string \<Rightarrow> bool \<Rightarrow> schedule_state
   \<Rightarrow> string res \<times> schedule_state" where
  "create_schedule sv caller store req uuid reachable st =
     (case resolve_schedule sv caller store req of
        Inl e \<Rightarrow> (Err e, st)
      | Inr (definition, provider) \<Rightarrow>
          (case policy_findings sv definition of
             Inl e \<Rightarrow> (Err e, st)
           | Inr (e # es) \<Rightarrow>
               (case schedule_policy_audit req definition (e # es) of
                  Inl x \<Rightarrow> (Err x, st)
                | Inr a \<Rightarrow> (Err (HTTPException 422 (e # es)), st\<lparr>sc_audit := sc_audit st @ a\<rparr>))
           | Inr [] \<Rightarrow>
               if map_of (sc_schedules st) (sch_schedule_id req) \<noteq> None then
                 (Err (HTTPException 409 [''Schedule '' @ quote (sch_schedule_id req) @ '' already exists'']), st)
               else if \<not> reachable then (Err (HTTPException 500 [''Internal error creating schedule'']), st)
               else (Ok (sch_schedule_id req),
                     \<lparr>sc_schedules = dict_set (sch_schedule_id req)
                          (registered_schedule req (scheduled_input caller req uuid definition provider)) (sc_schedules st),
                      sc_audit = sc_audit st @ schedule_audit caller req\<rparr>)))"

section \<open>The other endpoints\<close>

definition not_found :: "string \<Rightarrow> pyexc" where
  "not_found schedule_id = HTTPException 404 [''Schedule '' @ quote schedule_id @ '' not found'']"

definition delete_schedule ::
  "service \<Rightarrow> caller_identity \<Rightarrow> string \<Rightarrow> schedule_state \<Rightarrow> string res \<times> schedule_state" where
  "delete_schedule sv caller schedule_id st =
     (case require sv caller ScheduleDelete no_resource of
        Inl e \<Rightarrow> (Err e, st)
      | Inr _ \<Rightarrow>
          if map_of (sc_schedules st) schedule_id = None then (Err (not_found schedule_id), st)
          else (Ok ''deleted'',
                \<lparr>sc_schedules = filter (\<lambda>(i, _). i \<noteq> schedule_id) (sc_schedules st),
                 sc_audit = sc_audit st @ [\<lparr>au_type = ''schedule_deleted'', au_workflow_id = [], au_step_name = [],
                   au_actor = [], au_details = [(''schedule_id'', VStr schedule_id)]\<rparr>]\<rparr>))"

definition set_schedule_paused :: "bool \<Rightarrow> string \<Rightarrow> schedule_state \<Rightarrow> schedule_state option" where
  "set_schedule_paused b schedule_id st =
     map_option (\<lambda>t. st\<lparr>sc_schedules := dict_set schedule_id (t\<lparr>ts_paused := b\<rparr>) (sc_schedules st)\<rparr>)
       (map_of (sc_schedules st) schedule_id)"

definition pause_schedule ::
  "service \<Rightarrow> caller_identity \<Rightarrow> string \<Rightarrow> schedule_state \<Rightarrow> string res \<times> schedule_state" where
  "pause_schedule sv caller schedule_id st =
     (case require sv caller SchedulePause no_resource of
        Inl e \<Rightarrow> (Err e, st)
      | Inr _ \<Rightarrow>
          (case set_schedule_paused True schedule_id st of
             None \<Rightarrow> (Err (not_found schedule_id), st)
           | Some st' \<Rightarrow> (Ok ''paused'', st')))"

definition resume_schedule ::
  "service \<Rightarrow> caller_identity \<Rightarrow> string \<Rightarrow> schedule_state \<Rightarrow> string res \<times> schedule_state" where
  "resume_schedule sv caller schedule_id st =
     (case require sv caller ScheduleResume no_resource of
        Inl e \<Rightarrow> (Err e, st)
      | Inr _ \<Rightarrow>
          (case set_schedule_paused False schedule_id st of
             None \<Rightarrow> (Err (not_found schedule_id), st)
           | Some st' \<Rightarrow> (Ok ''resumed'', st')))"

text \<open>
  What an endpoint reads of a schedule's description: the memo (which may fail to decode), the
  normalised specification, the run times.
\<close>

record schedule_description =
  sn_memo :: "string dict option"
  sn_cron_expressions :: "string list"
  sn_timezone_name :: "string option"
  sn_paused :: bool
  sn_next_action_times :: "string list"
  sn_recent_actions :: "string list"
  sn_overlap :: "string option"

record schedule_info =
  in_schedule_id :: string
  in_workflow_name :: string
  in_cron :: string
  in_timezone :: string
  in_paused :: bool
  in_next_run :: "string option"
  in_last_run :: "string option"
  in_overlap_policy :: string

definition info_of :: "string \<Rightarrow> schedule_description \<Rightarrow> schedule_info" where
  "info_of schedule_id desc =
     (let memo = (case sn_memo desc of Some m \<Rightarrow> m | None \<Rightarrow> []);
          cron = label_or memo ''cron'' [] in
        \<lparr>in_schedule_id = schedule_id, in_workflow_name = label_or memo ''workflow_name'' [],
         in_cron = (if cron = [] \<and> sn_cron_expressions desc \<noteq> [] then hd (sn_cron_expressions desc) else cron),
         in_timezone = (case given_text (sn_timezone_name desc) of Some z \<Rightarrow> z | None \<Rightarrow> ''UTC''),
         in_paused = sn_paused desc,
         in_next_run = (case sn_next_action_times desc of [] \<Rightarrow> None | x # _ \<Rightarrow> Some x),
         in_last_run = (if sn_recent_actions desc = [] then None else Some (last (sn_recent_actions desc))),
         in_overlap_policy = py_lower (case sn_overlap desc of Some p \<Rightarrow> p | None \<Rightarrow> ''SKIP'')\<rparr>)"

definition get_schedule ::
  "service \<Rightarrow> caller_identity \<Rightarrow> string \<Rightarrow> (string \<Rightarrow> schedule_description option) \<Rightarrow> schedule_info res" where
  "get_schedule sv caller schedule_id describe =
     then_do (require sv caller ScheduleView no_resource) (\<lambda>_.
       case describe schedule_id of
         None \<Rightarrow> Err (not_found schedule_id)
       | Some desc \<Rightarrow> Ok (info_of schedule_id desc))"

section \<open>What the endpoints guarantee\<close>

lemma require_Ok_if: "ad_allowed (sv_authorize sv c a r) \<Longrightarrow> require sv c a r = Ok ()"
  by (simp add: require_Ok)

lemma create_schedule_OkE:
  assumes "create_schedule sv caller store req uuid reachable st = (Ok i, st')"
  obtains stored provider where "i = sch_schedule_id req" "get_definition (sch_workflow_name req) store = Some stored"
    "ad_allowed (sv_authorize sv caller ScheduleCreate (no_resource\<lparr>wr_workflow_name := Some (sch_workflow_name req)\<rparr>))"
    "schedule_provider sv req stored = Ok provider" "policy_findings sv (sd_definition stored) = Ok []"
    "map_of (sc_schedules st) i = None"
    "sc_schedules st' = dict_set i (registered_schedule req (scheduled_input caller req uuid (sd_definition stored) provider)) (sc_schedules st)"
proof (cases "resolve_schedule sv caller store req")
  case (Inr dp)
  then obtain stored provider where r: "dp = (sd_definition stored, provider)"
    "get_definition (sch_workflow_name req) store = Some stored" "schedule_provider sv req stored = Ok provider"
    "ad_allowed (sv_authorize sv caller ScheduleCreate (no_resource\<lparr>wr_workflow_name := Some (sch_workflow_name req)\<rparr>))"
    by (auto simp: resolve_schedule_def then_do_Ok_iff require_Ok split: option.splits)
  then have out: "(case policy_findings sv (sd_definition stored) of
      Inl e \<Rightarrow> (Err e, st)
    | Inr (e # es) \<Rightarrow> (case schedule_policy_audit req (sd_definition stored) (e # es) of
          Inl x \<Rightarrow> (Err x, st) | Inr a \<Rightarrow> (Err (HTTPException 422 (e # es)), st\<lparr>sc_audit := sc_audit st @ a\<rparr>))
    | Inr [] \<Rightarrow>
        if map_of (sc_schedules st) (sch_schedule_id req) \<noteq> None then
          (Err (HTTPException 409 [''Schedule '' @ quote (sch_schedule_id req) @ '' already exists'']), st)
        else if \<not> reachable then (Err (HTTPException 500 [''Internal error creating schedule'']), st)
        else (Ok (sch_schedule_id req),
              \<lparr>sc_schedules = dict_set (sch_schedule_id req)
                 (registered_schedule req (scheduled_input caller req uuid (sd_definition stored) provider)) (sc_schedules st),
               sc_audit = sc_audit st @ schedule_audit caller req\<rparr>)) = (Ok i, st')"
    using assms Inr by (simp add: create_schedule_def)
  have ok: "policy_findings sv (sd_definition stored) = Ok []"
    using out by (auto split: sum.splits list.splits)
  show thesis using out r ok by (intro that [of stored provider]) (auto split: if_splits)
qed (use assms in \<open>simp add: create_schedule_def\<close>)

text \<open>The life of a schedule: an accepted request was authorized for the workflow it names, registers under a
  fresh identifier the stored definition of that name, with the requesting caller as its owner and the validated
  cron expression, and leaves every other schedule alone; the identifier is then taken (409), and a deletion by
  an authorized caller removes this schedule only.\<close>

theorem schedule_lifecycle:
  assumes "create_schedule sv caller store req uuid reachable st = (Ok i, st')"
  shows "ad_allowed (sv_authorize sv caller ScheduleCreate (no_resource\<lparr>wr_workflow_name := Some (sch_workflow_name req)\<rparr>))
    \<and> map_of (sc_schedules st) i = None
    \<and> (\<exists>s stored. map_of (sc_schedules st') i = Some s \<and> get_definition (sch_workflow_name req) store = Some stored
          \<and> wi_definition (ts_input s) = sd_definition stored \<and> ts_cron_expressions s = [ss_cron (sch_schedule req)]
          \<and> map_option (\<lambda>c. dget c ''owner_username'') (wi_authz_context (ts_input s)) = Some (VStr (ci_username caller)))
    \<and> (\<forall>j. j \<noteq> i \<longrightarrow> map_of (sc_schedules st') j = map_of (sc_schedules st) j)
    \<and> fst (create_schedule sv caller store req uuid' reachable' st')
        = Err (HTTPException 409 [''Schedule '' @ quote i @ '' already exists''])
    \<and> (ad_allowed (sv_authorize sv other ScheduleDelete no_resource) \<longrightarrow>
         map_of (sc_schedules (snd (delete_schedule sv other i st'))) = map_of (sc_schedules st))"
proof -
  obtain stored provider where c: "i = sch_schedule_id req" "get_definition (sch_workflow_name req) store = Some stored"
    "ad_allowed (sv_authorize sv caller ScheduleCreate (no_resource\<lparr>wr_workflow_name := Some (sch_workflow_name req)\<rparr>))"
    "schedule_provider sv req stored = Ok provider" "policy_findings sv (sd_definition stored) = Ok []"
    and fresh: "map_of (sc_schedules st) i = None"
    and st': "sc_schedules st' = dict_set i (registered_schedule req (scheduled_input caller req uuid (sd_definition stored) provider)) (sc_schedules st)"
    by (rule create_schedule_OkE [OF assms])
  have "fst (create_schedule sv caller store req uuid' reachable' st')
      = Err (HTTPException 409 [''Schedule '' @ quote i @ '' already exists''])"
    using c st' by (simp add: create_schedule_def resolve_schedule_def require_Ok_if)
  moreover have "map_of (sc_schedules (snd (delete_schedule sv other i st'))) = map_of (sc_schedules st)"
    if "ad_allowed (sv_authorize sv other ScheduleDelete no_resource)"
  proof
    fix j
    have "map_of (filter (\<lambda>(k, _). k \<noteq> i) d) j = (if j = i then None else map_of d j)" for d :: "temporal_schedule dict"
      by (induction d) auto
    then show "map_of (sc_schedules (snd (delete_schedule sv other i st'))) j = map_of (sc_schedules st) j"
      using st' fresh that by (simp add: delete_schedule_def require_Ok_if)
  qed
  ultimately show ?thesis using c(2,3) fresh st'
    by (auto simp: registered_schedule_def scheduled_input_def Let_def)
qed

text \<open>The time zone of a schedule has no effect: whatever zone a request names, the answer and every registered
  schedule are the same; the zone reaches the audit entry only.\<close>

theorem schedule_timezone_ignored:
  "fst (create_schedule sv caller store (req\<lparr>sch_schedule := (sch_schedule req)\<lparr>ss_timezone := zone\<rparr>\<rparr>) uuid reachable st)
     = fst (create_schedule sv caller store req uuid reachable st)
   \<and> sc_schedules (snd (create_schedule sv caller store (req\<lparr>sch_schedule := (sch_schedule req)\<lparr>ss_timezone := zone\<rparr>\<rparr>) uuid reachable st))
     = sc_schedules (snd (create_schedule sv caller store req uuid reachable st))"
proof -
  let ?req = "req\<lparr>sch_schedule := (sch_schedule req)\<lparr>ss_timezone := zone\<rparr>\<rparr>"
  have "schedule_provider sv ?req stored = schedule_provider sv req stored" for stored
    by (simp add: schedule_provider_def split: option.split)
  then have r: "resolve_schedule sv caller store ?req = resolve_schedule sv caller store req"
    by (simp add: resolve_schedule_def cong: option.case_cong)
  have i: "scheduled_input caller ?req uuid d p = scheduled_input caller req uuid d p" for d p
    by (simp add: scheduled_input_def)
  have s: "registered_schedule ?req input = registered_schedule req input" for input
    by (simp add: registered_schedule_def Let_def)
  have a: "schedule_policy_audit ?req d es = schedule_policy_audit req d es" for d es
    by (simp add: schedule_policy_audit_def Let_def)
  show ?thesis
    unfolding create_schedule_def r i s a by (auto split: sum.split prod.split list.split)
qed

definition nightly :: schedule_input where
  "nightly = \<lparr>sch_schedule_id = ''s1'', sch_workflow_name = ''triage'',
     sch_schedule = \<lparr>ss_cron = ''0 2 * * *'', ss_timezone = ''UTC'', ss_jitter_seconds = 0, ss_overlap_policy = ''skip''\<rparr>,
     sch_provider = Some [(''name'', VStr ''claude''), (''model'', VStr ''m'')], sch_sandbox_image = ''img'',
     sch_input_prompt = None, sch_paused = False\<rparr>"

definition open_service :: service where
  "open_service = \<lparr>sv_validate = strict_validate, sv_bracketed_ok = (\<lambda>_. True), sv_search = (\<lambda>_ _. False),
     sv_registered = [], sv_content_policy = None, sv_authorize = noop_authorize, sv_workflow_authz = ''none''\<rparr>"

theorem schedule_lifecycle_witness:
  "let caller = \<lparr>ci_username = ''ann'', ci_uid = None, ci_groups = [], ci_auth_mode = ''oidc''\<rparr>;
       store = fold (apply_catalog_op save_definition delete_definition) [Save ''t'' (sample_body ''p'')] empty_definitions;
       st' = snd (create_schedule open_service caller store nightly ''u'' True \<lparr>sc_schedules = [], sc_audit = []\<rparr>)
   in keys (sc_schedules st') = [''s1'']
      \<and> map_of (sc_schedules (snd (delete_schedule open_service caller ''s1'' st'))) ''s1'' = None"
proof -
  let ?caller = "\<lparr>ci_username = ''ann'', ci_uid = None, ci_groups = [], ci_auth_mode = ''oidc''\<rparr>"
  let ?store = "fold (apply_catalog_op save_definition delete_definition) [Save ''t'' (sample_body ''p'')] empty_definitions"
  let ?out = "create_schedule open_service ?caller ?store nightly ''u'' True \<lparr>sc_schedules = [], sc_audit = []\<rparr>"
  have "fst ?out = Ok ''s1''" and keys: "keys (sc_schedules (snd ?out)) = [''s1'']" by code_simp+
  then have "create_schedule open_service ?caller ?store nightly ''u'' True \<lparr>sc_schedules = [], sc_audit = []\<rparr> = (Ok ''s1'', snd ?out)"
    by (metis prod.collapse)
  from schedule_lifecycle [OF this, of _ _ ?caller]
  have "map_of (sc_schedules (snd (delete_schedule open_service ?caller ''s1'' (snd ?out)))) = map_of []"
    by (simp add: open_service_def noop_authorize_def)
  then show ?thesis using keys by (simp add: Let_def)
qed

end
