(* ===== verification/ScheduleList.thy ===== *)
theory ScheduleList
  imports ScheduleTrigger
begin

text \<open>
  The listing of schedules (\<open>triggers/schedule_trigger.py\<close>, \<open>list_schedules\<close>). The handler asks every entry whether it has
  a specification, a state, times and a policy; what it has is optional here.
\<close>

record list_entry =
  le_id :: string
  le_memo :: "string dict option"
  le_spec :: "(string list \<times> string option) option"
  le_paused :: "bool option"
  le_times :: "(string list \<times> string list) option"
  le_overlap :: "string option"

definition list_info :: "list_entry \<Rightarrow> schedule_info" where
  "list_info e =
     (let memo = (case le_memo e of Some m \<Rightarrow> m | None \<Rightarrow> []);
          cron = label_or memo ''cron'' [] in
        \<lparr>in_schedule_id = le_id e, in_workflow_name = label_or memo ''workflow_name'' [],
         in_cron = (case le_spec e of
             Some (c # _, _) \<Rightarrow> if cron = [] then c else cron
           | _ \<Rightarrow> cron),
         in_timezone = (case le_spec e of
             None \<Rightarrow> []
           | Some (_, zone) \<Rightarrow> (case given_text zone of Some z \<Rightarrow> z | None \<Rightarrow> ''UTC'')),
         in_paused = (case le_paused e of Some b \<Rightarrow> b | None \<Rightarrow> False),
         in_next_run = (case le_times e of Some (t # _, _) \<Rightarrow> Some t | _ \<Rightarrow> None),
         in_last_run = (case le_times e of Some (_, r # rs) \<Rightarrow> Some (last (r # rs)) | _ \<Rightarrow> None),
         in_overlap_policy = py_lower (case le_overlap e of Some p \<Rightarrow> p | None \<Rightarrow> ''SKIP'')\<rparr>)"

definition list_schedules :: "service \<Rightarrow> caller_identity \<Rightarrow> list_entry list \<Rightarrow> schedule_info list res" where
  "list_schedules sv caller entries =
     then_do (require sv caller ScheduleView no_resource) (\<lambda>_. Ok (map list_info entries))"

text \<open>
  For entries that carry what a description carries, the list says of a schedule what its own endpoint says.
\<close>

definition entry_of :: "string \<Rightarrow> schedule_description \<Rightarrow> list_entry" where
  "entry_of i desc =
     \<lparr>le_id = i, le_memo = sn_memo desc, le_spec = Some (sn_cron_expressions desc, sn_timezone_name desc),
      le_paused = Some (sn_paused desc), le_times = Some (sn_next_action_times desc, sn_recent_actions desc),
      le_overlap = sn_overlap desc\<rparr>"

lemma list_info_agrees: "list_info (entry_of i desc) = info_of i desc"
  by (auto simp: list_info_def entry_of_def info_of_def Let_def split: list.splits)

lemma list_agrees_with_get:
  assumes "list_schedules sv caller (map (\<lambda>(i, d). entry_of i d) ds) = Ok infos" "(i, desc) \<in> set ds"
  shows "\<exists>info. info \<in> set infos \<and> get_schedule sv caller i (\<lambda>_. Some desc) = Ok info"
  using assms by (force simp: list_schedules_def get_schedule_def then_do_Ok_iff list_info_agrees)

text \<open>
  The entries of the client library keep these parts below \<open>schedule\<close>, where the handler does not look: whatever the
  schedule, the list reports it as not paused, without a time zone and with the default policy.
\<close>

lemma paused_schedule_listed_as_running:
  assumes "le_spec e = None" "le_paused e = None" "le_overlap e = None"
  shows "\<not> in_paused (list_info e) \<and> in_timezone (list_info e) = [] \<and> in_overlap_policy (list_info e) = ''skip''"
proof -
  have "py_lower ''SKIP'' = ''skip''" by code_simp
  then show ?thesis using assms by (simp add: list_info_def Let_def)
qed

end
