(* ===== verification/CliSessions.thy ===== *)
theory CliSessions
  imports Submission
begin

text \<open>
  Interactive CLI sessions: the launcher of \<open>workflow/cli_session.py\<close>, the message validator and the
  session endpoints of \<open>executor/temporal/api.py\<close>. The operations are cut at their awaits, so the step
  relation interleaves a terminating request, a message being written and the timeout monitor; the
  launcher's lock covers the first two.
\<close>

section \<open>Messages\<close>

definition max_message_bytes :: nat where
  "max_message_bytes = 65536"

text \<open>The size of a text in UTF-8; a code point from 128 on takes two bytes (those from 2048 on are not modelled).\<close>

definition utf8_length :: "string \<Rightarrow> nat" where
  "utf8_length s = sum_list (map (\<lambda>c. if code_of c < 128 then 1 else 2) s)"

definition control_char :: "char \<Rightarrow> bool" where
  "control_char c =
     (let n = code_of c in n \<le> 8 \<or> n = 11 \<or> n = 12 \<or> (14 \<le> n \<and> n \<le> 31) \<or> n = 127)"

definition sanitize_message :: "string \<Rightarrow> string" where
  "sanitize_message text = filter (\<lambda>c. \<not> control_char c) text"

definition message_too_long :: pyexc where
  "message_too_long = ValueError (''Message exceeds maximum size of '' @ show_nat max_message_bytes @ '' bytes'')"

definition validate_message :: "string \<Rightarrow> string res" where
  "validate_message v =
     (if utf8_length v > max_message_bytes * 4 then Err message_too_long
      else let sanitized = sanitize_message v in
        if py_strip sanitized = [] then Err (ValueError ''Message must not be empty or whitespace-only'')
        else if utf8_length sanitized > max_message_bytes then Err message_too_long
        else Ok sanitized)"

section \<open>The launcher\<close>

datatype session_status = RUNNING | COMPLETED | FAILED | TERMINATED

fun status_value :: "session_status \<Rightarrow> string" where
  "status_value RUNNING = ''running''"
| "status_value COMPLETED = ''completed''"
| "status_value FAILED = ''failed''"
| "status_value TERMINATED = ''terminated''"

record session_info =
  se_session_id :: string
  se_agent_name :: string
  se_workflow_id :: string
  se_started_at :: nat
  se_status :: session_status
  se_endpoint :: "string option"
  se_error :: "string option"

text \<open>Who holds the lock of the launcher, and what for; \<open>la_expiring\<close> is the session whose container the monitor is destroying.\<close>

datatype lock = Unlocked | Terminating string | Sending string string

record launcher =
  la_max_session_seconds :: nat
  la_sessions :: "session_info dict"
  la_lock :: lock
  la_expiring :: "string option"
  la_messages :: "string dict"
  la_audit :: "audit_event list"

definition session_audit :: "string \<Rightarrow> session_info \<Rightarrow> pydict \<Rightarrow> audit_event" where
  "session_audit event_type info extra =
     \<lparr>au_type = event_type, au_workflow_id = se_workflow_id info, au_step_name = [], au_actor = [],
      au_details = [(''session_id'', VStr (se_session_id info)), (''agent_name'', VStr (se_agent_name info))] @ extra\<rparr>"

definition log_event :: "audit_event \<Rightarrow> launcher \<Rightarrow> launcher" where
  "log_event e l = l\<lparr>la_audit := la_audit l @ [e]\<rparr>"

definition set_info :: "session_info \<Rightarrow> launcher \<Rightarrow> launcher" where
  "set_info info l = l\<lparr>la_sessions := dict_set (se_session_id info) info (la_sessions l)\<rparr>"

text \<open>The environment of a session's container.\<close>

definition session_env :: "string dict option \<Rightarrow> string \<Rightarrow> string \<Rightarrow> string dict" where
  "session_env env context_markdown prompt =
     dict_set ''CLI_HANDOFF_PROMPT'' prompt
       (dict_set ''CLI_HANDOFF_CONTEXT'' context_markdown (case env of Some e \<Rightarrow> e | None \<Rightarrow> []))"

definition session_labels :: "string \<Rightarrow> string \<Rightarrow> string dict" where
  "session_labels workflow_id session_id =
     [(''cloud-agents/session-type'', ''cli-handoff''), (''cloud-agents/workflow-id'', workflow_id),
      (''cloud-agents/session-id'', session_id)]"

text \<open>\<open>launch_session\<close>: the container is spawned first; a spawn that fails is audited and leaves no session.\<close>

definition launch_session ::
  "string \<Rightarrow> string \<Rightarrow> string \<Rightarrow> string \<Rightarrow> nat \<Rightarrow> (string, string) sum \<Rightarrow> launcher \<Rightarrow> string res \<times> launcher" where
  "launch_session session_id agent_name img workflow_id now spawned l =
     (case spawned of
        Inr endpoint \<Rightarrow>
          let info = \<lparr>se_session_id = session_id, se_agent_name = agent_name, se_workflow_id = workflow_id,
                se_started_at = now, se_status = RUNNING, se_endpoint = Some endpoint, se_error = None\<rparr> in
            (Ok session_id,
             log_event (session_audit ''cli_session_launched'' info [(''image'', VStr img)]) (set_info info l))
      | Inl err \<Rightarrow>
          (Err (RuntimeError err),
           log_event \<lparr>au_type = ''cli_session_failed'', au_workflow_id = workflow_id, au_step_name = [], au_actor = [],
                 au_details = [(''session_id'', VStr session_id), (''agent_name'', VStr agent_name), (''error'', VStr err)]\<rparr> l))"

definition get_session_status :: "string \<Rightarrow> launcher \<Rightarrow> session_info option" where
  "get_session_status session_id l = map_of (la_sessions l) session_id"

definition list_sessions :: "string option \<Rightarrow> launcher \<Rightarrow> session_info list" where
  "list_sessions workflow_id l =
     (case workflow_id of
        None \<Rightarrow> map snd (la_sessions l)
      | Some w \<Rightarrow> filter (\<lambda>s. se_workflow_id s = w) (map snd (la_sessions l)))"

text \<open>
  \<open>terminate\<close> up to the await of \<open>destroy\<close>, with the lock taken, and after it. A session that was
  terminated or failed before is destroyed again.
\<close>

definition begin_terminate :: "string \<Rightarrow> launcher \<Rightarrow> launcher res" where
  "begin_terminate session_id l =
     (case map_of (la_sessions l) session_id of
        None \<Rightarrow> Err (KeyError (''CLI session '' @ quote session_id @ '' not found''))
      | Some _ \<Rightarrow> Ok (l\<lparr>la_lock := Terminating session_id\<rparr>))"

definition destroyed :: "string \<Rightarrow> string option \<Rightarrow> session_info \<Rightarrow> launcher \<Rightarrow> launcher" where
  "destroyed reason failure info l =
     (case failure of
        None \<Rightarrow> log_event (session_audit ''cli_session_terminated'' info [(''reason'', VStr reason)])
                  (set_info (info\<lparr>se_status := TERMINATED\<rparr>) l)
      | Some err \<Rightarrow> set_info (info\<lparr>se_status := FAILED, se_error := Some err\<rparr>) l)"

definition end_terminate :: "string \<Rightarrow> string option \<Rightarrow> launcher \<Rightarrow> unit res \<times> launcher" where
  "end_terminate session_id failure l =
     (case map_of (la_sessions l) session_id of
        None \<Rightarrow> (Ok (), l\<lparr>la_lock := Unlocked\<rparr>)
      | Some info \<Rightarrow>
          (case failure of None \<Rightarrow> Ok () | Some err \<Rightarrow> Err (RuntimeError err),
           (destroyed ''user_request'' failure info l)\<lparr>la_lock := Unlocked\<rparr>))"

text \<open>\<open>send_message\<close>: the status is checked with the lock held; then the line is appended to the message file.\<close>

definition begin_send :: "string \<Rightarrow> string \<Rightarrow> launcher \<Rightarrow> launcher res" where
  "begin_send session_id message l =
     (case map_of (la_sessions l) session_id of
        None \<Rightarrow> Err (KeyError (''CLI session '' @ quote session_id @ '' not found''))
      | Some info \<Rightarrow>
          if se_status info \<noteq> RUNNING
          then Err (RuntimeError (''CLI session '' @ quote session_id @ '' is not in RUNNING state (current: ''
                 @ status_value (se_status info) @ '')''))
          else Ok (l\<lparr>la_lock := Sending session_id message\<rparr>))"

definition end_send :: "string \<Rightarrow> string \<Rightarrow> string \<Rightarrow> launcher \<Rightarrow> launcher" where
  "end_send session_id message now l =
     (case map_of (la_sessions l) session_id of
        None \<Rightarrow> l\<lparr>la_lock := Unlocked\<rparr>
      | Some info \<Rightarrow>
          let line = json_dumps (VDict [(''message'', VStr message), (''timestamp'', VStr now)]) @ [newline];
              existing = (case map_of (la_messages l) (se_agent_name info) of Some t \<Rightarrow> t | None \<Rightarrow> []) in
            log_event (session_audit ''cli_session_message_sent'' info [(''message_length'', VInt (int (length message)))])
              (l\<lparr>la_lock := Unlocked, la_messages := dict_set (se_agent_name info) (existing @ line) (la_messages l)\<rparr>))"

text \<open>
  One session of a round of the timeout monitor, before and after the await of \<open>destroy\<close>. The monitor
  does not take the lock.
\<close>

definition begin_expire :: "string \<Rightarrow> nat \<Rightarrow> launcher \<Rightarrow> launcher option" where
  "begin_expire session_id now l =
     (case map_of (la_sessions l) session_id of
        None \<Rightarrow> None
      | Some info \<Rightarrow>
          if se_status info \<noteq> RUNNING \<or> now - se_started_at info \<le> la_max_session_seconds l then None
          else Some (l\<lparr>la_expiring := Some session_id\<rparr>))"

definition end_expire :: "string \<Rightarrow> string option \<Rightarrow> launcher \<Rightarrow> launcher" where
  "end_expire session_id failure l =
     (case map_of (la_sessions l) session_id of
        None \<Rightarrow> l\<lparr>la_expiring := None\<rparr>
      | Some info \<Rightarrow> (destroyed ''timeout'' failure info l)\<lparr>la_expiring := None\<rparr>)"

inductive session_step :: "launcher \<Rightarrow> launcher \<Rightarrow> bool" where
  launched: "map_of (la_sessions l) session_id = None \<Longrightarrow>
    session_step l (snd (launch_session session_id agent_name img workflow_id now spawned l))"
| terminating: "la_lock l = Unlocked \<Longrightarrow> begin_terminate session_id l = Ok l' \<Longrightarrow> session_step l l'"
| terminated: "la_lock l = Terminating session_id \<Longrightarrow> session_step l (snd (end_terminate session_id failure l))"
| sending: "la_lock l = Unlocked \<Longrightarrow> begin_send session_id message l = Ok l' \<Longrightarrow> session_step l l'"
| sent: "la_lock l = Sending session_id message \<Longrightarrow> session_step l (end_send session_id message now l)"
| send_failed: "la_lock l = Sending session_id message \<Longrightarrow> session_step l (l\<lparr>la_lock := Unlocked\<rparr>)"
| expiring: "la_expiring l = None \<Longrightarrow> begin_expire session_id t l = Some l' \<Longrightarrow> session_step l l'"
| expired: "la_expiring l = Some session_id \<Longrightarrow> session_step l (end_expire session_id failure l)"

section \<open>Output\<close>

text \<open>
  \<open>monitor_output\<close>: one round per answer of the file, given by the bytes of its content; the offset
  counts the bytes delivered so far. The status is read before each round.
\<close>

datatype read_reply = FileContent string | ReadFailed

fun monitor_output :: "nat \<Rightarrow> (session_status \<times> read_reply) list \<Rightarrow> (string \<times> nat) list" where
  "monitor_output offset [] = []"
| "monitor_output offset ((status, reply) # rounds) =
     (if status \<noteq> RUNNING then []
      else case reply of
        ReadFailed \<Rightarrow> []
      | FileContent content \<Rightarrow>
          if length content > offset
          then (drop offset content, length content) # monitor_output (length content) rounds
          else monitor_output offset rounds)"

section \<open>The endpoints\<close>

definition session_not_found :: "string \<Rightarrow> pyexc" where
  "session_not_found session_id = HTTPException 404 [''CLI session '' @ quote session_id @ '' not found'']"

definition list_cli_sessions :: "service \<Rightarrow> caller_identity \<Rightarrow> launcher \<Rightarrow> session_info list res" where
  "list_cli_sessions sv caller l = then_do (require sv caller View no_resource) (\<lambda>_. Ok (list_sessions None l))"

definition get_cli_session :: "service \<Rightarrow> caller_identity \<Rightarrow> string \<Rightarrow> launcher \<Rightarrow> session_info res" where
  "get_cli_session sv caller session_id l =
     then_do (require sv caller View no_resource) (\<lambda>_.
       case get_session_status session_id l of
         None \<Rightarrow> Err (session_not_found session_id)
       | Some info \<Rightarrow> Ok info)"

text \<open>The part of the two writing endpoints before the launcher is called.\<close>

definition delete_cli_session :: "service \<Rightarrow> caller_identity \<Rightarrow> string \<Rightarrow> launcher \<Rightarrow> launcher res" where
  "delete_cli_session sv caller session_id l =
     then_do (require sv caller Cancel no_resource) (\<lambda>_.
       case get_session_status session_id l of
         None \<Rightarrow> Err (session_not_found session_id)
       | Some _ \<Rightarrow> begin_terminate session_id l)"

definition send_cli_session_message ::
  "service \<Rightarrow> caller_identity \<Rightarrow> string \<Rightarrow> string \<Rightarrow> launcher \<Rightarrow> launcher res" where
  "send_cli_session_message sv caller session_id body l =
     then_do (unprocessable (validate_message body)) (\<lambda>message.
     then_do (require sv caller SessionMessage no_resource) (\<lambda>_.
       case get_session_status session_id l of
         None \<Rightarrow> Err (session_not_found session_id)
       | Some info \<Rightarrow>
           if se_status info \<noteq> RUNNING
           then Err (HTTPException 409 [''Cannot send message to session '' @ quote session_id @ '': session is ''
                  @ status_value (se_status info)])
           else begin_send session_id message l))"

section \<open>What messages look like\<close>

lemma utf8_length_filter: "utf8_length (filter P s) \<le> utf8_length s"
  by (induction s) (auto simp: utf8_length_def)

lemma utf8_length_ge: "length s \<le> utf8_length s"
  by (induction s) (auto simp: utf8_length_def)

text \<open>An accepted message is clean and stable: it is the request without its control characters, it is not
  blank, takes at most 64 KiB in UTF-8, and validating it again returns it unchanged; a clean message within the
  limit that is not blank is always accepted as it is.\<close>

theorem message_validation_exact:
  "(validate_message v = Ok m \<longleftrightarrow>
      m = sanitize_message v \<and> utf8_length v \<le> 4 * max_message_bytes \<and> py_strip m \<noteq> [] \<and> utf8_length m \<le> max_message_bytes)
   \<and> (validate_message v = Ok m \<longrightarrow> (\<forall>c \<in> set m. \<not> control_char c) \<and> length m \<le> max_message_bytes \<and> validate_message m = Ok m)"
proof -
  have iff: "validate_message v = Ok m \<longleftrightarrow>
      m = sanitize_message v \<and> utf8_length v \<le> 4 * max_message_bytes \<and> py_strip m \<noteq> [] \<and> utf8_length m \<le> max_message_bytes" for v m
    by (auto simp: validate_message_def Let_def)
  have "validate_message m = Ok m \<and> (\<forall>c \<in> set m. \<not> control_char c) \<and> length m \<le> max_message_bytes" if "validate_message v = Ok m"
  proof -
    from that have m: "m = sanitize_message v" "py_strip m \<noteq> []" "utf8_length m \<le> max_message_bytes" by (auto simp: iff)
    moreover have "sanitize_message m = m" by (simp add: m(1) sanitize_message_def)
    ultimately show ?thesis using utf8_length_ge [of m] by (auto simp: iff) (simp add: sanitize_message_def)
  qed
  with iff show ?thesis by blast
qed

section \<open>The life of a session\<close>

lemma la_simps [simp]:
  "la_sessions (log_event e l) = la_sessions l" "la_lock (log_event e l) = la_lock l" "la_expiring (log_event e l) = la_expiring l"
  "la_sessions (set_info i l) = dict_set (se_session_id i) i (la_sessions l)"
  "la_lock (set_info i l) = la_lock l" "la_expiring (set_info i l) = la_expiring l"
  by (simp_all add: log_event_def set_info_def)

definition sessions_named :: "launcher \<Rightarrow> bool" where
  "sessions_named l = (\<forall>i info. map_of (la_sessions l) i = Some info \<longrightarrow> se_session_id info = i)"

lemma destroyed_sessions:
  "map_of (la_sessions (destroyed reason failure info l)) i =
     (if i = se_session_id info
      then Some (case failure of None \<Rightarrow> info\<lparr>se_status := TERMINATED\<rparr>
                 | Some err \<Rightarrow> info\<lparr>se_status := FAILED, se_error := Some err\<rparr>)
      else map_of (la_sessions l) i)"
  "la_lock (destroyed reason failure info l) = la_lock l"
  by (auto simp: destroyed_def split: option.split)

text \<open>What one step does to a session: nothing, or it ends it.\<close>

definition session_kept :: "launcher \<Rightarrow> launcher \<Rightarrow> string \<Rightarrow> bool" where
  "session_kept l l' i =
     (\<forall>info. map_of (la_sessions l) i = Some info \<longrightarrow>
        (\<exists>info'. map_of (la_sessions l') i = Some info' \<and> se_agent_name info' = se_agent_name info
           \<and> (info' = info \<or> se_status info' \<in> {TERMINATED, FAILED})))"

lemma step_keeps:
  assumes "session_step l l'" and "sessions_named l"
  shows "sessions_named l' \<and> (\<forall>i. session_kept l l' i)"
  using assms
proof (induction rule: session_step.induct)
  case (launched l session_id agent_name img workflow_id now spawned)
  then show ?case
    by (cases spawned) (auto simp: launch_session_def Let_def sessions_named_def session_kept_def)
next
  case (terminated l session_id failure)
  then show ?case
    by (cases "map_of (la_sessions l) session_id"; cases failure)
      (auto simp: end_terminate_def sessions_named_def session_kept_def destroyed_sessions)
next
  case (expired l session_id failure)
  then show ?case
    by (cases "map_of (la_sessions l) session_id"; cases failure)
      (auto simp: end_expire_def sessions_named_def session_kept_def destroyed_sessions)
next
  case (sent l session_id message now)
  then show ?case
    by (cases "map_of (la_sessions l) session_id") (auto simp: end_send_def Let_def sessions_named_def session_kept_def)
qed (auto simp: begin_terminate_def begin_send_def begin_expire_def sessions_named_def session_kept_def
      split: option.splits if_splits)

definition empty_launcher :: "nat \<Rightarrow> launcher" where
  "empty_launcher max_seconds = \<lparr>la_max_session_seconds = max_seconds, la_sessions = [], la_lock = Unlocked,
     la_expiring = None, la_messages = [], la_audit = []\<rparr>"

lemma reachable_named: "session_step\<^sup>*\<^sup>* (empty_launcher n) l \<Longrightarrow> sessions_named l"
  by (induction rule: rtranclp_induct) (auto simp: empty_launcher_def sessions_named_def [of "empty_launcher n"] sessions_named_def dest: step_keeps)

text \<open>A session that ended never runs again: in every interleaving of launches, terminations, messages and
  timeouts, a tracked session stays tracked under its identifier with the same container, and once it is not
  running it is never running again.\<close>

theorem ended_session_stays_ended:
  assumes "session_step\<^sup>*\<^sup>* (empty_launcher max_seconds) l" and "session_step\<^sup>*\<^sup>* l l'"
    and "map_of (la_sessions l) session_id = Some info"
  shows "\<exists>info'. map_of (la_sessions l') session_id = Some info' \<and> se_session_id info' = session_id
     \<and> se_agent_name info' = se_agent_name info \<and> (se_status info \<noteq> RUNNING \<longrightarrow> se_status info' \<noteq> RUNNING)"
  using assms(2)
proof (induction rule: rtranclp_induct)
  case base
  then show ?case using reachable_named [OF assms(1)] assms(3) by (auto simp: sessions_named_def)
next
  case (step m n)
  have "sessions_named m" using rtranclp_trans [OF assms(1) step.hyps(1)] by (rule reachable_named)
  from step_keeps [OF step.hyps(2) this] step.IH show ?case
    unfolding session_kept_def sessions_named_def by (metis insertE session_status.distinct(3,5) singletonD)
qed

text \<open>
  The lock: while a message is being written, no user request ends its session; only the monitor,
  which takes no lock, can.
\<close>

lemma send_excludes_terminate:
  assumes "session_step l l'" and "la_lock l = Sending session_id message" and "la_lock l' = Sending session_id message"
    and "la_expiring l \<noteq> Some session_id" and "sessions_named l" and "map_of (la_sessions l) session_id = Some info"
  shows "map_of (la_sessions l') session_id = Some info"
  using assms
proof (induction rule: session_step.induct)
  case (launched l i agent_name img workflow_id now spawned)
  then show ?case by (cases spawned) (auto simp: launch_session_def Let_def)
next
  case (expired l i failure)
  then have "map_of (la_sessions l) i = Some j \<Longrightarrow> se_session_id j \<noteq> session_id" for j by (auto simp: sessions_named_def)
  then show ?case using expired
    by (cases "map_of (la_sessions l) i") (auto simp: end_expire_def destroyed_sessions)
next
  case (sent l i m now)
  then show ?case by (cases "map_of (la_sessions l) i") (auto simp: end_send_def Let_def log_event_def)
qed (auto simp: begin_terminate_def begin_send_def begin_expire_def split: option.splits if_splits)

definition running_session :: session_info where
  "running_session = \<lparr>se_session_id = ''s'', se_agent_name = ''a'', se_workflow_id = ''w'', se_started_at = 0,
     se_status = RUNNING, se_endpoint = Some ''u'', se_error = None\<rparr>"

text \<open>The timeout monitor breaks the lock: there is a run in which a message is written to the container of a
  session that is already terminated, because the monitor destroys expired sessions without taking the lock under
  which the sender checked that the session runs.\<close>

theorem monitor_bypasses_lock:
  "\<exists>l info. session_step\<^sup>*\<^sup>* (empty_launcher 60) l \<and> la_lock l = Sending ''s'' ''hello''
     \<and> map_of (la_sessions l) ''s'' = Some info \<and> se_status info = TERMINATED
     \<and> session_step l (end_send ''s'' ''hello'' ''t1'' l)
     \<and> map_of (la_messages (end_send ''s'' ''hello'' ''t1'' l)) (se_agent_name info) \<noteq> None"
proof -
  let ?l0 = "empty_launcher 60"
  let ?l1 = "snd (launch_session ''s'' ''a'' ''img'' ''w'' 0 (Inr ''u'') ?l0)"
  let ?l2 = "?l1\<lparr>la_expiring := Some ''s''\<rparr>"
  let ?l3 = "?l2\<lparr>la_lock := Sending ''s'' ''hello''\<rparr>"
  let ?l4 = "end_expire ''s'' None ?l3"
  have info: "map_of (la_sessions ?l1) ''s'' = Some running_session"
    by (simp add: launch_session_def Let_def empty_launcher_def running_session_def)
  have "session_step ?l0 ?l1" by (rule launched) (simp add: empty_launcher_def)
  moreover have "session_step ?l1 ?l2"
  proof (rule expiring)
    show "la_expiring ?l1 = None" by (simp add: launch_session_def Let_def empty_launcher_def)
    have "la_max_session_seconds ?l1 = 60" by (simp add: launch_session_def Let_def empty_launcher_def log_event_def set_info_def)
    then show "begin_expire ''s'' 61 ?l1 = Some ?l2" using info by (simp add: begin_expire_def running_session_def)
  qed
  moreover have "session_step ?l2 ?l3"
  proof (rule sending)
    show "la_lock ?l2 = Unlocked" by (simp add: launch_session_def Let_def empty_launcher_def)
    show "begin_send ''s'' ''hello'' ?l2 = Ok ?l3" using info by (simp add: begin_send_def running_session_def)
  qed
  moreover have "session_step ?l3 ?l4" by (rule expired) simp
  ultimately have reach: "session_step\<^sup>*\<^sup>* ?l0 ?l4"
    by (meson converse_rtranclp_into_rtranclp rtranclp.rtrancl_refl)
  have lock: "la_lock ?l4 = Sending ''s'' ''hello''" using info by (simp add: end_expire_def destroyed_sessions(2))
  moreover have dead: "map_of (la_sessions ?l4) ''s'' = Some (running_session\<lparr>se_status := TERMINATED\<rparr>)"
    using info by (simp add: end_expire_def destroyed_sessions(1)) (simp add: running_session_def)
  moreover have "session_step ?l4 (end_send ''s'' ''hello'' ''t1'' ?l4)" by (rule sent [OF lock])
  moreover have "map_of (la_messages (end_send ''s'' ''hello'' ''t1'' ?l4)) ''a'' \<noteq> None"
    using dead by (simp add: end_send_def Let_def log_event_def running_session_def)
  ultimately show ?thesis using reach
    by (intro exI [of _ ?l4] exI [of _ "running_session\<lparr>se_status := TERMINATED\<rparr>"]) (simp add: running_session_def)
qed

section \<open>What the monitor of a session delivers\<close>

text \<open>Session output arrives once and in order: over rounds in which the session runs and its file only grows,
  the delivered pieces together are the content of the file from the first offset on, and the last offset is its size.\<close>

theorem session_output_exact:
  assumes "sorted_wrt prefix contents" and "contents \<noteq> []"
  shows "concat (map fst (monitor_output 0 (map (\<lambda>c. (RUNNING, FileContent c)) contents))) = last contents"
proof -
  have "concat (map fst (monitor_output n (map (\<lambda>c. (RUNNING, FileContent c)) cs))) = drop n (last (c0 # cs))"
    if "sorted_wrt prefix (c0 # cs)" "n = length c0" for cs c0 n
    using that
  proof (induction cs arbitrary: c0 n)
    case (Cons c cs)
    have pre: "prefix c0 c" "sorted_wrt prefix (c # cs)" using Cons.prems(1) by auto
    show ?case
    proof (cases "n < length c")
      case True
      have "prefix c (last (c # cs))" using pre(2) by (cases "cs = []") auto
      then have "drop n c @ drop (length c) (last (c # cs)) = drop n (last (c # cs))"
        using True by (auto simp: prefix_def)
      then show ?thesis using True Cons.IH [OF pre(2) refl] by simp
    next
      case False
      then have "c = c0" using pre(1) Cons.prems(2) by (auto simp: prefix_def)
      then show ?thesis using False Cons.IH [of c0 n] pre(2) Cons.prems(2) by simp
    qed
  qed simp
  from this [of "[]" contents 0] assms show ?thesis by simp
qed

theorem session_output_exact_witness:
  "concat (map fst (monitor_output 0 [(RUNNING, FileContent ''a''), (RUNNING, FileContent ''a''), (RUNNING, FileContent ''abc'')])) = ''abc''"
  using session_output_exact [of "[''a'', ''a'', ''abc'']"] by simp

theorem message_validation_exact_witness:
  "validate_message [CHR ''o'', CHR 0x07, CHR ''k''] = Ok ''ok'' \<and> validate_message ''ok'' = Ok ''ok''"
proof -
  have "utf8_length [CHR ''o'', CHR 0x07, CHR ''k''] = 3" "sanitize_message [CHR ''o'', CHR 0x07, CHR ''k''] = ''ok''"
    "utf8_length ''ok'' = 2" "py_strip ''ok'' = ''ok''" by code_simp+
  then have "validate_message [CHR ''o'', CHR 0x07, CHR ''k''] = Ok ''ok''"
    by (simp add: validate_message_def max_message_bytes_def)
  then show ?thesis using message_validation_exact [of "[CHR ''o'', CHR 0x07, CHR ''k'']" "''ok''"] by blast
qed

theorem ended_session_stays_ended_witness:
  "\<exists>info'. map_of (la_sessions (snd (launch_session ''s'' ''a'' ''img'' ''w'' 0 (Inr ''u'') (empty_launcher 60)))) ''s'' = Some info'
     \<and> se_agent_name info' = ''a''"
proof -
  let ?l = "snd (launch_session ''s'' ''a'' ''img'' ''w'' 0 (Inr ''u'') (empty_launcher 60))"
  have "session_step (empty_launcher 60) ?l" by (rule launched) (simp add: empty_launcher_def)
  then have "session_step\<^sup>*\<^sup>* (empty_launcher 60) ?l" by blast
  moreover have "map_of (la_sessions ?l) ''s'' = Some running_session"
    by (simp add: launch_session_def Let_def empty_launcher_def running_session_def)
  ultimately show ?thesis using ended_session_stays_ended [of 60 ?l ?l "''s''" running_session]
    by (auto simp: running_session_def)
qed

end
