(* ===== verification/Json.thy ===== *)
theory Json
  imports PyValue
begin

text \<open>
  \<open>json.loads\<close> of the standard library, which the chat runner, the direct executor and the stores
  apply to text they did not write themselves. The decoder is the recursive descent of
  \<open>json.decoder\<close>: it reads one value, skips white space and accepts nothing after it. Two things
  are outside the value type of the development and are fields of \<open>json_lib\<close>: the character of a
  code point above 255, and the rounding of a decimal fraction to a float (\<open>repr(float(s))\<close>). A
  value nested deeper than Python's recursion limit is not distinguished. The printer is
  \<open>json_dumps\<close> of the theory of values; the two are inverse to each other.
\<close>

section \<open>Lexical level\<close>

text \<open>
  \<open>JSONDecodeError\<close> for text that is not JSON; an integer of more than 4300 digits is refused by
  \<open>int()\<close> with a plain \<open>ValueError\<close>.
\<close>

datatype json_error = JSONDecodeError | IntDigitsLimit

type_synonym 'a json = "json_error + 'a"

record json_lib =
  jl_chr :: "nat \<Rightarrow> char"
  jl_float :: "string \<Rightarrow> string"

definition json_space :: "char \<Rightarrow> bool" where
  "json_space c = (c = CHR '' '' \<or> c = CHR 0x09 \<or> c = newline \<or> c = CHR 0x0D)"

definition skip_space :: "string \<Rightarrow> string" where
  "skip_space s = dropWhile json_space s"

text \<open>The three groups of \<open>NUMBER_RE\<close>: integer, fraction, exponent, each with the text after it.\<close>

definition lex_nat :: "string \<Rightarrow> (string \<times> string) option" where
  "lex_nat s =
     (case s of
        [] \<Rightarrow> None
      | c # t \<Rightarrow> if c = CHR ''0'' then Some (''0'', t)
                else if py_digit c then Some (takeWhile py_digit s, dropWhile py_digit s)
                else None)"

definition lex_int :: "string \<Rightarrow> (string \<times> string) option" where
  "lex_int s =
     (if s \<noteq> [] \<and> hd s = CHR ''-'' then map_option (\<lambda>(d, r). (CHR ''-'' # d, r)) (lex_nat (tl s))
      else lex_nat s)"

definition lex_frac :: "string \<Rightarrow> string \<times> string" where
  "lex_frac s =
     (if s \<noteq> [] \<and> hd s = CHR ''.'' \<and> takeWhile py_digit (tl s) \<noteq> []
      then (CHR ''.'' # takeWhile py_digit (tl s), dropWhile py_digit (tl s)) else ([], s))"

definition lex_sign :: "string \<Rightarrow> string \<times> string" where
  "lex_sign s = (if s \<noteq> [] \<and> hd s \<in> {CHR ''-'', CHR ''+''} then ([hd s], tl s) else ([], s))"

definition lex_exp :: "string \<Rightarrow> string \<times> string" where
  "lex_exp s =
     (if s \<noteq> [] \<and> hd s \<in> {CHR ''e'', CHR ''E''}
      then let (sign, u) = lex_sign (tl s) in
        if takeWhile py_digit u = [] then ([], s)
        else (hd s # sign @ takeWhile py_digit u, dropWhile py_digit u)
      else ([], s))"

definition max_int_digits :: nat where
  "max_int_digits = 4300"

definition read_int :: "string \<Rightarrow> int" where
  "read_int s = (if s \<noteq> [] \<and> hd s = CHR ''-'' then - int (read_nat (tl s)) else int (read_nat s))"

definition scan_number :: "json_lib \<Rightarrow> string \<Rightarrow> (pyval \<times> string) json" where
  "scan_number L s =
     (case lex_int s of
        None \<Rightarrow> Inl JSONDecodeError
      | Some (i, r) \<Rightarrow>
          let (f, r1) = lex_frac r; (e, r2) = lex_exp r1 in
            if f = [] \<and> e = []
            then (if max_int_digits < length (filter py_digit i) then Inl IntDigitsLimit
                  else Inr (VInt (read_int i), r2))
            else Inr (VFloat (jl_float L (i @ f @ e)), r2))"

text \<open>Text: escapes, \<open>\uXXXX\<close> with surrogate pairs, control characters refused.\<close>

definition hex_value :: "char \<Rightarrow> nat option" where
  "hex_value c = (let n = code_of c in
     if 48 \<le> n \<and> n \<le> 57 then Some (n - 48)
     else if 65 \<le> n \<and> n \<le> 70 then Some (n - 55)
     else if 97 \<le> n \<and> n \<le> 102 then Some (n - 87) else None)"

definition hex4 :: "string \<Rightarrow> (nat \<times> string) option" where
  "hex4 s =
     (case s of
        a # b # c # d # r \<Rightarrow>
          (case (hex_value a, hex_value b, hex_value c, hex_value d) of
             (Some w, Some x, Some y, Some z) \<Rightarrow> Some (((w * 16 + x) * 16 + y) * 16 + z, r)
           | _ \<Rightarrow> None)
      | _ \<Rightarrow> None)"

definition decode_u :: "string \<Rightarrow> (nat \<times> string) option" where
  "decode_u s =
     (case hex4 s of
        None \<Rightarrow> None
      | Some (n, r) \<Rightarrow>
          if 55296 \<le> n \<and> n \<le> 56319 \<and> prefix [bslash, CHR ''u''] r
          then case hex4 (drop 2 r) of
                 None \<Rightarrow> None
               | Some (m, r') \<Rightarrow>
                   if 56320 \<le> m \<and> m \<le> 57343 then Some (65536 + (n - 55296) * 1024 + (m - 56320), r')
                   else Some (n, r)
          else Some (n, r))"

definition chr_of :: "json_lib \<Rightarrow> nat \<Rightarrow> char" where
  "chr_of L n = (if n < 256 then char_of n else jl_chr L n)"

definition escapes :: "(char \<times> char) list" where
  "escapes = [(dq, dq), (bslash, bslash), (CHR ''/'', CHR ''/''), (CHR ''b'', CHR 0x08),
     (CHR ''f'', CHR 0x0C), (CHR ''n'', newline), (CHR ''r'', CHR 0x0D), (CHR ''t'', CHR 0x09)]"

definition cons_char :: "char \<Rightarrow> (string \<times> string) json \<Rightarrow> (string \<times> string) json" where
  "cons_char c res = map_sum id (\<lambda>(x, r). (c # x, r)) res"

lemma hex4_shorter: "hex4 s = Some (n, r) \<Longrightarrow> length r < length s"
  by (auto simp: hex4_def split: list.splits option.splits)

lemma decode_u_shorter: "decode_u s = Some (n, r) \<Longrightarrow> length r < length s"
  by (auto simp: decode_u_def dest!: hex4_shorter split: option.splits if_splits)

function scan_string :: "json_lib \<Rightarrow> string \<Rightarrow> (string \<times> string) json" where
  "scan_string L [] = Inl JSONDecodeError"
| "scan_string L (c # s) =
     (if c = dq then Inr ([], s)
      else if c = bslash
      then (case s of
              [] \<Rightarrow> Inl JSONDecodeError
            | e # t \<Rightarrow>
                if e = CHR ''u''
                then (case decode_u t of
                        None \<Rightarrow> Inl JSONDecodeError
                      | Some (n, r) \<Rightarrow> cons_char (chr_of L n) (scan_string L r))
                else (case map_of escapes e of
                        None \<Rightarrow> Inl JSONDecodeError
                      | Some x \<Rightarrow> cons_char x (scan_string L t)))
      else if code_of c < 32 then Inl JSONDecodeError
      else cons_char c (scan_string L s))"
  by pat_completeness auto
termination
  by (relation "measure (\<lambda>(L, s). length s)") (auto dest: decode_u_shorter)

section \<open>Values\<close>

text \<open>
  What is read next: any value, the rest of a list after its first elements, or the rest of an
  object after its first members.
\<close>

datatype scan_goal = AnyValue | Items "pyval list" | Members pydict

definition literals :: "(string \<times> pyval) list" where
  "literals = [(''null'', VNone), (''true'', VBool True), (''false'', VBool False),
     (''NaN'', VFloat ''nan''), (''Infinity'', VFloat ''inf''), (''-Infinity'', VFloat ''-inf'')]"

definition scan_atom :: "json_lib \<Rightarrow> string \<Rightarrow> (pyval \<times> string) json" where
  "scan_atom L s =
     (case find (\<lambda>(w, v). prefix w s) literals of
        Some (w, v) \<Rightarrow> Inr (v, drop (length w) s)
      | None \<Rightarrow> scan_number L s)"

function scan :: "json_lib \<Rightarrow> scan_goal \<Rightarrow> string \<Rightarrow> (pyval \<times> string) json" where
  "scan L AnyValue s =
     (case s of
        [] \<Rightarrow> Inl JSONDecodeError
      | c # t \<Rightarrow>
          if c = dq then map_sum id (\<lambda>(x, r). (VStr x, r)) (scan_string L t)
          else if c = CHR ''{''
          then (if prefix ''}'' (skip_space t) then Inr (VDict [], tl (skip_space t))
                else scan L (Members []) (skip_space t))
          else if c = CHR ''[''
          then (if prefix '']'' (skip_space t) then Inr (VList [], tl (skip_space t))
                else scan L (Items []) (skip_space t))
          else scan_atom L s)"
| "scan L (Items acc) s =
     (case scan L AnyValue s of
        Inl e \<Rightarrow> Inl e
      | Inr (v, r) \<Rightarrow>
          (case skip_space r of
             [] \<Rightarrow> Inl JSONDecodeError
           | c # t \<Rightarrow>
               if c = CHR '']'' then Inr (VList (acc @ [v]), t)
               else if c = CHR '','' then scan L (Items (acc @ [v])) (skip_space t)
               else Inl JSONDecodeError))"
| "scan L (Members acc) s =
     (if \<not> prefix [dq] s then Inl JSONDecodeError
      else case scan_string L (tl s) of
        Inl e \<Rightarrow> Inl e
      | Inr (k, r) \<Rightarrow>
          if \<not> prefix '':'' (skip_space r) then Inl JSONDecodeError
          else (case scan L AnyValue (skip_space (tl (skip_space r))) of
             Inl e \<Rightarrow> Inl e
           | Inr (v, r2) \<Rightarrow>
               (case skip_space r2 of
                  [] \<Rightarrow> Inl JSONDecodeError
                | c # t \<Rightarrow>
                    if c = CHR ''}'' then Inr (VDict (dict_set k v acc), t)
                    else if c = CHR '','' then scan L (Members (dict_set k v acc)) (skip_space t)
                    else Inl JSONDecodeError)))"
  by pat_completeness auto

text \<open>
  The recursion is nested: the rest of a list is read from where its first element ended. What a
  call leaves is shorter than what it was given, which is shown on the domain of the function first.
\<close>

lemma length_skip_space: "length (skip_space s) \<le> length s"
  by (simp add: skip_space_def length_dropWhile_le)

lemma skip_space_Cons: "skip_space s = c # t \<Longrightarrow> length t < length s"
  using length_skip_space [of s] by simp

lemma length_skip_tl: "s \<noteq> [] \<Longrightarrow> length (skip_space (tl s)) < length s"
  using length_skip_space [of "tl s"] by (cases s) auto

lemma cons_char_Inr: "cons_char c res = Inr (x, r) \<longleftrightarrow> (\<exists>y. x = c # y \<and> res = Inr (y, r))"
  by (cases res) (auto simp: cons_char_def)

lemma scan_string_shorter: "scan_string L s = Inr (x, r) \<Longrightarrow> length r < length s"
proof (induction L s arbitrary: x rule: scan_string.induct)
  case (2 L c s)
  then show ?case
    by (fastforce simp: cons_char_Inr dest: decode_u_shorter split: if_splits list.splits option.splits)
qed simp

lemma lex_nat_shorter: "lex_nat s = Some (d, r) \<Longrightarrow> length r < length s"
  by (auto simp: lex_nat_def le_imp_less_Suc length_dropWhile_le split: list.splits if_splits)

lemma lex_int_shorter: "lex_int s = Some (i, r) \<Longrightarrow> length r < length s"
  by (auto simp: lex_int_def dest!: lex_nat_shorter split: if_splits)

lemma lex_frac_le: "length (snd (lex_frac s)) \<le> length s"
  using length_dropWhile_le [of py_digit "tl s"] by (auto simp: lex_frac_def)

lemma lex_exp_le: "length (snd (lex_exp s)) \<le> length s"
proof -
  have "length (dropWhile py_digit (tl s)) \<le> length s" "length (dropWhile py_digit (tl (tl s))) \<le> length s"
    using length_dropWhile_le [of py_digit "tl s"] length_dropWhile_le [of py_digit "tl (tl s)"] by simp_all
  then show ?thesis by (auto simp: lex_exp_def lex_sign_def)
qed

lemma scan_number_shorter: "scan_number L s = Inr (v, r) \<Longrightarrow> length r < length s"
proof -
  assume "scan_number L s = Inr (v, r)"
  then obtain i r0 where i: "lex_int s = Some (i, r0)" and r: "r = snd (lex_exp (snd (lex_frac r0)))"
    by (auto simp: scan_number_def Let_def split: option.splits if_splits prod.splits)
  show ?thesis
    using lex_int_shorter [OF i] lex_frac_le [of r0] lex_exp_le [of "snd (lex_frac r0)"] r by simp
qed

lemma scan_atom_shorter:
  assumes "scan_atom L s = Inr (v, r)"
  shows "length r < length s"
proof (cases "find (\<lambda>(w, v). prefix w s) literals")
  case (Some wv)
  then have "\<exists>w. prefix w s \<and> w \<noteq> [] \<and> r = drop (length w) s"
    using assms by (auto simp: scan_atom_def literals_def split: if_splits)
  then show ?thesis by (auto simp: prefix_def)
qed (use assms in \<open>auto simp: scan_atom_def dest: scan_number_shorter\<close>)

lemma map_sum_Inr: "map_sum id f res = Inr y \<longleftrightarrow> (\<exists>x. res = Inr x \<and> y = f x)"
  by (cases res) auto

lemma scan_shorter:
  "scan_dom (L, g, s) \<Longrightarrow> scan L g s = Inr (v, r) \<Longrightarrow> length r < length s"
proof (induction L g s arbitrary: v r rule: scan.pinduct)
  case (1 L s)
  note eq = "1.prems" [unfolded scan.psimps(1) [OF "1.hyps"]]
  then obtain c t where s: "s = c # t" by (auto split: list.splits)
  have sk: "length (skip_space t) \<le> length t" by (rule length_skip_space)
  consider "c = dq" | "c = CHR ''{''" | "c = CHR ''[''" | "c \<noteq> dq" "c \<noteq> CHR ''{''" "c \<noteq> CHR ''[''"
    by blast
  then show ?case
  proof cases
    case 1
    with eq s obtain x where "scan_string L t = Inr (x, r)" by (auto simp: map_sum_Inr)
    then show ?thesis using scan_string_shorter s by fastforce
  next
    case 2
    show ?thesis
    proof (cases "prefix ''}'' (skip_space t)")
      case True
      with eq s 2 have "r = tl (skip_space t)" by simp
      with sk s show ?thesis by (simp add: less_Suc_eq_le le_diff_conv)
    next
      case False
      with eq s 2 have "scan L (Members []) (skip_space t) = Inr (v, r)" by simp
      then have "length r < length (skip_space t)" using "1.IH"(1) [OF s] 2 False by simp
      with sk s show ?thesis by simp
    qed
  next
    case 3
    show ?thesis
    proof (cases "prefix '']'' (skip_space t)")
      case True
      with eq s 3 have "r = tl (skip_space t)" by simp
      with sk s show ?thesis by (simp add: less_Suc_eq_le le_diff_conv)
    next
      case False
      with eq s 3 have "scan L (Items []) (skip_space t) = Inr (v, r)" by simp
      then have "length r < length (skip_space t)" using "1.IH"(2) [OF s] 3 False by simp
      with sk s show ?thesis by simp
    qed
  next
    case 4
    with eq s show ?thesis using scan_atom_shorter [of L s v r] by simp
  qed
next
  case (2 L acc s)
  note eq = "2.prems" [unfolded scan.psimps(2) [OF "2.hyps"]]
  from eq obtain w r1 where w: "scan L AnyValue s = Inr (w, r1)" by (auto split: sum.splits)
  with eq obtain c t where t: "skip_space r1 = c # t" by (auto split: list.splits)
  have r1: "length r1 < length s" by (rule "2.IH"(1) [OF w])
  have lt: "length t < length r1" using length_skip_space [of r1] t by simp
  show ?case
  proof (cases "c = CHR '']''")
    case True
    with eq w t lt r1 show ?thesis by simp
  next
    case False
    with eq w t have c: "c = CHR '',''" and "scan L (Items (acc @ [w])) (skip_space t) = Inr (v, r)"
      by (auto split: if_splits)
    then have "length r < length (skip_space t)" using "2.IH"(2) [OF w refl t False] by simp
    then show ?thesis using length_skip_space [of t] lt r1 by simp
  qed
next
  case (3 L acc s)
  note eq = "3.prems" [unfolded scan.psimps(3) [OF "3.hyps"]]
  from eq have q: "prefix [dq] s" by (auto split: if_splits)
  with eq obtain k r0 where k: "scan_string L (tl s) = Inr (k, r0)" by (auto split: sum.splits)
  with eq q have colon: "prefix '':'' (skip_space r0)" by (auto split: if_splits)
  let ?u = "skip_space (tl (skip_space r0))"
  from eq q k colon obtain w r1 where w: "scan L AnyValue ?u = Inr (w, r1)"
    by (auto split: sum.splits)
  with eq q k colon obtain c t where t: "skip_space r1 = c # t" by (auto split: list.splits)
  have r1: "length r1 < length ?u" using "3.IH"(1) [OF _ k refl _ w] q colon by simp
  have u: "length ?u \<le> length s"
    using length_skip_space [of "tl (skip_space r0)"] length_skip_space [of r0] scan_string_shorter [OF k]
    by simp
  have lt: "length t < length r1" using length_skip_space [of r1] t by simp
  show ?case
  proof (cases "c = CHR ''}''")
    case True
    with eq q k colon w t lt r1 u show ?thesis by simp
  next
    case False
    with eq q k colon w t have "c = CHR '',''"
      and "scan L (Members (dict_set k w acc)) (skip_space t) = Inr (v, r)"
      by (auto split: if_splits)
    then have "length r < length (skip_space t)" using "3.IH"(2) [OF _ k refl _ w refl t False] q colon by simp
    then show ?thesis using length_skip_space [of t] lt r1 u by simp
  qed
qed

termination scan
proof (relation "measure (\<lambda>(L, g, s). 2 * length s + (if g = AnyValue then 0 else 1))")
  fix L s c t
  assume "s = c # (t :: string)"
  then have "length (skip_space t) < length s" using length_skip_space [of t] by simp
  then show "((L, Members [], skip_space t), L, AnyValue, s) \<in> measure (\<lambda>(L, g, s). 2 * length s + (if g = AnyValue then 0 else 1))"
    and "((L, Items [], skip_space t), L, AnyValue, s) \<in> measure (\<lambda>(L, g, s). 2 * length s + (if g = AnyValue then 0 else 1))"
    by simp_all
next
  fix L acc s x v r c t
  assume "scan_dom (L, AnyValue, s)" "scan L AnyValue s = Inr x" "(v, r) = x" "skip_space r = c # t"
  then have "length (skip_space t) < length s"
    using scan_shorter [of L AnyValue s v r] skip_space_Cons [of r c t] length_skip_space [of t] by simp
  then show "((L, Items (acc @ [v]), skip_space t), L, Items acc, s) \<in> measure (\<lambda>(L, g, s). 2 * length s + (if g = AnyValue then 0 else 1))"
    by simp
next
  fix L acc s x k r
  assume k: "scan_string L (tl s) = Inr x" "(k, r) = x"
  have u: "length (skip_space (tl (skip_space r))) \<le> length s"
    using scan_string_shorter [of L "tl s" k r] k length_skip_space [of "tl (skip_space r)"] length_skip_space [of r] by simp
  then show "((L, AnyValue, skip_space (tl (skip_space r))), L, Members acc, s) \<in> measure (\<lambda>(L, g, s). 2 * length s + (if g = AnyValue then 0 else 1))"
    by simp
  fix y v r2 c t
  assume "scan_dom (L, AnyValue, skip_space (tl (skip_space r)))" "scan L AnyValue (skip_space (tl (skip_space r))) = Inr y"
    "(v, r2) = y" "skip_space r2 = c # t"
  then have "length (skip_space t) < length s"
    using scan_shorter [of L AnyValue _ v r2] skip_space_Cons [of r2 c t] length_skip_space [of t] u by fastforce
  then show "((L, Members (dict_set k v acc), skip_space t), L, Members acc, s) \<in> measure (\<lambda>(L, g, s). 2 * length s + (if g = AnyValue then 0 else 1))"
    by simp
qed auto

declare scan.simps [simp del] scan_string.simps(2) [simp del]

definition json_loads :: "json_lib \<Rightarrow> string \<Rightarrow> pyval json" where
  "json_loads L s =
     (case scan L AnyValue (skip_space s) of
        Inl e \<Rightarrow> Inl e
      | Inr (v, r) \<Rightarrow> if skip_space r = [] then Inr v else Inl JSONDecodeError)"

section \<open>Printing and reading\<close>

text \<open>
  The values \<open>json.dumps\<close> prints and \<open>json.loads\<close> reads back as they are: the keys of an object
  are distinct, an integer is within the digit limit, a float is one whose printed form rounds to
  itself, as \<open>repr\<close> promises.
\<close>

definition float_text :: "string \<Rightarrow> bool" where
  "float_text f =
     (case lex_int f of
        None \<Rightarrow> False
      | Some (i, r) \<Rightarrow> let (fr, r1) = lex_frac r; (e, r2) = lex_exp r1 in r2 = [] \<and> (fr \<noteq> [] \<or> e \<noteq> []))"

fun json_value :: "json_lib \<Rightarrow> pyval \<Rightarrow> bool" where
  "json_value L (VInt i) = (length (show_nat (nat \<bar>i\<bar>)) \<le> max_int_digits)"
| "json_value L (VFloat f) = (f \<in> {''nan'', ''inf'', ''-inf''} \<or> float_text f \<and> jl_float L f = f)"
| "json_value L (VList xs) = list_all (json_value L) xs"
| "json_value L (VDict d) = (distinct (map fst d) \<and> list_all (\<lambda>(k, v). json_value L v) d)"
| "json_value L _ = True"

text \<open>The text after a value inside a list or an object, or nothing.\<close>

definition value_end :: "string \<Rightarrow> bool" where
  "value_end s = (s = [] \<or> hd s \<in> {CHR '','', CHR '']'', CHR ''}''})"

subsection \<open>Text\<close>

lemma of_char_less [simp]: "code_of c < 256"
  by (simp add: code_of_def)

lemma char_of_code [simp]: "char_of (code_of c) = c"
  by (simp add: code_of_def)

lemma hex_value_char: "n < 16 \<Longrightarrow> hex_value (hex_char n) = Some n"
  by (auto simp: hex_value_def hex_char_def code_of_def Let_def)

lemma hex_value_zero [simp]: "hex_value CHR ''0'' = Some 0"
  by (simp add: hex_value_def code_of_def)

lemma hex4_hex2: "n < 256 \<Longrightarrow> hex4 (CHR ''0'' # CHR ''0'' # hex2 n @ t) = Some (n, t)"
  by (simp add: hex4_def hex2_def hex_value_char)

lemma decode_u_hex2: "n < 256 \<Longrightarrow> decode_u (CHR ''0'' # CHR ''0'' # hex2 n @ t) = Some (n, t)"
  by (simp add: decode_u_def hex4_hex2)

lemma scan_json_char: "scan_string L (json_char c @ t) = cons_char c (scan_string L t)"
proof (cases "c \<in> {dq, bslash, newline, CHR 0x0D, CHR 0x09, CHR 0x0C, CHR 0x08}")
  case True
  then show ?thesis
    by (elim insertE) (simp_all add: json_char_def scan_string.simps(2) escapes_def)
next
  case False
  show ?thesis
  proof (cases "code_of c < 32 \<or> 127 \<le> code_of c")
    case True
    then have "json_char c = [bslash, CHR ''u'', CHR ''0'', CHR ''0''] @ hex2 (code_of c)"
      using False by (auto simp: json_char_def Let_def)
    then show ?thesis by (simp add: scan_string.simps(2) decode_u_hex2 chr_of_def)
  next
    case plain: False
    then have "json_char c = [c]" using False by (auto simp: json_char_def Let_def)
    then show ?thesis using plain False by (simp add: scan_string.simps(2))
  qed
qed

lemma scan_json_str: "scan_string L (concat (map json_char s) @ dq # rest) = Inr (s, rest)"
  by (induction s) (simp_all add: scan_json_char cons_char_def, simp add: scan_string.simps(2))

subsection \<open>Numbers\<close>

lemma takeWhile_stop: "ys = [] \<or> \<not> P (hd ys) \<Longrightarrow> takeWhile P (xs @ ys) = takeWhile P xs"
  by (induction xs) (cases ys, auto)

lemma dropWhile_stop: "ys = [] \<or> \<not> P (hd ys) \<Longrightarrow> dropWhile P (xs @ ys) = dropWhile P xs @ ys"
  by (induction xs) (cases ys, auto)

lemma digit_chars [simp]:
  "\<not> py_digit CHR '',''" "\<not> py_digit CHR '']''" "\<not> py_digit CHR ''}''" "\<not> py_digit CHR ''.''"
  "\<not> py_digit CHR ''e''" "\<not> py_digit CHR ''E''" "\<not> py_digit CHR ''-''" "\<not> py_digit CHR ''+''"
  "py_digit CHR ''0''" "\<not> py_digit CHR ''n''" "\<not> py_digit CHR ''t''" "\<not> py_digit CHR ''f''"
  "\<not> py_digit CHR ''N''" "\<not> py_digit CHR ''I''"
  by (simp_all add: py_digit_def code_of_def)

lemma value_end_digit: "value_end s \<Longrightarrow> s = [] \<or> \<not> py_digit (hd s)"
  by (auto simp: value_end_def)

lemma lex_frac_end: "value_end s \<Longrightarrow> lex_frac s = ([], s)"
  and lex_exp_end: "value_end s \<Longrightarrow> lex_exp s = ([], s)"
  by (auto simp: value_end_def lex_frac_def lex_exp_def)

lemma show_nat_hd: "0 < n \<Longrightarrow> hd (show_nat n) \<noteq> CHR ''0''"
proof (induction n rule: show_nat.induct)
  case (1 n)
  show ?case
  proof (cases "n < 10")
    case True
    have "digit_char n \<noteq> CHR ''0''"
    proof
      assume "digit_char n = CHR ''0''"
      then have "code_of (digit_char n) = 48" by (simp only: code_of_def) simp
      with True 1 show False by simp
    qed
    then show ?thesis using True by (subst show_nat.simps) auto
  next
    case False
    then have "show_nat n = show_nat (n div 10) @ [digit_char (n mod 10)]" by (subst show_nat.simps) simp
    then show ?thesis using 1 False show_nat_digits [of "n div 10"] by simp
  qed
qed

lemma digit_zero [simp]: "digit_char 0 = CHR ''0''"
  by code_simp

lemma lex_nat_show: "r = [] \<or> \<not> py_digit (hd r) \<Longrightarrow> lex_nat (show_nat n @ r) = Some (show_nat n, r)"
proof (cases "n = 0")
  case True
  then show "r = [] \<or> \<not> py_digit (hd r) \<Longrightarrow> ?thesis"
    by (subst (1 2) show_nat.simps) (simp add: lex_nat_def)
next
  case False
  assume r: "r = [] \<or> \<not> py_digit (hd r)"
  obtain c t where s: "show_nat n = c # t" using show_nat_digits [of n] by (cases "show_nat n") auto
  have d: "\<forall>x\<in>set (show_nat n). py_digit x" using show_nat_digits [of n] by (simp add: list_all_iff)
  have "takeWhile py_digit (show_nat n @ r) = show_nat n" "dropWhile py_digit (show_nat n @ r) = r"
    using d r by (cases r; simp)+
  moreover have "c \<noteq> CHR ''0''" using show_nat_hd [of n] False s by simp
  ultimately show ?thesis using s d by (simp add: lex_nat_def)
qed

lemma hd_show_nat: "hd (show_nat n) \<noteq> CHR ''-''"
  using show_nat_digits [of n] by (cases "show_nat n") auto

lemma lex_int_show: "r = [] \<or> \<not> py_digit (hd r) \<Longrightarrow> lex_int (show_int i @ r) = Some (show_int i, r)"
  using hd_show_nat [of "nat i"] show_nat_digits [of "nat i"]
  by (auto simp: lex_int_def show_int_def lex_nat_show)

lemma read_show_int: "read_int (show_int i) = i"
  using hd_show_nat [of "nat i"] show_nat_digits [of "nat i"] by (auto simp: read_int_def show_int_def)

lemma digits_show_int: "length (filter py_digit (show_int i)) = length (show_nat (nat \<bar>i\<bar>))"
  using show_nat_digits [of "nat \<bar>i\<bar>"] by (auto simp: show_int_def list_all_iff)

lemma scan_number_int:
  "value_end rest \<Longrightarrow> length (show_nat (nat \<bar>i\<bar>)) \<le> max_int_digits \<Longrightarrow>
   scan_number L (show_int i @ rest) = Inr (VInt i, rest)"
  by (simp add: scan_number_def lex_int_show value_end_digit lex_frac_end lex_exp_end digits_show_int read_show_int)

lemma lex_nat_append:
  "lex_nat s = Some (d, r) \<Longrightarrow> r \<noteq> [] \<Longrightarrow> lex_nat (s @ t) = Some (d, r @ t) \<and> d @ r = s"
  by (auto simp: lex_nat_def dropWhile_append split: list.splits if_splits)

lemma lex_int_append:
  "lex_int s = Some (i, r) \<Longrightarrow> r \<noteq> [] \<Longrightarrow> lex_int (s @ t) = Some (i, r @ t) \<and> i @ r = s"
  by (cases s) (auto simp: lex_int_def dest: lex_nat_append split: if_splits)

lemma lex_frac_append:
  assumes "t = [] \<or> \<not> py_digit (hd t) \<and> hd t \<noteq> CHR ''.''" and "r \<noteq> []"
  shows "lex_frac (r @ t) = (fst (lex_frac r), snd (lex_frac r) @ t) \<and> fst (lex_frac r) @ snd (lex_frac r) = r"
  using assms by (cases r) (auto simp: lex_frac_def takeWhile_stop dropWhile_stop)

lemma lex_sign_append:
  "t = [] \<or> hd t \<notin> {CHR ''-'', CHR ''+''} \<Longrightarrow>
   lex_sign (r @ t) = (fst (lex_sign r), snd (lex_sign r) @ t) \<and> fst (lex_sign r) @ snd (lex_sign r) = r"
  by (cases r) (auto simp: lex_sign_def)

lemma lex_exp_append:
  assumes "value_end t"
  shows "lex_exp (r @ t) = (fst (lex_exp r), snd (lex_exp r) @ t) \<and> fst (lex_exp r) @ snd (lex_exp r) = r"
proof (cases r)
  case Nil
  with assms show ?thesis using lex_exp_end [of t] by (simp add: lex_exp_def)
next
  case (Cons c u)
  have sg: "lex_sign (u @ t) = (fst (lex_sign u), snd (lex_sign u) @ t)" "fst (lex_sign u) @ snd (lex_sign u) = u"
    using lex_sign_append [of t u] assms by (auto simp: value_end_def)
  show ?thesis
    using Cons sg value_end_digit [OF assms]
    by (auto simp: lex_exp_def takeWhile_stop dropWhile_stop split: prod.splits)
qed

lemma scan_number_float:
  assumes "float_text f" and "value_end rest"
  shows "scan_number L (f @ rest) = Inr (VFloat (jl_float L f), rest)"
proof -
  obtain i r where i: "lex_int f = Some (i, r)" using assms(1) by (auto simp: float_text_def split: option.splits)
  define fr r1 e r2 where "fr = fst (lex_frac r)" "r1 = snd (lex_frac r)" "e = fst (lex_exp r1)" "r2 = snd (lex_exp r1)"
  note defs = this
  have r2: "r2 = []" and some: "fr \<noteq> [] \<or> e \<noteq> []"
    using assms(1) i by (simp_all add: float_text_def defs split_def Let_def)
  have "r \<noteq> []" using some by (auto simp: defs lex_frac_def lex_exp_def)
  note li = lex_int_append [OF i this, of rest]
  have lf: "lex_frac (r @ rest) = (fr, r1 @ rest) \<and> fr @ r1 = r"
    using lex_frac_append [of rest r] assms(2) \<open>r \<noteq> []\<close> by (auto simp: defs value_end_def)
  have le: "lex_exp (r1 @ rest) = (e, rest) \<and> e = r1"
    using lex_exp_append [OF assms(2), of r1] r2 by (simp add: defs)
  show ?thesis using li lf le some by (auto simp: scan_number_def Let_def)
qed

lemma float_text_hd: "float_text f \<Longrightarrow> f \<noteq> [] \<and> (hd f = CHR ''-'' \<or> py_digit (hd f))"
  by (auto simp: float_text_def lex_int_def lex_nat_def split: option.splits list.splits if_splits)

lemma lex_int_prefix:
  "lex_int s = Some (i, r) \<Longrightarrow> s \<noteq> [] \<and> (py_digit (hd s) \<or> (hd s = CHR ''-'' \<and> tl s \<noteq> [] \<and> py_digit (hd (tl s))))"
  by (auto simp: lex_int_def lex_nat_def split: option.splits list.splits if_splits)

lemma no_literal:
  "py_digit c \<Longrightarrow> find (\<lambda>(w, v). prefix w (c # t)) literals = None"
  "py_digit c \<Longrightarrow> find (\<lambda>(w, v). prefix w (CHR ''-'' # c # t)) literals = None"
proof -
  assume c: "py_digit c"
  have hds: "hd w \<noteq> c \<and> (hd w = CHR ''-'' \<longrightarrow> tl w \<noteq> [] \<and> hd (tl w) \<noteq> c)" "w \<noteq> []" if "(w, v) \<in> set literals" for w v
    using that c by (auto simp: literals_def)
  show "find (\<lambda>(w, v). prefix w (c # t)) literals = None"
    "find (\<lambda>(w, v). prefix w (CHR ''-'' # c # t)) literals = None"
    using hds by (force simp: find_None_iff prefix_Cons)+
qed

lemma scan_atom_number: "scan_number L s = Inr (v, r) \<Longrightarrow> scan_atom L s = Inr (v, r)"
proof -
  assume n: "scan_number L s = Inr (v, r)"
  then obtain i q where "lex_int s = Some (i, q)"
    by (cases "lex_int s") (auto simp: scan_number_def)
  then consider c t where "s = c # t" "py_digit c" | c t where "s = CHR ''-'' # c # t" "py_digit c"
    using lex_int_prefix [of s i q] by (cases s; cases "tl s") auto
  then have "find (\<lambda>(w, v). prefix w s) literals = None"
    by cases (simp_all only: no_literal)
  with n show ?thesis by (simp only: scan_atom_def option.case)
qed

subsection \<open>Values\<close>

lemma scan_atom_literals:
  "scan_atom L (''null'' @ r) = Inr (VNone, r)" "scan_atom L (''true'' @ r) = Inr (VBool True, r)"
  "scan_atom L (''false'' @ r) = Inr (VBool False, r)" "scan_atom L (''NaN'' @ r) = Inr (VFloat ''nan'', r)"
  "scan_atom L (''Infinity'' @ r) = Inr (VFloat ''inf'', r)"
  "scan_atom L (''-Infinity'' @ r) = Inr (VFloat ''-inf'', r)"
  by (simp_all add: scan_atom_def literals_def)

lemmas scan_literals [simp] = scan_atom_literals [simplified append.simps]

definition lead_char :: "char \<Rightarrow> bool" where
  "lead_char c = (c \<in> {dq, CHR ''{'', CHR ''['', CHR ''n'', CHR ''t'', CHR ''f'', CHR ''N'', CHR ''I'', CHR ''-''} \<or> py_digit c)"

lemma lead_not:
  "lead_char c \<Longrightarrow> \<not> json_space c \<and> c \<noteq> CHR '']'' \<and> c \<noteq> CHR ''}''"
  by (auto simp: lead_char_def json_space_def py_digit_def code_of_def)

lemma lead_show_int: "show_int i \<noteq> [] \<and> lead_char (hd (show_int i))"
  using show_nat_digits [of "nat i"] by (cases "show_nat (nat i)") (auto simp: show_int_def lead_char_def)

lemma json_lead: "json_value L v \<Longrightarrow> \<exists>c t. json_dumps v = c # t \<and> lead_char c"
proof (cases v)
  case (VFloat f)
  assume "json_value L v"
  then have "f \<in> {''nan'', ''inf'', ''-inf''} \<or> float_text f" using VFloat by auto
  then have "json_dumps v \<noteq> [] \<and> lead_char (hd (json_dumps v))"
    using float_text_hd [of f] VFloat by (auto simp: lead_char_def)
  then show ?thesis by (cases "json_dumps v") auto
next
  case (VInt i)
  then show ?thesis using lead_show_int [of i] by (cases "show_int i") auto
qed (auto simp: lead_char_def json_str_def)

lemma skip_space_lead: "lead_char c \<Longrightarrow> skip_space (c # t) = c # t"
  using lead_not [of c] by (simp add: skip_space_def)

lemma skip_space_blank [simp]: "skip_space (CHR '' '' # s) = skip_space s"
  by (simp add: skip_space_def json_space_def)

lemma skip_space_punct [simp]:
  "skip_space (CHR '','' # s) = CHR '','' # s" "skip_space (CHR '']'' # s) = CHR '']'' # s"
  "skip_space (CHR ''}'' # s) = CHR ''}'' # s" "skip_space (CHR '':'' # s) = CHR '':'' # s"
  "skip_space (dq # s) = dq # s"
  by (simp_all add: skip_space_def json_space_def)

lemma value_end_punct [simp]:
  "value_end (CHR '','' # s)" "value_end (CHR '']'' # s)" "value_end (CHR ''}'' # s)" "value_end []"
  by (simp_all add: value_end_def)

definition reads :: "json_lib \<Rightarrow> pyval \<Rightarrow> bool" where
  "reads L v = (\<forall>rest. value_end rest \<longrightarrow> scan L AnyValue (json_dumps v @ rest) = Inr (v, rest))"

lemma skip_json: "json_value L v \<Longrightarrow> skip_space (json_dumps v @ r) = json_dumps v @ r"
  using json_lead [of L v] skip_space_lead by auto

lemma scan_items:
  assumes "xs \<noteq> []" and "\<And>x. x \<in> set xs \<Longrightarrow> json_value L x \<and> reads L x"
  shows "scan L (Items acc) (py_join '', '' (map json_dumps xs) @ CHR '']'' # rest) = Inr (VList (acc @ xs), rest)"
  using assms
proof (induction xs arbitrary: acc)
  case (Cons x xs)
  have x: "json_value L x" "reads L x" using Cons.prems by auto
  show ?case
  proof (cases "xs = []")
    case True
    then show ?thesis using x by (simp add: scan.simps reads_def)
  next
    case False
    then have more: "py_join '', '' (map json_dumps (x # xs)) =
        json_dumps x @ '', '' @ py_join '', '' (map json_dumps xs)"
      by (simp add: py_join_Cons)
    obtain y ys where y: "xs = y # ys" using False by (cases xs) auto
    have sk: "skip_space (py_join '', '' (map json_dumps xs) @ r) = py_join '', '' (map json_dumps xs) @ r" for r
      using Cons.prems(2) [of y] skip_json [of L y] y by (cases ys) auto
    show ?thesis
      unfolding more using x Cons.IH [OF False, of "acc @ [x]"] Cons.prems sk
      by (simp add: scan.simps(2) reads_def)
  qed
qed simp

abbreviation member :: "string \<times> pyval \<Rightarrow> string" where
  "member \<equiv> \<lambda>(k, v). json_str k @ '': '' @ json_dumps v"

lemma dict_set_fresh: "k \<notin> set (keys d) \<Longrightarrow> dict_set k v d = d @ [(k, v)]"
  by (induction d) auto

lemma scan_member:
  assumes "json_value L v" and "reads L v"
  shows "scan L (Members acc) (member (k, v) @ CHR ''}'' # t) = Inr (VDict (dict_set k v acc), t)"
    and "scan L (Members acc) (member (k, v) @ CHR '','' # t) = scan L (Members (dict_set k v acc)) (skip_space t)"
  using assms scan_json_str [of L k]
  by (simp_all add: scan.simps(3) [of L acc] reads_def json_str_def skip_json)

lemma scan_members:
  assumes "d \<noteq> []" and "\<And>k v. (k, v) \<in> set d \<Longrightarrow> json_value L v \<and> reads L v"
    and "distinct (keys (acc @ d))"
  shows "scan L (Members acc) (py_join '', '' (map member d) @ CHR ''}'' # rest) = Inr (VDict (acc @ d), rest)"
  using assms
proof (induction d arbitrary: acc)
  case (Cons kv d)
  obtain k v where kv: "kv = (k, v)" by (cases kv)
  have v: "json_value L v" "reads L v" using Cons.prems(2) kv by auto
  have fresh: "dict_set k v acc = acc @ [(k, v)]" using Cons.prems(3) kv by (intro dict_set_fresh) auto
  show ?case
  proof (cases "d = []")
    case True
    then show ?thesis using kv fresh scan_member(1) [OF v, of acc k rest] by simp
  next
    case False
    let ?j = "py_join '', '' (map member d) @ CHR ''}'' # rest"
    have more: "py_join '', '' (map member (kv # d)) @ CHR ''}'' # rest = member (k, v) @ CHR '','' # CHR '' '' # ?j"
      using False kv by (simp add: py_join_Cons)
    have "skip_space ?j = ?j"
      using False by (cases d; cases "hd d"; cases "tl d") (auto simp: json_str_def)
    moreover have "scan L (Members (acc @ [(k, v)])) ?j = Inr (VDict ((acc @ [(k, v)]) @ d), rest)"
      by (rule Cons.IH [OF False]) (use Cons.prems kv in auto)
    ultimately show ?thesis unfolding more by (simp only: scan_member(2) [OF v] fresh skip_space_blank) (simp add: kv)
  qed
qed simp

lemma lead_not_open: "\<lbrakk>c \<noteq> dq; c \<noteq> CHR ''{''; c \<noteq> CHR ''[''\<rbrakk> \<Longrightarrow> scan L AnyValue (c # t) = scan_atom L (c # t)"
  by (simp add: scan.simps(1))

lemma scan_of_atom: "scan_atom L s = Inr (v, r) \<Longrightarrow> s \<noteq> [] \<Longrightarrow> hd s \<notin> {dq, CHR ''{'', CHR ''[''} \<Longrightarrow>
    scan L AnyValue s = Inr (v, r)"
  by (cases s) (auto simp: lead_not_open)

lemma not_open_number: "hd s = CHR ''-'' \<or> py_digit (hd s) \<Longrightarrow> hd s \<notin> {dq, CHR ''{'', CHR ''[''}"
  by (auto simp: py_digit_def code_of_def)

lemma reads_atom:
  assumes "\<And>rest. value_end rest \<Longrightarrow> scan_atom L (json_dumps v @ rest) = Inr (v, rest)"
    and "json_dumps v \<noteq> []" and "hd (json_dumps v) \<notin> {dq, CHR ''{'', CHR ''[''}"
  shows "reads L v"
  using assms scan_of_atom [of L "json_dumps v @ r" v r for r] by (auto simp: reads_def)

lemma reads_json: "json_value L v \<Longrightarrow> reads L v"
proof (induction v rule: json_dumps.induct)
  case (3 i)
  have "hd (show_int i) = CHR ''-'' \<or> py_digit (hd (show_int i))"
    using show_nat_digits [of "nat i"] by (cases "show_nat (nat i)") (auto simp: show_int_def)
  with 3 show ?case using lead_show_int [of i]
    by (intro reads_atom) (simp_all add: scan_atom_number scan_number_int not_open_number del: insert_iff)
next
  case (4 f)
  show ?case
  proof (cases "f \<in> {''nan'', ''inf'', ''-inf''}")
    case True
    then show ?thesis by (intro reads_atom) auto
  next
    case False
    with 4 have "float_text f" "jl_float L f = f" by auto
    moreover have "json_dumps (VFloat f) = f" using False by auto
    ultimately show ?thesis using float_text_hd [of f]
      by (intro reads_atom)
        (simp_all add: scan_atom_number scan_number_float not_open_number del: insert_iff json_dumps.simps(4))
  qed
next
  case (5 x)
  show ?case using scan_json_str [of L x] by (simp add: reads_def json_str_def scan.simps(1))
next
  case (6 xs)
  show ?case
  proof (cases "xs = []")
    case False
    have ok: "json_value L x \<and> reads L x" if "x \<in> set xs" for x using 6 that by (simp add: list_all_iff)
    obtain c t where c: "json_dumps (hd xs) = c # t" "lead_char c" using json_lead [of L "hd xs"] ok [of "hd xs"] False by auto
    have "\<exists>t'. py_join '', '' (map json_dumps xs) = c # t'"
      using False c by (cases xs; cases "tl xs") auto
    then obtain t' where "py_join '', '' (map json_dumps xs) = c # t'" ..
    with scan_items [OF False ok, of "[]"] show ?thesis
      using c(2) lead_not [OF c(2)] by (auto simp: reads_def scan.simps(1) skip_space_lead)
  qed (simp add: reads_def scan.simps(1))
next
  case (7 d)
  show ?case
  proof (cases "d = []")
    case False
    have ok: "json_value L v \<and> reads L v" if "(k, v) \<in> set d" for k v using 7 that by (force simp: list_all_iff)
    have dist: "distinct (keys ([] @ d))" using 7 by simp
    have "\<exists>t. py_join '', '' (map member d) = dq # t"
      using False by (cases d; cases "hd d"; cases "tl d") (auto simp: json_str_def)
    then obtain t where "py_join '', '' (map member d) = dq # t" ..
    with scan_members [OF False ok dist] show ?thesis by (simp add: reads_def scan.simps(1))
  qed (simp add: reads_def scan.simps(1))
qed (auto intro!: reads_atom split: if_splits)

text \<open>
  Reading what was printed gives the value back: \<open>json.loads(json.dumps(v))\<close> is \<open>v\<close>, for every
  value whose objects have distinct keys, whose floats are printed as \<open>repr\<close> prints them and whose
  integers are within Python's limit on decimal digits.
\<close>

lemma reads_back:
  assumes "json_value L v"
  shows "json_loads L (json_dumps v) = Inr v"
  using assms reads_json [OF assms] skip_json [OF assms, of "[]"]
  by (auto simp: json_loads_def reads_def skip_space_def dest: spec [of _ "[]"])

text \<open>A decoder without characters above 255 whose floats are printed as they are read.\<close>

definition plain_json :: json_lib where
  "plain_json = \<lparr>jl_chr = (\<lambda>n. CHR ''?''), jl_float = (\<lambda>s. s)\<rparr>"

lemma reads_back_sample:
  "json_loads plain_json (json_dumps (VDict [(''a'', VList [VInt (-12), VFloat ''1.5e-07'', VNone]), (''b'', VStr [dq, newline])]))
   = Inr (VDict [(''a'', VList [VInt (-12), VFloat ''1.5e-07'', VNone]), (''b'', VStr [dq, newline])])"
  by (rule reads_back) code_simp

end
