(* ===== verification/StepTypes.thy ===== *)
theory StepTypes
  imports Json Transcript
begin

text \<open>
  The data the step executors exchange (\<open>step/base.py\<close>, \<open>step/conversation.py\<close>) and the
  reconstruction of canonical transcript events from the messages of an agent run
  (\<open>step/transcript_events.py\<close>). The message and part types are those of the agent library; a
  field that the code fills from an untyped dictionary is a \<open>pyval\<close>.
\<close>

section \<open>Input and result of a step\<close>

record exec_metadata =
  em_user_id :: "string option"
  em_session_id :: "string option"
  em_trace_id :: "string option"
  em_conversation_id :: "string option"
  em_extra :: pydict

definition StepMetadata :: exec_metadata where
  "StepMetadata = \<lparr>em_user_id = None, em_session_id = None, em_trace_id = None,
     em_conversation_id = None, em_extra = []\<rparr>"

record exec_input =
  ei_prompt :: string
  ei_provider :: pydict
  ei_system_prompt :: "string option"
  ei_output_schema :: "pydict option"
  ei_tools :: "string list"
  ei_tools_module :: "string option"
  ei_context :: pydict
  ei_execution_context :: pydict
  ei_timeout_seconds :: int
  ei_sandbox_image :: string
  ei_skills_image :: "string option"
  ei_skills_paths :: "string list option"
  ei_allowed_skills :: "string list option"
  ei_mcp_servers :: "pydict list option"
  ei_workflow_id :: string
  ei_step_name :: string
  ei_output_key :: string
  ei_attempt :: int
  ei_raw_step :: "pydict option"
  ei_metadata :: "exec_metadata option"

definition StepInput :: "string \<Rightarrow> pydict \<Rightarrow> exec_input" where
  "StepInput prompt provider = \<lparr>ei_prompt = prompt, ei_provider = provider, ei_system_prompt = None,
     ei_output_schema = None, ei_tools = [], ei_tools_module = None, ei_context = [],
     ei_execution_context = [], ei_timeout_seconds = 600, ei_sandbox_image = ''sandbox:latest'',
     ei_skills_image = None, ei_skills_paths = None, ei_allowed_skills = None, ei_mcp_servers = None,
     ei_workflow_id = [], ei_step_name = [], ei_output_key = [], ei_attempt = 1, ei_raw_step = None,
     ei_metadata = None\<rparr>"

record exec_output =
  eo_status :: string
  eo_output :: pyval
  eo_error :: "string option"
  eo_transcript :: "pydict list"
  eo_cost_usd :: pyval
  eo_input_tokens :: int
  eo_output_tokens :: int
  eo_duration_ms :: int

definition StepResult :: "string \<Rightarrow> exec_output" where
  "StepResult status = \<lparr>eo_status = status, eo_output = VNone, eo_error = None, eo_transcript = [],
     eo_cost_usd = VFloat ''0.0'', eo_input_tokens = 0, eo_output_tokens = 0, eo_duration_ms = 0\<rparr>"

datatype stream_type = Token | Complete | StreamError

record stream_event =
  se_type :: stream_type
  se_data :: pydict
  se_result :: "exec_output option"

text \<open>
  An exception of the agent library or of the interpreter, as far as the executors look at it: its
  class matters where a handler names it, otherwise its text. The two errors of the agent library are
  runtime errors.
\<close>

datatype agent_exc =
    UserError string
  | ModelHTTPError int string
  | Builtin pyexc
  | OtherError string

fun agent_exc_str :: "agent_exc \<Rightarrow> string" where
  "agent_exc_str (UserError m) = m"
| "agent_exc_str (ModelHTTPError _ m) = m"
| "agent_exc_str (Builtin e) = exc_str e"
| "agent_exc_str (OtherError m) = m"

text \<open>The default \<open>run_stream\<close>: run, then one event that holds the whole result.\<close>

definition default_run_stream :: "(exec_input \<Rightarrow> 'w \<Rightarrow> (agent_exc + exec_output) \<times> 'w) \<Rightarrow> exec_input \<Rightarrow> 'w \<Rightarrow> stream_event list \<times> 'w" where
  "default_run_stream run step_input w =
     (case run step_input w of
        (Inr result, w') \<Rightarrow> ([\<lparr>se_type = Complete, se_data = [], se_result = Some result\<rparr>], w')
      | (Inl exc, w') \<Rightarrow>
          ([\<lparr>se_type = StreamError, se_data = [(''error'', VStr (agent_exc_str exc))],
             se_result = Some ((StepResult ''failed'')\<lparr>eo_error := Some (agent_exc_str exc)\<rparr>)\<rparr>], w'))"

section \<open>Conversation messages\<close>

text \<open>A time stamp is given by its ISO text; \<open>fromisoformat\<close> is the parser of the library.\<close>

record conversation_message =
  cm_role :: string
  cm_content :: string
  cm_timestamp :: string
  cm_metadata :: pydict

definition message_to_dict :: "conversation_message \<Rightarrow> pydict" where
  "message_to_dict m = [(''role'', VStr (cm_role m)), (''content'', VStr (cm_content m)),
     (''timestamp'', VStr (cm_timestamp m)), (''metadata'', VDict (cm_metadata m))]"

text \<open>
  Reading a message back. The dataclass does not check its fields; a stored message has text for
  the role and the content and an object for the metadata, and only such messages are modelled.
\<close>

definition message_from_dict :: "(string \<Rightarrow> string res) \<Rightarrow> string \<Rightarrow> pydict \<Rightarrow> conversation_message res" where
  "message_from_dict fromisoformat local_now data =
     then_do (case dget data ''timestamp'' of VStr t \<Rightarrow> fromisoformat t | VNone \<Rightarrow> Ok local_now | v \<Rightarrow> Ok (py_str v)) (\<lambda>ts.
       case (map_of data ''role'', map_of data ''content'') of
         (None, _) \<Rightarrow> Err (KeyError ''role'')
       | (_, None) \<Rightarrow> Err (KeyError ''content'')
       | (Some r, Some c) \<Rightarrow>
           Ok \<lparr>cm_role = text_of r, cm_content = text_of c, cm_timestamp = ts,
               cm_metadata = dict_of (dget_or data ''metadata'' (VDict []))\<rparr>)"

lemma from_to_dict:
  "fromisoformat (cm_timestamp m) = Ok (cm_timestamp m) \<Longrightarrow> message_from_dict fromisoformat now (message_to_dict m) = Ok m"
  by (simp add: message_from_dict_def message_to_dict_def text_of_def dict_of_def)

section \<open>Messages of the agent library\<close>

datatype msg_part =
    UserPromptPart pyval
  | SystemPromptPart string
  | TextPart pyval
  | ThinkingPart string
  | ToolCallPart pyval pyval pyval
  | ToolReturnPart pyval pyval pyval
  | RetryPromptPart pyval

datatype model_message = ModelRequest "msg_part list" | ModelResponse "msg_part list"

fun parts_of :: "model_message \<Rightarrow> msg_part list" where
  "parts_of (ModelRequest ps) = ps"
| "parts_of (ModelResponse ps) = ps"

section \<open>Canonical transcript events\<close>

definition max_event_field_length :: nat where
  "max_event_field_length = 2000"

text \<open>\<open>_stringify\<close>: every value of the type is printed by \<open>json.dumps\<close>.\<close>

definition stringify :: "pyval \<Rightarrow> string" where
  "stringify v = (case v of VStr s \<Rightarrow> s | _ \<Rightarrow> json_dumps v)"

definition output_text_of :: "pyval \<Rightarrow> string" where
  "output_text_of content = stringify content"

definition canonical_event :: "string \<Rightarrow> string \<Rightarrow> pydict \<Rightarrow> pydict" where
  "canonical_event ts ty data = [(''ts'', VStr ts), (''type'', VStr ty), (''data'', VDict data)]"

definition result_transcript_event :: "string \<Rightarrow> string \<Rightarrow> int \<Rightarrow> int \<Rightarrow> pydict" where
  "result_transcript_event ts output_text input_tokens output_tokens =
     canonical_event ts ''result'' [(''text'', VStr output_text), (''cost_usd'', VNone),
       (''input_tokens'', VInt input_tokens), (''output_tokens'', VInt output_tokens)]"

definition error_transcript_event :: "string \<Rightarrow> string \<Rightarrow> pydict" where
  "error_transcript_event ts message = canonical_event ts ''error'' [(''message'', VStr message)]"

fun part_events :: "string \<Rightarrow> msg_part \<Rightarrow> pydict list" where
  "part_events ts (ThinkingPart content) =
     (let txt = take max_event_field_length (py_strip content) in
        if txt = [] then [] else [canonical_event ts ''thinking'' [(''text'', VStr txt)]])"
| "part_events ts (ToolCallPart name args _) =
     [canonical_event ts ''tool_call''
        [(''name'', name), (''input'', VStr (take max_event_field_length (stringify args)))]]"
| "part_events ts (ToolReturnPart _ content _) =
     [canonical_event ts ''tool_result'' [(''output'', VStr (take max_event_field_length (stringify content)))]]"
| "part_events ts (RetryPromptPart content) =
     [canonical_event ts ''tool_result'' [(''output'', VStr (take max_event_field_length (stringify content)))]]"
| "part_events ts _ = []"

definition transcript_events_from_messages ::
  "string \<Rightarrow> model_message list \<Rightarrow> string \<Rightarrow> int \<Rightarrow> int \<Rightarrow> pydict list" where
  "transcript_events_from_messages ts messages output_text input_tokens output_tokens =
     concat (map (\<lambda>m. concat (map (part_events ts) (parts_of m))) messages)
     @ [result_transcript_event ts output_text input_tokens output_tokens]"

text \<open>Every event is canonical, so normalising a reconstructed transcript changes nothing.\<close>

lemma part_events_canonical:
  "e \<in> set (part_events ts p) \<Longrightarrow> \<exists>ty data. e = canonical_event ts ty data \<and> ty \<in> {''thinking'', ''tool_call'', ''tool_result''}"
  by (cases p) (auto simp: Let_def split: if_splits)

lemma events_canonical:
  "e \<in> set (transcript_events_from_messages ts ms t i o') \<Longrightarrow>
   \<exists>ty data. e = canonical_event ts ty data \<and> ty \<in> set valid_transcript_event_types"
  unfolding transcript_events_from_messages_def
  by (auto simp: result_transcript_event_def valid_transcript_event_types_def dest!: part_events_canonical)

end
