(* ===== verification/TranscriptStore.thy ===== *)
theory TranscriptStore
  imports RunStateStore Transcript
begin

text \<open>
  The transcript store of \<open>storage/transcript_store.py\<close>: the table \<open>step_transcripts\<close> with one row
  per workflow and step, each operation one SQL statement. Rows are kept in the order of insertion;
  \<open>ORDER BY created_at\<close> is a sort by the time of insertion, which an upsert does not change. A
  time counts microseconds; a limit is a natural number (PostgreSQL refuses a negative one). JSON
  columns hold the value itself, as in the run-state store.
\<close>

section \<open>Rows\<close>

record transcript_row =
  tr_workflow_id :: string
  tr_step_name :: string
  tr_events :: "pydict list"
  tr_cost_usd :: pyval
  tr_input_tokens :: pyval
  tr_output_tokens :: pyval
  tr_duration_ms :: pyval
  tr_trace_id :: "string option"
  tr_messages :: "pydict list option"
  tr_created_at :: nat

record transcript_store =
  ts_connected :: bool
  ts_retention_days :: int
  ts_rows :: "transcript_row list"

definition ts_not_connected :: pyexc where
  "ts_not_connected = RuntimeError ''TranscriptStore not connected -- call connect() first''"

definition ensure_connected :: "transcript_store \<Rightarrow> 'a res \<Rightarrow> 'a res" where
  "ensure_connected s r = (if ts_connected s then r else Err ts_not_connected)"

text \<open>\<open>from_env\<close>: no store without a URL; the retention must read as an integer.\<close>

definition store_from_env :: "string dict \<Rightarrow> transcript_row list \<Rightarrow> transcript_store option res" where
  "store_from_env env rows =
     (if map_of env ''TRANSCRIPT_DB_URL'' \<in> {None, Some []} then Ok None
      else
        let days = (case map_of env ''TRANSCRIPT_RETENTION_DAYS'' of None \<Rightarrow> ''30'' | Some d \<Rightarrow> d) in
          case py_int days of
            None \<Rightarrow> Err (ValueError (''invalid literal for int() with base 10: '' @ repr_str days))
          | Some n \<Rightarrow> Ok (Some \<lparr>ts_connected = False, ts_retention_days = n, ts_rows = rows\<rparr>))"

definition ts_connect :: "transcript_store \<Rightarrow> transcript_store" where
  "ts_connect s = s\<lparr>ts_connected := True\<rparr>"

section \<open>Operations\<close>

definition row_of_transcript ::
  "instant \<Rightarrow> string \<Rightarrow> string \<Rightarrow> step_transcript \<Rightarrow> string option \<Rightarrow> pydict list option \<Rightarrow> transcript_row" where
  "row_of_transcript now workflow_id step_name t trace_id messages =
     \<lparr>tr_workflow_id = workflow_id, tr_step_name = step_name, tr_events = map event_dump (st_events t),
      tr_cost_usd = st_cost_usd t, tr_input_tokens = st_input_tokens t, tr_output_tokens = st_output_tokens t,
      tr_duration_ms = st_duration_ms t, tr_trace_id = trace_id, tr_messages = messages,
      tr_created_at = in_time now\<rparr>"

definition has_key :: "string \<Rightarrow> string \<Rightarrow> transcript_row \<Rightarrow> bool" where
  "has_key workflow_id step_name r = (tr_workflow_id r = workflow_id \<and> tr_step_name r = step_name)"

definition coalesce :: "'a option \<Rightarrow> 'a option \<Rightarrow> 'a option" where
  "coalesce a b = (case a of None \<Rightarrow> b | Some _ \<Rightarrow> a)"

text \<open>\<open>ON CONFLICT ... DO UPDATE\<close>: the new values, but a trace id or messages only if they are given.\<close>

definition merge_row :: "transcript_row \<Rightarrow> transcript_row \<Rightarrow> transcript_row" where
  "merge_row new old =
     old\<lparr>tr_events := tr_events new, tr_cost_usd := tr_cost_usd new, tr_input_tokens := tr_input_tokens new,
         tr_output_tokens := tr_output_tokens new, tr_duration_ms := tr_duration_ms new,
         tr_trace_id := coalesce (tr_trace_id new) (tr_trace_id old),
         tr_messages := coalesce (tr_messages new) (tr_messages old)\<rparr>"

definition upsert :: "transcript_row \<Rightarrow> transcript_row list \<Rightarrow> transcript_row list" where
  "upsert new rows =
     (if list_ex (has_key (tr_workflow_id new) (tr_step_name new)) rows
      then map (\<lambda>r. if has_key (tr_workflow_id new) (tr_step_name new) r then merge_row new r else r) rows
      else rows @ [new])"

definition save_transcript ::
  "instant \<Rightarrow> string \<Rightarrow> string \<Rightarrow> step_transcript \<Rightarrow> string option \<Rightarrow> pydict list option
   \<Rightarrow> transcript_store \<Rightarrow> transcript_store res" where
  "save_transcript now workflow_id step_name t trace_id messages s =
     ensure_connected s
       (Ok (s\<lparr>ts_rows := upsert (row_of_transcript now workflow_id step_name t trace_id messages) (ts_rows s)\<rparr>))"

text \<open>Reading one row back: the events are rebuilt through the model.\<close>

definition rebuild_event :: "(ptype \<Rightarrow> pyval \<Rightarrow> pyval res) \<Rightarrow> pydict \<Rightarrow> transcript_event res" where
  "rebuild_event validate e =
     then_do (validate TranscriptEvent (VDict [(''ts'', dget_or e ''ts'' (VStr [])),
         (''type'', dget_or e ''type'' (VStr ''result'')), (''data'', dget_or e ''data'' (VDict []))])) (\<lambda>v.
       then_do (as_dict v) (\<lambda>d. Ok (event_of d)))"

definition get_transcript ::
  "(ptype \<Rightarrow> pyval \<Rightarrow> pyval res) \<Rightarrow> string \<Rightarrow> string \<Rightarrow> transcript_store \<Rightarrow> step_transcript option res" where
  "get_transcript validate workflow_id step_name s =
     ensure_connected s
       (case find (has_key workflow_id step_name) (ts_rows s) of
          None \<Rightarrow> Ok None
        | Some r \<Rightarrow>
            then_do (map_res (rebuild_event validate) (tr_events r)) (\<lambda>events.
              Ok (Some \<lparr>st_step_name = step_name, st_events = events, st_cost_usd = tr_cost_usd r,
                   st_input_tokens = tr_input_tokens r, st_output_tokens = tr_output_tokens r,
                   st_duration_ms = tr_duration_ms r\<rparr>)))"

definition of_workflow :: "string \<Rightarrow> transcript_store \<Rightarrow> transcript_row list" where
  "of_workflow workflow_id s =
     sort_key tr_created_at (filter (\<lambda>r. tr_workflow_id r = workflow_id) (ts_rows s))"

definition list_steps :: "string \<Rightarrow> transcript_store \<Rightarrow> string list res" where
  "list_steps workflow_id s = ensure_connected s (Ok (map tr_step_name (of_workflow workflow_id s)))"

definition newest :: "nat \<Rightarrow> transcript_row list \<Rightarrow> transcript_row list" where
  "newest limit rows = take limit (rev rows)"

definition load_recent_turns :: "string \<Rightarrow> nat \<Rightarrow> transcript_store \<Rightarrow> (string \<times> pydict list) list res" where
  "load_recent_turns workflow_id limit s =
     ensure_connected s
       (Ok (map (\<lambda>r. (tr_step_name r, the (tr_messages r)))
          (rev (newest limit (filter (\<lambda>r. tr_messages r \<noteq> None) (of_workflow workflow_id s))))))"

definition delete_transcripts :: "string \<Rightarrow> transcript_store \<Rightarrow> transcript_store res" where
  "delete_transcripts workflow_id s =
     ensure_connected s (Ok (s\<lparr>ts_rows := filter (\<lambda>r. tr_workflow_id r \<noteq> workflow_id) (ts_rows s)\<rparr>))"

definition day_us :: int where
  "day_us = 86400000000"

definition expired :: "instant \<Rightarrow> int \<Rightarrow> transcript_row \<Rightarrow> bool" where
  "expired now days r = (int (tr_created_at r) < int (in_time now) - days * day_us)"

definition cleanup_expired :: "instant \<Rightarrow> transcript_store \<Rightarrow> (nat \<times> transcript_store) res" where
  "cleanup_expired now s =
     ensure_connected s
       (let gone = filter (expired now (ts_retention_days s)) (ts_rows s) in
          Ok (length gone, s\<lparr>ts_rows := filter (\<lambda>r. \<not> expired now (ts_retention_days s) r) (ts_rows s)\<rparr>))"

section \<open>Facts\<close>

definition keyed_rows :: "transcript_row list \<Rightarrow> bool" where
  "keyed_rows rows = distinct (map (\<lambda>r. (tr_workflow_id r, tr_step_name r)) rows)"

lemma merge_row_key [simp]:
  "tr_workflow_id (merge_row new r) = tr_workflow_id r" "tr_step_name (merge_row new r) = tr_step_name r"
  "tr_created_at (merge_row new r) = tr_created_at r"
  by (simp_all add: merge_row_def)

lemma merge_rows_keys:
  "map (\<lambda>r. (tr_workflow_id r, tr_step_name r)) (map (\<lambda>r. if P r then merge_row new r else r) rows)
   = map (\<lambda>r. (tr_workflow_id r, tr_step_name r)) rows"
  by (induction rows) auto

lemma keyed_upsert: "keyed_rows rows \<Longrightarrow> keyed_rows (upsert new rows)"
  unfolding keyed_rows_def upsert_def
  by (auto simp: merge_rows_keys has_key_def list_ex_iff simp del: map_map)

lemma keyed_filter: "keyed_rows rows \<Longrightarrow> keyed_rows (filter P rows)"
  by (simp add: keyed_rows_def distinct_map_filter)

lemma find_upsert_same:
  "find (has_key (tr_workflow_id new) (tr_step_name new)) (upsert new rows) =
     Some (case find (has_key (tr_workflow_id new) (tr_step_name new)) rows of None \<Rightarrow> new | Some r \<Rightarrow> merge_row new r)"
proof -
  let ?k = "has_key (tr_workflow_id new) (tr_step_name new)"
  have "find ?k (map (\<lambda>r. if ?k r then merge_row new r else r) rows) = map_option (merge_row new) (find ?k rows)"
    by (induction rows) (auto simp: has_key_def)
  moreover have "find ?k rows = None" if "\<not> list_ex ?k rows" using that by (simp add: find_None_iff list_ex_iff)
  moreover have "find ?k (rows @ [new]) = Some new" if "\<not> list_ex ?k rows"
    using that by (induction rows) (auto simp: has_key_def)
  moreover have "find ?k rows \<noteq> None" if "list_ex ?k rows" using that by (auto simp: find_None_iff list_ex_iff)
  ultimately show ?thesis by (auto simp: upsert_def split: option.splits)
qed

lemma find_upsert_other:
  "(w, n) \<noteq> (tr_workflow_id new, tr_step_name new) \<Longrightarrow> find (has_key w n) (upsert new rows) = find (has_key w n) rows"
proof -
  assume ne: "(w, n) \<noteq> (tr_workflow_id new, tr_step_name new)"
  let ?k = "has_key (tr_workflow_id new) (tr_step_name new)"
  have "find (has_key w n) (map (\<lambda>r. if ?k r then merge_row new r else r) rows) = find (has_key w n) rows"
    using ne by (induction rows) (auto simp: has_key_def)
  moreover have "find (has_key w n) (rows @ [new]) = find (has_key w n) rows"
    using ne by (induction rows) (auto simp: has_key_def)
  ultimately show ?thesis by (simp add: upsert_def)
qed

context pydantic_engine
begin

lemma rebuild_dump:
  assumes "te_type e \<in> set valid_transcript_event_types"
  shows "rebuild_event validate (event_dump e) = Ok e"
  using canonical_event [OF assms, of "te_ts e" "te_data e"]
  by (auto simp: rebuild_event_def event_dump_def event_of_def text_of_def dict_of_def)

lemma rebuild_all:
  "list_all (\<lambda>e. te_type e \<in> set valid_transcript_event_types) es \<Longrightarrow>
   map_res (rebuild_event validate) (map event_dump es) = Ok es"
  by (induction es) (simp_all add: rebuild_dump)

end


definition empty_transcripts :: transcript_store where
  "empty_transcripts = \<lparr>ts_connected = True, ts_retention_days = 30, ts_rows = []\<rparr>"


end
