(* ===== verification/Middleware.thy ===== *)
theory Middleware
  imports StepTypes TranscriptStore
begin

text \<open>
  The middleware stack of \<open>executor/middleware.py\<close>. A middleware is a pair of hooks on a world \<open>'w\<close>,
  each of which may raise; the executor is a function of the same kind. The span a tracer opens
  around a run is outside the world: it observes the run and re-raises what the run raises.
\<close>

section \<open>Hooks and the stack\<close>

record 'w middleware =
  mw_before :: "exec_input \<Rightarrow> 'w \<Rightarrow> (agent_exc + exec_input) \<times> 'w"
  mw_after :: "exec_input \<Rightarrow> exec_output \<Rightarrow> 'w \<Rightarrow> (agent_exc + exec_output) \<times> 'w"

fun run_before :: "'w middleware list \<Rightarrow> exec_input \<Rightarrow> 'w \<Rightarrow> (agent_exc + exec_input) \<times> 'w" where
  "run_before [] si w = (Inr si, w)"
| "run_before (m # ms) si w =
     (case mw_before m si w of (Inl e, w1) \<Rightarrow> (Inl e, w1) | (Inr si1, w1) \<Rightarrow> run_before ms si1 w1)"

text \<open>The hooks after the run, given in the order they are called.\<close>

fun run_after :: "'w middleware list \<Rightarrow> exec_input \<Rightarrow> exec_output \<Rightarrow> 'w \<Rightarrow> (agent_exc + exec_output) \<times> 'w" where
  "run_after [] si r w = (Inr r, w)"
| "run_after (m # ms) si r w =
     (case mw_after m si r w of (Inl e, w1) \<Rightarrow> (Inl e, w1) | (Inr r1, w1) \<Rightarrow> run_after ms si r1 w1)"

definition run_no_span ::
  "(exec_input \<Rightarrow> 'w \<Rightarrow> (agent_exc + exec_output) \<times> 'w) \<Rightarrow> 'w middleware list \<Rightarrow> exec_input \<Rightarrow> 'w
   \<Rightarrow> (agent_exc + exec_output) \<times> 'w" where
  "run_no_span run middlewares step_input w =
     (case run_before middlewares step_input w of
        (Inl e, w1) \<Rightarrow> (Inl e, w1)
      | (Inr si, w1) \<Rightarrow>
          (case run si w1 of
             (Inl e, w2) \<Rightarrow> (Inl e, w2)
           | (Inr result, w2) \<Rightarrow> run_after (rev middlewares) si result w2))"

text \<open>
  Streaming: every event is passed on; the hooks after the run see the last result of a final event
  and what they return is dropped.
\<close>

definition final_result :: "stream_event list \<Rightarrow> exec_output option" where
  "final_result events =
     fold (\<lambda>e r. if se_type e \<in> {Complete, StreamError} \<and> se_result e \<noteq> None then se_result e else r) events None"

fun notify_after :: "'w middleware list \<Rightarrow> exec_input \<Rightarrow> exec_output \<Rightarrow> 'w \<Rightarrow> agent_exc option \<times> 'w" where
  "notify_after [] si r w = (None, w)"
| "notify_after (m # ms) si r w =
     (case mw_after m si r w of (Inl e, w1) \<Rightarrow> (Some e, w1) | (Inr _, w1) \<Rightarrow> notify_after ms si r w1)"

definition run_stream_no_span ::
  "(exec_input \<Rightarrow> 'w \<Rightarrow> stream_event list \<times> agent_exc option \<times> 'w) \<Rightarrow> 'w middleware list \<Rightarrow> exec_input \<Rightarrow> 'w
   \<Rightarrow> stream_event list \<times> agent_exc option \<times> 'w" where
  "run_stream_no_span run_stream middlewares step_input w =
     (case run_before middlewares step_input w of
        (Inl e, w1) \<Rightarrow> ([], Some e, w1)
      | (Inr si, w1) \<Rightarrow>
          (case run_stream si w1 of
             (events, Some e, w2) \<Rightarrow> (events, Some e, w2)
           | (events, None, w2) \<Rightarrow>
               (case final_result events of
                  None \<Rightarrow> (events, None, w2)
                | Some r \<Rightarrow> (case notify_after (rev middlewares) si r w2 of (exc, w3) \<Rightarrow> (events, exc, w3)))))"

section \<open>The middlewares of the repository\<close>

text \<open>
  Tracing: the id of the current span's trace, if any, is put on the metadata; the attributes set
  afterwards belong to the span.
\<close>

definition TracingMiddleware :: "('w \<Rightarrow> string option) \<Rightarrow> 'w middleware" where
  "TracingMiddleware trace_id =
     \<lparr>mw_before = (\<lambda>si w.
        case trace_id w of
          None \<Rightarrow> (Inr si, w)
        | Some t \<Rightarrow>
            let md = (case ei_metadata si of None \<Rightarrow> StepMetadata | Some m \<Rightarrow> m) in
              (Inr (si\<lparr>ei_metadata := Some (md\<lparr>em_trace_id := Some t\<rparr>)\<rparr>), w)),
      mw_after = (\<lambda>si result w. (Inr result, w))\<rparr>"

definition middleware_messages :: "(nat \<Rightarrow> string) \<Rightarrow> string \<Rightarrow> pyval \<Rightarrow> pydict list" where
  "middleware_messages stamp prompt output =
     message_to_dict \<lparr>cm_role = ''user'', cm_content = prompt, cm_timestamp = stamp 0, cm_metadata = []\<rparr>
     # (if output = VNone then []
        else [message_to_dict \<lparr>cm_role = ''assistant'',
                cm_content = (if is_dict output then json_dumps output else py_str output),
                cm_timestamp = stamp 1, cm_metadata = []\<rparr>])"

definition transcript_of_result :: "string \<Rightarrow> transcript_event list \<Rightarrow> exec_output \<Rightarrow> step_transcript" where
  "transcript_of_result step_name events result =
     (empty_transcript step_name)\<lparr>st_events := events, st_input_tokens := VInt (eo_input_tokens result),
        st_output_tokens := VInt (eo_output_tokens result), st_duration_ms := VInt (eo_duration_ms result)\<rparr>"

text \<open>
  Saving a step's transcript; the world holds the store, and a failure to save is logged and forgotten.
\<close>

definition save_step ::
  "(ptype \<Rightarrow> pyval \<Rightarrow> pyval res) \<Rightarrow> instant \<Rightarrow> (nat \<Rightarrow> string) \<Rightarrow> exec_input \<Rightarrow> exec_output
   \<Rightarrow> transcript_store \<Rightarrow> transcript_store res" where
  "save_step validate now stamp step_input result store =
     (let step_name = (if ei_output_key step_input = [] then ei_step_name step_input else ei_output_key step_input) in
        then_do (normalize_transcript_events validate (Some (eo_transcript result))) (\<lambda>events.
          save_transcript now (ei_workflow_id step_input) step_name
            (transcript_of_result step_name events result)
            (case ei_metadata step_input of None \<Rightarrow> None | Some m \<Rightarrow> em_trace_id m)
            (Some (middleware_messages stamp (ei_prompt step_input) (eo_output result))) store))"

definition TranscriptMiddleware ::
  "(ptype \<Rightarrow> pyval \<Rightarrow> pyval res) \<Rightarrow> ('w \<Rightarrow> instant) \<Rightarrow> (nat \<Rightarrow> string) \<Rightarrow> ('w \<Rightarrow> transcript_store option)
   \<Rightarrow> (transcript_store \<Rightarrow> 'w \<Rightarrow> 'w) \<Rightarrow> 'w middleware" where
  "TranscriptMiddleware validate clock stamp store_of put_store =
     \<lparr>mw_before = (\<lambda>si w. (Inr si, w)),
      mw_after = (\<lambda>si result w.
        case store_of w of
          None \<Rightarrow> (Inr result, w)
        | Some store \<Rightarrow>
            (case save_step validate (clock w) stamp si result store of
               Inl e \<Rightarrow> (Inr result, w)
             | Inr store' \<Rightarrow> (Inr result, put_store store' w)))\<rparr>"

section \<open>Order and transparency\<close>

text \<open>A hook that changes neither input nor result and never raises.\<close>

definition transparent :: "'w middleware \<Rightarrow> bool" where
  "transparent m = (\<forall>si r w. fst (mw_after m si r w) = Inr r \<and> (\<exists>si'. fst (mw_before m si w) = Inr si'))"

lemma run_before_append:
  "run_before (ms @ ms') si w =
     (case run_before ms si w of (Inl e, w1) \<Rightarrow> (Inl e, w1) | (Inr si1, w1) \<Rightarrow> run_before ms' si1 w1)"
  by (induction ms arbitrary: si w) (auto split: prod.splits sum.splits)

lemma run_after_append:
  "run_after (ms @ ms') si r w =
     (case run_after ms si r w of (Inl e, w1) \<Rightarrow> (Inl e, w1) | (Inr r1, w1) \<Rightarrow> run_after ms' si r1 w1)"
  by (induction ms arbitrary: r w) (auto split: prod.splits sum.splits)

text \<open>The outermost middleware is the first before the run and the last after it.\<close>

lemma run_no_span_Cons:
  "run_no_span run (m # ms) si w =
     (case mw_before m si w of
        (Inl e, w1) \<Rightarrow> (Inl e, w1)
      | (Inr si1, w1) \<Rightarrow>
          (case run_before ms si1 w1 of
             (Inl e, w2) \<Rightarrow> (Inl e, w2)
           | (Inr si2, w2) \<Rightarrow>
               (case run si2 w2 of
                  (Inl e, w3) \<Rightarrow> (Inl e, w3)
                | (Inr r, w3) \<Rightarrow>
                    (case run_after (rev ms) si2 r w3 of
                       (Inl e, w4) \<Rightarrow> (Inl e, w4)
                     | (Inr r1, w4) \<Rightarrow> mw_after m si2 r1 w4))))"
  by (auto simp: run_no_span_def run_after_append split: prod.splits sum.splits)

lemma transparent_tracing: "transparent (TracingMiddleware f)"
  by (auto simp: transparent_def TracingMiddleware_def Let_def split: option.splits)

lemma transparent_transcript: "transparent (TranscriptMiddleware v c st g p)"
  by (auto simp: transparent_def TranscriptMiddleware_def split: option.splits sum.splits)

lemma transparent_after:
  "\<forall>m\<in>set ms. transparent m \<Longrightarrow> fst (run_after ms si r w) = Inr r"
proof (induction ms arbitrary: w)
  case (Cons m ms)
  have "fst (mw_after m si r w) = Inr r" using Cons.prems by (simp add: transparent_def)
  then obtain w1 where "mw_after m si r w = (Inr r, w1)" by (metis prod.collapse)
  with Cons show ?case by simp
qed simp

lemma transparent_before: "\<forall>m\<in>set ms. transparent m \<Longrightarrow> \<exists>si'. fst (run_before ms si w) = Inr si'"
proof (induction ms arbitrary: si w)
  case (Cons m ms)
  have "transparent m" using Cons.prems by simp
  then obtain si1 where "fst (mw_before m si w) = Inr si1" unfolding transparent_def by blast
  then obtain w1 where "mw_before m si w = (Inr si1, w1)" by (metis prod.collapse)
  with Cons show ?case by simp
qed simp

text \<open>
  Observing middlewares never change the outcome of a step: with tracing and transcript saving around
  an executor, in any number and order, the caller gets exactly the executor's result for the input
  the hooks handed it, or its exception; a store that fails cannot fail the step.
\<close>

theorem middlewares_transparent:
  assumes "\<forall>m\<in>set ms. transparent m"
  shows "\<exists>si' w'. run_before ms si w = (Inr si', w') \<and> fst (run_no_span run ms si w) = fst (run si' w')"
proof -
  obtain si' where "fst (run_before ms si w) = Inr si'" using transparent_before [OF assms] by blast
  then obtain w' where b: "run_before ms si w = (Inr si', w')" by (metis prod.collapse)
  have "fst (run_no_span run ms si w) = fst (run si' w')"
  proof (cases "run si' w'")
    case (Pair r w2)
    then show ?thesis using b transparent_after [of "rev ms" si' _ w2] assms
      by (cases r) (simp_all add: run_no_span_def)
  qed
  with b show ?thesis by blast
qed

theorem middlewares_transparent_witness:
  "fst (run_no_span (\<lambda>si w. (Inr ((StepResult ''completed'')\<lparr>eo_output := VStr (ei_prompt si)\<rparr>), w))
      [TranscriptMiddleware strict_validate (\<lambda>w. \<lparr>in_time = 1, in_iso = ''t''\<rparr>) (\<lambda>n. ''t'')
         (\<lambda>w. Some \<lparr>ts_connected = False, ts_retention_days = 30, ts_rows = []\<rparr>) (\<lambda>s w. w),
       TracingMiddleware (\<lambda>w. Some ''abc'')] (StepInput ''hi'' []) ())
   = Inr ((StepResult ''completed'')\<lparr>eo_output := VStr ''hi''\<rparr>)"
proof -
  let ?ms = "[TranscriptMiddleware strict_validate (\<lambda>w. \<lparr>in_time = 1, in_iso = ''t''\<rparr>) (\<lambda>n. ''t'')
         (\<lambda>w. Some \<lparr>ts_connected = False, ts_retention_days = 30, ts_rows = []\<rparr>) (\<lambda>s w. w),
       TracingMiddleware (\<lambda>w. Some ''abc'')]"
  have t: "\<forall>m\<in>set ?ms. transparent m" by (simp add: transparent_tracing transparent_transcript)
  obtain si' w' where b: "run_before ?ms (StepInput ''hi'' []) () = (Inr si', w')"
    and eq: "fst (run_no_span (\<lambda>si w. (Inr ((StepResult ''completed'')\<lparr>eo_output := VStr (ei_prompt si)\<rparr>), w)) ?ms (StepInput ''hi'' []) ())
       = Inr ((StepResult ''completed'')\<lparr>eo_output := VStr (ei_prompt si')\<rparr>)"
    using middlewares_transparent [OF t, of "StepInput ''hi'' []" "()"
        "\<lambda>si w. (Inr ((StepResult ''completed'')\<lparr>eo_output := VStr (ei_prompt si)\<rparr>), w)"] by auto
  have "ei_prompt si' = ''hi''" using b by (auto simp: TranscriptMiddleware_def TracingMiddleware_def StepInput_def)
  with eq show ?thesis by simp
qed

end
