(* ===== verification/StepResources.thy ===== *)
theory StepResources
  imports StepTypes Secrets
begin

text \<open>
  What an executor resolves before it calls a model: the provider's model name and credential
  (\<open>step/provider.py\<close>), the registered tools (\<open>step/tools.py\<close>), the skills capability
  (\<open>step/skills.py\<close>) and whether a schema may be sent natively (\<open>step/native_output.py\<close>). The
  process environment is a dictionary that \<open>ensure_credentials_env\<close> changes.
\<close>

section \<open>Provider (step/provider.py)\<close>

definition provider_env_keys :: "string dict" where
  "provider_env_keys = [(''openai'', ''OPENAI_API_KEY''), (''anthropic'', ''ANTHROPIC_API_KEY''),
     (''claude'', ''ANTHROPIC_API_KEY''), (''gemini'', ''GOOGLE_API_KEY''), (''azure'', ''AZURE_OPENAI_API_KEY'')]"

text \<open>\<open>table.get(v)\<close> for a value that may be no text: a list or an object is not hashable.\<close>

definition table_get :: "string dict \<Rightarrow> pyval \<Rightarrow> string option res" where
  "table_get table v =
     (case v of
        VStr s \<Rightarrow> Ok (map_of table s)
      | VList _ \<Rightarrow> Err (TypeError ''unhashable type: list'')
      | VDict _ \<Rightarrow> Err (TypeError ''unhashable type: dict'')
      | _ \<Rightarrow> Ok None)"

definition to_model_string :: "pydict \<Rightarrow> string res" where
  "to_model_string provider =
     (case (map_of provider ''name'', map_of provider ''model'') of
        (None, _) \<Rightarrow> Err (KeyError ''name'')
      | (_, None) \<Rightarrow> Err (KeyError ''model'')
      | (Some name, Some model) \<Rightarrow>
          then_do (table_get provider_name_map name) (\<lambda>found.
            case found of
              None \<Rightarrow> Err (ValueError (''Unknown provider '' @ [sq] @ py_str name @ [sq] @ ''. ''
                        @ ''Supported: anthropic, azure, bedrock, claude, gemini, openai.''))
            | Some pai_provider \<Rightarrow> Ok (pai_provider @ '':'' @ py_str model)))"

text \<open>\<open>os.environ.get(key)\<close> used as a condition: present and not empty.\<close>

definition env_set :: "string dict \<Rightarrow> string \<Rightarrow> bool" where
  "env_set env key = (case map_of env key of None \<Rightarrow> False | Some v \<Rightarrow> v \<noteq> [])"

definition env_name :: "string \<Rightarrow> string" where
  "env_name cred = map (\<lambda>c. if c = CHR ''-'' then CHR ''_'' else c) (map upper_char cred)"

definition resolve_credential_env_key :: "string dict \<Rightarrow> pydict \<Rightarrow> string option res" where
  "resolve_credential_env_key env provider =
     (let cred = dget provider ''credentials_secret'' in
        if truthy cred
        then (case cred of VStr c \<Rightarrow> Ok (Some (env_name c))
                         | _ \<Rightarrow> Err (AttributeError ''object has no attribute upper''))
        else then_do (table_get provider_env_keys (dget_or provider ''name'' (VStr []))) (\<lambda>default_key.
          case default_key of
            None \<Rightarrow> Ok None
          | Some k \<Rightarrow> Ok (if env_set env k then Some k else None)))"

definition resolve_api_key :: "string dict \<Rightarrow> pydict \<Rightarrow> string option res" where
  "resolve_api_key env provider =
     then_do (resolve_credential_env_key env provider) (\<lambda>key.
       case key of None \<Rightarrow> Ok None | Some k \<Rightarrow> Ok (if k = [] then None else map_of env k))"

definition set_azure_endpoint :: "pydict \<Rightarrow> string dict \<Rightarrow> string dict res" where
  "set_azure_endpoint provider env =
     (if dget_or provider ''name'' (VStr []) \<noteq> VStr ''azure'' then Ok env
      else case dget provider ''base_url'' of
        base_url \<Rightarrow>
          if truthy base_url \<and> \<not> env_set env ''AZURE_OPENAI_ENDPOINT''
          then (case base_url of VStr u \<Rightarrow> Ok (dict_set ''AZURE_OPENAI_ENDPOINT'' u env)
                               | _ \<Rightarrow> Err (TypeError ''str expected''))
          else Ok env)"

definition ensure_credentials_env :: "pydict \<Rightarrow> string dict \<Rightarrow> string dict res" where
  "ensure_credentials_env provider env =
     then_do (set_azure_endpoint provider env) (\<lambda>env1.
       then_do (table_get provider_env_keys (dget_or provider ''name'' (VStr []))) (\<lambda>target_env.
         case target_env of
           None \<Rightarrow> Ok env1
         | Some target \<Rightarrow>
             if env_set env1 target then Ok env1
             else then_do (resolve_api_key env1 provider) (\<lambda>api_key.
               case api_key of
                 None \<Rightarrow> Ok env1
               | Some k \<Rightarrow> Ok (if k = [] then env1 else dict_set target k env1))))"

section \<open>Tools (step/tools.py)\<close>

text \<open>A registered tool is its function, known by an address, and a description.\<close>

record tool_definition =
  td_func :: nat
  td_description :: "string option"

type_synonym registry = "tool_definition dict"

definition register_tool :: "string \<Rightarrow> nat \<Rightarrow> string option \<Rightarrow> registry \<Rightarrow> registry res" where
  "register_tool name func description reg =
     (if name \<in> set (keys reg) then Err (ValueError (''Tool '' @ [sq] @ name @ [sq] @ '' is already registered.''))
      else Ok (reg @ [(name, \<lparr>td_func = func, td_description = description\<rparr>)]))"

definition list_tools :: "registry \<Rightarrow> string list" where
  "list_tools reg = sort (keys reg)"

definition list_tool_definitions :: "registry \<Rightarrow> (string \<times> string option) list" where
  "list_tool_definitions reg =
     map (\<lambda>name. (name, case map_of reg name of None \<Rightarrow> None | Some d \<Rightarrow> td_description d)) (list_tools reg)"

definition available_text :: "registry \<Rightarrow> string" where
  "available_text reg = (let a = py_join '', '' (list_tools reg) in if a = [] then ''(none)'' else a)"

definition unknown_tool :: "registry \<Rightarrow> string \<Rightarrow> pyexc" where
  "unknown_tool reg name = ValueError (''Unknown tool '' @ [sq] @ name @ [sq] @ ''. Registered tools: '' @ available_text reg @ ''.''
     @ (if available_text reg = ''(none)''
        then '' Set CLOUD_AGENTS_TOOLS_MODULE to the dotted import path of your tools module (e.g. myapp.tools).''
        else []))"

text \<open>A tool of the agent library: name, function, description.\<close>

fun get_tools :: "registry \<Rightarrow> string list \<Rightarrow> (string \<times> tool_definition) list res" where
  "get_tools reg [] = Ok []"
| "get_tools reg (name # names) =
     (case map_of reg name of
        None \<Rightarrow> Err (unknown_tool reg name)
      | Some defn \<Rightarrow> then_do (get_tools reg names) (\<lambda>ts. Ok ((name, defn) # ts)))"

section \<open>Skills (step/skills.py)\<close>

text \<open>
  The file system answers for a path whether it is a directory, after resolving links; the skills
  package may be missing.
\<close>

record skills_env =
  sk_paths :: string
  sk_realpath :: "string \<Rightarrow> string"
  sk_isdir :: "string \<Rightarrow> bool"
  sk_installed :: bool

record skills_capability =
  sc_directories :: "string list"
  sc_include :: "string list option"

definition get_skills_capability :: "skills_env \<Rightarrow> string list option \<Rightarrow> skills_capability option" where
  "get_skills_capability env include =
     (if include = Some [] then None
      else
        let paths = filter (\<lambda>p. p \<noteq> []) (map py_strip (py_split '':'' (sk_paths env)));
            valid_paths = filter (sk_isdir env) (map (sk_realpath env) paths) in
          if paths = [] then None
          else if valid_paths = [] then None
          else if \<not> sk_installed env then None
          else Some \<lparr>sc_directories = valid_paths, sc_include = include\<rparr>)"

definition step_skills :: "skills_env \<Rightarrow> exec_input \<Rightarrow> skills_capability option" where
  "step_skills env step_input =
     (case ei_allowed_skills step_input of None \<Rightarrow> None | Some names \<Rightarrow> get_skills_capability env (Some names))"

section \<open>Native output (step/native\_output.py)\<close>

definition supports_native_output :: "pydict \<Rightarrow> bool" where
  "supports_native_output output_schema = py_eq (dget output_schema ''type'') (VStr ''object'')"

section \<open>Facts\<close>

lemma set_azure_endpoint_keeps:
  assumes "set_azure_endpoint provider env = Ok env'" and "env_set env k"
  shows "map_of env' k = map_of env k"
  using assms by (auto simp: set_azure_endpoint_def split: if_splits pyval.splits)

lemma ensure_keeps:
  assumes "ensure_credentials_env provider env = Ok env'" and "env_set env k"
  shows "map_of env' k = map_of env k"
proof -
  obtain env1 where e1: "set_azure_endpoint provider env = Ok env1"
    using assms(1) by (auto simp: ensure_credentials_env_def elim: then_do_OkE)
  note k1 = set_azure_endpoint_keeps [OF e1 assms(2)]
  then have "env_set env1 k" using assms(2) by (simp add: env_set_def)
  then have "map_of env' k = map_of env1 k"
    using assms(1) e1
    by (auto simp: ensure_credentials_env_def elim!: then_do_OkE split: option.splits if_splits)
  with k1 show ?thesis by simp
qed

lemma explicit_credential:
  "dget provider ''credentials_secret'' = VStr c \<Longrightarrow> c \<noteq> [] \<Longrightarrow>
   resolve_credential_env_key env provider = Ok (Some (env_name c))"
  by (simp add: resolve_credential_env_key_def)

text \<open>
  The environment is never overwritten and never mixes credentials: a variable that is set keeps its
  value; and when the provider names a secret, the only value its API key variable can receive is
  the one stored under that name, never another provider's or the default.
\<close>

theorem credentials_never_substituted:
  assumes "ensure_credentials_env provider env = Ok env'"
    and "dget provider ''name'' = VStr name" and "map_of provider_env_keys name = Some target"
    and "dget provider ''credentials_secret'' = VStr cred" and "cred \<noteq> []" and "name \<noteq> ''azure''"
  shows "(\<forall>k. env_set env k \<longrightarrow> map_of env' k = map_of env k)
    \<and> (map_of env' target = map_of env target \<or>
       \<not> env_set env target \<and> map_of env' target = map_of env (env_name cred))
    \<and> (\<forall>k. k \<noteq> target \<longrightarrow> map_of env' k = map_of env k)"
proof -
  have name: "dget_or provider ''name'' (VStr []) = VStr name"
    using assms(2) by (simp add: dget_def dget_or_def split: option.splits)
  have ep: "set_azure_endpoint provider env = Ok env" using assms(6) name by (simp add: set_azure_endpoint_def)
  have "\<not> env_set env target \<longrightarrow> env' = env \<or> (\<exists>k. map_of env (env_name cred) = Some k \<and> env' = dict_set target k env)"
    using assms(1,3) explicit_credential [OF assms(4,5), of env] ep name
    by (auto simp: ensure_credentials_env_def resolve_api_key_def table_get_def split: option.splits if_splits)
  moreover have "env_set env target \<longrightarrow> env' = env"
    using assms(1,3) ep name by (auto simp: ensure_credentials_env_def table_get_def)
  ultimately show ?thesis using ensure_keeps [OF assms(1)] by (auto simp: env_set_def)
qed

theorem credentials_never_substituted_witness:
  "\<exists>env'. ensure_credentials_env
      [(''name'', VStr ''openai''), (''model'', VStr ''m''), (''credentials_secret'', VStr ''my-secret'')]
      [(''MY_SECRET'', ''s3''), (''GOOGLE_API_KEY'', ''g'')] = Ok env'
    \<and> map_of env' ''OPENAI_API_KEY'' = Some ''s3'' \<and> map_of env' ''GOOGLE_API_KEY'' = Some ''g''"
proof -
  let ?p = "[(''name'', VStr ''openai''), (''model'', VStr ''m''), (''credentials_secret'', VStr ''my-secret'')]"
  let ?env = "[(''MY_SECRET'', ''s3''), (''GOOGLE_API_KEY'', ''g'')]"
  have run: "ensure_credentials_env ?p ?env = Ok (?env @ [(''OPENAI_API_KEY'', ''s3'')])" by code_simp
  have "map_of (?env @ [(''OPENAI_API_KEY'', ''s3'')]) ''GOOGLE_API_KEY'' = Some ''g''"
    using credentials_never_substituted [OF run, of "''openai''" "''OPENAI_API_KEY''" "''my-secret''"]
    by (simp add: provider_env_keys_def)
  with run show ?thesis by auto
qed

lemma get_tools_Ok: "get_tools reg names = Ok ts \<longleftrightarrow> map fst ts = names \<and> list_all (\<lambda>(n, d). map_of reg n = Some d) ts"
proof (induction names arbitrary: ts)
  case (Cons n names)
  show ?case
  proof (cases "map_of reg n")
    case (Some d)
    show ?thesis
    proof (cases ts)
      case (Cons t us)
      then show ?thesis using Some Cons.IH [of us] by (cases "get_tools reg names"; cases t) auto
    qed (use Some in \<open>cases "get_tools reg names"; simp\<close>)
  qed (auto simp: Cons_eq_map_conv)
qed auto

lemma get_tools_Err: "get_tools reg names = Err e \<Longrightarrow> \<exists>n\<in>set names. map_of reg n = None \<and> e = unknown_tool reg n"
  by (induction reg names rule: get_tools.induct) (auto simp: then_do_def split: option.splits sum.splits)

lemma skills_need_names:
  "get_skills_capability env (Some names) = Some cap \<Longrightarrow> names \<noteq> [] \<and> sc_include cap = Some names"
  by (auto simp: get_skills_capability_def Let_def split: if_splits)

end
