(* ===== verification/DirectStep.thy ===== *)
theory DirectStep
  imports StepResources
begin

text \<open>
  The direct executor of \<open>step/direct.py\<close> (\<open>spawn: none\<close>): the prompt, the choice between a single
  model request and an agent run, the rebuilt conversation history, the parsing of the answer and
  the conversion of every exception into a failed result. The agent library (model requests, agent
  runs, the import of a tools module, the clock) is a field of \<open>agent_env\<close>; the process state the
  executor changes, its environment variables and the tool registry, is the record \<open>host\<close>.
\<close>

section \<open>The prompt\<close>

text \<open>\<open>json.dumps(v, indent=2)\<close>.\<close>

definition new_line :: "nat \<Rightarrow> string" where
  "new_line level = newline # replicate (2 * level) (CHR '' '')"

fun json_indent :: "nat \<Rightarrow> pyval \<Rightarrow> string" where
  "json_indent level (VList xs) =
     (if xs = [] then ''[]''
      else ''['' @ new_line (Suc level) @ py_join ('','' @ new_line (Suc level)) (map (json_indent (Suc level)) xs)
           @ new_line level @ '']'')"
| "json_indent level (VDict d) =
     (if d = [] then ''{}''
      else ''{'' @ new_line (Suc level)
           @ py_join ('','' @ new_line (Suc level)) (map (\<lambda>(k, v). json_str k @ '': '' @ json_indent (Suc level) v) d)
           @ new_line level @ ''}'')"
| "json_indent level v = json_dumps v"

definition context_parts :: "pydict \<Rightarrow> string list" where
  "context_parts context =
     concat (map (\<lambda>(key, value).
       case value of
         VDict d \<Rightarrow> (case map_of d ''output'' of
                      Some out \<Rightarrow> [''Previous step '' @ [sq] @ key @ [sq] @ '': '' @ json_indent 0 out]
                    | None \<Rightarrow> [])
       | _ \<Rightarrow> []) context)"

definition execution_block :: "pydict \<Rightarrow> string" where
  "execution_block execution_context =
     (if execution_context = [] then []
      else [newline, newline] @ ''--- Execution context ---'' @ [newline] @ json_indent 0 (VDict execution_context))"

definition prior_block :: "pydict \<Rightarrow> string" where
  "prior_block context =
     (if context_parts context = [] then []
      else [newline, newline] @ ''--- Prior step outputs ---'' @ [newline]
           @ py_join [newline, newline] (context_parts context))"

definition schema_block :: "string \<Rightarrow> pydict option \<Rightarrow> string" where
  "schema_block request output_schema =
     (case output_schema of
        None \<Rightarrow> []
      | Some [] \<Rightarrow> []
      | Some d \<Rightarrow> [newline, newline] @ request @ [newline] @ json_indent 0 (VDict d))"

definition direct_request :: string where
  "direct_request = ''Respond with JSON matching this schema:''"

definition build_user_prompt :: "exec_input \<Rightarrow> string" where
  "build_user_prompt step_input =
     ei_prompt step_input @ execution_block (ei_execution_context step_input)
     @ prior_block (ei_context step_input) @ schema_block direct_request (ei_output_schema step_input)"

text \<open>Messages as pairs of a role and a content.\<close>

definition build_messages :: "exec_input \<Rightarrow> (string \<times> string) list" where
  "build_messages step_input =
     (case ei_system_prompt step_input of
        None \<Rightarrow> []
      | Some p \<Rightarrow> if p = [] then [] else [(''system'', p)])
     @ [(''user'', ei_prompt step_input @ execution_block (ei_execution_context step_input)
          @ prior_block (ei_context step_input) @ schema_block direct_request (ei_output_schema step_input))]"

section \<open>Conversation history\<close>

text \<open>The number in a turn name, as both the sort key and the chat runner read it.\<close>

definition turn_number :: "string \<Rightarrow> int option" where
  "turn_number k = (if prefix ''turn-'' k then py_int (drop 5 k) else None)"

text \<open>\<open>sorted(..., key=_turn_sort_key)\<close>: stable, names without a number last.\<close>

definition sort_turns :: "string list \<Rightarrow> string list" where
  "sort_turns ks =
     sort_key (\<lambda>k. the (turn_number k)) (filter (\<lambda>k. turn_number k \<noteq> None) ks)
     @ filter (\<lambda>k. turn_number k = None) ks"

definition has_conversation_context :: "pydict \<Rightarrow> bool" where
  "has_conversation_context context =
     list_ex (\<lambda>(k, value).
       case value of
         VDict d \<Rightarrow> (case dget d ''output'' of VDict o' \<Rightarrow> is_list (dget o' ''messages'') | _ \<Rightarrow> False)
       | _ \<Rightarrow> False) context"

record history_state =
  hs_history :: "model_message list"
  hs_counter :: nat
  hs_pending :: "(pyval \<times> pyval) list"

text \<open>A part joins the last message if that message is of the same kind and has such a part already.\<close>

definition is_tool_call :: "msg_part \<Rightarrow> bool" where
  "is_tool_call p = (case p of ToolCallPart _ _ _ \<Rightarrow> True | _ \<Rightarrow> False)"

definition is_tool_return :: "msg_part \<Rightarrow> bool" where
  "is_tool_return p = (case p of ToolReturnPart _ _ _ \<Rightarrow> True | _ \<Rightarrow> False)"

definition add_call_part :: "msg_part \<Rightarrow> model_message list \<Rightarrow> model_message list" where
  "add_call_part p history =
     (case rev history of
        ModelResponse ps # before \<Rightarrow>
          if list_ex is_tool_call ps then rev before @ [ModelResponse (ps @ [p])]
          else history @ [ModelResponse [p]]
      | _ \<Rightarrow> history @ [ModelResponse [p]])"

definition add_return_part :: "msg_part \<Rightarrow> model_message list \<Rightarrow> model_message list" where
  "add_return_part p history =
     (case rev history of
        ModelRequest ps # before \<Rightarrow>
          if list_ex is_tool_return ps then rev before @ [ModelRequest (ps @ [p])]
          else history @ [ModelRequest [p]]
      | _ \<Rightarrow> history @ [ModelRequest [p]])"

definition call_id :: "pyval \<Rightarrow> nat \<Rightarrow> pyval" where
  "call_id tool_name n = VStr (''call_'' @ py_str tool_name @ ''_'' @ show_nat n)"

fun drop_pending :: "pyval \<Rightarrow> (pyval \<times> pyval) list \<Rightarrow> (pyval \<times> pyval) list" where
  "drop_pending i [] = []"
| "drop_pending i ((n, j) # ps) = (if py_eq j i then ps else (n, j) # drop_pending i ps)"

definition add_tool_call :: "pydict \<Rightarrow> history_state \<Rightarrow> history_state" where
  "add_tool_call metadata st =
     (let tool_name = dget_or metadata ''tool_name'' (VStr []);
          args = dget_or metadata ''args'' (VDict []);
          tool_call_id = (if truthy (dget metadata ''tool_call_id'') then dget metadata ''tool_call_id''
                          else call_id tool_name (hs_counter st)) in
        st\<lparr>hs_counter := Suc (hs_counter st),
           hs_pending := hs_pending st @ [(tool_name, tool_call_id)],
           hs_history := add_call_part (ToolCallPart tool_name args tool_call_id) (hs_history st)\<rparr>)"

text \<open>The id a result gets, with the counter and the pending calls after it.\<close>

definition result_id :: "pydict \<Rightarrow> history_state \<Rightarrow> pyval \<times> history_state" where
  "result_id metadata st =
     (let explicit = dget metadata ''tool_call_id'' in
        if truthy explicit then (explicit, st\<lparr>hs_pending := drop_pending explicit (hs_pending st)\<rparr>)
        else case hs_pending st of
          (n, i) # later \<Rightarrow> (i, st\<lparr>hs_pending := later\<rparr>)
        | [] \<Rightarrow> (call_id (dget_or metadata ''tool_name'' (VStr [])) (hs_counter st),
                st\<lparr>hs_counter := Suc (hs_counter st)\<rparr>))"

definition add_tool_result :: "pyval \<Rightarrow> pydict \<Rightarrow> history_state \<Rightarrow> history_state" where
  "add_tool_result content metadata st =
     (case result_id metadata st of
        (tool_call_id, st') \<Rightarrow>
          st'\<lparr>hs_history := add_return_part
                (ToolReturnPart (dget_or metadata ''tool_name'' (VStr []))
                   (if is_str content then content else VStr (json_dumps content)) tool_call_id)
                (hs_history st')\<rparr>)"

definition add_message :: "pyval \<Rightarrow> history_state \<Rightarrow> history_state res" where
  "add_message msg st =
     then_do (as_dict msg) (\<lambda>m.
       let role = dget_or m ''role'' (VStr []); content = dget_or m ''content'' (VStr []) in
         if role = VStr ''user''
         then Ok (st\<lparr>hs_history := hs_history st @ [ModelRequest [UserPromptPart content]]\<rparr>)
         else if role = VStr ''assistant''
         then Ok (st\<lparr>hs_history := hs_history st @ [ModelResponse [TextPart content]]\<rparr>)
         else if role = VStr ''tool_call''
         then then_do (as_dict (dget_or m ''metadata'' (VDict []))) (\<lambda>md. Ok (add_tool_call md st))
         else if role = VStr ''tool_result''
         then then_do (as_dict (dget_or m ''metadata'' (VDict []))) (\<lambda>md. Ok (add_tool_result content md st))
         else Ok st)"

fun add_messages :: "pyval list \<Rightarrow> history_state \<Rightarrow> history_state res" where
  "add_messages [] st = Ok st"
| "add_messages (m # ms) st = then_do (add_message m st) (add_messages ms)"

text \<open>\<open>for msg in messages\<close>: iterating a text gives its characters, iterating an object its keys.\<close>

definition iterate :: "pyval \<Rightarrow> pyval list res" where
  "iterate v =
     (case v of
        VList xs \<Rightarrow> Ok xs
      | VStr s \<Rightarrow> Ok (map (\<lambda>c. VStr [c]) s)
      | VDict d \<Rightarrow> Ok (map (VStr \<circ> fst) d)
      | _ \<Rightarrow> Err (TypeError ''object is not iterable''))"

definition turn_messages :: "pyval \<Rightarrow> pyval" where
  "turn_messages turn =
     (case turn of
        VDict d \<Rightarrow> (case dget_or d ''output'' (VDict []) of VDict o' \<Rightarrow> dget o' ''messages'' | _ \<Rightarrow> VNone)
      | _ \<Rightarrow> VNone)"

fun add_turns :: "pyval list \<Rightarrow> history_state \<Rightarrow> history_state res" where
  "add_turns [] st = Ok st"
| "add_turns (turn # turns) st =
     (if \<not> truthy (turn_messages turn) then add_turns turns st
      else then_do (iterate (turn_messages turn)) (\<lambda>ms.
             then_do (add_messages ms st) (add_turns turns)))"

definition no_history :: history_state where
  "no_history = \<lparr>hs_history = [], hs_counter = 0, hs_pending = []\<rparr>"

definition build_message_history :: "pydict \<Rightarrow> model_message list res" where
  "build_message_history context =
     then_do (add_turns (map (dget context) (sort_turns (keys context))) no_history) (\<lambda>st. Ok (hs_history st))"

section \<open>The answer\<close>

definition strip_markdown_fence :: "string \<Rightarrow> string" where
  "strip_markdown_fence content =
     (let t = py_strip content;
          u = drop 3 t;
          body = (if py_lower (take 4 u) = ''json'' then drop 4 u else u) in
        if prefix ''```'' t \<and> suffix ''```'' body then py_strip (take (length body - 3) body) else content)"

definition schema_wanted :: "pydict option \<Rightarrow> bool" where
  "schema_wanted output_schema = (case output_schema of None \<Rightarrow> False | Some d \<Rightarrow> d \<noteq> [])"

definition int_limit_text :: string where
  "int_limit_text = ''Exceeds the limit (4300 digits) for integer string conversion''"

definition parse_output :: "json_lib \<Rightarrow> pyval \<Rightarrow> pydict option \<Rightarrow> pyval res" where
  "parse_output L content output_schema =
     (case content of
        VNone \<Rightarrow>
          if schema_wanted output_schema
          then Err (ValueError ''LLM returned null content but output_schema was requested'')
          else Ok (VDict [(''response'', VNone)])
      | VDict d \<Rightarrow> Ok (VDict d)
      | VStr s \<Rightarrow>
          (case json_loads L (strip_markdown_fence s) of
             Inr v \<Rightarrow> Ok v
           | Inl IntDigitsLimit \<Rightarrow> Err (ValueError int_limit_text)
           | Inl JSONDecodeError \<Rightarrow>
               if schema_wanted output_schema
               then Err (ValueError (''LLM returned non-JSON response but output_schema was requested: '' @ take 200 s))
               else Ok (VDict [(''response'', VStr s)]))
      | _ \<Rightarrow> Ok (VDict [(''response'', VStr (py_str content))]))"

section \<open>The executor\<close>

record 'w host =
  ho_env :: "string dict"
  ho_registry :: registry
  ho_world :: 'w

record model_reply =
  rp_text :: pyval
  rp_input_tokens :: int
  rp_output_tokens :: int

record agent_reply =
  ar_output :: pyval
  ar_input_tokens :: int
  ar_output_tokens :: int
  ar_new_messages :: "model_message list"

text \<open>What an agent is built from and run with; a toolset is a server's address and headers.\<close>

record agent_call =
  ac_model :: string
  ac_instructions :: "string option"
  ac_tools :: "(string \<times> tool_definition) list"
  ac_toolsets :: "(pyval \<times> pyval) list"
  ac_skills :: "skills_capability option"
  ac_prompt :: string
  ac_history :: "model_message list"
  ac_timeout :: int

record model_call =
  mc_model :: string
  mc_instructions :: "string option"
  mc_prompt :: string
  mc_timeout :: int
  mc_native :: "pydict option"

record 'w agent_env =
  ae_json :: json_lib
  ae_skills :: skills_env
  ae_load_tools_module :: "string \<Rightarrow> registry \<Rightarrow> agent_exc + registry"
  ae_model_request :: "model_call \<Rightarrow> 'w \<Rightarrow> (agent_exc + model_reply) \<times> 'w"
  ae_agent_run :: "agent_call \<Rightarrow> 'w \<Rightarrow> (agent_exc + agent_reply) \<times> 'w"
  ae_agent_stream :: "agent_call \<Rightarrow> 'w \<Rightarrow> string list \<times> (agent_exc + agent_reply) \<times> 'w"
  ae_now_iso :: "'w \<Rightarrow> string"
  ae_now_ms :: "'w \<Rightarrow> int"

definition raised :: "'a res \<Rightarrow> agent_exc + 'a" where
  "raised r = (case r of Inl e \<Rightarrow> Inl (Builtin e) | Inr x \<Rightarrow> Inr x)"

text \<open>Sequencing with state: a later computation runs on the state the earlier one left.\<close>

definition and_then :: "('e + 'a) \<times> 'h \<Rightarrow> ('a \<Rightarrow> 'h \<Rightarrow> ('e + 'b) \<times> 'h) \<Rightarrow> ('e + 'b) \<times> 'h" where
  "and_then r f = (case r of (Inl e, h) \<Rightarrow> (Inl e, h) | (Inr x, h) \<Rightarrow> f x h)"

lemma and_then_simps [simp]:
  "and_then (Inl e, h) f = (Inl e, h)" "and_then (Inr x, h) f = f x h"
  by (simp_all add: and_then_def)

definition on_env :: "(string dict \<Rightarrow> string dict res) \<Rightarrow> 'w host \<Rightarrow> (agent_exc + unit) \<times> 'w host" where
  "on_env f h = (case f (ho_env h) of
     Inl e \<Rightarrow> (Inl (Builtin e), h) | Inr env \<Rightarrow> (Inr (), h\<lparr>ho_env := env\<rparr>))"

definition load_tools :: "'w agent_env \<Rightarrow> string option \<Rightarrow> 'w host \<Rightarrow> (agent_exc + unit) \<times> 'w host" where
  "load_tools ae module h =
     (case module of
        None \<Rightarrow> (Inr (), h)
      | Some m \<Rightarrow> if m = [] then (Inr (), h)
                  else (case ae_load_tools_module ae m (ho_registry h) of
                          Inl e \<Rightarrow> (Inl e, h)
                        | Inr reg \<Rightarrow> (Inr (), h\<lparr>ho_registry := reg\<rparr>)))"

definition request :: "'w agent_env \<Rightarrow> model_call \<Rightarrow> 'w host \<Rightarrow> (agent_exc + model_reply) \<times> 'w host" where
  "request ae c h = (case ae_model_request ae c (ho_world h) of (r, w) \<Rightarrow> (r, h\<lparr>ho_world := w\<rparr>))"

text \<open>A refusal of the native mode that leads to the plain request; any other exception goes on.\<close>

definition falls_back :: "agent_exc \<Rightarrow> bool" where
  "falls_back exc = (case exc of UserError _ \<Rightarrow> True | ModelHTTPError code _ \<Rightarrow> code = 400 | _ \<Rightarrow> False)"

definition model_or_fallback ::
  "'w agent_env \<Rightarrow> model_call \<Rightarrow> pydict option \<Rightarrow> 'w host \<Rightarrow> (agent_exc + model_reply) \<times> 'w host" where
  "model_or_fallback ae c output_schema h =
     (case output_schema of
        Some d \<Rightarrow>
          if d \<noteq> [] \<and> supports_native_output d
          then (case request ae (c\<lparr>mc_native := Some d\<rparr>) h of
                  (Inl exc, h1) \<Rightarrow> if falls_back exc then request ae c h1 else (Inl exc, h1)
                | (Inr reply, h1) \<Rightarrow> (Inr reply, h1))
          else request ae c h
      | None \<Rightarrow> request ae c h)"

definition call_llm ::
  "'w agent_env \<Rightarrow> pydict \<Rightarrow> (string \<times> string) list \<Rightarrow> int \<Rightarrow> pydict option \<Rightarrow> 'w host
   \<Rightarrow> (agent_exc + model_reply) \<times> 'w host" where
  "call_llm ae provider messages timeout_seconds output_schema h =
     and_then (on_env (ensure_credentials_env provider) h) (\<lambda>_ h1.
     and_then (raised (to_model_string provider), h1) (\<lambda>model h2.
       let system_parts = map snd (filter (\<lambda>m. fst m = ''system'') messages);
           user_parts = map snd (filter (\<lambda>m. fst m = ''user'') messages) in
         model_or_fallback ae
           \<lparr>mc_model = model, mc_instructions = (case system_parts of [] \<Rightarrow> None | p # _ \<Rightarrow> Some p),
            mc_prompt = py_join [newline, newline] user_parts, mc_timeout = timeout_seconds,
            mc_native = None\<rparr> output_schema h2))"

definition run_model_request ::
  "'w agent_env \<Rightarrow> exec_input \<Rightarrow> int \<Rightarrow> 'w host \<Rightarrow> (agent_exc + exec_output) \<times> 'w host" where
  "run_model_request ae step_input start_ms h =
     and_then (call_llm ae (ei_provider step_input) (build_messages step_input) (ei_timeout_seconds step_input)
                 (ei_output_schema step_input) h) (\<lambda>reply h1.
     and_then (raised (parse_output (ae_json ae) (rp_text reply) (ei_output_schema step_input)), h1) (\<lambda>output h2.
       (Inr ((StepResult ''completed'')\<lparr>eo_output := output,
           eo_transcript := [result_transcript_event (ae_now_iso ae (ho_world h2)) (output_text_of (rp_text reply))
                               (rp_input_tokens reply) (rp_output_tokens reply)],
           eo_input_tokens := rp_input_tokens reply, eo_output_tokens := rp_output_tokens reply,
           eo_duration_ms := ae_now_ms ae (ho_world h2) - start_ms\<rparr>), h2)))"

definition toolsets :: "pydict list option \<Rightarrow> (pyval \<times> pyval) list" where
  "toolsets mcp_servers =
     map (\<lambda>server. (dget_or server ''url'' (VStr []), dget server ''headers''))
       (case mcp_servers of None \<Rightarrow> [] | Some ss \<Rightarrow> ss)"

text \<open>Preparation shared by the agent run and the agent stream.\<close>

definition prepare_agent :: "'w agent_env \<Rightarrow> exec_input \<Rightarrow> 'w host \<Rightarrow> (agent_exc + agent_call) \<times> 'w host" where
  "prepare_agent ae step_input h =
     and_then (load_tools ae (ei_tools_module step_input) h) (\<lambda>_ h1.
     and_then (on_env (ensure_credentials_env (ei_provider step_input)) h1) (\<lambda>_ h2.
     and_then (raised (to_model_string (ei_provider step_input)), h2) (\<lambda>model h3.
     and_then (raised (get_tools (ho_registry h3) (ei_tools step_input)), h3) (\<lambda>tools h4.
     and_then (raised (build_message_history (ei_context step_input)), h4) (\<lambda>history h5.
       (Inr \<lparr>ac_model = model, ac_instructions = ei_system_prompt step_input, ac_tools = tools,
             ac_toolsets = toolsets (ei_mcp_servers step_input), ac_skills = step_skills (ae_skills ae) step_input,
             ac_prompt = (if history \<noteq> []
                          then ei_prompt step_input @ schema_block direct_request (ei_output_schema step_input)
                          else build_user_prompt step_input),
             ac_history = history, ac_timeout = ei_timeout_seconds step_input\<rparr>, h5))))))"

definition agent_result ::
  "'w agent_env \<Rightarrow> exec_input \<Rightarrow> int \<Rightarrow> agent_reply \<Rightarrow> 'w host \<Rightarrow> (agent_exc + exec_output) \<times> 'w host" where
  "agent_result ae step_input start_ms reply h =
     and_then (raised (parse_output (ae_json ae) (ar_output reply) (ei_output_schema step_input)), h) (\<lambda>output h1.
       (Inr ((StepResult ''completed'')\<lparr>eo_output := output,
           eo_transcript := transcript_events_from_messages (ae_now_iso ae (ho_world h1)) (ar_new_messages reply)
                              (output_text_of (ar_output reply)) (ar_input_tokens reply) (ar_output_tokens reply),
           eo_input_tokens := ar_input_tokens reply, eo_output_tokens := ar_output_tokens reply,
           eo_duration_ms := ae_now_ms ae (ho_world h1) - start_ms\<rparr>), h1))"

definition run_with_agent ::
  "'w agent_env \<Rightarrow> exec_input \<Rightarrow> int \<Rightarrow> 'w host \<Rightarrow> (agent_exc + exec_output) \<times> 'w host" where
  "run_with_agent ae step_input start_ms h =
     and_then (prepare_agent ae step_input h) (\<lambda>call h1.
     and_then (case ae_agent_run ae call (ho_world h1) of (r, w) \<Rightarrow> (r, h1\<lparr>ho_world := w\<rparr>)) (\<lambda>reply h2.
       agent_result ae step_input start_ms reply h2))"

definition needs_agent :: "'w agent_env \<Rightarrow> exec_input \<Rightarrow> bool" where
  "needs_agent ae step_input =
     (ei_tools step_input \<noteq> [] \<or> ei_mcp_servers step_input \<notin> {None, Some []}
      \<or> step_skills (ae_skills ae) step_input \<noteq> None \<or> has_conversation_context (ei_context step_input))"

definition failed_result :: "'w agent_env \<Rightarrow> int \<Rightarrow> string \<Rightarrow> 'w host \<Rightarrow> exec_output" where
  "failed_result ae start_ms message h =
     (StepResult ''failed'')\<lparr>eo_error := Some message,
        eo_transcript := [error_transcript_event (ae_now_iso ae (ho_world h)) message],
        eo_duration_ms := ae_now_ms ae (ho_world h) - start_ms\<rparr>"

definition direct_run :: "'w agent_env \<Rightarrow> exec_input \<Rightarrow> 'w host \<Rightarrow> exec_output \<times> 'w host" where
  "direct_run ae step_input h =
     (let start_ms = ae_now_ms ae (ho_world h) in
        case (if needs_agent ae step_input then run_with_agent ae step_input start_ms h
              else run_model_request ae step_input start_ms h) of
          (Inr result, h1) \<Rightarrow> (result, h1)
        | (Inl exc, h1) \<Rightarrow> (failed_result ae start_ms (agent_exc_str exc) h1, h1))"

definition direct_run_stream :: "'w agent_env \<Rightarrow> exec_input \<Rightarrow> 'w host \<Rightarrow> stream_event list \<times> 'w host" where
  "direct_run_stream ae step_input h =
     (if \<not> needs_agent ae step_input
      then default_run_stream (\<lambda>si h. case direct_run ae si h of (r, h') \<Rightarrow> (Inr r, h')) step_input h
      else
        let start_ms = ae_now_ms ae (ho_world h);
            failed = (\<lambda>exc h1. \<lparr>se_type = StreamError, se_data = [(''error'', VStr (agent_exc_str exc))],
                        se_result = Some (failed_result ae start_ms (agent_exc_str exc) h1)\<rparr>) in
          case prepare_agent ae step_input h of
            (Inl exc, h1) \<Rightarrow> ([failed exc h1], h1)
          | (Inr call, h1) \<Rightarrow>
              (case ae_agent_stream ae call (ho_world h1) of
                 (deltas, reply, w) \<Rightarrow>
                   let h2 = h1\<lparr>ho_world := w\<rparr>;
                       tokens = map (\<lambda>d. \<lparr>se_type = Token, se_data = [(''delta'', VStr d)], se_result = None\<rparr>) deltas in
                     (case and_then (reply, h2) (agent_result ae step_input start_ms) of
                        (Inl exc, h3) \<Rightarrow> (tokens @ [failed exc h3], h3)
                      | (Inr result, h3) \<Rightarrow>
                          (tokens @ [\<lparr>se_type = Complete, se_data = [], se_result = Some result\<rparr>], h3))))"

text \<open>
  A departure: the history is rebuilt from every output with an entry \<open>messages\<close>, but only
  \<open>has_conversation_context\<close> tests that the entry is a list. An earlier step whose output has a text
  there makes a step with tools fail.
\<close>

lemma text_messages_break_history:
  "\<not> has_conversation_context [(''gather'', VDict [(''output'', VDict [(''messages'', VStr ''3 new'')])])]
   \<and> \<not> is_ok (build_message_history [(''gather'', VDict [(''output'', VDict [(''messages'', VStr ''3 new'')])])])"
  by code_simp

end
