(* ===== verification/Chat.thy ===== *)
theory Chat
  imports LocalRunner Middleware DirectStep
begin

text \<open>
  The chat runner of \<open>executor/chat/runner.py\<close> and its routes (\<open>executor/chat/api.py\<close>): a conversation
  is a run whose steps are turns. Its state is the run-state store and the transcript store; a
  message is handled under the lock of its conversation, so it is one operation here. The executors
  with the world they run in, the custom middlewares, the clock and the third-party functions are
  fields of \<open>chat_env\<close>; the executor is chosen by the dispatch of the local runner.
\<close>

section \<open>State\<close>

record chat_config =
  cc_provider :: pydict
  cc_system_prompt :: "string option"
  cc_tools :: "string list"
  cc_tools_module :: "string option"
  cc_mcp_servers :: "pydict list option"
  cc_allowed_skills :: "string list option"
  cc_max_context_turns :: nat
  cc_timeout_seconds :: int
  cc_spawn :: string

record chat_runner =
  cr_runs :: run_state_store
  cr_transcripts :: transcript_store

datatype chat_exc = PyExc pyexc | AgentExc agent_exc

record 'w chat_env =
  ce_config :: chat_config
  ce_validate :: "ptype \<Rightarrow> pyval \<Rightarrow> pyval res"
  ce_json :: json_lib
  ce_spawner :: bool
  ce_execute :: "step_executor \<Rightarrow> exec_input \<Rightarrow> 'w \<Rightarrow> (agent_exc + exec_output) \<times> 'w"
  ce_execute_stream :: "step_executor \<Rightarrow> exec_input \<Rightarrow> 'w \<Rightarrow> stream_event list \<times> agent_exc option \<times> 'w"
  ce_middlewares :: "'w middleware list"
  ce_trace_id :: "'w \<Rightarrow> string option"
  ce_now :: "'w \<Rightarrow> instant"
  ce_stamp :: "'w \<Rightarrow> nat \<Rightarrow> string"
  ce_fromisoformat :: "string \<Rightarrow> string res"

definition max_tool_input_length :: nat where
  "max_tool_input_length = 2000"

section \<open>Starting a conversation\<close>

definition chat_start :: "'w chat_env \<Rightarrow> string \<Rightarrow> pydict \<Rightarrow> chat_runner \<Rightarrow> 'w \<Rightarrow> string res \<times> chat_runner" where
  "chat_start env uuid input cr w =
     (let given = dget input ''workflow_id'';
          workflow_id = (if truthy given then py_str given else ''chat-'' @ take 12 uuid) in
        case create (ce_now env w) workflow_id ''chat'' [] (cc_provider (ce_config env)) []
               (opt_str (dget input ''user_id'')) (opt_str (dget input ''session_id'')) None (cr_runs cr) of
          Inl e \<Rightarrow> (Err e, cr)
        | Inr s \<Rightarrow> (Ok workflow_id, cr\<lparr>cr_runs := s\<rparr>))"

section \<open>Before a turn\<close>

definition terminal_error :: "string \<Rightarrow> string \<Rightarrow> pyexc" where
  "terminal_error workflow_id status =
     RuntimeError (''Conversation '' @ [sq] @ workflow_id @ [sq] @ '' is '' @ status @ '' -- cannot send messages'')"

definition check_not_terminal :: "string \<Rightarrow> chat_runner \<Rightarrow> unit res" where
  "check_not_terminal workflow_id cr =
     then_do (get workflow_id (cr_runs cr)) (\<lambda>state.
       case state of
         None \<Rightarrow> Ok ()
       | Some r \<Rightarrow> if rr_status r \<in> set terminal_statuses then Err (terminal_error workflow_id (rr_status r))
                   else Ok ())"

definition next_turn_number :: "(string \<times> pydict list) list \<Rightarrow> int" where
  "next_turn_number prior_turns =
     fold (\<lambda>(name, _) max_num.
       case turn_number name of None \<Rightarrow> max_num | Some num \<Rightarrow> if num > max_num then num else max_num)
       prior_turns (-1) + 1"

definition turn_name :: "int \<Rightarrow> string" where
  "turn_name n = ''turn-'' @ show_int n"

definition turn_value :: "pydict list \<Rightarrow> pyval" where
  "turn_value messages = VDict [(''status'', VStr ''completed''),
     (''output'', VDict [(''messages'', VList (map VDict messages))])]"

definition build_context :: "(string \<times> pydict list) list \<Rightarrow> pydict" where
  "build_context prior_turns =
     fold (\<lambda>(name, messages) context.
       if messages = [] then context else dict_set name (turn_value messages) context)
       prior_turns []"

definition build_chat_step_input ::
  "chat_config \<Rightarrow> string \<Rightarrow> string \<Rightarrow> string \<Rightarrow> pydict \<Rightarrow> string option \<Rightarrow> string option \<Rightarrow> exec_input" where
  "build_chat_step_input config prompt workflow_id name context user_id session_id =
     (StepInput prompt (cc_provider config))
       \<lparr>ei_system_prompt := cc_system_prompt config, ei_tools := cc_tools config,
        ei_tools_module := cc_tools_module config, ei_mcp_servers := cc_mcp_servers config,
        ei_allowed_skills := cc_allowed_skills config, ei_context := context,
        ei_timeout_seconds := cc_timeout_seconds config, ei_workflow_id := workflow_id,
        ei_step_name := name, ei_output_key := name,
        ei_metadata := Some (StepMetadata\<lparr>em_user_id := user_id, em_session_id := session_id,
                              em_conversation_id := Some workflow_id\<rparr>)\<rparr>"

section \<open>After a turn\<close>

definition extract_assistant_text :: "pyval \<Rightarrow> string" where
  "extract_assistant_text output =
     (case output of
        VNone \<Rightarrow> []
      | VDict d \<Rightarrow>
          (case map_of d ''response'' of
             None \<Rightarrow> json_dumps output
           | Some VNone \<Rightarrow> []
           | Some (VStr s) \<Rightarrow> s
           | Some v \<Rightarrow> json_dumps v)
      | VStr s \<Rightarrow> s
      | _ \<Rightarrow> json_dumps output)"

text \<open>The arguments of a tool call, if its audit record still holds them; no value if they are unsafe.\<close>

definition tool_args :: "json_lib \<Rightarrow> pyval \<Rightarrow> pydict option res" where
  "tool_args L input =
     (case input of
        VStr s \<Rightarrow>
          if max_tool_input_length \<le> length s then Ok None
          else (case json_loads L s of
                  Inr (VDict d) \<Rightarrow> Ok (Some d)
                | Inr _ \<Rightarrow> Ok None
                | Inl JSONDecodeError \<Rightarrow> Ok None
                | Inl IntDigitsLimit \<Rightarrow> Err (ValueError int_limit_text))
      | VDict d \<Rightarrow> Ok (Some d)
      | _ \<Rightarrow> Ok None)"

definition chat_message :: "(nat \<Rightarrow> string) \<Rightarrow> nat \<Rightarrow> string \<Rightarrow> string \<Rightarrow> pydict \<Rightarrow> pydict" where
  "chat_message stamp i role content metadata =
     message_to_dict \<lparr>cm_role = role, cm_content = content, cm_timestamp = stamp i, cm_metadata = metadata\<rparr>"

definition event_data :: "pydict \<Rightarrow> pydict" where
  "event_data ev = (case dget ev ''data'' of VDict d \<Rightarrow> d | _ \<Rightarrow> [])"

text \<open>
  One event of the transcript: calls wait, by name, for their results; a call that was left out
  waits without a name, and its result is left out too.
\<close>

definition note_event ::
  "json_lib \<Rightarrow> (nat \<Rightarrow> string) \<Rightarrow> pydict \<Rightarrow> pyval list \<times> pydict list \<Rightarrow> (pyval list \<times> pydict list) res" where
  "note_event L stamp ev st =
     (case st of (pending, messages) \<Rightarrow>
        let event_type = dget_or ev ''type'' (VStr []); data = event_data ev in
          if event_type = VStr ''tool_call''
          then then_do (tool_args L (dget_or data ''input'' (VStr []))) (\<lambda>args.
                 case args of
                   None \<Rightarrow> Ok (pending @ [VNone], messages)
                 | Some d \<Rightarrow>
                     let name = dget_or data ''name'' (VStr []) in
                       Ok (pending @ [name],
                           messages @ [chat_message stamp (length messages) ''tool_call'' []
                                         [(''tool_name'', name), (''args'', VDict d)]]))
          else if event_type = VStr ''tool_result''
          then (case pending of
                  [] \<Rightarrow> Ok (pending, messages)
                | paired_name # rest \<Rightarrow>
                    if paired_name = VNone then Ok (rest, messages)
                    else
                      let out = dget_or data ''output'' (VStr []) in
                        Ok (rest, messages @ [chat_message stamp (length messages) ''tool_result''
                              (if is_dict out \<or> is_list out then json_dumps out else py_str out)
                              [(''tool_name'', paired_name)]]))
          else Ok (pending, messages))"

fun note_events ::
  "json_lib \<Rightarrow> (nat \<Rightarrow> string) \<Rightarrow> pydict list \<Rightarrow> pyval list \<times> pydict list \<Rightarrow> (pyval list \<times> pydict list) res" where
  "note_events L stamp [] st = Ok st"
| "note_events L stamp (e # es) st = then_do (note_event L stamp e st) (note_events L stamp es)"

definition turn_log :: "json_lib \<Rightarrow> (nat \<Rightarrow> string) \<Rightarrow> string \<Rightarrow> exec_output \<Rightarrow> pydict list res" where
  "turn_log L stamp prompt result =
     then_do (note_events L stamp (eo_transcript result) ([], [chat_message stamp 0 ''user'' prompt []]))
       (\<lambda>(pending, messages).
          Ok (if eo_output result = VNone then messages
              else messages @ [chat_message stamp (length messages) ''assistant''
                                 (extract_assistant_text (eo_output result)) []]))"

text \<open>The two stores are written one after the other; a failure of the second leaves the first written.\<close>

definition save_turn ::
  "'w chat_env \<Rightarrow> string \<Rightarrow> string \<Rightarrow> string \<Rightarrow> exec_output \<Rightarrow> chat_runner \<Rightarrow> 'w \<Rightarrow> unit res \<times> chat_runner" where
  "save_turn env workflow_id name prompt result cr w =
     (case then_do (turn_log (ce_json env) (ce_stamp env w) prompt result) (\<lambda>messages.
           then_do (normalize_transcript_events (ce_validate env) (Some (eo_transcript result))) (\<lambda>events.
             save_transcript (ce_now env w) workflow_id name (transcript_of_result name events result) None
               (Some messages) (cr_transcripts cr))) of
        Inl e \<Rightarrow> (Err e, cr)
      | Inr ts \<Rightarrow>
          let cr1 = cr\<lparr>cr_transcripts := ts\<rparr> in
            (case update_step (ce_now env w) workflow_id name (VStr (eo_status result)) (eo_output result)
                    (case eo_error result of None \<Rightarrow> VNone | Some t \<Rightarrow> VStr t) (cr_runs cr1) of
               Inl e \<Rightarrow> (Err e, cr1)
             | Inr s \<Rightarrow> (Ok (), cr1\<lparr>cr_runs := s\<rparr>)))"

section \<open>A turn\<close>

text \<open>What both ways of sending a message do before they execute: checks, context, name, input, executor.\<close>

definition prepare_turn ::
  "'w chat_env \<Rightarrow> string \<Rightarrow> string \<Rightarrow> chat_runner \<Rightarrow> (string \<times> exec_input \<times> step_executor) res" where
  "prepare_turn env workflow_id prompt cr =
     then_do (check_not_terminal workflow_id cr) (\<lambda>_.
     then_do (load_recent_turns workflow_id (cc_max_context_turns (ce_config env)) (cr_transcripts cr)) (\<lambda>prior_turns.
       let name = turn_name (next_turn_number prior_turns) in
       then_do (get workflow_id (cr_runs cr)) (\<lambda>state.
         let step_input = build_chat_step_input (ce_config env) prompt workflow_id name (build_context prior_turns)
               (case state of None \<Rightarrow> None | Some r \<Rightarrow> rr_user_id r)
               (case state of None \<Rightarrow> None | Some r \<Rightarrow> rr_session_id r) in
         then_do (get_step_executor [(''spawn'', VStr (cc_spawn (ce_config env))), (''name'', VStr name)] (ce_spawner env))
           (\<lambda>executor. Ok (name, step_input, executor)))))"

definition stack :: "'w chat_env \<Rightarrow> 'w middleware list" where
  "stack env = ce_middlewares env @ [TracingMiddleware (ce_trace_id env)]"

definition send_message ::
  "'w chat_env \<Rightarrow> string \<Rightarrow> string \<Rightarrow> chat_runner \<Rightarrow> 'w \<Rightarrow> (chat_exc + exec_output) \<times> chat_runner \<times> 'w" where
  "send_message env workflow_id prompt cr w =
     (case prepare_turn env workflow_id prompt cr of
        Inl e \<Rightarrow> (Inl (PyExc e), cr, w)
      | Inr (name, step_input, executor) \<Rightarrow>
          (case run_no_span (ce_execute env executor) (stack env) step_input w of
             (Inl exc, w1) \<Rightarrow> (Inl (AgentExc exc), cr, w1)
           | (Inr result, w1) \<Rightarrow>
               (case save_turn env workflow_id name prompt result cr w1 of
                  (Inl e, cr1) \<Rightarrow> (Inl (PyExc e), cr1, w1)
                | (Inr _, cr1) \<Rightarrow> (Inr result, cr1, w1))))"

text \<open>
  The streaming turn, consumed to its end: the events, then what it raises, if anything. An
  exception of the stream becomes a final error event; a turn without a result is not saved.
\<close>

definition stream_failure :: "agent_exc \<Rightarrow> stream_event" where
  "stream_failure exc = \<lparr>se_type = StreamError, se_data = [(''error'', VStr (agent_exc_str exc))],
     se_result = Some ((StepResult ''failed'')\<lparr>eo_error := Some (agent_exc_str exc)\<rparr>)\<rparr>"

definition send_message_stream ::
  "'w chat_env \<Rightarrow> string \<Rightarrow> string \<Rightarrow> chat_runner \<Rightarrow> 'w \<Rightarrow> stream_event list \<times> chat_exc option \<times> chat_runner \<times> 'w" where
  "send_message_stream env workflow_id prompt cr w =
     (case prepare_turn env workflow_id prompt cr of
        Inl e \<Rightarrow> ([], Some (PyExc e), cr, w)
      | Inr (name, step_input, executor) \<Rightarrow>
          (case run_stream_no_span (ce_execute_stream env executor) (stack env) step_input w of
             (events, exc, w1) \<Rightarrow>
               let shown = events @ (case exc of None \<Rightarrow> [] | Some e \<Rightarrow> [stream_failure e]) in
                 (case final_result shown of
                    None \<Rightarrow> (shown, None, cr, w1)
                  | Some result \<Rightarrow>
                      (case save_turn env workflow_id name prompt result cr w1 of
                         (Inl e, cr1) \<Rightarrow> (shown, Some (PyExc e), cr1, w1)
                       | (Inr _, cr1) \<Rightarrow> (shown, None, cr1, w1)))))"

section \<open>Queries and cancellation\<close>

definition get_history ::
  "'w chat_env \<Rightarrow> string \<Rightarrow> nat \<Rightarrow> chat_runner \<Rightarrow> 'w \<Rightarrow> conversation_message list res" where
  "get_history env workflow_id limit cr w =
     then_do (get workflow_id (cr_runs cr)) (\<lambda>state.
     then_do (load_recent_turns workflow_id limit (cr_transcripts cr)) (\<lambda>turns.
       if state = None \<and> turns = []
       then Err (KeyError (''Conversation '' @ [sq] @ workflow_id @ [sq] @ '' not found''))
       else map_res (message_from_dict (ce_fromisoformat env) (in_iso (ce_now env w))) (concat (map snd turns))))"

definition chat_approve :: "unit res" where
  "chat_approve = Err (NotImplementedError ''ChatWorkflowRunner does not support approval gates'')"

definition chat_row :: "string \<Rightarrow> chat_runner \<Rightarrow> run_row res" where
  "chat_row workflow_id cr =
     then_do (get workflow_id (cr_runs cr)) (\<lambda>row.
       case row of None \<Rightarrow> Err (not_found workflow_id) | Some r \<Rightarrow> Ok r)"

definition chat_cancel :: "instant \<Rightarrow> string \<Rightarrow> chat_runner \<Rightarrow> chat_runner res" where
  "chat_cancel now workflow_id cr =
     then_do (chat_row workflow_id cr) (\<lambda>_.
     then_do (mark_terminal now workflow_id ''cancelled'' (cr_runs cr)) (\<lambda>s. Ok (cr\<lparr>cr_runs := s\<rparr>)))"

definition chat_status :: "string \<Rightarrow> chat_runner \<Rightarrow> workflow_status res" where
  "chat_status workflow_id cr =
     then_do (chat_row workflow_id cr) (\<lambda>r.
       Ok \<lparr>st_workflow_id = workflow_id, st_status = rr_status r, st_steps = rr_steps r,
           workflow_status.st_events = rr_events r, st_is_terminal = (rr_status r \<in> set terminal_statuses)\<rparr>)"

definition chat_authz_context :: "string \<Rightarrow> chat_runner \<Rightarrow> pydict res" where
  "chat_authz_context workflow_id cr = then_do (chat_row workflow_id cr) (\<lambda>r. Ok (rr_authz_context r))"

definition chat_workflow_context :: "string \<Rightarrow> chat_runner \<Rightarrow> pydict res" where
  "chat_workflow_context workflow_id cr = then_do (chat_row workflow_id cr) (\<lambda>r. Ok (rr_workflow_context r))"

definition chat_is_terminal :: "string \<Rightarrow> chat_runner \<Rightarrow> bool res" where
  "chat_is_terminal workflow_id cr = then_do (chat_row workflow_id cr) (\<lambda>r. Ok (rr_status r \<in> set terminal_statuses))"

fun collect_transcripts ::
  "(ptype \<Rightarrow> pyval \<Rightarrow> pyval res) \<Rightarrow> string \<Rightarrow> string list \<Rightarrow> transcript_store \<Rightarrow> step_transcript dict \<Rightarrow> step_transcript dict res" where
  "collect_transcripts validate workflow_id [] s acc = Ok acc"
| "collect_transcripts validate workflow_id (name # names) s acc =
     then_do (get_transcript validate workflow_id name s) (\<lambda>t.
       collect_transcripts validate workflow_id names s (case t of None \<Rightarrow> acc | Some x \<Rightarrow> dict_set name x acc))"

definition get_step_transcripts :: "'w chat_env \<Rightarrow> string \<Rightarrow> chat_runner \<Rightarrow> step_transcript dict res" where
  "get_step_transcripts env workflow_id cr =
     then_do (list_steps workflow_id (cr_transcripts cr)) (\<lambda>names.
       collect_transcripts (ce_validate env) workflow_id names (cr_transcripts cr) [])"

section \<open>The routes (chat/api.py)\<close>

text \<open>An answer is a status code and a body; an exception no route handles is the server's 500.\<close>

type_synonym http_answer = "nat \<times> pydict"

definition server_error :: http_answer where
  "server_error = (500, [])"

definition create_conversation :: "'w chat_env \<Rightarrow> string \<Rightarrow> pydict \<Rightarrow> chat_runner \<Rightarrow> 'w \<Rightarrow> http_answer \<times> chat_runner" where
  "create_conversation env uuid body cr w =
     (case chat_start env uuid body cr w of
        (Inl e, cr1) \<Rightarrow> (server_error, cr1)
      | (Inr conv_id, cr1) \<Rightarrow> ((200, [(''conversation_id'', VStr conv_id)]), cr1))"

fun py_answer :: "pyexc \<Rightarrow> http_answer" where
  "py_answer (KeyError k) = (404, [(''error'', VStr (repr_str k))])"
| "py_answer (RuntimeError m) = (409, [(''error'', VStr m)])"
| "py_answer (NotImplementedError m) = (409, [(''error'', VStr m)])"
| "py_answer _ = server_error"

fun error_answer :: "chat_exc \<Rightarrow> http_answer" where
  "error_answer (PyExc e) = py_answer e"
| "error_answer (AgentExc (Builtin e)) = py_answer e"
| "error_answer (AgentExc (UserError m)) = (409, [(''error'', VStr m)])"
| "error_answer (AgentExc (ModelHTTPError _ m)) = (409, [(''error'', VStr m)])"
| "error_answer (AgentExc (OtherError m)) = server_error"

definition post_message ::
  "'w chat_env \<Rightarrow> string \<Rightarrow> string option \<Rightarrow> chat_runner \<Rightarrow> 'w \<Rightarrow> http_answer \<times> chat_runner \<times> 'w" where
  "post_message env conversation_id prompt cr w =
     (if prompt \<in> {None, Some []} then ((400, [(''error'', VStr ''prompt is required'')]), cr, w)
      else
        case send_message env conversation_id (the prompt) cr w of
          (Inl exc, cr1, w1) \<Rightarrow> (error_answer exc, cr1, w1)
        | (Inr result, cr1, w1) \<Rightarrow>
            ((200, [(''status'', VStr (eo_status result)), (''output'', eo_output result),
                    (''error'', case eo_error result of None \<Rightarrow> VNone | Some t \<Rightarrow> VStr t)]), cr1, w1))"

definition history_route :: "'w chat_env \<Rightarrow> string \<Rightarrow> nat \<Rightarrow> chat_runner \<Rightarrow> 'w \<Rightarrow> http_answer" where
  "history_route env conversation_id limit cr w =
     (case get_history env conversation_id limit cr w of
        Inl (KeyError k) \<Rightarrow> (404, [(''error'', VStr (repr_str k))])
      | Inl _ \<Rightarrow> server_error
      | Inr messages \<Rightarrow> (200, [(''messages'', VList (map (VDict \<circ> message_to_dict) messages))]))"

end
