(* ===== verification/ChatHistory.thy ===== *)
theory ChatHistory
  imports Chat
begin

text \<open>
  What a conversation becomes when the next turn replays it: the messages the chat runner stores for
  a turn and the history the direct executor rebuilds from them. A provider rejects a history in
  which a tool result names no call, so the point is that every result of a rebuilt history answers
  exactly one earlier call.
\<close>

section \<open>Histories whose results answer their calls\<close>

text \<open>
  Reading the parts of a history in order: the calls that still wait and all ids used so far. A call
  needs a new id, a result the id of a waiting call.
\<close>

fun pair_step :: "pyval list \<times> pyval list \<Rightarrow> msg_part \<Rightarrow> (pyval list \<times> pyval list) option" where
  "pair_step (waiting, seen) (ToolCallPart _ _ i) = (if i \<in> set seen then None else Some (waiting @ [i], i # seen))"
| "pair_step (waiting, seen) (ToolReturnPart _ _ i) = (if i \<in> set waiting then Some (remove1 i waiting, seen) else None)"
| "pair_step st _ = Some st"

fun check_parts :: "pyval list \<times> pyval list \<Rightarrow> msg_part list \<Rightarrow> (pyval list \<times> pyval list) option" where
  "check_parts st [] = Some st"
| "check_parts st (p # ps) = (case pair_step st p of None \<Rightarrow> None | Some st' \<Rightarrow> check_parts st' ps)"

definition all_parts :: "model_message list \<Rightarrow> msg_part list" where
  "all_parts history = concat (map parts_of history)"

definition ids_paired :: "model_message list \<Rightarrow> bool" where
  "ids_paired history = (check_parts ([], []) (all_parts history) \<noteq> None)"

lemma check_snoc: "check_parts st (ps @ [p]) = Option.bind (check_parts st ps) (\<lambda>s. pair_step s p)"
  by (induction ps arbitrary: st) (auto split: option.splits)

lemma all_parts_append [simp]: "all_parts (h @ h') = all_parts h @ all_parts h'"
  by (simp add: all_parts_def)

lemma all_parts_list [simp]: "all_parts [] = []" "all_parts (m # h) = parts_of m @ all_parts h"
  by (simp_all add: all_parts_def)

lemma rev_eq_snoc: "rev h = m # before \<Longrightarrow> h = rev before @ [m]"
  by (simp add: rev_swap)

lemma all_parts_add_call [simp]: "all_parts (add_call_part p h) = all_parts h @ [p]"
proof (cases "rev h")
  case (Cons m before)
  then show ?thesis using rev_eq_snoc [OF Cons] by (cases m) (auto simp: add_call_part_def)
qed (simp add: add_call_part_def)

lemma all_parts_add_return [simp]: "all_parts (add_return_part p h) = all_parts h @ [p]"
proof (cases "rev h")
  case (Cons m before)
  then show ?thesis using rev_eq_snoc [OF Cons] by (cases m) (auto simp: add_return_part_def)
qed (simp add: add_return_part_def)

section \<open>Synthesised ids are new\<close>

lemma underscore_digits: "CHR ''_'' \<notin> set (show_nat n)"
  using show_nat_digits [of n] by (auto simp: list_all_iff py_digit_def code_of_def)

lemma last_group: "takeWhile (\<lambda>c. c \<noteq> CHR ''_'') (rev (s @ ''_'' @ show_nat n)) = rev (show_nat n)"
  using underscore_digits [of n] by (simp add: takeWhile_append)

lemma call_id_inj: "call_id a n = call_id b m \<Longrightarrow> n = m"
proof -
  assume "call_id a n = call_id b m"
  then have "(''call_'' @ py_str a) @ ''_'' @ show_nat n = (''call_'' @ py_str b) @ ''_'' @ show_nat m"
    by (simp add: call_id_def)
  then have "rev (show_nat n) = rev (show_nat m)" using last_group by metis
  then have "read_nat (show_nat n) = read_nat (show_nat m)" by simp
  then show ?thesis by simp
qed

section \<open>The invariant of the rebuild\<close>

definition history_inv :: "history_state \<Rightarrow> bool" where
  "history_inv st =
     (\<exists>seen. check_parts ([], []) (all_parts (hs_history st)) = Some (map snd (hs_pending st), seen)
        \<and> (\<forall>i\<in>set seen. \<exists>name n. i = call_id name n \<and> n < hs_counter st))"

lemma inv_no_history [simp]: "history_inv no_history"
  by (simp add: history_inv_def no_history_def all_parts_def)

lemma inv_ids_paired: "history_inv st \<Longrightarrow> ids_paired (hs_history st)"
  by (auto simp: history_inv_def ids_paired_def)

lemma inv_call:
  assumes "history_inv st" and "\<not> truthy (dget md ''tool_call_id'')"
  shows "history_inv (add_tool_call md st)"
    and "hs_pending (add_tool_call md st) =
      hs_pending st @ [(dget_or md ''tool_name'' (VStr []), call_id (dget_or md ''tool_name'' (VStr [])) (hs_counter st))]"
proof -
  let ?n = "dget_or md ''tool_name'' (VStr [])"
  obtain seen where seen: "check_parts ([], []) (all_parts (hs_history st)) = Some (map snd (hs_pending st), seen)"
    and used: "\<forall>i\<in>set seen. \<exists>name n. i = call_id name n \<and> n < hs_counter st"
    using assms(1) by (auto simp: history_inv_def)
  have "call_id ?n (hs_counter st) \<notin> set seen" using used call_id_inj by (metis less_irrefl)
  moreover have "\<exists>name n. i = call_id name n \<and> n < Suc (hs_counter st)" if "i \<in> set seen" for i
    using used that less_SucI by blast
  ultimately show "history_inv (add_tool_call md st)"
    using seen assms(2) by (auto simp: history_inv_def add_tool_call_def Let_def check_snoc)
  show "hs_pending (add_tool_call md st) = hs_pending st @ [(?n, call_id ?n (hs_counter st))]"
    using assms(2) by (simp add: add_tool_call_def Let_def)
qed

lemma inv_result:
  assumes "history_inv st" and "\<not> truthy (dget md ''tool_call_id'')" and "hs_pending st = p # later"
  shows "history_inv (add_tool_result content md st)" and "hs_pending (add_tool_result content md st) = later"
proof -
  obtain n i where p: "p = (n, i)" by (cases p)
  show "history_inv (add_tool_result content md st)"
    using assms p by (auto simp: history_inv_def add_tool_result_def result_id_def check_snoc)
  show "hs_pending (add_tool_result content md st) = later"
    using assms p by (simp add: add_tool_result_def result_id_def)
qed

lemma inv_plain:
  assumes "history_inv st" and "\<not> is_tool_call p" and "\<not> is_tool_return p"
  shows "history_inv (st\<lparr>hs_history := hs_history st @ [ModelRequest [p]]\<rparr>)"
    and "history_inv (st\<lparr>hs_history := hs_history st @ [ModelResponse [p]]\<rparr>)"
  using assms by (auto simp: history_inv_def check_snoc is_tool_call_def is_tool_return_def split: msg_part.splits)

section \<open>The messages of a turn\<close>

definition kept :: "pyval list \<Rightarrow> nat" where
  "kept pending = length (filter (\<lambda>x. x \<noteq> VNone) pending)"

lemma add_messages_append:
  "add_messages (ms @ ms') st = then_do (add_messages ms st) (add_messages ms')"
  by (induction ms arbitrary: st) (auto simp: then_do_def split: sum.splits)

lemma chat_message_fields [simp]:
  "dget_or (chat_message stamp i role content md) ''role'' x = VStr role"
  "dget_or (chat_message stamp i role content md) ''content'' x = VStr content"
  "dget_or (chat_message stamp i role content md) ''metadata'' x = VDict md"
  by (simp_all add: chat_message_def message_to_dict_def)

text \<open>What one event adds keeps the invariant, and every name that waits has a call that waits.\<close>

definition extends :: "pyval list \<Rightarrow> pyval list \<Rightarrow> pydict list \<Rightarrow> bool" where
  "extends pending pending' new =
     (\<forall>st. history_inv st \<and> kept pending \<le> length (hs_pending st) \<longrightarrow>
        (\<exists>st'. add_messages (map VDict new) st = Ok st' \<and> history_inv st' \<and> kept pending' \<le> length (hs_pending st')))"

lemma extends_trans: "extends p q new \<Longrightarrow> extends q r new' \<Longrightarrow> extends p r (new @ new')"
  unfolding extends_def by (fastforce simp: add_messages_append)

lemma extends_none: "kept q \<le> kept p \<Longrightarrow> extends p q []"
  by (auto simp: extends_def)

lemma extends_call:
  "extends p (p @ [name]) [chat_message stamp i ''tool_call'' c [(''tool_name'', name), (''args'', a)]]"
proof -
  have "\<exists>st'. add_messages [VDict (chat_message stamp i ''tool_call'' c [(''tool_name'', name), (''args'', a)])] st = Ok st'
      \<and> history_inv st' \<and> kept (p @ [name]) \<le> length (hs_pending st')"
    if "history_inv st" "kept p \<le> length (hs_pending st)" for st
    using inv_call [OF that(1), of "[(''tool_name'', name), (''args'', a)]"] that(2)
    by (auto simp: add_message_def kept_def)
  then show ?thesis by (simp add: extends_def)
qed

lemma extends_result:
  assumes "name \<noteq> VNone"
  shows "extends (name # p) p [chat_message stamp i ''tool_result'' c [(''tool_name'', name)]]"
proof -
  have "\<exists>st'. add_messages [VDict (chat_message stamp i ''tool_result'' c [(''tool_name'', name)])] st = Ok st'
      \<and> history_inv st' \<and> kept p \<le> length (hs_pending st')"
    if inv: "history_inv st" and k: "kept (name # p) \<le> length (hs_pending st)" for st
  proof -
    from k assms obtain q later where q: "hs_pending st = q # later" by (cases "hs_pending st") (auto simp: kept_def)
    show ?thesis
      using inv_result [OF inv _ q, of "[(''tool_name'', name)]" "VStr c"] k q assms
      by (auto simp: add_message_def kept_def)
  qed
  then show ?thesis by (simp add: extends_def)
qed

lemma extends_plain:
  "role \<in> {''user'', ''assistant''} \<Longrightarrow> extends p p [chat_message stamp i role c []]"
  using inv_plain(1) [of _ "UserPromptPart (VStr c)"] inv_plain(2) [of _ "TextPart (VStr c)"]
  by (auto simp: extends_def add_message_def is_tool_call_def is_tool_return_def)

lemma note_event_extends:
  assumes "note_event L stamp e (p, ms) = Ok (p', ms')"
  shows "\<exists>new. ms' = ms @ new \<and> extends p p' new"
proof -
  let ?ty = "dget_or e ''type'' (VStr [])"
  consider (call) "?ty = VStr ''tool_call''" | (result) "?ty = VStr ''tool_result''"
    | (other) "?ty \<noteq> VStr ''tool_call''" "?ty \<noteq> VStr ''tool_result''" by blast
  then show ?thesis
  proof cases
    case call
    then show ?thesis using assms extends_call extends_none
      by (auto simp: note_event_def Let_def kept_def elim!: then_do_OkE split: option.splits)
  next
    case result
    then show ?thesis using assms extends_result extends_none
      by (auto simp: note_event_def Let_def kept_def split: list.splits if_splits)
  next
    case other
    then show ?thesis using assms extends_none by (auto simp: note_event_def Let_def)
  qed
qed

lemma note_events_extends:
  "note_events L stamp es (p, ms) = Ok (p', ms') \<Longrightarrow> \<exists>new. ms' = ms @ new \<and> extends p p' new"
proof (induction es arbitrary: p ms)
  case Nil
  then show ?case using extends_none [of p p] by auto
next
  case (Cons e es)
  then obtain p1 ms1 where 1: "note_event L stamp e (p, ms) = Ok (p1, ms1)" "note_events L stamp es (p1, ms1) = Ok (p', ms')"
    by (auto elim!: then_do_OkE)
  obtain new where new: "ms1 = ms @ new" "extends p p1 new" using note_event_extends [OF 1(1)] by blast
  obtain new' where "ms' = ms1 @ new'" "extends p1 p' new'" using Cons.IH [OF 1(2)] by blast
  then show ?case using new extends_trans by fastforce
qed

lemma turn_log_extends:
  assumes "turn_log L stamp prompt result = Ok ms"
  shows "\<exists>p. extends [] p ms"
proof -
  obtain p ms1 where n: "note_events L stamp (eo_transcript result) ([], [chat_message stamp 0 ''user'' prompt []]) = Ok (p, ms1)"
    and ms: "ms = ms1 \<or> (\<exists>c. ms = ms1 @ [chat_message stamp (length ms1) ''assistant'' c []])"
    using assms by (fastforce simp: turn_log_def elim!: then_do_OkE split: if_splits prod.splits)
  obtain new where "ms1 = [chat_message stamp 0 ''user'' prompt []] @ new" "extends [] p new"
    using note_events_extends [OF n] by blast
  then have "extends [] p ms1" using extends_trans [OF extends_plain [of "''user''" "[]" stamp 0 prompt]] by auto
  then show ?thesis using ms extends_trans [OF _ extends_plain [of "''assistant''" p]] by (intro exI [of _ p]) auto
qed

section \<open>Whole conversations\<close>

definition is_log :: "json_lib \<Rightarrow> pydict list \<Rightarrow> bool" where
  "is_log L ms = (\<exists>stamp prompt result. turn_log L stamp prompt result = Ok ms)"

lemma log_messages:
  assumes "is_log L ms" and "history_inv st"
  shows "\<exists>st'. add_messages (map VDict ms) st = Ok st' \<and> history_inv st'"
proof -
  obtain p where "extends [] p ms" using assms(1) turn_log_extends unfolding is_log_def by blast
  then show ?thesis using assms(2) by (auto simp: extends_def kept_def)
qed

lemma turns_inv:
  assumes "\<forall>v\<in>set vs. \<exists>ms. v = turn_value ms \<and> is_log L ms" and "history_inv st"
  shows "\<exists>st'. add_turns vs st = Ok st' \<and> history_inv st'"
  using assms
proof (induction vs arbitrary: st)
  case (Cons v vs)
  obtain ms where v: "v = turn_value ms" "is_log L ms" using Cons.prems(1) by auto
  have tm: "turn_messages v = VList (map VDict ms)" by (simp add: v turn_messages_def turn_value_def)
  obtain st1 where st1: "add_messages (map VDict ms) st = Ok st1" "history_inv st1"
    using log_messages [OF v(2) Cons.prems(2)] by blast
  obtain st' where "add_turns vs st1 = Ok st'" "history_inv st'" using Cons.IH [OF _ st1(2)] Cons.prems(1) by auto
  moreover obtain st2 where "add_turns vs st = Ok st2" "history_inv st2"
    using Cons.IH [OF _ Cons.prems(2)] Cons.prems(1) by auto
  ultimately show ?case using st1 tm by (auto simp: iterate_def)
qed simp

lemma build_context_values:
  "(k, v) \<in> set (build_context turns) \<Longrightarrow> \<exists>ms. v = turn_value ms \<and> (k, ms) \<in> set turns"
proof -
  have "(k, v) \<in> set (fold (\<lambda>(name, messages) context. if messages = [] then context
        else dict_set name (turn_value messages) context) turns acc) \<Longrightarrow>
      (k, v) \<in> set acc \<or> (\<exists>ms. v = turn_value ms \<and> (k, ms) \<in> set turns)" for acc
  proof (induction turns arbitrary: acc)
    case (Cons t ts)
    obtain n ms where t: "t = (n, ms)" by (cases t)
    have "(k, v) \<in> set (dict_set n (turn_value ms) acc) \<Longrightarrow> (k, v) \<in> set acc \<or> k = n \<and> v = turn_value ms"
      by (induction acc) (auto split: if_splits)
    then show ?case using Cons t by (fastforce split: if_splits)
  qed simp
  from this [of "[]"] show "(k, v) \<in> set (build_context turns) \<Longrightarrow> ?thesis"
    by (simp add: build_context_def)
qed

lemma set_sort_turns: "set (sort_turns ks) = set ks"
  by (auto simp: sort_turns_def)

lemma context_history_paired:
  assumes "\<forall>(name, ms)\<in>set turns. is_log L ms"
  shows "\<exists>h. build_message_history (build_context turns) = Ok h \<and> ids_paired h"
proof -
  let ?c = "build_context turns"
  have "\<exists>ms. v = turn_value ms \<and> is_log L ms" if "v \<in> set (map (dget ?c) (sort_turns (keys ?c)))" for v
  proof -
    from that obtain k where k: "k \<in> set (keys ?c)" "v = dget ?c k" by (auto simp: set_sort_turns)
    then obtain w where w: "map_of ?c k = Some w" by (metis map_of_eq_None_iff not_Some_eq set_map)
    then have "(k, w) \<in> set ?c" by (rule map_of_SomeD)
    then obtain ms where "w = turn_value ms" "(k, ms) \<in> set turns" using build_context_values by blast
    then show ?thesis using assms k w by (auto simp: dget_def)
  qed
  then obtain st' where "add_turns (map (dget ?c) (sort_turns (keys ?c))) no_history = Ok st'" "history_inv st'"
    using turns_inv [of _ L no_history] inv_no_history by blast
  then show ?thesis by (auto simp: build_message_history_def inv_ids_paired)
qed

end
