(* ===== verification/ChatRuns.thy ===== *)
theory ChatRuns
  imports ChatHistory
begin

text \<open>
  Conversations over time. What the chat runner needs of the transcript store is the locale
  \<open>turn_store\<close>: turns of a conversation in the order they were saved, a new one at the end. From it
  follows that a turn always gets a name of its own. The reachable states of the runner are an
  inductive set over its operations, with the clock moving forward at every saved turn.
\<close>

section \<open>Numbering turns\<close>

lemma turn_number_name [simp]: "turn_number (turn_name (int n)) = Some (int n)"
proof -
  have name: "turn_name (int n) = ''turn-'' @ show_nat n" by (simp only: turn_name_def show_int_def) simp
  have "prefix ''turn-'' (''turn-'' @ show_nat n)" by (rule prefixI) (rule refl)
  moreover have "drop 5 (''turn-'' @ show_nat n) = show_nat n" by simp
  ultimately show ?thesis by (simp only: turn_number_def name if_True py_int_show)
qed

lemma turn_name_inj: "turn_name (int n) = turn_name (int m) \<Longrightarrow> n = m"
  by (metis turn_number_name option.inject of_nat_eq_iff)

definition numbers :: "string list \<Rightarrow> nat list \<Rightarrow> bool" where
  "numbers names ks = (names = map (\<lambda>k. turn_name (int k)) ks \<and> sorted_wrt (<) ks)"

lemma next_number_fold:
  assumes "map fst ts = map (\<lambda>k. turn_name (int k)) ks" and "sorted_wrt (<) ks" and "\<forall>k\<in>set ks. m < int k"
  shows "fold (\<lambda>(name, _) max_num. case turn_number name of None \<Rightarrow> max_num
      | Some num \<Rightarrow> if num > max_num then num else max_num) ts m = (if ks = [] then m else int (List.last ks))"
  using assms
proof (induction ts arbitrary: ks m)
  case (Cons t ts)
  then obtain k ks' where ks: "ks = k # ks'" by (cases ks) auto
  obtain n v where t: "t = (n, v)" by (cases t)
  with Cons ks show ?case by (auto simp: Cons.IH [of ks' "int k"])
qed auto

lemma next_turn_number_last:
  assumes "numbers (map fst ts) ks"
  shows "next_turn_number ts = (if ks = [] then 0 else int (List.last ks) + 1)"
  using next_number_fold [of ts ks "-1"] assms by (simp add: next_turn_number_def numbers_def)

lemma numbers_drop: "numbers names ks \<Longrightarrow> numbers (drop n names) (drop n ks)"
  by (auto simp: numbers_def drop_map sorted_wrt_drop)

lemma last_sorted_max: "sorted_wrt (<) (ks :: nat list) \<Longrightarrow> k \<in> set ks \<Longrightarrow> k \<le> List.last ks"
proof (induction ks)
  case (Cons a ks)
  show ?case
  proof (cases "ks = []")
    case False
    then have "a \<le> List.last ks" using Cons.prems(1) by (simp add: less_imp_le)
    with Cons False show ?thesis by auto
  qed (use Cons in simp)
qed simp

lemma numbers_snoc:
  "numbers names ks \<Longrightarrow> \<forall>k\<in>set ks. k < n \<Longrightarrow> numbers (names @ [turn_name (int n)]) (ks @ [n])"
  by (auto simp: numbers_def sorted_wrt_append)

section \<open>The store of turns\<close>

locale turn_store =
  fixes turns :: "'s \<Rightarrow> string \<Rightarrow> (string \<times> 'm) list"
    and save :: "'t \<Rightarrow> string \<Rightarrow> string \<Rightarrow> 'm \<Rightarrow> 's \<Rightarrow> 's"
    and newer :: "'t \<Rightarrow> 's \<Rightarrow> bool"
  assumes save_new: "newer t s \<Longrightarrow> n \<notin> fst ` set (turns s w) \<Longrightarrow>
      turns (save t w n m s) w' = turns s w' @ (if w' = w then [(n, m)] else [])"
begin

definition numbered :: "'s \<Rightarrow> string \<Rightarrow> bool" where
  "numbered s w = (\<exists>ks. numbers (map fst (turns s w)) ks)"

text \<open>The name of the next turn, from the newest \<open>limit\<close> turns.\<close>

definition next_name :: "nat \<Rightarrow> 's \<Rightarrow> string \<Rightarrow> string" where
  "next_name limit s w =
     turn_name (next_turn_number (map (\<lambda>(n, m). (n, [])) (rev (take limit (rev (turns s w))))))"

lemma next_name_new:
  assumes "numbered s w" and "0 < limit"
  obtains ks k where "numbers (map fst (turns s w)) ks" and "next_name limit s w = turn_name (int k)"
    and "\<forall>j\<in>set ks. j < k"
proof -
  obtain ks where ks: "numbers (map fst (turns s w)) ks" using assms(1) by (auto simp: numbered_def)
  let ?d = "length (turns s w) - limit"
  let ?ts = "map (\<lambda>(n, m). (n, [] :: pydict list)) (rev (take limit (rev (turns s w))))"
  have "map fst ?ts = drop ?d (map fst (turns s w))"
    by (simp add: rev_take drop_map comp_def split_def)
  then have "numbers (map fst ?ts) (drop ?d ks)" using numbers_drop [OF ks] by simp
  then have nx: "next_turn_number ?ts = (if drop ?d ks = [] then 0 else int (List.last (drop ?d ks)) + 1)"
    by (rule next_turn_number_last)
  have len: "length ks = length (turns s w)" using ks by (metis length_map numbers_def)
  show thesis
  proof (cases "ks = []")
    case True
    then have "next_name limit s w = turn_name (int 0)" using nx by (simp add: next_name_def)
    then show thesis using that [OF ks, of 0] True by simp
  next
    case False
    then have "?d < length ks" using len assms(2) by (simp add: diff_less length_greater_0_conv [symmetric] del: length_greater_0_conv)
    then have "drop ?d ks \<noteq> []" "List.last (drop ?d ks) = List.last ks" by (simp_all add: last_drop)
    then have "next_name limit s w = turn_name (int (Suc (List.last ks)))" using nx by (simp add: next_name_def add.commute)
    moreover have "\<forall>j\<in>set ks. j < Suc (List.last ks)"
      using last_sorted_max ks by (auto simp: numbers_def le_imp_less_Suc)
    ultimately show thesis using that [OF ks] by blast
  qed
qed

lemma next_name_fresh:
  assumes "numbered s w" and "0 < limit"
  shows "next_name limit s w \<notin> fst ` set (turns s w)"
proof -
  obtain ks k where ks: "numbers (map fst (turns s w)) ks" and k: "next_name limit s w = turn_name (int k)"
    and new: "\<forall>j\<in>set ks. j < k" by (rule next_name_new [OF assms])
  have "fst ` set (turns s w) = (\<lambda>k. turn_name (int k)) ` set ks" using ks by (metis numbers_def set_map)
  then show ?thesis using k new turn_name_inj by auto
qed

lemma save_next:
  assumes "numbered s w" and "0 < limit" and "newer t s"
  shows "turns (save t w (next_name limit s w) m s) w = turns s w @ [(next_name limit s w, m)]"
    and "numbered (save t w (next_name limit s w) m s) w"
    and "w' \<noteq> w \<Longrightarrow> turns (save t w (next_name limit s w) m s) w' = turns s w'"
proof -
  obtain ks k where ks: "numbers (map fst (turns s w)) ks" and k: "next_name limit s w = turn_name (int k)"
    and new: "\<forall>j\<in>set ks. j < k" by (rule next_name_new [OF assms(1,2)])
  show eq: "turns (save t w (next_name limit s w) m s) w = turns s w @ [(next_name limit s w, m)]"
    using save_new [OF assms(3) next_name_fresh [OF assms(1,2)], of m w] by simp
  show "numbered (save t w (next_name limit s w) m s) w"
    unfolding numbered_def eq using numbers_snoc [OF ks new] k by auto
  show "w' \<noteq> w \<Longrightarrow> turns (save t w (next_name limit s w) m s) w' = turns s w'"
    using save_new [OF assms(3) next_name_fresh [OF assms(1,2)], of m w'] by simp
qed

end

definition turns_of :: "transcript_store \<Rightarrow> string \<Rightarrow> (string \<times> pydict list option) list" where
  "turns_of s w = map (\<lambda>r. (tr_step_name r, tr_messages r)) (of_workflow w s)"

definition save_at ::
  "instant \<times> step_transcript \<Rightarrow> string \<Rightarrow> string \<Rightarrow> pydict list option \<Rightarrow> transcript_store \<Rightarrow> transcript_store" where
  "save_at t w n messages s =
     (case t of (now, tr) \<Rightarrow> s\<lparr>ts_rows := upsert (row_of_transcript now w n tr None messages) (ts_rows s)\<rparr>)"

definition newer_than :: "instant \<Rightarrow> transcript_store \<Rightarrow> bool" where
  "newer_than now s = (\<forall>r\<in>set (ts_rows s). tr_created_at r < in_time now)"

lemma insort_snoc: "f y \<le> f x \<Longrightarrow> insort_key f y (ys @ [x]) = insort_key f y ys @ [x]"
  by (induction ys) auto

lemma sort_snoc: "\<forall>y\<in>set xs. f y \<le> f x \<Longrightarrow> sort_key f (xs @ [x]) = sort_key f xs @ [x]"
  by (induction xs) (auto simp: insort_snoc)

lemma upsert_new:
  "n \<notin> fst ` set (turns_of s w) \<Longrightarrow>
   upsert (row_of_transcript now w n t tr m) (ts_rows s) = ts_rows s @ [row_of_transcript now w n t tr m]"
  by (force simp: upsert_def turns_of_def of_workflow_def list_ex_iff has_key_def row_of_transcript_def image_iff)

interpretation log: turn_store turns_of save_at "\<lambda>t. newer_than (fst t)"
proof
  fix t :: "instant \<times> step_transcript" and s n w m w'
  assume newer: "newer_than (fst t) s" and new: "n \<notin> fst ` set (turns_of s w)"
  obtain now tr where t: "t = (now, tr)" by (cases t)
  let ?r = "row_of_transcript now w n tr None m"
  have rows: "ts_rows (save_at t w n m s) = ts_rows s @ [?r]" using upsert_new [OF new] by (simp add: save_at_def t)
  have "\<forall>y\<in>set (filter (\<lambda>r. tr_workflow_id r = w) (ts_rows s)). tr_created_at y \<le> tr_created_at ?r"
    using newer t by (auto simp: newer_than_def row_of_transcript_def)
  from sort_snoc [OF this] show "turns_of (save_at t w n m s) w' = turns_of s w' @ (if w' = w then [(n, m)] else [])"
    by (auto simp: turns_of_def of_workflow_def rows row_of_transcript_def)
qed

section \<open>The invariant of the runner\<close>

definition transcripts_ok :: "json_lib \<Rightarrow> transcript_store \<Rightarrow> bool" where
  "transcripts_ok L s =
     (ts_connected s \<and> (\<forall>r\<in>set (ts_rows s). \<exists>ms. tr_messages r = Some ms \<and> is_log L ms)
      \<and> (\<forall>w. log.numbered s w))"

definition recent :: "nat \<Rightarrow> (string \<times> pydict list option) list \<Rightarrow> (string \<times> pydict list) list" where
  "recent limit ts = map (\<lambda>(n, m). (n, the m)) (rev (take limit (rev ts)))"

lemma load_recent_ok:
  assumes "transcripts_ok L s"
  shows "load_recent_turns w limit s = Ok (recent limit (turns_of s w))"
proof -
  have "filter (\<lambda>r. tr_messages r \<noteq> None) (of_workflow w s) = of_workflow w s"
    using assms by (auto simp: transcripts_ok_def of_workflow_def filter_id_conv)
  then show ?thesis using assms
    by (simp add: load_recent_turns_def ensure_connected_def transcripts_ok_def newest_def recent_def turns_of_def
        take_map rev_map comp_def)
qed

lemma recent_logs:
  assumes "transcripts_ok L s"
  shows "\<forall>(n, ms)\<in>set (recent limit (turns_of s w)). is_log L ms"
proof -
  have "\<exists>ms. m = Some ms \<and> is_log L ms" if "(n, m) \<in> set (turns_of s w)" for n m
    using assms that by (auto simp: transcripts_ok_def turns_of_def of_workflow_def)
  then show ?thesis by (fastforce simp: recent_def dest!: in_set_takeD)
qed

lemma next_turn_recent:
  "turn_name (next_turn_number (recent limit (turns_of s w))) = log.next_name limit s w"
proof -
  have "next_turn_number (map (\<lambda>(n, m). (n, f m)) ts) = next_turn_number (map (\<lambda>(n, m). (n, g m)) ts)" for ts f g
    unfolding next_turn_number_def fold_map by (simp add: comp_def split_def)
  from this [of the _ "\<lambda>_. []"] show ?thesis by (simp add: recent_def log.next_name_def)
qed

lemma is_logI: "turn_log L stamp prompt result = Ok ms \<Longrightarrow> is_log L ms"
  unfolding is_log_def by blast

section \<open>Saving a turn\<close>

text \<open>A turn that was executed, with the two writes that record it.\<close>

lemma save_turn_transcripts:
  assumes "save_turn env w n prompt result cr wd = (r, cr')"
  shows "(cr' = cr) \<or> (\<exists>ms events. turn_log (ce_json env) (ce_stamp env wd) prompt result = Ok ms
      \<and> ts_connected (cr_transcripts cr)
      \<and> cr_transcripts cr' = save_at (ce_now env wd, transcript_of_result n events result) w n (Some ms) (cr_transcripts cr))"
proof -
  show ?thesis
    using assms
    by (auto simp: save_turn_def save_transcript_def ensure_connected_def save_at_def Let_def
        elim!: then_do_OkE split: sum.splits if_splits)
qed

lemma transcripts_ok_save:
  assumes "transcripts_ok L s" and "0 < limit" and "newer_than now s" and "is_log L ms"
    and "n = log.next_name limit s w"
  shows "transcripts_ok L (save_at (now, tr) w n (Some ms) s)"
proof -
  have num: "log.numbered s w'" for w' using assms(1) by (simp add: transcripts_ok_def)
  have new: "n \<notin> fst ` set (turns_of s w)" using log.next_name_fresh [OF num assms(2)] assms(5) by simp
  have "log.numbered (save_at (now, tr) w n (Some ms) s) w'" for w'
  proof (cases "w' = w")
    case True
    then show ?thesis using log.save_next(2) [OF num assms(2), of "(now, tr)"] assms(3,5) by simp
  next
    case False
    then show ?thesis
      using num [of w'] log.save_next(3) [OF num assms(2), where t = "(now, tr)" and w' = w' and m = "Some ms" and w = w] assms(3,5)
      by (simp add: log.numbered_def)
  qed
  moreover have "ts_rows (save_at (now, tr) w n (Some ms) s) = ts_rows s @ [row_of_transcript now w n tr None (Some ms)]"
    using upsert_new [OF new] by (simp add: save_at_def)
  ultimately show ?thesis using assms(1,4)
    by (auto simp: transcripts_ok_def save_at_def row_of_transcript_def)
qed

section \<open>Reachable states\<close>

definition new_runner :: "int \<Rightarrow> chat_runner" where
  "new_runner days = \<lparr>cr_runs = \<lparr>rs_connected = True, rs_rows = []\<rparr>,
     cr_transcripts = \<lparr>ts_connected = True, ts_retention_days = days, ts_rows = []\<rparr>\<rparr>"

inductive chat_reach :: "'w chat_env \<Rightarrow> chat_runner \<Rightarrow> bool" for env :: "'w chat_env" where
  reach_new: "chat_reach env (new_runner days)"
| reach_start: "chat_reach env cr \<Longrightarrow> chat_start env uuid input cr w = (r, cr') \<Longrightarrow> chat_reach env cr'"
| reach_message: "chat_reach env cr \<Longrightarrow> send_message env wid prompt cr w = (r, cr', w') \<Longrightarrow>
    newer_than (ce_now env w') (cr_transcripts cr) \<Longrightarrow> chat_reach env cr'"
| reach_stream: "chat_reach env cr \<Longrightarrow> send_message_stream env wid prompt cr w = (events, exc, cr', w') \<Longrightarrow>
    newer_than (ce_now env w') (cr_transcripts cr) \<Longrightarrow> chat_reach env cr'"
| reach_cancel: "chat_reach env cr \<Longrightarrow> chat_cancel now wid cr = Ok cr' \<Longrightarrow> chat_reach env cr'"
| reach_delete: "chat_reach env cr \<Longrightarrow> delete_transcripts wid (cr_transcripts cr) = Ok ts \<Longrightarrow>
    chat_reach env (cr\<lparr>cr_transcripts := ts\<rparr>)"
| reach_cleanup: "chat_reach env cr \<Longrightarrow> cleanup_expired now (cr_transcripts cr) = Ok (n, ts) \<Longrightarrow>
    chat_reach env (cr\<lparr>cr_transcripts := ts\<rparr>)"

lemma prepare_turn_ok:
  assumes "prepare_turn env w prompt cr = Ok (n, si, ex)"
    and "transcripts_ok (ce_json env) (cr_transcripts cr)"
  shows "n = log.next_name (cc_max_context_turns (ce_config env)) (cr_transcripts cr) w"
    and "ei_context si = build_context (recent (cc_max_context_turns (ce_config env)) (turns_of (cr_transcripts cr) w))"
    and "ei_workflow_id si = w \<and> ei_step_name si = n \<and> ei_prompt si = prompt"
  using assms load_recent_ok [OF assms(2), of w]
  by (auto simp: prepare_turn_def Let_def next_turn_recent build_chat_step_input_def StepInput_def elim!: then_do_OkE)

lemma filter_numbered:
  assumes "log.numbered s w"
  shows "log.numbered (s\<lparr>ts_rows := filter P (ts_rows s)\<rparr>) w"
proof -
  obtain ks where ks: "numbers (map tr_step_name (of_workflow w s)) ks"
    using assms by (auto simp: log.numbered_def turns_of_def comp_def)
  have rows: "of_workflow w (s\<lparr>ts_rows := filter P (ts_rows s)\<rparr>) = filter P (of_workflow w s)"
    by (simp add: of_workflow_def filter_sort conj_commute)
  have "\<exists>ks'. numbers (map tr_step_name (filter P rs)) ks' \<and> set ks' \<subseteq> set ks"
    if "numbers (map tr_step_name rs) ks" for rs ks
    using that
  proof (induction rs arbitrary: ks)
    case (Cons r rs)
    then obtain k ks1 where k: "ks = k # ks1" by (cases ks) (auto simp: numbers_def)
    with Cons.prems have r: "tr_step_name r = turn_name (int k)" "\<forall>j\<in>set ks1. k < j"
      and n1: "numbers (map tr_step_name rs) ks1" by (auto simp: numbers_def)
    obtain ks' where ks': "numbers (map tr_step_name (filter P rs)) ks'" "set ks' \<subseteq> set ks1" using Cons.IH [OF n1] by blast
    then have "numbers (map tr_step_name (filter P (r # rs))) (if P r then k # ks' else ks')"
      using r by (auto simp: numbers_def)
    then show ?case using ks'(2) k by (intro exI [of _ "if P r then k # ks' else ks'"]) auto
  qed (auto simp: numbers_def)
  from this [OF ks] show ?thesis by (auto simp: log.numbered_def turns_of_def comp_def rows)
qed

lemma transcripts_ok_filter:
  "transcripts_ok L s \<Longrightarrow> transcripts_ok L (s\<lparr>ts_rows := filter P (ts_rows s)\<rparr>)"
  by (simp add: transcripts_ok_def filter_numbered)

lemma save_turn_ok:
  assumes "save_turn env w n prompt result cr wd = (r, cr')"
    and "transcripts_ok (ce_json env) (cr_transcripts cr)" and "0 < cc_max_context_turns (ce_config env)"
    and "newer_than (ce_now env wd) (cr_transcripts cr)"
    and "n = log.next_name (cc_max_context_turns (ce_config env)) (cr_transcripts cr) w"
  shows "transcripts_ok (ce_json env) (cr_transcripts cr')"
  using save_turn_transcripts [OF assms(1)]
proof
  assume "\<exists>ms events. turn_log (ce_json env) (ce_stamp env wd) prompt result = Ok ms
      \<and> ts_connected (cr_transcripts cr)
      \<and> cr_transcripts cr' = save_at (ce_now env wd, transcript_of_result n events result) w n (Some ms) (cr_transcripts cr)"
  then show ?thesis using transcripts_ok_save [OF assms(2,3,4) is_logI assms(5)] by auto
qed (use assms(2) in simp)

lemma reach_ok:
  assumes "chat_reach env cr" and "0 < cc_max_context_turns (ce_config env)"
  shows "transcripts_ok (ce_json env) (cr_transcripts cr)"
  using assms(1)
proof induction
  case (reach_new days)
  then show ?case
    by (simp add: new_runner_def transcripts_ok_def log.numbered_def turns_of_def of_workflow_def numbers_def)
next
  case (reach_start cr uuid input w r cr')
  then show ?case by (auto simp: chat_start_def Let_def split: sum.splits)
next
  case (reach_message cr wid prompt w r cr' w')
  show ?case
  proof (cases "prepare_turn env wid prompt cr")
    case (Inr p)
    obtain n si ex where p: "p = (n, si, ex)" by (cases p)
    note n = prepare_turn_ok(1) [OF Inr [unfolded p] reach_message.IH]
    show ?thesis
      using reach_message save_turn_ok [OF _ reach_message.IH assms(2) _ n] Inr p
      by (auto simp: send_message_def split: prod.splits sum.splits)
  qed (use reach_message in \<open>auto simp: send_message_def\<close>)
next
  case (reach_stream cr wid prompt w events exc cr' w')
  show ?case
  proof (cases "prepare_turn env wid prompt cr")
    case (Inr p)
    obtain n si ex where p: "p = (n, si, ex)" by (cases p)
    note n = prepare_turn_ok(1) [OF Inr [unfolded p] reach_stream.IH]
    show ?thesis
      using reach_stream save_turn_ok [OF _ reach_stream.IH assms(2) _ n] Inr p
      by (auto simp: send_message_stream_def Let_def split: prod.splits sum.splits option.splits)
  qed (use reach_stream in \<open>auto simp: send_message_stream_def\<close>)
next
  case (reach_cancel cr now wid cr')
  then show ?case by (auto simp: chat_cancel_def elim!: then_do_OkE)
next
  case (reach_delete cr wid ts)
  then show ?case by (auto simp: delete_transcripts_def ensure_connected_def transcripts_ok_filter split: if_splits)
next
  case (reach_cleanup cr now n ts)
  then show ?case by (auto simp: cleanup_expired_def ensure_connected_def Let_def transcripts_ok_filter split: if_splits)
qed

section \<open>Properties\<close>

lemma save_turn_done:
  assumes "save_turn env w n prompt result cr wd = (Inr u, cr')"
  obtains ms events where "turn_log (ce_json env) (ce_stamp env wd) prompt result = Ok ms"
    and "cr_transcripts cr' = save_at (ce_now env wd, transcript_of_result n events result) w n (Some ms) (cr_transcripts cr)"
    and "update_step (ce_now env wd) w n (VStr (eo_status result)) (eo_output result)
      (case eo_error result of None \<Rightarrow> VNone | Some t \<Rightarrow> VStr t) (cr_runs cr) = Ok (cr_runs cr')"
  using assms
  by (fastforce simp: save_turn_def save_transcript_def ensure_connected_def save_at_def Let_def
      elim!: then_do_OkE split: sum.splits if_splits)

lemma send_message_done:
  assumes "send_message env w prompt cr wd = (Inr result, cr', wd')"
  obtains n si ex where "prepare_turn env w prompt cr = Ok (n, si, ex)"
    and "run_no_span (ce_execute env ex) (stack env) si wd = (Inr result, wd')"
    and "save_turn env w n prompt result cr wd' = (Inr (), cr')"
  using assms by (auto simp: send_message_def split: sum.splits prod.splits)


text \<open>
  C14. The history a turn replays to the model is well formed: in every reachable state, whatever tool
  calls the earlier turns made, with whatever results missing or left out, the messages rebuilt from
  the stored turns give every tool call an id of its own and every tool result the id of one earlier
  call that no other result answers; and the rebuild never raises.
\<close>

theorem replayed_history_paired:
  assumes "chat_reach env cr" and "0 < cc_max_context_turns (ce_config env)"
    and "prepare_turn env w prompt cr = Ok (n, si, ex)"
  shows "\<exists>h. build_message_history (ei_context si) = Ok h \<and> ids_paired h"
  using prepare_turn_ok(2) [OF assms(3) reach_ok [OF assms(1,2)]]
    context_history_paired [OF recent_logs [OF reach_ok [OF assms(1,2)]]] by simp

text \<open>
  A conversation that was cancelled, or that ended, takes no more messages: sending one, plain or
  streamed, raises before anything runs or is stored, and the route answers 409.
\<close>

theorem terminal_conversation_refuses:
  assumes "row_at (cr_runs cr) w = Some r" and "rr_status r \<in> set terminal_statuses"
  shows "send_message env w prompt cr wd = (Inl (PyExc (terminal_error w (rr_status r))), cr, wd)
    \<and> send_message_stream env w prompt cr wd = ([], Some (PyExc (terminal_error w (rr_status r))), cr, wd)
    \<and> (prompt \<noteq> [] \<longrightarrow> fst (fst (post_message env w (Some prompt) cr wd)) = 409 \<and> snd (post_message env w (Some prompt) cr wd) = (cr, wd))"
proof -
  have "get w (cr_runs cr) = Ok (Some r)" using assms(1) by (simp add: get_Ok_iff row_at_connected)
  then have "prepare_turn env w prompt cr = Err (terminal_error w (rr_status r))"
    using assms(2) by (simp add: prepare_turn_def check_not_terminal_def)
  then show ?thesis by (simp add: send_message_def send_message_stream_def post_message_def terminal_error_def)
qed

lemma cancelled_is_terminal:
  assumes "chat_cancel now w cr = Ok cr'"
  shows "\<exists>r. row_at (cr_runs cr') w = Some r \<and> rr_status r = ''cancelled''"
proof -
  obtain r0 s where "chat_row w cr = Ok r0" and "mark_terminal now w ''cancelled'' (cr_runs cr) = Ok s" and cr': "cr' = cr\<lparr>cr_runs := s\<rparr>"
    using assms by (auto simp: chat_cancel_def elim!: then_do_OkE)
  then have "row_at (cr_runs cr) w = Some r0" and "set_status now w ''cancelled'' None (cr_runs cr) = Ok s"
    by (auto simp: chat_row_def get_Ok_iff mark_terminal_def terminal_statuses_def elim!: then_do_OkE split: option.splits)
  then show ?thesis using rows.modified_row cr' by (fastforce simp: set_status_def)
qed

subsection \<open>What a reader of the history sees\<close>

definition readable :: "(nat \<Rightarrow> string) \<Rightarrow> pydict list \<Rightarrow> conversation_message list \<Rightarrow> bool" where
  "readable stamp ms cs = (ms = map message_to_dict cs \<and> (\<forall>c\<in>set cs. \<exists>i. cm_timestamp c = stamp i))"

lemma readable_snoc:
  "readable stamp ms cs \<Longrightarrow> readable stamp (ms @ [chat_message stamp i role c md])
     (cs @ [\<lparr>cm_role = role, cm_content = c, cm_timestamp = stamp i, cm_metadata = md\<rparr>])"
  by (auto simp: readable_def chat_message_def)

lemma note_event_readable:
  assumes "note_event L stamp e (p, ms) = Ok (p', ms')" and "readable stamp ms cs"
  shows "\<exists>new. readable stamp ms' (cs @ new)"
proof -
  have "ms' = ms \<or> (\<exists>i role c md. ms' = ms @ [chat_message stamp i role c md])"
    using assms(1) by (fastforce simp: note_event_def Let_def elim!: then_do_OkE split: if_splits option.splits list.splits)
  then show ?thesis
  proof
    assume "ms' = ms"
    then show ?thesis using assms(2) by (intro exI [of _ "[]"]) simp
  qed (use readable_snoc [OF assms(2)] in blast)
qed

lemma note_events_readable:
  "note_events L stamp es (p, ms) = Ok (p', ms') \<Longrightarrow> readable stamp ms cs \<Longrightarrow> \<exists>new. readable stamp ms' (cs @ new)"
proof (induction es arbitrary: p ms cs)
  case (Cons e es)
  then obtain p1 ms1 where 1: "note_event L stamp e (p, ms) = Ok (p1, ms1)" "note_events L stamp es (p1, ms1) = Ok (p', ms')"
    by (auto elim!: then_do_OkE)
  obtain new where "readable stamp ms1 (cs @ new)" using note_event_readable [OF 1(1) Cons.prems(2)] by blast
  then obtain new' where "readable stamp ms' ((cs @ new) @ new')" using Cons.IH [OF 1(2)] by blast
  then show ?case by auto
qed (auto intro: exI [of _ "[]"])

lemma turn_log_readable:
  assumes "turn_log L stamp prompt result = Ok ms"
  obtains cs where "readable stamp ms cs" and "cs \<noteq> []" and "cm_role (hd cs) = ''user'' \<and> cm_content (hd cs) = prompt"
    and "eo_output result \<noteq> VNone \<longrightarrow> cm_role (List.last cs) = ''assistant''
      \<and> cm_content (List.last cs) = extract_assistant_text (eo_output result)"
proof -
  let ?u = "\<lparr>cm_role = ''user'', cm_content = prompt, cm_timestamp = stamp 0, cm_metadata = []\<rparr>"
  obtain p ms1 where n: "note_events L stamp (eo_transcript result) ([], [chat_message stamp 0 ''user'' prompt []]) = Ok (p, ms1)"
    and ms: "ms = (if eo_output result = VNone then ms1 else ms1 @ [chat_message stamp (length ms1) ''assistant''
        (extract_assistant_text (eo_output result)) []])"
    using assms by (auto simp: turn_log_def elim!: then_do_OkE split: prod.splits)
  have "readable stamp [chat_message stamp 0 ''user'' prompt []] [?u]" by (auto simp: readable_def chat_message_def)
  from note_events_readable [OF n this] obtain new where r: "readable stamp ms1 (?u # new)" by auto
  show thesis
  proof (cases "eo_output result = VNone")
    case True
    then show thesis using that [of "?u # new"] r ms by simp
  next
    case False
    then have "readable stamp ms ((?u # new) @ [\<lparr>cm_role = ''assistant'',
        cm_content = extract_assistant_text (eo_output result), cm_timestamp = stamp (length ms1), cm_metadata = []\<rparr>])"
      using readable_snoc [OF r] ms by simp
    then show thesis by (rule that) simp_all
  qed
qed

lemma recent_all: "length ts \<le> limit \<Longrightarrow> recent limit ts = map (\<lambda>(n, m). (n, the m)) ts"
  by (simp add: recent_def)

lemma map_res_append_Ok: "map_res f xs = Ok ys \<Longrightarrow> map_res f xs' = Ok ys' \<Longrightarrow> map_res f (xs @ xs') = Ok (ys @ ys')"
  by (induction xs arbitrary: ys) (auto elim!: then_do_OkE)

lemma read_back:
  assumes "readable stamp ms cs" and "\<And>i. parse (stamp i) = Ok (stamp i)"
  shows "map_res (message_from_dict parse now) ms = Ok cs"
proof -
  have "map_res (message_from_dict parse now) (map message_to_dict cs) = Ok cs"
    if "\<forall>c\<in>set cs. \<exists>i. cm_timestamp c = stamp i"
    using that
  proof (induction cs)
    case (Cons c cs)
    then obtain i where "cm_timestamp c = stamp i" by auto
    then have "parse (cm_timestamp c) = Ok (cm_timestamp c)" using assms(2) by simp
    then show ?case using Cons by (simp add: from_to_dict)
  qed simp
  then show ?thesis using assms(1) by (auto simp: readable_def)
qed

text \<open>
  The history is the conversation: after an answered message, asking for at least as many turns as
  there are returns what it returned before, followed by the new turn, which starts with the user's
  message and ends with the text of the answer.
\<close>

theorem history_grows_by_turn:
  assumes "chat_reach env cr" and "0 < cc_max_context_turns (ce_config env)"
    and "send_message env w prompt cr wd = (Inr result, cr', wd')"
    and "newer_than (ce_now env wd') (cr_transcripts cr)"
    and "\<And>i. ce_fromisoformat env (ce_stamp env wd' i) = Ok (ce_stamp env wd' i)"
    and "get_history env w limit cr wd2 = Ok old" and "length (turns_of (cr_transcripts cr) w) < limit"
  shows "\<exists>new. get_history env w limit cr' wd2 = Ok (old @ new) \<and> new \<noteq> []
      \<and> cm_role (hd new) = ''user'' \<and> cm_content (hd new) = prompt
      \<and> (eo_output result \<noteq> VNone \<longrightarrow> cm_role (List.last new) = ''assistant''
           \<and> cm_content (List.last new) = extract_assistant_text (eo_output result))"
proof -
  note ok = reach_ok [OF assms(1,2)]
  obtain n si ex where p: "prepare_turn env w prompt cr = Ok (n, si, ex)"
    and sv: "save_turn env w n prompt result cr wd' = (Inr (), cr')"
    by (rule send_message_done [OF assms(3)])
  note n = prepare_turn_ok(1) [OF p ok]
  note ok' = save_turn_ok [OF sv ok assms(2,4) n]
  obtain ms events where log: "turn_log (ce_json env) (ce_stamp env wd') prompt result = Ok ms"
    and ts: "cr_transcripts cr' =
      save_at (ce_now env wd', transcript_of_result n events result) w n (Some ms) (cr_transcripts cr)"
    and runs: "update_step (ce_now env wd') w n (VStr (eo_status result)) (eo_output result)
      (case eo_error result of None \<Rightarrow> VNone | Some t \<Rightarrow> VStr t) (cr_runs cr) = Ok (cr_runs cr')"
    by (rule save_turn_done [OF sv])
  have turns: "turns_of (cr_transcripts cr') w = turns_of (cr_transcripts cr) w @ [(n, Some ms)]"
    using ok log.save_next(1) [where t = "(ce_now env wd', transcript_of_result n events result)"] assms(2,4) n ts
    by (simp add: transcripts_ok_def)
  obtain cs where cs: "readable (ce_stamp env wd') ms cs" "cs \<noteq> []" "cm_role (hd cs) = ''user'' \<and> cm_content (hd cs) = prompt"
    "eo_output result \<noteq> VNone \<longrightarrow> cm_role (List.last cs) = ''assistant''
      \<and> cm_content (List.last cs) = extract_assistant_text (eo_output result)"
    by (rule turn_log_readable [OF log])
  have con: "rs_connected (cr_runs cr)" using assms(6) by (auto simp: get_history_def get_Ok_iff elim!: then_do_OkE)
  then have con': "rs_connected (cr_runs cr')"
    using update_row_connected runs by (auto simp: update_step_def)
  have "map_res (message_from_dict (ce_fromisoformat env) (in_iso (ce_now env wd2)))
      (concat (map snd (recent limit (turns_of (cr_transcripts cr) w)))) = Ok old"
    using assms(6) con load_recent_ok [OF ok] by (auto simp: get_history_def get_row_at split: if_splits)
  from map_res_append_Ok [OF this read_back [OF cs(1) assms(5)]]
  have "get_history env w limit cr' wd2 = Ok (old @ cs)"
    using con' load_recent_ok [OF ok'] turns assms(7)
    by (simp add: get_history_def get_row_at recent_all)
  then show ?thesis using cs by blast
qed

section \<open>A sample conversation\<close>

definition sample_reply :: exec_output where
  "sample_reply = (StepResult ''completed'')\<lparr>eo_output := VDict [(''response'', VStr ''done'')],
     eo_transcript := [canonical_event ''t'' ''tool_call'' [(''name'', VStr ''ls''), (''input'', VStr ''{}'')],
                       canonical_event ''t'' ''tool_result'' [(''output'', VStr ''a b'')]]\<rparr>"

definition sample_env :: "nat chat_env" where
  "sample_env = \<lparr>ce_config = \<lparr>cc_provider = [], cc_system_prompt = None, cc_tools = [], cc_tools_module = None,
       cc_mcp_servers = None, cc_allowed_skills = None, cc_max_context_turns = 1, cc_timeout_seconds = 600,
       cc_spawn = ''none''\<rparr>,
     ce_validate = strict_validate, ce_json = plain_json, ce_spawner = False,
     ce_execute = (\<lambda>ex si w. (Inr sample_reply, Suc w)), ce_execute_stream = (\<lambda>ex si w. ([], None, Suc w)),
     ce_middlewares = [], ce_trace_id = (\<lambda>w. None),
     ce_now = (\<lambda>w. \<lparr>in_time = w, in_iso = show_nat w\<rparr>), ce_stamp = (\<lambda>w i. show_nat i), ce_fromisoformat = Ok\<rparr>"

definition sample_started :: chat_runner where
  "sample_started = snd (chat_start sample_env ''u'' [(''workflow_id'', VStr ''c'')] (new_runner 30) 0)"

definition sample_turn :: "chat_runner \<Rightarrow> nat \<Rightarrow> chat_runner" where
  "sample_turn cr w = fst (snd (send_message sample_env ''c'' ''hello'' cr w))"

lemma sample_reach_started: "chat_reach sample_env sample_started"
  unfolding sample_started_def
  by (rule chat_reach.reach_start [OF chat_reach.reach_new [of sample_env 30]]) (rule surjective_pairing)

lemma sample_send: "send_message sample_env ''c'' ''hello'' sample_started 0 = (Inr sample_reply, sample_turn sample_started 0, 1)"
  by code_simp

lemma sample_reach: "chat_reach sample_env (sample_turn sample_started 0)"
proof (rule chat_reach.reach_message [OF sample_reach_started sample_send])
  show "newer_than (ce_now sample_env 1) (cr_transcripts sample_started)" by code_simp
qed


theorem replayed_history_paired_witness:
  "\<exists>n si ex h. prepare_turn sample_env ''c'' ''again'' (sample_turn sample_started 0) = Ok (n, si, ex)
     \<and> build_message_history (ei_context si) = Ok h \<and> ids_paired h \<and> length h = 4"
proof -
  let ?cr = "sample_turn sample_started 0"
  have pos: "0 < cc_max_context_turns (ce_config sample_env)" by code_simp
  have "is_ok (prepare_turn sample_env ''c'' ''again'' ?cr)
      \<and> (case prepare_turn sample_env ''c'' ''again'' ?cr of Inr (n, si, ex) \<Rightarrow>
           (case build_message_history (ei_context si) of Inr h \<Rightarrow> length h = 4 | _ \<Rightarrow> False) | _ \<Rightarrow> False)" by code_simp
  then obtain n si ex h where p: "prepare_turn sample_env ''c'' ''again'' ?cr = Ok (n, si, ex)"
    and h: "build_message_history (ei_context si) = Ok h" "length h = 4"
    by (auto simp: is_ok_iff split: sum.splits)
  show ?thesis using replayed_history_paired [OF sample_reach pos p] p h by auto
qed

theorem terminal_conversation_refuses_witness:
  "\<exists>cr'. chat_cancel \<lparr>in_time = 9, in_iso = ''t''\<rparr> ''c'' (sample_turn sample_started 0) = Ok cr'
     \<and> send_message sample_env ''c'' ''hello'' cr' 5 = (Inl (PyExc (terminal_error ''c'' ''cancelled'')), cr', 5)"
proof -
  have "is_ok (chat_cancel \<lparr>in_time = 9, in_iso = ''t''\<rparr> ''c'' (sample_turn sample_started 0))" by code_simp
  then obtain cr' where c: "chat_cancel \<lparr>in_time = 9, in_iso = ''t''\<rparr> ''c'' (sample_turn sample_started 0) = Ok cr'"
    by (auto simp: is_ok_iff)
  obtain r where r: "row_at (cr_runs cr') ''c'' = Some r" "rr_status r = ''cancelled''" using cancelled_is_terminal [OF c] by blast
  then have "rr_status r \<in> set terminal_statuses" by (simp add: terminal_statuses_def)
  from terminal_conversation_refuses [OF r(1) this, of sample_env "''hello''" 5] c r(2) show ?thesis by auto
qed

theorem history_grows_by_turn_witness:
  "\<exists>old new. get_history sample_env ''c'' 10 (sample_turn sample_started 0) 7 = Ok old
     \<and> get_history sample_env ''c'' 10 (sample_turn (sample_turn sample_started 0) 1) 7 = Ok (old @ new)
     \<and> cm_content (hd new) = ''hello'' \<and> cm_content (List.last new) = ''done''"
proof -
  let ?cr = "sample_turn sample_started 0"
  have pos: "0 < cc_max_context_turns (ce_config sample_env)" by code_simp
  have send: "send_message sample_env ''c'' ''hello'' ?cr 1 = (Inr sample_reply, sample_turn ?cr 1, 2)" by code_simp
  have new: "newer_than (ce_now sample_env 2) (cr_transcripts ?cr)" by code_simp
  have parse: "ce_fromisoformat sample_env (ce_stamp sample_env 2 i) = Ok (ce_stamp sample_env 2 i)" for i
    by (simp add: sample_env_def)
  have "is_ok (get_history sample_env ''c'' 10 ?cr 7)" by code_simp
  then obtain old where old: "get_history sample_env ''c'' 10 ?cr 7 = Ok old" by (auto simp: is_ok_iff)
  have len: "length (turns_of (cr_transcripts ?cr) ''c'') < 10" by code_simp
  have "eo_output sample_reply \<noteq> VNone" "extract_assistant_text (eo_output sample_reply) = ''done''" by code_simp+
  then show ?thesis using history_grows_by_turn [OF sample_reach pos send new parse old len] old by auto
qed

section \<open>Two departures\<close>

text \<open>With no context turns configured, every turn of a conversation is called \<open>turn-0\<close>.\<close>

theorem no_context_reuses_name:
  assumes "cc_max_context_turns (ce_config env) = 0" and "prepare_turn env w prompt cr = Ok (n, si, ex)"
  shows "n = ''turn-0''"
proof -
  have "ts = []" if "load_recent_turns w 0 (cr_transcripts cr) = Ok ts" for ts
    using that by (auto simp: load_recent_turns_def ensure_connected_def newest_def split: if_splits)
  moreover have "next_turn_number [] = 0" by (simp add: next_turn_number_def)
  ultimately have "n = turn_name 0" using assms by (auto simp: prepare_turn_def Let_def elim!: then_do_OkE)
  then show ?thesis by (simp add: turn_name_def show_int_def show_nat.simps)
qed

theorem no_context_reuses_name_witness:
  "\<exists>si ex. prepare_turn (sample_env\<lparr>ce_config := (ce_config sample_env)\<lparr>cc_max_context_turns := 0\<rparr>\<rparr>) ''c'' ''hi''
     (sample_turn sample_started 0) = Ok (''turn-0'', si, ex)"
proof -
  let ?env = "sample_env\<lparr>ce_config := (ce_config sample_env)\<lparr>cc_max_context_turns := 0\<rparr>\<rparr>"
  have "is_ok (prepare_turn ?env ''c'' ''hi'' (sample_turn sample_started 0))" by code_simp
  then obtain n si ex where p: "prepare_turn ?env ''c'' ''hi'' (sample_turn sample_started 0) = Ok (n, si, ex)"
    by (auto simp: is_ok_iff)
  have zero: "cc_max_context_turns (ce_config ?env) = 0" by simp
  show ?thesis using p no_context_reuses_name [OF zero p] by simp
qed

text \<open>
  A message to a conversation that does not exist is executed and its turn is stored before the
  missing run is noticed: the caller gets the error of an unknown conversation.
\<close>

theorem unknown_conversation_executes:
  assumes "row_at (cr_runs cr) w = None" and "rs_connected (cr_runs cr)"
    and "prepare_turn env w prompt cr = Ok (n, si, ex)"
    and "run_no_span (ce_execute env ex) (stack env) si wd = (Inr result, wd')"
    and "turn_log (ce_json env) (ce_stamp env wd') prompt result = Ok ms"
    and "normalize_transcript_events (ce_validate env) (Some (eo_transcript result)) = Ok events"
    and "ts_connected (cr_transcripts cr)"
  shows "\<exists>cr'. send_message env w prompt cr wd = (Inl (PyExc (not_found w)), cr', wd')
      \<and> cr_transcripts cr' = save_at (ce_now env wd', transcript_of_result n events result) w n (Some ms) (cr_transcripts cr)"
proof -
  have "update_row w f (cr_runs cr) = Err (not_found w)" for f
    using assms(1,2) by (simp add: update_row_def row_at_def)
  then show ?thesis using assms(3-7)
    by (simp add: send_message_def save_turn_def save_transcript_def ensure_connected_def save_at_def update_step_def)
qed

theorem unknown_conversation_executes_witness:
  "\<exists>cr'. send_message sample_env ''ghost'' ''hi'' (new_runner 30) 0 = (Inl (PyExc (not_found ''ghost'')), cr', 1)
     \<and> map fst (turns_of (cr_transcripts cr') ''ghost'') = [''turn-0'']"
proof -
  have row: "row_at (cr_runs (new_runner 30)) ''ghost'' = None" "rs_connected (cr_runs (new_runner 30))" by code_simp+
  have con: "ts_connected (cr_transcripts (new_runner 30))" by code_simp
  have "\<exists>si. prepare_turn sample_env ''ghost'' ''hi'' (new_runner 30) = Ok (''turn-0'', si, DirectExecutor)"
    by (simp add: prepare_turn_def check_not_terminal_def get_def new_runner_def load_recent_turns_def ensure_connected_def
        of_workflow_def newest_def next_turn_number_def turn_name_def show_int_def show_nat.simps get_step_executor_def
        sample_env_def Let_def)
  then obtain si where p: "prepare_turn sample_env ''ghost'' ''hi'' (new_runner 30) = Ok (''turn-0'', si, DirectExecutor)" ..
  have run: "run_no_span (ce_execute sample_env DirectExecutor) (stack sample_env) si 0 = (Inr sample_reply, 1)"
    by (simp add: run_no_span_def sample_env_def stack_def TracingMiddleware_def)
  have "is_ok (turn_log (ce_json sample_env) (ce_stamp sample_env 1) ''hi'' sample_reply)"
    "is_ok (normalize_transcript_events (ce_validate sample_env) (Some (eo_transcript sample_reply)))" by code_simp+
  then obtain ms events where l: "turn_log (ce_json sample_env) (ce_stamp sample_env 1) ''hi'' sample_reply = Ok ms"
    and e: "normalize_transcript_events (ce_validate sample_env) (Some (eo_transcript sample_reply)) = Ok events"
    by (auto simp: is_ok_iff)
  show ?thesis using unknown_conversation_executes [OF row p run l e con]
    by (auto simp: save_at_def new_runner_def upsert_def turns_of_def of_workflow_def row_of_transcript_def)
qed

end
