(* ===== verification/SubprocessStep.thy ===== *)
theory SubprocessStep
  imports DirectStep
begin

text \<open>
  The subprocess executor of \<open>step/subprocess_exec.py\<close> (\<open>spawn: local\<close>) and the child it starts
  (\<open>step/subprocess_child.py\<close>). Parent and child exchange one JSON object in each direction. The
  parent wrote the child's input, so every entry of it has the type of the field it came from; the
  same holds of the child's answer. What happens to the process (its exit, its output, its
  time-out) is a parameter of the parent; the agent library of the child is an \<open>agent_env\<close>.
\<close>

section \<open>What is sent to the child\<close>

definition opt_text :: "string option \<Rightarrow> pyval" where
  "opt_text x = (case x of None \<Rightarrow> VNone | Some s \<Rightarrow> VStr s)"

definition texts :: "string list \<Rightarrow> pyval" where
  "texts xs = VList (map VStr xs)"

definition step_input_to_dict :: "exec_input \<Rightarrow> pydict" where
  "step_input_to_dict si =
     [(''prompt'', VStr (ei_prompt si)), (''system_prompt'', opt_text (ei_system_prompt si)),
      (''output_schema'', case ei_output_schema si of None \<Rightarrow> VNone | Some d \<Rightarrow> VDict d),
      (''tools'', texts (ei_tools si)), (''tools_module'', opt_text (ei_tools_module si)),
      (''context'', VDict (ei_context si)), (''execution_context'', VDict (ei_execution_context si)),
      (''provider'', VDict (ei_provider si)), (''timeout_seconds'', VInt (ei_timeout_seconds si)),
      (''sandbox_image'', VStr (ei_sandbox_image si)),
      (''mcp_servers'', case ei_mcp_servers si of None \<Rightarrow> VNone | Some ss \<Rightarrow> VList (map VDict ss)),
      (''allowed_skills'', case ei_allowed_skills si of None \<Rightarrow> VNone | Some ns \<Rightarrow> texts ns),
      (''workflow_id'', VStr (ei_workflow_id si)), (''step_name'', VStr (ei_step_name si)),
      (''output_key'', VStr (ei_output_key si)), (''attempt'', VInt (ei_attempt si))]"

section \<open>The child\<close>

definition opt_dict :: "pyval \<Rightarrow> pydict option" where
  "opt_dict v = (case v of VDict d \<Rightarrow> Some d | _ \<Rightarrow> None)"

definition opt_texts :: "pyval \<Rightarrow> string list option" where
  "opt_texts v = (case v of VList xs \<Rightarrow> Some (map text_of xs) | _ \<Rightarrow> None)"

definition child_request :: string where
  "child_request = ''Respond with valid JSON matching this schema:''"

definition build_user_content :: "pydict \<Rightarrow> string res" where
  "build_user_content input_data =
     (case map_of input_data ''prompt'' of
        None \<Rightarrow> Err (KeyError ''prompt'')
      | Some prompt \<Rightarrow>
          Ok (text_of prompt @ prior_block (dict_of (dget_or input_data ''context'' (VDict [])))
              @ execution_block (dict_of (dget input_data ''execution_context''))
              @ schema_block child_request (opt_dict (dget input_data ''output_schema''))))"

definition parse_content :: "json_lib \<Rightarrow> pyval \<Rightarrow> pydict option \<Rightarrow> pydict res" where
  "parse_content L content output_schema =
     (let failed = (\<lambda>m. [(''status'', VStr ''failed''), (''error'', VStr m), (''output'', VNone)]);
          completed = (\<lambda>v. [(''status'', VStr ''completed''), (''output'', v)]) in
        case content of
          VNone \<Rightarrow>
            if schema_wanted output_schema
            then Ok (failed ''LLM returned null content but output_schema was requested'')
            else Ok (completed (VDict [(''response'', VNone)]))
        | VDict d \<Rightarrow> Ok (completed (VDict d))
        | VStr s \<Rightarrow>
            (case json_loads L (strip_markdown_fence s) of
               Inr v \<Rightarrow> Ok (completed v)
             | Inl IntDigitsLimit \<Rightarrow> Err (ValueError int_limit_text)
             | Inl JSONDecodeError \<Rightarrow>
                 if schema_wanted output_schema
                 then Ok (failed (''LLM returned non-JSON response but output_schema was specified: '' @ take 200 s))
                 else Ok (completed (VDict [(''response'', VStr s)])))
        | _ \<Rightarrow> Ok (completed (VDict [(''response'', VStr (py_str content))])))"

text \<open>The entries every child result gets; a failed parse leaves an error event at the end.\<close>

definition child_result :: "string \<Rightarrow> pydict \<Rightarrow> int \<Rightarrow> int \<Rightarrow> pydict list \<Rightarrow> pydict" where
  "child_result ts parsed input_tokens output_tokens events =
     dict_set ''transcript''
       (VList (map VDict (events @ (if dget parsed ''status'' = VStr ''failed''
                                   then [error_transcript_event ts (text_of (dget parsed ''error''))] else []))))
       (dict_set ''output_tokens'' (VInt output_tokens) (dict_set ''input_tokens'' (VInt input_tokens) parsed))"

definition child_agent_call :: "'w agent_env \<Rightarrow> pydict \<Rightarrow> 'w host \<Rightarrow> (agent_exc + agent_call) \<times> 'w host" where
  "child_agent_call ae input_data h =
     and_then (load_tools ae (opt_str (dget input_data ''tools_module'')) h) (\<lambda>_ h1.
     and_then (raised (case map_of input_data ''provider'' of None \<Rightarrow> Err (KeyError ''provider'') | Some p \<Rightarrow> Ok (dict_of p)), h1) (\<lambda>provider h2.
     and_then (on_env (ensure_credentials_env provider) h2) (\<lambda>_ h3.
     and_then (raised (to_model_string provider), h3) (\<lambda>model h4.
     and_then (raised (get_tools (ho_registry h4) (map text_of (list_of (dget_or input_data ''tools'' (VList []))))), h4) (\<lambda>tools h5.
     and_then (raised (build_user_content input_data), h5) (\<lambda>user_content h6.
       (Inr \<lparr>ac_model = model, ac_instructions = opt_str (dget input_data ''system_prompt''), ac_tools = tools,
             ac_toolsets = toolsets (Some (map dict_of (list_of (dget input_data ''mcp_servers'')))),
             ac_skills = (case opt_texts (dget input_data ''allowed_skills'') of
                            None \<Rightarrow> None | Some ns \<Rightarrow> get_skills_capability (ae_skills ae) (Some ns)),
             ac_prompt = user_content, ac_history = [],
             ac_timeout = (case dget_or input_data ''timeout_seconds'' (VInt 600) of VInt t \<Rightarrow> t | _ \<Rightarrow> 600)\<rparr>, h6)))))))"

definition child_run_with_agent :: "'w agent_env \<Rightarrow> pydict \<Rightarrow> 'w host \<Rightarrow> (agent_exc + pydict) \<times> 'w host" where
  "child_run_with_agent ae input_data h =
     and_then (child_agent_call ae input_data h) (\<lambda>call h1.
     and_then (case ae_agent_run ae call (ho_world h1) of (r, w) \<Rightarrow> (r, h1\<lparr>ho_world := w\<rparr>)) (\<lambda>reply h2.
     and_then (raised (parse_content (ae_json ae) (ar_output reply) (opt_dict (dget input_data ''output_schema''))), h2) (\<lambda>parsed h3.
       let ts = ae_now_iso ae (ho_world h3) in
         (Inr (child_result ts parsed (ar_input_tokens reply) (ar_output_tokens reply)
            (transcript_events_from_messages ts (ar_new_messages reply) (output_text_of (ar_output reply))
               (ar_input_tokens reply) (ar_output_tokens reply))), h3))))"

definition child_run_model_request :: "'w agent_env \<Rightarrow> pydict \<Rightarrow> 'w host \<Rightarrow> (agent_exc + pydict) \<times> 'w host" where
  "child_run_model_request ae input_data h =
     (let output_schema = opt_dict (dget input_data ''output_schema'') in
     and_then (raised (case map_of input_data ''provider'' of None \<Rightarrow> Err (KeyError ''provider'') | Some p \<Rightarrow> Ok (dict_of p)), h) (\<lambda>provider h1.
     and_then (on_env (ensure_credentials_env provider) h1) (\<lambda>_ h2.
     and_then (raised (to_model_string provider), h2) (\<lambda>model h3.
     and_then (raised (build_user_content input_data), h3) (\<lambda>user_content h4.
     and_then (model_or_fallback ae
        \<lparr>mc_model = model, mc_instructions = opt_str (dget input_data ''system_prompt''), mc_prompt = user_content,
         mc_timeout = (case dget_or input_data ''timeout_seconds'' (VInt 600) of VInt t \<Rightarrow> t | _ \<Rightarrow> 600),
         mc_native = None\<rparr> output_schema h4) (\<lambda>reply h5.
     and_then (raised (parse_content (ae_json ae) (rp_text reply) output_schema), h5) (\<lambda>parsed h6.
       let ts = ae_now_iso ae (ho_world h6) in
         (Inr (child_result ts parsed (rp_input_tokens reply) (rp_output_tokens reply)
            [result_transcript_event ts (output_text_of (rp_text reply)) (rp_input_tokens reply) (rp_output_tokens reply)]), h6))))))))"

definition child_run :: "'w agent_env \<Rightarrow> pydict \<Rightarrow> 'w host \<Rightarrow> (agent_exc + pydict) \<times> 'w host" where
  "child_run ae input_data h =
     (let skills_cap = (case opt_texts (dget input_data ''allowed_skills'') of
                          None \<Rightarrow> None | Some ns \<Rightarrow> get_skills_capability (ae_skills ae) (Some ns)) in
        if truthy (dget_or input_data ''tools'' (VList [])) \<or> truthy (dget input_data ''mcp_servers'') \<or> skills_cap \<noteq> None
        then child_run_with_agent ae input_data h
        else child_run_model_request ae input_data h)"

text \<open>
  The child's \<open>main\<close>: the object it answers with for the object on its standard input, and what it
  prints for the text there; it prints nothing if that text is no JSON object.
\<close>

definition failed_answer :: "'w agent_env \<Rightarrow> agent_exc \<Rightarrow> 'w host \<Rightarrow> pydict" where
  "failed_answer ae exc h =
     [(''status'', VStr ''failed''), (''error'', VStr (agent_exc_str exc)), (''output'', VNone),
      (''transcript'', VList [VDict (error_transcript_event (ae_now_iso ae (ho_world h)) (agent_exc_str exc))]),
      (''input_tokens'', VInt 0), (''output_tokens'', VInt 0)]"

definition with_tools_module :: "string dict \<Rightarrow> pydict \<Rightarrow> pydict" where
  "with_tools_module env data =
     (let tools_module = (if truthy (dget data ''tools_module'') then dget data ''tools_module''
                          else case map_of env ''CLOUD_AGENTS_TOOLS_MODULE'' of None \<Rightarrow> VNone | Some m \<Rightarrow> VStr m) in
        if truthy tools_module then dict_set ''tools_module'' tools_module data else data)"

definition child_object :: "'w agent_env \<Rightarrow> pydict \<Rightarrow> 'w host \<Rightarrow> pydict \<times> 'w host" where
  "child_object ae data h =
     (case child_run ae (with_tools_module (ho_env h) data) h of
        (res, h1) \<Rightarrow>
          let result = (case res of Inr r \<Rightarrow> r | Inl exc \<Rightarrow> failed_answer ae exc h1) in
            (dict_set ''duration_ms'' (VInt (ae_now_ms ae (ho_world h1) - ae_now_ms ae (ho_world h))) result, h1))"

definition child_main :: "'w agent_env \<Rightarrow> string \<Rightarrow> 'w host \<Rightarrow> string option \<times> 'w host" where
  "child_main ae raw h =
     (case json_loads (ae_json ae) raw of
        Inr (VDict data) \<Rightarrow> (case child_object ae data h of (result, h1) \<Rightarrow> (Some (json_dumps (VDict result)), h1))
      | _ \<Rightarrow> (None, h))"

section \<open>The parent\<close>

datatype process_end = TimedOut | Exited int string string

text \<open>The exit code, the standard output and the decoded standard error, stripped.\<close>

definition child_answer :: "json_lib \<Rightarrow> process_end \<Rightarrow> pydict res" where
  "child_answer L p =
     (case p of
        TimedOut \<Rightarrow> Err (RuntimeError ''timeout'')
      | Exited code stdout stderr \<Rightarrow>
          if code \<noteq> 0
          then Err (RuntimeError (''Child process exited with code '' @ show_int code @ '': ''
                 @ (if stderr = [] then ''Unknown error'' else stderr)))
          else (case json_loads L stdout of
                  Inr (VDict d) \<Rightarrow> Ok d
                | Inr _ \<Rightarrow> Err (AttributeError ''object has no attribute get'')
                | Inl IntDigitsLimit \<Rightarrow> Err (ValueError int_limit_text)
                | Inl JSONDecodeError \<Rightarrow> Err (RuntimeError (''Child process returned invalid JSON: '' @ take 500 stdout))))"

definition int_of_entry :: "pyval \<Rightarrow> int" where
  "int_of_entry v = (case v of VInt i \<Rightarrow> i | _ \<Rightarrow> 0)"

definition result_of_answer :: "pydict \<Rightarrow> int \<Rightarrow> exec_output" where
  "result_of_answer d duration_ms =
     (StepResult (text_of (dget_or d ''status'' (VStr ''failed''))))
       \<lparr>eo_output := dget d ''output'', eo_error := opt_str (dget d ''error''),
        eo_transcript := map dict_of (list_of (dget_or d ''transcript'' (VList []))),
        eo_input_tokens := int_of_entry (dget_or d ''input_tokens'' (VInt 0)),
        eo_output_tokens := int_of_entry (dget_or d ''output_tokens'' (VInt 0)),
        eo_duration_ms := duration_ms\<rparr>"

definition subprocess_run ::
  "json_lib \<Rightarrow> (string \<Rightarrow> int \<Rightarrow> 'w \<Rightarrow> process_end \<times> 'w) \<Rightarrow> ('w \<Rightarrow> int) \<Rightarrow> exec_input \<Rightarrow> 'w \<Rightarrow> exec_output \<times> 'w" where
  "subprocess_run L communicate now_ms step_input w =
     (case communicate (json_dumps (VDict (step_input_to_dict step_input))) (ei_timeout_seconds step_input) w of
        (p, w1) \<Rightarrow>
          let duration_ms = now_ms w1 - now_ms w in
            (if p = TimedOut
             then (StepResult ''failed'')\<lparr>eo_error := Some (''Step '' @ [sq] @ ei_step_name step_input @ [sq]
                    @ '' timed out after '' @ show_int (ei_timeout_seconds step_input) @ ''s -- child process killed''),
                    eo_duration_ms := duration_ms\<rparr>
             else case child_answer L p of
                    Inl e \<Rightarrow> (StepResult ''failed'')\<lparr>eo_error := Some (exc_str e), eo_duration_ms := duration_ms\<rparr>
                  | Inr d \<Rightarrow> result_of_answer d duration_ms, w1))"

section \<open>Structured answers\<close>

lemma takeWhile_last: "takeWhile P u \<noteq> [] \<Longrightarrow> P (List.last (takeWhile P u))"
  using last_in_set set_takeWhileD by fast

lemma lex_exp_last: "fst (lex_exp s) \<noteq> [] \<Longrightarrow> py_digit (List.last (fst (lex_exp s)))"
  by (auto simp: lex_exp_def Let_def split_def takeWhile_last split: if_splits)

lemma float_text_last: "float_text f \<Longrightarrow> f \<noteq> [] \<and> py_digit (List.last f)"
proof -
  assume "float_text f"
  then obtain i r where i: "lex_int f = Some (i, r)"
    and r: "snd (lex_exp (snd (lex_frac r))) = []" "fst (lex_frac r) \<noteq> [] \<or> fst (lex_exp (snd (lex_frac r))) \<noteq> []"
    by (auto simp: float_text_def Let_def split_def split: option.splits)
  then have "r \<noteq> []" by (auto simp: lex_frac_def lex_exp_def)
  have f: "i @ r = f" using lex_int_append [OF i \<open>r \<noteq> []\<close>, of "[]"] by simp
  note digits = takeWhile_last [of py_digit]
  let ?r1 = "snd (lex_frac r)"
  have "r = fst (lex_frac r) @ ?r1" using lex_frac_append [of "[]" r] \<open>r \<noteq> []\<close> by simp
  moreover have e: "fst (lex_exp ?r1) = ?r1" using lex_exp_append [of "[]" ?r1] r(1) by simp
  ultimately have split: "r = fst (lex_frac r) @ fst (lex_exp ?r1)" by simp
  have "py_digit (List.last r)"
  proof (cases "fst (lex_exp ?r1) = []")
    case True
    then have "List.last r = List.last (fst (lex_frac r))" and "fst (lex_frac r) \<noteq> []"
      using split r(2) by (metis append_Nil2, blast)
    then show ?thesis using digits by (auto simp: lex_frac_def split: if_splits)
  next
    case False
    then have "List.last r = List.last (fst (lex_exp ?r1))" using split by (metis last_appendR)
    then show ?thesis using False lex_exp_last by simp
  qed
  then show ?thesis using f \<open>r \<noteq> []\<close> by auto
qed

lemma show_int_last: "py_digit (List.last (show_int i))"
proof -
  have "show_nat n \<noteq> [] \<and> py_digit (List.last (show_nat n))" for n
    using show_nat_digits [of n] last_in_set [of "show_nat n"] by (auto simp: list_all_iff)
  then show ?thesis by (auto simp: show_int_def)
qed

text \<open>A printed value neither begins nor ends with white space, nor begins with a back quote.\<close>

lemma printed_ends:
  assumes "json_value L v"
  shows "json_dumps v \<noteq> [] \<and> \<not> py_space (hd (json_dumps v)) \<and> \<not> py_space (List.last (json_dumps v))
    \<and> hd (json_dumps v) \<noteq> CHR ''`''"
proof -
  obtain c t where c: "json_dumps v = c # t" "lead_char c" using json_lead [OF assms] by blast
  then have first: "\<not> py_space c" "c \<noteq> CHR ''`''"
    by (auto simp: lead_char_def digit_not_space) (auto simp: py_space_def py_digit_def code_of_def)
  have "\<not> py_space (List.last (json_dumps v))"
  proof (cases v)
    case (VInt i)
    then show ?thesis using show_int_last digit_not_space by simp
  next
    case (VFloat f)
    then have "f \<in> {''nan'', ''inf'', ''-inf''} \<or> float_text f" using assms by auto
    then show ?thesis using VFloat float_text_last [of f] digit_not_space by (auto simp: py_space_def code_of_def)
  qed (auto simp: json_str_def py_space_def code_of_def)
  then show ?thesis using c first by simp
qed

lemma no_fence: "json_value L v \<Longrightarrow> strip_markdown_fence (json_dumps v) = json_dumps v"
proof -
  assume "json_value L v"
  note e = printed_ends [OF this]
  then have "py_strip (json_dumps v) = json_dumps v" by (intro py_strip_ends) simp_all
  moreover have "\<not> prefix ''```'' (json_dumps v)" using e by (cases "json_dumps v") auto
  ultimately show ?thesis by (simp add: strip_markdown_fence_def Let_def)
qed

definition fenced :: "string \<Rightarrow> string" where
  "fenced s = ''```json'' @ [newline] @ s @ [newline] @ ''```''"

lemma py_strip_lines: "s \<noteq> [] \<Longrightarrow> \<not> py_space (hd s) \<Longrightarrow> \<not> py_space (List.last s) \<Longrightarrow> py_strip (newline # s @ [newline]) = s"
proof -
  assume s: "s \<noteq> []" "\<not> py_space (hd s)" "\<not> py_space (List.last s)"
  have nl: "py_space newline" by (simp add: py_space_def code_of_def)
  have "dropWhile py_space (s @ [newline]) = s @ [newline]" "dropWhile py_space (rev s) = rev s"
    using s by (simp_all add: dropWhile_eq_self_iff hd_rev hd_append)
  then show ?thesis using nl by (simp add: py_strip_def)
qed

lemma strip_fenced:
  assumes "s \<noteq> []" "\<not> py_space (hd s)" "\<not> py_space (List.last s)"
  shows "strip_markdown_fence (fenced s) = s"
proof -
  have "py_strip (fenced s) = fenced s"
    by (rule py_strip_ends) (simp_all add: fenced_def py_space_def code_of_def)
  moreover have "drop 3 (fenced s) = ''json'' @ (newline # s @ [newline]) @ ''```''" by (simp add: fenced_def)
  moreover have "prefix ''```'' (fenced s)" by (simp add: fenced_def)
  moreover have "suffix ''```'' (newline # s @ [newline, CHR ''`'', CHR ''`'', CHR ''`''])"
    by (rule suffixI [of _ "newline # s @ [newline]"]) simp
  moreover have "py_lower ''json'' = ''json''" by code_simp
  ultimately show ?thesis using py_strip_lines [OF assms]
    by (simp add: strip_markdown_fence_def Let_def)
qed

text \<open>
  A structured answer arrives as the model meant it: for every JSON value, its printed form, bare or
  wrapped in a markdown fence, parses to that value, with or without a schema.
\<close>

theorem structured_answer_parsed:
  assumes "json_value L v"
  shows "parse_output L (VStr (json_dumps v)) output_schema = Ok v
    \<and> parse_output L (VStr (fenced (json_dumps v))) output_schema = Ok v"
  using printed_ends [OF assms] strip_fenced [of "json_dumps v"] no_fence [OF assms] reads_back [OF assms]
  by (simp add: parse_output_def)

theorem structured_answer_parsed_witness:
  "parse_output plain_json (VStr (fenced (json_dumps (VDict [(''ok'', VBool True)])))) None = Ok (VDict [(''ok'', VBool True)])"
proof -
  have "json_value plain_json (VDict [(''ok'', VBool True)])" by code_simp
  then show ?thesis using structured_answer_parsed by blast
qed

text \<open>An answer that happens to be a JSON number or list becomes an output that is no object.\<close>

lemma bare_number_output: "parse_output plain_json (VStr ''42'') None = Ok (VInt 42)"
  by code_simp

section \<open>Agreement of the two executors\<close>

text \<open>
  The direct and the subprocess executor read an answer the same way: for every content a model can
  return and every schema, one yields an output exactly if the other does, and it is the same output;
  otherwise both report a failed step, one by raising, the other by its status.
\<close>

theorem spawn_modes_parse_alike:
  "(case parse_output L content output_schema of
      Inr v \<Rightarrow> parse_content L content output_schema = Ok [(''status'', VStr ''completed''), (''output'', v)]
    | Inl e \<Rightarrow> is_ValueError e \<and>
        (parse_content L content output_schema = Err e
         \<or> (\<exists>m. parse_content L content output_schema = Ok [(''status'', VStr ''failed''), (''error'', VStr m), (''output'', VNone)])))"
proof (cases content)
  case (VStr s)
  show ?thesis
  proof (cases "json_loads L (strip_markdown_fence s)")
    case (Inl e)
    then show ?thesis using VStr by (cases e) (simp_all add: parse_output_def parse_content_def)
  qed (simp add: VStr parse_output_def parse_content_def)
qed (simp_all add: parse_output_def parse_content_def)


definition quiet_env :: "unit agent_env" where
  "quiet_env = \<lparr>ae_json = plain_json, ae_skills = \<lparr>sk_paths = [], sk_realpath = (\<lambda>p. p), sk_isdir = (\<lambda>p. False), sk_installed = False\<rparr>,
     ae_load_tools_module = (\<lambda>m reg. Inr reg),
     ae_model_request = (\<lambda>c w. (Inr \<lparr>rp_text = VStr ''{}'', rp_input_tokens = 3, rp_output_tokens = 2\<rparr>, w)),
     ae_agent_run = (\<lambda>c w. (Inl (OtherError ''unused''), w)), ae_agent_stream = (\<lambda>c w. ([], Inl (OtherError ''unused''), w)),
     ae_now_iso = (\<lambda>w. ''t''), ae_now_ms = (\<lambda>w. 0)\<rparr>"

definition quiet_host :: "unit host" where
  "quiet_host = \<lparr>ho_env = [], ho_registry = [], ho_world = ()\<rparr>"


end
