(* ===== verification/Auth.thy ===== *)
theory Auth
  imports Submission Complex_Main
begin

text \<open>
  Bearer authentication of \<open>runtime/auth.py\<close>: the tokens with optional expiry read from the
  environment, the middleware and the router dependency that check them, the middleware that asks the
  Kubernetes API and the token the runner sends itself. The value of a float literal and the answer of
  the Kubernetes API are arguments; header values are text with code points below 256, as the server
  decodes them.
\<close>

section \<open>Token map\<close>

datatype pyfloat = Finite rat | PosInf | NegInf | NaN

text \<open>\<open>now > x\<close> for the finite time of a clock.\<close>

fun past :: "rat \<Rightarrow> pyfloat \<Rightarrow> bool" where
  "past now (Finite x) = (now > x)"
| "past now NegInf = True"
| "past now _ = False"

type_synonym token_map = "pyfloat option dict"

text \<open>\<open>raw.rsplit(":", 1)\<close> of a text with a colon.\<close>

definition rsplit_colon :: "string \<Rightarrow> string \<times> string" where
  "rsplit_colon raw =
     (let suffix = rev (takeWhile (\<lambda>c. c \<noteq> CHR '':'') (rev raw)) in
        (take (length raw - length suffix - 1) raw, suffix))"

definition token_entry :: "(string \<Rightarrow> pyfloat option) \<Rightarrow> string \<Rightarrow> string \<times> pyfloat option" where
  "token_entry float_of raw =
     (if CHR '':'' \<in> set raw
      then (case float_of (snd (rsplit_colon raw)) of
              Some expiry \<Rightarrow> (fst (rsplit_colon raw), Some expiry)
            | None \<Rightarrow> (raw, None))
      else (raw, None))"

definition parse_token_map :: "(string \<Rightarrow> pyfloat option) \<Rightarrow> string list \<Rightarrow> token_map" where
  "parse_token_map float_of raw_tokens =
     fold (\<lambda>raw m. if raw = [] then m else (case token_entry float_of raw of (t, x) \<Rightarrow> dict_set t x m)) raw_tokens []"

text \<open>
  \<open>secrets.compare_digest\<close> on two texts: equality, but a text that is not ASCII raises. Every candidate
  is compared.
\<close>

definition is_ascii :: "string \<Rightarrow> bool" where
  "is_ascii s = list_all (\<lambda>c. code_of c < 128) s"

definition compare_digest :: "string \<Rightarrow> string \<Rightarrow> bool res" where
  "compare_digest a b =
     (if is_ascii a \<and> is_ascii b then Ok (a = b)
      else Err (TypeError ''comparing strings with non-ASCII characters is not supported''))"

fun match_candidates :: "string \<Rightarrow> string list \<Rightarrow> string option \<Rightarrow> string option res" where
  "match_candidates presented [] found = Ok found"
| "match_candidates presented (c # cs) found =
     then_do (compare_digest presented c) (\<lambda>same. match_candidates presented cs (if same then Some c else found))"

definition find_matching_token :: "string \<Rightarrow> token_map \<Rightarrow> string option res" where
  "find_matching_token presented valid_tokens = match_candidates presented (keys valid_tokens) None"

definition token_prefix :: "string \<Rightarrow> string" where
  "token_prefix token = take 4 token"

section \<open>Checking a request\<close>

record http_request =
  hr_path :: string
  hr_authorization :: string

datatype auth_answer = PassOn "caller_identity option" | Unauthorized string

definition exempt_auth_paths :: "string list" where
  "exempt_auth_paths = [''/healthz'', ''/livez'', ''/metrics'']"

definition rejected :: "string \<Rightarrow> string \<Rightarrow> string \<Rightarrow> audit_event" where
  "rejected token path reason =
     \<lparr>au_type = ''auth_rejected'', au_workflow_id = [], au_step_name = [], au_actor = [],
      au_details = [(''token_prefix'', VStr (token_prefix token)), (''path'', VStr path), (''reason'', VStr reason)]\<rparr>"

definition shared_secret_caller :: caller_identity where
  "shared_secret_caller = \<lparr>ci_username = ''anonymous'', ci_uid = None, ci_groups = [], ci_auth_mode = ''shared_secret''\<rparr>"

abbreviation invalid_token :: auth_answer where
  "invalid_token \<equiv> Unauthorized ''Invalid or missing authorization token''"

text \<open>The part the middleware and the dependency share: the header, the token, its expiry.\<close>

definition check_bearer :: "rat \<Rightarrow> token_map \<Rightarrow> http_request \<Rightarrow> (auth_answer \<times> audit_event list) res" where
  "check_bearer now tokens req =
     (if \<not> prefix ''Bearer '' (hr_authorization req) then Ok (invalid_token, [])
      else
        let presented = drop 7 (hr_authorization req) in
          then_do (find_matching_token presented tokens) (\<lambda>matched.
            case matched of
              None \<Rightarrow> Ok (invalid_token, [rejected presented (hr_path req) ''invalid''])
            | Some t \<Rightarrow>
                (case the (map_of tokens t) of
                   Some expiry \<Rightarrow>
                     if past now expiry then Ok (invalid_token, [rejected presented (hr_path req) ''expired''])
                     else Ok (PassOn (Some shared_secret_caller), [])
                 | None \<Rightarrow> Ok (PassOn (Some shared_secret_caller), []))))"

definition bearer_dispatch :: "rat \<Rightarrow> token_map \<Rightarrow> http_request \<Rightarrow> (auth_answer \<times> audit_event list) res" where
  "bearer_dispatch now tokens req =
     (if hr_path req \<in> set exempt_auth_paths then Ok (PassOn None, [])
      else if tokens = [] then Ok (PassOn None, [])
      else check_bearer now tokens req)"

definition verify_bearer :: "rat \<Rightarrow> token_map \<Rightarrow> http_request \<Rightarrow> (auth_answer \<times> audit_event list) res" where
  "verify_bearer now tokens req = check_bearer now tokens req"

text \<open>The review of the Kubernetes API: user name, uid and groups, or no answer.\<close>

definition review_dispatch ::
  "(string \<Rightarrow> (string \<times> string option \<times> string list) option) \<Rightarrow> http_request \<Rightarrow> auth_answer" where
  "review_dispatch review req =
     (if hr_path req \<in> set exempt_auth_paths then PassOn None
      else if \<not> prefix ''Bearer '' (hr_authorization req) then Unauthorized ''Missing bearer token''
      else case review (drop 7 (hr_authorization req)) of
        None \<Rightarrow> Unauthorized ''Token validation failed''
      | Some (username, uid, groups) \<Rightarrow>
          PassOn (Some \<lparr>ci_username = username, ci_uid = uid, ci_groups = groups, ci_auth_mode = ''sa_token''\<rparr>))"

section \<open>Configuration\<close>

definition env_get :: "string dict \<Rightarrow> string \<Rightarrow> string \<Rightarrow> string" where
  "env_get env key dflt = (case map_of env key of None \<Rightarrow> dflt | Some v \<Rightarrow> v)"

definition get_auth_mode :: "string dict \<Rightarrow> string" where
  "get_auth_mode env = env_get env ''AUTH_MODE'' ''shared_secret''"

definition get_api_token :: "string dict \<Rightarrow> string" where
  "get_api_token env = env_get env ''AGENT_API_TOKEN'' []"

definition get_api_tokens :: "string dict \<Rightarrow> string list" where
  "get_api_tokens env =
     (let multi = env_get env ''AGENT_API_TOKENS'' []; single = get_api_token env;
          tokens = filter (\<lambda>t. t \<noteq> []) (map py_strip (py_split '','' multi)) in
        if single \<noteq> [] \<and> single \<notin> set tokens then tokens @ [single] else tokens)"

text \<open>The token of the runner; \<open>sa_token\<close> is the content of the mounted file, if it is there.\<close>

definition get_runner_auth_token :: "string option \<Rightarrow> string dict \<Rightarrow> string option" where
  "get_runner_auth_token sa_token env =
     (if get_auth_mode env = ''sa_token'' then map_option py_strip sa_token
      else if get_api_token env = [] then None else Some (get_api_token env))"

section \<open>Who is admitted\<close>

lemma match_candidates_ascii:
  "is_ascii presented \<Longrightarrow> list_all is_ascii cs \<Longrightarrow>
     match_candidates presented cs found = Ok (if presented \<in> set cs then Some presented else found)"
  by (induction cs arbitrary: found) (auto simp: compare_digest_def)

lemma match_candidates_non_ascii:
  "\<not> is_ascii presented \<Longrightarrow> cs \<noteq> [] \<Longrightarrow> \<exists>m. match_candidates presented cs found = Err (TypeError m)"
  by (cases cs) (auto simp: compare_digest_def)

lemma find_matching_ascii:
  "is_ascii presented \<Longrightarrow> list_all is_ascii (keys m) \<Longrightarrow>
     find_matching_token presented m = Ok (if map_of m presented = None then None else Some presented)"
  by (auto simp: find_matching_token_def match_candidates_ascii map_of_eq_None_iff split: if_splits)

lemma map_of_fold_dict_set:
  "map_of (fold (\<lambda>x m. dict_set (fst (f x)) (snd (f x)) m) xs m0) t = map_of (rev (map f xs) @ m0) t"
  by (induction xs arbitrary: m0) (auto simp: map_add_def fun_upd_def map_of_append split: option.splits)

text \<open>The last entry of the configuration that names a token decides on its expiry.\<close>

definition configured :: "(string \<Rightarrow> pyfloat option) \<Rightarrow> string list \<Rightarrow> (string \<times> pyfloat option) list" where
  "configured float_of raws = rev (map (token_entry float_of) (filter (\<lambda>r. r \<noteq> []) raws))"

lemma parse_token_map_fold:
  "parse_token_map float_of raws =
     fold (\<lambda>x m. dict_set (fst (token_entry float_of x)) (snd (token_entry float_of x)) m) (filter (\<lambda>r. r \<noteq> []) raws) []"
proof -
  have "fold (\<lambda>raw m. if raw = [] then m else (case token_entry float_of raw of (t, x) \<Rightarrow> dict_set t x m)) raws m0
     = fold (\<lambda>x m. dict_set (fst (token_entry float_of x)) (snd (token_entry float_of x)) m) (filter (\<lambda>r. r \<noteq> []) raws) m0" for m0
    by (induction raws arbitrary: m0) (simp_all add: split_def)
  then show ?thesis by (simp add: parse_token_map_def)
qed

lemma map_of_parse_token_map: "map_of (parse_token_map float_of raws) t = map_of (configured float_of raws) t"
  by (simp add: parse_token_map_fold map_of_fold_dict_set configured_def)

lemma token_entry_ascii: "is_ascii raw \<Longrightarrow> is_ascii (fst (token_entry float_of raw))"
  by (auto simp: token_entry_def rsplit_colon_def Let_def is_ascii_def list_all_iff dest: in_set_takeD split: option.splits)

lemma parsed_keys: "set (keys (parse_token_map float_of raws)) = fst ` set (configured float_of raws)"
proof -
  have "t \<in> set (keys (parse_token_map float_of raws)) \<longleftrightarrow> map_of (configured float_of raws) t \<noteq> None" for t
    by (simp add: map_of_parse_token_map [symmetric] map_of_eq_None_iff)
  then show ?thesis by (auto simp: map_of_eq_None_iff)
qed

lemma parsed_ascii: "list_all is_ascii raws \<Longrightarrow> list_all is_ascii (keys (parse_token_map float_of raws))"
  using parsed_keys [of float_of raws] unfolding list_all_iff
  by (fastforce simp: configured_def intro: token_entry_ascii)

lemma parsed_nonempty: "\<exists>r \<in> set raws. r \<noteq> [] \<Longrightarrow> parse_token_map float_of raws \<noteq> []"
  using parsed_keys [of float_of raws] by (auto simp: configured_def filter_empty_conv)

lemma check_bearer_ascii:
  assumes "list_all is_ascii (keys tokens)" "is_ascii presented"
  shows "check_bearer now tokens \<lparr>hr_path = path, hr_authorization = ''Bearer '' @ presented\<rparr> =
    Ok (case map_of tokens presented of
          None \<Rightarrow> (invalid_token, [rejected presented path ''invalid''])
        | Some (Some e) \<Rightarrow> if past now e then (invalid_token, [rejected presented path ''expired''])
                           else (PassOn (Some shared_secret_caller), [])
        | Some None \<Rightarrow> (PassOn (Some shared_secret_caller), []))"
  using assms by (auto simp: check_bearer_def find_matching_ascii split: option.splits)

lemma check_bearer_non_ascii:
  assumes "tokens \<noteq> []" "\<not> is_ascii presented"
  shows "\<exists>m. check_bearer now tokens \<lparr>hr_path = path, hr_authorization = ''Bearer '' @ presented\<rparr> = Err (TypeError m)"
  using match_candidates_non_ascii [OF assms(2), of "keys tokens" None] assms(1)
  by (auto simp: check_bearer_def find_matching_token_def)

text \<open>
  C22. A protected endpoint admits exactly the holders of a live token: with tokens configured, a request
  to a path that is not exempt is passed on if and only if its header is \<open>Bearer\<close> with a token of the
  configuration that has no expiry or one that lies not in the past, where the last entry for a token
  decides; it is then passed on as the anonymous shared-secret caller.
\<close>

theorem bearer_admits_iff:
  assumes "hr_path req \<notin> set exempt_auth_paths"
    and "\<exists>r \<in> set raws. r \<noteq> []" and "list_all is_ascii raws"
  shows "(\<exists>c es. bearer_dispatch now (parse_token_map float_of raws) req = Ok (PassOn c, es))
     \<longleftrightarrow> (\<exists>t x. hr_authorization req = ''Bearer '' @ t \<and> map_of (configured float_of raws) t = Some x
             \<and> (\<forall>e. x = Some e \<longrightarrow> \<not> past now e))"
proof (cases "prefix ''Bearer '' (hr_authorization req)")
  case False
  then have "bearer_dispatch now (parse_token_map float_of raws) req = Ok (invalid_token, [])"
    using assms(1) parsed_nonempty [OF assms(2), of float_of] by (simp add: bearer_dispatch_def check_bearer_def)
  with False show ?thesis by (auto simp: prefix_def)
next
  case True
  then obtain p where p: "hr_authorization req = ''Bearer '' @ p" by (auto simp: prefix_def)
  then have d: "bearer_dispatch now (parse_token_map float_of raws) req =
      check_bearer now (parse_token_map float_of raws) \<lparr>hr_path = hr_path req, hr_authorization = ''Bearer '' @ p\<rparr>"
    using assms(1) parsed_nonempty [OF assms(2), of float_of] by (cases req) (simp add: bearer_dispatch_def)
  note keys = parsed_ascii [OF assms(3), of float_of]
  show ?thesis
  proof (cases "is_ascii p")
    case True
    have "(\<exists>c es. bearer_dispatch now (parse_token_map float_of raws) req = Ok (PassOn c, es))
        \<longleftrightarrow> (\<exists>x. map_of (configured float_of raws) p = Some x \<and> (\<forall>e. x = Some e \<longrightarrow> \<not> past now e))"
      unfolding d check_bearer_ascii [OF keys True] map_of_parse_token_map by (simp split: option.split)
    then show ?thesis unfolding p by simp
  next
    case False
    then have "map_of (configured float_of raws) p = None"
      using keys by (auto simp: map_of_parse_token_map [symmetric] map_of_eq_None_iff list_all_iff)
    moreover have "\<nexists>c es. bearer_dispatch now (parse_token_map float_of raws) req = Ok (PassOn c, es)"
      using check_bearer_non_ascii [OF parsed_nonempty [OF assms(2)] False] unfolding d by (metis Inl_Inr_False)
    ultimately show ?thesis unfolding p by simp
  qed
qed

theorem bearer_admits_iff_witness:
  "(\<exists>c es. bearer_dispatch 50 (parse_token_map (\<lambda>s. if s = ''100'' then Some (Finite 100) else None) [''old:100'', ''new''])
        \<lparr>hr_path = ''/run'', hr_authorization = ''Bearer old''\<rparr> = Ok (PassOn c, es))"
proof -
  let ?f = "\<lambda>s. if s = ''100'' then Some (Finite 100) else None"
  have "map_of (configured ?f [''old:100'', ''new'']) ''old'' = Some (Some (Finite 100))"
    by (simp add: configured_def token_entry_def rsplit_colon_def)
  then show ?thesis
    by (subst bearer_admits_iff) (simp_all add: exempt_auth_paths_def is_ascii_def code_of_def)
qed

text \<open>The dependency of the routers decides as the middleware does on a path that is not exempt.\<close>

lemma dependency_agrees:
  "hr_path req \<notin> set exempt_auth_paths \<Longrightarrow> tokens \<noteq> [] \<Longrightarrow> verify_bearer now tokens req = bearer_dispatch now tokens req"
  by (simp add: verify_bearer_def bearer_dispatch_def)

text \<open>
  An unauthenticated request can raise in the middleware: a token with a character outside ASCII makes
  \<open>compare_digest\<close> raise \<open>TypeError\<close>, which nothing catches.
\<close>

lemma non_ascii_token_raises:
  "\<exists>m. bearer_dispatch now (parse_token_map float_of [''secret''])
     \<lparr>hr_path = ''/run'', hr_authorization = ''Bearer '' @ [char_of (233 :: nat)]\<rparr> = Err (TypeError m)"
proof -
  have "parse_token_map float_of [''secret''] \<noteq> []" by (rule parsed_nonempty) simp
  moreover have "\<not> is_ascii [char_of (233 :: nat)]" by (simp add: is_ascii_def code_of_def)
  ultimately show ?thesis
    using check_bearer_non_ascii by (fastforce simp: bearer_dispatch_def exempt_auth_paths_def)
qed

text \<open>
  The expiry of a token is lost if the same token is also the single one: the merged list has an
  entry without expiry last.
\<close>

lemma single_token_drops_expiry:
  "get_api_tokens [(''AGENT_API_TOKENS'', ''tok:100''), (''AGENT_API_TOKEN'', ''tok'')] = [''tok:100'', ''tok'']
   \<and> map_of (parse_token_map float_of [''tok:100'', ''tok'']) ''tok'' = Some None"
proof -
  have "get_api_tokens [(''AGENT_API_TOKENS'', ''tok:100''), (''AGENT_API_TOKEN'', ''tok'')] = [''tok:100'', ''tok'']"
    by code_simp
  then show ?thesis by (simp add: map_of_parse_token_map configured_def token_entry_def)
qed

text \<open>
  The runner sends its token with the expiry suffix, so a middleware configured from the same
  environment does not know the token and refuses the runner.
\<close>

lemma runner_token_refused:
  assumes "float_of ''100'' = Some (Finite 100)"
  shows "get_runner_auth_token sa [(''AGENT_API_TOKEN'', ''tok:100'')] = Some ''tok:100''
    \<and> (\<nexists>c es. bearer_dispatch now (parse_token_map float_of (get_api_tokens [(''AGENT_API_TOKEN'', ''tok:100'')]))
         \<lparr>hr_path = ''/v1/agent/run'', hr_authorization = ''Bearer tok:100''\<rparr> = Ok (PassOn c, es))"
proof -
  have "get_api_tokens [(''AGENT_API_TOKEN'', ''tok:100'')] = [''tok:100'']"
    by code_simp
  moreover have "map_of (configured float_of [''tok:100'']) ''tok:100'' = None"
    using assms by (simp add: configured_def token_entry_def rsplit_colon_def)
  moreover have "keys (parse_token_map float_of [''tok:100'']) = [''tok'']"
    using assms by (simp add: parse_token_map_def token_entry_def rsplit_colon_def)
  ultimately show ?thesis
    using check_bearer_ascii [of "parse_token_map float_of [''tok:100'']" "''tok:100''" now "''/v1/agent/run''"]
    by (auto simp: get_runner_auth_token_def get_auth_mode_def get_api_token_def env_get_def bearer_dispatch_def
        exempt_auth_paths_def map_of_parse_token_map is_ascii_def code_of_def)
qed

end
