(* ===== verification/Spawner.thy ===== *)
theory Spawner
  imports PyValue Complex_Main "HOL-Library.Multiset"
begin

text \<open>
  Sandboxes: the deadlines their expiry is computed from (\<open>spawner/lifetime.py\<close>) and the slots of the
  concurrency cap with the interface every spawner has (\<open>spawner/base.py\<close>). The sandboxes themselves
  belong to the implementation below the interface, so what \<open>_do_spawn\<close> and \<open>_do_destroy\<close> answer is an
  argument. The last section lets any number of steps use the slots at once.
\<close>

section \<open>Deadlines (spawner/lifetime.py)\<close>

definition default_run_timeout_seconds :: int where
  "default_run_timeout_seconds = 600"

definition sandbox_gateway_ready_timeout_seconds :: int where
  "sandbox_gateway_ready_timeout_seconds = 300"

definition sandbox_http_ready_timeout_seconds :: int where
  "sandbox_http_ready_timeout_seconds = 60"

definition sandbox_spawn_deadline_seconds :: int where
  "sandbox_spawn_deadline_seconds =
     30 + sandbox_gateway_ready_timeout_seconds + sandbox_http_ready_timeout_seconds + 30"

definition sandbox_transcript_timeout_seconds :: int where
  "sandbox_transcript_timeout_seconds = 30"

definition sandbox_transcript_save_timeout_seconds :: int where
  "sandbox_transcript_save_timeout_seconds = 30"

definition sandbox_cancel_grace_seconds :: int where
  "sandbox_cancel_grace_seconds = 5"

definition sandbox_destroy_grace_seconds :: int where
  "sandbox_destroy_grace_seconds = 120"

lemmas deadline_defs = default_run_timeout_seconds_def sandbox_gateway_ready_timeout_seconds_def
  sandbox_http_ready_timeout_seconds_def sandbox_spawn_deadline_seconds_def
  sandbox_transcript_timeout_seconds_def sandbox_transcript_save_timeout_seconds_def
  sandbox_cancel_grace_seconds_def sandbox_destroy_grace_seconds_def

text \<open>
  \<open>float(v)\<close>. The value of a text or of a float literal is the argument \<open>float_of\<close>, which has no
  answer for a text that is no finite number.
\<close>

definition py_float :: "(string \<Rightarrow> rat option) \<Rightarrow> pyval \<Rightarrow> rat res" where
  "py_float float_of v =
     (case v of
        VInt i \<Rightarrow> Ok (of_int i)
      | VBool b \<Rightarrow> Ok (of_int (bool_int b))
      | VFloat f \<Rightarrow> (case float_of f of Some x \<Rightarrow> Ok x | None \<Rightarrow> Err (ValueError ''cannot convert float to integer''))
      | VStr s \<Rightarrow> (case float_of s of Some x \<Rightarrow> Ok x | None \<Rightarrow> Err (ValueError (''could not convert string to float: '' @ repr_str s)))
      | _ \<Rightarrow> Err (TypeError ''float() argument must be a string or a real number''))"

definition permissions_of :: "pydict \<Rightarrow> pydict res" where
  "permissions_of step =
     (if truthy (dget step ''permissions'') then as_dict (dget step ''permissions'') else Ok [])"

definition run_timeout_seconds :: "(string \<Rightarrow> rat option) \<Rightarrow> pydict \<Rightarrow> rat res" where
  "run_timeout_seconds float_of step =
     then_do (permissions_of step) (\<lambda>permissions.
       py_float float_of (dget_or permissions ''timeout_seconds'' (VInt default_run_timeout_seconds)))"

definition step_sandbox_lifetime_seconds :: "(string \<Rightarrow> rat option) \<Rightarrow> pydict \<Rightarrow> int res" where
  "step_sandbox_lifetime_seconds float_of step =
     then_do (run_timeout_seconds float_of step) (\<lambda>run.
       Ok (sandbox_spawn_deadline_seconds + \<lceil>run\<rceil> + sandbox_transcript_timeout_seconds
           + sandbox_transcript_save_timeout_seconds + 5 * sandbox_cancel_grace_seconds
           + sandbox_destroy_grace_seconds))"

text \<open>
  A task as its caller sees it: when it ends and how, if it is left alone, and how long it goes on
  after it was cancelled; \<open>None\<close> is forever. What waiting for it answers, with the time it took.
\<close>

record 'a task =
  tk_ends :: "(rat \<times> 'a) option"
  tk_stops :: "rat option"

datatype 'a waited = Finished 'a | SandboxDeadlineExceeded

definition cancel_within :: "'a task \<Rightarrow> rat" where
  "cancel_within t =
     (case tk_stops t of
        Some s \<Rightarrow> if s \<le> of_int sandbox_cancel_grace_seconds then s else of_int sandbox_cancel_grace_seconds
      | None \<Rightarrow> of_int sandbox_cancel_grace_seconds)"

definition await_within :: "'a task \<Rightarrow> rat \<Rightarrow> 'a waited \<times> rat" where
  "await_within t timeout =
     (case tk_ends t of
        Some (d, x) \<Rightarrow> if d \<le> timeout then (Finished x, d) else (SandboxDeadlineExceeded, timeout + cancel_within t)
      | None \<Rightarrow> (SandboxDeadlineExceeded, timeout + cancel_within t))"

lemma cancel_within_bound: "cancel_within t \<le> of_int sandbox_cancel_grace_seconds"
  by (auto simp: cancel_within_def split: option.splits)

lemma await_within_bound: "snd (await_within t timeout) \<le> timeout + of_int sandbox_cancel_grace_seconds"
proof -
  have "0 \<le> (of_int sandbox_cancel_grace_seconds :: rat)" by (simp add: deadline_defs)
  then show ?thesis using cancel_within_bound [of t]
    by (auto simp: await_within_def split: option.splits)
qed

text \<open>
  How long one attempt uses its sandbox, from the stamp of the expiry on: the spawn, the run with the
  cancellation of the progress stream after it, the fetch and the save of the transcript. A phase
  whose predecessor did not finish is not entered; there may be no progress stream and nothing to save.
\<close>

record sandbox_phases =
  ph_spawn :: "unit task"
  ph_run :: "unit task"
  ph_progress :: "unit task option"
  ph_fetch :: "unit task"
  ph_save :: "unit task option"

definition progress_time :: "unit task option \<Rightarrow> rat" where
  "progress_time t = (case t of None \<Rightarrow> 0 | Some t \<Rightarrow> cancel_within t)"

definition save_time :: "unit task option \<Rightarrow> rat" where
  "save_time t = (case t of None \<Rightarrow> 0 | Some t \<Rightarrow> snd (await_within t (of_int sandbox_transcript_save_timeout_seconds)))"

definition sandbox_use :: "rat \<Rightarrow> sandbox_phases \<Rightarrow> rat" where
  "sandbox_use run_timeout p =
     (case await_within (ph_spawn p) (of_int sandbox_spawn_deadline_seconds) of
        (SandboxDeadlineExceeded, t1) \<Rightarrow> t1
      | (Finished _, t1) \<Rightarrow>
          (case await_within (ph_run p) run_timeout of
             (SandboxDeadlineExceeded, t2) \<Rightarrow> t1 + t2 + progress_time (ph_progress p)
           | (Finished _, t2) \<Rightarrow>
               t1 + t2 + progress_time (ph_progress p)
               + snd (await_within (ph_fetch p) (of_int sandbox_transcript_timeout_seconds))
               + save_time (ph_save p)))"

text \<open>The label \<open>expires-at\<close> of the OpenShell spawner, from the clock at the stamp.\<close>

definition expires_at :: "rat \<Rightarrow> int \<Rightarrow> int \<Rightarrow> int \<Rightarrow> int" where
  "expires_at stamped_at lifetime_seconds min_lifetime_seconds expiry_skew_seconds =
     \<lceil>stamped_at\<rceil> + max lifetime_seconds min_lifetime_seconds + expiry_skew_seconds"

section \<open>Slots (spawner/base.py)\<close>

record pool =
  pl_active :: int
  pl_max :: int

text \<open>What an await can raise: the cancellation of the caller, which no handler for exceptions sees, or an exception.\<close>

datatype sandbox_exc =
    CancelledError
  | PyError pyexc
  | TimeoutError string
  | SSLError string
  | ConnectError string
  | OtherException string

fun sandbox_exc_str :: "sandbox_exc \<Rightarrow> string" where
  "sandbox_exc_str CancelledError = []"
| "sandbox_exc_str (PyError e) = exc_str e"
| "sandbox_exc_str (TimeoutError m) = m"
| "sandbox_exc_str (SSLError m) = m"
| "sandbox_exc_str (ConnectError m) = m"
| "sandbox_exc_str (OtherException m) = m"

definition acquire :: "pool \<Rightarrow> pool res" where
  "acquire p =
     (if pl_active p \<ge> pl_max p
      then Err (RuntimeError (''Concurrency cap reached: '' @ show_int (pl_active p) @ ''/'' @ show_int (pl_max p) @ '' pods active''))
      else Ok (p\<lparr>pl_active := pl_active p + 1\<rparr>))"

definition release :: "pool \<Rightarrow> pool" where
  "release p = p\<lparr>pl_active := pl_active p - 1\<rparr>"

definition give_back :: "pool \<Rightarrow> pool" where
  "give_back p = p\<lparr>pl_active := max 0 (pl_active p - 1)\<rparr>"

text \<open>
  \<open>spawn\<close> and \<open>destroy\<close> of the base class. The lock covers the counter alone, so another step may run
  while \<open>_do_spawn\<close> or \<open>_do_destroy\<close> is awaited: the pool they end on is the one they find then.
\<close>

definition spawn_begin :: "pool \<Rightarrow> (sandbox_exc + unit) \<times> pool" where
  "spawn_begin p = (case acquire p of Inl e \<Rightarrow> (Inl (PyError e), p) | Inr p' \<Rightarrow> (Inr (), p'))"

definition spawn_end :: "(sandbox_exc + string) \<Rightarrow> pool \<Rightarrow> (sandbox_exc + string) \<times> pool" where
  "spawn_end answer p = (case answer of Inl e \<Rightarrow> (Inl e, release p) | Inr endpoint \<Rightarrow> (Inr endpoint, p))"

definition destroy_end :: "(sandbox_exc + unit) \<Rightarrow> pool \<Rightarrow> (sandbox_exc + unit) \<times> pool" where
  "destroy_end answer p = (answer, give_back p)"

text \<open>
  \<open>wait_ready\<close> polls every two seconds. A poll is the time at which it starts, since the first look at
  the clock, and the status it got, if it got one; the polls are those there would be without a limit.
\<close>

fun wait_ready :: "rat \<Rightarrow> (rat \<times> nat option) list \<Rightarrow> bool" where
  "wait_ready timeout [] = False"
| "wait_ready timeout ((t, status) # polls) =
     (if t < timeout then status = Some 200 \<or> wait_ready timeout polls else False)"

text \<open>A spawner that cannot report labels reports every sandbox without one, and deletes none by its exact name.\<close>

definition do_list_sandbox_labels :: "string list \<Rightarrow> (string \<times> string dict) list" where
  "do_list_sandbox_labels names = map (\<lambda>n. (n, [])) names"

definition do_destroy_sandbox :: "string \<Rightarrow> string \<Rightarrow> unit res" where
  "do_destroy_sandbox type_name sandbox_name =
     Err (NotImplementedError (type_name @ '' cannot destroy a sandbox by its exact name''))"

section \<open>Steps that share the slots\<close>

text \<open>
  The two engines call the spawner alike but for one thing. The activity of the Temporal engine
  destroys the sandbox of a spawn that returned an endpoint; the step runner of the local engine
  destroys after every spawn it attempted, one that was refused or failed too.
\<close>

datatype engine = LocalEngine | TemporalEngine

datatype use = Spawning | Live | Leaving

definition holds_slot :: "use \<Rightarrow> bool" where
  "holds_slot u = (u = Spawning \<or> u = Live)"

definition slots :: "use multiset \<Rightarrow> int" where
  "slots M = int (size (filter_mset holds_slot M))"

definition after_failure :: "engine \<Rightarrow> use multiset \<Rightarrow> use multiset" where
  "after_failure e M = (case e of LocalEngine \<Rightarrow> add_mset Leaving M | TemporalEngine \<Rightarrow> M)"

inductive pool_step :: "engine \<Rightarrow> pool \<times> use multiset \<Rightarrow> pool \<times> use multiset \<Rightarrow> bool" where
  enter: "spawn_begin p = (Inr (), p') \<Longrightarrow> pool_step e (p, M) (p', add_mset Spawning M)"
| refused: "spawn_begin p = (Inl exc, p') \<Longrightarrow> pool_step e (p, M) (p', after_failure e M)"
| spawned: "spawn_end (Inr endpoint) p = (Inr endpoint, p') \<Longrightarrow> pool_step e (p, add_mset Spawning M) (p', add_mset Live M)"
| spawn_failed: "spawn_end (Inl exc) p = (Inl exc, p') \<Longrightarrow> pool_step e (p, add_mset Spawning M) (p', after_failure e M)"
| destroyed: "destroy_end answer p = (answer, p') \<Longrightarrow> pool_step e (p, add_mset Live M) (p', M)"
| left: "destroy_end answer p = (answer, p') \<Longrightarrow> pool_step e (p, add_mset Leaving M) (p', M)"

inductive pool_reach :: "engine \<Rightarrow> int \<Rightarrow> pool \<times> use multiset \<Rightarrow> bool" where
  idle: "pool_reach e max_pods (\<lparr>pl_active = 0, pl_max = max_pods\<rparr>, {#})"
| step: "pool_reach e max_pods s \<Longrightarrow> pool_step e s s' \<Longrightarrow> pool_reach e max_pods s'"

inductive_cases pool_stepE: "pool_step e s s'"

lemmas pool_ops = spawn_begin_def spawn_end_def destroy_end_def acquire_def release_def give_back_def

lemma slots_simps [simp]:
  "slots {#} = 0"
  "slots (add_mset u M) = slots M + (if holds_slot u then 1 else 0)"
  "holds_slot Spawning" "holds_slot Live" "\<not> holds_slot Leaving" "0 \<le> slots M"
  by (simp_all add: slots_def holds_slot_def)

lemma temporal_step_exact:
  assumes "pool_step TemporalEngine (p, M) (p', M')" "Leaving \<notin># M" "pl_active p = slots M" "slots M \<le> max 0 (pl_max p)"
  shows "Leaving \<notin># M' \<and> pl_active p' = slots M' \<and> slots M' \<le> max 0 (pl_max p') \<and> pl_max p' = pl_max p"
  using assms
  by (cases rule: pool_stepE) (auto simp: pool_ops after_failure_def split: if_splits)

lemma temporal_exact:
  "pool_reach e max_pods s \<Longrightarrow> e = TemporalEngine \<Longrightarrow>
     Leaving \<notin># snd s \<and> pl_active (fst s) = slots (snd s) \<and> slots (snd s) \<le> max 0 max_pods \<and> pl_max (fst s) = max_pods"
proof (induction rule: pool_reach.induct)
  case (step e max_pods s s')
  then show ?case
    using temporal_step_exact [of "fst s" "snd s" "fst s'" "snd s'"] by (metis prod.collapse)
qed simp



text \<open>
  The step runner of the local engine breaks the cap: a step that is refused because every slot is
  taken destroys a sandbox it never had, which frees the slot of the step that holds it, and the next
  spawn goes through. With a maximum of one, two sandboxes live at once.
\<close>

theorem refused_spawn_frees_slot:
  "\<exists>p. pool_reach LocalEngine 1 (p, {#Live, Live#})"
proof -
  let ?p = "\<lambda>n. \<lparr>pl_active = n, pl_max = 1\<rparr>"
  have "pool_reach LocalEngine 1 (?p 0, {#})" by (rule pool_reach.idle)
  then have "pool_reach LocalEngine 1 (?p 1, {#Spawning#})"
    by (rule pool_reach.step) (rule pool_step.enter, simp add: pool_ops)
  then have "pool_reach LocalEngine 1 (?p 1, {#Live#})"
    by (rule pool_reach.step) (rule pool_step.spawned [where endpoint = "[]"], simp add: pool_ops)
  then have "pool_reach LocalEngine 1 (?p 1, {#Leaving, Live#})"
    by (rule pool_reach.step)
       (use pool_step.refused [of "?p 1" _ "?p 1" LocalEngine "{#Live#}"] in \<open>simp add: pool_ops after_failure_def\<close>)
  then have "pool_reach LocalEngine 1 (?p 0, {#Live#})"
    by (rule pool_reach.step) (rule pool_step.left [where answer = "Inr ()"], simp add: pool_ops)
  then have "pool_reach LocalEngine 1 (?p 1, {#Spawning, Live#})"
    by (rule pool_reach.step) (rule pool_step.enter, simp add: pool_ops)
  then have "pool_reach LocalEngine 1 (?p 1, {#Live, Live#})"
    by (rule pool_reach.step) (rule pool_step.spawned [where endpoint = "[]"], simp add: pool_ops)
  then show ?thesis by blast
qed

section \<open>Expiry\<close>

lemma phase_bounds:
  "progress_time t \<le> of_int sandbox_cancel_grace_seconds"
  "save_time t' \<le> of_int sandbox_transcript_save_timeout_seconds + of_int sandbox_cancel_grace_seconds"
  using cancel_within_bound await_within_bound [of _ "of_int sandbox_transcript_save_timeout_seconds"]
  by (auto simp: progress_time_def save_time_def deadline_defs split: option.splits)

lemma sandbox_use_bound:
  assumes "0 \<le> run"
  shows "sandbox_use run p \<le> 420 + run + 30 + 30 + 25"
  using await_within_bound [of "ph_spawn p" 420] await_within_bound [of "ph_run p" run]
    await_within_bound [of "ph_fetch p" 30] phase_bounds(1) [of "ph_progress p"] phase_bounds(2) [of "ph_save p"] assms
  by (auto simp: sandbox_use_def deadline_defs split: prod.splits waited.splits)

text \<open>
  A sandbox does not expire while it is used. Whatever the phases of an attempt do, ending early,
  running into their deadlines or ignoring their cancellation, the attempt is done with the sandbox at
  least the destroy grace before the time in the label \<open>expires-at\<close>, which other replicas read.
\<close>

theorem sandbox_outlives_use:
  assumes "run_timeout_seconds float_of step = Ok run" "0 \<le> run"
    and "step_sandbox_lifetime_seconds float_of step = Ok lifetime"
    and "0 \<le> expiry_skew_seconds"
  shows "stamped_at + sandbox_use run p + of_int sandbox_destroy_grace_seconds
     \<le> of_int (expires_at stamped_at lifetime min_lifetime_seconds expiry_skew_seconds)"
proof -
  have "lifetime = 420 + \<lceil>run\<rceil> + 30 + 30 + 25 + 120"
    using assms(1,3) by (simp add: step_sandbox_lifetime_seconds_def deadline_defs)
  then have "(505 + 120 :: int) + \<lceil>run\<rceil> + \<lceil>stamped_at\<rceil> \<le> expires_at stamped_at lifetime min_lifetime_seconds expiry_skew_seconds"
    using assms(4) by (simp add: expires_at_def)
  then have "of_int (625 + \<lceil>run\<rceil> + \<lceil>stamped_at\<rceil>) \<le> (of_int (expires_at stamped_at lifetime min_lifetime_seconds expiry_skew_seconds) :: rat)"
    by (simp only: of_int_le_iff)
  moreover have "run + stamped_at \<le> of_int (\<lceil>run\<rceil> + \<lceil>stamped_at\<rceil>)"
    by (simp add: add_mono le_of_int_ceiling)
  ultimately show ?thesis
    using sandbox_use_bound [OF assms(2), of p] by (simp add: deadline_defs)
qed

theorem sandbox_outlives_use_witness:
  "1000 + sandbox_use 90 \<lparr>ph_spawn = \<lparr>tk_ends = Some (20, ()), tk_stops = None\<rparr>, ph_run = \<lparr>tk_ends = None, tk_stops = None\<rparr>,
      ph_progress = None, ph_fetch = \<lparr>tk_ends = None, tk_stops = None\<rparr>, ph_save = None\<rparr> + of_int sandbox_destroy_grace_seconds
   \<le> of_int (expires_at 1000 715 0 0)"
  by (rule sandbox_outlives_use [where step = "[(''permissions'', VDict [(''timeout_seconds'', VInt 90)])]" and float_of = "\<lambda>_. None"])
     (simp_all add: run_timeout_seconds_def step_sandbox_lifetime_seconds_def permissions_of_def py_float_def
        dget_def dget_or_def deadline_defs)

end
