(* ===== verification/SandboxRequest.thy ===== *)
theory SandboxRequest
  imports Auth Spawner DirectStep
begin

text \<open>
  What a step sends to its sandbox: the redaction of secrets (\<open>security/redact.py\<close>), the context of
  earlier results (\<open>core/context.py\<close>) and the environment, labels, secret mounts and request body that
  \<open>core/step_runner.py\<close> and \<open>executor/temporal/activities.py\<close> build from the same code. The two copies
  differ in a few places; the argument \<open>engine\<close> says which one runs.
\<close>

section \<open>Redaction (security/redact.py)\<close>

definition redacted_placeholder :: string where
  "redacted_placeholder = ''***REDACTED***''"

text \<open>The secrets are a set; the list is the order in which it is iterated.\<close>

definition redact_secrets :: "string \<Rightarrow> string list \<Rightarrow> string" where
  "redact_secrets text secret_values =
     fold (\<lambda>val text. if sublist val text then py_replace val redacted_placeholder text else text)
       (sort_key (\<lambda>v. - int (length v)) (filter (\<lambda>v. v \<noteq> []) secret_values)) text"

section \<open>Context (core/context.py)\<close>

text \<open>\<open>key in d\<close> and \<open>d[key]\<close> for a key that may be no text.\<close>

definition step_at :: "step_result dict \<Rightarrow> pyval \<Rightarrow> step_result option res" where
  "step_at steps key =
     (case key of
        VStr k \<Rightarrow> Ok (map_of steps k)
      | VList _ \<Rightarrow> Err (TypeError ''unhashable type: list'')
      | VDict _ \<Rightarrow> Err (TypeError ''unhashable type: dict'')
      | _ \<Rightarrow> Ok None)"

definition failed_attempts :: "step_result dict \<Rightarrow> pyval list" where
  "failed_attempts steps =
     map (\<lambda>(key, r). VDict [(''step'', VStr key),
            (''error'', VStr (case sr_error r of None \<Rightarrow> ''unknown'' | Some e \<Rightarrow> if e = [] then ''unknown'' else e)),
            (''output'', case sr_output r of None \<Rightarrow> VNone | Some d \<Rightarrow> VDict d)])
       (filter (\<lambda>(key, r). sr_status r = MFailed) steps)"

text \<open>\<open>options[0] if options else None\<close>, and the search for the option with the selected id.\<close>

fun first_option :: "pyval \<Rightarrow> pyval res" where
  "first_option (VList []) = Ok VNone"
| "first_option (VList (x # _)) = Ok x"
| "first_option (VStr (c # _)) = Ok (VStr [c])"
| "first_option (VDict (_ # _)) = Err (KeyError ''0'')"
| "first_option v = (if truthy v then Err (TypeError ''object is not subscriptable'') else Ok VNone)"

fun find_option :: "pyval \<Rightarrow> pyval \<Rightarrow> pyval list \<Rightarrow> pyval res" where
  "find_option selected_id dflt [] = Ok dflt"
| "find_option selected_id dflt (o' # os) =
     then_do (as_dict o') (\<lambda>d. if py_eq (dget d ''id'') selected_id then Ok o' else find_option selected_id dflt os)"

definition approved_option :: "pydict \<Rightarrow> pydict \<Rightarrow> pyval res" where
  "approved_option approval_output analysis_output =
     (let selected_id = dget approval_output ''selected_option_id'';
          options = dget_or analysis_output ''options'' (VList []) in
        if truthy selected_id
        then then_do (py_iter options) (\<lambda>os. then_do (first_option options) (\<lambda>dflt. find_option selected_id dflt os))
        else first_option options)"

definition output_or_empty :: "step_result \<Rightarrow> pydict" where
  "output_or_empty r = (case sr_output r of None \<Rightarrow> [] | Some d \<Rightarrow> d)"

definition approved_section :: "step_result dict \<Rightarrow> pydict \<Rightarrow> pydict res" where
  "approved_section steps current_step =
     (let approval_key = dget current_step ''approval_step''; analysis_key = dget current_step ''analysis_step'' in
        if \<not> truthy approval_key then Ok []
        else then_do (step_at steps approval_key) (\<lambda>approval.
          case approval of
            None \<Rightarrow> Ok []
          | Some a \<Rightarrow>
              if \<not> truthy analysis_key then Ok []
              else then_do (step_at steps analysis_key) (\<lambda>analysis.
                case analysis of
                  None \<Rightarrow> Ok []
                | Some n \<Rightarrow>
                    then_do (approved_option (output_or_empty a) (output_or_empty n)) (\<lambda>approved.
                      Ok (if truthy approved then [(''approvedOption'', approved)] else [])))))"

definition execution_section :: "step_result dict \<Rightarrow> pydict \<Rightarrow> pydict res" where
  "execution_section steps current_step =
     (let execution_key = dget current_step ''execution_step'' in
        if \<not> truthy execution_key then Ok []
        else then_do (step_at steps execution_key) (\<lambda>r.
          case r of
            None \<Rightarrow> Ok []
          | Some r \<Rightarrow> Ok (if output_or_empty r = [] then [] else [(''executionResult'', VDict (output_or_empty r))])))"

definition build_sandbox_context :: "step_result dict \<Rightarrow> pydict \<Rightarrow> pyval \<Rightarrow> pydict res" where
  "build_sandbox_context steps current_step execution_context =
     then_do (approved_section steps current_step) (\<lambda>approved.
     then_do (execution_section steps current_step) (\<lambda>executed.
       Ok ((if truthy execution_context then [(''executionContext'', execution_context)] else [])
           @ (if truthy (dget current_step ''target_namespaces'')
              then [(''targetNamespaces'', dget current_step ''target_namespaces'')] else [])
           @ (if failed_attempts steps = [] then [] else [(''previousAttempts'', VList (failed_attempts steps))])
           @ approved @ executed)))"

section \<open>Names, labels, environment\<close>

text \<open>\<open>d[k]\<close>.\<close>

definition item :: "pydict \<Rightarrow> string \<Rightarrow> pyval res" where
  "item d k = (case map_of d k of None \<Rightarrow> Err (KeyError k) | Some v \<Rightarrow> Ok v)"

definition compute_pod_name :: "(string \<Rightarrow> string) \<Rightarrow> string \<Rightarrow> string \<Rightarrow> pyval \<Rightarrow> string" where
  "compute_pod_name sha256_hex workflow_id step_name attempt =
     ''ca-'' @ take 12 (sha256_hex (workflow_id @ '':'' @ step_name @ '':'' @ py_str attempt))"

definition sandbox_labels :: "string \<Rightarrow> string \<Rightarrow> pyval \<Rightarrow> string dict" where
  "sandbox_labels workflow_id step_name attempt =
     [(''cloud-agents/workflow-id'', workflow_id), (''cloud-agents/step-name'', step_name),
      (''cloud-agents/attempt'', py_str attempt)]"

definition agent_event_log_path :: string where
  "agent_event_log_path = ''/tmp/agent-events.jsonl''"

definition env_entry :: "string dict \<Rightarrow> string \<Rightarrow> pydict" where
  "env_entry env key = (if env_set env key then [(key, VStr (the (map_of env key)))] else [])"

definition deploy_vars :: "string list" where
  "deploy_vars = [''LIGHTSPEED_PROVIDER_URL'', ''LIGHTSPEED_PROVIDER_PROJECT'', ''LIGHTSPEED_PROVIDER_REGION'',
     ''LIGHTSPEED_PROVIDER_API_VERSION'']"

text \<open>The step runner of the local engine also forwards where traces go, for the one protocol the image supports.\<close>

definition otel_entries :: "engine \<Rightarrow> string dict \<Rightarrow> pydict" where
  "otel_entries eng env =
     (case eng of
        TemporalEngine \<Rightarrow> []
      | LocalEngine \<Rightarrow>
          env_entry env ''OTEL_EXPORTER_OTLP_ENDPOINT''
          @ (if map_of env ''OTEL_EXPORTER_OTLP_PROTOCOL'' = Some ''grpc''
             then [(''OTEL_EXPORTER_OTLP_PROTOCOL'', VStr ''grpc'')] else []))"

definition base_env :: "engine \<Rightarrow> string dict \<Rightarrow> pydict \<Rightarrow> pydict res" where
  "base_env eng env provider =
     then_do (item provider ''name'') (\<lambda>name.
     then_do (item provider ''model'') (\<lambda>model.
       Ok ([(''LIGHTSPEED_PROVIDER'', name), (''LIGHTSPEED_MODEL'', model), (''AGENT_EVENT_LOG'', VStr agent_event_log_path)]
           @ (if truthy (dget provider ''model_provider'') then [(''LIGHTSPEED_MODEL_PROVIDER'', dget provider ''model_provider'')]
              else env_entry env ''LIGHTSPEED_MODEL_PROVIDER'')
           @ concat (map (env_entry env) deploy_vars)
           @ otel_entries eng env)))"

definition add_secret :: "string \<Rightarrow> string list \<Rightarrow> string list" where
  "add_secret v secrets = (if v \<in> set secrets then secrets else secrets @ [v])"

definition credential_secrets :: "string dict \<Rightarrow> string option \<Rightarrow> string list" where
  "credential_secrets env key =
     (case key of None \<Rightarrow> [] | Some k \<Rightarrow> if k \<noteq> [] \<and> env_set env k then [the (map_of env k)] else [])"

section \<open>MCP servers\<close>

type_synonym audit_trail = "audit_event list"

text \<open>A mount is the name of the secret, the key in it and the directory in the sandbox.\<close>

type_synonym mount = "pyval \<times> pyval \<times> string"

definition ref_item :: "pyval \<Rightarrow> string \<Rightarrow> pyval res" where
  "ref_item ref k = (case ref of VDict d \<Rightarrow> item d k | _ \<Rightarrow> Err (TypeError ''object is not subscriptable''))"

definition mount_audit :: "string \<Rightarrow> string \<Rightarrow> pyval \<Rightarrow> pyval \<Rightarrow> audit_event" where
  "mount_audit workflow_id step_name secret_name server =
     \<lparr>au_type = ''mcp_secret_mounted'', au_workflow_id = workflow_id, au_step_name = step_name, au_actor = [],
      au_details = [(''secret_name'', secret_name), (''server'', server)]\<rparr>"

definition mount_path :: "pyval \<Rightarrow> string" where
  "mount_path server_name = ''/var/secrets/mcp/'' @ py_str server_name @ ''/''"

text \<open>
  The secret headers of one server: each becomes a reference to a file, a mount and an audit entry.
  The audit trail is the state, since an entry stays even if a later header raises.
\<close>

fun mount_headers ::
  "string \<Rightarrow> string \<Rightarrow> pyval \<Rightarrow> pydict \<Rightarrow> pydict \<Rightarrow> mount list \<Rightarrow> audit_event list
   \<Rightarrow> (pyexc + pydict \<times> mount list) \<times> audit_event list" where
  "mount_headers workflow_id step_name server [] headers mounts audits = (Inr (headers, mounts), audits)"
| "mount_headers workflow_id step_name server ((header, ref) # rest) headers mounts audits =
     and_then (ref_item ref ''key'', audits) (\<lambda>key audits.
     and_then (ref_item ref ''secret_name'', audits) (\<lambda>secret_name audits.
       mount_headers workflow_id step_name server rest
         (dict_set header (VDict [(''file'', VStr (mount_path server @ py_str key))]) headers)
         (mounts @ [(secret_name, key, mount_path server)])
         (audits @ [mount_audit workflow_id step_name secret_name server])))"

text \<open>\<open>dict(x)\<close> and \<open>x.items()\<close> where an object is meant.\<close>

definition dict_or_empty :: "pyval \<Rightarrow> pydict res" where
  "dict_or_empty v = (if truthy v then as_dict v else Ok [])"

definition header_secrets :: "pydict \<Rightarrow> string list \<Rightarrow> string list" where
  "header_secrets headers secrets =
     fold (\<lambda>(_, v) s. case v of VStr t \<Rightarrow> if t = [] then s else add_secret t s | _ \<Rightarrow> s) headers secrets"

record mcp_plan =
  mp_entries :: "pyval list"
  mp_mounts :: "mount list"
  mp_secrets :: "string list"

definition plan_server ::
  "string \<Rightarrow> string \<Rightarrow> pyval \<Rightarrow> mcp_plan \<Rightarrow> audit_event list \<Rightarrow> (pyexc + mcp_plan) \<times> audit_event list" where
  "plan_server workflow_id step_name server mcp audits =
     and_then (as_dict server, audits) (\<lambda>server audits.
     and_then (dict_or_empty (dget server ''headers''), audits) (\<lambda>plain audits.
     and_then (item server ''name'', audits) (\<lambda>name audits.
     and_then (item server ''url'', audits) (\<lambda>url audits.
     and_then (dict_or_empty (dget server ''secret_headers''), audits) (\<lambda>secret audits.
     and_then (mount_headers workflow_id step_name name secret plain (mp_mounts mcp) audits) (\<lambda>(headers, mounts) audits.
       (Inr \<lparr>mp_entries = mp_entries mcp @ [VDict [(''name'', name), (''url'', url), (''headers'', VDict headers)]],
             mp_mounts = mounts, mp_secrets = header_secrets plain (mp_secrets mcp)\<rparr>, audits)))))))"

fun plan_servers ::
  "string \<Rightarrow> string \<Rightarrow> pyval list \<Rightarrow> mcp_plan \<Rightarrow> audit_event list \<Rightarrow> (pyexc + mcp_plan) \<times> audit_event list" where
  "plan_servers workflow_id step_name [] mcp audits = (Inr mcp, audits)"
| "plan_servers workflow_id step_name (s # ss) mcp audits =
     and_then (plan_server workflow_id step_name s mcp audits) (\<lambda>mcp audits.
       plan_servers workflow_id step_name ss mcp audits)"

text \<open>The allowlist fails closed: without one no secret may be mounted. The message has a dash, written as two hyphens here.\<close>

definition allowed_secrets :: "string dict \<Rightarrow> string list" where
  "allowed_secrets env = map py_strip (py_split '','' (env_get env ''MCP_ALLOWED_SECRETS'' []))"

fun check_mounts :: "string list \<Rightarrow> mount list \<Rightarrow> unit res" where
  "check_mounts allowed [] = Ok ()"
| "check_mounts allowed ((secret_name, _, _) # mounts) =
     (case secret_name of
        VList _ \<Rightarrow> Err (TypeError ''unhashable type: list'')
      | VDict _ \<Rightarrow> Err (TypeError ''unhashable type: dict'')
      | _ \<Rightarrow> if secret_name \<in> VStr ` set allowed then check_mounts allowed mounts
             else Err (ValueError (''MCP Secret '' @ [sq] @ py_str secret_name @ [sq] @ '' not in MCP_ALLOWED_SECRETS allowlist'')))"

definition check_allowlist :: "string dict \<Rightarrow> mount list \<Rightarrow> unit res" where
  "check_allowlist env mounts =
     (if mounts = [] then Ok ()
      else if env_get env ''MCP_ALLOWED_SECRETS'' [] = []
      then Err (ValueError ''MCP secrets requested but MCP_ALLOWED_SECRETS is not set -- set it to a comma-separated list of allowed K8s Secret names'')
      else check_mounts (allowed_secrets env) mounts)"

section \<open>The plan of a step\<close>

record sandbox_plan =
  pn_step :: pydict
  pn_step_name :: string
  pn_workflow_id :: string
  pn_pod_name :: string
  pn_image :: pyval
  pn_labels :: "string dict"
  pn_env :: pydict
  pn_credential_key :: "string option"
  pn_mounts :: "mount list"
  pn_secrets :: "string list"
  pn_auth_token :: "string option"
  pn_permissions :: pydict
  pn_http_timeout :: rat
  pn_lifetime :: int

text \<open>Everything before the spawner is asked: it reads the environment and writes audit entries only.\<close>

definition mcp_part ::
  "string dict \<Rightarrow> pydict \<Rightarrow> pydict \<Rightarrow> string \<Rightarrow> string \<Rightarrow> string list \<Rightarrow> audit_event list
   \<Rightarrow> (pyexc + (mcp_plan \<times> pydict)) \<times> audit_event list" where
  "mcp_part env input step workflow_id step_name secrets audits =
     and_then (resolve_mcp_servers (dget step ''mcp_servers'') (dget input ''mcp_servers''), audits) (\<lambda>servers audits.
       case servers of
         None \<Rightarrow> (Inr (\<lparr>mp_entries = [], mp_mounts = [], mp_secrets = secrets\<rparr>, []), audits)
       | Some ss \<Rightarrow>
           and_then (plan_servers workflow_id step_name ss \<lparr>mp_entries = [], mp_mounts = [], mp_secrets = secrets\<rparr> audits)
             (\<lambda>mcp audits.
           and_then (check_allowlist env (mp_mounts mcp), audits) (\<lambda>_ audits.
             (Inr (mcp, [(''LIGHTSPEED_MCP_SERVERS'', VStr (json_dumps (VList (mp_entries mcp))))]), audits))))"

definition sandbox_auth_enabled :: "string dict \<Rightarrow> bool" where
  "sandbox_auth_enabled env = (py_lower (env_get env ''SANDBOX_AUTH_ENABLED'' ''false'') = ''true'')"

definition sandbox_auth_token :: "string option \<Rightarrow> string dict \<Rightarrow> string option" where
  "sandbox_auth_token sa_token env =
     (if sandbox_auth_enabled env
      then (case get_runner_auth_token sa_token env of Some t \<Rightarrow> if t = [] then None else Some t | None \<Rightarrow> None)
      else None)"

definition prepare_sandbox ::
  "engine \<Rightarrow> (string \<Rightarrow> string) \<Rightarrow> (string \<Rightarrow> rat option) \<Rightarrow> string option \<Rightarrow> string dict \<Rightarrow> pyval \<Rightarrow> pydict
   \<Rightarrow> audit_event list \<Rightarrow> (pyexc + sandbox_plan) \<times> audit_event list" where
  "prepare_sandbox eng sha256_hex float_of sa_token env attempt input audits =
     and_then (then_do (item input ''step'') as_dict, audits) (\<lambda>step audits.
     and_then (text_at step ''name'', audits) (\<lambda>step_name audits.
     and_then (text_at input ''workflow_id'', audits) (\<lambda>workflow_id audits.
     and_then (then_do (item input ''provider'') as_dict, audits) (\<lambda>provider audits.
     and_then (base_env eng env provider, audits) (\<lambda>env_vars audits.
     and_then (resolve_credential_env_key env provider, audits) (\<lambda>credential_key audits.
     and_then (mcp_part env input step workflow_id step_name (credential_secrets env credential_key) audits) (\<lambda>(mcp, mcp_env) audits.
     and_then (permissions_of step, audits) (\<lambda>permissions audits.
     and_then (run_timeout_seconds float_of step, audits) (\<lambda>http_timeout audits.
     and_then (step_sandbox_lifetime_seconds float_of step, audits) (\<lambda>lifetime audits.
       (Inr \<lparr>pn_step = step, pn_step_name = step_name, pn_workflow_id = workflow_id,
             pn_pod_name = compute_pod_name sha256_hex workflow_id step_name attempt,
             pn_image = dget_or input ''sandbox_image'' (VStr ''sandbox:latest''),
             pn_labels = sandbox_labels workflow_id step_name attempt,
             pn_env = env_vars @ mcp_env
               @ (if truthy (dget permissions ''service_account'')
                  then [(''LIGHTSPEED_SERVICE_ACCOUNT'', dget permissions ''service_account'')] else []),
             pn_credential_key = credential_key, pn_mounts = mp_mounts mcp, pn_secrets = mp_secrets mcp,
             pn_auth_token = sandbox_auth_token sa_token env, pn_permissions = permissions,
             pn_http_timeout = http_timeout, pn_lifetime = lifetime\<rparr>, audits)))))))))))"

section \<open>What redaction removes\<close>

text \<open>Texts without a star meet the placeholder in its inner word only.\<close>

definition redactable :: "string \<Rightarrow> bool" where
  "redactable v = (CHR ''*'' \<notin> set v \<and> (v \<noteq> [] \<longrightarrow> \<not> sublist v ''REDACTED''))"

lemma sublist_split_at:
  assumes "sublist v (a @ c # b)" "c \<notin> set v" "v \<noteq> []"
  shows "sublist v a \<or> sublist v b"
proof -
  obtain l r where eq: "a @ c # b = l @ v @ r" using assms(1) by (auto simp: sublist_def)
  then consider us where "a = l @ us" "us @ c # b = v @ r" | us where "l = a @ us" "c # b = us @ v @ r"
    by (auto simp: append_eq_append_conv2)
  then show ?thesis
  proof cases
    case 1
    then consider ws where "us = v @ ws" | ws where "v = us @ ws" "c # b = ws @ r"
      by (auto simp: append_eq_append_conv2)
    then show ?thesis
    proof cases
      case 2
      with assms(2) have "ws = []" by (cases ws) auto
      with 2 \<open>a = l @ us\<close> show ?thesis by (simp add: sublist_appendI)
    qed (use 1 in \<open>auto simp: sublist_def\<close>)
  next
    case 2
    with assms(2,3) show ?thesis by (cases us; cases v) (auto simp: sublist_def)
  qed
qed

lemma sublist_placeholder:
  assumes "sublist v (redacted_placeholder @ t)" "redactable v" "v \<noteq> []"
  shows "sublist v t"
proof -
  let ?s = "CHR ''*''"
  have star: "?s \<notin> set v" using assms(2) by (simp add: redactable_def)
  have no: "\<not> sublist v []" using assms(3) by simp
  have "redacted_placeholder @ t = [] @ ?s # ?s # ?s # (''REDACTED'' @ ?s # ?s # ?s # t)"
    by (simp add: redacted_placeholder_def)
  then have "sublist v (?s # ?s # (''REDACTED'' @ ?s # ?s # ?s # t))"
    using sublist_split_at [of v "[]" ?s] assms(1,3) star no by metis
  then have "sublist v (''REDACTED'' @ ?s # ?s # ?s # t)"
    using sublist_split_at [of v "[]" ?s] assms(3) star no by (metis append_Nil)
  then have "sublist v (?s # ?s # t)"
    using sublist_split_at [of v "''REDACTED''" ?s] assms(2,3) star by (auto simp: redactable_def)
  then show ?thesis
    using sublist_split_at [of v "[]" ?s] assms(3) star no by (metis append_Nil)
qed

lemma replace_simps:
  "py_replace old new [] = []"
  "old \<noteq> [] \<Longrightarrow> prefix old s \<Longrightarrow> py_replace old new s = new @ py_replace old new (drop (length old) s)"
  "\<not> prefix old (c # s) \<Longrightarrow> py_replace old new (c # s) = c # py_replace old new s"
  by (subst py_replace.simps; auto)+

lemma prefix_replace:
  "old \<noteq> [] \<Longrightarrow> CHR ''*'' \<notin> set v \<Longrightarrow> prefix v (py_replace old redacted_placeholder t) \<Longrightarrow> prefix v t"
proof (induction old redacted_placeholder t arbitrary: v rule: py_replace.induct)
  case (1 old s)
  show ?case
  proof (cases v)
    case (Cons c v')
    consider "s = []" | "prefix old s" | d s' where "s = d # s'" "\<not> prefix old s" by (cases s) auto
    then show ?thesis
    proof cases
      case 2
      with "1.prems" Cons show ?thesis by (auto simp: replace_simps(2) redacted_placeholder_def)
    qed (use 1 Cons in \<open>auto simp: replace_simps\<close>)
  qed simp
qed

lemma sublist_replace:
  "old \<noteq> [] \<Longrightarrow> redactable v \<Longrightarrow> v \<noteq> [] \<Longrightarrow> sublist v (py_replace old redacted_placeholder t) \<Longrightarrow> sublist v t"
proof (induction old redacted_placeholder t rule: py_replace.induct)
  case (1 old s)
  consider "s = []" | "s \<noteq> []" "prefix old s" | c s' where "s = c # s'" "\<not> prefix old s"
    by (cases s) auto
  then show ?case
  proof cases
    case 2
    then have "sublist v (redacted_placeholder @ py_replace old redacted_placeholder (drop (length old) s))"
      using "1.prems" by (simp add: replace_simps(2))
    then have "sublist v (py_replace old redacted_placeholder (drop (length old) s))"
      by (rule sublist_placeholder) (use "1.prems" in simp_all)
    then have "sublist v (drop (length old) s)" using 1(1) "1.prems" 2 by blast
    then obtain l r where "drop (length old) s = l @ v @ r" by (auto simp: sublist_def)
    then have "s = (take (length old) s @ l) @ v @ r" using append_take_drop_id [of "length old" s] by simp
    then show ?thesis unfolding sublist_def by blast
  next
    case 3
    then have "sublist v (c # py_replace old redacted_placeholder s')" using "1.prems"(4) by (simp add: replace_simps(3))
    then consider "prefix v (c # py_replace old redacted_placeholder s')" | "sublist v (py_replace old redacted_placeholder s')"
      unfolding sublist_Cons_right by blast
    then show ?thesis
    proof cases
      case 1
      then have "prefix v (py_replace old redacted_placeholder s)" using 3 "1.prems" by (simp add: replace_simps(3))
      then have "prefix v s" using prefix_replace "1.prems"(1,2) by (simp add: redactable_def)
      then show ?thesis by (rule prefix_imp_sublist)
    next
      case 2
      then have "sublist v (tl s)" using "1.hyps"(2) 3 "1.prems" by auto
      then show ?thesis using 3 by (simp add: sublist_Cons_right)
    qed
  qed (use 1 in \<open>simp add: replace_simps(1)\<close>)
qed

lemma replaced_gone:
  "redactable old \<Longrightarrow> old \<noteq> [] \<Longrightarrow> \<not> sublist old (py_replace old redacted_placeholder t)"
proof (induction old redacted_placeholder t rule: py_replace.induct)
  case (1 old s)
  consider "s = []" | "s \<noteq> []" "prefix old s" | c s' where "s = c # s'" "\<not> prefix old s" by (cases s) auto
  then show ?case
  proof cases
    case 2
    with 1 have "\<not> sublist old (py_replace old redacted_placeholder (drop (length old) s))" by blast
    with 1 2 sublist_placeholder [of old "py_replace old redacted_placeholder (drop (length old) s)"]
    show ?thesis unfolding replace_simps(2) [OF "1.prems"(2) 2(2)] by blast
  next
    case 3
    have "\<not> prefix old (py_replace old redacted_placeholder s)"
      using 3 prefix_replace "1.prems" by (auto simp: redactable_def)
    moreover have "\<not> sublist old (py_replace old redacted_placeholder s')" using 1 3 by auto
    ultimately show ?thesis using 3 by (simp add: replace_simps(3) sublist_Cons_right)
  qed (use 1 in \<open>simp add: replace_simps(1)\<close>)
qed

definition redact_one :: "string \<Rightarrow> string \<Rightarrow> string" where
  "redact_one val text = (if sublist val text then py_replace val redacted_placeholder text else text)"

lemma fold_redact_keeps:
  "\<forall>s \<in> set vs. s \<noteq> [] \<Longrightarrow> redactable v \<Longrightarrow> v \<noteq> [] \<Longrightarrow> \<not> sublist v t \<Longrightarrow> \<not> sublist v (fold redact_one vs t)"
proof (induction vs arbitrary: t)
  case (Cons s vs)
  then have "\<not> sublist v (redact_one s t)" using sublist_replace [of s v t] by (auto simp: redact_one_def)
  with Cons show ?case by simp
qed simp

lemma fold_redact_removes:
  "\<forall>s \<in> set vs. s \<noteq> [] \<and> redactable s \<Longrightarrow> v \<in> set vs \<Longrightarrow> \<not> sublist v (fold redact_one vs t)"
proof (induction vs arbitrary: t)
  case (Cons s vs)
  show ?case
  proof (cases "v \<in> set vs")
    case False
    then have "v = s" using Cons.prems(2) by simp
    moreover have "\<not> sublist s (redact_one s t)"
      using replaced_gone [of s t] Cons.prems(1) by (simp add: redact_one_def)
    then have "\<not> sublist s (fold redact_one vs (redact_one s t))"
      using Cons.prems(1) by (intro fold_redact_keeps) simp_all
    ultimately show ?thesis by simp
  qed (use Cons in simp)
qed simp

lemma redact_secrets_fold:
  "redact_secrets text secrets = fold redact_one (sort_key (\<lambda>v. - int (length v)) (filter (\<lambda>v. v \<noteq> []) secrets)) text"
  by (simp add: redact_secrets_def redact_one_def [abs_def])

text \<open>
  Redaction is complete: whichever secrets overlap or contain each other and wherever they stand in
  the text, none of them occurs in the result, as long as no secret has a star in it or is part of
  the word between the stars of the placeholder.
\<close>

theorem redaction_complete:
  assumes "v \<in> set secrets" "v \<noteq> []" "list_all redactable secrets"
  shows "\<not> sublist v (redact_secrets text secrets)"
  unfolding redact_secrets_fold
  using assms by (intro fold_redact_removes) (auto simp: list_all_iff)

theorem redaction_complete_witness:
  "\<not> sublist ''sk-12'' (redact_secrets ''key sk-1234 and sk-12'' [''sk-12'', ''sk-1234''])"
  by (rule redaction_complete) (simp, simp, code_simp)

text \<open>A secret within the placeholder's word is still there after redaction.\<close>

lemma placeholder_keeps_part: "sublist ''RED'' (redact_secrets ''RED'' [''RED''])"
  by code_simp

section \<open>What the sandbox gets\<close>

lemma and_then_Inr: "and_then r f = (Inr y, h') \<longleftrightarrow> (\<exists>x h. r = (Inr x, h) \<and> f x h = (Inr y, h'))"
  by (cases r; cases "fst r") (auto simp: and_then_def split: prod.splits sum.splits)

lemma check_mounts_allowed: "check_mounts allowed mounts = Ok u \<Longrightarrow> (s, k, p) \<in> set mounts \<Longrightarrow> s \<in> VStr ` set allowed"
proof (induction allowed mounts arbitrary: u rule: check_mounts.induct)
  case (2 allowed secret_name k' p' mounts)
  then show ?case by (cases secret_name) (auto split: if_splits)
qed simp

lemma mcp_part_mounts:
  assumes "mcp_part env input step w n secrets au = (Inr (mcp, e), au')" "(s, k, p) \<in> set (mp_mounts mcp)"
  shows "env_get env ''MCP_ALLOWED_SECRETS'' [] \<noteq> [] \<and> s \<in> VStr ` set (allowed_secrets env)"
  using assms check_mounts_allowed [of "allowed_secrets env" "mp_mounts mcp" "()" s k p]
  by (auto simp: mcp_part_def and_then_Inr check_allowlist_def split: option.splits if_splits)

text \<open>
  C18. Only allowed secrets are mounted: if a step may be sent to a sandbox at all, every secret its MCP
  servers ask for is on the list of the operator, and without a list there is none.
\<close>

theorem mounts_allowlisted:
  assumes "prepare_sandbox eng sha f sa env attempt input au = (Inr p, au')" "(secret_name, key, path) \<in> set (pn_mounts p)"
  shows "env_get env ''MCP_ALLOWED_SECRETS'' [] \<noteq> [] \<and> secret_name \<in> VStr ` set (allowed_secrets env)"
  using assms mcp_part_mounts by (fastforce simp: prepare_sandbox_def and_then_Inr)

definition mcp_example :: "pydict" where
  "mcp_example =
     [(''step'', VDict [(''name'', VStr ''s''), (''mcp_servers'', VList [VStr ''m''])]), (''workflow_id'', VStr ''w''),
      (''provider'', VDict [(''name'', VStr ''bedrock''), (''model'', VStr ''x'')]),
      (''mcp_servers'', VList [VDict [(''name'', VStr ''m''), (''url'', VStr ''https://m''),
         (''secret_headers'', VDict [(''Authorization'', VDict [(''secret_name'', VStr ''gh''), (''key'', VStr ''tok'')])])]])]"

theorem mounts_allowlisted_witness:
  "env_get [(''MCP_ALLOWED_SECRETS'', ''jira, gh'')] ''MCP_ALLOWED_SECRETS'' [] \<noteq> []
   \<and> VStr ''gh'' \<in> VStr ` set (allowed_secrets [(''MCP_ALLOWED_SECRETS'', ''jira, gh'')])"
proof -
  let ?r = "prepare_sandbox LocalEngine (\<lambda>_. []) (\<lambda>_. None) None [(''MCP_ALLOWED_SECRETS'', ''jira, gh'')] (VInt 1) mcp_example []"
  have "(case ?r of (Inr p, _) \<Rightarrow> (VStr ''gh'', VStr ''tok'', ''/var/secrets/mcp/m/'') \<in> set (pn_mounts p) | _ \<Rightarrow> False)"
    by code_simp
  then obtain p au where "?r = (Inr p, au)" "(VStr ''gh'', VStr ''tok'', ''/var/secrets/mcp/m/'') \<in> set (pn_mounts p)"
    by (auto split: sum.splits prod.splits)
  then show ?thesis by (rule mounts_allowlisted)
qed

text \<open>The environment variables that are read by value; every other one is only tested for being set.\<close>

definition read_variables :: "string list" where
  "read_variables = [''LIGHTSPEED_MODEL_PROVIDER'', ''OTEL_EXPORTER_OTLP_ENDPOINT'', ''OTEL_EXPORTER_OTLP_PROTOCOL'',
     ''MCP_ALLOWED_SECRETS'', ''SANDBOX_AUTH_ENABLED'', ''AUTH_MODE'', ''AGENT_API_TOKEN''] @ deploy_vars"

definition public_plan :: "sandbox_plan \<Rightarrow> sandbox_plan" where
  "public_plan p = p\<lparr>pn_secrets := []\<rparr>"

definition hide :: "mcp_plan \<Rightarrow> mcp_plan" where
  "hide m = m\<lparr>mp_secrets := []\<rparr>"

lemma hide_eq: "hide m = hide m' \<longleftrightarrow> mp_entries m = mp_entries m' \<and> mp_mounts m = mp_mounts m'"
  by (cases m; cases m') (simp add: hide_def)

text \<open>Two computations agree up to a view of their results; sequencing keeps the agreement.\<close>

definition alike :: "('a \<Rightarrow> 'b) \<Rightarrow> ('e + 'a) \<times> 'h \<Rightarrow> ('e + 'a) \<times> 'h \<Rightarrow> bool" where
  "alike f r r' = (map_sum id f (fst r) = map_sum id f (fst r') \<and> snd r = snd r')"

lemma alike_and_then:
  assumes "alike f r r'" and "\<And>x x' h. f x = f x' \<Longrightarrow> alike g (k x h) (k' x' h)"
  shows "alike g (and_then r k) (and_then r' k')"
  using assms by (cases r; cases r'; cases "fst r"; cases "fst r'") (auto simp: alike_def)

lemma alike_same:
  assumes "\<And>x h. alike g (k x h) (k' x h)"
  shows "alike g (and_then r k) (and_then r k')"
  using assms by (cases r; cases "fst r") (auto simp: alike_def)

lemma alike_refl: "alike f r r"
  by (simp add: alike_def)

lemma plan_server_alike: "hide m = hide m' \<Longrightarrow> alike hide (plan_server w n s m au) (plan_server w n s m' au)"
  unfolding plan_server_def hide_eq
  by (elim conjE, simp only:, intro alike_same) (simp add: alike_def hide_def split: prod.split)

lemma plan_servers_alike: "hide m = hide m' \<Longrightarrow> alike hide (plan_servers w n ss m au) (plan_servers w n ss m' au)"
proof (induction ss arbitrary: m m' au)
  case (Cons s ss)
  show ?case unfolding plan_servers.simps
    by (rule alike_and_then [OF plan_server_alike [OF Cons.prems]]) (rule Cons.IH)
qed (simp add: alike_def)

lemma mcp_part_alike:
  assumes "env_get env ''MCP_ALLOWED_SECRETS'' [] = env_get env' ''MCP_ALLOWED_SECRETS'' []"
  shows "alike (\<lambda>(m, e). (hide m, e)) (mcp_part env input step w n secrets au) (mcp_part env' input step w n secrets' au)"
proof -
  have allow: "check_allowlist env mounts = check_allowlist env' mounts" for mounts
    using assms by (simp add: check_allowlist_def allowed_secrets_def)
  have tail: "alike (\<lambda>(m, e). (hide m, e))
      (and_then (check_allowlist env (mp_mounts m), h) (\<lambda>_ au. (Inr (m, f (mp_entries m)), au)))
      (and_then (check_allowlist env' (mp_mounts m'), h) (\<lambda>_ au. (Inr (m', f (mp_entries m')), au)))"
    if "hide m = hide m'" for m m' f and h :: "audit_event list"
    using that unfolding allow hide_eq by (elim conjE, simp only:, intro alike_same) (simp add: alike_def hide_eq)
  show ?thesis
    unfolding mcp_part_def
  proof (rule alike_same)
    fix servers and h :: "audit_event list"
    show "alike (\<lambda>(m, e). (hide m, e))
        (case servers of
           None \<Rightarrow> (Inr (\<lparr>mp_entries = [], mp_mounts = [], mp_secrets = secrets\<rparr>, []), h)
         | Some ss \<Rightarrow> and_then (plan_servers w n ss \<lparr>mp_entries = [], mp_mounts = [], mp_secrets = secrets\<rparr> h)
             (\<lambda>mcp audits. and_then (check_allowlist env (mp_mounts mcp), audits) (\<lambda>_ audits.
               (Inr (mcp, [(''LIGHTSPEED_MCP_SERVERS'', VStr (json_dumps (VList (mp_entries mcp))))]), audits))))
        (case servers of
           None \<Rightarrow> (Inr (\<lparr>mp_entries = [], mp_mounts = [], mp_secrets = secrets'\<rparr>, []), h)
         | Some ss \<Rightarrow> and_then (plan_servers w n ss \<lparr>mp_entries = [], mp_mounts = [], mp_secrets = secrets'\<rparr> h)
             (\<lambda>mcp audits. and_then (check_allowlist env' (mp_mounts mcp), audits) (\<lambda>_ audits.
               (Inr (mcp, [(''LIGHTSPEED_MCP_SERVERS'', VStr (json_dumps (VList (mp_entries mcp))))]), audits))))"
    proof (cases servers)
      case (Some ss)
      show ?thesis unfolding Some option.case
        by (rule alike_and_then [OF plan_servers_alike]) (simp add: hide_eq, erule tail)
    qed (simp add: alike_def hide_eq)
  qed
qed

lemma same_reads:
  assumes "k \<notin> set read_variables" "env_set env k" "v \<noteq> []"
  shows "\<And>x. env_set (dict_set k v env) x = env_set env x"
    and "\<And>x d. x \<in> set read_variables \<Longrightarrow> env_get (dict_set k v env) x d = env_get env x d"
    and "\<And>x. x \<in> set read_variables \<Longrightarrow> env_entry (dict_set k v env) x = env_entry env x"
  using assms by (auto simp: env_set_def env_get_def env_entry_def split: option.splits)

lemma same_base_env:
  assumes "k \<notin> set read_variables" "env_set env k" "v \<noteq> []"
  shows "base_env eng (dict_set k v env) provider = base_env eng env provider"
proof -
  note entry = same_reads(3) [OF assms]
  have "concat (map (env_entry (dict_set k v env)) deploy_vars) = concat (map (env_entry env) deploy_vars)"
    by (intro arg_cong [where f = concat] map_cong refl entry) (simp add: read_variables_def)
  moreover have "otel_entries eng (dict_set k v env) = otel_entries eng env"
    using entry assms(1) by (cases eng) (auto simp: otel_entries_def read_variables_def)
  moreover have "env_entry (dict_set k v env) ''LIGHTSPEED_MODEL_PROVIDER'' = env_entry env ''LIGHTSPEED_MODEL_PROVIDER''"
    by (rule entry) (simp add: read_variables_def)
  ultimately show ?thesis unfolding base_env_def by (simp only:)
qed

text \<open>
  C19. The value of a credential stays out of the sandbox: if a variable that is not one of the forwarded
  settings is set, then what a step sends to the spawner (environment, labels, mounts, identity,
  token) and what it writes to the audit trail is the same for every other non-empty value of that
  variable. Only the list of texts to redact depends on it.
\<close>

theorem credential_stays_out:
  assumes "k \<notin> set read_variables" "env_set env k" "v \<noteq> []"
  shows "alike public_plan (prepare_sandbox eng sha f sa env attempt input au)
           (prepare_sandbox eng sha f sa (dict_set k v env) attempt input au)"
proof -
  have cred: "resolve_credential_env_key (dict_set k v env) = resolve_credential_env_key env"
  proof -
    have "env_set (dict_set k v env) = env_set env" using same_reads(1) [OF assms] by blast
    then show ?thesis unfolding resolve_credential_env_key_def [abs_def] by (simp only:)
  qed
  have tok: "sandbox_auth_token sa (dict_set k v env) = sandbox_auth_token sa env"
    by (simp add: sandbox_auth_token_def sandbox_auth_enabled_def get_runner_auth_token_def get_auth_mode_def
        get_api_token_def same_reads(2) [OF assms] read_variables_def)
  have mcp: "env_get env ''MCP_ALLOWED_SECRETS'' [] = env_get (dict_set k v env) ''MCP_ALLOWED_SECRETS'' []"
    by (simp add: same_reads(2) [OF assms] read_variables_def)
  show ?thesis
    unfolding prepare_sandbox_def cred tok same_base_env [OF assms]
    by (intro alike_same alike_and_then [OF mcp_part_alike [OF mcp]])
       (clarsimp simp: hide_eq split: prod.splits, intro alike_same, simp add: alike_def public_plan_def)
qed

theorem credential_stays_out_witness:
  "alike public_plan
     (prepare_sandbox LocalEngine (\<lambda>_. []) (\<lambda>_. None) None
        [(''OPENAI_API_KEY'', ''sk-1''), (''MCP_ALLOWED_SECRETS'', ''gh'')] (VInt 1) mcp_example [])
     (prepare_sandbox LocalEngine (\<lambda>_. []) (\<lambda>_. None) None 
        (dict_set ''OPENAI_API_KEY'' ''sk-2'' [(''OPENAI_API_KEY'', ''sk-1''), (''MCP_ALLOWED_SECRETS'', ''gh'')])
        (VInt 1) mcp_example [])"
  by (rule credential_stays_out) (simp_all add: read_variables_def deploy_vars_def env_set_def)

end
