(* ===== verification/SandboxStep.thy ===== *)
theory SandboxStep
  imports LocalRunner Guards Middleware SandboxRequest
begin

text \<open>
  One attempt of an agent step in a sandbox, as both engines run it: \<open>_run_step_inner\<close> of
  \<open>core/step_runner.py\<close> and \<open>_run_sandbox_step_inner\<close> of \<open>executor/temporal/activities.py\<close>, with the step
  executor of \<open>step/sandbox.py\<close> on top of the first. The spawner's implementation, the HTTP calls, the
  clocks and the certificate library are fields of \<open>sandbox_env\<close>; each answers for one await and may
  answer with the cancellation of the step. What the code itself changes is the record \<open>sandbox_host\<close>;
  it also keeps the calls in the order they were made, a spawn with the endpoint it returned. Metrics, log lines, heartbeats and the
  progress stream observe the run and are left out.
\<close>

section \<open>State and surroundings\<close>

record spawn_request =
  rq_name :: string
  rq_image :: pyval
  rq_env :: pydict
  rq_labels :: "string dict"
  rq_skills_image :: pyval
  rq_skills_paths :: pyval
  rq_allowed_skills :: pyval
  rq_service_account :: pyval
  rq_read_only :: pyval
  rq_credential :: "string option"
  rq_mounts :: "mount list option"
  rq_ca_cert :: "string option"
  rq_lifetime :: int

record run_call =
  rc_endpoint :: string
  rc_body :: pydict
  rc_headers :: "string dict"
  rc_timeout :: rat
  rc_verify :: "string option"

datatype sandbox_call =
    SpawnCall spawn_request "string option"
  | ReadyCall string
  | RunCall run_call
  | EventsCall string "string dict"
  | DestroyCall string

text \<open>
  A response is its status and its text. The context \<open>httpx\<close> verifies a server with is given by the CA
  certificate it was built from, or by the one of the spawner.
\<close>

record 'w sandbox_env =
  sx_sha256 :: "string \<Rightarrow> string"
  sx_float :: "string \<Rightarrow> rat option"
  sx_float_text :: "rat \<Rightarrow> string"
  sx_json :: json_lib
  sx_json_error :: "string \<Rightarrow> string"
  sx_validate :: "ptype \<Rightarrow> pyval \<Rightarrow> pyval res"
  sx_threshold :: int
  sx_reset :: rat
  sx_sa_token :: "string option"
  sx_query_ssl_context :: "string option"
  sx_clock :: "'w \<Rightarrow> rat"
  sx_now :: "'w \<Rightarrow> instant"
  sx_traceparent :: "'w \<Rightarrow> string option"
  sx_sandbox_headers :: "string \<Rightarrow> 'w \<Rightarrow> string dict"
  sx_certs :: "string \<Rightarrow> string list \<Rightarrow> 'w \<Rightarrow> (sandbox_exc + string) \<times> 'w"
  sx_do_spawn :: "spawn_request \<Rightarrow> 'w \<Rightarrow> (sandbox_exc + string) \<times> 'w"
  sx_wait_ready :: "string \<Rightarrow> 'w \<Rightarrow> (sandbox_exc + bool) \<times> 'w"
  sx_post :: "run_call \<Rightarrow> 'w \<Rightarrow> (sandbox_exc + nat \<times> string) \<times> 'w"
  sx_get_events :: "string \<Rightarrow> string dict \<Rightarrow> 'w \<Rightarrow> (sandbox_exc + nat \<times> string) \<times> 'w"
  sx_save :: "'w \<Rightarrow> (sandbox_exc + unit) \<times> 'w"
  sx_execute :: "step_executor \<Rightarrow> exec_input \<Rightarrow> 'w \<Rightarrow> (agent_exc + exec_output) \<times> 'w"
  sx_stamp :: "nat \<Rightarrow> string"
  sx_now_ms :: "'w \<Rightarrow> int"
  sx_add :: "pyval \<Rightarrow> pyval \<Rightarrow> pyval"
  sx_stop_heartbeat :: "'w \<Rightarrow> (sandbox_exc + unit) \<times> 'w"
  sx_do_destroy :: "string \<Rightarrow> 'w \<Rightarrow> (sandbox_exc + unit) \<times> 'w"

record 'w sandbox_host =
  bx_env :: "string dict"
  bx_breaker :: breaker
  bx_pool :: pool
  bx_audit :: audit_trail
  bx_store :: "transcript_store option"
  bx_calls :: "sandbox_call list"
  bx_world :: 'w

definition await :: "('w \<Rightarrow> ('e + 'a) \<times> 'w) \<Rightarrow> 'w sandbox_host \<Rightarrow> ('e + 'a) \<times> 'w sandbox_host" where
  "await f h = (case f (bx_world h) of (r, w) \<Rightarrow> (r, h\<lparr>bx_world := w\<rparr>))"

definition made :: "sandbox_call \<Rightarrow> 'w sandbox_host \<Rightarrow> 'w sandbox_host" where
  "made c h = h\<lparr>bx_calls := bx_calls h @ [c]\<rparr>"

definition sandbox_audit :: "string \<Rightarrow> sandbox_plan \<Rightarrow> pydict \<Rightarrow> 'w sandbox_host \<Rightarrow> 'w sandbox_host" where
  "sandbox_audit event_type p details h =
     h\<lparr>bx_audit := bx_audit h @ [\<lparr>au_type = event_type, au_workflow_id = pn_workflow_id p, au_step_name = pn_step_name p,
        au_actor = [], au_details = (''pod_name'', VStr (pn_pod_name p)) # details\<rparr>]\<rparr>"

definition py :: "'a res \<Rightarrow> 'h \<Rightarrow> (sandbox_exc + 'a) \<times> 'h" where
  "py r h = (case r of Inl e \<Rightarrow> (Inl (PyError e), h) | Inr x \<Rightarrow> (Inr x, h))"

section \<open>The spawner\<close>

definition spawn :: "'w sandbox_env \<Rightarrow> spawn_request \<Rightarrow> 'w sandbox_host \<Rightarrow> (sandbox_exc + string) \<times> 'w sandbox_host" where
  "spawn sx rq h =
     (case spawn_begin (bx_pool h) of
        (Inl e, p) \<Rightarrow> (Inl e, made (SpawnCall rq None) (h\<lparr>bx_pool := p\<rparr>))
      | (Inr _, p) \<Rightarrow>
          (case await (sx_do_spawn sx rq) (h\<lparr>bx_pool := p\<rparr>) of
             (answer, h1) \<Rightarrow>
               (case spawn_end answer (bx_pool h1) of
                  (r, p1) \<Rightarrow> (r, made (SpawnCall rq (case r of Inl _ \<Rightarrow> None | Inr e \<Rightarrow> Some e)) (h1\<lparr>bx_pool := p1\<rparr>)))))"

definition destroy :: "'w sandbox_env \<Rightarrow> string \<Rightarrow> 'w sandbox_host \<Rightarrow> (sandbox_exc + unit) \<times> 'w sandbox_host" where
  "destroy sx name h =
     (case await (sx_do_destroy sx name) (made (DestroyCall name) h) of
        (answer, h1) \<Rightarrow> (case destroy_end answer (bx_pool h1) of (r, p1) \<Rightarrow> (r, h1\<lparr>bx_pool := p1\<rparr>)))"

section \<open>Transcript of the sandbox\<close>

text \<open>A line that is no JSON object, or no valid event, is skipped.\<close>

definition event_line :: "json_lib \<Rightarrow> (ptype \<Rightarrow> pyval \<Rightarrow> pyval res) \<Rightarrow> string \<Rightarrow> transcript_event list" where
  "event_line L validate line =
     (if py_strip line = [] then []
      else case json_loads L (py_strip line) of
        Inr (VDict raw) \<Rightarrow> (case rebuild_event validate raw of Inr e \<Rightarrow> [e] | Inl _ \<Rightarrow> [])
      | _ \<Rightarrow> [])"

definition parse_events :: "json_lib \<Rightarrow> (ptype \<Rightarrow> pyval \<Rightarrow> pyval res) \<Rightarrow> string \<Rightarrow> transcript_event list" where
  "parse_events L validate content =
     (if py_strip content = [] then []
      else concat (map (event_line L validate) (py_split [newline] (py_strip content))))"

definition is_success :: "nat \<Rightarrow> bool" where
  "is_success status = (200 \<le> status \<and> status \<le> 299)"

definition collect_transcript ::
  "'w sandbox_env \<Rightarrow> string \<Rightarrow> string \<Rightarrow> string dict \<Rightarrow> 'w sandbox_host \<Rightarrow> (sandbox_exc + step_transcript) \<times> 'w sandbox_host" where
  "collect_transcript sx endpoint step_name http_headers h =
     (case await (sx_get_events sx endpoint http_headers) (made (EventsCall endpoint http_headers) h) of
        (Inl CancelledError, h1) \<Rightarrow> (Inl CancelledError, h1)
      | (Inl _, h1) \<Rightarrow> (Inr (empty_transcript step_name), h1)
      | (Inr (status, text), h1) \<Rightarrow>
          (Inr (if is_success status
                then step_transcript.st_events_update (\<lambda>_. parse_events (sx_json sx) (sx_validate sx) text) (empty_transcript step_name)
                else empty_transcript step_name), h1))"

text \<open>\<open>transcript.model_dump()\<close>.\<close>

definition dump_transcript :: "step_transcript \<Rightarrow> pydict" where
  "dump_transcript t =
     [(''step_name'', VStr (st_step_name t)), (''events'', VList (map (VDict \<circ> event_dump) (step_transcript.st_events t))),
      (''cost_usd'', st_cost_usd t), (''input_tokens'', st_input_tokens t), (''output_tokens'', st_output_tokens t),
      (''duration_ms'', st_duration_ms t)]"

text \<open>Saving before the sandbox is destroyed; a failure is logged and forgotten.\<close>

definition save_sandbox_transcript ::
  "'w sandbox_env \<Rightarrow> string \<Rightarrow> pyval \<Rightarrow> step_transcript \<Rightarrow> 'w sandbox_host \<Rightarrow> (sandbox_exc + unit) \<times> 'w sandbox_host" where
  "save_sandbox_transcript sx workflow_id output_key t h =
     (case bx_store h of
        None \<Rightarrow> (Inr (), h)
      | Some store \<Rightarrow>
          if step_transcript.st_events t = [] then (Inr (), h)
          else (case await (sx_save sx) h of
                  (Inl CancelledError, h1) \<Rightarrow> (Inl CancelledError, h1)
                | (Inl _, h1) \<Rightarrow> (Inr (), h1)
                | (Inr _, h1) \<Rightarrow>
                    (case save_transcript (sx_now sx (bx_world h1)) workflow_id (text_of output_key) t None None store of
                       Inl _ \<Rightarrow> (Inr (), h1)
                     | Inr store' \<Rightarrow> (Inr (), h1\<lparr>bx_store := Some store'\<rparr>))))"

section \<open>The request\<close>

definition prior_result :: "(ptype \<Rightarrow> pyval \<Rightarrow> pyval res) \<Rightarrow> string \<times> pyval \<Rightarrow> (string \<times> step_result) res" where
  "prior_result validate = (\<lambda>(k, v).
     then_do (as_dict v) (\<lambda>v.
     then_do (validate StepResultModel (VDict [(''status'', dget_or v ''status'' (VStr ''completed'')),
        (''output'', dget v ''output''), (''error'', dget v ''error'')])) (\<lambda>r.
     then_do (as_dict r) (\<lambda>d.
       Ok (k, \<lparr>sr_status = model_status_of (dget d ''status''),
               sr_output = (case dget d ''output'' of VDict o' \<Rightarrow> Some o' | _ \<Rightarrow> None),
               sr_error = opt_str (dget d ''error'')\<rparr>)))))"

definition instruction_entry :: "(ptype \<Rightarrow> pyval \<Rightarrow> pyval res) \<Rightarrow> string \<times> pyval \<Rightarrow> (string \<times> core_step_result) res" where
  "instruction_entry validate = (\<lambda>(k, v). then_do (as_dict v) (\<lambda>v. to_step_result validate (k, v)))"

text \<open>\<open>_interpolate_instructions\<close>: a template that cannot be filled in is used as it is.\<close>

definition interpolate_instructions :: "(ptype \<Rightarrow> pyval \<Rightarrow> pyval res) \<Rightarrow> pyval \<Rightarrow> pydict \<Rightarrow> pyval res" where
  "interpolate_instructions validate template context =
     (case template of
        VStr t \<Rightarrow>
          if \<not> sublist ''{{'' t then Ok template
          else then_do (map_res (instruction_entry validate) context) (\<lambda>steps.
            case interpolate t \<lparr>ws_workflow_id = [], ws_workflow_name = [], ws_status = RunRunning,
                                ws_current_step = None, ws_steps = steps\<rparr> of
              Inr s \<Rightarrow> Ok (VStr s)
            | Inl (ValueError _) \<Rightarrow> Ok template
            | Inl e \<Rightarrow> Err e)
      | _ \<Rightarrow> Ok template)"

definition system_prompt_of :: "engine \<Rightarrow> (ptype \<Rightarrow> pyval \<Rightarrow> pyval res) \<Rightarrow> pydict \<Rightarrow> pydict \<Rightarrow> pydict res" where
  "system_prompt_of eng validate step context =
     (let instructions = dget step ''instructions'' in
        if \<not> truthy instructions then Ok []
        else case eng of
          LocalEngine \<Rightarrow> Ok [(''systemPrompt'', instructions)]
        | TemporalEngine \<Rightarrow>
            then_do (interpolate_instructions validate instructions context) (\<lambda>s. Ok [(''systemPrompt'', s)]))"

definition optional_entry :: "string \<Rightarrow> pyval \<Rightarrow> pydict" where
  "optional_entry k v = (if truthy v then [(k, v)] else [])"

definition request_body :: "engine \<Rightarrow> (ptype \<Rightarrow> pyval \<Rightarrow> pyval res) \<Rightarrow> sandbox_plan \<Rightarrow> pydict \<Rightarrow> pydict res" where
  "request_body eng validate p input =
     then_do (as_dict (dget_or input ''context'' (VDict []))) (\<lambda>context.
     then_do (map_res (prior_result validate) context) (\<lambda>prior_steps.
     then_do (build_sandbox_context prior_steps (pn_step p) (dget input ''execution_context'')) (\<lambda>sandbox_context.
     then_do (system_prompt_of eng validate (pn_step p) context) (\<lambda>system_prompt.
       Ok ([(''query'', dget_or (pn_step p) ''prompt'' (VStr [])), (''context'', VDict sandbox_context)]
           @ system_prompt
           @ optional_entry ''outputSchema'' (dget (pn_step p) ''output_schema'')
           @ optional_entry ''allowedTools'' (dget (pn_permissions p) ''allowed_tools'')
           @ optional_entry ''deniedTools'' (dget (pn_permissions p) ''denied_tools''))))))"

definition dict_update :: "string dict \<Rightarrow> string dict \<Rightarrow> string dict" where
  "dict_update d e = fold (\<lambda>(k, v). dict_set k v) e d"

definition http_headers_of :: "engine \<Rightarrow> 'w sandbox_env \<Rightarrow> sandbox_plan \<Rightarrow> 'w \<Rightarrow> string dict" where
  "http_headers_of eng sx p w =
     dict_update
       ((case pn_auth_token p of None \<Rightarrow> [] | Some t \<Rightarrow> [(''Authorization'', ''Bearer '' @ t)])
        @ (case eng of
             TemporalEngine \<Rightarrow> []
           | LocalEngine \<Rightarrow> (case sx_traceparent sx w of None \<Rightarrow> [] | Some t \<Rightarrow> [(''traceparent'', t)])))
       (sx_sandbox_headers sx (pn_pod_name p) w)"

section \<open>The answer\<close>

definition loads :: "'w sandbox_env \<Rightarrow> string \<Rightarrow> pyval res" where
  "loads sx text =
     (case json_loads (sx_json sx) text of
        Inr v \<Rightarrow> Ok v
      | Inl IntDigitsLimit \<Rightarrow> Err (ValueError int_limit_text)
      | Inl JSONDecodeError \<Rightarrow> Err (ValueError (sx_json_error sx text)))"

definition failed_answer :: "'w sandbox_env \<Rightarrow> string list \<Rightarrow> pydict \<Rightarrow> pydict \<Rightarrow> pydict res" where
  "failed_answer sx secrets data transcript =
     (let error_msg = dget_or data ''error'' (VStr ''agent returned success=false''); output_val = dget data ''output'' in
        if secrets = []
        then Ok [(''status'', VStr ''failed''), (''error'', error_msg), (''output'', output_val), (''transcript'', VDict transcript)]
        else then_do (if truthy output_val then loads sx (redact_secrets (json_dumps output_val) secrets) else Ok output_val)
          (\<lambda>output. Ok [(''status'', VStr ''failed''), (''error'', VStr (redact_secrets (py_str error_msg) secrets)),
                          (''output'', output), (''transcript'', VDict transcript)]))"

text \<open>
  A successful answer: the other entries of the answer are put into its output. The step runner makes
  an object of any output first, the activity takes the output as it is.
\<close>

definition answer_extras :: "pydict \<Rightarrow> pydict" where
  "answer_extras data = filter (\<lambda>(k, v). k \<notin> {''success'', ''output'', ''summary''}) data
     @ optional_entry ''summary'' (dget data ''summary'')"

definition merged_output :: "engine \<Rightarrow> pydict \<Rightarrow> pyval res" where
  "merged_output eng data =
     (let output = (case eng of
                      TemporalEngine \<Rightarrow> dget_or data ''output'' (VDict [])
                    | LocalEngine \<Rightarrow>
                        if \<not> truthy (dget data ''output'') then VDict []
                        else if is_dict (dget data ''output'') then dget data ''output''
                        else VDict [(''raw'', dget data ''output'')]) in
        case output of
          VDict d \<Rightarrow> Ok (VDict (fold (\<lambda>(k, v). dict_set k v) (answer_extras data) d))
        | _ \<Rightarrow> if answer_extras data = [] then Ok output
               else Err (TypeError ''object does not support item assignment''))"

definition completed_answer :: "engine \<Rightarrow> pydict \<Rightarrow> pydict \<Rightarrow> pydict res" where
  "completed_answer eng data transcript =
     then_do (merged_output eng data) (\<lambda>output.
       Ok [(''status'', VStr ''completed''), (''output'', output), (''transcript'', VDict transcript)])"

section \<open>The conversation with a sandbox\<close>

definition provider_failed :: "'w sandbox_env \<Rightarrow> string \<Rightarrow> 'w sandbox_host \<Rightarrow> 'w sandbox_host" where
  "provider_failed sx provider h = h\<lparr>bx_breaker := record_failure provider (sx_clock sx (bx_world h)) (bx_breaker h)\<rparr>"

definition provider_succeeded :: "string \<Rightarrow> 'w sandbox_host \<Rightarrow> 'w sandbox_host" where
  "provider_succeeded provider h = h\<lparr>bx_breaker := record_success provider (bx_breaker h)\<rparr>"

definition agent_run ::
  "engine \<Rightarrow> 'w sandbox_env \<Rightarrow> sandbox_plan \<Rightarrow> run_call \<Rightarrow> 'w sandbox_host \<Rightarrow> (sandbox_exc + nat \<times> string) \<times> 'w sandbox_host" where
  "agent_run eng sx p c h =
     (case await (sx_post sx c) (made (RunCall c) h) of
        (Inl (SSLError m), h1) \<Rightarrow> (Inl (SSLError m), sandbox_audit ''tls_error'' p [(''error'', VStr m)] h1)
      | (Inl (ConnectError m), h1) \<Rightarrow>
          (Inl (ConnectError m), if eng = LocalEngine then sandbox_audit ''tls_error'' p [(''error'', VStr m)] h1 else h1)
      | (Inl (TimeoutError _), h1) \<Rightarrow>
          (Inl (TimeoutError (''Agent run timed out after '' @ sx_float_text sx (pn_http_timeout p) @ ''s'')),
           sandbox_audit ''sandbox_timeout'' p [(''reason'', VStr ''timeout'')] h1)
      | (r, h1) \<Rightarrow> (r, h1))"

definition not_ready :: "sandbox_plan \<Rightarrow> pyexc" where
  "not_ready p = RuntimeError (''Sandbox pod '' @ [sq] @ pn_pod_name p @ [sq] @ '' never became ready for step ''
     @ [sq] @ pn_step_name p @ [sq])"

definition bad_gateway :: "sandbox_plan \<Rightarrow> pyexc" where
  "bad_gateway p = RuntimeError (''Infrastructure error from sandbox (HTTP 502) for step '' @ [sq] @ pn_step_name p @ [sq])"

definition settle ::
  "engine \<Rightarrow> 'w sandbox_env \<Rightarrow> sandbox_plan \<Rightarrow> string \<Rightarrow> pyval \<Rightarrow> step_transcript \<Rightarrow> 'w sandbox_host
   \<Rightarrow> (sandbox_exc + pydict) \<times> 'w sandbox_host" where
  "settle eng sx p provider data t h =
     and_then (py (as_dict data) h) (\<lambda>data h.
       if truthy (dget_or data ''success'' (VBool False))
       then py (completed_answer eng data (dump_transcript t)) (provider_succeeded provider h)
       else py (failed_answer sx (pn_secrets p) data (dump_transcript t)) (provider_failed sx provider h))"

definition converse ::
  "engine \<Rightarrow> 'w sandbox_env \<Rightarrow> sandbox_plan \<Rightarrow> string \<Rightarrow> string option \<Rightarrow> pydict \<Rightarrow> string \<Rightarrow> 'w sandbox_host
   \<Rightarrow> (sandbox_exc + pydict) \<times> 'w sandbox_host" where
  "converse eng sx p provider ca input endpoint h =
     and_then (await (sx_wait_ready sx endpoint) (made (ReadyCall endpoint) h)) (\<lambda>ready h.
     if \<not> ready then (Inl (PyError (not_ready p)), provider_failed sx provider h)
     else
     and_then (py (request_body eng (sx_validate sx) p input) h) (\<lambda>body h.
       let headers = http_headers_of eng sx p (bx_world h) in
     and_then (agent_run eng sx p \<lparr>rc_endpoint = endpoint, rc_body = body, rc_headers = headers,
         rc_timeout = pn_http_timeout p, rc_verify = (if ca \<noteq> None then ca else sx_query_ssl_context sx)\<rparr> h) (\<lambda>(status, text) h.
     if status = 502 then (Inl (PyError (bad_gateway p)), provider_failed sx provider h)
     else
     and_then (py (loads sx text) h) (\<lambda>data h.
     and_then (collect_transcript sx endpoint (pn_step_name p) headers h) (\<lambda>t h.
     and_then (save_sandbox_transcript sx (pn_workflow_id p) (dget_or (pn_step p) ''output_key'' (VStr (pn_step_name p))) t h) (\<lambda>_ h.
       settle eng sx p provider data t h))))))"

definition spawn_request_of :: "sandbox_plan \<Rightarrow> string option \<Rightarrow> pydict \<Rightarrow> spawn_request" where
  "spawn_request_of p ca input =
     (let sa = dget (pn_permissions p) ''service_account''; advisory = dget_or (pn_step p) ''advisory'' (VBool False) in
        \<lparr>rq_name = pn_pod_name p, rq_image = pn_image p, rq_env = pn_env p, rq_labels = pn_labels p,
         rq_skills_image = dget input ''skills_image'', rq_skills_paths = dget input ''skills_paths'',
         rq_allowed_skills = dget (pn_step p) ''allowed_skills'',
         rq_service_account = (if truthy advisory \<and> \<not> truthy sa then VStr ''advisory-sa'' else sa),
         rq_read_only = advisory, rq_credential = pn_credential_key p,
         rq_mounts = (if pn_mounts p = [] then None else Some (pn_mounts p)),
         rq_ca_cert = ca, rq_lifetime = pn_lifetime p\<rparr>)"

text \<open>The outcome of the inner \<open>try\<close>, with the endpoint if the spawn returned one; then its handler.\<close>

definition sandbox_session ::
  "engine \<Rightarrow> 'w sandbox_env \<Rightarrow> sandbox_plan \<Rightarrow> string \<Rightarrow> string option \<Rightarrow> pydict \<Rightarrow> 'w sandbox_host
   \<Rightarrow> (sandbox_exc + pydict) \<times> string option \<times> 'w sandbox_host" where
  "sandbox_session eng sx p provider ca input h =
     (case spawn sx (spawn_request_of p ca input) h of
        (Inl e, h1) \<Rightarrow> (Inl e, None, h1)
      | (Inr endpoint, h1) \<Rightarrow>
          (case converse eng sx p provider ca input endpoint h1 of (r, h2) \<Rightarrow> (r, Some endpoint, h2)))"

definition redact_failure :: "string list \<Rightarrow> sandbox_exc + 'a \<Rightarrow> sandbox_exc + 'a" where
  "redact_failure secrets r =
     (case r of
        Inl CancelledError \<Rightarrow> r
      | Inl e \<Rightarrow> if secrets = [] then r else Inl (PyError (RuntimeError (redact_secrets (sandbox_exc_str e) secrets)))
      | Inr _ \<Rightarrow> r)"

text \<open>The \<open>finally\<close> block. An exception of the clean-up itself replaces the outcome of the step only if it is a cancellation.\<close>

definition has_endpoint :: "string option \<Rightarrow> bool" where
  "has_endpoint endpoint = (endpoint \<noteq> None \<and> endpoint \<noteq> Some [])"

definition destroy_due :: "engine \<Rightarrow> string option \<Rightarrow> bool" where
  "destroy_due eng endpoint = (case eng of LocalEngine \<Rightarrow> True | TemporalEngine \<Rightarrow> has_endpoint endpoint)"

definition keep_sandboxes :: "string dict \<Rightarrow> bool" where
  "keep_sandboxes env = (py_lower (env_get env ''SKIP_SANDBOX_DESTROY'' []) \<in> {''1'', ''true''})"

definition clean_up ::
  "engine \<Rightarrow> 'w sandbox_env \<Rightarrow> sandbox_plan \<Rightarrow> string option \<Rightarrow> 'w sandbox_host \<Rightarrow> (sandbox_exc + unit) \<times> 'w sandbox_host" where
  "clean_up eng sx p endpoint h =
     (if \<not> destroy_due eng endpoint \<or> keep_sandboxes (bx_env h) then (Inr (), h)
      else case destroy sx (pn_pod_name p) h of
        (Inr _, h1) \<Rightarrow> (Inr (), sandbox_audit ''sandbox_destroyed'' p [] h1)
      | (Inl CancelledError, h1) \<Rightarrow> (Inl CancelledError, h1)
      | (Inl _, h1) \<Rightarrow> (Inr (), h1))"

definition finish ::
  "engine \<Rightarrow> 'w sandbox_env \<Rightarrow> sandbox_plan \<Rightarrow> string option \<Rightarrow> (sandbox_exc + pydict) \<Rightarrow> 'w sandbox_host
   \<Rightarrow> (sandbox_exc + pydict) \<times> 'w sandbox_host" where
  "finish eng sx p endpoint r h =
     and_then (case eng of LocalEngine \<Rightarrow> (Inr (), h) | TemporalEngine \<Rightarrow> await (sx_stop_heartbeat sx) h) (\<lambda>_ h.
       let h = (if r = Inl CancelledError \<and> has_endpoint endpoint
                then sandbox_audit ''sandbox_timeout'' p [(''reason'', VStr ''cancelled'')] h else h) in
         and_then (clean_up eng sx p endpoint h) (\<lambda>_ h. (r, h)))"

section \<open>One attempt\<close>

datatype tls_mode = TlsDisabled | TlsApp | TlsMesh

definition get_tls_mode :: "string dict \<Rightarrow> tls_mode res" where
  "get_tls_mode env =
     (let raw = env_get env ''SANDBOX_TLS_MODE'' ''disabled'' in
        if raw = ''disabled'' then Ok TlsDisabled else if raw = ''app'' then Ok TlsApp
        else if raw = ''mesh'' then Ok TlsMesh
        else Err (ValueError (repr_str raw @ '' is not a valid TLSMode'')))"

definition san_dns :: "string dict \<Rightarrow> string \<Rightarrow> string list" where
  "san_dns env pod =
     (let ns = env_get env ''NAMESPACE'' ''default'' in
        [pod, ''agent-'' @ pod, ''agent-'' @ pod @ ''.'' @ ns @ ''.svc'', ''agent-'' @ pod @ ''.'' @ ns @ ''.svc.cluster.local'', ''localhost''])"

definition tls_certs :: "'w sandbox_env \<Rightarrow> sandbox_plan \<Rightarrow> 'w sandbox_host \<Rightarrow> (sandbox_exc + string option) \<times> 'w sandbox_host" where
  "tls_certs sx p h =
     and_then (py (get_tls_mode (bx_env h)) h) (\<lambda>mode h.
       if mode = TlsApp
       then and_then (await (sx_certs sx (pn_pod_name p) (san_dns (bx_env h) (pn_pod_name p))) h) (\<lambda>ca h. (Inr (Some ca), h))
       else (Inr None, h))"

definition breaker_answer :: "string \<Rightarrow> pydict" where
  "breaker_answer provider = [(''status'', VStr ''failed''),
     (''error'', VStr (''Circuit breaker open for provider '' @ [sq] @ provider @ [sq] @ '' -- too many consecutive failures''))]"

definition stub_answer :: "string \<Rightarrow> pydict" where
  "stub_answer step_name = [(''status'', VStr ''completed''), (''output'', VDict [(''summary'', VStr (''executed-'' @ step_name))])]"

text \<open>The step, its name, the workflow and the provider, which both engines read first.\<close>

definition step_header :: "pydict \<Rightarrow> (pydict \<times> string \<times> string \<times> pydict) res" where
  "step_header input =
     then_do (then_do (item input ''step'') as_dict) (\<lambda>step.
     then_do (text_at step ''name'') (\<lambda>step_name.
     then_do (text_at input ''workflow_id'') (\<lambda>workflow_id.
     then_do (then_do (item input ''provider'') as_dict) (\<lambda>provider.
       Ok (step, step_name, workflow_id, provider)))))"

definition sandbox_attempt ::
  "engine \<Rightarrow> 'w sandbox_env \<Rightarrow> bool \<Rightarrow> pyval \<Rightarrow> string \<Rightarrow> pydict \<Rightarrow> 'w sandbox_host \<Rightarrow> (sandbox_exc + pydict) \<times> 'w sandbox_host" where
  "sandbox_attempt eng sx spawner attempt provider_name input h =
     (case prepare_sandbox eng (sx_sha256 sx) (sx_float sx) (sx_sa_token sx) (bx_env h) attempt input (bx_audit h) of
        (Inl e, audits) \<Rightarrow> (Inl (PyError e), h\<lparr>bx_audit := audits\<rparr>)
      | (Inr p, audits) \<Rightarrow>
          let h = h\<lparr>bx_audit := audits\<rparr> in
          if \<not> spawner then (Inr (stub_answer (pn_step_name p)), h)
          else and_then (tls_certs sx p (sandbox_audit ''sandbox_spawned'' p [(''image'', pn_image p)] h)) (\<lambda>ca h.
            case sandbox_session eng sx p provider_name ca input h of
              (r, endpoint, h1) \<Rightarrow> finish eng sx p endpoint (redact_failure (pn_secrets p) r) h1))"

text \<open>The breaker decides first; asking it may end an open period.\<close>

definition guarded ::
  "'w sandbox_env \<Rightarrow> pydict \<Rightarrow> 'w sandbox_host \<Rightarrow> (string \<Rightarrow> 'w sandbox_host \<Rightarrow> (sandbox_exc + pydict) \<times> 'w sandbox_host)
   \<Rightarrow> (sandbox_exc + pydict) \<times> 'w sandbox_host" where
  "guarded sx provider h k =
     (let provider_name = py_str (dget_or provider ''name'' (VStr ''unknown'')) in
        case is_open (sx_threshold sx) (sx_reset sx) provider_name (sx_clock sx (bx_world h)) (bx_breaker h) of
          (True, b) \<Rightarrow> (Inr (breaker_answer provider_name), h\<lparr>bx_breaker := b\<rparr>)
        | (False, b) \<Rightarrow> k provider_name (h\<lparr>bx_breaker := b\<rparr>))"

definition run_step_inner ::
  "'w sandbox_env \<Rightarrow> bool \<Rightarrow> int \<Rightarrow> pydict \<Rightarrow> 'w sandbox_host \<Rightarrow> (sandbox_exc + pydict) \<times> 'w sandbox_host" where
  "run_step_inner sx spawner attempt input h =
     and_then (py (step_header input) h) (\<lambda>(step, step_name, workflow_id, provider) h.
       guarded sx provider h (\<lambda>provider_name.
         sandbox_attempt LocalEngine sx spawner (VInt attempt) provider_name input))"

section \<open>Other spawn modes of the activity\<close>

definition texts_of :: "pyval \<Rightarrow> string list" where
  "texts_of v = map text_of (list_of v)"

definition opt_texts_of :: "pyval \<Rightarrow> string list option" where
  "opt_texts_of v = (if v = VNone then None else Some (texts_of v))"

definition int_or :: "int \<Rightarrow> pyval \<Rightarrow> int" where
  "int_or d v = (case v of VInt i \<Rightarrow> i | _ \<Rightarrow> d)"

definition activity_input ::
  "'w sandbox_env \<Rightarrow> string dict \<Rightarrow> pydict \<Rightarrow> pydict \<Rightarrow> pydict \<Rightarrow> exec_input res" where
  "activity_input sx env input step provider =
     then_do (text_at step ''name'') (\<lambda>step_name.
     then_do (as_dict (dget_or input ''context'' (VDict []))) (\<lambda>context.
     then_do (interpolate_instructions (sx_validate sx) (dget step ''instructions'') context) (\<lambda>system_prompt.
     then_do (resolve_mcp_servers (dget step ''mcp_servers'') (dget input ''mcp_servers'')) (\<lambda>servers.
     then_do (text_at input ''workflow_id'') (\<lambda>workflow_id.
       Ok ((StepInput (text_of (dget_or step ''prompt'' (VStr []))) provider)
             \<lparr>ei_system_prompt := opt_str system_prompt,
              ei_output_schema := (case dget step ''output_schema'' of VDict d \<Rightarrow> Some d | _ \<Rightarrow> None),
              ei_tools := texts_of (dget_or step ''tools'' (VList [])),
              ei_tools_module := map_of env ''CLOUD_AGENTS_TOOLS_MODULE'',
              ei_context := context, ei_execution_context := dict_of (dget input ''execution_context''),
              ei_timeout_seconds := int_or 600 (dget_or step ''timeout_seconds'' (VInt 600)),
              ei_sandbox_image := text_of (dget_or input ''sandbox_image'' (VStr ''sandbox:latest'')),
              ei_skills_image := opt_str (dget input ''skills_image''),
              ei_skills_paths := opt_texts_of (dget input ''skills_paths''),
              ei_allowed_skills := opt_texts_of (dget step ''allowed_skills''),
              ei_mcp_servers := map_option (map dict_of) servers,
              ei_workflow_id := workflow_id, ei_raw_step := Some step, ei_step_name := step_name,
              ei_output_key := text_of (dget_or step ''output_key'' (VStr step_name)),
              ei_attempt := int_or 1 (dget_or input ''attempt'' (VInt 1))\<rparr>))))))"

definition agent_raised :: "agent_exc \<Rightarrow> sandbox_exc" where
  "agent_raised e = (case e of Builtin p \<Rightarrow> PyError p | _ \<Rightarrow> OtherException (agent_exc_str e))"

definition transcript_middlewares ::
  "'w sandbox_env \<Rightarrow> transcript_store option \<Rightarrow> ('w \<times> transcript_store option) middleware list" where
  "transcript_middlewares sx store =
     (case store of
        None \<Rightarrow> []
      | Some _ \<Rightarrow> [TranscriptMiddleware (sx_validate sx) (sx_now sx \<circ> fst) (sx_stamp sx) snd (\<lambda>st (w, _). (w, Some st))])"

definition result_transcript :: "string \<Rightarrow> transcript_event list \<Rightarrow> exec_output \<Rightarrow> step_transcript" where
  "result_transcript step_name events r =
     \<lparr>st_step_name = step_name, st_events = events, st_cost_usd = eo_cost_usd r, st_input_tokens = VInt (eo_input_tokens r),
      st_output_tokens = VInt (eo_output_tokens r), st_duration_ms = VInt (eo_duration_ms r)\<rparr>"

definition run_direct_or_local_step ::
  "'w sandbox_env \<Rightarrow> pydict \<Rightarrow> pydict \<Rightarrow> pydict \<Rightarrow> string \<Rightarrow> 'w sandbox_host \<Rightarrow> (sandbox_exc + pydict) \<times> 'w sandbox_host" where
  "run_direct_or_local_step sx input step provider provider_name h =
     and_then (py (activity_input sx (bx_env h) input step provider) h) (\<lambda>step_input h.
     and_then (py (get_step_executor step False) h) (\<lambda>executor h.
       case run_no_span (\<lambda>si (w, st). case sx_execute sx executor si w of (r, w') \<Rightarrow> (r, (w', st)))
              (transcript_middlewares sx (bx_store h)) step_input (bx_world h, bx_store h) of
         (Inl e, (w, st)) \<Rightarrow> (Inl (agent_raised e), h\<lparr>bx_world := w, bx_store := st\<rparr>)
       | (Inr r, (w, st)) \<Rightarrow>
           let h = h\<lparr>bx_world := w, bx_store := st\<rparr>;
               h = (if eo_status r = ''completed'' then provider_succeeded provider_name h else provider_failed sx provider_name h) in
           and_then (py (normalize_transcript_events (sx_validate sx) (Some (eo_transcript r))) h) (\<lambda>events h.
             (Inr [(''status'', VStr (eo_status r)), (''output'', eo_output r),
                   (''error'', case eo_error r of None \<Rightarrow> VNone | Some e \<Rightarrow> VStr e),
                   (''transcript'', VDict (dump_transcript (result_transcript (ei_step_name step_input) events r)))], h))))"

definition value_error_failed :: "(sandbox_exc + pydict) \<times> 'h \<Rightarrow> (sandbox_exc + pydict) \<times> 'h" where
  "value_error_failed r =
     (case r of
        (Inl (PyError (ValueError m)), h) \<Rightarrow> (Inr [(''status'', VStr ''failed''), (''error'', VStr m)], h)
      | _ \<Rightarrow> r)"

definition run_sandbox_step_inner ::
  "'w sandbox_env \<Rightarrow> bool \<Rightarrow> pydict \<Rightarrow> 'w sandbox_host \<Rightarrow> (sandbox_exc + pydict) \<times> 'w sandbox_host" where
  "run_sandbox_step_inner sx spawner input h =
     and_then (py (step_header input) h) (\<lambda>(step, step_name, workflow_id, provider) h.
       guarded sx provider h (\<lambda>provider_name h.
         if dget_or step ''spawn'' (VStr ''ephemeral'') \<noteq> VStr ''ephemeral''
         then value_error_failed (run_direct_or_local_step sx input step provider provider_name h)
         else sandbox_attempt TemporalEngine sx spawner (dget_or input ''attempt'' (VInt 1)) provider_name input h))"

section \<open>The step executor (step/sandbox.py)\<close>

text \<open>
  Usage of the result events. Token counts are integers in the events the sandbox writes; the sum of
  the costs is the addition of Python numbers, an argument.
\<close>

definition numeric_or_zero :: "pyval \<Rightarrow> pyval" where
  "numeric_or_zero v = (case v of VInt _ \<Rightarrow> v | VFloat _ \<Rightarrow> v | _ \<Rightarrow> VInt 0)"

definition result_usage :: "pyval list \<Rightarrow> pydict list" where
  "result_usage events =
     concat (map (\<lambda>e. case e of
        VDict d \<Rightarrow> if dget d ''type'' \<noteq> VStr ''result'' then [] else (case dget d ''data'' of VDict u \<Rightarrow> [u] | _ \<Rightarrow> [])
      | _ \<Rightarrow> []) events)"

definition sum_result_event_usage :: "(pyval \<Rightarrow> pyval \<Rightarrow> pyval) \<Rightarrow> pyval list \<Rightarrow> int \<times> int \<times> pyval" where
  "sum_result_event_usage add events =
     (let us = result_usage events in
        (sum_list (map (\<lambda>u. int_or 0 (dget u ''input_tokens'')) us),
         sum_list (map (\<lambda>u. int_or 0 (dget u ''output_tokens'')) us),
         foldl (\<lambda>c u. add c (numeric_or_zero (dget u ''cost_usd''))) (VFloat ''0.0'') us))"

definition opt_value :: "('a \<Rightarrow> pyval) \<Rightarrow> 'a option \<Rightarrow> pyval" where
  "opt_value f x = (case x of None \<Rightarrow> VNone | Some y \<Rightarrow> f y)"

definition raw_step_of :: "exec_input \<Rightarrow> pydict" where
  "raw_step_of si =
     (case ei_raw_step si of
        Some (kv # rest) \<Rightarrow> kv # rest
      | _ \<Rightarrow> [(''name'', VStr (ei_step_name si)), (''prompt'', VStr (ei_prompt si)), (''output_key'', VStr (ei_output_key si)),
              (''attempt'', VInt (ei_attempt si))])"

definition run_step_input :: "exec_input \<Rightarrow> pydict" where
  "run_step_input si =
     [(''step'', VDict (raw_step_of si)), (''workflow_id'', VStr (ei_workflow_id si)), (''provider'', VDict (ei_provider si)),
      (''sandbox_image'', VStr (ei_sandbox_image si)), (''skills_image'', opt_value VStr (ei_skills_image si)),
      (''skills_paths'', opt_value (VList \<circ> map VStr) (ei_skills_paths si)),
      (''mcp_servers'', opt_value (VList \<circ> map VDict) (ei_mcp_servers si)), (''context'', VDict (ei_context si)),
      (''execution_context'', VDict (ei_execution_context si))]"

definition no_spawner :: "string \<Rightarrow> pyexc" where
  "no_spawner step_name = ValueError (''Step '' @ [sq] @ step_name @ [sq] @ '' requires spawn: ephemeral but no ''
     @ ''spawner is configured. Either deploy an OpenShell gateway and set ''
     @ ''OPENSHELL_GATEWAY_URL, or change the step to spawn: local or spawn: none.'')"

definition sandbox_executor_run ::
  "'w sandbox_env \<Rightarrow> bool \<Rightarrow> exec_input \<Rightarrow> 'w sandbox_host \<Rightarrow> (sandbox_exc + exec_output) \<times> 'w sandbox_host" where
  "sandbox_executor_run sx spawner si h =
     (if \<not> spawner then (Inl (PyError (no_spawner (ei_step_name si))), h)
      else and_then (run_step_inner sx True (ei_attempt si) (run_step_input si) h) (\<lambda>result h1.
        let events = (case dget_or result ''transcript'' (VDict []) of VDict t \<Rightarrow> list_of (dget t ''events'') | _ \<Rightarrow> []) in
          case sum_result_event_usage (sx_add sx) events of
            (input_tokens, output_tokens, cost) \<Rightarrow>
              (Inr ((StepResult (text_of (dget_or result ''status'' (VStr ''failed''))))
                 \<lparr>eo_output := dget result ''output'', eo_error := opt_str (dget result ''error''),
                  eo_transcript := map dict_of events, eo_cost_usd := cost, eo_input_tokens := input_tokens,
                  eo_output_tokens := output_tokens,
                  eo_duration_ms := sx_now_ms sx (bx_world h1) - sx_now_ms sx (bx_world h)\<rparr>), h1)))"

section \<open>What happens to a sandbox\<close>

definition is_talk :: "sandbox_call \<Rightarrow> bool" where
  "is_talk c = (case c of SpawnCall _ _ \<Rightarrow> False | DestroyCall _ \<Rightarrow> False | _ \<Rightarrow> True)"

text \<open>Between the two states nothing was spawned or destroyed and no slot changed hands.\<close>

definition quiet :: "'w sandbox_host \<Rightarrow> 'w sandbox_host \<Rightarrow> bool" where
  "quiet h h' = ((\<exists>mid. bx_calls h' = bx_calls h @ mid \<and> list_all is_talk mid) \<and> bx_pool h' = bx_pool h \<and> bx_env h' = bx_env h)"

lemma quiet_refl [simp]: "quiet h h"
  by (auto simp: quiet_def)

lemma quiet_trans: "quiet h h1 \<Longrightarrow> quiet h1 h2 \<Longrightarrow> quiet h h2"
  unfolding quiet_def by (metis append.assoc list_all_append)

lemma quiet_and_then:
  "quiet h (snd r) \<Longrightarrow> (\<And>x h1. r = (Inr x, h1) \<Longrightarrow> quiet h1 (snd (f x h1))) \<Longrightarrow> quiet h (snd (and_then r f))"
  by (cases r; cases "fst r") (auto intro: quiet_trans)

lemma quiet_steps [simp]:
  "quiet h (h\<lparr>bx_world := w\<rparr>)" "quiet h (sandbox_audit t p d h)" "quiet h (provider_failed sx n h)"
  "quiet h (provider_succeeded n h)" "quiet h (h\<lparr>bx_store := st\<rparr>)" "quiet h (h\<lparr>bx_audit := au\<rparr>)" "quiet h (h\<lparr>bx_breaker := b\<rparr>)"
  "is_talk c \<Longrightarrow> quiet h (made c h)"
  by (auto simp: quiet_def sandbox_audit_def provider_failed_def provider_succeeded_def made_def)

lemma quiet_await [simp]: "quiet h (snd (await f h))"
  by (simp add: await_def split: prod.split)

lemma quiet_py [simp]: "quiet h (snd (py r h))"
  by (simp add: py_def split: sum.split)

lemma quiet_talk: "is_talk c \<Longrightarrow> quiet h (snd (await f (made c h)))"
  using quiet_trans [OF quiet_steps(8) quiet_await] by blast

lemma talks [simp]: "is_talk (ReadyCall e)" "is_talk (RunCall c)" "is_talk (EventsCall e hs)"
  by (simp_all add: is_talk_def)

lemma quiet_agent_run: "quiet h (snd (agent_run eng sx p c h))"
proof -
  have "quiet h (snd (await (sx_post sx c) (made (RunCall c) h)))" by (rule quiet_talk) simp
  then show ?thesis
    by (auto simp: agent_run_def intro: quiet_trans split: prod.splits sum.splits sandbox_exc.splits)
qed

lemma quiet_collect: "quiet h (snd (collect_transcript sx e n hs h))"
proof -
  have "quiet h (snd (await (sx_get_events sx e hs) (made (EventsCall e hs) h)))" by (rule quiet_talk) simp
  then show ?thesis
    by (auto simp: collect_transcript_def split: prod.splits sum.splits sandbox_exc.splits)
qed

lemma quiet_save: "quiet h (snd (save_sandbox_transcript sx w k t h))"
proof -
  obtain r h1 where a: "await (sx_save sx) h = (r, h1)" by (cases "await (sx_save sx) h")
  have "quiet h h1" using quiet_await [of h "sx_save sx"] unfolding a by simp
  then show ?thesis
    unfolding save_sandbox_transcript_def a
    by (auto intro: quiet_trans split: option.splits sum.splits sandbox_exc.splits)
qed

lemma quiet_settle: "quiet h (snd (settle eng sx p n d t h))"
  unfolding settle_def
  by (rule quiet_and_then) (auto intro: quiet_trans [OF quiet_steps(4) quiet_py] quiet_trans [OF quiet_steps(3) quiet_py])

lemma quiet_converse: "quiet h (snd (converse eng sx p n ca input e h))"
  unfolding converse_def
proof (rule quiet_and_then [OF quiet_talk], simp, goal_cases)
  case (1 ready h)
  then show ?case
    by (auto simp: Let_def intro!: quiet_and_then quiet_agent_run quiet_collect quiet_save quiet_settle)
qed

lemma spawn_cases:
  assumes "spawn sx rq h = (r, h')"
  obtains (refused) e where "r = Inl e" "bx_calls h' = bx_calls h @ [SpawnCall rq None]" "bx_env h' = bx_env h"
        | (up) endpoint w where "r = Inr endpoint" "sx_do_spawn sx rq (bx_world h) = (Inr endpoint, w)"
            "bx_calls h' = bx_calls h @ [SpawnCall rq (Some endpoint)]"
            "pl_active (bx_pool h') = pl_active (bx_pool h) + 1" "bx_env h' = bx_env h"
  using assms
  by (auto simp: spawn_def pool_ops await_def made_def split: if_splits prod.splits sum.splits)

lemma destroy_effect:
  assumes "destroy sx n h = (r, h')"
  shows "bx_calls h' = bx_calls h @ [DestroyCall n]" "pl_active (bx_pool h') = max 0 (pl_active (bx_pool h) - 1)"
  using assms by (auto simp: destroy_def destroy_end_def give_back_def await_def made_def split: prod.splits)

lemma clean_up_effect:
  assumes "\<not> keep_sandboxes (bx_env h)" "destroy_due eng endpoint"
  shows "bx_calls (snd (clean_up eng sx p endpoint h)) = bx_calls h @ [DestroyCall (pn_pod_name p)]"
    and "pl_active (bx_pool (snd (clean_up eng sx p endpoint h))) = max 0 (pl_active (bx_pool h) - 1)"
proof -
  obtain r h1 where d: "destroy sx (pn_pod_name p) h = (r, h1)" by (cases "destroy sx (pn_pod_name p) h")
  note e = destroy_effect [OF d]
  show "bx_calls (snd (clean_up eng sx p endpoint h)) = bx_calls h @ [DestroyCall (pn_pod_name p)]"
    using assms e(1) by (auto simp: clean_up_def d sandbox_audit_def split: sum.splits sandbox_exc.splits)
  show "pl_active (bx_pool (snd (clean_up eng sx p endpoint h))) = max 0 (pl_active (bx_pool h) - 1)"
    using assms e(2) by (auto simp: clean_up_def d sandbox_audit_def split: sum.splits sandbox_exc.splits)
qed

lemma snd_and_then_keep: "snd (and_then r (\<lambda>_ h. (x, h))) = snd r"
  by (cases r; cases "fst r") auto

definition heartbeat_stops :: "'w sandbox_env \<Rightarrow> bool" where
  "heartbeat_stops sx = (\<forall>w. \<exists>w'. sx_stop_heartbeat sx w = (Inr (), w'))"

text \<open>Nothing at all was called between the two states.\<close>

definition still :: "'w sandbox_host \<Rightarrow> 'w sandbox_host \<Rightarrow> bool" where
  "still h h' = (bx_calls h' = bx_calls h \<and> bx_pool h' = bx_pool h \<and> bx_env h' = bx_env h)"

lemma still_simps [simp]: "still h h" "still h (snd (await f h))" "still h (sandbox_audit t p d h)"
  by (simp_all add: still_def await_def sandbox_audit_def split: prod.split)

lemma still_trans: "still h h1 \<Longrightarrow> still h1 h2 \<Longrightarrow> still h h2"
  by (simp add: still_def)

text \<open>The \<open>finally\<close> block is the clean-up, after nothing was called.\<close>

lemma finish_clean_up:
  assumes "heartbeat_stops sx"
  obtains h1 where "still h h1" "snd (finish eng sx p endpoint r h) = snd (clean_up eng sx p endpoint h1)"
proof -
  define h0 where "h0 = snd (case eng of LocalEngine \<Rightarrow> (Inr (), h) | TemporalEngine \<Rightarrow> await (sx_stop_heartbeat sx) h)"
  have q: "still h h0" by (cases eng) (simp_all add: h0_def)
  have "(case eng of LocalEngine \<Rightarrow> (Inr (), h) | TemporalEngine \<Rightarrow> await (sx_stop_heartbeat sx) h) = (Inr (), h0)"
  proof (cases eng)
    case TemporalEngine
    obtain w' where "sx_stop_heartbeat sx (bx_world h) = (Inr (), w')"
      using assms by (auto simp: heartbeat_stops_def)
    then show ?thesis by (simp add: TemporalEngine h0_def await_def)
  qed (simp add: h0_def)
  then have "snd (finish eng sx p endpoint r h) = snd (clean_up eng sx p endpoint
      (if r = Inl CancelledError \<and> has_endpoint endpoint
       then sandbox_audit ''sandbox_timeout'' p [(''reason'', VStr ''cancelled'')] h0 else h0))"
    unfolding finish_def by (simp add: snd_and_then_keep)
  moreover have "still h (if r = Inl CancelledError \<and> has_endpoint endpoint
       then sandbox_audit ''sandbox_timeout'' p [(''reason'', VStr ''cancelled'')] h0 else h0)"
    using q still_trans [OF q still_simps(3)] by simp
  ultimately show ?thesis using that by blast
qed

lemma still_tls_certs: "still h (snd (tls_certs sx p h))"
  by (auto simp: still_def tls_certs_def py_def await_def and_then_def split: sum.splits prod.splits if_splits)

text \<open>The calls of one attempt, from the spawn on.\<close>

definition well_ended :: "engine \<Rightarrow> 'w sandbox_host \<Rightarrow> 'w sandbox_host \<Rightarrow> bool" where
  "well_ended eng h h' =
     ((\<exists>rq. bx_calls h' = bx_calls h @ SpawnCall rq None # (if eng = LocalEngine then [DestroyCall (rq_name rq)] else []))
      \<or> (\<exists>rq endpoint mid. bx_calls h' = bx_calls h @ SpawnCall rq (Some endpoint) # mid @ [DestroyCall (rq_name rq)]
           \<and> list_all is_talk mid \<and> pl_active (bx_pool h') = max 0 (pl_active (bx_pool h))))"

lemma rq_name_of [simp]: "rq_name (spawn_request_of p ca input) = pn_pod_name p"
  by (simp add: spawn_request_of_def Let_def)

lemma session_well_ended:
  assumes "sandbox_session eng sx p n ca input h = (r, endpoint, h1)" "finish eng sx p endpoint r' h1 = (r'', h')"
    and "\<not> keep_sandboxes (bx_env h)" "heartbeat_stops sx" "\<forall>rq w w'. sx_do_spawn sx rq w \<noteq> (Inr [], w')"
  shows "well_ended eng h h'"
proof -
  let ?rq = "spawn_request_of p ca input"
  obtain s hs where sp: "spawn sx ?rq h = (s, hs)" by (cases "spawn sx ?rq h")
  obtain h2 where q: "still h1 h2" and f: "snd (finish eng sx p endpoint r' h1) = snd (clean_up eng sx p endpoint h2)"
    by (rule finish_clean_up [OF assms(4)])
  from f assms(2) have h': "h' = snd (clean_up eng sx p endpoint h2)" by simp
  from q have q2: "bx_calls h2 = bx_calls h1" "bx_pool h2 = bx_pool h1" "bx_env h2 = bx_env h1"
    by (auto simp: still_def)
  show ?thesis
    using sp
  proof (cases rule: spawn_cases)
    case (refused e)
    with assms(1) sp have e: "endpoint = None" "h1 = hs" by (auto simp: sandbox_session_def)
    have "bx_calls h' = bx_calls h @ SpawnCall ?rq None # (if eng = LocalEngine then [DestroyCall (rq_name ?rq)] else [])"
    proof (cases eng)
      case LocalEngine
      have "\<not> keep_sandboxes (bx_env h2)" using refused q2 e assms(3) by simp
      from clean_up_effect(1) [OF this, of eng endpoint sx p] show ?thesis
        using LocalEngine h' q2 refused e by (simp add: destroy_due_def)
    next
      case TemporalEngine
      then show ?thesis using h' q2 refused e by (simp add: clean_up_def destroy_due_def has_endpoint_def)
    qed
    then show ?thesis unfolding well_ended_def by blast
  next
    case (up e w)
    then have ne: "e \<noteq> []" using assms(5) by blast
    obtain h3 where c: "converse eng sx p n ca input e hs = (r, h3)" and e: "endpoint = Some e" "h1 = h3"
      using assms(1) sp up(1) by (auto simp: sandbox_session_def split: prod.splits)
    from quiet_converse [of hs eng sx p n ca input e] c
    obtain mid where mid: "bx_calls h3 = bx_calls hs @ mid" "list_all is_talk mid" "bx_pool h3 = bx_pool hs" "bx_env h3 = bx_env hs"
      by (auto simp: quiet_def)
    have due: "destroy_due eng endpoint" using ne e by (cases eng) (auto simp: destroy_due_def has_endpoint_def)
    have keep: "\<not> keep_sandboxes (bx_env h2)" using up q2 mid e assms(3) by simp
    note cl = clean_up_effect [OF keep due, of sx p]
    have "bx_calls h' = bx_calls h @ SpawnCall ?rq (Some e) # mid @ [DestroyCall (rq_name ?rq)]"
      using cl(1) h' q2 mid up e by simp
    moreover have "pl_active (bx_pool h') = max 0 (pl_active (bx_pool h))"
      using cl(2) h' q2 mid up e by simp
    ultimately show ?thesis unfolding well_ended_def using mid(2) by fastforce
  qed
qed


definition example_sandbox :: "unit sandbox_env" where
  "example_sandbox =
     \<lparr>sx_sha256 = (\<lambda>_. ''0123456789abcdef''), sx_float = (\<lambda>_. None), sx_float_text = (\<lambda>_. ''600''),
      sx_json = \<lparr>jl_chr = char_of, jl_float = (\<lambda>t. t)\<rparr>, sx_json_error = (\<lambda>_. ''Expecting value''), sx_validate = (\<lambda>_ v. Ok v),
      sx_threshold = 5, sx_reset = 60, sx_sa_token = None, sx_query_ssl_context = None, sx_clock = (\<lambda>_. 0),
      sx_now = (\<lambda>_. \<lparr>in_time = 0, in_iso = []\<rparr>), sx_traceparent = (\<lambda>_. None), sx_sandbox_headers = (\<lambda>_ _. []),
      sx_certs = (\<lambda>_ _ w. (Inr [], w)), sx_do_spawn = (\<lambda>_ w. (Inr ''http://sandbox'', w)), sx_wait_ready = (\<lambda>_ w. (Inr True, w)),
      sx_post = (\<lambda>_ w. (Inl (OtherException ''bad key sk-1''), w)), sx_get_events = (\<lambda>_ _ w. (Inr (404, []), w)),
      sx_save = (\<lambda>w. (Inr (), w)), sx_execute = (\<lambda>_ _ w. (Inr (StepResult ''completed''), w)), sx_stamp = (\<lambda>_. []),
      sx_now_ms = (\<lambda>_. 0), sx_add = (\<lambda>a b. a), sx_stop_heartbeat = (\<lambda>w. (Inr (), w)), sx_do_destroy = (\<lambda>_ w. (Inr (), w))\<rparr>"

definition example_host :: "unit sandbox_host" where
  "example_host = \<lparr>bx_env = [(''OPENAI_API_KEY'', ''sk-1'')], bx_breaker = [], bx_pool = \<lparr>pl_active = 0, pl_max = 1\<rparr>,
     bx_audit = [], bx_store = None, bx_calls = [], bx_world = ()\<rparr>"

definition example_step :: pydict where
  "example_step = [(''step'', VDict [(''name'', VStr ''s''), (''prompt'', VStr ''p'')]), (''workflow_id'', VStr ''w''),
     (''provider'', VDict [(''name'', VStr ''openai''), (''model'', VStr ''gpt'')])]"

lemma example_facts:
  "\<not> keep_sandboxes (bx_env example_host)" "heartbeat_stops example_sandbox"
  "\<forall>rq w w'. sx_do_spawn example_sandbox rq w \<noteq> (Inr [], w')"
  by (simp_all add: keep_sandboxes_def example_host_def heartbeat_stops_def example_sandbox_def env_get_def py_lower_def)


section \<open>Secrets in failures\<close>

lemma header_secrets_keep: "v \<in> set secrets \<Longrightarrow> v \<in> set (header_secrets headers secrets)"
  unfolding header_secrets_def
  by (induction headers arbitrary: secrets) (auto simp: add_secret_def split: pyval.splits if_splits)

lemma plan_servers_keep:
  "plan_servers w n ss m au = (Inr m', au') \<Longrightarrow> v \<in> set (mp_secrets m) \<Longrightarrow> v \<in> set (mp_secrets m')"
proof (induction ss arbitrary: m au)
  case (Cons s ss)
  from Cons.prems(1) obtain m1 au1 where 1: "plan_server w n s m au = (Inr m1, au1)" and 2: "plan_servers w n ss m1 au1 = (Inr m', au')"
    by (auto simp: and_then_Inr)
  from 1 Cons.prems(2) have "v \<in> set (mp_secrets m1)"
    by (auto simp: plan_server_def and_then_Inr header_secrets_keep split: prod.splits)
  with Cons.IH [OF 2] show ?case by blast
qed simp

text \<open>The value of the credential is among the texts to redact.\<close>

lemma credential_collected:
  assumes "prepare_sandbox eng sha f sa env attempt input au = (Inr p, au')"
    and "pn_credential_key p = Some k" "k \<noteq> []" "map_of env k = Some v" "v \<noteq> []"
  shows "v \<in> set (pn_secrets p)"
proof -
  from assms(1) obtain m e step w n au1 au2 where
    m: "mcp_part env input step w n (credential_secrets env (pn_credential_key p)) au1 = (Inr (m, e), au2)" "pn_secrets p = mp_secrets m"
    by (auto simp: prepare_sandbox_def and_then_Inr split: prod.splits)
  have "v \<in> set (credential_secrets env (pn_credential_key p))"
    using assms(2-5) by (simp add: credential_secrets_def env_set_def)
  then have "v \<in> set (mp_secrets m)"
    using m(1) plan_servers_keep [where v = v]
    by (fastforce simp: mcp_part_def and_then_Inr split: option.splits)
  then show ?thesis using m(2) by simp
qed

lemma failed_answer_error:
  "failed_answer sx secrets data t = Ok a \<Longrightarrow> secrets \<noteq> [] \<Longrightarrow> \<exists>x. dget a ''error'' = VStr (redact_secrets x secrets)"
  by (auto simp: failed_answer_def Let_def then_do_Ok_iff)

lemma py_Inr: "py r h = (Inr x, h') \<longleftrightarrow> r = Inr x \<and> h' = h"
  by (auto simp: py_def split: sum.splits)

lemma settle_failed_error:
  assumes "settle eng sx p n d t h = (Inr a, h')" "dget a ''status'' = VStr ''failed''" "pn_secrets p \<noteq> []"
  shows "\<exists>x. dget a ''error'' = VStr (redact_secrets x (pn_secrets p))"
  using assms failed_answer_error
  by (fastforce simp: settle_def and_then_Inr py_Inr completed_answer_def then_do_Ok_iff split: if_splits)

lemma converse_settles:
  assumes "converse eng sx p n ca input e h = (Inr a, h')"
  shows "\<exists>d t h1. settle eng sx p n d t h1 = (Inr a, h')"
  using assms by (auto simp: converse_def and_then_Inr Let_def split: if_splits prod.splits)

lemma finish_result:
  assumes "finish eng sx p endpoint r h = (r', h')" "heartbeat_stops sx"
  shows "r' = r \<or> r' = Inl CancelledError"
proof -
  have "fst (clean_up eng sx p endpoint h1) \<in> {Inr (), Inl CancelledError}" for h1
    by (auto simp: clean_up_def split: prod.splits sum.splits sandbox_exc.splits)
  then have "fst (and_then (clean_up eng sx p endpoint h1) (\<lambda>_ h. (r, h))) \<in> {r, Inl CancelledError}" for h1
  proof -
    have c: "fst (clean_up eng sx p endpoint h1) = Inr () \<or> fst (clean_up eng sx p endpoint h1) = Inl CancelledError"
      using \<open>fst (clean_up eng sx p endpoint h1) \<in> {Inr (), Inl CancelledError}\<close> by simp
    obtain a b where ab: "clean_up eng sx p endpoint h1 = (a, b)" by (cases "clean_up eng sx p endpoint h1")
    show ?thesis using c unfolding ab by auto
  qed
  note outcome = this
  obtain h1 where "(case eng of LocalEngine \<Rightarrow> (Inr (), h) | TemporalEngine \<Rightarrow> await (sx_stop_heartbeat sx) h) = (Inr (), h1)"
  proof (cases eng)
    case TemporalEngine
    obtain w' where "sx_stop_heartbeat sx (bx_world h) = (Inr (), w')" using assms(2) by (auto simp: heartbeat_stops_def)
    then show ?thesis using that by (simp add: TemporalEngine await_def)
  qed (use that in simp)
  then obtain h2 where "and_then (clean_up eng sx p endpoint h2) (\<lambda>_ h. (r, h)) = (r', h')"
    using assms(1) by (simp add: finish_def Let_def)
  then show ?thesis using outcome [of h2] by simp
qed

lemma redacted_free:
  "v \<in> set secrets \<Longrightarrow> v \<noteq> [] \<Longrightarrow> list_all redactable secrets \<Longrightarrow> \<not> sublist v (redact_secrets x secrets)"
  unfolding redact_secrets_fold by (intro fold_redact_removes) (auto simp: list_all_iff)



section \<open>Limits of redaction and differences of the engines\<close>

text \<open>
  The output of a failed answer is redacted in its JSON text. A secret with a quote is escaped there,
  so it is not found and stays in the output; a secret that is also a number breaks the text, and the
  attempt raises instead of returning the failed result.
\<close>

lemma escaped_secret_stays:
  "case failed_answer example_sandbox [''a'' @ [dq] @ ''b''] [(''output'', VDict [(''x'', VStr (''a'' @ [dq] @ ''b''))])] [] of
     Inr a \<Rightarrow> dget a ''output'' = VDict [(''x'', VStr (''a'' @ [dq] @ ''b''))] | Inl _ \<Rightarrow> False"
  by code_simp

lemma numeric_secret_breaks_output:
  "failed_answer example_sandbox [''1''] [(''output'', VDict [(''n'', VInt 1)])] [] = Err (ValueError ''Expecting value'')"
  by code_simp

text \<open>Both engines merge an output that is an object alike; the activity raises on a null output of a successful run.\<close>

lemma engines_merge_alike:
  "dget data ''output'' = VDict d \<Longrightarrow> merged_output LocalEngine data = merged_output TemporalEngine data"
  by (cases d) (auto simp: merged_output_def dget_def dget_or_def split: option.splits)

lemma temporal_null_output_raises:
  "merged_output TemporalEngine [(''success'', VBool True), (''output'', VNone), (''summary'', VStr ''done'')]
     = Err (TypeError ''object does not support item assignment'')
   \<and> merged_output LocalEngine [(''success'', VBool True), (''output'', VNone), (''summary'', VStr ''done'')]
     = Ok (VDict [(''summary'', VStr ''done'')])"
  by (simp add: merged_output_def answer_extras_def optional_entry_def)

text \<open>While the breaker of a provider is open nothing is called.\<close>

lemma open_breaker_calls_nothing:
  assumes "step_header input = Ok (step, n, w, provider)"
    and "is_open (sx_threshold sx) (sx_reset sx) (py_str (dget_or provider ''name'' (VStr ''unknown''))) (sx_clock sx (bx_world h)) (bx_breaker h) = (True, b)"
  shows "run_step_inner sx spawner attempt input h
      = (Inr (breaker_answer (py_str (dget_or provider ''name'' (VStr ''unknown'')))), h\<lparr>bx_breaker := b\<rparr>)"
    and "run_sandbox_step_inner sx spawner input h
      = (Inr (breaker_answer (py_str (dget_or provider ''name'' (VStr ''unknown'')))), h\<lparr>bx_breaker := b\<rparr>)"
  using assms by (simp_all add: run_step_inner_def run_sandbox_step_inner_def py_def guarded_def)

end
