(* ===== verification/Urls.thy ===== *)
theory Urls
  imports Secrets
begin

text \<open>
  The parts of \<open>urllib.parse.urlparse\<close> beyond the authority that the spawner and the built-in tools read:
  scheme, \<open>hostname\<close> and \<open>port\<close>. Splitting and cleaning are those of \<open>Secrets\<close>.
\<close>

section \<open>Partitions\<close>

text \<open>\<open>s.partition(c)\<close> and \<open>s.rpartition(c)\<close> for a single character: what is before and after it.\<close>

definition part_before :: "char \<Rightarrow> string \<Rightarrow> string" where
  "part_before c s = takeWhile (\<lambda>x. x \<noteq> c) s"

definition part_after :: "char \<Rightarrow> string \<Rightarrow> string" where
  "part_after c s = drop 1 (dropWhile (\<lambda>x. x \<noteq> c) s)"

definition last_part :: "char \<Rightarrow> string \<Rightarrow> string" where
  "last_part c s = rev (takeWhile (\<lambda>x. x \<noteq> c) (rev s))"

section \<open>Scheme, host and port\<close>

definition url_scheme :: "string \<Rightarrow> string" where
  "url_scheme url =
     (let u = clean_url url; scheme = part_before CHR '':'' u in
        if length scheme < length u \<and> scheme \<noteq> [] \<and> ascii_alpha (hd scheme) \<and> list_all scheme_char scheme
        then py_lower scheme else [])"

text \<open>\<open>_hostinfo\<close>: host and port texts of the part after the last \<open>@\<close>, with or without brackets.\<close>

definition hostinfo :: "string \<Rightarrow> string \<times> string" where
  "hostinfo netloc =
     (let info = last_part CHR ''@'' netloc in
        if CHR ''['' \<in> set info
        then (let bracketed = part_after CHR ''['' info in
                (part_before CHR '']'' bracketed, part_after CHR '':'' (part_after CHR '']'' bracketed)))
        else (part_before CHR '':'' info, part_after CHR '':'' info))"

text \<open>The host is in lower case up to the zone of a scoped address.\<close>

definition netloc_hostname :: "string \<Rightarrow> string option" where
  "netloc_hostname netloc =
     (let host = fst (hostinfo netloc) in
        if host = [] then None
        else Some (py_lower (part_before CHR ''%'' host) @ drop (length (part_before CHR ''%'' host)) host))"

definition netloc_port :: "string \<Rightarrow> nat option res" where
  "netloc_port netloc =
     (let port = snd (hostinfo netloc) in
        if port = [] then Ok None
        else if \<not> list_all py_digit port then Err (ValueError (''Port could not be cast to integer value as '' @ repr_str port))
        else if read_nat port > 65535 then Err (ValueError ''Port out of range 0-65535'')
        else Ok (Some (read_nat port)))"

definition url_hostname :: "(string \<Rightarrow> bool) \<Rightarrow> string \<Rightarrow> string option res" where
  "url_hostname bracketed_ok url = then_do (url_netloc bracketed_ok url) (\<lambda>netloc. Ok (netloc_hostname netloc))"

text \<open>\<open>parsed.port or default_port\<close> with the default of the scheme: port 0 counts as absent.\<close>

definition port_or_default :: "string \<Rightarrow> string \<Rightarrow> nat res" where
  "port_or_default url netloc =
     then_do (netloc_port netloc) (\<lambda>port.
       case port of
         None \<Rightarrow> Ok (if url_scheme url = ''https'' then 443 else 80)
       | Some p \<Rightarrow> Ok (if p = 0 then (if url_scheme url = ''https'' then 443 else 80) else p))"

lemma port_in_range:
  assumes "port_or_default url netloc = Ok p" shows "0 < p \<and> p \<le> 65535"
proof -
  have "netloc_port netloc = Ok (Some q) \<Longrightarrow> q \<le> 65535" for q
    by (simp add: netloc_port_def Let_def not_less split: if_split_asm)
  then show ?thesis
    using assms by (cases "netloc_port netloc") (auto simp: port_or_default_def split: option.splits)
qed

lemma hostname_not_empty: "netloc_hostname netloc = Some host \<Longrightarrow> host \<noteq> []"
proof -
  assume a: "netloc_hostname netloc = Some host"
  let ?h = "fst (hostinfo netloc)"
  from a have "?h \<noteq> []" and host: "host = py_lower (part_before CHR ''%'' ?h) @ drop (length (part_before CHR ''%'' ?h)) ?h"
    by (auto simp: netloc_hostname_def Let_def split: if_splits)
  then show ?thesis by (cases "part_before CHR ''%'' ?h = []") (auto simp: py_lower_def)
qed

end
