(* ===== verification/OpenShellPolicy.thy ===== *)
theory OpenShellPolicy
  imports Urls Spawner StepResources Json
begin

text \<open>
  What the OpenShell spawner decides before it talks to the gateway (\<open>spawner/openshell_spawner.py\<close>,
  \<open>provider_profiles.py\<close>): the validation of its configuration, the channel credentials travel on, the
  network and filesystem policies of a sandbox, its labels and its environment. The messages of the
  gateway's protocol are records here, with a repeated field as a list and a map field as a dictionary.
\<close>

section \<open>Configuration\<close>

record shell_config =
  sh_workspace :: string
  sh_endpoint :: string
  sh_http_endpoint :: string
  sh_tls_ca :: string
  sh_tls_cert :: string
  sh_tls_key :: string
  sh_bearer_token :: string
  sh_token_provider :: bool
  sh_extra_readable_paths :: "string list"
  sh_extra_env :: "string dict"
  sh_min_lifetime_seconds :: int
  sh_expiry_skew_seconds :: int

definition materialized_skills_dir :: string where
  "materialized_skills_dir = ''/app/skills''"

definition skills_root :: string where
  "skills_root = ''/skills''"

definition default_extra_readable_paths :: "string list" where
  "default_extra_readable_paths = [''/opt/app-root'', ''/opt/lightspeed'']"

definition default_extra_env :: "string dict" where
  "default_extra_env =
     [(''PYTHONPATH'', ''/opt/lightspeed/src:/opt/app-root/lib64/python3.12/site-packages''),
      (''LIGHTSPEED_SKILLS_DIR'', materialized_skills_dir)]"

definition default_baseline_read_only :: "string list" where
  "default_baseline_read_only = [''/usr'', ''/lib'', ''/proc'', ''/dev/urandom'', ''/app'', ''/etc'', ''/var/log'']"

definition default_baseline_read_write :: "string list" where
  "default_baseline_read_write = [''/tmp'', ''/dev/null'']"

subsection \<open>Paths\<close>

text \<open>\<open>os.path.normpath\<close>: two leading slashes are kept, three or more are one.\<close>

definition initial_slashes :: "string \<Rightarrow> nat" where
  "initial_slashes path = (if prefix ''//'' path \<and> \<not> prefix ''///'' path then 2 else if prefix ''/'' path then 1 else 0)"

definition norm_component :: "bool \<Rightarrow> string \<Rightarrow> string list \<Rightarrow> string list" where
  "norm_component absolute part comps =
     (if part = [] \<or> part = ''.'' then comps
      else if part \<noteq> ''..'' \<or> (\<not> absolute \<and> comps = []) \<or> (comps \<noteq> [] \<and> last comps = ''..'') then comps @ [part]
      else butlast comps)"

definition normpath :: "string \<Rightarrow> string" where
  "normpath path =
     (if path = [] then ''.''
      else let n = initial_slashes path;
               p = replicate n CHR ''/'' @ py_join ''/'' (fold (norm_component (n \<noteq> 0)) (py_split ''/'' path) []) in
        if p = [] then ''.'' else p)"

text \<open>\<open>path.strip("/") == ""\<close>.\<close>

definition only_slashes :: "string \<Rightarrow> bool" where
  "only_slashes path = list_all (\<lambda>c. c = CHR ''/'') path"

definition validate_extra_readable_path :: "string \<Rightarrow> unit res" where
  "validate_extra_readable_path path =
     (if path = [] then Err (ValueError ''extra_readable_paths entries must not be empty'')
      else if \<not> prefix ''/'' path
      then Err (ValueError (''extra_readable_paths entries must be absolute paths: '' @ repr_str path))
      else if ''..'' \<in> set (py_split ''/'' path)
      then Err (ValueError (''extra_readable_paths entries must not contain '' @ [sq] @ ''..'' @ [sq] @ '' segments: '' @ repr_str path))
      else if only_slashes path \<or> normpath path \<in> {''/'', ''//''}
      then Err (ValueError (''extra_readable_paths entries must not be the filesystem root ('' @ [sq] @ ''/'' @ [sq]
              @ '') -- this would grant full-filesystem read: '' @ repr_str path))
      else Ok ())"

definition validate_extra_readable_paths :: "string list \<Rightarrow> string list res" where
  "validate_extra_readable_paths paths = then_do (map_res validate_extra_readable_path paths) (\<lambda>_. Ok paths)"

definition validate_extra_env :: "string dict \<Rightarrow> string dict res" where
  "validate_extra_env env =
     (if list_ex (\<lambda>(k, v). k = []) env then Err (ValueError ''extra_env keys must not be empty'') else Ok env)"

definition validate_allowed_skill :: "string \<Rightarrow> unit res" where
  "validate_allowed_skill name =
     (if name = [] then Err (ValueError ''allowed_skills entries must not be empty'')
      else if CHR ''/'' \<in> set name
      then Err (ValueError (''allowed_skills entries must not contain '' @ [sq] @ ''/'' @ [sq] @ '': '' @ repr_str name))
      else if name = ''.'' \<or> name = ''..''
      then Err (ValueError (''allowed_skills entries must not be '' @ [sq] @ ''.'' @ [sq] @ '' or '' @ [sq] @ ''..'' @ [sq]
              @ '': '' @ repr_str name))
      else Ok ())"

definition validate_allowed_skills :: "string list \<Rightarrow> unit res" where
  "validate_allowed_skills names = then_do (map_res validate_allowed_skill names) (\<lambda>_. Ok ())"

subsection \<open>Construction\<close>

definition both_tokens :: pyexc where
  "both_tokens = ValueError ''bearer_token and bearer_token_provider are mutually exclusive -- pass one or the other, not both''"

definition not_negative :: "string \<Rightarrow> int \<Rightarrow> unit res" where
  "not_negative name i =
     (if i < 0 then Err (ValueError (name @ '' must not be negative, got '' @ show_int i)) else Ok ())"

text \<open>\<open>__init__\<close>: the configuration with its checked copies; optional arguments are \<^const>\<open>None\<close> if absent.\<close>

definition init_openshell :: "shell_config \<Rightarrow> string list option \<Rightarrow> string dict option \<Rightarrow> shell_config res" where
  "init_openshell cfg paths env =
     then_do (not_negative ''min_lifetime_seconds'' (sh_min_lifetime_seconds cfg)) (\<lambda>_.
     then_do (not_negative ''expiry_skew_seconds'' (sh_expiry_skew_seconds cfg)) (\<lambda>_.
     if sh_bearer_token cfg \<noteq> [] \<and> sh_token_provider cfg then Err both_tokens
     else then_do (validate_extra_readable_paths (case paths of None \<Rightarrow> default_extra_readable_paths | Some ps \<Rightarrow> ps)) (\<lambda>ps.
     then_do (validate_extra_env (case env of None \<Rightarrow> default_extra_env | Some e \<Rightarrow> e)) (\<lambda>e.
       Ok (cfg\<lparr>sh_extra_readable_paths := ps, sh_extra_env := e\<rparr>)))))"

text \<open>\<open>build_spawner\<close> (\<open>spawner/factory.py\<close>) for the arguments the Temporal entry point passes.\<close>

definition or_default :: "string \<Rightarrow> string \<Rightarrow> string" where
  "or_default v d = (if v = [] then d else v)"

definition strip_scheme :: "string \<Rightarrow> string" where
  "strip_scheme url = py_replace ''https://'' [] (py_replace ''http://'' [] url)"

definition build_spawner :: "string \<Rightarrow> string \<Rightarrow> shell_config \<Rightarrow> string list option \<Rightarrow> string dict option \<Rightarrow> shell_config res" where
  "build_spawner spawner_type gateway_url cfg paths env =
     (if spawner_type \<noteq> ''openshell''
      then Err (ValueError (''Unknown spawner_type '' @ repr_str spawner_type @ ''; expected one of ('' @ [sq] @ ''openshell'' @ [sq] @ '',)''))
      else if sh_bearer_token cfg \<noteq> [] \<and> sh_token_provider cfg then Err both_tokens
      else init_openshell
        (cfg\<lparr>sh_workspace := or_default (sh_workspace cfg) ''default'',
             sh_endpoint := strip_scheme (or_default gateway_url ''localhost:17670'')\<rparr>) paths env)"

text \<open>\<open>_non_negative_int_env\<close> and \<open>_create_spawner\<close> (\<open>executor/temporal/entrypoint.py\<close>).\<close>

definition env_or :: "string dict \<Rightarrow> string \<Rightarrow> string \<Rightarrow> string" where
  "env_or env key absent = (case map_of env key of None \<Rightarrow> absent | Some v \<Rightarrow> v)"

definition non_negative_int_env :: "string dict \<Rightarrow> string \<Rightarrow> int \<Rightarrow> int res" where
  "non_negative_int_env env name absent =
     (let raw = env_or env name [] in
        if raw = [] then Ok absent
        else case py_int raw of
          None \<Rightarrow> Err (ValueError (name @ ''='' @ repr_str raw @ '' is not an integer''))
        | Some i \<Rightarrow> if i < 0 then Err (ValueError (name @ ''='' @ show_int i @ '' must not be negative'')) else Ok i)"

definition default_sandbox_min_lifetime_seconds :: int where
  "default_sandbox_min_lifetime_seconds = 86400"

definition default_sandbox_expiry_skew_seconds :: int where
  "default_sandbox_expiry_skew_seconds = 600"

definition create_spawner :: "string dict \<Rightarrow> shell_config option res" where
  "create_spawner env =
     (let spawner_type = env_or env ''WORKFLOW_SPAWNER'' [] in
        if spawner_type = ''openshell''
        then then_do (non_negative_int_env env ''SANDBOX_MIN_LIFETIME_SECONDS'' default_sandbox_min_lifetime_seconds) (\<lambda>floor_s.
             then_do (non_negative_int_env env ''SANDBOX_EXPIRY_SKEW_SECONDS'' default_sandbox_expiry_skew_seconds) (\<lambda>skew.
             then_do (build_spawner ''openshell'' (env_or env ''OPENSHELL_GATEWAY_URL'' ''localhost:17670'')
               \<lparr>sh_workspace = env_or env ''OPENSHELL_WORKSPACE'' ''default'', sh_endpoint = [],
                sh_http_endpoint = env_or env ''OPENSHELL_HTTP_ENDPOINT'' [], sh_tls_ca = env_or env ''OPENSHELL_TLS_CA'' [],
                sh_tls_cert = env_or env ''OPENSHELL_TLS_CERT'' [], sh_tls_key = env_or env ''OPENSHELL_TLS_KEY'' [],
                sh_bearer_token = env_or env ''OPENSHELL_BEARER_TOKEN'' [], sh_token_provider = False,
                sh_extra_readable_paths = [], sh_extra_env = [],
                sh_min_lifetime_seconds = floor_s, sh_expiry_skew_seconds = skew\<rparr> None None) (\<lambda>cfg. Ok (Some cfg))))
        else if spawner_type = [] then Ok None
        else Err (ValueError (''Unknown WORKFLOW_SPAWNER='' @ repr_str spawner_type @ ''; expected '' @ [sq] @ ''openshell'' @ [sq]
                @ '' or unset (stub mode)'')))"

section \<open>Channels\<close>

text \<open>\<open>_create_grpc_channel\<close>. Reading a key file and the token provider are the surroundings'.\<close>

datatype grpc_channel =
    InsecureChannel (ch_target: string)
  | SecureChannel (ch_target: string) (ch_ca: string) (ch_key: "string option") (ch_cert: "string option")
      (ch_token: "string option")

definition read_optional :: "(string \<Rightarrow> sandbox_exc + string) \<Rightarrow> string \<Rightarrow> sandbox_exc + string option" where
  "read_optional read_file path = (if path = [] then Inr None else map_sum id Some (read_file path))"

definition create_grpc_channel ::
  "shell_config \<Rightarrow> (string \<Rightarrow> sandbox_exc + string) \<Rightarrow> string \<Rightarrow> sandbox_exc + grpc_channel" where
  "create_grpc_channel cfg read_file provided =
     (let token = (if sh_token_provider cfg then provided else sh_bearer_token cfg); target = strip_scheme (sh_endpoint cfg) in
        if sh_token_provider cfg \<and> token = []
        then Inl (PyError (ValueError (''bearer_token_provider returned an empty token -- refusing to build an unauthenticated gRPC channel. A configured provider is a strong signal that auth was intended, so an empty result is treated as a provider failure, not as '' @ [sq] @ ''no auth configured'' @ [sq] @ ''.'')))
        else if token \<noteq> [] \<and> sh_tls_ca cfg = []
        then Inl (PyError (ValueError ''OPENSHELL_BEARER_TOKEN or bearer_token_provider requires TLS (OPENSHELL_TLS_CA). Refusing to send credentials over plaintext.''))
        else if sh_tls_ca cfg = [] then Inr (InsecureChannel target)
        else case read_file (sh_tls_ca cfg) of
          Inl e \<Rightarrow> Inl e
        | Inr ca \<Rightarrow>
            (case read_optional read_file (sh_tls_key cfg) of
               Inl e \<Rightarrow> Inl e
             | Inr key \<Rightarrow>
                 (case read_optional read_file (sh_tls_cert cfg) of
                    Inl e \<Rightarrow> Inl e
                  | Inr cert \<Rightarrow> Inr (SecureChannel target ca key cert (if token = [] then None else Some token)))))"

text \<open>\<open>_create_provider\<close> refuses to send a credential without TLS unless told otherwise.\<close>

definition credential_transport :: "shell_config \<Rightarrow> string dict \<Rightarrow> unit res" where
  "credential_transport cfg environ =
     (if sh_tls_ca cfg = [] \<and> map_of environ ''OPENSHELL_ALLOW_INSECURE_CREDENTIALS'' \<noteq> Some ''1''
      then Err (ValueError ''Provider creation requires TLS (OPENSHELL_TLS_CA) -- refusing to send credentials over insecure channel. Set OPENSHELL_TLS_CA for TLS, or OPENSHELL_ALLOW_INSECURE_CREDENTIALS=1 for local Kind (insecure).'')
      else Ok ())"

section \<open>Providers\<close>

record l7_rule =
  lr_method :: string
  lr_path :: string

record net_endpoint =
  ne_host :: string
  ne_port :: nat
  ne_protocol :: string
  ne_enforcement :: string
  ne_access :: string
  ne_rules :: "l7_rule list"

record provider_profile =
  pp_id :: string
  pp_env_var :: string
  pp_endpoints :: "net_endpoint list"

definition profile :: "string \<Rightarrow> string \<Rightarrow> string \<Rightarrow> (string \<times> string) list \<Rightarrow> provider_profile" where
  "profile profile_id env_var host allowed_requests =
     \<lparr>pp_id = profile_id, pp_env_var = env_var,
      pp_endpoints = [\<lparr>ne_host = host, ne_port = 443, ne_protocol = ''rest'', ne_enforcement = ''enforce'', ne_access = [],
        ne_rules = map (\<lambda>(m, p). \<lparr>lr_method = m, lr_path = p\<rparr>) allowed_requests\<rparr>]\<rparr>"

definition bundled_provider_profiles :: "provider_profile dict" where
  "bundled_provider_profiles =
     [(''openai'', profile ''openai'' ''OPENAI_API_KEY'' ''api.openai.com''
         [(''POST'', ''/v1/chat/completions''), (''POST'', ''/v1/responses'')]),
      (''anthropic'', profile ''anthropic'' ''ANTHROPIC_API_KEY'' ''api.anthropic.com'' [(''POST'', ''/v1/messages'')])]"

definition provider_hosts :: "string dict" where
  "provider_hosts =
     [(''openai'', ''api.openai.com''), (''anthropic'', ''api.anthropic.com''), (''claude'', ''api.anthropic.com''),
      (''gemini'', ''generativelanguage.googleapis.com''), (''azure'', ''*.openai.azure.com''),
      (''azure_openai'', ''*.openai.azure.com'')]"

definition inference_provider_type_map :: "string dict" where
  "inference_provider_type_map =
     [(''openai'', ''openai''), (''anthropic'', ''anthropic''), (''vertex'', ''google-vertex-ai''), (''bedrock'', ''aws-bedrock''),
      (''nvidia'', ''nvidia''), (''deepinfra'', ''deepinfra''), (''google-vertex-ai'', ''google-vertex-ai''),
      (''aws-bedrock'', ''aws-bedrock'')]"

text \<open>The message lists the supported names in alphabetical order.\<close>

definition supported_inference_types :: "string list" where
  "supported_inference_types =
     [''anthropic'', ''aws-bedrock'', ''bedrock'', ''deepinfra'', ''google-vertex-ai'', ''nvidia'', ''openai'', ''vertex'']"

definition resolve_inference_provider_type :: "string \<Rightarrow> string res" where
  "resolve_inference_provider_type lightspeed_provider =
     (case map_of inference_provider_type_map lightspeed_provider of
        Some t \<Rightarrow> Ok t
      | None \<Rightarrow> Err (ValueError (''LIGHTSPEED_PROVIDER='' @ repr_str lightspeed_provider
          @ '' has no known OpenShell inference-route-compatible provider type (supported: ''
          @ py_str (VList (map VStr supported_inference_types))
          @ ''). Cannot create a credential provider for this spawn.'')))"

definition bundled_l7_rules_for_host :: "string \<Rightarrow> l7_rule list" where
  "bundled_l7_rules_for_host host =
     (case find (\<lambda>ep. ne_host ep = host) (concat (map (pp_endpoints \<circ> snd) bundled_provider_profiles)) of
        None \<Rightarrow> [] | Some ep \<Rightarrow> ne_rules ep)"

section \<open>Network policy\<close>

record net_policy =
  np_name :: string
  np_endpoints :: "net_endpoint list"
  np_binaries :: "string list"

definition plain_endpoint :: "string \<Rightarrow> nat \<Rightarrow> net_endpoint" where
  "plain_endpoint host port = \<lparr>ne_host = host, ne_port = port, ne_protocol = [], ne_enforcement = [], ne_access = [], ne_rules = []\<rparr>"

definition llm_provider_policy :: "string \<Rightarrow> net_policy" where
  "llm_provider_policy provider_host =
     (let rules = bundled_l7_rules_for_host provider_host in
        \<lparr>np_name = ''llm-provider'',
         np_endpoints = [\<lparr>ne_host = provider_host, ne_port = 443, ne_protocol = ''rest'', ne_enforcement = ''enforce'',
           ne_access = (if rules = [] then ''read-write'' else []), ne_rules = rules\<rparr>],
         np_binaries = [''**'']\<rparr>)"

text \<open>A host found in a URL; a URL without one gets no rule.\<close>

definition url_policy :: "(string \<Rightarrow> bool) \<Rightarrow> string \<Rightarrow> string \<Rightarrow> string \<Rightarrow> net_policy dict \<Rightarrow> net_policy dict res" where
  "url_policy bracketed_ok key name url policies =
     then_do (url_netloc bracketed_ok url) (\<lambda>netloc.
       case netloc_hostname netloc of
         None \<Rightarrow> Ok policies
       | Some host \<Rightarrow>
           then_do (port_or_default url netloc) (\<lambda>port.
             Ok (dict_set key \<lparr>np_name = name, np_endpoints = [plain_endpoint host port], np_binaries = [''**'']\<rparr> policies)))"

text \<open>
  The MCP servers are read back from the JSON text of the environment. Whatever the text stands for is
  iterated as Python does; a value that cannot be iterated raises the \<open>TypeError\<close> the handler catches.
\<close>

fun iter_items :: "pyval \<Rightarrow> pyval list option" where
  "iter_items (VList xs) = Some xs"
| "iter_items (VDict d) = Some (map (VStr \<circ> fst) d)"
| "iter_items (VStr s) = Some (map (\<lambda>c. VStr [c]) s)"
| "iter_items _ = None"

definition server_policy :: "(string \<Rightarrow> bool) \<Rightarrow> nat \<Rightarrow> pyval \<Rightarrow> net_policy dict \<Rightarrow> net_policy dict res" where
  "server_policy bracketed_ok i server policies =
     then_do (as_dict server) (\<lambda>d.
       let url = dget_or d ''url'' (VStr []) in
         if \<not> truthy url then Ok policies
         else case url of
           VStr u \<Rightarrow> url_policy bracketed_ok (''mcp_'' @ show_nat i)
                       (''mcp-'' @ py_str (dget_or d ''name'' (VInt (int i)))) u policies
         | _ \<Rightarrow> Err (AttributeError ''object has no attribute decode''))"

fun server_policies :: "(string \<Rightarrow> bool) \<Rightarrow> nat \<Rightarrow> pyval list \<Rightarrow> net_policy dict \<Rightarrow> net_policy dict res" where
  "server_policies bracketed_ok i [] policies = Ok policies"
| "server_policies bracketed_ok i (s # ss) policies =
     then_do (server_policy bracketed_ok i s policies) (server_policies bracketed_ok (Suc i) ss)"

definition mcp_policies :: "json_lib \<Rightarrow> (string \<Rightarrow> bool) \<Rightarrow> string \<Rightarrow> net_policy dict \<Rightarrow> net_policy dict res" where
  "mcp_policies L bracketed_ok mcp_json policies =
     (if mcp_json = [] then Ok policies
      else case json_loads L mcp_json of
        Inl JSONDecodeError \<Rightarrow> Ok policies
      | Inl IntDigitsLimit \<Rightarrow> Err (ValueError ''Exceeds the limit for integer string conversion'')
      | Inr v \<Rightarrow> (case iter_items v of None \<Rightarrow> Ok policies | Some ss \<Rightarrow> server_policies bracketed_ok 0 ss policies))"

definition provider_policies :: "(string \<Rightarrow> bool) \<Rightarrow> string dict \<Rightarrow> net_policy dict res" where
  "provider_policies bracketed_ok env =
     (let provider_url = env_or env ''LIGHTSPEED_PROVIDER_URL'' [] in
        if provider_url \<noteq> [] then url_policy bracketed_ok ''custom_provider'' ''custom-provider'' provider_url []
        else case map_of provider_hosts (env_or env ''LIGHTSPEED_PROVIDER'' []) of
          None \<Rightarrow> Ok []
        | Some host \<Rightarrow> Ok [(''llm_provider'', llm_provider_policy host)])"

definition build_network_policy :: "json_lib \<Rightarrow> (string \<Rightarrow> bool) \<Rightarrow> string dict \<Rightarrow> net_policy dict res" where
  "build_network_policy L bracketed_ok env =
     then_do (provider_policies bracketed_ok env) (mcp_policies L bracketed_ok (env_or env ''LIGHTSPEED_MCP_SERVERS'' []))"

section \<open>Filesystem policy\<close>

record fs_policy =
  fs_read_only :: "string list"
  fs_read_write :: "string list"
  fs_include_workdir :: bool
  fs_landlock :: string

definition filesystem_policy :: fs_policy where
  "filesystem_policy =
     \<lparr>fs_read_only = [''/''],
      fs_read_write = [''/tmp'', ''/home/agent'', ''/var/log'', ''/var/secrets/mcp'', ''/var/run/secrets/llm-credentials''],
      fs_include_workdir = True, fs_landlock = []\<rparr>"

definition baseline_filesystem_policy :: "shell_config \<Rightarrow> string list option \<Rightarrow> fs_policy res" where
  "baseline_filesystem_policy cfg allowed_skills =
     (let skills = (case allowed_skills of None \<Rightarrow> [] | Some names \<Rightarrow> names) in
        then_do (validate_allowed_skills skills) (\<lambda>_.
          Ok \<lparr>fs_read_only = default_baseline_read_only @ sh_extra_readable_paths cfg
                @ map (\<lambda>name. skills_root @ ''/'' @ name) skills,
              fs_read_write = default_baseline_read_write @ (if skills = [] then [] else [materialized_skills_dir]),
              fs_include_workdir = True, fs_landlock = ''best_effort''\<rparr>))"

section \<open>Labels and environment\<close>

definition spawned_by_label :: "string dict" where
  "spawned_by_label = [(''spawned-by'', ''workflow-runner'')]"

definition expires_at_label_key :: string where
  "expires_at_label_key = ''cloud-agents/expires-at''"

definition reserved_label_keys :: "string list" where
  "reserved_label_keys = [expires_at_label_key, ''cloud-agents/owner-instance'']"

definition agent_name_label_key :: string where
  "agent_name_label_key = ''cloud-agents/agent-name''"

definition spawn_labels :: "shell_config \<Rightarrow> string \<Rightarrow> string dict \<Rightarrow> int option \<Rightarrow> rat \<Rightarrow> string dict" where
  "spawn_labels cfg agent_name labels lifetime_seconds stamped_at =
     (let own = dict_set agent_name_label_key agent_name
                  (dict_merge (filter (\<lambda>(k, v). k \<notin> set reserved_label_keys) labels) spawned_by_label) in
        case lifetime_seconds of
          None \<Rightarrow> own
        | Some lifetime \<Rightarrow>
            dict_set expires_at_label_key
              (show_int (expires_at stamped_at lifetime (sh_min_lifetime_seconds cfg) (sh_expiry_skew_seconds cfg))) own)"

text \<open>\<open>cred_keys\<close> and \<open>mcp_secret_keys\<close>: names whose values must not enter the sandbox.\<close>

definition secret_keys :: "string option \<Rightarrow> (string \<times> string \<times> string) list \<Rightarrow> string list" where
  "secret_keys credential mounts =
     (case credential of None \<Rightarrow> [] | Some c \<Rightarrow> if c = [] then [] else [c, env_name c]) @ map fst mounts"

definition without_keys :: "string list \<Rightarrow> string dict \<Rightarrow> string dict" where
  "without_keys ks d = filter (\<lambda>(k, v). k \<notin> set ks) d"

definition server_env :: "shell_config \<Rightarrow> string list \<Rightarrow> string dict \<Rightarrow> bool \<Rightarrow> string dict" where
  "server_env cfg secrets env read_only =
     (let e = without_keys secrets (dict_merge (sh_extra_env cfg) env) in
        if read_only then dict_set ''LIGHTSPEED_SKILLS_DIR'' skills_root e else e)"

record sandbox_spec =
  sp_image :: string
  sp_template_labels :: "string dict"
  sp_environment :: "string dict"
  sp_providers :: "string list"
  sp_network :: "net_policy dict"
  sp_filesystem :: fs_policy

definition build_spec ::
  "json_lib \<Rightarrow> (string \<Rightarrow> bool) \<Rightarrow> shell_config \<Rightarrow> string \<Rightarrow> string dict \<Rightarrow> string dict \<Rightarrow> string list \<Rightarrow> string option
   \<Rightarrow> bool \<Rightarrow> string list option \<Rightarrow> sandbox_spec res" where
  "build_spec L bracketed_ok cfg img labels env secrets provider_id read_only allowed_skills =
     then_do (build_network_policy L bracketed_ok env) (\<lambda>network.
     then_do (if read_only then Ok filesystem_policy else baseline_filesystem_policy cfg allowed_skills) (\<lambda>fs.
       Ok \<lparr>sp_image = img, sp_template_labels = labels, sp_environment = without_keys secrets env,
           sp_providers = (case provider_id of None \<Rightarrow> [] | Some p \<Rightarrow> [p]), sp_network = network, sp_filesystem = fs\<rparr>))"

section \<open>Where a path leads\<close>

text \<open>The walk from the root along the parts of a path, as the kernel takes it when no link is on the way.\<close>

definition walk_part :: "string \<Rightarrow> string list \<Rightarrow> string list" where
  "walk_part part here = (if part = [] \<or> part = ''.'' then here else if part = ''..'' then butlast here else here @ [part])"

definition walk :: "string \<Rightarrow> string list" where
  "walk path = fold walk_part (py_split ''/'' path) []"

lemma walk_plain: "''..'' \<notin> set cs \<Longrightarrow> fold walk_part cs here = here @ filter (\<lambda>c. c \<noteq> [] \<and> c \<noteq> ''.'') cs"
  by (induction cs arbitrary: here) (auto simp: walk_part_def)

lemma norm_plain: "''..'' \<notin> set cs \<Longrightarrow> fold (norm_component True) cs here = here @ filter (\<lambda>c. c \<noteq> [] \<and> c \<noteq> ''.'') cs"
  by (induction cs arbitrary: here) (auto simp: norm_component_def)

lemma join_parts_root:
  assumes "\<forall>c \<in> set cs. c \<noteq> [] \<and> CHR ''/'' \<notin> set c"
  shows "py_join ''/'' cs \<noteq> ''/'' \<and> (py_join ''/'' cs = [] \<longleftrightarrow> cs = [])"
proof (cases cs)
  case (Cons c ds)
  with assms have c: "c \<noteq> []" "CHR ''/'' \<notin> set c" by auto
  show ?thesis
  proof (cases ds)
    case Nil
    with c Cons show ?thesis by auto
  next
    case (Cons d es)
    with \<open>cs = c # ds\<close> c show ?thesis by (auto simp: append_eq_Cons_conv)
  qed
qed simp

lemma slash_parts: "c \<in> set (py_split ''/'' path) \<Longrightarrow> CHR ''/'' \<notin> set c"
  using split_part_free [of "''/''" c path] by (simp add: sublist_single)

text \<open>Without upward parts, the normal form is the root exactly if the walk stays there.\<close>

lemma normpath_root_iff:
  assumes "''..'' \<notin> set (py_split ''/'' path)" "prefix ''/'' path"
  shows "normpath path \<in> {''/'', ''//''} \<longleftrightarrow> walk path = []"
proof -
  let ?cs = "filter (\<lambda>c. c \<noteq> [] \<and> c \<noteq> ''.'') (py_split ''/'' path)"
  have j: "py_join ''/'' ?cs \<noteq> ''/'' \<and> (py_join ''/'' ?cs = [] \<longleftrightarrow> ?cs = [])"
    by (rule join_parts_root) (auto dest: slash_parts)
  have "initial_slashes path = 1 \<or> initial_slashes path = 2" using assms(2) by (auto simp: initial_slashes_def)
  then show ?thesis
    using assms j by (auto simp: normpath_def Let_def norm_plain walk_def walk_plain numeral_2_eq_2)
qed

lemma only_slashes_walk: "only_slashes path \<Longrightarrow> walk path = []"
proof -
  assume a: "only_slashes path"
  have "list_all (\<lambda>c. c = CHR ''/'') acc \<Longrightarrow> list_all (\<lambda>c. c = CHR ''/'') s \<Longrightarrow> acc = [] \<Longrightarrow> set (py_split_acc ''/'' acc s) \<subseteq> {[]}" for acc s
    by (induction s arbitrary: acc) (subst py_split_acc.simps; auto)+
  with a have "set (py_split ''/'' path) \<subseteq> {[]}" by (simp add: py_split_def only_slashes_def)
  then have "filter (\<lambda>c. c \<noteq> [] \<and> c \<noteq> ''.'') (py_split ''/'' path) = []" "''..'' \<notin> set (py_split ''/'' path)"
    by (auto simp: filter_empty_conv)
  then show ?thesis by (simp add: walk_def walk_plain)
qed

lemma extra_path_accepted_iff:
  "validate_extra_readable_path path = Ok () \<longleftrightarrow> prefix ''/'' path \<and> ''..'' \<notin> set (py_split ''/'' path) \<and> walk path \<noteq> []"
  using normpath_root_iff [of path] only_slashes_walk [of path]
  by (auto simp: validate_extra_readable_path_def)

lemma map_res_units: "map_res f xs = Ok us \<Longrightarrow> x \<in> set xs \<Longrightarrow> f x = Ok (() :: unit)"
  by (induction xs arbitrary: us) (auto simp: then_do_Ok_iff)

lemma walk_skill: "validate_allowed_skill name = Ok () \<Longrightarrow> walk (skills_root @ ''/'' @ name) = [''skills'', name]"
proof -
  assume "validate_allowed_skill name = Ok ()"
  then have n: "name \<noteq> []" "CHR ''/'' \<notin> set name" "name \<noteq> ''.''" "name \<noteq> ''..''"
    by (auto simp: validate_allowed_skill_def split: if_splits)
  have "py_split ''/'' (skills_root @ ''/'' @ name) = py_split ''/'' (py_join ''/'' [[], ''skills'', name])"
    by (simp add: skills_root_def)
  also have "\<dots> = [[], ''skills'', name]"
    using n(2) by (subst split_join_char) auto
  finally have parts: "py_split ''/'' (skills_root @ ''/'' @ name) = [[], ''skills'', name]" .
  show ?thesis unfolding walk_def parts using n by (simp add: walk_part_def)
qed

lemma init_extra_paths:
  "init_openshell cfg0 paths env = Ok cfg \<Longrightarrow> p \<in> set (sh_extra_readable_paths cfg) \<Longrightarrow> validate_extra_readable_path p = Ok ()"
  by (auto simp: init_openshell_def validate_extra_readable_paths_def then_do_Ok_iff dest: map_res_units split: if_splits)

definition example_config :: shell_config where
  "example_config =
     \<lparr>sh_workspace = ''default'', sh_endpoint = ''gateway:17670'', sh_http_endpoint = [], sh_tls_ca = ''/ca.pem'', sh_tls_cert = [],
      sh_tls_key = [], sh_bearer_token = [], sh_token_provider = False, sh_extra_readable_paths = [], sh_extra_env = [],
      sh_min_lifetime_seconds = 86400, sh_expiry_skew_seconds = 600\<rparr>"



section \<open>Who a sandbox may talk to\<close>

lemma set_dict_set: "x \<in> set (dict_set k v d) \<Longrightarrow> x = (k, v) \<or> x \<in> set d"
  by (induction d) (auto split: if_splits)

text \<open>The hosts a URL or a list of servers opens.\<close>

definition opens :: "(string \<Rightarrow> bool) \<Rightarrow> string \<Rightarrow> net_endpoint \<Rightarrow> bool" where
  "opens b url ep = (\<exists>port. url_hostname b url = Ok (Some (ne_host ep)) \<and> 0 < port \<and> port \<le> 65535 \<and> ep = plain_endpoint (ne_host ep) port)"

lemma url_policy_endpoint:
  assumes "url_policy b key name url ps = Ok ps'" "(k, np) \<in> set ps'" "ep \<in> set (np_endpoints np)"
  shows "(k, np) \<in> set ps \<or> opens b url ep"
  using assms
  by (auto simp: url_policy_def url_hostname_def opens_def then_do_Ok_iff plain_endpoint_def port_in_range [THEN conjunct1]
      port_in_range [THEN conjunct2] dest!: set_dict_set split: option.splits)

lemma server_policies_endpoint:
  assumes "server_policies b i ss ps = Ok ps'" "(k, np) \<in> set ps'" "ep \<in> set (np_endpoints np)"
  shows "(k, np) \<in> set ps \<or> (\<exists>d u. VDict d \<in> set ss \<and> dget d ''url'' = VStr u \<and> opens b u ep)"
  using assms
proof (induction ss arbitrary: i ps)
  case (Cons s ss)
  from Cons.prems(1) obtain ps1 where s1: "server_policy b i s ps = Ok ps1" and rest: "server_policies b (Suc i) ss ps1 = Ok ps'"
    by (auto simp: then_do_Ok_iff)
  from Cons.IH [OF rest Cons.prems(2,3)] show ?case
  proof
    assume in1: "(k, np) \<in> set ps1"
    from s1 obtain d where d: "s = VDict d" by (auto simp: server_policy_def then_do_Ok_iff as_dict_Ok)
    show ?thesis
    proof (cases "dget d ''url''")
      case (VStr u)
      then have "dget_or d ''url'' (VStr []) = VStr u" by (auto simp: dget_def dget_or_def split: option.splits)
      with s1 d VStr in1 url_policy_endpoint [of b _ _ u ps ps1 k np ep] Cons.prems(3) show ?thesis
        by (auto simp: server_policy_def Let_def split: if_splits)
    qed (use s1 d in1 in \<open>auto simp: server_policy_def Let_def dget_def dget_or_def split: option.splits if_splits pyval.splits\<close>)
  next
    assume "\<exists>d u. VDict d \<in> set ss \<and> dget d ''url'' = VStr u \<and> opens b u ep"
    then show ?thesis by auto
  qed
qed simp

text \<open>
  C27. A sandbox reaches the network only where its step points. Every endpoint of its policy is the public host
  of the model provider, over an inspected connection that for the profiled providers admits the inference
  requests alone, and only if no other URL is configured for the provider; or the host of that URL; or the
  host of one of the MCP servers of the step.
\<close>

theorem egress_limited:
  assumes "build_network_policy L b env = Ok ps" "(k, np) \<in> set ps" "ep \<in> set (np_endpoints np)"
  shows "(env_or env ''LIGHTSPEED_PROVIDER_URL'' [] = [] \<and> map_of provider_hosts (env_or env ''LIGHTSPEED_PROVIDER'' []) = Some (ne_host ep)
            \<and> ne_port ep = 443 \<and> ne_enforcement ep = ''enforce''
            \<and> (ne_host ep \<in> {''api.openai.com'', ''api.anthropic.com''} \<longrightarrow>
                 ne_access ep = [] \<and> ne_rules ep \<noteq> [] \<and> (\<forall>r \<in> set (ne_rules ep). lr_method r = ''POST'')))
       \<or> (env_or env ''LIGHTSPEED_PROVIDER_URL'' [] \<noteq> [] \<and> opens b (env_or env ''LIGHTSPEED_PROVIDER_URL'' []) ep)
       \<or> (\<exists>servers d u. json_loads L (env_or env ''LIGHTSPEED_MCP_SERVERS'' []) = Inr (VList servers)
            \<and> VDict d \<in> set servers \<and> dget d ''url'' = VStr u \<and> opens b u ep)"
proof -
  let ?url = "env_or env ''LIGHTSPEED_PROVIDER_URL'' []" and ?mcp = "env_or env ''LIGHTSPEED_MCP_SERVERS'' []"
  from assms(1) obtain ps0 where p0: "provider_policies b env = Ok ps0" and m: "mcp_policies L b ?mcp ps0 = Ok ps"
    by (auto simp: build_network_policy_def then_do_Ok_iff)
  have rules: "host \<in> {''api.openai.com'', ''api.anthropic.com''} \<Longrightarrow>
      bundled_l7_rules_for_host host \<noteq> [] \<and> (\<forall>r \<in> set (bundled_l7_rules_for_host host). lr_method r = ''POST'')" for host
    by (auto simp: bundled_l7_rules_for_host_def bundled_provider_profiles_def profile_def)
  have first: "(k, np) \<in> set ps0 \<Longrightarrow> ?thesis"
  proof (cases "?url = []")
    case True
    assume "(k, np) \<in> set ps0"
    with True p0 assms(3) rules [of "ne_host ep"] show ?thesis
      by (auto simp: provider_policies_def llm_provider_policy_def Let_def split: option.splits)
  next
    case False
    assume "(k, np) \<in> set ps0"
    with False p0 assms(3) url_policy_endpoint [of b _ _ ?url "[]" ps0 k np ep] show ?thesis
      by (auto simp: provider_policies_def Let_def)
  qed
  show ?thesis
  proof (cases "(k, np) \<in> set ps0")
    case False
    with m assms(2) obtain v ss where v: "json_loads L ?mcp = Inr v" "iter_items v = Some ss" "server_policies b 0 ss ps0 = Ok ps"
      by (auto simp: mcp_policies_def split: if_splits sum.splits json_error.splits option.splits)
    from server_policies_endpoint [OF v(3) assms(2,3)] False obtain d u where
      d: "VDict d \<in> set ss" "dget d ''url'' = VStr u" "opens b u ep" by blast
    from v(2) d(1) have "v = VList ss" by (cases v) auto
    with v(1) d show ?thesis by blast
  qed (rule first)
qed

theorem egress_limited_witness:
  "(let ep = hd (np_endpoints (llm_provider_policy ''api.openai.com'')) in ne_access ep = [] \<and> ne_rules ep \<noteq> [])"
proof -
  let ?L = "\<lparr>jl_chr = (\<lambda>_. CHR ''x''), jl_float = id\<rparr>" and ?env = "[(''LIGHTSPEED_PROVIDER'', ''openai'')]"
    and ?np = "llm_provider_policy ''api.openai.com''"
  have none: "env_or ?env ''LIGHTSPEED_PROVIDER_URL'' [] = []" "env_or ?env ''LIGHTSPEED_MCP_SERVERS'' [] = []"
    by (simp_all add: env_or_def)
  have "build_network_policy ?L (\<lambda>_. True) ?env = Ok [(''llm_provider'', ?np)]"
    by (simp add: build_network_policy_def provider_policies_def mcp_policies_def provider_hosts_def env_or_def)
  moreover have "json_loads ?L [] = Inl JSONDecodeError" by code_simp
  moreover have "hd (np_endpoints ?np) \<in> set (np_endpoints ?np)" "ne_host (hd (np_endpoints ?np)) = ''api.openai.com''"
    by (simp_all add: llm_provider_policy_def Let_def)
  ultimately show ?thesis
    using egress_limited [of ?L "\<lambda>_. True" ?env "[(''llm_provider'', ?np)]" "''llm_provider''" ?np "hd (np_endpoints ?np)"]
    unfolding none by (simp add: Let_def)
qed

section \<open>Secrets, labels and channels\<close>

lemma without_keys_free: "k \<in> set ks \<Longrightarrow> map_of (without_keys ks d) k = None"
  by (auto simp: without_keys_def map_of_eq_None_iff)

text \<open>A name of a credential or a mounted secret is in no environment of the sandbox.\<close>

lemma spec_without_secrets:
  assumes "build_spec L b cfg img labels env secrets pid ro skills = Ok sp" "k \<in> set secrets"
  shows "map_of (sp_environment sp) k = None"
  using assms by (auto simp: build_spec_def then_do_Ok_iff without_keys_free)

lemma server_env_without_secrets:
  assumes "k \<in> set secrets"
  shows "map_of (server_env cfg secrets env ro) k \<in> {None, Some skills_root}"
  using assms by (auto simp: server_env_def Let_def without_keys_free)

text \<open>
  Only the spawner marks a sandbox: whatever labels a caller passes, the label of the runner and the agent's
  name are the spawner's, and the expiry is there exactly if the sandbox has a lifetime, computed from it.
\<close>

lemma labels_are_own:
  shows "map_of (spawn_labels cfg agent labels lifetime at_time) ''spawned-by'' = Some ''workflow-runner''"
    and "map_of (spawn_labels cfg agent labels lifetime at_time) agent_name_label_key = Some agent"
    and "map_of (spawn_labels cfg agent labels lifetime at_time) expires_at_label_key
      = map_option (\<lambda>l. show_int (expires_at at_time l (sh_min_lifetime_seconds cfg) (sh_expiry_skew_seconds cfg))) lifetime"
proof -
  have "map_of (filter (\<lambda>(k, v). k \<notin> set reserved_label_keys) labels) expires_at_label_key = None"
    by (auto simp: map_of_eq_None_iff reserved_label_keys_def)
  then show "map_of (spawn_labels cfg agent labels lifetime at_time) expires_at_label_key
      = map_option (\<lambda>l. show_int (expires_at at_time l (sh_min_lifetime_seconds cfg) (sh_expiry_skew_seconds cfg))) lifetime"
    by (auto simp: spawn_labels_def Let_def spawned_by_label_def agent_name_label_key_def expires_at_label_key_def split: option.split)
qed (auto simp: spawn_labels_def Let_def spawned_by_label_def agent_name_label_key_def expires_at_label_key_def split: option.split)

text \<open>A token travels over TLS only, and a configured provider of tokens is never bypassed.\<close>

lemma token_needs_tls:
  assumes "create_grpc_channel cfg read_file provided = Inr ch"
  shows "(case ch of
       InsecureChannel _ \<Rightarrow> sh_tls_ca cfg = [] \<and> \<not> sh_token_provider cfg \<and> sh_bearer_token cfg = []
     | SecureChannel _ _ _ _ token \<Rightarrow> sh_tls_ca cfg \<noteq> []
         \<and> (sh_token_provider cfg \<longrightarrow> token = Some provided \<and> provided \<noteq> [])
         \<and> (\<not> sh_token_provider cfg \<longrightarrow> token = (if sh_bearer_token cfg = [] then None else Some (sh_bearer_token cfg))))"
  using assms by (auto simp: create_grpc_channel_def Let_def split: if_splits sum.splits)

text \<open>A spawner made from the environment has sound margins and grants no root.\<close>

lemma create_spawner_sound:
  assumes "create_spawner env = Ok (Some cfg)"
  shows "0 \<le> sh_min_lifetime_seconds cfg" "0 \<le> sh_expiry_skew_seconds cfg" "\<not> sh_token_provider cfg"
proof -
  have init: "init_openshell c ps e = Ok cfg \<Longrightarrow> 0 \<le> sh_min_lifetime_seconds cfg \<and> 0 \<le> sh_expiry_skew_seconds cfg
      \<and> sh_token_provider cfg = sh_token_provider c" for c ps e
    by (auto simp: init_openshell_def not_negative_def then_do_Ok_iff split: if_splits)
  from assms show "0 \<le> sh_min_lifetime_seconds cfg" "0 \<le> sh_expiry_skew_seconds cfg" "\<not> sh_token_provider cfg"
    by (auto simp: create_spawner_def build_spawner_def Let_def then_do_Ok_iff dest!: init split: if_splits)
qed

end
