(* ===== verification/OpenShell.thy ===== *)
theory OpenShell
  imports OpenShellPolicy DirectStep CliSessions
begin

text \<open>
  The OpenShell spawner at work (\<open>spawner/openshell_spawner.py\<close>): spawning with its clean-up, destroying,
  listing, and the reconciliation of orphans at startup (\<open>executor/temporal/entrypoint.py\<close>). The gateway
  and its client library answer through the record \<open>gateway\<close>, one field per call; an answer may be the
  cancellation of the caller. What the spawner itself keeps is the record \<open>openshell\<close>, and the calls it
  makes are recorded in order with what they created.
\<close>

section \<open>State and surroundings\<close>

datatype exec_item =
    ExecChunk string string
  | ExecResult int string

datatype health =
    HttpFailure
  | HealthResponse nat string bool

record sandbox_ref =
  ref_name :: string
  ref_labels :: "string dict"

datatype gateway_call =
    ListProfiles
  | ImportProfile string
  | CreateProvider string "string dict" "string option"
  | SetInferenceRoute string string
  | CreateSandbox sandbox_spec "string dict" "(string \<times> string) option"
  | WaitReady string
  | ExecStream string "string list" string
  | StartServer string "string dict"
  | ExposeService string nat
  | HealthChecks string string
  | DetachProvider string string
  | DeleteSandbox string
  | DeleteProvider string
  | ListSandboxes "string option" "(nat \<times> nat) option"

type_synonym ('w, 'a) answer = "'w \<Rightarrow> (sandbox_exc + 'a) \<times> 'w"

record 'w gateway =
  gw_json :: json_lib
  gw_bracketed_ok :: "string \<Rightarrow> bool"
  gw_environ :: "string dict"
  gw_read_file :: "string \<Rightarrow> sandbox_exc + string"
  gw_token :: "'w \<Rightarrow> string"
  gw_clock :: "'w \<Rightarrow> rat"
  gw_past_deadline :: "'w \<Rightarrow> bool"
  gw_profiles :: "('w, string list) answer"
  gw_import :: "provider_profile \<Rightarrow> ('w, bool \<times> string list) answer"
  gw_create_provider :: "string \<Rightarrow> string dict \<Rightarrow> ('w, string) answer"
  gw_set_route :: "string \<Rightarrow> string \<Rightarrow> ('w, unit) answer"
  gw_create :: "sandbox_spec \<Rightarrow> string dict \<Rightarrow> ('w, string \<times> string) answer"
  gw_wait_ready :: "string \<Rightarrow> ('w, unit) answer"
  gw_exec :: "string \<Rightarrow> string list \<Rightarrow> string \<Rightarrow> ('w, exec_item list) answer"
  gw_expose :: "string \<Rightarrow> nat \<Rightarrow> ('w, string) answer"
  gw_polls :: "string \<Rightarrow> string \<Rightarrow> ('w, (rat \<times> health) list) answer"
  gw_detach :: "string \<Rightarrow> string \<Rightarrow> ('w, unit) answer"
  gw_delete :: "string \<Rightarrow> ('w, unit) answer"
  gw_delete_provider :: "string \<Rightarrow> ('w, unit) answer"
  gw_list :: "string option \<Rightarrow> (nat \<times> nat) option \<Rightarrow> ('w, sandbox_ref list) answer"

record openshell =
  os_sandbox_names :: "string dict"
  os_sandbox_ids :: "string dict"
  os_virtual_hosts :: "string dict"
  os_server_tasks :: "string list"
  os_provider_ids :: "string dict"

record 'w shell_host =
  so_state :: openshell
  so_pool :: pool
  so_calls :: "gateway_call list"
  so_world :: 'w

type_synonym ('w, 'a) shell_result = "(sandbox_exc + 'a) \<times> 'w shell_host"

text \<open>One call: it is recorded together with its answer.\<close>

definition gateway_do :: "(sandbox_exc + 'a \<Rightarrow> gateway_call) \<Rightarrow> ('w, 'a) answer \<Rightarrow> 'w shell_host \<Rightarrow> ('w, 'a) shell_result" where
  "gateway_do c f h = (case f (so_world h) of (r, w) \<Rightarrow> (r, h\<lparr>so_calls := so_calls h @ [c r], so_world := w\<rparr>))"

definition created :: "sandbox_exc + 'a \<Rightarrow> 'a option" where
  "created r = (case r of Inl _ \<Rightarrow> None | Inr x \<Rightarrow> Some x)"

abbreviation in_state :: "(openshell \<Rightarrow> openshell) \<Rightarrow> 'w shell_host \<Rightarrow> 'w shell_host" where
  "in_state f h \<equiv> h\<lparr>so_state := f (so_state h)\<rparr>"

definition dict_pop :: "string \<Rightarrow> 'v dict \<Rightarrow> 'v dict" where
  "dict_pop k d = filter (\<lambda>(k', v). k' \<noteq> k) d"

definition raised :: "pyexc \<Rightarrow> 'h \<Rightarrow> (sandbox_exc + 'a) \<times> 'h" where
  "raised e h = (Inl (PyError e), h)"

definition lift_res :: "'a res \<Rightarrow> 'h \<Rightarrow> (sandbox_exc + 'a) \<times> 'h" where
  "lift_res r h = (case r of Inl e \<Rightarrow> raised e h | Inr x \<Rightarrow> (Inr x, h))"

text \<open>\<open>except Exception\<close> with a log line: only the cancellation of the caller goes on.\<close>

definition best_effort :: "('w, unit) shell_result \<Rightarrow> ('w, unit) shell_result" where
  "best_effort r = (case r of (Inl CancelledError, h) \<Rightarrow> (Inl CancelledError, h) | (_, h) \<Rightarrow> (Inr (), h))"

text \<open>\<open>await_within\<close>: an await that was cut is the deadline's doing if the deadline has passed.\<close>

definition in_time :: "'w gateway \<Rightarrow> string \<Rightarrow> ('w, 'a) shell_result \<Rightarrow> ('w, 'a) shell_result" where
  "in_time gw what r =
     (case r of
        (Inl CancelledError, h) \<Rightarrow>
          (Inl (if gw_past_deadline gw (so_world h) then TimeoutError what else CancelledError), h)
      | _ \<Rightarrow> r)"

text \<open>Raw calls build their channel first.\<close>

definition with_channel :: "shell_config \<Rightarrow> 'w gateway \<Rightarrow> ('w shell_host \<Rightarrow> ('w, 'a) shell_result) \<Rightarrow> 'w shell_host \<Rightarrow> ('w, 'a) shell_result" where
  "with_channel cfg gw k h =
     (case create_grpc_channel cfg (gw_read_file gw) (gw_token gw (so_world h)) of Inl e \<Rightarrow> (Inl e, h) | Inr _ \<Rightarrow> k h)"

section \<open>Providers\<close>

definition already_exists :: "string \<Rightarrow> string" where
  "already_exists provider_type = ''custom provider profile '' @ [sq] @ provider_type @ [sq] @ '' already exists''"

definition ensure_provider_profile :: "shell_config \<Rightarrow> 'w gateway \<Rightarrow> string \<Rightarrow> 'w shell_host \<Rightarrow> ('w, unit) shell_result" where
  "ensure_provider_profile cfg gw provider_type h =
     (case map_of bundled_provider_profiles provider_type of
        None \<Rightarrow> (Inr (), h)
      | Some bundled \<Rightarrow>
          with_channel cfg gw (\<lambda>h.
            and_then (gateway_do (\<lambda>_. ListProfiles) (gw_profiles gw) h) (\<lambda>ids h.
              if provider_type \<in> set ids then (Inr (), h)
              else and_then (gateway_do (\<lambda>_. ImportProfile provider_type) (gw_import gw bundled) h) (\<lambda>(imported, messages) h.
                if imported \<or> (messages \<noteq> [] \<and> list_all (\<lambda>m. m = already_exists provider_type) messages) then (Inr (), h)
                else raised (RuntimeError (''Gateway rejected bundled ProviderProfile import for '' @ [sq] @ provider_type @ [sq]
                  @ '' (imported=False): '' @ (if py_join ''; '' messages = [] then ''no diagnostics returned'' else py_join ''; '' messages))) h))) h)"

definition create_provider :: "shell_config \<Rightarrow> 'w gateway \<Rightarrow> string dict \<Rightarrow> string \<Rightarrow> 'w shell_host \<Rightarrow> ('w, string) shell_result" where
  "create_provider cfg gw credentials provider_type h =
     and_then (lift_res (credential_transport cfg (gw_environ gw)) h) (\<lambda>_ h.
       with_channel cfg gw (\<lambda>h.
         and_then (gateway_do (\<lambda>r. CreateProvider provider_type credentials (created r))
             (gw_create_provider gw provider_type credentials) h) (\<lambda>name h.
           if name = []
           then raised (RuntimeError ''Gateway returned an empty provider name from CreateProvider -- cannot reference this provider from spec.providers'') h
           else (Inr name, h))) h)"

definition set_inference_route :: "shell_config \<Rightarrow> 'w gateway \<Rightarrow> string \<Rightarrow> string \<Rightarrow> 'w shell_host \<Rightarrow> ('w, unit) shell_result" where
  "set_inference_route cfg gw provider model =
     with_channel cfg gw (gateway_do (\<lambda>_. SetInferenceRoute provider model) (gw_set_route gw provider model))"

definition delete_provider :: "shell_config \<Rightarrow> 'w gateway \<Rightarrow> string \<Rightarrow> 'w shell_host \<Rightarrow> ('w, unit) shell_result" where
  "delete_provider cfg gw provider =
     with_channel cfg gw (gateway_do (\<lambda>_. DeleteProvider provider) (gw_delete_provider gw provider))"

definition detach_provider :: "shell_config \<Rightarrow> 'w gateway \<Rightarrow> string \<Rightarrow> string \<Rightarrow> 'w shell_host \<Rightarrow> ('w, unit) shell_result" where
  "detach_provider cfg gw sandbox_name provider =
     with_channel cfg gw (gateway_do (\<lambda>_. DetachProvider sandbox_name provider) (gw_detach gw sandbox_name provider))"

definition delete_sandbox :: "'w gateway \<Rightarrow> string \<Rightarrow> 'w shell_host \<Rightarrow> ('w, unit) shell_result" where
  "delete_sandbox gw name = gateway_do (\<lambda>_. DeleteSandbox name) (gw_delete gw name)"

text \<open>The value of the credential: the environment of the step first, then the one of the process.\<close>

definition credential_value :: "string dict \<Rightarrow> string dict \<Rightarrow> string \<Rightarrow> string" where
  "credential_value env environ c =
     (let v = (\<lambda>d k. env_or d k []) in
        or_default (v env c) (or_default (v env (env_name c)) (or_default (v environ (env_name c)) (v environ c))))"

definition log_name :: "string \<Rightarrow> string" where
  "log_name agent = ''ca-agent-'' @ agent"

definition no_credential :: "string \<Rightarrow> string \<Rightarrow> pyexc" where
  "no_credential c agent = RuntimeError (''Credential '' @ [sq] @ c @ [sq] @ '' not found in env for sandbox '' @ [sq]
     @ log_name agent @ [sq] @ '' -- cannot start agent without credentials'')"

definition not_set :: "string \<Rightarrow> string \<Rightarrow> pyexc" where
  "not_set agent var = ValueError (''Cannot create credential provider for sandbox '' @ [sq] @ log_name agent @ [sq] @ '': ''
     @ var @ '' is not set.'')"

text \<open>The provider of a spawn, created before the sandbox; a route that cannot be set takes it back.\<close>

definition route_provider :: "shell_config \<Rightarrow> 'w gateway \<Rightarrow> string \<Rightarrow> string \<Rightarrow> string \<Rightarrow> 'w shell_host \<Rightarrow> ('w, string option) shell_result" where
  "route_provider cfg gw agent provider model h =
     (case set_inference_route cfg gw provider model (in_state (os_provider_ids_update (dict_set agent provider)) h) of
        (Inr _, h1) \<Rightarrow> (Inr (Some provider), h1)
      | (Inl CancelledError, h1) \<Rightarrow> (Inl CancelledError, h1)
      | (Inl e, h1) \<Rightarrow>
          and_then (best_effort (delete_provider cfg gw provider (in_state (os_provider_ids_update (dict_pop agent)) h1)))
            (\<lambda>_ h2. (Inl e, h2)))"

definition attach_credential ::
  "shell_config \<Rightarrow> 'w gateway \<Rightarrow> string \<Rightarrow> string dict \<Rightarrow> string option \<Rightarrow> 'w shell_host \<Rightarrow> ('w, string option) shell_result" where
  "attach_credential cfg gw agent env credential h =
     (case credential of
        None \<Rightarrow> (Inr None, h)
      | Some c \<Rightarrow>
          let value = credential_value env (gw_environ gw) c; provider = env_or env ''LIGHTSPEED_PROVIDER'' [];
              model = env_or env ''LIGHTSPEED_MODEL'' [] in
            if c = [] then (Inr None, h)
            else if value = [] then raised (no_credential c agent) h
            else if provider = [] then raised (not_set agent ''LIGHTSPEED_PROVIDER'') h
            else if model = [] then raised (not_set agent ''LIGHTSPEED_MODEL'') h
            else and_then (lift_res (resolve_inference_provider_type provider) h) (\<lambda>provider_type h.
                 and_then (ensure_provider_profile cfg gw provider_type h) (\<lambda>_ h.
                 and_then (create_provider cfg gw [(env_name c, value)] provider_type h) (\<lambda>name h.
                   route_provider cfg gw agent name model h))))"

section \<open>Commands in a sandbox\<close>

text \<open>The last result of an exec stream; a stream without one counts as failed.\<close>

definition exec_outcome :: "exec_item list \<Rightarrow> (int \<times> string) option" where
  "exec_outcome items = fold (\<lambda>i r. case i of ExecResult code err \<Rightarrow> Some (code, err) | ExecChunk _ _ \<Rightarrow> r) items None"

definition exec_failure :: "exec_item list \<Rightarrow> string option" where
  "exec_failure items =
     (case exec_outcome items of
        None \<Rightarrow> Some ''<no exec result>''
      | Some (code, err) \<Rightarrow> if code = 0 then None else Some err)"

definition exec_mkdir :: "'w gateway \<Rightarrow> string \<Rightarrow> string \<Rightarrow> 'w shell_host \<Rightarrow> ('w, unit) shell_result" where
  "exec_mkdir gw sandbox_id path h =
     and_then (gateway_do (\<lambda>_. ExecStream sandbox_id [''mkdir'', ''-p'', path] []) (gw_exec gw sandbox_id [''mkdir'', ''-p'', path] []) h)
       (\<lambda>items h. case exec_failure items of
          None \<Rightarrow> (Inr (), h)
        | Some err \<Rightarrow> raised (RuntimeError (''mkdir '' @ path @ '' failed in sandbox '' @ sandbox_id @ '': '' @ err)) h)"

definition max_exec_stdin_bytes :: nat where
  "max_exec_stdin_bytes = 1024 * 1024 - 64 * 1024"

definition write_command :: "string \<Rightarrow> string list" where
  "write_command path = [''sh'', ''-c'', ''umask 077; cat > '' @ [dq] @ ''$1'' @ [dq], ''sh'', path]"

definition write_failed :: "string \<Rightarrow> string \<Rightarrow> string \<Rightarrow> pyexc" where
  "write_failed path sandbox_id err = RuntimeError (''Failed to write '' @ path @ '' to sandbox '' @ sandbox_id @ '': '' @ err)"

definition write_secret_file :: "'w gateway \<Rightarrow> string \<Rightarrow> string \<Rightarrow> string \<Rightarrow> 'w shell_host \<Rightarrow> ('w, unit) shell_result" where
  "write_secret_file gw sandbox_id path content h =
     (if utf8_length content > max_exec_stdin_bytes
      then raised (RuntimeError (''Secret for '' @ path @ '' is '' @ show_nat (utf8_length content) @ '' bytes, which exceeds the ''
             @ show_nat max_exec_stdin_bytes @ ''-byte limit for exec stdin delivery'')) h
      else case gateway_do (\<lambda>_. ExecStream sandbox_id (write_command path) content) (gw_exec gw sandbox_id (write_command path) content) h of
        (Inl CancelledError, h1) \<Rightarrow> (Inl CancelledError, h1)
      | (Inl e, h1) \<Rightarrow> raised (write_failed path sandbox_id (sandbox_exc_str e)) h1
      | (Inr items, h1) \<Rightarrow>
          (case exec_failure items of None \<Rightarrow> (Inr (), h1) | Some err \<Rightarrow> raised (write_failed path sandbox_id err) h1))"

text \<open>\<open>posixpath.join\<close> for two parts.\<close>

definition posix_join :: "string \<Rightarrow> string \<Rightarrow> string" where
  "posix_join a b = (if prefix ''/'' b then b else if a = [] \<or> last a = CHR ''/'' then a @ b else a @ ''/'' @ b)"

fun inject_secrets :: "'w gateway \<Rightarrow> string \<Rightarrow> (string \<times> string \<times> string) list \<Rightarrow> string dict \<Rightarrow> 'w shell_host \<Rightarrow> ('w, unit) shell_result" where
  "inject_secrets gw sandbox_id [] env h = (Inr (), h)"
| "inject_secrets gw sandbox_id ((secret_name, key, mount_path) # mounts) env h =
     (let value = env_or env secret_name [] in
        if value = [] then inject_secrets gw sandbox_id mounts env h
        else and_then (exec_mkdir gw sandbox_id mount_path h) (\<lambda>_ h.
             and_then (write_secret_file gw sandbox_id (posix_join mount_path key) value h) (\<lambda>_ h.
               inject_secrets gw sandbox_id mounts env h)))"

definition inject_mcp_secrets :: "'w gateway \<Rightarrow> string \<Rightarrow> (string \<times> string \<times> string) list \<Rightarrow> string dict \<Rightarrow> 'w shell_host \<Rightarrow> ('w, unit) shell_result" where
  "inject_mcp_secrets gw agent mounts env h =
     (let sandbox_id = env_or (os_sandbox_ids (so_state h)) agent [] in
        if sandbox_id = [] then raised (RuntimeError (''No sandbox tracked for agent '' @ [sq] @ agent @ [sq])) h
        else inject_secrets gw sandbox_id mounts env h)"

definition materialize_skills_script :: string where
  "materialize_skills_script = ''/usr/local/bin/materialize-skills.sh''"

definition materialize_allowed_skills :: "'w gateway \<Rightarrow> string \<Rightarrow> string list \<Rightarrow> 'w shell_host \<Rightarrow> ('w, unit) shell_result" where
  "materialize_allowed_skills gw sandbox_id skills h =
     and_then (lift_res (validate_allowed_skills skills) h) (\<lambda>_ h.
     and_then (gateway_do (\<lambda>_. ExecStream sandbox_id (materialize_skills_script # skills) [])
         (gw_exec gw sandbox_id (materialize_skills_script # skills) []) h) (\<lambda>items h.
       case exec_failure items of
         None \<Rightarrow> (Inr (), h)
       | Some err \<Rightarrow> raised (RuntimeError (''materialize-skills.sh failed for sandbox '' @ [sq] @ sandbox_id @ [sq]
           @ '' (allowed_skills='' @ py_str (VList (map VStr skills)) @ ''): '' @ err)) h))"

text \<open>The server runs in a task of its own, kept under the name it was started with.\<close>

definition start_server :: "string \<Rightarrow> string dict \<Rightarrow> 'w shell_host \<Rightarrow> 'w shell_host" where
  "start_server sandbox_name env h =
     (in_state (os_server_tasks_update (\<lambda>ts. if sandbox_name \<in> set ts then ts else ts @ [sandbox_name])) h)
       \<lparr>so_calls := so_calls h @ [StartServer sandbox_name env]\<rparr>"

section \<open>Exposing a sandbox\<close>

definition rstrip_slash :: "string \<Rightarrow> string" where
  "rstrip_slash s = rev (dropWhile (\<lambda>c. c = CHR ''/'') (rev s))"

definition proxy_endpoint :: "shell_config \<Rightarrow> string" where
  "proxy_endpoint cfg =
     (if sh_http_endpoint cfg \<noteq> [] then rstrip_slash (sh_http_endpoint cfg)
      else (if sh_tls_ca cfg \<noteq> [] then ''https'' else ''http'') @ ''://'' @ strip_scheme (sh_endpoint cfg))"

definition expose_service :: "shell_config \<Rightarrow> 'w gateway \<Rightarrow> string \<Rightarrow> nat \<Rightarrow> 'w shell_host \<Rightarrow> ('w, string \<times> string) shell_result" where
  "expose_service cfg gw sandbox_name port =
     with_channel cfg gw (\<lambda>h.
       and_then (gateway_do (\<lambda>_. ExposeService sandbox_name port) (gw_expose gw sandbox_name port) h) (\<lambda>url h.
       and_then (lift_res (url_hostname (gw_bracketed_ok gw) url) h) (\<lambda>host h.
         (Inr (proxy_endpoint cfg, case host of None \<Rightarrow> [] | Some n \<Rightarrow> n), h))))"

definition ingress_mismatch_streak_limit :: nat where
  "ingress_mismatch_streak_limit = 5"

definition ingress_mismatch :: "string \<Rightarrow> string \<Rightarrow> nat \<Rightarrow> pyexc" where
  "ingress_mismatch endpoint host n = RuntimeError (''Gateway returned a bare 404 (no body, no content-type) '' @ show_nat n
     @ '' times in a row for Host '' @ [sq] @ host @ [sq] @ '' at '' @ endpoint @ ''/health''
     @ ''. This matches the fingerprint of an ingress that doesn'' @ [sq] @ ''t support Host-header-based HTTP routing to sandbox ports on its main TLS port (see issue #209) -- the sandbox'' @ [sq] @ ''s app itself may be perfectly healthy. If this gateway exposes a separate HTTP ingress route for sandboxes, construct this spawner with http_endpoint=<that route'' @ [sq] @ ''s URL> instead.'')"

text \<open>
  The readiness poll, over the polls there would be without a limit, each with the time it starts at.
\<close>

fun poll_host :: "string \<Rightarrow> string \<Rightarrow> rat \<Rightarrow> nat \<Rightarrow> (rat \<times> health) list \<Rightarrow> bool res" where
  "poll_host endpoint host timeout streak [] = Ok False"
| "poll_host endpoint host timeout streak ((t, poll) # polls) =
     (if t \<ge> timeout then Ok False
      else case poll of
        HttpFailure \<Rightarrow> poll_host endpoint host timeout 0 polls
      | HealthResponse status content has_type \<Rightarrow>
          if status = 200 then Ok True
          else if status = 404 \<and> content = [] \<and> \<not> has_type
          then (if streak + 1 \<ge> ingress_mismatch_streak_limit then Err (ingress_mismatch endpoint host (streak + 1))
                else poll_host endpoint host timeout (streak + 1) polls)
          else poll_host endpoint host timeout 0 polls)"

definition wait_ready_with_host :: "'w gateway \<Rightarrow> string \<Rightarrow> string \<Rightarrow> 'w shell_host \<Rightarrow> ('w, bool) shell_result" where
  "wait_ready_with_host gw endpoint host h =
     and_then (gateway_do (\<lambda>_. HealthChecks endpoint host) (gw_polls gw endpoint host) h)
       (\<lambda>polls. lift_res (poll_host endpoint host (of_int sandbox_http_ready_timeout_seconds) 0 polls))"

definition get_sandbox_id :: "openshell \<Rightarrow> string \<Rightarrow> string option" where
  "get_sandbox_id s agent = map_of (os_sandbox_ids s) agent"

definition get_sandbox_headers :: "openshell \<Rightarrow> string \<Rightarrow> string dict" where
  "get_sandbox_headers s agent =
     (let host = env_or (os_virtual_hosts s) (env_or (os_sandbox_names s) agent []) [] in
        if host = [] then [] else [(''Host'', host)])"

section \<open>Spawning\<close>

record shell_request =
  sq_agent :: string
  sq_image :: string
  sq_env :: "string dict"
  sq_labels :: "string dict"
  sq_allowed_skills :: "string list option"
  sq_read_only :: bool
  sq_credential :: "string option"
  sq_mounts :: "(string \<times> string \<times> string) list"
  sq_lifetime :: "int option"

definition skills_of :: "shell_request \<Rightarrow> string list" where
  "skills_of rq = (case sq_allowed_skills rq of None \<Rightarrow> [] | Some names \<Rightarrow> names)"

abbreviation secrets_of :: "shell_request \<Rightarrow> string list" where
  "secrets_of rq \<equiv> secret_keys (sq_credential rq) (sq_mounts rq)"

definition spec_of :: "shell_config \<Rightarrow> 'w gateway \<Rightarrow> shell_request \<Rightarrow> string option \<Rightarrow> sandbox_spec res" where
  "spec_of cfg gw rq provider_id =
     build_spec (gw_json gw) (gw_bracketed_ok gw) cfg (sq_image rq) (sq_labels rq) (sq_env rq) (secrets_of rq) provider_id
       (sq_read_only rq) (sq_allowed_skills rq)"

text \<open>\<open>_create_and_start\<close> after the sandbox exists, and with its creation.\<close>

definition start_sandbox :: "shell_config \<Rightarrow> 'w gateway \<Rightarrow> shell_request \<Rightarrow> string \<Rightarrow> string \<Rightarrow> 'w shell_host \<Rightarrow> ('w, string) shell_result" where
  "start_sandbox cfg gw rq sandbox_name sandbox_id h =
     and_then (gateway_do (\<lambda>_. WaitReady sandbox_name) (gw_wait_ready gw sandbox_name) h) (\<lambda>_ h.
     and_then (if sq_mounts rq = [] then (Inr (), h) else inject_mcp_secrets gw (sq_agent rq) (sq_mounts rq) (sq_env rq) h) (\<lambda>_ h.
     and_then (if skills_of rq \<noteq> [] \<and> \<not> sq_read_only rq then materialize_allowed_skills gw sandbox_id (skills_of rq) h
               else (Inr (), h)) (\<lambda>_ h.
     and_then (expose_service cfg gw sandbox_name 8080
        (start_server sandbox_id (server_env cfg (secrets_of rq) (sq_env rq) (sq_read_only rq)) h)) (\<lambda>(endpoint, host) h.
     and_then (wait_ready_with_host gw endpoint host (in_state (os_virtual_hosts_update (dict_set sandbox_name host)) h)) (\<lambda>ready h.
       if ready then (Inr endpoint, h)
       else raised (RuntimeError (''Sandbox '' @ [sq] @ sandbox_name @ [sq] @ '' HTTP server did not become ready'')) h)))))"

definition create_and_start ::
  "shell_config \<Rightarrow> 'w gateway \<Rightarrow> shell_request \<Rightarrow> sandbox_spec \<Rightarrow> string dict \<Rightarrow> 'w shell_host
   \<Rightarrow> (sandbox_exc + string) \<times> string option \<times> 'w shell_host" where
  "create_and_start cfg gw rq spec labels h =
     (case gateway_do (\<lambda>r. CreateSandbox spec labels (created r)) (gw_create gw spec labels) h of
        (Inl e, h1) \<Rightarrow> (Inl e, None, h1)
      | (Inr (name, sid), h1) \<Rightarrow>
          (case start_sandbox cfg gw rq name sid
                  (in_state (\<lambda>s. s\<lparr>os_sandbox_names := dict_set (sq_agent rq) name (os_sandbox_names s),
                                  os_sandbox_ids := dict_set (sq_agent rq) sid (os_sandbox_ids s)\<rparr>) h1) of
             (r, h2) \<Rightarrow> (r, Some name, h2)))"

definition forget :: "string \<Rightarrow> string \<Rightarrow> openshell \<Rightarrow> openshell" where
  "forget agent sandbox_name s =
     s\<lparr>os_sandbox_names := dict_pop agent (os_sandbox_names s), os_sandbox_ids := dict_pop agent (os_sandbox_ids s),
       os_virtual_hosts := dict_pop sandbox_name (os_virtual_hosts s)\<rparr>"

definition cleanup_sandbox :: "shell_config \<Rightarrow> 'w gateway \<Rightarrow> string \<Rightarrow> string \<Rightarrow> 'w shell_host \<Rightarrow> ('w, unit) shell_result" where
  "cleanup_sandbox cfg gw agent sandbox_name h =
     (let provider_id = env_or (os_provider_ids (so_state h)) agent [];
          h = in_state (os_provider_ids_update (dict_pop agent)) h in
        and_then (if provider_id = [] then (Inr (), h) else best_effort (detach_provider cfg gw sandbox_name provider_id h)) (\<lambda>_ h.
        and_then (best_effort (delete_sandbox gw sandbox_name h)) (\<lambda>_ h. (Inr (), in_state (forget agent sandbox_name) h))))"

definition clean_up_spawn :: "shell_config \<Rightarrow> 'w gateway \<Rightarrow> string \<Rightarrow> string option \<Rightarrow> string option \<Rightarrow> 'w shell_host \<Rightarrow> ('w, unit) shell_result" where
  "clean_up_spawn cfg gw agent sandbox_name provider_id h =
     and_then (case sandbox_name of
                 None \<Rightarrow> (Inr (), in_state (os_provider_ids_update (dict_pop agent)) h)
               | Some name \<Rightarrow> best_effort (in_time gw (''Cleanup of sandbox '' @ name) (cleanup_sandbox cfg gw agent name h))) (\<lambda>_ h.
       case provider_id of
         None \<Rightarrow> (Inr (), h)
       | Some p \<Rightarrow> best_effort (in_time gw (''Deletion of provider '' @ p) (delete_provider cfg gw p h)))"

definition spawn_failure :: "'w gateway \<Rightarrow> string \<Rightarrow> sandbox_exc \<Rightarrow> 'w shell_host \<Rightarrow> sandbox_exc" where
  "spawn_failure gw agent e h =
     (if e = CancelledError \<and> gw_past_deadline gw (so_world h)
      then TimeoutError (''Spawning sandbox for agent '' @ [sq] @ agent @ [sq] @ '' exceeded its ''
             @ show_int sandbox_spawn_deadline_seconds @ ''s deadline'')
      else e)"

definition do_spawn :: "shell_config \<Rightarrow> 'w gateway \<Rightarrow> shell_request \<Rightarrow> 'w shell_host \<Rightarrow> ('w, string) shell_result" where
  "do_spawn cfg gw rq h =
     and_then (attach_credential cfg gw (sq_agent rq) (sq_env rq) (sq_credential rq) h) (\<lambda>provider_id h.
       let labels = spawn_labels cfg (sq_agent rq) (sq_labels rq) (sq_lifetime rq) (gw_clock gw (so_world h)) in
       and_then (lift_res (spec_of cfg gw rq provider_id) h) (\<lambda>spec h.
         case create_and_start cfg gw rq spec labels h of
           (Inr endpoint, _, h1) \<Rightarrow> (Inr endpoint, h1)
         | (Inl e, sandbox_name, h1) \<Rightarrow>
             and_then (clean_up_spawn cfg gw (sq_agent rq) sandbox_name provider_id h1) (\<lambda>_ h2.
               (Inl (spawn_failure gw (sq_agent rq) e h1), h2))))"

section \<open>Destroying and listing\<close>

definition detach_tracked :: "shell_config \<Rightarrow> 'w gateway \<Rightarrow> string \<Rightarrow> string \<Rightarrow> 'w shell_host \<Rightarrow> ('w, unit) shell_result" where
  "detach_tracked cfg gw agent sandbox_name h =
     (let provider_id = env_or (os_provider_ids (so_state h)) agent [] in
        if provider_id = [] then (Inr (), h)
        else case detach_provider cfg gw sandbox_name provider_id h of
          (Inl CancelledError, h1) \<Rightarrow> (Inl CancelledError, h1)
        | (Inl _, h1) \<Rightarrow> (Inr (), h1)
        | (Inr _, h1) \<Rightarrow> (Inr (), in_state (os_provider_ids_update (dict_pop agent)) h1))"

definition destroy_one :: "shell_config \<Rightarrow> 'w gateway \<Rightarrow> string \<Rightarrow> string \<Rightarrow> 'w shell_host \<Rightarrow> ('w, unit) shell_result" where
  "destroy_one cfg gw agent sandbox_name h =
     and_then (detach_tracked cfg gw agent sandbox_name
        (in_state (os_server_tasks_update (filter (\<lambda>t. t \<noteq> sandbox_name))) h)) (\<lambda>_ h.
       case delete_sandbox gw sandbox_name h of
         (Inl CancelledError, h1) \<Rightarrow> (Inl CancelledError, h1)
       | (Inl _, h1) \<Rightarrow> (Inr (), h1)
       | (Inr _, h1) \<Rightarrow> (Inr (), in_state (forget agent sandbox_name) h1))"

fun destroy_each :: "shell_config \<Rightarrow> 'w gateway \<Rightarrow> string \<Rightarrow> string list \<Rightarrow> 'w shell_host \<Rightarrow> ('w, unit) shell_result" where
  "destroy_each cfg gw agent [] h = (Inr (), h)"
| "destroy_each cfg gw agent (n # ns) h = and_then (destroy_one cfg gw agent n h) (\<lambda>_ h. destroy_each cfg gw agent ns h)"

definition do_destroy :: "shell_config \<Rightarrow> 'w gateway \<Rightarrow> string \<Rightarrow> 'w shell_host \<Rightarrow> ('w, unit) shell_result" where
  "do_destroy cfg gw agent h =
     (let tracked = env_or (os_sandbox_names (so_state h)) agent [];
          selector = agent_name_label_key @ ''='' @ agent in
        if tracked \<noteq> [] then destroy_each cfg gw agent [tracked] h
        else and_then (gateway_do (\<lambda>_. ListSandboxes (Some selector) None) (gw_list gw (Some selector) None) h) (\<lambda>refs h.
          destroy_each cfg gw agent (if refs = [] then [agent] else map ref_name refs) h))"

text \<open>\<open>destroy\<close> of the base class around it.\<close>

definition shell_destroy :: "shell_config \<Rightarrow> 'w gateway \<Rightarrow> string \<Rightarrow> 'w shell_host \<Rightarrow> ('w, unit) shell_result" where
  "shell_destroy cfg gw agent h =
     (case do_destroy cfg gw agent h of
        (answer, h1) \<Rightarrow> (case destroy_end answer (so_pool h1) of (r, p) \<Rightarrow> (r, h1\<lparr>so_pool := p\<rparr>)))"

definition list_page_size :: nat where
  "list_page_size = 1000"

definition label_selector :: "string dict \<Rightarrow> string option" where
  "label_selector labels =
     (let s = py_join '','' (map (\<lambda>(k, v). k @ ''='' @ v) labels) in if s = [] then None else Some s)"

text \<open>The pages of a listing: the loop ends with the first page that is not full.\<close>

partial_function (option) list_from ::
  "'w gateway \<Rightarrow> string option \<Rightarrow> nat \<Rightarrow> sandbox_ref list \<Rightarrow> 'w shell_host \<Rightarrow> ('w, sandbox_ref list) shell_result option" where
  "list_from gw sel offset refs h =
     (case gateway_do (\<lambda>_. ListSandboxes sel (Some (list_page_size, offset))) (gw_list gw sel (Some (list_page_size, offset))) h of
        (Inl e, h1) \<Rightarrow> Some (Inl e, h1)
      | (Inr page, h1) \<Rightarrow>
          if length page < list_page_size then Some (Inr (refs @ page), h1)
          else list_from gw sel (offset + list_page_size) (refs @ page) h1)"

definition list_refs :: "'w gateway \<Rightarrow> string dict \<Rightarrow> 'w shell_host \<Rightarrow> ('w, sandbox_ref list) shell_result option" where
  "list_refs gw labels h = list_from gw (label_selector labels) 0 [] h"

definition agent_of_ref :: "sandbox_ref \<Rightarrow> string" where
  "agent_of_ref ref = or_default (env_or (ref_labels ref) agent_name_label_key []) (ref_name ref)"

definition do_list_active :: "'w gateway \<Rightarrow> string dict \<Rightarrow> 'w shell_host \<Rightarrow> ('w, string list) shell_result option" where
  "do_list_active gw labels h =
     map_option (\<lambda>r. and_then r (\<lambda>refs h. (Inr (map agent_of_ref refs), h))) (list_refs gw labels h)"

definition openshell_list_sandbox_labels :: "'w gateway \<Rightarrow> string dict \<Rightarrow> 'w shell_host \<Rightarrow> ('w, (string \<times> string dict) list) shell_result option" where
  "openshell_list_sandbox_labels gw labels h =
     map_option (\<lambda>r. and_then r (\<lambda>refs h. (Inr (map (\<lambda>ref. (ref_name ref, ref_labels ref)) refs), h))) (list_refs gw labels h)"

definition openshell_destroy_sandbox :: "shell_config \<Rightarrow> 'w gateway \<Rightarrow> string \<Rightarrow> 'w shell_host \<Rightarrow> ('w, unit) shell_result" where
  "openshell_destroy_sandbox cfg gw sandbox_name h =
     (case find (\<lambda>(agent, name). name = sandbox_name) (os_sandbox_names (so_state h)) of
        Some (agent, _) \<Rightarrow> shell_destroy cfg gw agent h
      | None \<Rightarrow> delete_sandbox gw sandbox_name h)"

section \<open>Orphans at startup (executor/temporal/entrypoint.py)\<close>

text \<open>Whether a label says that the sandbox has expired; a label that is no number does not.\<close>

definition label_expired :: "rat \<Rightarrow> string dict \<Rightarrow> bool" where
  "label_expired now labels =
     (case map_of labels expires_at_label_key of
        None \<Rightarrow> False
      | Some text \<Rightarrow> (case py_int text of None \<Rightarrow> False | Some i \<Rightarrow> of_int i < now))"

fun destroy_orphans :: "shell_config \<Rightarrow> 'w gateway \<Rightarrow> string list \<Rightarrow> 'w shell_host \<Rightarrow> ('w, string list \<times> string list) shell_result" where
  "destroy_orphans cfg gw [] h = (Inr ([], []), h)"
| "destroy_orphans cfg gw (n # ns) h =
     (case openshell_destroy_sandbox cfg gw n h of
        (Inl CancelledError, h1) \<Rightarrow> (Inl CancelledError, h1)
      | (Inl _, h1) \<Rightarrow> and_then (destroy_orphans cfg gw ns h1) (\<lambda>(cleaned, failed) h. (Inr (cleaned, n # failed), h))
      | (Inr _, h1) \<Rightarrow> and_then (destroy_orphans cfg gw ns h1) (\<lambda>(cleaned, failed) h. (Inr (n # cleaned, failed), h)))"

definition orphan_audit :: "string list \<Rightarrow> string list \<Rightarrow> string list \<Rightarrow> audit_event list" where
  "orphan_audit orphans cleaned failed =
     (if orphans = [] then []
      else [\<lparr>au_type = ''orphan_cleanup'', au_workflow_id = ''startup'', au_step_name = [], au_actor = [],
             au_details = [(''count'', VInt (int (length cleaned))), (''failed'', VList (map VStr failed)),
               (''total_found'', VInt (int (length orphans)))]\<rparr>])"

definition reconcile_orphaned_sandboxes :: "shell_config \<Rightarrow> 'w gateway \<Rightarrow> rat \<Rightarrow> 'w shell_host \<Rightarrow> ('w, audit_event list) shell_result option" where
  "reconcile_orphaned_sandboxes cfg gw now h =
     map_option (\<lambda>r. and_then r (\<lambda>listed h.
       let orphans = map fst (filter (\<lambda>(name, labels). label_expired now labels) listed) in
         and_then (destroy_orphans cfg gw orphans h) (\<lambda>(cleaned, failed) h. (Inr (orphan_audit orphans cleaned failed), h))))
     (openshell_list_sandbox_labels gw spawned_by_label h)"

end
