(* ===== verification/OpenShellListing.thy ===== *)
theory OpenShellListing
  imports OpenShellRuns
begin

text \<open>
  The listing of the sandboxes page by page, and the reconciliation of orphans that is built on it: every
  sandbox of the gateway is seen, exactly the expired ones are deleted, and none that its attempt may still
  be using.
\<close>

section \<open>Pages\<close>

text \<open>The gateway answers a page of a listing with the sandboxes from its offset on, up to the limit.\<close>

definition pages_of :: "'w gateway \<Rightarrow> string option \<Rightarrow> sandbox_ref list \<Rightarrow> bool" where
  "pages_of gw sel all =
     (\<forall>limit offset w. fst (gw_list gw sel (Some (limit, offset)) w) = Inr (take limit (drop offset all)))"

definition page_calls :: "string option \<Rightarrow> nat \<Rightarrow> nat \<Rightarrow> gateway_call list" where
  "page_calls sel first n = map (\<lambda>i. ListSandboxes sel (Some (list_page_size, first + i * list_page_size))) [0..<n]"

lemma page_calls_Suc:
  "page_calls sel first (Suc n) = ListSandboxes sel (Some (list_page_size, first)) # page_calls sel (first + list_page_size) n"
  by (simp add: page_calls_def map_upt_Suc algebra_simps del: upt_Suc)

lemma page_call:
  assumes "pages_of gw sel all"
  obtains w where "gateway_do (\<lambda>_. ListSandboxes sel (Some (list_page_size, offset))) (gw_list gw sel (Some (list_page_size, offset))) h
    = (Inr (take list_page_size (drop offset all)),
       h\<lparr>so_calls := so_calls h @ [ListSandboxes sel (Some (list_page_size, offset))], so_world := w\<rparr>)"
proof -
  obtain r w where g: "gw_list gw sel (Some (list_page_size, offset)) (so_world h) = (r, w)"
    by (cases "gw_list gw sel (Some (list_page_size, offset)) (so_world h)")
  with assms have "r = Inr (take list_page_size (drop offset all))" unfolding pages_of_def by (metis fst_conv)
  with g show ?thesis by (intro that [of w]) (simp add: gateway_do_def)
qed

lemma list_from_complete:
  assumes "pages_of gw sel all"
  shows "\<exists>h'. list_from gw sel offset refs h = Some (Inr (refs @ drop offset all), h')
    \<and> so_calls h' = so_calls h @ page_calls sel offset ((length all - offset) div list_page_size + 1)
    \<and> so_state h' = so_state h"
proof (induction "length all - offset" arbitrary: offset refs h rule: less_induct)
  case less
  obtain w where g: "gateway_do (\<lambda>_. ListSandboxes sel (Some (list_page_size, offset))) (gw_list gw sel (Some (list_page_size, offset))) h
    = (Inr (take list_page_size (drop offset all)),
       h\<lparr>so_calls := so_calls h @ [ListSandboxes sel (Some (list_page_size, offset))], so_world := w\<rparr>)" (is "_ = (_, ?h)")
    using page_call [OF assms] .
  show ?case
  proof (cases "length all - offset < list_page_size")
    case True
    then show ?thesis
      by (subst list_from.simps) (simp add: g page_calls_def)
  next
    case False
    then have shorter: "length all - (offset + list_page_size) < length all - offset" by (simp add: list_page_size_def)
    have pages: "(length all - offset) div list_page_size = Suc ((length all - (offset + list_page_size)) div list_page_size)"
      using False by (simp add: le_div_geq list_page_size_def)
    from False have "length (take list_page_size (drop offset all)) = list_page_size" by simp
    then have step: "list_from gw sel offset refs h
        = list_from gw sel (offset + list_page_size) (refs @ take list_page_size (drop offset all)) ?h"
      by (subst list_from.simps) (simp add: g)
    have "take list_page_size (drop offset all) @ drop (offset + list_page_size) all = drop offset all"
      by (metis append_take_drop_id drop_drop add.commute)
    then show ?thesis
      using less [OF shorter, of "refs @ take list_page_size (drop offset all)" ?h]
      unfolding step pages by (auto simp: page_calls_Suc)
  qed
qed

text \<open>
  A listing is complete and ends. Against a gateway that pages as its limit and offset say, the loop ends
  after one call more than there are full pages, asking for the pages in order, and has every sandbox, in
  the order of the gateway, none twice.
\<close>

theorem listing_complete:
  assumes "pages_of gw (label_selector labels) all"
  shows "\<exists>h'. list_refs gw labels h = Some (Inr all, h')
    \<and> so_calls h' = so_calls h @ page_calls (label_selector labels) 0 (length all div list_page_size + 1)"
  using list_from_complete [OF assms, of 0 "[]" h] by (auto simp: list_refs_def)

lemma example_pages: "pages_of (example_gateway r refs) sel refs"
  by (simp add: pages_of_def example_gateway_def)

theorem listing_complete_witness:
  "\<exists>h'. list_refs (example_gateway (Inr ()) (replicate 2000 \<lparr>ref_name = ''s'', ref_labels = []\<rparr>)) [] example_host
     = Some (Inr (replicate 2000 \<lparr>ref_name = ''s'', ref_labels = []\<rparr>), h') \<and> length (so_calls h') = 3"
  using listing_complete [of "example_gateway (Inr ()) (replicate 2000 \<lparr>ref_name = ''s'', ref_labels = []\<rparr>)" "[]"
      "replicate 2000 \<lparr>ref_name = ''s'', ref_labels = []\<rparr>" example_host, OF example_pages]
  by (auto simp: page_calls_def example_host_def list_page_size_def)

section \<open>Orphans\<close>

definition expired_names :: "rat \<Rightarrow> sandbox_ref list \<Rightarrow> string list" where
  "expired_names now refs = map ref_name (filter (\<lambda>ref. label_expired now (ref_labels ref)) refs)"

lemma destroy_orphans_calls:
  assumes "uncut gw" "os_sandbox_names (so_state h) = []"
  shows "\<exists>cleaned failed h'. destroy_orphans cfg gw ns h = (Inr (cleaned, failed), h')
    \<and> mset (cleaned @ failed) = mset ns \<and> so_calls h' = so_calls h @ map DeleteSandbox ns"
  using assms(2)
proof (induction ns arbitrary: h)
  case (Cons n ns)
  obtain r w where d: "gw_delete gw n (so_world h) = (r, w)" by (cases "gw_delete gw n (so_world h)")
  then have r: "r \<noteq> Inl CancelledError" using assms(1) unfolding uncut_def by (metis fst_conv)
  let ?h = "h\<lparr>so_calls := so_calls h @ [DeleteSandbox n], so_world := w\<rparr>"
  have e: "openshell_destroy_sandbox cfg gw n h = (r, ?h)"
    using Cons.prems by (simp add: openshell_destroy_sandbox_def delete_sandbox_def gateway_do_def d)
  have "os_sandbox_names (so_state ?h) = []" using Cons.prems by simp
  from Cons.IH [OF this] obtain cleaned failed h' where i: "destroy_orphans cfg gw ns ?h = (Inr (cleaned, failed), h')"
    "mset (cleaned @ failed) = mset ns" "so_calls h' = so_calls ?h @ map DeleteSandbox ns" by blast
  show ?case
  proof (cases r)
    case (Inl x)
    with r have "destroy_orphans cfg gw (n # ns) h = (Inr (cleaned, n # failed), h')"
      by (cases x) (simp_all add: e i(1))
    with i show ?thesis by simp
  next
    case (Inr u)
    then have "destroy_orphans cfg gw (n # ns) h = (Inr (n # cleaned, failed), h')" by (simp add: e i(1))
    with i show ?thesis by simp
  qed
qed simp

lemma reconcile_effect:
  assumes "pages_of gw (label_selector spawned_by_label) all" "uncut gw" "os_sandbox_names (so_state h) = []"
  shows "\<exists>cleaned failed h'. reconcile_orphaned_sandboxes cfg gw now h
       = Some (Inr (orphan_audit (expired_names now all) cleaned failed), h')
     \<and> mset (cleaned @ failed) = mset (expired_names now all)
     \<and> so_calls h' = so_calls h @ page_calls (label_selector spawned_by_label) 0 (length all div list_page_size + 1)
          @ map DeleteSandbox (expired_names now all)"
proof -
  obtain h1 where l: "list_refs gw spawned_by_label h = Some (Inr all, h1)" and s: "so_state h1 = so_state h"
    and c: "so_calls h1 = so_calls h @ page_calls (label_selector spawned_by_label) 0 (length all div list_page_size + 1)"
    using list_from_complete [OF assms(1), of 0 "[]" h] by (auto simp: list_refs_def)
  have names: "map fst (filter (\<lambda>(name, labels). label_expired now labels) (map (\<lambda>ref. (ref_name ref, ref_labels ref)) all))
      = expired_names now all"
    by (induction all) (simp_all add: expired_names_def)
  have "os_sandbox_names (so_state h1) = []" using assms(3) s by simp
  from destroy_orphans_calls [OF assms(2) this, of cfg "expired_names now all"]
  obtain cleaned failed h2 where d: "destroy_orphans cfg gw (expired_names now all) h1 = (Inr (cleaned, failed), h2)"
    "mset (cleaned @ failed) = mset (expired_names now all)" "so_calls h2 = so_calls h1 @ map DeleteSandbox (expired_names now all)"
    by blast
  have "reconcile_orphaned_sandboxes cfg gw now h = Some (Inr (orphan_audit (expired_names now all) cleaned failed), h2)"
    by (simp add: reconcile_orphaned_sandboxes_def openshell_list_sandbox_labels_def l names d(1))
  with d c show ?thesis by auto
qed

text \<open>
  C26. The reconciliation at startup is exact. It ends, whatever the number of pages and whichever deletions
  fail: it deletes every listed sandbox whose label says that it has expired, in the order of the
  listing, and nothing else; every one is reported as cleaned or as failed, and its only other calls are those
  of the listing.
\<close>

theorem reconcile_exact:
  assumes "pages_of gw (label_selector spawned_by_label) all" "uncut gw" "os_sandbox_names (so_state h) = []"
  shows "\<exists>cleaned failed h'. reconcile_orphaned_sandboxes cfg gw now h
       = Some (Inr (orphan_audit (expired_names now all) cleaned failed), h')
     \<and> mset (cleaned @ failed) = mset (expired_names now all)
     \<and> so_calls h' = so_calls h @ page_calls (label_selector spawned_by_label) 0 (length all div list_page_size + 1)
          @ map DeleteSandbox (expired_names now all)"
  by (rule reconcile_effect [OF assms])

definition example_refs :: "sandbox_ref list" where
  "example_refs =
     [\<lparr>ref_name = ''old'', ref_labels = [(expires_at_label_key, ''7'')]\<rparr>, \<lparr>ref_name = ''cli'', ref_labels = []\<rparr>,
      \<lparr>ref_name = ''odd'', ref_labels = [(expires_at_label_key, ''soon'')]\<rparr>]"

theorem reconcile_exact_witness:
  "\<exists>events h'. reconcile_orphaned_sandboxes example_config (example_gateway (Inr ()) example_refs) 8 example_host = Some (Inr events, h')
     \<and> so_calls h' = [ListSandboxes (label_selector spawned_by_label) (Some (list_page_size, 0)), DeleteSandbox ''old'']"
proof -
  have "expired_names 8 example_refs = [''old'']" by code_simp
  moreover have "length example_refs div list_page_size + 1 = 1" by (simp add: example_refs_def list_page_size_def)
  moreover have "os_sandbox_names (so_state example_host) = []" "so_calls example_host = []" by (simp_all add: example_host_def)
  ultimately show ?thesis
    using reconcile_exact [of "example_gateway (Inr ()) example_refs" example_refs example_host example_config 8, OF example_pages example_uncut]
    by (auto simp: page_calls_def)
qed

section \<open>Sandboxes in use\<close>

lemma py_int_show_int: "0 \<le> i \<Longrightarrow> py_int (show_int i) = Some i"
  by (simp add: show_int_def)

text \<open>The label of a sandbox does not say that it has expired while an attempt may still be using it.\<close>

lemma not_expired_in_use:
  assumes "run_timeout_seconds float_of step = Ok run" "0 \<le> run" "step_sandbox_lifetime_seconds float_of step = Ok lifetime"
    and "0 \<le> sh_expiry_skew_seconds cfg" "0 \<le> stamped_at"
    and "now \<le> stamped_at + sandbox_use run p + of_int sandbox_destroy_grace_seconds"
  shows "\<not> label_expired now (spawn_labels cfg agent labels (Some lifetime) stamped_at)"
proof -
  let ?e = "expires_at stamped_at lifetime (sh_min_lifetime_seconds cfg) (sh_expiry_skew_seconds cfg)"
  have bound: "now \<le> of_int ?e"
    using sandbox_outlives_use [OF assms(1-4), of stamped_at p "sh_min_lifetime_seconds cfg"] assms(6) by linarith
  have "lifetime = 420 + \<lceil>run\<rceil> + 30 + 30 + 25 + 120"
    using assms(1,3) by (simp add: step_sandbox_lifetime_seconds_def deadline_defs)
  with assms(2,5) have "0 \<le> lifetime" "0 \<le> \<lceil>stamped_at\<rceil>" by simp_all
  with assms(4) have "0 \<le> ?e" by (simp add: expires_at_def)
  with bound show ?thesis by (simp add: label_expired_def labels_are_own py_int_show_int)
qed

text \<open>
  C25. No sandbox is deleted under an attempt that uses it. Another runner that starts while the attempt runs lists
  the sandbox too, page by page, reads the time in its label and lets it be, until the attempt is over, with
  every phase at the end of its deadlines, and its time to destroy the sandbox as well.
\<close>

theorem reconcile_spares_used:
  assumes "run_timeout_seconds float_of step = Ok run" "0 \<le> run" "step_sandbox_lifetime_seconds float_of step = Ok lifetime"
    and "0 \<le> sh_expiry_skew_seconds cfg" "0 \<le> stamped_at"
    and "now \<le> stamped_at + sandbox_use run p + of_int sandbox_destroy_grace_seconds"
    and "ref \<in> set all" "distinct (map ref_name all)" "ref_labels ref = spawn_labels cfg agent labels (Some lifetime) stamped_at"
    and "pages_of gw (label_selector spawned_by_label) all" "uncut gw" "os_sandbox_names (so_state h) = []"
  shows "\<exists>events calls h'. reconcile_orphaned_sandboxes cfg' gw now h = Some (Inr events, h')
    \<and> so_calls h' = so_calls h @ calls \<and> DeleteSandbox (ref_name ref) \<notin> set calls"
proof -
  have "\<not> label_expired now (ref_labels ref)"
    unfolding assms(9) by (rule not_expired_in_use [OF assms(1-6)])
  then have "ref_name ref \<notin> set (expired_names now all)"
    using assms(7,8) by (auto simp: expired_names_def distinct_map dest: inj_onD)
  then have "DeleteSandbox (ref_name ref) \<notin> set (page_calls sel 0 n @ map DeleteSandbox (expired_names now all))" for sel n
    by (auto simp: page_calls_def)
  with reconcile_effect [OF assms(10-12), of cfg' now] show ?thesis by blast
qed

theorem reconcile_spares_used_witness:
  "\<exists>events h'. reconcile_orphaned_sandboxes example_config
       (example_gateway (Inr ()) [\<lparr>ref_name = ''s1'', ref_labels = spawn_labels example_config ''fix'' [] (Some 715) 1000\<rparr>]) 1500 example_host
     = Some (Inr events, h') \<and> DeleteSandbox ''s1'' \<notin> set (so_calls h')"
proof -
  let ?ref = "\<lparr>ref_name = ''s1'', ref_labels = spawn_labels example_config ''fix'' [] (Some 715) 1000\<rparr>"
  let ?p = "\<lparr>ph_spawn = \<lparr>tk_ends = None, tk_stops = None\<rparr>, ph_run = \<lparr>tk_ends = None, tk_stops = None\<rparr>,
      ph_progress = None, ph_fetch = \<lparr>tk_ends = None, tk_stops = None\<rparr>, ph_save = None\<rparr>"
  have p: "1500 \<le> 1000 + sandbox_use 90 ?p + of_int sandbox_destroy_grace_seconds"
    by (simp add: sandbox_use_def deadline_defs await_within_def progress_time_def save_time_def cancel_within_def)
  have step: "run_timeout_seconds (\<lambda>_. None) [(''permissions'', VDict [(''timeout_seconds'', VInt 90)])] = Ok 90"
    "step_sandbox_lifetime_seconds (\<lambda>_. None) [(''permissions'', VDict [(''timeout_seconds'', VInt 90)])] = Ok 715"
    by (simp_all add: run_timeout_seconds_def step_sandbox_lifetime_seconds_def permissions_of_def py_float_def
        dget_def dget_or_def deadline_defs)
  obtain events calls h' where "reconcile_orphaned_sandboxes example_config (example_gateway (Inr ()) [?ref]) 1500 example_host
      = Some (Inr events, h')" "so_calls h' = so_calls example_host @ calls" "DeleteSandbox ''s1'' \<notin> set calls"
    using reconcile_spares_used [OF step(1) _ step(2) _ _ p, of example_config ?ref "[?ref]" "''fix''" "[]"
        "example_gateway (Inr ()) [?ref]" example_host example_config, OF _ _ _ _ _ _ example_pages example_uncut]
    by (auto simp: example_config_def example_host_def)
  then show ?thesis by (auto simp: example_host_def)
qed

end
