(* ===== verification/Escalation.thy ===== *)
theory Escalation
  imports Submission
begin

text \<open>
  Notifications and escalations (\<open>workflow/notifiers/\<close>, the two activities that use them in
  \<open>executor/temporal/activities.py\<close>) and the handoff endpoint of \<open>executor/temporal/api.py\<close>. Delivery is best
  effort: what goes out is recorded as a list of deliveries, and whether it arrives does not matter, since
  the code catches every exception of a delivery. YAML, the clock and the stores are arguments.
\<close>

section \<open>Texts\<close>

definition lines_of :: "string list \<Rightarrow> string" where
  "lines_of = py_join [newline]"

definition py_rstrip :: "string \<Rightarrow> string" where
  "py_rstrip s = rev (dropWhile py_space (rev s))"

text \<open>\<open>json.dumps(v, indent=2)\<close>: the indentation is that of the enclosing value.\<close>

definition line_break :: "nat \<Rightarrow> string" where
  "line_break n = newline # replicate n CHR '' ''"

fun json_indented :: "nat \<Rightarrow> pyval \<Rightarrow> string" where
  "json_indented n (VList xs) =
     (if xs = [] then ''[]''
      else ''['' @ line_break (n + 2) @ py_join ('','' @ line_break (n + 2)) (map (json_indented (n + 2)) xs) @ line_break n @ '']'')"
| "json_indented n (VDict d) =
     (if d = [] then ''{}''
      else ''{'' @ line_break (n + 2)
        @ py_join ('','' @ line_break (n + 2)) (map (\<lambda>(k, v). json_str k @ '': '' @ json_indented (n + 2) v) d) @ line_break n @ ''}'')"
| "json_indented n v = json_dumps v"

text \<open>\<open>_normalize_config_ref\<close>.\<close>

definition ref_char :: "char \<Rightarrow> char" where
  "ref_char c =
     (let n = code_of c in
        if (48 \<le> n \<and> n \<le> 57) \<or> (65 \<le> n \<and> n \<le> 90) \<or> (97 \<le> n \<and> n \<le> 122) then upper_char c else CHR ''_'')"

definition normalize_config_ref :: "pyval \<Rightarrow> string res" where
  "normalize_config_ref ref =
     (case ref of VStr s \<Rightarrow> Ok (map ref_char s) | _ \<Rightarrow> Err (TypeError ''expected string or bytes-like object''))"

definition env_value :: "string dict \<Rightarrow> string \<Rightarrow> string \<Rightarrow> string" where
  "env_value env key absent = (case map_of env key of None \<Rightarrow> absent | Some v \<Rightarrow> v)"

text \<open>\<open>config or {}\<close>, then a method of dictionaries on it.\<close>

definition config_of :: "pyval \<Rightarrow> pydict res" where
  "config_of v = (if truthy v then as_dict v else Ok [])"

section \<open>Deliveries\<close>

datatype delivery =
    LogLine string
  | HttpPost string pyval "string dict"
  | WriteFile string string
  | LaunchSession string string string string

datatype notifier =
    NullNotifier
  | SlackNotifier string "string option"
  | WebhookNotifier string

definition slack_payload :: "pyval \<Rightarrow> pyval \<Rightarrow> string \<Rightarrow> string \<Rightarrow> string option \<Rightarrow> pyval" where
  "slack_payload workflow_id step_name message approve_url channel =
     VDict ([(''text'', VStr (''Workflow approval required: '' @ message)),
       (''blocks'', VList [VDict [(''type'', VStr ''section''),
          (''text'', VDict [(''type'', VStr ''mrkdwn''),
             (''text'', VStr (lines_of [''*Workflow Approval Required*'', ''Step: `'' @ py_str step_name @ ''`'', ''Message: '' @ message,
                ''Workflow ID: `'' @ py_str workflow_id @ ''`'', ''Approve: `POST '' @ approve_url @ ''`'']))])]])]
       @ (case channel of None \<Rightarrow> [] | Some c \<Rightarrow> if c = [] then [] else [(''channel'', VStr c)]))"

definition notify :: "notifier \<Rightarrow> pyval \<Rightarrow> pyval \<Rightarrow> string \<Rightarrow> string \<Rightarrow> delivery list" where
  "notify n workflow_id step_name message approve_url =
     (case n of
        NullNotifier \<Rightarrow> []
      | SlackNotifier url channel \<Rightarrow> [HttpPost url (slack_payload workflow_id step_name message approve_url channel) []]
      | WebhookNotifier url \<Rightarrow>
          [HttpPost url (VDict [(''event'', VStr ''approval_required''), (''workflow_id'', workflow_id), (''step_name'', step_name),
             (''message'', VStr message), (''approve_url'', VStr approve_url)]) []])"

definition notifier_of :: "string dict \<Rightarrow> pyval \<Rightarrow> notifier res" where
  "notifier_of env v =
     then_do (config_of v) (\<lambda>config.
       let ref = normalize_config_ref (dget_or config ''config_ref'' (VStr ''DEFAULT'')); kind = dget_or config ''type'' (VStr ''null'') in
         if kind = VStr ''slack'' then then_do ref (\<lambda>r. Ok (SlackNotifier (env_value env (''NOTIFIER_SLACK_'' @ r @ ''_WEBHOOK_URL'') []) None))
         else if kind = VStr ''webhook'' then then_do ref (\<lambda>r. Ok (WebhookNotifier (env_value env (''NOTIFIER_WEBHOOK_'' @ r @ ''_URL'') [])))
         else Ok NullNotifier)"

definition notification_status :: "string \<Rightarrow> string \<Rightarrow> pydict" where
  "notification_status s correlation_id = [(''status'', VStr s), (''correlation_id'', VStr correlation_id)]"

text \<open>\<open>send_approval_notification\<close>: the two required entries are read outside the handler.\<close>

definition send_approval_notification :: "string dict \<Rightarrow> pydict \<Rightarrow> (pydict \<times> delivery list) res" where
  "send_approval_notification env input =
     then_do (item_at input ''workflow_id'') (\<lambda>workflow_id.
     then_do (item_at input ''step_name'') (\<lambda>step_name.
       let correlation_id = py_str workflow_id @ '':'' @ py_str step_name;
           message = ''['' @ correlation_id @ ''] '' @ py_str (dget_or input ''message'' (VStr [])) in
         Ok (case notifier_of env (dget input ''notifier_config'') of
               Inl _ \<Rightarrow> (notification_status ''notification_failed'' correlation_id, [])
             | Inr n \<Rightarrow> (notification_status ''notification_sent'' correlation_id,
                 notify n workflow_id step_name message (''/v1/workflows/'' @ py_str workflow_id @ ''/approve'')))))"

section \<open>Escalation packages\<close>

record escalation_package =
  ep_workflow_name :: string
  ep_step_name :: string
  ep_correlation_id :: pyval
  ep_timestamp :: string
  ep_escalation :: pydict
  ep_workflow_snapshot :: pydict
  ep_definition :: pyval
  ep_input_prompt :: pyval
  ep_events :: pyval
  ep_provider_name :: pyval
  ep_workflow_id :: pyval
  ep_step_transcripts :: pyval

definition EscalationPackageModel :: ptype where
  "EscalationPackageModel = PModel False
     [(''workflow_name'', PStr 0, None), (''step_name'', PStr 0, None), (''correlation_id'', POpt (PStr 0), Some VNone),
      (''timestamp'', PStr 0, None), (''escalation'', PMap PAny, None), (''workflow_snapshot'', PMap PAny, None),
      (''definition'', POpt (PMap PAny), Some VNone), (''input_prompt'', POpt (PStr 0), Some VNone),
      (''events'', POpt (PList (PMap PAny)), Some VNone), (''provider_name'', POpt (PStr 0), Some VNone),
      (''workflow_id'', POpt (PStr 0), Some VNone), (''step_transcripts'', POpt (PMap PAny), Some VNone)]"

definition package_of :: "pydict \<Rightarrow> escalation_package" where
  "package_of d =
     \<lparr>ep_workflow_name = text_of (dget d ''workflow_name''), ep_step_name = text_of (dget d ''step_name''),
      ep_correlation_id = dget d ''correlation_id'', ep_timestamp = text_of (dget d ''timestamp''),
      ep_escalation = dict_of (dget d ''escalation''), ep_workflow_snapshot = dict_of (dget d ''workflow_snapshot''),
      ep_definition = dget d ''definition'', ep_input_prompt = dget d ''input_prompt'', ep_events = dget d ''events'',
      ep_provider_name = dget d ''provider_name'', ep_workflow_id = dget d ''workflow_id'',
      ep_step_transcripts = dget d ''step_transcripts''\<rparr>"

definition make_package :: "(ptype \<Rightarrow> pyval \<Rightarrow> pyval res) \<Rightarrow> pydict \<Rightarrow> escalation_package res" where
  "make_package validate d =
     then_do (validate EscalationPackageModel (VDict d)) (\<lambda>v. then_do (as_dict v) (\<lambda>d. Ok (package_of d)))"

definition package_value :: "escalation_package \<Rightarrow> pyval" where
  "package_value p =
     VDict [(''workflow_name'', VStr (ep_workflow_name p)), (''step_name'', VStr (ep_step_name p)),
       (''correlation_id'', ep_correlation_id p), (''timestamp'', VStr (ep_timestamp p)), (''escalation'', VDict (ep_escalation p)),
       (''workflow_snapshot'', VDict (ep_workflow_snapshot p)), (''definition'', ep_definition p), (''input_prompt'', ep_input_prompt p),
       (''events'', ep_events p), (''provider_name'', ep_provider_name p), (''workflow_id'', ep_workflow_id p),
       (''step_transcripts'', ep_step_transcripts p)]"

section \<open>The handoff document\<close>

definition present :: "string \<Rightarrow> pyval \<Rightarrow> (pyval \<Rightarrow> string) \<Rightarrow> string list" where
  "present label v f = (if truthy v then [label @ f v] else [])"

definition step_section :: "string \<times> pyval \<Rightarrow> string list" where
  "step_section step =
     (case step of
        (key, VDict d) \<Rightarrow>
          [''### '' @ key @ '' -- '' @ py_str (dget_or d ''status'' (VStr ''unknown''))]
          @ present ''**Output**: '' (dget d ''output'') (json_indented 0) @ present ''**Error**: '' (dget d ''error'') py_str @ [[]]
      | _ \<Rightarrow> [])"

definition timeline_line :: "pyval \<Rightarrow> string" where
  "timeline_line event =
     (let text = (\<lambda>k. py_str (dget_or (dict_of event) k (VStr []))) in
        ''- '' @ text ''timestamp'' @ '' -- '' @ text ''type'' @ '' / '' @ text ''step'')"

text \<open>\<open>xs[-1]\<close>, and the items of an iteration.\<close>

fun last_item :: "pyval \<Rightarrow> pyval res" where
  "last_item (VList xs) = (if xs = [] then Err (ValueError ''list index out of range'') else Ok (last xs))"
| "last_item (VStr s) = (if s = [] then Err (ValueError ''string index out of range'') else Ok (VStr [last s]))"
| "last_item (VDict d) = Err (KeyError ''-1'')"
| "last_item _ = Err (TypeError ''object is not subscriptable'')"

fun iterated :: "pyval \<Rightarrow> pyval list res" where
  "iterated (VList xs) = Ok xs"
| "iterated (VStr s) = Ok (map (\<lambda>c. VStr [c]) s)"
| "iterated (VDict d) = Ok (map (\<lambda>(k, v). VStr k) d)"
| "iterated _ = Err (TypeError ''object is not iterable'')"

text \<open>\<open>text[:200]\<close> in an f-string.\<close>

fun first_200 :: "pyval \<Rightarrow> string res" where
  "first_200 (VStr s) = Ok (take 200 s)"
| "first_200 (VList xs) = Ok (py_str (VList (take 200 xs)))"
| "first_200 (VDict d) = Err (KeyError ''slice(None, 200, None)'')"
| "first_200 _ = Err (TypeError ''object is not subscriptable'')"

definition last_error :: "pydict \<Rightarrow> string list res" where
  "last_error escalation =
     (let history = dget escalation ''failure_history'' in
        if truthy history
        then then_do (last_item history) (\<lambda>v. then_do (as_dict v) (\<lambda>d. Ok [''Last error: '' @ py_str (dget_or d ''error'' (VStr ''unknown''))]))
        else Ok [])"

text \<open>A line about one event of a transcript; results have none.\<close>

definition tool_line :: "string \<Rightarrow> pydict \<Rightarrow> string" where
  "tool_line ts data =
     (let duration = dget data ''duration_ms''; input_val = dget_or data ''input'' (VStr []) in
        ''- ['' @ ts @ ''] **'' @ py_str (dget_or data ''name'' (VStr ''unknown'')) @ ''**''
        @ (if truthy duration then '' ('' @ py_str duration @ ''ms)'' else []) @ '': ''
        @ (if truthy input_val then take 100 (py_str input_val) else []))"

definition event_entry :: "pyval \<Rightarrow> string list res" where
  "event_entry event =
     then_do (as_dict event) (\<lambda>e.
       let kind = dget_or e ''type'' (VStr ''unknown''); data = dget_or e ''data'' (VDict []);
           ts = py_str (dget_or e ''ts'' (VStr [])) in
         if kind = VStr ''tool_call'' \<or> kind = VStr ''tool_result'' then then_do (as_dict data) (\<lambda>d. Ok [tool_line ts d])
         else if kind = VStr ''error''
         then then_do (as_dict data) (\<lambda>d. Ok [''- ['' @ ts @ ''] ERROR: '' @ py_str (dget_or d ''message'' (VStr ''unknown error''))])
         else if kind = VStr ''thinking''
         then then_do (as_dict data) (\<lambda>d. then_do (first_200 (dget_or d ''text'' (VStr []))) (\<lambda>t. Ok [''- ['' @ ts @ ''] Thinking: '' @ t]))
         else Ok [])"

definition reasoning_section :: "pydict \<Rightarrow> string \<times> pyval \<Rightarrow> string list res" where
  "reasoning_section transcripts step =
     (case step of
        (key, VDict d) \<Rightarrow>
          if dget d ''status'' \<noteq> VStr ''failed'' \<or> \<not> truthy (dget transcripts key) then Ok []
          else then_do (as_dict (dget transcripts key)) (\<lambda>transcript.
            let events = dget transcript ''events'' in
              if \<not> truthy events then Ok []
              else then_do (iterated events) (\<lambda>es. then_do (map_res event_entry es) (\<lambda>ls.
                Ok ([[], ''### Agent reasoning for '' @ key] @ concat ls))))
      | _ \<Rightarrow> Ok [])"

definition run_id :: "escalation_package \<Rightarrow> string" where
  "run_id p = (if truthy (ep_workflow_id p) then text_of (ep_workflow_id p) else ep_workflow_name p)"

definition launch_command :: "string \<Rightarrow> string \<Rightarrow> string" where
  "launch_command name wf_id =
     ''claude -p '' @ [dq] @ ''Continue this investigation. The workflow '' @ quoted name @ '' (ID: '' @ wf_id
     @ '') needs attention. Read the context above for details.'' @ [dq]"

definition handoff_opening :: "(pydict \<Rightarrow> string) \<Rightarrow> escalation_package \<Rightarrow> string list" where
  "handoff_opening yaml p =
     [''# Investigation Handoff: '' @ ep_workflow_name p, [], ''## What happened'',
      if truthy (ep_input_prompt p) then text_of (ep_input_prompt p) else ''No input prompt provided.'', []]
     @ (if truthy (ep_definition p)
        then [''## Workflow definition'', ''```yaml'', py_rstrip (yaml (dict_of (ep_definition p))), ''```'', []] else [])"

definition handoff_timeline :: "escalation_package \<Rightarrow> string list" where
  "handoff_timeline p =
     (if truthy (ep_events p) then [''## Event timeline''] @ map timeline_line (list_of (ep_events p)) @ [[]] else [])"

definition handoff_closing :: "escalation_package \<Rightarrow> string list" where
  "handoff_closing p =
     [[]] @ (if truthy (ep_provider_name p) then [''## Provider'', ''Provider: '' @ text_of (ep_provider_name p), []] else [])
     @ [''## Suggested next steps'', ''1. Investigate the root cause of the '' @ quoted (ep_step_name p) @ '' failure'']
     @ (if truthy (ep_provider_name p)
        then [''2. Check the provider ('' @ text_of (ep_provider_name p) @ '') for availability issues''] else [])
     @ [[], ''## CLI launch command'', ''```bash'', launch_command (ep_workflow_name p) (run_id p), ''```'']"

definition handoff_lines :: "(pydict \<Rightarrow> string) \<Rightarrow> escalation_package \<Rightarrow> string list res" where
  "handoff_lines yaml p =
     then_do (last_error (ep_escalation p)) (\<lambda>err.
     then_do (if truthy (ep_step_transcripts p)
              then map_res (reasoning_section (dict_of (ep_step_transcripts p))) (ep_workflow_snapshot p) else Ok []) (\<lambda>reasoning.
       Ok (handoff_opening yaml p @ [''## Step results''] @ concat (map step_section (ep_workflow_snapshot p)) @ handoff_timeline p
         @ [''## What failed'', ''Step '' @ quoted (ep_step_name p) @ '' failed.''] @ err @ concat reasoning @ handoff_closing p)))"

definition serialize_handoff_context :: "(pydict \<Rightarrow> string) \<Rightarrow> escalation_package \<Rightarrow> string res" where
  "serialize_handoff_context yaml p = then_do (handoff_lines yaml p) (\<lambda>ls. Ok (lines_of ls))"

section \<open>Packagers\<close>

datatype packager =
    LogPackager
  | WebhookPackager string
  | JiraPackager string string
  | CLIHandoffPackager string

text \<open>
  What delivering needs of the surroundings: the environment, \<open>yaml.dump\<close>, and whether a file can be
  written. The launcher is there only if the packager was built with one.
\<close>

record outlet =
  ol_environ :: "string dict"
  ol_yaml :: "pydict \<Rightarrow> string"
  ol_writable :: "string \<Rightarrow> bool"
  ol_launcher :: bool
  ol_auto_launch :: "bool option"
  ol_sandbox_image :: string

definition should_auto_launch :: "outlet \<Rightarrow> bool" where
  "should_auto_launch ol =
     (case ol_auto_launch ol of
        Some b \<Rightarrow> b
      | None \<Rightarrow> py_lower (env_value (ol_environ ol) ''CLI_HANDOFF_AUTO_LAUNCH'' []) = ''true'')"

text \<open>\<open>Path(dir) / name\<close>; the directory is not the root.\<close>

definition handoff_file :: "string \<Rightarrow> string \<Rightarrow> string" where
  "handoff_file output_dir wf_id = output_dir @ ''/handoff-'' @ wf_id @ ''.md''"

definition cli_handoff :: "outlet \<Rightarrow> string \<Rightarrow> escalation_package \<Rightarrow> delivery list" where
  "cli_handoff ol output_dir p =
     (case serialize_handoff_context (ol_yaml ol) p of
        Inl _ \<Rightarrow> []
      | Inr context_md \<Rightarrow>
          let file = handoff_file output_dir (run_id p) in
            WriteFile file context_md #
            (if ol_writable ol file \<and> ol_launcher ol \<and> should_auto_launch ol
             then [LaunchSession context_md
                     (''Continue this investigation. The workflow '' @ quoted (ep_workflow_name p) @ '' (ID: '' @ run_id p
                      @ '') needs attention. Read the context above for details.'')
                     (ol_sandbox_image ol) (run_id p)]
             else []))"

definition jira_issue :: "string \<Rightarrow> escalation_package \<Rightarrow> pyval" where
  "jira_issue project_key p =
     VDict [(''fields'', VDict [(''project'', VDict [(''key'', VStr project_key)]),
       (''summary'', VStr (''Escalation: '' @ ep_workflow_name p @ '' / '' @ ep_step_name p)),
       (''description'', VStr (json_indented 0 (package_value p))), (''issuetype'', VDict [(''name'', VStr ''Bug'')])])]"

definition package :: "outlet \<Rightarrow> packager \<Rightarrow> escalation_package \<Rightarrow> delivery list" where
  "package ol k p =
     (case k of
        LogPackager \<Rightarrow> [LogLine (''ESCALATION: '' @ json_indented 0 (package_value p))]
      | WebhookPackager url \<Rightarrow> [HttpPost url (package_value p) []]
      | JiraPackager url project_key \<Rightarrow>
          let token = env_value (ol_environ ol) ''JIRA_API_TOKEN'' [] in
            [HttpPost (url @ ''/rest/api/2/issue'') (jira_issue project_key p)
               (if token = [] then [] else [(''Authorization'', ''Bearer '' @ token)])]
      | CLIHandoffPackager output_dir \<Rightarrow> cli_handoff ol output_dir p)"

section \<open>The escalation activity\<close>

definition failed_step :: "string \<times> pyval \<Rightarrow> pyval list res" where
  "failed_step step =
     then_do (as_dict (snd step)) (\<lambda>d.
       Ok (if dget d ''status'' = VStr ''failed''
           then [VDict [(''step'', VStr (fst step)), (''error'', dget_or d ''error'' (VStr ''unknown''))]] else []))"

definition escalated_steps :: "pydict \<Rightarrow> pyval list res" where
  "escalated_steps steps = then_do (map_res failed_step steps) (\<lambda>xs. Ok (concat xs))"

definition handoff_output :: "pydict \<Rightarrow> pyval list \<Rightarrow> pydict" where
  "handoff_output steps failed =
     [(''type'', VStr ''escalation_handoff''), (''failed_steps'', VList failed), (''total_steps'', VInt (int (length steps)))]"

definition packager_of :: "string dict \<Rightarrow> pyval \<Rightarrow> (packager \<times> pyval) res" where
  "packager_of env config =
     then_do (config_of config) (\<lambda>c.
       let kind = dget_or c ''type'' (VStr ''log''); ref = normalize_config_ref (dget_or c ''config_ref'' (VStr ''DEFAULT'')) in
         if kind = VStr ''webhook''
         then then_do ref (\<lambda>r. Ok (WebhookPackager (env_value env (''ESCALATION_WEBHOOK_'' @ r @ ''_URL'') []), kind))
         else if kind = VStr ''jira''
         then then_do ref (\<lambda>r. Ok (JiraPackager (env_value env (''ESCALATION_JIRA_'' @ r @ ''_URL'') [])
                (env_value env (''ESCALATION_JIRA_'' @ r @ ''_PROJECT_KEY'') []), kind))
         else if kind = VStr ''cli_handoff''
         then then_do ref (\<lambda>r. Ok (CLIHandoffPackager (env_value env (''ESCALATION_CLI_HANDOFF_'' @ r @ ''_DIR'') ''/tmp/cloud-agents-handoff''), kind))
         else Ok (LogPackager, kind))"

text \<open>Transcripts from the store; one that cannot be read is passed over.\<close>

definition stored_transcripts :: "(string \<Rightarrow> pydict option query_reply) \<Rightarrow> pydict \<Rightarrow> pydict" where
  "stored_transcripts lookup steps =
     concat (map (\<lambda>(key, v). case lookup key of Replied (Some t) \<Rightarrow> [(key, VDict t)] | _ \<Rightarrow> []) steps)"

record escalation_request =
  er_steps :: pydict
  er_workflow_name :: string
  er_config :: pyval
  er_definition :: pyval
  er_input_prompt :: pyval
  er_events :: pyval
  er_provider_name :: pyval
  er_workflow_id :: pyval

definition escalation_audit :: "string \<Rightarrow> pyval list \<Rightarrow> pyval \<Rightarrow> audit_event" where
  "escalation_audit workflow_name failed kind =
     \<lparr>au_type = ''escalation_triggered'', au_workflow_id = workflow_name, au_step_name = [], au_actor = [],
      au_details = [(''failed_steps'', VList failed), (''delivery'', kind)]\<rparr>"

text \<open>What is delivered, or the exception the handler around it catches.\<close>

definition deliver_escalation ::
  "outlet \<Rightarrow> (ptype \<Rightarrow> pyval \<Rightarrow> pyval res) \<Rightarrow> (string \<Rightarrow> string \<Rightarrow> pydict option query_reply) option \<Rightarrow> string
   \<Rightarrow> escalation_request \<Rightarrow> pyval list \<Rightarrow> (delivery list \<times> audit_event list) res" where
  "deliver_escalation ol validate store now rq failed =
     then_do (packager_of (ol_environ ol) (er_config rq)) (\<lambda>(k, kind).
       let key = (if truthy (er_workflow_id rq) then text_of (er_workflow_id rq) else er_workflow_name rq);
           transcripts = (case store of None \<Rightarrow> [] | Some lookup \<Rightarrow> stored_transcripts (lookup key) (er_steps rq)) in
       then_do (make_package validate
         [(''workflow_name'', VStr (er_workflow_name rq)),
          (''step_name'', case failed of [] \<Rightarrow> VStr ''unknown'' | f # _ \<Rightarrow> dget (dict_of f) ''step''), (''timestamp'', VStr now),
          (''escalation'', VDict (handoff_output (er_steps rq) failed)), (''workflow_snapshot'', VDict (er_steps rq)),
          (''definition'', er_definition rq), (''input_prompt'', er_input_prompt rq), (''events'', er_events rq),
          (''provider_name'', er_provider_name rq), (''workflow_id'', er_workflow_id rq),
          (''step_transcripts'', if transcripts = [] then VNone else VDict transcripts)]) (\<lambda>p.
         Ok (package ol k p, [escalation_audit (er_workflow_name rq) failed kind])))"

definition build_escalation_activity ::
  "outlet \<Rightarrow> (ptype \<Rightarrow> pyval \<Rightarrow> pyval res) \<Rightarrow> (string \<Rightarrow> string \<Rightarrow> pydict option query_reply) option \<Rightarrow> string
   \<Rightarrow> escalation_request \<Rightarrow> (pydict \<times> delivery list \<times> audit_event list) res" where
  "build_escalation_activity ol validate store now rq =
     then_do (escalated_steps (er_steps rq)) (\<lambda>failed.
       Ok ([(''status'', VStr ''escalated''), (''output'', VDict (handoff_output (er_steps rq) failed))],
           case deliver_escalation ol validate store now rq failed of Inl _ \<Rightarrow> ([], []) | Inr d \<Rightarrow> d))"

text \<open>What the workflow hands to it after a step ran out of attempts; the names are those of an accepted definition.\<close>

definition event_value :: "wf_event \<Rightarrow> pyval" where
  "event_value e = VDict [(''type'', VStr (we_type e)), (''step'', VStr (we_step e)), (''timestamp'', VStr (we_timestamp e))]"

definition escalation_request_of :: "workflow_input \<Rightarrow> agent_workflow \<Rightarrow> escalation_request res" where
  "escalation_request_of input w =
     then_do (as_dict (dget_or (wi_definition input) ''metadata'' (VDict []))) (\<lambda>m.
       Ok \<lparr>er_steps = map (\<lambda>(k, r). (k, step_result_dump r)) (wf_steps w),
           er_workflow_name = text_of (dget_or m ''name'' (VStr ''workflow'')), er_config = wi_escalation_config input,
           er_definition = VDict (wi_definition input), er_input_prompt = opt_val (wi_input_prompt input),
           er_events = VList (map event_value (wf_events w)), er_provider_name = dget (wi_provider input) ''name'',
           er_workflow_id = VStr (wi_workflow_id input)\<rparr>)"

section \<open>The handoff endpoint (executor/temporal/api.py)\<close>

text \<open>A query answered by a model object has its steps and events; any other answer has none.\<close>

definition not_queryable :: "string \<Rightarrow> string \<Rightarrow> pyexc" where
  "not_queryable workflow_id reason =
     HTTPException 404 [''Workflow '' @ quote workflow_id @ '' not found or not queryable: '' @ reason]"

fun replied :: "string \<Rightarrow> 'a query_reply \<Rightarrow> 'a res" where
  "replied workflow_id (Replied x) = Ok x"
| "replied workflow_id (QueryFailed reason) = Err (not_queryable workflow_id reason)"

text \<open>The transcripts of the store replace those of the workflow if it has any and none fails to load.\<close>

definition handoff_transcripts ::
  "(string \<Rightarrow> string \<Rightarrow> pydict option query_reply) option \<Rightarrow> string \<Rightarrow> pydict \<Rightarrow> pydict \<Rightarrow> pydict" where
  "handoff_transcripts store workflow_id steps queried =
     (case store of
        None \<Rightarrow> queried
      | Some lookup \<Rightarrow>
          if list_ex (\<lambda>(key, v). case lookup workflow_id key of QueryFailed _ \<Rightarrow> True | _ \<Rightarrow> False) steps then queried
          else let stored = stored_transcripts (lookup workflow_id) steps in if stored = [] then queried else stored)"

definition first_failed :: "pydict \<Rightarrow> string" where
  "first_failed steps =
     (case find (\<lambda>(key, v). case v of VDict d \<Rightarrow> dget d ''status'' = VStr ''failed'' | _ \<Rightarrow> False) steps of
        None \<Rightarrow> ''unknown'' | Some (key, _) \<Rightarrow> key)"

definition context_name :: "pyval \<Rightarrow> pyval res" where
  "context_name v =
     (if truthy v
      then then_do (as_dict v) (\<lambda>d. then_do (as_dict (dget_or d ''metadata'' (VDict []))) (\<lambda>m.
        Ok (dget_or m ''name'' (VStr ''workflow''))))
      else Ok (VStr ''workflow''))"

definition or_none :: "pyval \<Rightarrow> pyval" where
  "or_none v = (if truthy v then v else VNone)"

definition get_workflow_handoff ::
  "service \<Rightarrow> caller_identity \<Rightarrow> string \<Rightarrow> pydict option query_reply \<Rightarrow> (pydict \<times> pyval list) option query_reply
   \<Rightarrow> pydict query_reply \<Rightarrow> pydict query_reply \<Rightarrow> (string \<Rightarrow> string \<Rightarrow> pydict option query_reply) option
   \<Rightarrow> (pydict \<Rightarrow> string) \<Rightarrow> string \<Rightarrow> pydict res" where
  "get_workflow_handoff sv caller workflow_id reply status context transcripts store yaml now =
     then_do (require_on sv caller View workflow_id None reply) (\<lambda>_.
     then_do (replied workflow_id status) (\<lambda>st.
     then_do (replied workflow_id context) (\<lambda>ctx.
     then_do (replied workflow_id transcripts) (\<lambda>queried.
       let (steps, events) = (case st of None \<Rightarrow> ([], []) | Some x \<Rightarrow> x) in
       then_do (context_name (dget ctx ''definition'')) (\<lambda>name.
       then_do (make_package (sv_validate sv)
         [(''workflow_name'', name), (''step_name'', VStr (first_failed steps)), (''timestamp'', VStr now),
          (''escalation'', VDict [(''type'', VStr ''handoff_request'')]), (''workflow_snapshot'', VDict steps),
          (''definition'', dget ctx ''definition''), (''input_prompt'', dget ctx ''input_prompt''),
          (''events'', or_none (VList events)), (''provider_name'', dget ctx ''provider_name''), (''workflow_id'', VStr workflow_id),
          (''step_transcripts'', or_none (VDict (handoff_transcripts store workflow_id steps queried)))]) (\<lambda>p.
       then_do (serialize_handoff_context yaml p) (\<lambda>md.
         Ok [(''workflow_id'', VStr workflow_id), (''context_markdown'', VStr md),
             (''launch_command'', VStr (launch_command (ep_workflow_name p) workflow_id))])))))))"

end
