(* ===== verification/EscalationRuns.thy ===== *)
theory EscalationRuns
  imports Escalation
begin

text \<open>
  What notifications and escalations promise: the result of an escalation depends on the steps alone, the
  workflow that asked for it accepts it and goes on, and a handoff document shows every step.
\<close>

section \<open>The result of an escalation\<close>

definition failed_entries :: "pydict \<Rightarrow> pyval list" where
  "failed_entries steps =
     map (\<lambda>(key, v). VDict [(''step'', VStr key), (''error'', dget_or (dict_of v) ''error'' (VStr ''unknown''))])
       (filter (\<lambda>(key, v). dget (dict_of v) ''status'' = VStr ''failed'') steps)"

lemma failed_steps_entries: "list_all (is_dict \<circ> snd) steps \<Longrightarrow> escalated_steps steps = Ok (failed_entries steps)"
proof (induction steps)
  case Nil
  then show ?case by (simp add: escalated_steps_def failed_entries_def)
next
  case (Cons s steps)
  obtain key v where s: "s = (key, v)" by (cases s)
  with Cons.prems obtain d where v: "v = VDict d" by (cases v) auto
  from Cons show ?case
    by (auto simp: escalated_steps_def failed_entries_def failed_step_def s v then_do_def dict_of_def split: sum.splits)
qed

text \<open>
  An escalation reports the failed steps and nothing can keep it from doing so. Whatever its configuration,
  a missing URL, a store that fails or a package the models reject, the activity returns the failed steps in
  order, each with its error, and the number of steps; it delivers at most one package, and leaves an
  audit event exactly if it got as far as delivering it.
\<close>

lemma deliver_once:
  assumes "deliver_escalation ol validate store now rq failed = Ok (out, events)"
  shows "length events = 1"
  using assms by (auto simp: deliver_escalation_def Let_def then_do_Ok_iff)

theorem escalation_reports_failures:
  assumes "list_all (is_dict \<circ> snd) (er_steps rq)"
  shows "\<exists>out events. build_escalation_activity ol validate store now rq =
       Ok ([(''status'', VStr ''escalated''), (''output'', VDict (handoff_output (er_steps rq) (failed_entries (er_steps rq))))], out, events)
     \<and> length events \<le> 1 \<and> (events = [] \<longrightarrow> out = [])"
proof -
  let ?d = "deliver_escalation ol validate store now rq (failed_entries (er_steps rq))"
  have "build_escalation_activity ol validate store now rq = Ok ([(''status'', VStr ''escalated''),
      (''output'', VDict (handoff_output (er_steps rq) (failed_entries (er_steps rq))))], case ?d of Inl _ \<Rightarrow> ([], []) | Inr d \<Rightarrow> d)"
    by (simp add: build_escalation_activity_def failed_steps_entries [OF assms])
  then show ?thesis
    using deliver_once [of ol validate store now rq "failed_entries (er_steps rq)"] by (cases ?d) auto
qed

definition example_outlet :: outlet where
  "example_outlet =
     \<lparr>ol_environ = [], ol_yaml = (\<lambda>_. []), ol_writable = (\<lambda>_. True), ol_launcher = False, ol_auto_launch = None, ol_sandbox_image = []\<rparr>"

theorem escalation_reports_failures_witness:
  "\<exists>out events. build_escalation_activity example_outlet (\<lambda>_ _. Err (ValueError [])) None ''t''
       \<lparr>er_steps = [(''fix'', VDict [(''status'', VStr ''failed''), (''error'', VStr ''boom'')]), (''check'', VDict [(''status'', VStr ''completed'')])],
        er_workflow_name = ''w'', er_config = VInt 1, er_definition = VNone, er_input_prompt = VNone, er_events = VNone,
        er_provider_name = VNone, er_workflow_id = VNone\<rparr>
     = Ok ([(''status'', VStr ''escalated''), (''output'', VDict [(''type'', VStr ''escalation_handoff''),
         (''failed_steps'', VList [VDict [(''step'', VStr ''fix''), (''error'', VStr ''boom'')]]), (''total_steps'', VInt 2)])], out, events)"
proof -
  let ?rq = "\<lparr>er_steps = [(''fix'', VDict [(''status'', VStr ''failed''), (''error'', VStr ''boom'')]), (''check'', VDict [(''status'', VStr ''completed'')])],
        er_workflow_name = ''w'', er_config = VInt 1, er_definition = VNone, er_input_prompt = VNone, er_events = VNone,
        er_provider_name = VNone, er_workflow_id = VNone\<rparr>"
  from escalation_reports_failures [of ?rq example_outlet "\<lambda>_ _. Err (ValueError [])" None "''t''"]
  show ?thesis by (auto simp: handoff_output_def failed_entries_def dict_of_def dget_or_def)
qed

section \<open>Back in the workflow\<close>

lemma step_dump_dict: "list_all (is_dict \<circ> snd) (map (\<lambda>(k, r). (k, step_result_dump r)) steps)"
  by (induction steps) (auto simp: step_result_dump_def)

lemma step_dump_status: "dget (dict_of (step_result_dump r)) ''status'' = VStr ''failed'' \<longleftrightarrow> sr_status r = MFailed"
  "dget_or (dict_of (step_result_dump r)) ''error'' x = opt_val (sr_error r)"
  by (cases "sr_status r"; simp add: step_result_dump_def dict_of_def dget_or_def)
    (simp add: step_result_dump_def dict_of_def dget_or_def opt_val_def split: option.split)

context pydantic_engine
begin

lemma step_result_accepted:
  assumes "pf_validate pf = validate"
  shows "\<exists>r. step_result_of pf [(''status'', VStr ''escalated''), (''output'', VDict d)] = Ok r
    \<and> sr_status r = MEscalated \<and> sr_output r = Some d \<and> sr_error r = None"
proof -
  let ?d = "[(''status'', VStr ''escalated''), (''output'', VDict d)]"
  have "is_ok (validate StepResultModel (VDict ?d))"
    unfolding StepResultModel_def by (rule model_accept) (simp_all add: literal_accept opt_some map_any_accept is_ok_def)
  then obtain w where w: "validate StepResultModel (VDict ?d) = Ok w" by (auto simp: is_ok_iff)
  from model_ok [OF this [unfolded StepResultModel_def]] obtain e where e: "w = VDict e"
    "validate (PLiteral [''completed'', ''failed'', ''skipped'', ''escalated'', ''denied'']) (VStr ''escalated'') = Ok (dget e ''status'')"
    "validate (POpt (PMap PAny)) (VDict d) = Ok (dget e ''output'')" "dget e ''error'' = VNone"
    by auto
  from e(2) literal_ok have "dget e ''status'' = VStr ''escalated''" by blast
  moreover from e(3) have "dget e ''output'' = VDict d" by (simp add: opt_some map_any_accept)
  ultimately show ?thesis
    using w e(1,4) by (simp add: step_result_of_def assms model_status_of_def)
qed

end

lemma escalation_request_steps:
  assumes "escalation_request_of input w = Ok rq"
  shows "er_steps rq = map (\<lambda>(k, r). (k, step_result_dump r)) (wf_steps w)"
    and "failed_entries (er_steps rq) = map (\<lambda>(k, s). VDict [(''step'', VStr k), (''error'', opt_val (sr_error s))])
      (filter (\<lambda>(k, s). sr_status s = MFailed) (wf_steps w))"
proof -
  show e: "er_steps rq = map (\<lambda>(k, r). (k, step_result_dump r)) (wf_steps w)"
    using assms by (auto simp: escalation_request_of_def then_do_Ok_iff)
  show "failed_entries (er_steps rq) = map (\<lambda>(k, s). VDict [(''step'', VStr k), (''error'', opt_val (sr_error s))])
      (filter (\<lambda>(k, s). sr_status s = MFailed) (wf_steps w))"
    unfolding e failed_entries_def by (induction "wf_steps w" rule: list.induct) (auto simp: filter_map comp_def step_dump_status case_prod_beta)
qed

text \<open>
  C29. An escalation never breaks the run that asked for it. The workflow accepts what the activity returns, for
  every configuration and whatever the delivery did: it records a step of its own, escalated, with exactly
  the steps that failed so far and their errors, and goes on with the result of the failed step.
\<close>

theorem escalation_resumes_workflow:
  assumes "pydantic_engine (pf_validate pf) dump" "escalation_request_of input w = Ok rq"
  shows "\<exists>res out events w' r. build_escalation_activity ol validate store now rq = Ok (res, out, events)
     \<and> resume pf input (Escalating step_name result) (EscalationReturned (VDict res)) w = Some (Ok (w', Done (Some result)))
     \<and> wf_steps w' = dict_set ''escalation'' r (wf_steps w) \<and> sr_status r = MEscalated
     \<and> sr_output r = Some [(''type'', VStr ''escalation_handoff''),
         (''failed_steps'', VList (map (\<lambda>(k, s). VDict [(''step'', VStr k), (''error'', opt_val (sr_error s))])
            (filter (\<lambda>(k, s). sr_status s = MFailed) (wf_steps w)))), (''total_steps'', VInt (int (length (wf_steps w))))]"
proof -
  let ?o = "handoff_output (er_steps rq) (failed_entries (er_steps rq))"
  from step_dump_dict [of "wf_steps w"] have "list_all (is_dict \<circ> snd) (er_steps rq)"
    unfolding escalation_request_steps(1) [OF assms(2)] .
  then have "escalated_steps (er_steps rq) = Ok (failed_entries (er_steps rq))" by (rule failed_steps_entries)
  then obtain out events where b: "build_escalation_activity ol validate store now rq
      = Ok ([(''status'', VStr ''escalated''), (''output'', VDict ?o)], out, events)"
    by (cases "case deliver_escalation ol validate store now rq (failed_entries (er_steps rq)) of Inl _ \<Rightarrow> ([], []) | Inr d \<Rightarrow> d")
      (simp add: build_escalation_activity_def)
  obtain r where r: "step_result_of pf [(''status'', VStr ''escalated''), (''output'', VDict ?o)] = Ok r" "sr_status r = MEscalated"
      "sr_output r = Some ?o"
    using pydantic_engine.step_result_accepted [OF assms(1) refl] by blast
  let ?w = "emit ''workflow.escalated'' step_name (set_step ''escalation'' r w)"
  have "resume pf input (Escalating step_name result) (EscalationReturned (VDict [(''status'', VStr ''escalated''), (''output'', VDict ?o)])) w
      = Some (Ok (?w, Done (Some result)))"
    by (simp add: r(1))
  moreover have "wf_steps ?w = dict_set ''escalation'' r (wf_steps w)" by (simp add: emit_def set_step_def)
  moreover have "sr_output r = Some [(''type'', VStr ''escalation_handoff''),
         (''failed_steps'', VList (map (\<lambda>(k, s). VDict [(''step'', VStr k), (''error'', opt_val (sr_error s))])
            (filter (\<lambda>(k, s). sr_status s = MFailed) (wf_steps w)))), (''total_steps'', VInt (int (length (wf_steps w))))]"
    unfolding r(3) handoff_output_def escalation_request_steps(2) [OF assms(2)]
    by (simp add: escalation_request_steps(1) [OF assms(2)])
  ultimately show ?thesis using b r(2) by blast
qed

definition example_input :: workflow_input where
  "example_input =
     \<lparr>wi_definition = [], wi_input_prompt = None, wi_workflow_id = ''wf'', wi_provider = [], wi_sandbox_image = [], wi_skills_image = VNone,
      wi_skills_paths = VNone, wi_approval_policy = None, wi_advisory = False, wi_notifier_config = VNone,
      wi_escalation_config = VNone, wi_mcp_servers = VNone, wi_authz_context = None\<rparr>"

theorem escalation_resumes_workflow_witness:
  "\<exists>res out events w'. build_escalation_activity example_outlet strict_validate None ''t''
       \<lparr>er_steps = [], er_workflow_name = ''workflow'', er_config = VNone, er_definition = VDict [], er_input_prompt = VNone, er_events = VList [],
        er_provider_name = VNone, er_workflow_id = VStr ''wf''\<rparr> = Ok (res, out, events)
     \<and> resume strict_platform example_input (Escalating ''fix'' \<lparr>sr_status = MFailed, sr_output = None, sr_error = None\<rparr>) (EscalationReturned (VDict res)) (init_workflow ''t'')
       = Some (Ok (w', Done (Some \<lparr>sr_status = MFailed, sr_output = None, sr_error = None\<rparr>)))"
proof -
  have "pydantic_engine (pf_validate strict_platform) drop_none"
    using strict.pydantic_engine_axioms by (simp add: strict_platform_def)
  moreover have "escalation_request_of example_input (init_workflow ''t'') = Ok \<lparr>er_steps = [], er_workflow_name = ''workflow'', er_config = VNone,
      er_definition = VDict [], er_input_prompt = VNone, er_events = VList [], er_provider_name = VNone, er_workflow_id = VStr ''wf''\<rparr>"
    by code_simp
  ultimately show ?thesis
    using escalation_resumes_workflow [of strict_platform drop_none example_input "init_workflow ''t''"] by blast
qed

section \<open>The handoff document\<close>

definition legible_event :: "pyval \<Rightarrow> bool" where
  "legible_event v =
     (case v of
        VDict e \<Rightarrow>
          (case dget_or e ''data'' (VDict []) of
             VDict d \<Rightarrow> dget_or e ''type'' (VStr ''unknown'') = VStr ''thinking'' \<longrightarrow> is_str (dget_or d ''text'' (VStr []))
           | _ \<Rightarrow> False)
      | _ \<Rightarrow> False)"

definition legible_transcript :: "pyval \<Rightarrow> bool" where
  "legible_transcript v =
     (case v of VDict t \<Rightarrow> (case dget t ''events'' of VList es \<Rightarrow> list_all legible_event es | _ \<Rightarrow> False) | _ \<Rightarrow> False)"

lemma legible_entry: "legible_event v \<Longrightarrow> is_ok (event_entry v)"
  by (cases v) (auto simp: legible_event_def event_entry_def is_ok_def then_do_def Let_def elim!: is_str.elims split: pyval.splits)

lemma legible_section:
  assumes "list_all (legible_transcript \<circ> snd) transcripts"
  shows "\<exists>ls. reasoning_section transcripts (k, v) = Ok ls
    \<and> (\<forall>d t. v = VDict d \<longrightarrow> dget d ''status'' = VStr ''failed'' \<longrightarrow> dget transcripts k = VDict t \<longrightarrow> truthy (dget t ''events'')
        \<longrightarrow> ''### Agent reasoning for '' @ k \<in> set ls)"
proof (cases v)
  case (VDict d)
  show ?thesis
  proof (cases "dget d ''status'' = VStr ''failed'' \<and> truthy (dget transcripts k)")
    case True
    then obtain x where m: "map_of transcripts k = Some x" by (cases "map_of transcripts k") (auto simp: dget_def)
    then have "(k, x) \<in> set transcripts" by (rule map_of_SomeD)
    with assms have "legible_transcript x" by (auto simp: list_all_iff)
    then obtain t es where t: "x = VDict t" "dget t ''events'' = VList es" "list_all legible_event es"
      by (auto simp: legible_transcript_def split: pyval.splits)
    have "is_ok (map_res event_entry es)" using t(3) legible_entry by (auto simp: map_res_is_ok list_all_iff)
    then obtain ys where "map_res event_entry es = Ok ys" by (auto simp: is_ok_iff)
    with True VDict m t show ?thesis by (auto simp: reasoning_section_def dget_def Let_def)
  qed (use VDict in \<open>auto simp: reasoning_section_def\<close>)
qed (auto simp: reasoning_section_def)



section \<open>What goes wrong\<close>

text \<open>
  A notification whose URL is not configured is posted to the empty address, which fails, and reported as
  sent; one that cannot be delivered is reported as sent as well.
\<close>

lemma unconfigured_notification_reported_sent:
  "send_approval_notification [] [(''workflow_id'', VStr ''w''), (''step_name'', VStr ''s''), (''notifier_config'', VDict [(''type'', VStr ''webhook'')])]
     = Ok (notification_status ''notification_sent'' ''w:s'',
           [HttpPost [] (VDict [(''event'', VStr ''approval_required''), (''workflow_id'', VStr ''w''), (''step_name'', VStr ''s''),
              (''message'', VStr ''[w:s] ''), (''approve_url'', VStr ''/v1/workflows/w/approve'')]) []])"
  by code_simp

text \<open>The document's line about the last error needs a history of failures that no caller provides.\<close>

lemma no_failure_history:
  "last_error (handoff_output steps failed) = Ok []" "last_error [(''type'', VStr ''handoff_request'')] = Ok []"
  by (simp_all add: last_error_def handoff_output_def)

text \<open>The audit event of an escalation names the workflow's definition where the identifier of the run belongs.\<close>

lemma escalation_audit_names_definition:
  "deliver_escalation ol validate store now rq failed = Ok (out, events) \<Longrightarrow> map au_workflow_id events = [er_workflow_name rq]"
  by (auto simp: deliver_escalation_def Let_def then_do_Ok_iff escalation_audit_def)

text \<open>A thought without text, which the models let pass, makes the document impossible to write.\<close>

lemma thought_without_text:
  "event_entry (VDict [(''ts'', VStr ''t''), (''type'', VStr ''thinking''), (''data'', VDict [(''text'', VNone)])])
     = Err (TypeError ''object is not subscriptable'')"
  by code_simp

text \<open>The document of a run is given only to those who may view the run.\<close>

lemma handoff_needs_view:
  "is_ok (get_workflow_handoff sv caller workflow_id reply status context transcripts store yaml now)
   \<Longrightarrow> require_on sv caller View workflow_id None reply = Ok ()"
  by (auto simp: get_workflow_handoff_def is_ok_iff then_do_Ok_iff)

end
