(* ===== verification/Tools.thy ===== *)
theory Tools
  imports Urls "HOL-Library.Word"
begin

text \<open>
  The built-in tools (\<open>tools/read_file.py\<close>, \<open>http_request.py\<close>, \<open>kubectl.py\<close>). Their inputs come from a
  model, so they are unrestricted here. The file system, the HTTP client and the \<open>kubectl\<close> process answer
  as arguments; each tool returns its text together with what it did.
\<close>

section \<open>Reading files\<close>

definition max_file_bytes :: nat where
  "max_file_bytes = 1048576"

datatype 'a os_answer =
    Answered 'a
  | NotFound
  | Denied
  | OsFailed string

text \<open>A resolved path is the list of its components, without symbolic links.\<close>

record file_system =
  fi_resolve :: "string \<Rightarrow> string list os_answer"
  fi_size :: "string list \<Rightarrow> nat os_answer"
  fi_text :: "string list \<Rightarrow> string \<Rightarrow> string os_answer"

fun read_error :: "string \<Rightarrow> 'a os_answer \<Rightarrow> string" where
  "read_error path NotFound = ''File not found: '' @ path"
| "read_error path Denied = ''Permission denied: '' @ path"
| "read_error path (OsFailed e) = ''Error reading file: '' @ e"
| "read_error path (Answered _) = []"

definition when_answered :: "string \<Rightarrow> 'a os_answer \<Rightarrow> ('a \<Rightarrow> string \<times> string list list) \<Rightarrow> string \<times> string list list" where
  "when_answered path answer k = (case answer of Answered x \<Rightarrow> k x | _ \<Rightarrow> (read_error path answer, []))"

text \<open>The tool returns a text in every case; the second component has the files whose contents it read.\<close>

definition read_resolved :: "file_system \<Rightarrow> string \<Rightarrow> string \<Rightarrow> string list \<Rightarrow> string \<times> string list list" where
  "read_resolved fs path encoding resolved =
     when_answered path (fi_size fs resolved) (\<lambda>size.
       if size > max_file_bytes
       then (''File too large ('' @ show_nat size @ '' bytes, limit '' @ show_nat max_file_bytes @ '')'', [])
       else (case fi_text fs resolved encoding of
               Answered t \<Rightarrow> (t, [resolved]) | e \<Rightarrow> (read_error path e, [resolved])))"

definition read_file :: "file_system \<Rightarrow> string \<Rightarrow> string \<Rightarrow> string \<Rightarrow> string \<times> string list list" where
  "read_file fs base_dir path encoding =
     when_answered path (fi_resolve fs path) (\<lambda>resolved.
       if base_dir = [] then read_resolved fs path encoding resolved
       else when_answered path (fi_resolve fs base_dir) (\<lambda>base.
         if prefix base resolved then read_resolved fs path encoding resolved
         else (''Error: path '' @ [sq] @ path @ [sq] @ '' is outside allowed directory '' @ [sq] @ base_dir @ [sq], [])))"

section \<open>Addresses\<close>

text \<open>\<open>ipaddress.ip_address\<close> on IPv4: four decimal octets without leading zeros.\<close>

definition ipv4_octet :: "string \<Rightarrow> 32 word option" where
  "ipv4_octet s =
     (if s \<noteq> [] \<and> list_all py_digit s \<and> length s \<le> 3 \<and> (hd s \<noteq> CHR ''0'' \<or> length s = 1) \<and> read_nat s \<le> 255
      then Some (of_nat (read_nat s)) else None)"

definition ipv4 :: "32 word \<Rightarrow> 32 word \<Rightarrow> 32 word \<Rightarrow> 32 word \<Rightarrow> 32 word" where
  "ipv4 a b c d = or (push_bit 24 a) (or (push_bit 16 b) (or (push_bit 8 c) d))"

definition parse_ipv4 :: "string \<Rightarrow> 32 word option" where
  "parse_ipv4 s =
     (case map ipv4_octet (py_split ''.'' s) of
        [Some a, Some b, Some c, Some d] \<Rightarrow> Some (ipv4 a b c d)
      | _ \<Rightarrow> None)"

definition in_network :: "32 word \<Rightarrow> 32 word \<times> nat \<Rightarrow> bool" where
  "in_network a net = (drop_bit (32 - snd net) a = drop_bit (32 - snd net) (fst net))"

text \<open>
  The networks that count as private, loopback or link-local, and the two addresses of one of them that
  do not.
\<close>

definition private_networks :: "(32 word \<times> nat) list" where
  "private_networks =
     [(ipv4 0 0 0 0, 8), (ipv4 10 0 0 0, 8), (ipv4 127 0 0 0, 8), (ipv4 169 254 0 0, 16), (ipv4 172 16 0 0, 12),
      (ipv4 192 0 0 0, 24), (ipv4 192 0 2 0, 24), (ipv4 192 168 0 0, 16), (ipv4 198 18 0 0, 15),
      (ipv4 198 51 100 0, 24), (ipv4 203 0 113 0, 24), (ipv4 240 0 0 0, 4)]"

definition public_exceptions :: "32 word list" where
  "public_exceptions = [ipv4 192 0 0 9, ipv4 192 0 0 10]"

definition blocked_ipv4 :: "32 word \<Rightarrow> bool" where
  "blocked_ipv4 a = (list_ex (in_network a) private_networks \<and> a \<notin> set public_exceptions)"

section \<open>HTTP requests\<close>

definition max_response_bytes :: nat where
  "max_response_bytes = 1048576"

definition max_timeout_seconds :: int where
  "max_timeout_seconds = 300"

definition allowed_schemes :: "string list" where
  "allowed_schemes = [''http'', ''https'']"

definition blocked_hosts :: "string list" where
  "blocked_hosts = [''169.254.169.254'', ''metadata.google.internal'']"

text \<open>
  The checks of \<open>urllib\<close> on bracketed hosts and of \<open>ipaddress\<close> on IPv6 addresses are arguments;
  the result is the message, if the URL is blocked.
\<close>

definition validate_url :: "(string \<Rightarrow> bool) \<Rightarrow> (string \<Rightarrow> bool) \<Rightarrow> string \<Rightarrow> string option" where
  "validate_url bracketed_ok blocked_ipv6 url =
     (case url_netloc bracketed_ok url of
        Inl _ \<Rightarrow> Some (''Invalid URL: '' @ url)
      | Inr netloc \<Rightarrow>
          let hostname = (case netloc_hostname netloc of None \<Rightarrow> [] | Some h \<Rightarrow> h) in
            if url_scheme url \<notin> set allowed_schemes
            then Some (''Scheme '' @ [sq] @ url_scheme url @ [sq] @ '' not allowed. Use http or https.'')
            else if hostname \<in> set blocked_hosts then Some (''Blocked host: '' @ hostname)
            else if (case parse_ipv4 hostname of Some a \<Rightarrow> blocked_ipv4 a | None \<Rightarrow> blocked_ipv6 hostname)
            then Some (''Blocked address: '' @ hostname @ '' (private/loopback/link-local)'')
            else None)"

record http_call =
  hc_method :: string
  hc_url :: string
  hc_body :: "string option"
  hc_timeout :: int

text \<open>What the client answers to a streamed request: a status and the chunks of the body, or a failure.\<close>

datatype stream_answer =
    Streamed nat "string list"
  | TimedOut
  | HttpError string

fun collect_chunks :: "string \<Rightarrow> string list \<Rightarrow> string option" where
  "collect_chunks got [] = Some got"
| "collect_chunks got (chunk # chunks) =
     (if length (got @ chunk) > max_response_bytes then None else collect_chunks (got @ chunk) chunks)"

text \<open>
  The text of a response whose body was not read, and the decoding of a body, are the library's. An exception
  raised while another one is handled leaves the tool.
\<close>

record http_client =
  hl_answer :: "http_call \<Rightarrow> stream_answer"
  hl_unread_text :: "nat \<Rightarrow> string res"
  hl_decode :: "string \<Rightarrow> string res"

definition response_text :: "http_client \<Rightarrow> http_call \<Rightarrow> string res" where
  "response_text cl c =
     (case hl_answer cl c of
        TimedOut \<Rightarrow> Ok (''Request timed out after '' @ show_int (hc_timeout c) @ ''s'')
      | HttpError e \<Rightarrow> Ok (''Request failed: '' @ e)
      | Streamed status chunks \<Rightarrow>
          if 200 \<le> status \<and> status < 300
          then (case collect_chunks [] chunks of
                  None \<Rightarrow> Ok (''Response too large (>'' @ show_nat max_response_bytes @ '' bytes)'')
                | Some body \<Rightarrow> (case hl_decode cl body of Inr t \<Rightarrow> Ok t | Inl e \<Rightarrow> Ok (''Request failed: '' @ exc_str e)))
          else then_do (hl_unread_text cl status) (\<lambda>t. Ok (''HTTP '' @ show_nat status @ '': '' @ take 500 t)))"

definition http_request_tool ::
  "(string \<Rightarrow> bool) \<Rightarrow> (string \<Rightarrow> bool) \<Rightarrow> http_client \<Rightarrow> string \<Rightarrow> string \<Rightarrow> string option \<Rightarrow> int \<Rightarrow> string res \<times> http_call list" where
  "http_request_tool bracketed_ok blocked_ipv6 cl url method body timeout_seconds =
     (case validate_url bracketed_ok blocked_ipv6 url of
        Some e \<Rightarrow> (Ok (''Error: '' @ e), [])
      | None \<Rightarrow>
          let m = map upper_char method in
            if m \<noteq> ''GET'' \<and> m \<noteq> ''POST''
            then (Ok (''Error: method '' @ [sq] @ method @ [sq] @ '' not supported. Use GET or POST.''), [])
            else let c = \<lparr>hc_method = m, hc_url = url, hc_body = body, hc_timeout = max 1 (min timeout_seconds max_timeout_seconds)\<rparr> in
              (response_text cl c, [c]))"

section \<open>kubectl\<close>

datatype process_answer =
    Exited int string string
  | ProcessTimeout
  | NotStarted pyexc

definition kubectl_command :: "string \<Rightarrow> string \<Rightarrow> string \<Rightarrow> string list" where
  "kubectl_command resource namespace output_format =
     [''kubectl'', ''get'', resource, ''-n'', namespace, ''-o'', output_format]"

definition kubectl_get :: "(string list \<Rightarrow> process_answer) \<Rightarrow> string \<Rightarrow> string \<Rightarrow> string \<Rightarrow> string res" where
  "kubectl_get run resource namespace output_format =
     (case run (kubectl_command resource namespace output_format) of
        ProcessTimeout \<Rightarrow> Ok ''Error: kubectl command timed out after 30s''
      | NotStarted e \<Rightarrow> Err e
      | Exited code out err \<Rightarrow> Ok (if code \<noteq> 0 then ''Error: '' @ py_strip err else out))"

section \<open>Registration\<close>

text \<open>
  \<open>load_builtin_tools\<close>: whether everything was loaded, and the modules imported so far; importing a module
  registers its tool, and a module that cannot be imported is tried again by the next call.
\<close>

definition builtin_modules :: "string list" where
  "builtin_modules = [''cloud_agents.tools.kubectl'', ''cloud_agents.tools.http_request'', ''cloud_agents.tools.read_file'']"

definition load_builtin_tools :: "(string \<Rightarrow> bool) \<Rightarrow> bool \<times> string list \<Rightarrow> bool \<times> string list" where
  "load_builtin_tools importable st =
     (case st of (loaded, imported) \<Rightarrow>
        if loaded then st
        else (list_all importable builtin_modules,
              imported @ filter (\<lambda>m. importable m \<and> m \<notin> set imported) builtin_modules))"

lemma loading_idempotent: "load_builtin_tools f (load_builtin_tools f st) = load_builtin_tools f st"
  by (cases st) (auto simp: load_builtin_tools_def filter_empty_conv)

section \<open>What the tools do not do\<close>

text \<open>
  Reading is confined to the base directory, if one is configured. A file whose contents the tool looks at is
  what the path stands for once links are resolved, lies under the base directory, and is not larger than
  the limit; whatever the path, the tool answers with a text.
\<close>

theorem read_file_confined:
  assumes "f \<in> set (snd (read_file fs base_dir path encoding))"
  shows "fi_resolve fs path = Answered f \<and> (\<exists>n. fi_size fs f = Answered n \<and> n \<le> max_file_bytes)
    \<and> (base_dir = [] \<or> (\<exists>base. fi_resolve fs base_dir = Answered base \<and> prefix base f))"
  using assms
  by (auto simp: read_file_def read_resolved_def when_answered_def not_less split: os_answer.splits if_splits)

theorem read_file_confined_witness:
  "let fs = \<lparr>fi_resolve = (\<lambda>p. Answered (if p = ''/srv'' then [''srv''] else [''srv'', ''a''])), fi_size = (\<lambda>_. Answered 3),
     fi_text = (\<lambda>_ _. Answered ''abc'')\<rparr> in
     snd (read_file fs ''/srv'' ''a'' ''utf-8'') = [[''srv'', ''a'']] \<and> prefix [''srv''] [''srv'', ''a'']"
proof -
  let ?fs = "\<lparr>fi_resolve = (\<lambda>p. Answered (if p = ''/srv'' then [''srv''] else [''srv'', ''a''])), fi_size = (\<lambda>_. Answered 3),
     fi_text = (\<lambda>_ _. Answered ''abc'')\<rparr>"
  have s: "snd (read_file ?fs ''/srv'' ''a'' ''utf-8'') = [[''srv'', ''a'']]"
    by (simp add: read_file_def read_resolved_def when_answered_def max_file_bytes_def)
  then have "[''srv'', ''a''] \<in> set (snd (read_file ?fs ''/srv'' ''a'' ''utf-8''))" by simp
  from read_file_confined [OF this] s show ?thesis by simp
qed

lemma collect_chunks_bound:
  "collect_chunks got chunks = Some body \<Longrightarrow> length got \<le> max_response_bytes \<Longrightarrow>
     body = got @ concat chunks \<and> length body \<le> max_response_bytes"
  by (induction got chunks rule: collect_chunks.induct) (auto split: if_splits)

lemma response_bounded:
  assumes "\<And>b t. hl_decode cl b = Ok t \<Longrightarrow> length t \<le> length b" "hl_answer cl c = Streamed status chunks" "200 \<le> status" "status < 300"
    and "max_response_bytes < length (concat chunks)"
  shows "response_text cl c = Ok (''Response too large (>'' @ show_nat max_response_bytes @ '' bytes)'')"
proof -
  have "collect_chunks [] chunks = None"
    using collect_chunks_bound [of "[]" chunks] assms(5) by (cases "collect_chunks [] chunks") fastforce+
  with assms show ?thesis by (simp add: response_text_def)
qed



text \<open>The networks are those of the standard: their bounds, and the addresses next to them.\<close>

lemma network_bounds:
  "blocked_ipv4 (ipv4 10 255 255 255)" "\<not> blocked_ipv4 (ipv4 11 0 0 0)" "blocked_ipv4 (ipv4 172 31 255 255)" "\<not> blocked_ipv4 (ipv4 172 32 0 0)"
  "blocked_ipv4 (ipv4 169 254 169 254)" "blocked_ipv4 (ipv4 127 0 0 1)" "\<not> blocked_ipv4 (ipv4 8 8 8 8)"
  by code_simp+

text \<open>
  The check reads the host as text: a name that stands for the loopback interface, and the other ways to
  write an address that a resolver accepts, pass.
\<close>

lemma loopback_by_name_passes:
  "validate_url b (\<lambda>_. False) ''http://localhost/'' = None" "validate_url b (\<lambda>_. False) ''http://2130706433/'' = None"
  "validate_url b (\<lambda>_. False) ''http://127.1/'' = None"
  by code_simp+

text \<open>The message for a status that is no success reads a body that was never received; if the library raises, so does the tool.\<close>

lemma failed_status_raises:
  assumes "hl_answer cl c = Streamed status chunks" "\<not> (200 \<le> status \<and> status < 300)" "hl_unread_text cl status = Err e"
  shows "response_text cl c = Err e"
  using assms by (auto simp: response_text_def)

end
