(* ===== verification/BodyLimit.thy ===== *)
theory BodyLimit
  imports PyValue
begin

text \<open>
  The limit on request bodies (\<open>runtime/middleware.py\<close>). The application behind the middleware is any
  program that asks for messages and answers: a tree that branches on what \<open>receive\<close> gives it, the
  exception of the middleware included, which it may handle.
\<close>

section \<open>Messages and applications\<close>

text \<open>A message of the server: a part of the body, or another event.\<close>

datatype message =
    RequestPart string
  | OtherMessage string

datatype asgi_app =
    Receive "message option \<Rightarrow> asgi_app"
  | Respond nat
  | Raise pyexc
  | LetThrough

text \<open>
  \<open>None\<close> is the exception \<open>_BodyTooLargeError\<close>; \<open>LetThrough\<close> is an application that does not handle it.
\<close>

datatype asgi_outcome =
    Answer nat
  | TooLarge
  | Crash pyexc
  | Waiting

fun part_size :: "message \<Rightarrow> nat" where
  "part_size (RequestPart body) = length body"
| "part_size (OtherMessage _) = 0"

definition is_part :: "message \<Rightarrow> bool" where
  "is_part m = (case m of RequestPart _ \<Rightarrow> True | _ \<Rightarrow> False)"

text \<open>
  The application run on the messages of the server, counting the bytes of the body. A message that
  brings the count above the limit is not handed on; the application sees the exception instead, and
  may ask again.
\<close>

fun run_limited :: "nat \<Rightarrow> asgi_app \<Rightarrow> nat \<Rightarrow> message list \<Rightarrow> asgi_outcome \<times> message list" where
  "run_limited limit (Respond status) seen ms = (Answer status, [])"
| "run_limited limit (Raise e) seen ms = (Crash e, [])"
| "run_limited limit LetThrough seen ms = (TooLarge, [])"
| "run_limited limit (Receive k) seen [] = (Waiting, [])"
| "run_limited limit (Receive k) seen (m # ms) =
     (let seen = seen + part_size m in
        if is_part m \<and> seen > limit then run_limited limit (k None) seen ms
        else (case run_limited limit (k (Some m)) seen ms of (r, given) \<Rightarrow> (r, m # given)))"

fun run_plain :: "asgi_app \<Rightarrow> message list \<Rightarrow> asgi_outcome \<times> message list" where
  "run_plain (Respond status) ms = (Answer status, [])"
| "run_plain (Raise e) ms = (Crash e, [])"
| "run_plain LetThrough ms = (TooLarge, [])"
| "run_plain (Receive k) [] = (Waiting, [])"
| "run_plain (Receive k) (m # ms) = (case run_plain (k (Some m)) ms of (r, given) \<Rightarrow> (r, m # given))"

text \<open>The first \<open>Content-Length\<close> header decides at once, if it can be read.\<close>

definition content_length_error :: pyexc where
  "content_length_error = ValueError ''invalid literal for int()''"

definition body_limit ::
  "nat \<Rightarrow> bool \<Rightarrow> (string \<times> string) list \<Rightarrow> asgi_app \<Rightarrow> message list \<Rightarrow> asgi_outcome \<times> message list" where
  "body_limit limit is_http headers app ms =
     (if \<not> is_http then run_plain app ms
      else case find (\<lambda>(name, value). name = ''content-length'') headers of
        None \<Rightarrow> run_limited limit app 0 ms
      | Some (_, value) \<Rightarrow>
          (case py_int value of
             None \<Rightarrow> (Crash content_length_error, [])
           | Some n \<Rightarrow> if n > int limit then (TooLarge, []) else run_limited limit app 0 ms))"

section \<open>Properties\<close>

definition body_size :: "message list \<Rightarrow> nat" where
  "body_size ms = sum_list (map part_size ms)"

lemma body_size_simps [simp]: "body_size [] = 0" "body_size (m # ms) = part_size m + body_size ms"
  by (simp_all add: body_size_def)

lemma part_size_other: "\<not> is_part m \<Longrightarrow> part_size m = 0"
  by (cases m) (simp_all add: is_part_def)

lemma given_bounded: "body_size (snd (run_limited limit app seen ms)) \<le> limit - seen"
  by (induction limit app seen ms rule: run_limited.induct)
    (auto simp: Let_def part_size_other split: prod.splits)

lemma run_within: "seen + body_size ms \<le> limit \<Longrightarrow> run_limited limit app seen ms = run_plain app ms"
  by (induction limit app seen ms rule: run_limited.induct) (auto simp: Let_def split: prod.splits)

text \<open>
  C32. The limit holds and is invisible below it. Whatever the application does, with the exception as well, the
  parts of the body it is given never have more bytes together than the limit, with or without a length in the
  headers; and a request whose body and announced length stay within the limit is served exactly
  as without the middleware.
\<close>

theorem body_limit_exact:
  "body_size (snd (body_limit limit True headers app ms)) \<le> limit
   \<and> (body_size ms \<le> limit \<and> (\<forall>v. find (\<lambda>(name, value). name = ''content-length'') headers = Some (''content-length'', v)
         \<longrightarrow> (\<exists>n. py_int v = Some n \<and> n \<le> int limit))
      \<longrightarrow> body_limit limit True headers app ms = run_plain app ms)"
proof (cases "find (\<lambda>(name, value). name = ''content-length'') headers")
  case None
  then show ?thesis using given_bounded [of limit app 0 ms] run_within [of 0 ms limit app] by (simp add: body_limit_def)
next
  case (Some h)
  then have "fst h = ''content-length''" by (auto simp: find_Some_iff)
  then obtain v where h: "h = (''content-length'', v)" by (cases h) auto
  show ?thesis
    using Some h given_bounded [of limit app 0 ms] run_within [of 0 ms limit app]
    by (auto simp: body_limit_def split: option.splits)
qed

theorem body_limit_exact_witness:
  "body_limit 10 True [(''content-length'', ''5'')] (Receive (\<lambda>m. case m of Some _ \<Rightarrow> Respond 200 | None \<Rightarrow> LetThrough)) [RequestPart ''hello'']
     = (Answer 200, [RequestPart ''hello''])"
proof -
  let ?app = "Receive (\<lambda>m. case m of Some _ \<Rightarrow> Respond 200 | None \<Rightarrow> LetThrough)"
  have "py_int ''5'' = Some 5" by code_simp
  then show ?thesis
    using body_limit_exact [of 10 "[(''content-length'', ''5'')]" ?app "[RequestPart ''hello'']"] by simp
qed

text \<open>A length that is no number is not answered: the exception leaves the middleware.\<close>

lemma malformed_length_crashes:
  "body_limit limit True [(''content-length'', ''abc'')] app ms = (Crash content_length_error, [])"
proof -
  have "py_int ''abc'' = None" by code_simp
  then show ?thesis by (simp add: body_limit_def)
qed

end
