(* ===== verification/Progress.thy ===== *)
theory Progress
  imports OpenShell
begin

text \<open>
  What the runners learn from a sandbox while it works, and the two file operations of the spawner
  (\<open>spawner/openshell_spawner.py\<close>: \<open>stream_progress\<close>, \<open>_do_read_file\<close>, \<open>_do_write_file\<close>; \<open>temporal/activities.py\<close>:
  the progress heartbeats). Bytes are characters; the decoding of UTF-8 with replacement is the argument \<open>decode\<close>.
\<close>

section \<open>The progress stream\<close>

text \<open>
  The thread puts messages into a queue: an event, an error that ended it, and always \<open>Done\<close> in the end.
\<close>

datatype stream_message =
    StreamEvent pyval
  | StreamError sandbox_exc
  | StreamDone

datatype line_reading =
    Blank
  | Parsed pyval
  | Malformed
  | Breaking pyexc

definition digits_limit :: pyexc where
  "digits_limit = ValueError ''Exceeds the limit (4300 digits) for integer string conversion''"

definition read_line :: "json_lib \<Rightarrow> (string \<Rightarrow> string) \<Rightarrow> string \<Rightarrow> line_reading" where
  "read_line L decode raw =
     (let line = py_strip (decode raw) in
        if line = [] then Blank
        else case json_loads L line of
          Inr v \<Rightarrow> Parsed v
        | Inl JSONDecodeError \<Rightarrow> Malformed
        | Inl IntDigitsLimit \<Rightarrow> Breaking digits_limit)"

text \<open>Lines in order, up to the first one whose exception leaves the loop.\<close>

fun read_lines :: "json_lib \<Rightarrow> (string \<Rightarrow> string) \<Rightarrow> string list \<Rightarrow> pyval list \<times> pyexc option" where
  "read_lines L decode [] = ([], None)"
| "read_lines L decode (raw # raws) =
     (case read_line L decode raw of
        Parsed v \<Rightarrow> (case read_lines L decode raws of (vs, e) \<Rightarrow> (v # vs, e))
      | Breaking e \<Rightarrow> ([], Some e)
      | _ \<Rightarrow> read_lines L decode raws)"

text \<open>\<open>split\<close> at the newlines; what follows the last one waits for the next chunk.\<close>

definition complete_lines :: "string \<Rightarrow> string list \<times> string" where
  "complete_lines data =
     (let lines = py_split [newline] data in
        if suffix [newline] data then (lines, []) else (butlast lines, last lines))"

fun sync_stream :: "json_lib \<Rightarrow> (string \<Rightarrow> string) \<Rightarrow> string \<Rightarrow> exec_item list \<Rightarrow> sandbox_exc option \<Rightarrow> stream_message list" where
  "sync_stream L decode partial [] failure =
     (case failure of None \<Rightarrow> [] | Some e \<Rightarrow> [StreamError e]) @ [StreamDone]"
| "sync_stream L decode partial (ExecResult code err # items) failure = [StreamDone]"
| "sync_stream L decode partial (ExecChunk stream data # items) failure =
     (if stream \<noteq> ''stdout'' then sync_stream L decode partial items failure
      else case complete_lines (partial @ data) of
        (lines, rest) \<Rightarrow>
          (case read_lines L decode lines of
             (vs, None) \<Rightarrow> map StreamEvent vs @ sync_stream L decode rest items failure
           | (vs, Some e) \<Rightarrow> map StreamEvent vs @ [StreamError (PyError e), StreamDone]))"

text \<open>The generator yields events until it reads an error or the end.\<close>

fun yielded :: "stream_message list \<Rightarrow> pyval list" where
  "yielded (StreamEvent v # ms) = v # yielded ms"
| "yielded _ = []"

definition stream_progress :: "json_lib \<Rightarrow> (string \<Rightarrow> string) \<Rightarrow> exec_item list \<Rightarrow> sandbox_exc option \<Rightarrow> pyval list" where
  "stream_progress L decode items failure = yielded (sync_stream L decode [] items failure)"

section \<open>Heartbeats of the activity\<close>

definition max_heartbeat_bytes :: nat where
  "max_heartbeat_bytes = 1024"

definition truncate_heartbeat_payload :: "pyval \<Rightarrow> pydict res" where
  "truncate_heartbeat_payload e =
     (case e of
        VDict d \<Rightarrow>
          let name = dget d ''name'' in
            Ok ((''event_type'', VStr (take 200 (py_str (dget_or d ''type'' (VStr ''unknown'')))))
              # (if truthy name then [(''tool'', VStr (take 200 (py_str name)))] else []))
      | _ \<Rightarrow> Err (AttributeError ''get''))"

text \<open>\<open>_progress_streaming_loop\<close>: the payloads handed to \<open>activity.heartbeat\<close>, whose failures are ignored.\<close>

fun progress_heartbeats :: "pyval list \<Rightarrow> pydict list" where
  "progress_heartbeats [] = []"
| "progress_heartbeats (e # es) =
     (case truncate_heartbeat_payload e of
        Inl _ \<Rightarrow> []
      | Inr p \<Rightarrow> p # progress_heartbeats es)"

section \<open>Chunks do not matter\<close>

lemma read_lines_append:
  "read_lines L decode (xs @ ys) =
     (case read_lines L decode xs of
        (vs, Some e) \<Rightarrow> (vs, Some e)
      | (vs, None) \<Rightarrow> (case read_lines L decode ys of (ws, e) \<Rightarrow> (vs @ ws, e)))"
  by (induction xs) (auto split: line_reading.splits prod.splits option.splits)

lemma read_blank: "decode [] = [] \<Longrightarrow> read_line L decode [] = Blank"
  by (simp add: read_line_def py_strip_def)

lemma yielded_events: "yielded (map StreamEvent vs @ ms) = vs @ yielded ms"
  by (induction vs) auto

lemma py_split_char_at: "py_split_acc [c] acc (a @ c # b) = py_split_acc [c] acc a @ py_split [c] b"
proof (induction a arbitrary: acc)
  case Nil
  then show ?case by (simp add: py_split_acc.simps [of _ acc] py_split_def)
next
  case (Cons x a)
  then show ?case by (auto simp: py_split_acc.simps [of _ _ "x # _"] py_split_def)
qed

lemma complete_lines_none: "newline \<notin> set a \<Longrightarrow> complete_lines a = ([], a)"
  by (auto simp: complete_lines_def suffix_def Let_def)

lemma complete_lines_at:
  assumes "newline \<notin> set rest"
  shows "complete_lines (l @ newline # rest) = (py_split [newline] l @ (if rest = [] then [[]] else []), rest)"
proof -
  have "py_split [newline] (l @ newline # rest) = py_split [newline] l @ [rest]"
    using assms by (simp add: py_split_def [of _ "l @ _"] py_split_char_at) (simp add: py_split_def split_absent [unfolded py_split_def] sublist_single)
  moreover have "suffix [newline] (l @ newline # rest) \<longleftrightarrow> rest = []"
    using assms by (cases rest rule: rev_cases) (auto simp: suffix_def)
  ultimately show ?thesis by (simp add: complete_lines_def)
qed

lemma complete_lines_more:
  assumes "s \<noteq> []"
  shows "fst (complete_lines (l @ newline # s)) = py_split [newline] l @ fst (complete_lines s)"
proof -
  have "py_split [newline] (l @ newline # s) = py_split [newline] l @ py_split [newline] s"
    by (simp add: py_split_def [of _ "l @ _"] py_split_char_at) (simp add: py_split_def)
  moreover have "suffix [newline] (l @ newline # s) \<longleftrightarrow> suffix [newline] s"
    using assms by (cases s rule: rev_cases) (auto simp: suffix_def)
  ultimately show ?thesis by (simp add: complete_lines_def butlast_append Let_def)
qed

text \<open>Reading a text in two pieces reads the same lines, blank ones aside.\<close>

lemma read_in_pieces:
  assumes "decode [] = []" "complete_lines a = (lines, rest)"
  shows "newline \<notin> set rest"
    and "read_lines L decode (fst (complete_lines (a @ b))) = read_lines L decode (lines @ fst (complete_lines (rest @ b)))"
proof -
  show "newline \<notin> set rest"
    using assms(2) split_list_last [of newline a] complete_lines_at complete_lines_none by (cases "newline \<in> set a") fastforce+
next
  show "read_lines L decode (fst (complete_lines (a @ b))) = read_lines L decode (lines @ fst (complete_lines (rest @ b)))"
  proof (cases "newline \<in> set a")
    case False
    then show ?thesis using assms(2) by (simp add: complete_lines_none)
  next
    case True
    then obtain l r where a: "a = l @ newline # r" "newline \<notin> set r" using split_list_last [of newline a] by blast
    with assms(2) have "lines = py_split [newline] l @ (if r = [] then [[]] else [])" "rest = r"
      using complete_lines_at [of r l] by auto
    then show ?thesis
      using a complete_lines_at [of "[]" l] complete_lines_more [of "r @ b" l]
      by (cases "r @ b = []") (auto simp: read_lines_append read_blank assms(1) complete_lines_none split: option.splits prod.splits)
  qed
qed

text \<open>The bytes on the standard output up to the end of the command.\<close>

fun stdout_of :: "exec_item list \<Rightarrow> string" where
  "stdout_of [] = []"
| "stdout_of (ExecResult _ _ # items) = []"
| "stdout_of (ExecChunk stream data # items) = (if stream = ''stdout'' then data else []) @ stdout_of items"

lemma stream_reads:
  assumes "decode [] = []" "newline \<notin> set partial"
  shows "yielded (sync_stream L decode partial items failure)
    = fst (read_lines L decode (fst (complete_lines (partial @ stdout_of items))))"
  using assms
proof (induction L decode partial items failure rule: sync_stream.induct)
  case (1 L decode partial failure)
  then show ?case by (auto simp: complete_lines_none split: option.split)
next
  case (2 L decode partial code err items failure)
  then show ?case by (simp add: complete_lines_none)
next
  case (3 L decode partial stream data items failure)
  show ?case
  proof (cases "stream = ''stdout''")
    case True
    obtain lines rest where cl: "complete_lines (partial @ data) = (lines, rest)" by fastforce
    note pieces = read_in_pieces(1) [of decode, OF 3(3) cl] read_in_pieces(2) [of decode, OF 3(3) cl, of L "stdout_of items"]
    obtain vs e where r: "read_lines L decode lines = (vs, e)" by fastforce
    from 3(2) cl r 3(3) pieces(1) True have
      "e = None \<Longrightarrow> yielded (sync_stream L decode rest items failure)
         = fst (read_lines L decode (fst (complete_lines (rest @ stdout_of items))))" by simp
    then show ?thesis
      using True cl r pieces(2) by (cases e) (auto simp: yielded_events read_lines_append split: prod.splits)
  qed (use 3 in simp)
qed

text \<open>
  C33. The chunks of a stream do not matter. Whatever pieces the gateway cuts the event log into, in the middle of
  a line or of a character, with diagnostics of the command in between, and however the stream ends, the events
  that come out are those of the complete lines of the whole log, in order, up to the first line that cannot be
  read at all; a line that is not finished is not read.
\<close>

theorem progress_chunking_invisible:
  assumes "decode [] = []"
  shows "stream_progress L decode items failure = fst (read_lines L decode (fst (complete_lines (stdout_of items))))"
  using stream_reads [of decode "[]", OF assms] by (simp add: stream_progress_def)

definition plain_json :: json_lib where
  "plain_json = \<lparr>jl_chr = char_of, jl_float = id\<rparr>"

theorem progress_chunking_invisible_witness:
  "stream_progress plain_json id [ExecChunk ''stdout'' ''[1,'', ExecChunk ''stderr'' ''tail: '', ExecChunk ''stdout'' (''2]'' @ [newline] @ ''tru'')] None
     = [VList [VInt 1, VInt 2]]"
proof -
  let ?items = "[ExecChunk ''stdout'' ''[1,'', ExecChunk ''stderr'' ''tail: '', ExecChunk ''stdout'' (''2]'' @ [newline] @ ''tru'')]"
  have "fst (read_lines plain_json id (fst (complete_lines (stdout_of ?items)))) = [VList [VInt 1, VInt 2]]" by code_simp
  then show ?thesis using progress_chunking_invisible [of id plain_json ?items None] by simp
qed

section \<open>Heartbeats\<close>

lemma json_char_length: "length (json_char c) \<le> 6"
  by (simp add: json_char_def Let_def hex2_def)

lemma json_str_length: "length (json_str s) \<le> 6 * length s + 2"
proof -
  have "length (concat (map json_char s)) \<le> 6 * length s"
    by (induction s) (auto intro: add_mono json_char_length [THEN order_trans])
  then show ?thesis by (simp add: json_str_def)
qed

text \<open>
  A heartbeat has at most one text of two hundred characters for the type and one for the tool, and no more than
  2430 bytes when printed.
\<close>

theorem heartbeat_bounded:
  assumes "truncate_heartbeat_payload e = Ok p"
  shows "length (json_dumps (VDict p)) \<le> 2430"
proof -
  from assms obtain d where p: "p = (''event_type'', VStr (take 200 (py_str (dget_or d ''type'' (VStr ''unknown'')))))
      # (if truthy (dget d ''name'') then [(''tool'', VStr (take 200 (py_str (dget d ''name''))))] else [])"
    by (auto simp: truncate_heartbeat_payload_def Let_def split: pyval.splits)
  have "length (json_str (take 200 x)) \<le> 1202" for x
    using json_str_length [of "take 200 x"] by simp
  from this [of "py_str (dget_or d ''type'' (VStr ''unknown''))"] this [of "py_str (dget d ''name'')"]
  have "length (json_str (take 200 (py_str (dget_or d ''type'' (VStr ''unknown''))))) \<le> 1202"
    "length (json_str (take 200 (py_str (dget d ''name'')))) \<le> 1202" by simp_all
  moreover have "length (json_str ''event_type'') = 12" "length (json_str ''tool'') = 6" by code_simp+
  ultimately show ?thesis by (simp add: p)
qed

text \<open>The limit of 1024 bytes that the module declares is not enforced; control characters take six each.\<close>

lemma heartbeat_above_limit:
  "(case truncate_heartbeat_payload (VDict [(''type'', VStr (replicate 200 (CHR 0x01)))]) of
      Inr p \<Rightarrow> max_heartbeat_bytes < length (json_dumps (VDict p)) | Inl _ \<Rightarrow> False)"
  by code_simp

text \<open>A line of the log that is JSON but no object ends the heartbeats: the events after it are not reported.\<close>

lemma heartbeats_end_at_text:
  "progress_heartbeats (VStr s # es) = []"
  by (simp add: truncate_heartbeat_payload_def)

end
