(* ===== verification/SandboxFiles.thy ===== *)
theory SandboxFiles
  imports OpenShell
begin

text \<open>
  The file operations of the OpenShell spawner (\<open>_do_write_file\<close>, \<open>_do_read_file\<close> in \<open>spawner/openshell_spawner.py\<close>),
  with the parts of the standard library they rest on: the encoding of text, \<open>base64\<close> and \<open>shlex.quote\<close>. What the
  shell and \<open>base64 -d\<close> make of the command is stated by reference definitions that read it back.
\<close>

section \<open>Encodings\<close>

definition utf8_char :: "char \<Rightarrow> string" where
  "utf8_char c = (let n = code_of c in if n < 128 then [c] else [char_of (192 + n div 64), char_of (128 + n mod 64 :: nat)])"

definition utf8 :: "string \<Rightarrow> string" where
  "utf8 s = concat (map utf8_char s)"

definition base64_alphabet :: string where
  "base64_alphabet = ''ABCDEFGHIJKLMNOPQRSTUVWXYZabcdefghijklmnopqrstuvwxyz0123456789+/''"

definition base64_char :: "nat \<Rightarrow> char" where
  "base64_char n = base64_alphabet ! n"

fun base64_encode :: "string \<Rightarrow> string" where
  "base64_encode [] = []"
| "base64_encode [a] = (let x = code_of a in [base64_char (x div 4), base64_char (x mod 4 * 16), CHR ''='', CHR ''=''])"
| "base64_encode [a, b] =
     (let x = code_of a; y = code_of b in
        [base64_char (x div 4), base64_char (x mod 4 * 16 + y div 16), base64_char (y mod 16 * 4), CHR ''=''])"
| "base64_encode (a # b # c # s) =
     (let x = code_of a; y = code_of b; z = code_of c in
        [base64_char (x div 4), base64_char (x mod 4 * 16 + y div 16), base64_char (y mod 16 * 4 + z div 64), base64_char (z mod 64)]
        @ base64_encode s)"

text \<open>\<open>shlex.quote\<close>: text of harmless characters stays as it is, other text goes between single quotes.\<close>

definition shell_safe :: "char \<Rightarrow> bool" where
  "shell_safe c = (c \<in> set (base64_alphabet @ ''_@%+=:,./-''))"

definition shlex_quote :: "string \<Rightarrow> string" where
  "shlex_quote s =
     (if s = [] then [sq, sq]
      else if list_all shell_safe s then s
      else [sq] @ concat (map (\<lambda>c. if c = sq then [sq, dq, sq, dq, sq] else [c]) s) @ [sq])"

section \<open>The two operations\<close>

definition write_script :: "string \<Rightarrow> string \<Rightarrow> string" where
  "write_script encoded path = ''echo '' @ [sq] @ encoded @ [sq] @ '' | base64 -d > '' @ shlex_quote path"

definition not_tracked :: "string \<Rightarrow> string" where
  "not_tracked agent = ''No sandbox tracked for agent '' @ [sq] @ agent @ [sq]"

definition tracked_id :: "string \<Rightarrow> 'w shell_host \<Rightarrow> string option" where
  "tracked_id agent h = (case map_of (os_sandbox_ids (so_state h)) agent of Some (c # i) \<Rightarrow> Some (c # i) | _ \<Rightarrow> None)"

definition exec_in :: "'w gateway \<Rightarrow> string \<Rightarrow> string list \<Rightarrow> 'w shell_host \<Rightarrow> ('w, exec_item list) shell_result" where
  "exec_in gw sandbox_id cmd h = gateway_do (\<lambda>_. ExecStream sandbox_id cmd []) (gw_exec gw sandbox_id cmd []) h"

definition do_write_file :: "'w gateway \<Rightarrow> string \<Rightarrow> string \<Rightarrow> string \<Rightarrow> 'w shell_host \<Rightarrow> ('w, unit) shell_result" where
  "do_write_file gw agent path content h =
     (case tracked_id agent h of
        None \<Rightarrow> raised (RuntimeError (not_tracked agent)) h
      | Some sandbox_id \<Rightarrow>
          (case exec_in gw sandbox_id [''sh'', ''-c'', write_script (base64_encode (utf8 content)) path] h of
             (Inl CancelledError, h1) \<Rightarrow> (Inl CancelledError, h1)
           | (Inl e, h1) \<Rightarrow> raised (write_failed path sandbox_id (sandbox_exc_str e)) h1
           | (Inr _, h1) \<Rightarrow> (Inr (), h1)))"

datatype read_failure =
    FileNotFoundError string
  | OSError string
  | ReadRaised sandbox_exc

definition stdout_chunks :: "exec_item list \<Rightarrow> string list" where
  "stdout_chunks items =
     concat (map (\<lambda>i. case i of ExecChunk stream data \<Rightarrow> if stream = ''stdout'' then [data] else [] | ExecResult _ _ \<Rightarrow> []) items)"

definition mentions :: "string list \<Rightarrow> string \<Rightarrow> bool" where
  "mentions words message = list_ex (\<lambda>w. sublist w (py_lower message)) words"

definition read_content :: "(string \<Rightarrow> string) \<Rightarrow> string \<Rightarrow> string list \<Rightarrow> read_failure + string" where
  "read_content decode path chunks =
     (if decode (concat chunks) = [] \<and> chunks = [] then Inl (FileNotFoundError (''File not found or empty: '' @ path))
      else Inr (decode (concat chunks)))"

definition read_failed :: "string \<Rightarrow> int \<Rightarrow> string \<Rightarrow> read_failure" where
  "read_failed path code err =
     (let stderr = take 200 (py_strip err) in
        if mentions [''no such file''] stderr then FileNotFoundError (''File not found: '' @ path)
        else OSError (''Reading '' @ path @ '' failed (exit '' @ show_int code @ ''): '' @ stderr))"

definition read_answer :: "(string \<Rightarrow> string) \<Rightarrow> string \<Rightarrow> exec_item list \<Rightarrow> read_failure + string" where
  "read_answer decode path items =
     (case exec_outcome items of
        None \<Rightarrow> read_content decode path (stdout_chunks items)
      | Some (code, err) \<Rightarrow>
          if code \<noteq> 0 then Inl (read_failed path code err) else read_content decode path (stdout_chunks items))"

definition do_read_file ::
  "(string \<Rightarrow> string) \<Rightarrow> 'w gateway \<Rightarrow> string \<Rightarrow> string \<Rightarrow> 'w shell_host \<Rightarrow> (read_failure + string) \<times> 'w shell_host" where
  "do_read_file decode gw agent path h =
     (case tracked_id agent h of
        None \<Rightarrow> (Inl (FileNotFoundError (not_tracked agent)), h)
      | Some sandbox_id \<Rightarrow>
          (case exec_in gw sandbox_id [''cat'', path] h of
             (Inl CancelledError, h1) \<Rightarrow> (Inl (ReadRaised CancelledError), h1)
           | (Inl e, h1) \<Rightarrow>
               (if mentions [''no such file'', ''not found''] (sandbox_exc_str e)
                then (Inl (FileNotFoundError (''File not found: '' @ path)), h1)
                else (Inl (ReadRaised e), h1))
           | (Inr items, h1) \<Rightarrow> (read_answer decode path items, h1)))"

section \<open>What arrives\<close>

text \<open>A reference for \<open>base64 -d\<close>: groups of four letters, the last one possibly padded.\<close>

definition base64_value :: "char \<Rightarrow> nat option" where
  "base64_value c = find (\<lambda>n. base64_alphabet ! n = c) [0..<64]"

definition byte_of :: "nat \<Rightarrow> char" where
  "byte_of n = char_of n"

fun base64_decode :: "string \<Rightarrow> string option" where
  "base64_decode [] = Some []"
| "base64_decode (a # b # c # d # s) =
     (case (base64_value a, base64_value b) of
        (Some w, Some x) \<Rightarrow>
          if c = CHR ''='' \<and> d = CHR ''='' \<and> s = [] then Some [byte_of (w * 4 + x div 16)]
          else (case base64_value c of
            None \<Rightarrow> None
          | Some y \<Rightarrow>
              if d = CHR ''='' \<and> s = [] then Some [byte_of (w * 4 + x div 16), byte_of (x mod 16 * 16 + y div 4)]
              else (case (base64_value d, base64_decode s) of
                (Some z, Some t) \<Rightarrow>
                  Some (byte_of (w * 4 + x div 16) # byte_of (x mod 16 * 16 + y div 4) # byte_of (y mod 4 * 64 + z) # t)
              | _ \<Rightarrow> None))
      | _ \<Rightarrow> None)"
| "base64_decode _ = None"

lemma base64_letters: "\<forall>n\<in>set [0..<64]. base64_value (base64_char n) = Some n \<and> base64_char n \<noteq> CHR ''='' \<and> base64_char n \<noteq> sq"
  by code_simp

lemma base64_letter [simp]:
  assumes "n < 64"
  shows "base64_value (base64_char n) = Some n" "base64_char n \<noteq> CHR ''=''" "sq \<noteq> base64_char n"
  using base64_letters assms by (auto dest: sym)

lemma code_bound: "code_of c < 256"
  using of_char_mod_256 [of c] by (simp add: code_of_def)

lemma byte_code: "byte_of (code_of c) = c"
  by (simp add: byte_of_def code_of_def)

lemma packed:
  fixes q r k :: nat
  assumes "r < k"
  shows "(q * k + r) div k = q" "(q * k + r) mod k = r"
  using assms by simp_all

lemma group_bounds:
  fixes x y z :: nat
  assumes "x < 256" "y < 256" "z < 256"
  shows "x div 4 < 64" "x mod 4 * 16 + y div 16 < 64" "y mod 16 * 4 + z div 64 < 64" "z mod 64 < 64"
proof -
  have "x mod 4 \<le> 3" "y div 16 \<le> 15" "y mod 16 \<le> 15" "z div 64 \<le> 3" using assms by simp_all
  then show "x mod 4 * 16 + y div 16 < 64" "y mod 16 * 4 + z div 64 < 64" by linarith+
qed (use assms in simp_all)

lemma group_back:
  fixes x y z :: nat
  assumes "y < 256" "z < 256"
  shows "x div 4 * 4 + (x mod 4 * 16 + y div 16) div 16 = x"
    "(x mod 4 * 16 + y div 16) mod 16 * 16 + (y mod 16 * 4 + z div 64) div 4 = y"
    "(y mod 16 * 4 + z div 64) mod 4 * 64 + z mod 64 = z"
proof -
  have b: "y div 16 < 16" "z div 64 < 4" using assms by simp_all
  show "x div 4 * 4 + (x mod 4 * 16 + y div 16) div 16 = x" unfolding packed [OF b(1)] by (rule div_mult_mod_eq)
  show "(x mod 4 * 16 + y div 16) mod 16 * 16 + (y mod 16 * 4 + z div 64) div 4 = y"
    unfolding packed [OF b(1)] packed [OF b(2)] by (rule div_mult_mod_eq)
  show "(y mod 16 * 4 + z div 64) mod 4 * 64 + z mod 64 = z" unfolding packed [OF b(2)] by (rule div_mult_mod_eq)
qed

text \<open>Three bytes are four letters; in the last group the missing bytes count as zero.\<close>

lemma encode_group:
  obtains p q r t where "p < 64" "q < 64" "r < 64" "t < 64"
    "base64_encode (a # b # c # s) = base64_char p # base64_char q # base64_char r # base64_char t # base64_encode s"
    "byte_of (p * 4 + q div 16) = a" "byte_of (q mod 16 * 16 + r div 4) = b" "byte_of (r mod 4 * 64 + t) = c"
proof
  let ?x = "code_of a" and ?y = "code_of b" and ?z = "code_of c"
  show "?x div 4 < 64" "?x mod 4 * 16 + ?y div 16 < 64" "?y mod 16 * 4 + ?z div 64 < 64" "?z mod 64 < 64"
    by (rule group_bounds [OF code_bound code_bound code_bound])+
  show "byte_of (?x div 4 * 4 + (?x mod 4 * 16 + ?y div 16) div 16) = a"
    "byte_of ((?x mod 4 * 16 + ?y div 16) mod 16 * 16 + (?y mod 16 * 4 + ?z div 64) div 4) = b"
    "byte_of ((?y mod 16 * 4 + ?z div 64) mod 4 * 64 + ?z mod 64) = c"
    by (simp_all only: group_back [OF code_bound code_bound] byte_code)
qed (simp add: Let_def)

lemma encode_two:
  obtains p q r where "p < 64" "q < 64" "r < 64"
    "base64_encode [a, b] = [base64_char p, base64_char q, base64_char r, CHR ''='']"
    "byte_of (p * 4 + q div 16) = a" "byte_of (q mod 16 * 16 + r div 4) = b"
proof
  let ?x = "code_of a" and ?y = "code_of b"
  show "?x div 4 < 64" "?x mod 4 * 16 + ?y div 16 < 64" by (rule group_bounds [OF code_bound code_bound code_bound])+
  show "?y mod 16 * 4 < 64" using group_bounds(3) [OF code_bound code_bound, of 0] by simp
  show "byte_of (?x div 4 * 4 + (?x mod 4 * 16 + ?y div 16) div 16) = a"
    by (simp only: group_back [OF code_bound code_bound] byte_code)
  show "byte_of ((?x mod 4 * 16 + ?y div 16) mod 16 * 16 + ?y mod 16 * 4 div 4) = b"
    using group_back(2) [where x = ?x and y = ?y and z = 0, OF code_bound] by (simp add: byte_code)
qed (simp add: Let_def)

lemma encode_one:
  obtains p q where "p < 64" "q < 64"
    "base64_encode [a] = [base64_char p, base64_char q, CHR ''='', CHR ''='']" "byte_of (p * 4 + q div 16) = a"
proof
  let ?x = "code_of a"
  show "?x div 4 < 64" by (rule group_bounds [OF code_bound code_bound code_bound])
  show "?x mod 4 * 16 < 64" using group_bounds(2) [OF code_bound, of 0] by simp
  show "byte_of (?x div 4 * 4 + ?x mod 4 * 16 div 16) = a" by (simp add: byte_code)
qed (simp add: Let_def)

lemma base64_roundtrip: "base64_decode (base64_encode s) = Some s"
proof (induction s rule: base64_encode.induct)
  case (2 a)
  show ?case by (rule encode_one [of a]) simp
next
  case (3 a b)
  show ?case by (rule encode_two [of a b]) simp
next
  case (4 a b c s)
  show ?case by (rule encode_group [of a b c s]) (simp add: 4)
qed simp

text \<open>
  A reference for the words of a shell command: between single quotes every character stands for itself,
  between double quotes all but a few, outside of quotes the harmless ones; a word ends at a blank or an
  operator. Other characters are not read (\<open>None\<close>).
\<close>

datatype quoting = Unquoted | SingleQuoted | DoubleQuoted

fun sh_word :: "quoting \<Rightarrow> string \<Rightarrow> (string \<times> string) option" where
  "sh_word q [] = (if q = Unquoted then Some ([], []) else None)"
| "sh_word Unquoted (c # s) =
     (if c = sq then sh_word SingleQuoted s
      else if c = dq then sh_word DoubleQuoted s
      else if shell_safe c then map_option (\<lambda>(w, r). (c # w, r)) (sh_word Unquoted s)
      else if c \<in> set '' |>'' then Some ([], c # s)
      else None)"
| "sh_word SingleQuoted (c # s) =
     (if c = sq then sh_word Unquoted s else map_option (\<lambda>(w, r). (c # w, r)) (sh_word SingleQuoted s))"
| "sh_word DoubleQuoted (c # s) =
     (if c = dq then sh_word Unquoted s
      else if c = CHR ''$'' \<or> c = bslash \<or> c = CHR 0x60 then None
      else map_option (\<lambda>(w, r). (c # w, r)) (sh_word DoubleQuoted s))"

definition ends_word :: "string \<Rightarrow> bool" where
  "ends_word rest = (rest = [] \<or> hd rest = CHR '' '')"

lemma safe_not_quote: "shell_safe c \<Longrightarrow> c \<noteq> sq \<and> c \<noteq> dq \<and> c \<noteq> CHR '' ''"
  by (auto simp: shell_safe_def base64_alphabet_def)

lemma blank_ends: "ends_word rest \<Longrightarrow> sh_word Unquoted rest = Some ([], rest)"
  using safe_not_quote [of "CHR '' ''"] by (cases rest) (auto simp: ends_word_def)

lemma read_safe: "list_all shell_safe s \<Longrightarrow> ends_word rest \<Longrightarrow> sh_word Unquoted (s @ rest) = Some (s, rest)"
  by (induction s) (auto simp: blank_ends dest: safe_not_quote)

lemma read_escaped:
  "ends_word rest \<Longrightarrow>
     sh_word SingleQuoted (concat (map (\<lambda>c. if c = sq then [sq, dq, sq, dq, sq] else [c]) s) @ sq # rest) = Some (s, rest)"
  by (induction s) (auto simp: blank_ends)

lemma read_plain_quoted:
  "sq \<notin> set s \<Longrightarrow> ends_word rest \<Longrightarrow> sh_word SingleQuoted (s @ sq # rest) = Some (s, rest)"
  by (induction s) (auto simp: blank_ends)

lemma shell_reads_quoted: "ends_word rest \<Longrightarrow> sh_word Unquoted (shlex_quote s @ rest) = Some (s, rest)"
  using read_escaped [of rest s] by (auto simp: shlex_quote_def blank_ends read_safe)

lemma encoded_letters: "sq \<notin> set (base64_encode s)"
proof (induction s rule: base64_encode.induct)
  case (2 a)
  obtain p q where "p < 64" "q < 64" "base64_encode [a] = [base64_char p, base64_char q, CHR ''='', CHR ''='']"
    by (rule encode_one [of a])
  then show ?case by (simp del: base64_encode.simps)
next
  case (3 a b)
  obtain p q r where "p < 64" "q < 64" "r < 64" "base64_encode [a, b] = [base64_char p, base64_char q, base64_char r, CHR ''='']"
    by (rule encode_two [of a b])
  then show ?case
    by (simp del: base64_encode.simps)
next
  case (4 a b c s)
  obtain p q r t where "p < 64" "q < 64" "r < 64" "t < 64"
    "base64_encode (a # b # c # s) = base64_char p # base64_char q # base64_char r # base64_char t # base64_encode s"
    by (rule encode_group [of a b c s])
  then show ?case
    using 4 by (simp del: base64_encode.simps)
qed simp

text \<open>
  C34. Whatever the contents and the path are, the command writes exactly these bytes to exactly this path: the shell
  reads as the first argument of \<open>echo\<close> a text that decodes to the contents, and as the only word after the
  redirection the path; nothing of either is taken as a part of the command.
\<close>

theorem write_reaches_path:
  "\<exists>arguments target. write_script (base64_encode (utf8 content)) path = ''echo '' @ arguments
     \<and> sh_word Unquoted arguments = Some (base64_encode (utf8 content), '' | base64 -d > '' @ target)
     \<and> base64_decode (base64_encode (utf8 content)) = Some (utf8 content)
     \<and> sh_word Unquoted target = Some (path, [])"
proof -
  let ?e = "base64_encode (utf8 content)"
  have "sh_word SingleQuoted (?e @ sq # '' | base64 -d > '' @ shlex_quote path) = Some (?e, '' | base64 -d > '' @ shlex_quote path)"
    using encoded_letters by (intro read_plain_quoted) (auto simp: ends_word_def)
  moreover have "sh_word Unquoted (shlex_quote path) = Some (path, [])"
    using shell_reads_quoted [of "[]" path] by (simp add: ends_word_def)
  ultimately show ?thesis by (auto simp: write_script_def base64_roundtrip)
qed

section \<open>Failures of the commands\<close>

text \<open>A shell that could not write is not noticed; \<open>_write_secret_file\<close> looks at the exit code, this function does not.\<close>

lemma write_failure_unnoticed:
  assumes "tracked_id agent h = Some i" "\<And>c w. gw_exec gw i c [] w = (Inr [ExecResult 1 ''Read-only file system''], w)"
  shows "fst (do_write_file gw agent path content h) = Inr ()"
  using assms by (simp add: do_write_file_def exec_in_def gateway_do_def)

text \<open>A read whose stream ends without a result counts as complete, although the same counts as a failure for \<open>mkdir\<close>.\<close>

lemma cut_read_succeeds:
  "data \<noteq> [] \<Longrightarrow> read_answer id path [ExecChunk ''stdout'' data] = Inr data"
  "exec_failure [ExecChunk ''stdout'' data] = Some ''<no exec result>''"
  by (simp_all add: read_answer_def read_content_def exec_outcome_def exec_failure_def stdout_chunks_def)

text \<open>What a read returns is the whole standard output of a command that did not fail.\<close>

lemma read_answer_sound:
  assumes "read_answer decode path items = Inr content"
  shows "content = decode (concat (stdout_chunks items)) \<and> (\<forall>code err. exec_outcome items = Some (code, err) \<longrightarrow> code = 0)"
  using assms by (auto simp: read_answer_def read_content_def split: option.splits if_splits)

end
