(* ===== verification/Certificates.thy ===== *)
theory Certificates
  imports SandboxStep OpenShellPolicy
begin

text \<open>
  The short-lived certificates of a sandbox (\<open>security/tls.py\<close>) and what the runner trusts when it calls one
  (\<open>build_query_client_kwargs\<close>, and \<open>get_query_ssl_context\<close> of the OpenShell spawner). Keys are elements of the type
  \<open>'k\<close>, which stands for both halves of a pair; the key generator, the serial numbers, the clock and the
  checks of the \<open>cryptography\<close> package are arguments. The encoding as PEM is left out: a bundle holds
  the certificates themselves.
\<close>

section \<open>Certificates\<close>

record x509_name =
  xn_common_name :: string
  xn_organization :: "string option"

datatype general_name =
    DNSName string
  | IPAddress string

record key_usage =
  ku_digital_signature :: bool
  ku_key_cert_sign :: bool

record 'k certificate =
  ce_subject :: x509_name
  ce_issuer :: x509_name
  ce_public_key :: 'k
  ce_serial_number :: int
  ce_not_valid_before :: int
  ce_not_valid_after :: int
  ce_is_ca :: bool
  ce_path_length :: "nat option"
  ce_usage :: key_usage
  ce_extended_usage :: "string list"
  ce_alternative_names :: "general_name list option"
  ce_signer :: 'k

record 'k ephemeral_certs =
  ec_ca_cert :: "'k certificate"
  ec_server_cert :: "'k certificate"
  ec_server_key :: 'k
  ec_valid_seconds :: int

text \<open>The package: whether it is there, which common names it accepts, which texts are addresses.\<close>

record x509_lib =
  xl_installed :: bool
  xl_name_ok :: "string \<Rightarrow> bool"
  xl_ip_address :: "string \<Rightarrow> string option"

definition missing_library :: pyexc where
  "missing_library = RuntimeError (''SANDBOX_TLS_MODE=app requires the '' @ [sq] @ ''cryptography'' @ [sq] @ '' package. Install with: pip install ''
     @ [sq] @ ''lightspeed-cloud-agents[tls]'' @ [sq])"

definition x509_name_of :: "x509_lib \<Rightarrow> string \<Rightarrow> string option \<Rightarrow> x509_name res" where
  "x509_name_of X cn org =
     (if xl_name_ok X cn then Ok \<lparr>xn_common_name = cn, xn_organization = org\<rparr>
      else Err (ValueError ''Attribute length''))"

definition ca_certificate :: "x509_name \<Rightarrow> 'k \<Rightarrow> int \<Rightarrow> int \<Rightarrow> int \<Rightarrow> 'k certificate" where
  "ca_certificate ca_name ca_key serial now until =
     \<lparr>ce_subject = ca_name, ce_issuer = ca_name, ce_public_key = ca_key, ce_serial_number = serial,
      ce_not_valid_before = now, ce_not_valid_after = until, ce_is_ca = True, ce_path_length = Some 0,
      ce_usage = \<lparr>ku_digital_signature = True, ku_key_cert_sign = True\<rparr>, ce_extended_usage = [],
      ce_alternative_names = None, ce_signer = ca_key\<rparr>"

definition server_certificate ::
  "x509_name \<Rightarrow> x509_name \<Rightarrow> 'k \<Rightarrow> 'k \<Rightarrow> int \<Rightarrow> int \<Rightarrow> int \<Rightarrow> general_name list \<Rightarrow> 'k certificate" where
  "server_certificate server_name ca_name server_key ca_key serial now until names =
     \<lparr>ce_subject = server_name, ce_issuer = ca_name, ce_public_key = server_key, ce_serial_number = serial,
      ce_not_valid_before = now, ce_not_valid_after = until, ce_is_ca = False, ce_path_length = None,
      ce_usage = \<lparr>ku_digital_signature = True, ku_key_cert_sign = False\<rparr>, ce_extended_usage = [''serverAuth''],
      ce_alternative_names = (if names \<noteq> [] then Some names else None), ce_signer = ca_key\<rparr>"

definition san_ip :: "x509_lib \<Rightarrow> string \<Rightarrow> general_name res" where
  "san_ip X ip = (case xl_ip_address X ip of
       None \<Rightarrow> Err (ValueError (repr_str ip @ '' does not appear to be an IPv4 or IPv6 address''))
     | Some a \<Rightarrow> Ok (IPAddress a))"

definition default_valid_seconds :: int where
  "default_valid_seconds = 600"

definition generate_ephemeral_certs ::
  "x509_lib \<Rightarrow> int \<Rightarrow> 'k \<times> 'k \<Rightarrow> int \<times> int \<Rightarrow> string \<Rightarrow> string list \<Rightarrow> string list \<Rightarrow> int \<Rightarrow> 'k ephemeral_certs res" where
  "generate_ephemeral_certs X now key_pairs serials common_name dns ips valid_seconds =
     (if \<not> xl_installed X then Err missing_library
      else
        let until = now + valid_seconds; (ca_key, server_key) = key_pairs; (ca_serial, server_serial) = serials in
          then_do (x509_name_of X (''ephemeral-ca-'' @ common_name) (Some ''cloud-agents'')) (\<lambda>ca_name.
          then_do (x509_name_of X common_name None) (\<lambda>server_name.
          then_do (map_res (san_ip X) ips) (\<lambda>addresses.
            Ok \<lparr>ec_ca_cert = ca_certificate ca_name ca_key ca_serial now until,
                ec_server_cert = server_certificate server_name ca_name server_key ca_key server_serial now until
                  (map DNSName dns @ addresses),
                ec_server_key = server_key, ec_valid_seconds = valid_seconds\<rparr>))))"

section \<open>What the runner trusts\<close>

datatype ('k, 'c) trust =
    DefaultTrust
  | DefaultAnd "'k certificate"
  | SpawnerContext 'c

definition build_query_client_kwargs ::
  "rat \<Rightarrow> tls_mode \<Rightarrow> 'k ephemeral_certs option \<Rightarrow> 'c option option \<Rightarrow> rat \<times> ('k, 'c) trust" where
  "build_query_client_kwargs http_timeout mode certs spawner =
     (http_timeout,
      case certs of
        Some c \<Rightarrow> if mode = TlsApp then DefaultAnd (ec_ca_cert c)
                  else (case spawner of Some (Some ctx) \<Rightarrow> SpawnerContext ctx | _ \<Rightarrow> DefaultTrust)
      | None \<Rightarrow> (case spawner of Some (Some ctx) \<Rightarrow> SpawnerContext ctx | _ \<Rightarrow> DefaultTrust))"

text \<open>The context of the OpenShell spawner: the CA file, and the client certificate if it is complete.\<close>

definition get_query_ssl_context :: "shell_config \<Rightarrow> (string \<times> (string \<times> string) option) option" where
  "get_query_ssl_context cfg =
     (if sh_tls_ca cfg = [] then None
      else Some (sh_tls_ca cfg, if sh_tls_cert cfg \<noteq> [] \<and> sh_tls_key cfg \<noteq> [] then Some (sh_tls_cert cfg, sh_tls_key cfg) else None))"

text \<open>
  The certificates of one attempt, as both runners make them: for the names under which the pod can be reached,
  with the default validity.
\<close>

definition sandbox_certs ::
  "x509_lib \<Rightarrow> int \<Rightarrow> 'k \<times> 'k \<Rightarrow> int \<times> int \<Rightarrow> string dict \<Rightarrow> string \<Rightarrow> 'k ephemeral_certs option res" where
  "sandbox_certs X now key_pairs serials env pod_name =
     then_do (get_tls_mode env) (\<lambda>mode.
       if mode = TlsApp
       then then_do (generate_ephemeral_certs X now key_pairs serials pod_name (san_dns env pod_name) [''127.0.0.1''] default_valid_seconds)
              (\<lambda>c. Ok (Some c))
       else Ok None)"

section \<open>Verification\<close>

text \<open>
  A reference for what a TLS client checks that trusts one certificate (RFC 5280, for chains of length
  one): names, signature, the marks of an authority, the purpose, the host and the time.
\<close>

definition verifies :: "'k certificate \<Rightarrow> 'k certificate \<Rightarrow> general_name \<Rightarrow> int \<Rightarrow> bool" where
  "verifies ca c host t =
     (ce_issuer c = ce_subject ca \<and> ce_signer c = ce_public_key ca \<and> ce_is_ca ca \<and> ku_key_cert_sign (ce_usage ca)
      \<and> \<not> ce_is_ca c \<and> ''serverAuth'' \<in> set (ce_extended_usage c)
      \<and> host \<in> set (case ce_alternative_names c of None \<Rightarrow> [] | Some ns \<Rightarrow> ns)
      \<and> ce_not_valid_before ca \<le> t \<and> t \<le> ce_not_valid_after ca \<and> ce_not_valid_before c \<le> t \<and> t \<le> ce_not_valid_after c)"


definition example_x509 :: x509_lib where
  "example_x509 = \<lparr>xl_installed = True, xl_name_ok = (\<lambda>n. 0 < length n \<and> length n \<le> 64), xl_ip_address = Some\<rparr>"


text \<open>
  The certificates do not last as long as the sandbox may be used: every step is granted more time than that,
  and the transcript is fetched over a new connection after the run.
\<close>

lemma certificate_outlived:
  assumes "step_sandbox_lifetime_seconds float_of step = Ok lifetime" "run_timeout_seconds float_of step = Ok run" "0 \<le> run"
  shows "default_valid_seconds < lifetime"
proof -
  have "lifetime = 625 + \<lceil>run\<rceil>"
    using assms(1,2) by (simp add: step_sandbox_lifetime_seconds_def deadline_defs)
  moreover have "0 \<le> \<lceil>run\<rceil>" using assms(3) by linarith
  ultimately show ?thesis unfolding default_valid_seconds_def by linarith
qed

text \<open>What the certificates of an attempt add to the trust of the runner, and only in the mode that made them.\<close>

lemma trust_cases:
  "snd (build_query_client_kwargs timeout mode certs spawner) = DefaultAnd ca
     \<longleftrightarrow> mode = TlsApp \<and> (\<exists>c. certs = Some c \<and> ca = ec_ca_cert c)"
  by (auto simp: build_query_client_kwargs_def split: option.splits if_splits)

end
