(* ===== verification/RunnerApi.thy ===== *)
theory RunnerApi
  imports SubmissionGates LocalRunner Auth
begin

text \<open>
  What stands around the runners: the routes of the local engine (\<open>executor/local/api.py\<close>), the runner that
  talks to Temporal (\<open>executor/temporal/executor.py\<close>), the choice of an engine (\<open>executor/factory.py\<close>) and which
  routes an application serves behind which guard (the two entry points).
\<close>

section \<open>The local API\<close>

text \<open>The fields of a request that the local engine has; its other fields are not used.\<close>

definition local_provider :: "service \<Rightarrow> run_request \<Rightarrow> pydict \<Rightarrow> pydict option res" where
  "local_provider sv req definition =
     (let own = dget definition ''provider'' in
        case rq_provider req of
          Some p \<Rightarrow> Ok (Some p)
        | None \<Rightarrow>
            (case own of
               VDict raw \<Rightarrow> then_do (unprocessable (sv_validate sv ProviderConfig (VDict raw))) (\<lambda>p. then_do (as_dict p) (\<lambda>d. Ok (Some d)))
             | VNone \<Rightarrow> Err (HTTPException 400 [''Provider configuration is required''])
             | _ \<Rightarrow> Ok None))"

definition local_input :: "run_request \<Rightarrow> pydict \<Rightarrow> pydict \<Rightarrow> pydict" where
  "local_input req definition provider =
     [(''definition'', VDict definition), (''provider'', VDict provider), (''sandbox_image'', VStr (rq_sandbox_image req)),
      (''skills_image'', rq_skills_image req), (''skills_paths'', rq_skills_paths req), (''mcp_servers'', rq_mcp_servers req),
      (''approval_policy'', case rq_approval_policy req of None \<Rightarrow> VNone | Some d \<Rightarrow> VDict d),
      (''input_prompt'', opt_val (rq_input_prompt req))]
     @ (case given_text (rq_workflow_id req) of None \<Rightarrow> [] | Some i \<Rightarrow> [(''workflow_id'', VStr i)])"

text \<open>The checks of a request, in their order, and the input of the run that passed them.\<close>

definition local_checked :: "service \<Rightarrow> run_request \<Rightarrow> pydict res" where
  "local_checked sv req =
     (case given (rq_definition req) of
        None \<Rightarrow> Err (HTTPException 400 [''Workflow definition is required''])
      | Some definition \<Rightarrow>
          then_do (local_provider sv req definition) (\<lambda>provider.
          then_do (check_tools sv definition) (\<lambda>_.
          then_do (validate_definition (sv_validate sv) (sv_bracketed_ok sv) (sv_search sv) (VDict definition) (sv_content_policy sv)) (\<lambda>errors.
          if errors \<noteq> [] then Err (HTTPException 422 errors)
          else then_do (unprocessable (sv_validate sv WorkflowDefinition (VDict definition))) (\<lambda>_.
            case provider of
              None \<Rightarrow> Err (AttributeError ''model_dump'')
            | Some p \<Rightarrow> Ok (local_input req definition p))))))"

definition as_conflict :: "'a res \<Rightarrow> 'a res" where
  "as_conflict r = (case r of Inl (ValueError m) \<Rightarrow> Err (HTTPException 409 [m]) | _ \<Rightarrow> r)"

definition local_run_workflow :: "service \<Rightarrow> instant \<Rightarrow> string \<Rightarrow> run_request \<Rightarrow> local_runner \<Rightarrow> string res \<times> local_runner" where
  "local_run_workflow sv now fresh_id req lr =
     (case local_checked sv req of
        Inl e \<Rightarrow> (Err e, lr)
      | Inr input \<Rightarrow> (case start now fresh_id input lr of (r, lr') \<Rightarrow> (as_conflict r, lr')))"

text \<open>Errors of the runner as answers: an unknown run, a run that is not waiting.\<close>

definition as_answer :: "'a res \<Rightarrow> 'a res" where
  "as_answer r = (case r of Inl (KeyError k) \<Rightarrow> Err (HTTPException 404 [exc_str (KeyError k)]) | _ \<Rightarrow> r)"

definition as_conflict_answer :: "'a res \<Rightarrow> 'a res" where
  "as_conflict_answer r =
     (case r of Inl (RuntimeError m) \<Rightarrow> Err (HTTPException 409 [m]) | Inl (NotImplementedError m) \<Rightarrow> Err (HTTPException 409 [m])
      | _ \<Rightarrow> as_answer r)"

definition local_approve_workflow :: "instant \<Rightarrow> string \<Rightarrow> approve_request \<Rightarrow> local_runner \<Rightarrow> string res \<times> local_runner" where
  "local_approve_workflow now workflow_id req lr =
     (case approve_run now workflow_id (aq_step_name req) (aq_decision req) lr of
        (r, lr') \<Rightarrow> (then_do (as_conflict_answer r) (\<lambda>_. Ok ''signal_sent''), lr'))"

definition status_answer :: "workflow_status \<Rightarrow> pydict" where
  "status_answer st =
     [(''workflow_id'', VStr (st_workflow_id st)), (''status'', VStr (st_status st)), (''is_terminal'', VBool (st_is_terminal st)),
      (''steps'', VDict (map (\<lambda>(k, v). (k, VDict v)) (st_steps st))), (''events'', VList (map VDict (st_events st)))]"

definition local_get_workflow :: "string \<Rightarrow> local_runner \<Rightarrow> pydict res" where
  "local_get_workflow workflow_id lr = then_do (as_answer (get_status workflow_id lr)) (\<lambda>st. Ok (status_answer st))"

definition local_cancel_workflow :: "instant \<Rightarrow> string \<Rightarrow> local_runner \<Rightarrow> string res \<times> local_runner" where
  "local_cancel_workflow now workflow_id lr =
     (case cancel now workflow_id lr of (r, lr') \<Rightarrow> (then_do (as_answer r) (\<lambda>_. Ok ''cancelled''), lr'))"

definition local_get_handoff :: "string \<Rightarrow> pydict res \<Rightarrow> local_runner \<Rightarrow> pydict res" where
  "local_get_handoff workflow_id transcripts lr =
     as_answer (then_do (get_workflow_context workflow_id lr) (\<lambda>ctx.
       then_do transcripts (\<lambda>ts.
       then_do (get_status workflow_id lr) (\<lambda>st.
         Ok [(''workflow_id'', VStr workflow_id), (''status'', VStr (st_status st)),
             (''steps'', VDict (map (\<lambda>(k, v). (k, VDict v)) (st_steps st))), (''context'', VDict ctx), (''transcripts'', VDict ts)]))))"

section \<open>The Temporal runner\<close>

text \<open>What a call to Temporal answers: a result, an \<open>RPCError\<close> with its text, or another exception.\<close>

datatype 'a rpc =
    Returned 'a
  | RpcError string
  | RpcFailed pyexc

datatype runner_error =
    Raised pyexc
  | RpcRaised string

definition run_not_found :: "string \<Rightarrow> 'a rpc \<Rightarrow> runner_error + 'a" where
  "run_not_found workflow_id r =
     (case r of
        Returned x \<Rightarrow> Inr x
      | RpcError m \<Rightarrow> Inl (if sublist ''not found'' (py_lower m) then Raised (not_found workflow_id) else RpcRaised m)
      | RpcFailed e \<Rightarrow> Inl (Raised e))"

definition temporal_start :: "string \<Rightarrow> pydict \<Rightarrow> (string \<Rightarrow> pydict \<Rightarrow> unit rpc) \<Rightarrow> runner_error + string" where
  "temporal_start fresh_id input start_workflow =
     (let workflow_id = (if truthy (dget input ''workflow_id'') then py_str (dget input ''workflow_id'') else ''wf-'' @ fresh_id) in
        case start_workflow workflow_id input of
          Returned _ \<Rightarrow> Inr workflow_id
        | RpcError m \<Rightarrow>
            Inl (if sublist ''already started'' (py_lower m)
                 then Raised (ValueError (''Workflow '' @ quote workflow_id @ '' already exists'')) else RpcRaised m)
        | RpcFailed e \<Rightarrow> Inl (Raised e))"

text \<open>The arguments of the approval signal.\<close>

definition approval_args :: "string \<Rightarrow> string \<Rightarrow> string option \<Rightarrow> string \<Rightarrow> pyval list" where
  "approval_args step_name decision option_id approver =
     [VStr step_name, VStr decision, opt_val option_id, VStr approver, VStr []]"

definition temporal_approve :: "string \<Rightarrow> (pyval list \<Rightarrow> unit rpc) \<Rightarrow> string \<Rightarrow> string \<Rightarrow> string option \<Rightarrow> string \<Rightarrow> runner_error + unit" where
  "temporal_approve workflow_id signal step_name decision option_id approver =
     run_not_found workflow_id (signal (approval_args step_name decision option_id approver))"

datatype execution_status = ExRunning | ExCompleted | ExFailed | ExCanceled | ExTerminated | ExContinuedAsNew | ExTimedOut

definition terminal_executions :: "execution_status list" where
  "terminal_executions = [ExCompleted, ExFailed, ExCanceled, ExTerminated, ExTimedOut]"

text \<open>\<open>_to_dict\<close>: a model or a dictionary; any other answer (\<open>None\<close>) is empty.\<close>

definition query_dict :: "pydict option \<Rightarrow> pydict" where
  "query_dict r = (case r of None \<Rightarrow> [] | Some d \<Rightarrow> d)"

definition last_three :: "'a list \<Rightarrow> 'a list" where
  "last_three xs = drop (length xs - 3) xs"

definition temporal_status :: "execution_status \<Rightarrow> pyval list \<Rightarrow> string" where
  "temporal_status ex events =
     (if ex \<in> set terminal_executions then ''completed''
      else if list_ex (\<lambda>e. dget (dict_of e) ''type'' = VStr ''workflow.paused'') (last_three events) then ''paused''
      else ''running'')"

text \<open>The description is asked for outside the handler; events are the dictionaries of the status model.\<close>

definition temporal_get_status ::
  "string \<Rightarrow> pydict option rpc \<Rightarrow> execution_status rpc \<Rightarrow> runner_error + (string \<times> pyval \<times> pyval list \<times> bool)" where
  "temporal_get_status workflow_id reply described =
     (case run_not_found workflow_id reply of
        Inl e \<Rightarrow> Inl e
      | Inr r \<Rightarrow>
          let data = query_dict r; events = list_of (dget_or data ''events'' (VList [])) in
            (case described of
               Returned ex \<Rightarrow> Inr (temporal_status ex events, dget_or data ''steps'' (VDict []), events, ex \<in> set terminal_executions)
             | RpcError m \<Rightarrow> Inl (RpcRaised m)
             | RpcFailed e \<Rightarrow> Inl (Raised e)))"

definition temporal_query :: "string \<Rightarrow> pydict option rpc \<Rightarrow> runner_error + pydict" where
  "temporal_query workflow_id reply = map_sum id query_dict (run_not_found workflow_id reply)"

definition temporal_is_terminal :: "string \<Rightarrow> execution_status rpc \<Rightarrow> runner_error + bool" where
  "temporal_is_terminal workflow_id described = map_sum id (\<lambda>ex. ex \<in> set terminal_executions) (run_not_found workflow_id described)"

section \<open>Choosing an engine\<close>

record chat_settings =
  cs_provider :: pydict
  cs_system_prompt :: "string option"
  cs_max_context_turns :: int
  cs_spawn :: string
  cs_allowed_skills :: "string list option"

datatype runner_kind =
    LocalKind
  | TemporalKind
  | ChatKind chat_settings

text \<open>A comma-separated list; a variable that is empty means no restriction.\<close>

definition skills_list :: "string \<Rightarrow> string list option" where
  "skills_list raw =
     (if raw = [] then None else Some (map py_strip (filter (\<lambda>s. py_strip s \<noteq> []) (py_split '','' raw))))"

definition is_true :: "string dict \<Rightarrow> string \<Rightarrow> bool" where
  "is_true env var = (py_lower (env_get env var []) = ''true'')"

definition only_temporal :: "string \<Rightarrow> string \<Rightarrow> pyexc" where
  "only_temporal var kind = ValueError (var @ ''=true requires WORKFLOW_ENGINE=temporal. '' @ kind
     @ '' triggers are not supported with the local executor.'')"

definition chat_settings_of :: "string dict \<Rightarrow> chat_settings res" where
  "chat_settings_of env =
     (let turns = env_get env ''CHAT_MAX_CONTEXT_TURNS'' ''20'' in
        case py_int turns of
          None \<Rightarrow> Err (ValueError (''invalid literal for int() with base 10: '' @ repr_str turns))
        | Some n \<Rightarrow>
            Ok \<lparr>cs_provider = [(''name'', VStr (env_get env ''CHAT_PROVIDER_NAME'' ''openai'')),
                  (''model'', VStr (env_get env ''CHAT_PROVIDER_MODEL'' ''gpt-4o'')),
                  (''credentials_secret'', VStr (env_get env ''CHAT_PROVIDER_SECRET'' ''openai-api-key''))],
                cs_system_prompt = map_of env ''CHAT_SYSTEM_PROMPT'', cs_max_context_turns = n,
                cs_spawn = env_get env ''CHAT_SPAWN_MODE'' ''none'', cs_allowed_skills = skills_list (env_get env ''CHAT_ALLOWED_SKILLS'' [])\<rparr>)"

definition create_runner :: "string dict \<Rightarrow> bool \<Rightarrow> bool \<Rightarrow> runner_kind res" where
  "create_runner env has_run_store has_transcript_store =
     (let engine = env_get env ''WORKFLOW_ENGINE'' ''local'' in
        if engine = ''local''
        then (if is_true env ''ALERT_TRIGGER_ENABLED'' then Err (only_temporal ''ALERT_TRIGGER_ENABLED'' ''Alert'')
              else if is_true env ''SCHEDULE_ENABLED'' then Err (only_temporal ''SCHEDULE_ENABLED'' ''Schedule'') else Ok LocalKind)
        else if engine = ''temporal''
        then (if env_get env ''TEMPORAL_URL'' [] = []
              then Err (ValueError (''WORKFLOW_ENGINE=temporal requires TEMPORAL_URL to be set. Set TEMPORAL_URL to the Temporal Server gRPC address (e.g. ''
                @ [sq] @ ''localhost:7233'' @ [sq] @ '').''))
              else Ok TemporalKind)
        else if engine = ''chat''
        then (if \<not> has_run_store
              then Err (ValueError ''WORKFLOW_ENGINE=chat requires a RunStateStore. Set RUN_STATE_DB_URL to a PostgreSQL connection URL.'')
              else if \<not> has_transcript_store
              then Err (ValueError ''WORKFLOW_ENGINE=chat requires a TranscriptStore. Set TRANSCRIPT_DB_URL to a PostgreSQL connection URL.'')
              else then_do (chat_settings_of env) (\<lambda>s. Ok (ChatKind s)))
        else Err (ValueError (''Unknown WORKFLOW_ENGINE='' @ [sq] @ engine @ [sq] @ ''. Valid values: ''
          @ [sq] @ ''local'' @ [sq] @ '', '' @ [sq] @ ''temporal'' @ [sq] @ '', '' @ [sq] @ ''chat'' @ [sq])))"

section \<open>Applications and their guards\<close>

text \<open>What a route is guarded by: nothing, a bearer token, or the class of the token review.\<close>

datatype guard =
    Unguarded
  | BearerTokens "string list"
  | ReviewClass

definition get_auth_dependency :: "string dict \<Rightarrow> guard res" where
  "get_auth_dependency env =
     (if \<not> is_true env ''AUTH_REQUIRED'' then Ok Unguarded
      else if get_api_tokens env = []
      then Err (RuntimeError ''AUTH_REQUIRED=true but no tokens configured. Set AGENT_API_TOKENS or AGENT_API_TOKEN. Refusing to start with unauthenticated workflow endpoints.'')
      else if get_auth_mode env = ''sa_token'' then Ok ReviewClass
      else Ok (BearerTokens (get_api_tokens env)))"

definition local_app_routes :: "string dict \<Rightarrow> bool \<Rightarrow> bool \<Rightarrow> (string \<times> guard) list res" where
  "local_app_routes env has_run_store has_transcript_store =
     then_do (get_auth_dependency env) (\<lambda>g.
       Ok ([(''/v1/workflows'', g)] @ (if has_run_store \<and> has_transcript_store then [(''/v1/chat'', Unguarded)] else [])
         @ [(''/healthz'', Unguarded), (''/readyz'', Unguarded)]))"

definition temporal_app_routes :: "string dict \<Rightarrow> (string \<times> guard) list res" where
  "temporal_app_routes env =
     then_do (get_auth_dependency env) (\<lambda>g.
       Ok ([(''/v1/workflows'', g)] @ (if is_true env ''ALERT_TRIGGER_ENABLED'' then [(''/v1/webhooks'', g)] else [])
         @ (if is_true env ''SCHEDULE_TRIGGER_ENABLED'' then [(''/v1/schedules'', g)] else [])
         @ map (\<lambda>p. (p, Unguarded)) [''/healthz'', ''/livez'', ''/readyz'', ''/metrics'']))"

section \<open>What the local API starts\<close>

lemma local_checked_Ok:
  assumes "local_checked sv req = Ok input"
  obtains defn p where "given (rq_definition req) = Some defn" "check_tools sv defn = Ok ()"
    "validate_definition (sv_validate sv) (sv_bracketed_ok sv) (sv_search sv) (VDict defn) (sv_content_policy sv) = Ok []"
    "is_ok (sv_validate sv WorkflowDefinition (VDict defn))" "local_provider sv req defn = Ok (Some p)"
    "input = local_input req defn p"
  using assms
  by (auto simp: local_checked_def then_do_Ok_iff is_ok_iff elim!: unprocessable.elims split: option.splits if_splits)

lemma start_launches:
  assumes "start now fresh_id input lr = (Ok workflow_id, lr')" "item_at input ''definition'' = Ok (VDict defn)"
  shows "\<exists>nodes gs args. map_of (lr_running lr') workflow_id = Some (nodes, gs) \<and> build_graph defn workflow_id args = Ok (nodes, gs)
    \<and> workflow_id = (if truthy (dget input ''workflow_id'') then py_str (dget input ''workflow_id'') else fresh_id)"
  using assms by (auto simp: start_def Let_def then_do_Ok_iff launch_def split: sum.splits prod.splits)

text \<open>
  The local engine runs nothing unchecked. A request that is answered with an identifier has launched the graph of
  the definition it contained, under that identifier; and this definition went through the same gate as on
  the other engine: its tools are registered, the validation and the content policy object to
  nothing, the models accept it, and its provider is one of the request or of the definition. A request that
  is refused by a check leaves the runner as it was.
\<close>

theorem local_run_checked:
  assumes "local_run_workflow sv now fresh_id req lr = (r, lr')"
  shows "case r of
      Inr workflow_id \<Rightarrow> (\<exists>defn provider nodes gs args. given (rq_definition req) = Some defn
         \<and> validate_workflow_tools (sv_registered sv) defn = Ok []
         \<and> validate_definition (sv_validate sv) (sv_bracketed_ok sv) (sv_search sv) (VDict defn) (sv_content_policy sv) = Ok []
         \<and> is_ok (sv_validate sv WorkflowDefinition (VDict defn)) \<and> local_provider sv req defn = Ok (Some provider)
         \<and> map_of (lr_running lr') workflow_id = Some (nodes, gs) \<and> build_graph defn workflow_id args = Ok (nodes, gs))
    | Inl e \<Rightarrow> is_ok (local_checked sv req) \<or> lr' = lr"
proof (cases "local_checked sv req")
  case (Inl e)
  with assms show ?thesis by (auto simp: local_run_workflow_def)
next
  case (Inr input)
  show ?thesis
  proof (cases r)
    case (Inr workflow_id)
    note id = Inr
    obtain r0 where st: "start now fresh_id input lr = (r0, lr')" and r: "r = as_conflict r0"
      using assms \<open>local_checked sv req = Inr input\<close> by (auto simp: local_run_workflow_def split: prod.splits)
    from r id have r0: "r0 = Ok workflow_id" by (auto simp: as_conflict_def split: sum.splits pyexc.splits)
    from local_checked_Ok [OF \<open>local_checked sv req = Inr input\<close>] obtain defn p where
      d: "given (rq_definition req) = Some defn" "check_tools sv defn = Ok ()"
      "validate_definition (sv_validate sv) (sv_bracketed_ok sv) (sv_search sv) (VDict defn) (sv_content_policy sv) = Ok []"
      "is_ok (sv_validate sv WorkflowDefinition (VDict defn))" "local_provider sv req defn = Ok (Some p)"
      "input = local_input req defn p" .
    have "item_at input ''definition'' = Ok (VDict defn)" by (simp add: d(6) local_input_def item_at_def)
    from start_launches [OF st [unfolded r0] this] obtain nodes gs args where
      "map_of (lr_running lr') workflow_id = Some (nodes, gs)" "build_graph defn workflow_id args = Ok (nodes, gs)" by blast
    moreover have "validate_workflow_tools (sv_registered sv) defn = Ok []"
      using d(2) by (simp add: check_tools_Ok)
    ultimately show ?thesis using d id by auto
  qed (simp add: \<open>local_checked sv req = Inr input\<close> is_ok_def)
qed

definition checked_run :: "string res \<times> local_runner" where
  "checked_run = local_run_workflow strict_service \<lparr>in_time = 0, in_iso = ''t0''\<rparr> ''7'' (run_of None (Some (named_definition ''triage'' ''claude'')))
     \<lparr>lr_store = None, lr_running = []\<rparr>"

theorem local_run_checked_witness:
  "\<exists>workflow_id nodes gs args. fst checked_run = Ok workflow_id \<and> map_of (lr_running (snd checked_run)) workflow_id = Some (nodes, gs)
     \<and> build_graph (named_definition ''triage'' ''claude'') workflow_id args = Ok (nodes, gs)"
proof -
  have "is_ok (fst checked_run)" by code_simp
  then obtain wid where "fst checked_run = Ok wid" by (auto simp: is_ok_iff)
  moreover have "local_run_workflow strict_service \<lparr>in_time = 0, in_iso = ''t0''\<rparr> ''7'' (run_of None (Some (named_definition ''triage'' ''claude'')))
      \<lparr>lr_store = None, lr_running = []\<rparr> = (fst checked_run, snd checked_run)" by (simp add: checked_run_def)
  note local_run_checked [OF this]
  moreover have "given (rq_definition (run_of None (Some (named_definition ''triage'' ''claude'')))) = Some (named_definition ''triage'' ''claude'')"
    by code_simp
  ultimately show ?thesis by auto
qed

section \<open>Guards and reported states\<close>

text \<open>
  With authentication required, an application that starts serves every route below \<open>/v1\<close> behind a guard, and a
  guard of tokens has one at least; it does not start without tokens. So it is for the Temporal engine.
\<close>

theorem temporal_routes_guarded:
  assumes "is_true env ''AUTH_REQUIRED''" "temporal_app_routes env = Ok routes" "(path, g) \<in> set routes" "prefix ''/v1/'' path"
  shows "g \<noteq> Unguarded \<and> g \<noteq> BearerTokens [] \<and> get_api_tokens env \<noteq> []"
  using assms by (auto simp: temporal_app_routes_def get_auth_dependency_def then_do_Ok_iff split: if_splits)

theorem temporal_routes_guarded_witness:
  "\<exists>routes g. temporal_app_routes [(''AUTH_REQUIRED'', ''true''), (''AGENT_API_TOKEN'', ''t'')] = Ok routes
     \<and> (''/v1/workflows'', g) \<in> set routes \<and> g \<noteq> Unguarded"
proof -
  let ?env = "[(''AUTH_REQUIRED'', ''true''), (''AGENT_API_TOKEN'', ''t'')]"
  have a: "is_true ?env ''AUTH_REQUIRED''" by code_simp
  have "is_ok (get_auth_dependency ?env)" by code_simp
  then obtain g where "get_auth_dependency ?env = Ok g" by (auto simp: is_ok_iff)
  then obtain routes where r: "temporal_app_routes ?env = Ok routes" "(''/v1/workflows'', g) \<in> set routes"
    by (simp add: temporal_app_routes_def)
  from temporal_routes_guarded [OF a r] r show ?thesis by auto
qed

text \<open>On the local engine the conversations are served without a guard, whatever is required.\<close>

lemma local_chat_unguarded:
  "local_app_routes env True True = Ok routes \<Longrightarrow> (''/v1/chat'', Unguarded) \<in> set routes"
  by (auto simp: local_app_routes_def then_do_Ok_iff)

text \<open>A run that failed is reported as completed; one that goes on after its approval as paused.\<close>

lemma failed_run_reported_completed:
  "temporal_get_status wid (Returned d) (Returned ExFailed) = Inr (st, steps, events, over) \<Longrightarrow> st = ''completed''"
  by (auto simp: temporal_get_status_def temporal_status_def terminal_executions_def run_not_found_def Let_def)

lemma approved_run_reported_paused:
  "temporal_status ExRunning (map (\<lambda>t. VDict [(''type'', VStr t)]) [''workflow.paused'', ''step.completed'', ''step.started'']) = ''paused''"
  by code_simp

text \<open>The local engine looks for a variable that switches nothing on; the one that does is ignored.\<close>

lemma schedule_trigger_not_refused:
  "create_runner [(''SCHEDULE_TRIGGER_ENABLED'', ''true'')] s t = Ok LocalKind"
  by code_simp

end
