(* ===== verification/Lifespan.thy ===== *)
theory Lifespan
  imports RunnerApi Spawner AlertTrigger
begin

text \<open>
  Starting and stopping an application (\<open>executor/temporal/entrypoint.py\<close>, \<open>executor/local/entrypoint.py\<close>,
  \<open>temporal/worker.py\<close>): what is read from the environment, which middlewares stand in front of the routes, and
  the lifespan of both applications as the sequence of what happens. A lifespan is a generator that
  the server resumes after its first \<open>yield\<close>; a second \<open>yield\<close> is an error of its own.
\<close>

section \<open>Settings\<close>

definition env_int :: "string dict \<Rightarrow> string \<Rightarrow> string \<Rightarrow> int res" where
  "env_int env var absent =
     (let raw = env_get env var absent in
        case py_int raw of
          None \<Rightarrow> Err (ValueError (''invalid literal for int() with base 10: '' @ repr_str raw))
        | Some n \<Rightarrow> Ok n)"

text \<open>Layers in front of the routes, outermost first; the one that is added last is the outermost.\<close>

datatype layer =
    RateLimit rat int
  | RateLimitDefault
  | BodyLimit int
  | Cors "string list"

definition cors_layer :: "string dict \<Rightarrow> layer list" where
  "cors_layer env =
     (let origins = env_get env ''CORS_ALLOWED_ORIGINS'' [] in
        if origins = [] then [] else [Cors (map py_strip (py_split '','' origins))])"

definition temporal_layers :: "(string \<Rightarrow> rat option) \<Rightarrow> string dict \<Rightarrow> layer list res" where
  "temporal_layers float_of env =
     then_do (env_int env ''MAX_REQUEST_BODY_BYTES'' ''1048576'') (\<lambda>max_body.
     then_do (if is_true env ''RATE_LIMIT_ENABLED''
              then then_do (py_float float_of (VStr (env_get env ''RATE_LIMIT_RATE'' ''10''))) (\<lambda>rate.
                   then_do (env_int env ''RATE_LIMIT_BURST'' ''20'') (\<lambda>burst. Ok [RateLimit rate burst]))
              else Ok [])
       (\<lambda>limits. Ok (limits @ [BodyLimit max_body] @ cors_layer env)))"

definition local_layers :: "string dict \<Rightarrow> layer list" where
  "local_layers env =
     (if is_true env ''RATE_LIMIT_ENABLED'' then [RateLimitDefault] else []) @ [BodyLimit 1048576] @ cors_layer env"

definition non_empty :: "string option \<Rightarrow> string option" where
  "non_empty s = (case s of Some (c # cs) \<Rightarrow> Some (c # cs) | _ \<Rightarrow> None)"

definition alert_config_of :: "string dict \<Rightarrow> alert_config res" where
  "alert_config_of env =
     then_do (env_int env ''ALERT_TRIGGER_DEDUP_WINDOW'' ''300'') (\<lambda>window.
       Ok \<lparr>ac_workflow_name_label = env_get env ''ALERT_TRIGGER_WORKFLOW_LABEL'' ''cloud_agents_workflow'',
           ac_fire_on_resolved = is_true env ''ALERT_TRIGGER_FIRE_ON_RESOLVED'',
           ac_default_workflow = non_empty (map_of env ''ALERT_TRIGGER_DEFAULT_WORKFLOW''), ac_dedup_window_seconds = window\<rparr>)"

text \<open>The conversations of the local application, with the defaults of \<open>ChatWorkflowConfig\<close> for the rest.\<close>

definition local_chat_settings :: "string dict \<Rightarrow> chat_settings" where
  "local_chat_settings env =
     \<lparr>cs_provider = [(''name'', VStr (env_get env ''CHAT_PROVIDER'' ''openai'')), (''model'', VStr (env_get env ''CHAT_MODEL'' ''gpt-4o'')),
        (''credentials_secret'', VStr (env_get env ''CHAT_CREDENTIALS_SECRET'' ''openai-api-key''))],
      cs_system_prompt = map_of env ''CHAT_SYSTEM_PROMPT'', cs_max_context_turns = 20, cs_spawn = ''none'',
      cs_allowed_skills = skills_list (env_get env ''CHAT_ALLOWED_SKILLS'' [])\<rparr>"

text \<open>\<open>_build_tls_config\<close>: client certificate, its key and the root, each read from a file that is named.\<close>

definition read_named :: "(string \<Rightarrow> sandbox_exc + string) \<Rightarrow> string option \<Rightarrow> sandbox_exc + string option" where
  "read_named file path = (case non_empty path of None \<Rightarrow> Inr None | Some p \<Rightarrow> map_sum id Some (file p))"

definition sum_do :: "'e + 'a \<Rightarrow> ('a \<Rightarrow> 'e + 'b) \<Rightarrow> 'e + 'b" where
  "sum_do r f = (case r of Inl e \<Rightarrow> Inl e | Inr x \<Rightarrow> f x)"

definition build_tls_config ::
  "string dict \<Rightarrow> (string \<Rightarrow> sandbox_exc + string) \<Rightarrow> sandbox_exc + (string option \<times> string option \<times> string option) option" where
  "build_tls_config env file =
     (if \<not> is_true env ''TEMPORAL_TLS_ENABLED'' then Inr None
      else sum_do (read_named file (map_of env ''TEMPORAL_TLS_CERT_PATH'')) (\<lambda>cert.
           sum_do (read_named file (map_of env ''TEMPORAL_TLS_KEY_PATH'')) (\<lambda>key.
           sum_do (read_named file (map_of env ''TEMPORAL_TLS_CA_PATH'')) (\<lambda>ca. Inr (Some (cert, key, ca))))))"

section \<open>The worker\<close>

datatype worker_activity =
    RunSandboxStep bool bool
  | BuildEscalation bool
  | SendApprovalNotification

fun activity_name :: "worker_activity \<Rightarrow> string" where
  "activity_name (RunSandboxStep _ _) = ''run_sandbox_step''"
| "activity_name (BuildEscalation _) = ''build_escalation_activity''"
| "activity_name SendApprovalNotification = ''send_approval_notification''"

record worker_config =
  wc_task_queue :: string
  wc_max_concurrent_activities :: nat
  wc_activities :: "worker_activity list"

text \<open>The sandbox activity gets the store only together with a spawner, the escalation activity in any case.\<close>

definition build_worker_config :: "bool \<Rightarrow> bool \<Rightarrow> worker_config" where
  "build_worker_config has_spawner has_store =
     \<lparr>wc_task_queue = ''cloud-agents'', wc_max_concurrent_activities = 10,
      wc_activities = [if has_spawner then RunSandboxStep True has_store else RunSandboxStep False False,
        BuildEscalation has_store, SendApprovalNotification]\<rparr>"

section \<open>Lifespans\<close>

datatype life_event =
    Reconciled
  | TranscriptsConnected
  | RunsConnected
  | PausedFound
  | TemporalConnected
  | WorkerStarted
  | Serving
  | WorkerStopped
  | TranscriptsClosed
  | RunsClosed

datatype life_end =
    Stopped
  | NotStarted sandbox_exc
  | Thrown sandbox_exc
  | YieldedTwice

text \<open>
  What happens around the lifespan: the answers of the stores, of Temporal and of the worker; \<open>lf_resume\<close> is the
  exception with which the server resumes the generator, if any, and \<open>lf_worker_exit\<close> what leaves the
  worker's block when it is resumed so.
\<close>

record surroundings =
  lf_reconcile :: "sandbox_exc option"
  lf_transcripts :: "sandbox_exc option option"
  lf_runs :: "sandbox_exc option option"
  lf_recover :: "sandbox_exc option"
  lf_tls :: "sandbox_exc option"
  lf_connect :: "sandbox_exc option"
  lf_worker_start :: "sandbox_exc option"
  lf_resume :: "sandbox_exc option"
  lf_worker_exit :: "sandbox_exc option \<Rightarrow> sandbox_exc option"
  lf_close :: "sandbox_exc option"
  lf_close_runs :: "sandbox_exc option"

definition is_exception :: "sandbox_exc option \<Rightarrow> bool" where
  "is_exception e = (e \<noteq> None \<and> e \<noteq> Some CancelledError)"

text \<open>Before anything else: the orphans, then the transcript store, whose failure is only logged.\<close>

definition not_begun :: "surroundings \<Rightarrow> (life_event list \<times> life_end) option" where
  "not_begun lf =
     (case lf_reconcile lf of
        Some e \<Rightarrow> Some ([], NotStarted e)
      | None \<Rightarrow>
          if lf_transcripts lf = Some (Some CancelledError) then Some ([Reconciled], NotStarted CancelledError) else None)"

text \<open>\<open>finally\<close>: the transcript store is closed as well as it goes.\<close>

definition close_transcripts :: "surroundings \<Rightarrow> life_event list" where
  "close_transcripts lf = (if lf_transcripts lf \<noteq> None \<and> lf_close lf = None then [TranscriptsClosed] else [])"

definition connect_transcripts :: "surroundings \<Rightarrow> life_event list" where
  "connect_transcripts lf = (if lf_transcripts lf = Some None then [TranscriptsConnected] else [])"

definition ended :: "sandbox_exc option \<Rightarrow> life_end" where
  "ended e = (case e of None \<Rightarrow> Stopped | Some x \<Rightarrow> Thrown x)"

definition first_failure :: "sandbox_exc option list \<Rightarrow> sandbox_exc option" where
  "first_failure rs = (case filter (\<lambda>r. r \<noteq> None) rs of [] \<Rightarrow> None | r # _ \<Rightarrow> r)"

definition temporal_up :: "surroundings \<Rightarrow> life_event list" where
  "temporal_up lf =
     (if first_failure [lf_tls lf, lf_connect lf] = None
      then [TemporalConnected] @ (if lf_worker_start lf = None then [WorkerStarted] else []) else [])"

definition temporal_lifespan :: "surroundings \<Rightarrow> life_event list \<times> life_end" where
  "temporal_lifespan lf =
     (case not_begun lf of
        Some out \<Rightarrow> out
      | None \<Rightarrow>
          let begun = [Reconciled] @ connect_transcripts lf @ temporal_up lf;
              failed = first_failure [lf_tls lf, lf_connect lf, lf_worker_start lf] in
            if failed = Some CancelledError then (begun @ close_transcripts lf, NotStarted CancelledError)
            else if failed \<noteq> None then (begun @ [Serving] @ close_transcripts lf, ended (lf_resume lf))
            else let left = lf_worker_exit lf (lf_resume lf) in
              if left = None then (begun @ [Serving, WorkerStopped] @ close_transcripts lf, Stopped)
              else if is_exception left then (begun @ [Serving, Serving], YieldedTwice)
              else (begun @ [Serving] @ close_transcripts lf, ended left))"

definition local_lifespan :: "surroundings \<Rightarrow> life_event list \<times> life_end" where
  "local_lifespan lf =
     (case not_begun lf of
        Some out \<Rightarrow> out
      | None \<Rightarrow>
          let begun = [Reconciled] @ connect_transcripts lf in
            (case lf_runs lf of
               Some (Some e) \<Rightarrow> (begun, NotStarted e)
             | runs \<Rightarrow>
                 let up = begun @ (if runs = None then [] else [RunsConnected]) in
                   if runs \<noteq> None \<and> lf_recover lf \<noteq> None then (up, NotStarted (the (lf_recover lf)))
                   else
                     let up = up @ (if runs = None then [] else [PausedFound]) @ [Serving] in
                       (case lf_resume lf of
                          Some e \<Rightarrow> (up, Thrown e)
                        | None \<Rightarrow>
                            (up @ close_transcripts lf @ (if runs \<noteq> None \<and> lf_close_runs lf = None then [RunsClosed] else []), Stopped))))"

text \<open>The probe of the Temporal application and the client that its routes use: there once Temporal was reached.\<close>

definition readyz :: "life_event list \<Rightarrow> nat" where
  "readyz happened = (if TemporalConnected \<in> set happened then 200 else 503)"

definition deferred_client :: "life_event list \<Rightarrow> unit res" where
  "deferred_client happened = (if TemporalConnected \<in> set happened then Ok () else Err (KeyError ''client''))"

section \<open>What starts and what does not\<close>

definition uncancelled :: "surroundings \<Rightarrow> bool" where
  "uncancelled lf = (Some CancelledError \<notin> set [lf_tls lf, lf_connect lf, lf_worker_start lf] \<and> lf_transcripts lf \<noteq> Some (Some CancelledError))"

lemma first_failure_set: "first_failure rs = Some e \<Longrightarrow> Some e \<in> set rs"
  by (auto simp: first_failure_def split: list.splits dest: filter_eq_ConsD)

lemma no_failure: "first_failure rs = None \<longleftrightarrow> set rs \<subseteq> {None}"
  by (auto simp: first_failure_def filter_empty_conv split: list.splits dest: filter_eq_ConsD)

text \<open>
  The Temporal application serves whenever the orphans could be looked for, whatever Temporal, the worker and the
  transcript store answer; its probe says ready exactly if Temporal was reached, and then, and only then, its routes have
  a client. It ends regularly or with the exception the server gave it, unless the worker's block ends with an
  exception: then it yields a second time.
\<close>

theorem temporal_application_serves:
  assumes "lf_reconcile lf = None" "uncancelled lf" "temporal_lifespan lf = (happened, over)"
  shows "Serving \<in> set happened \<and> (readyz happened = 200 \<longleftrightarrow> lf_tls lf = None \<and> lf_connect lf = None)
     \<and> (is_ok (deferred_client happened) \<longleftrightarrow> readyz happened = 200)
     \<and> (over = YieldedTwice \<longleftrightarrow> WorkerStarted \<in> set happened \<and> is_exception (lf_worker_exit lf (lf_resume lf)))"
proof -
  let ?failed = "first_failure [lf_tls lf, lf_connect lf, lf_worker_start lf]"
  have nc: "?failed \<noteq> Some CancelledError"
    using assms(2) first_failure_set [of "[lf_tls lf, lf_connect lf, lf_worker_start lf]" CancelledError] by (auto simp: uncancelled_def)
  have up: "TemporalConnected \<in> set (temporal_up lf) \<longleftrightarrow> lf_tls lf = None \<and> lf_connect lf = None"
    "WorkerStarted \<in> set (temporal_up lf) \<longleftrightarrow> ?failed = None" "Serving \<notin> set (temporal_up lf)"
    by (auto simp: temporal_up_def no_failure)
  have nb: "not_begun lf = None" using assms(1,2) by (auto simp: not_begun_def uncancelled_def)
  have rest: "x \<in> {TemporalConnected, WorkerStarted} \<Longrightarrow> x \<notin> set (connect_transcripts lf) \<and> x \<notin> set (close_transcripts lf)" for x
    by (auto simp: connect_transcripts_def close_transcripts_def)
  have ended: "ended e \<noteq> YieldedTwice" for e by (simp add: ended_def split: option.split)
  let ?begun = "[Reconciled] @ connect_transcripts lf @ temporal_up lf"
  have begun: "TemporalConnected \<in> set ?begun \<longleftrightarrow> lf_tls lf = None \<and> lf_connect lf = None" "WorkerStarted \<in> set ?begun \<longleftrightarrow> ?failed = None"
    using up rest by auto
  have out: "\<exists>more. happened = ?begun @ Serving # more \<and> TemporalConnected \<notin> set more \<and> WorkerStarted \<notin> set more
      \<and> (over = YieldedTwice \<longleftrightarrow> ?failed = None \<and> is_exception (lf_worker_exit lf (lf_resume lf)))"
  proof (cases "?failed = None")
    case False
    then have "happened = ?begun @ Serving # close_transcripts lf \<and> over = ended (lf_resume lf)"
      using assms(3) nb nc by (auto simp: temporal_lifespan_def Let_def)
    then show ?thesis using False rest [of TemporalConnected] rest [of WorkerStarted] ended [of "lf_resume lf"] by simp
  next
    case True
    consider "lf_worker_exit lf (lf_resume lf) = None" | "is_exception (lf_worker_exit lf (lf_resume lf))"
      | "lf_worker_exit lf (lf_resume lf) = Some CancelledError" by (auto simp: is_exception_def)
    then show ?thesis
    proof cases
      case 1
      then have "happened = ?begun @ Serving # WorkerStopped # close_transcripts lf \<and> over = Stopped"
        using assms(3) nb True by (auto simp: temporal_lifespan_def Let_def)
      then show ?thesis using 1 rest by (simp add: is_exception_def)
    next
      case 2
      then have "happened = ?begun @ [Serving, Serving] \<and> over = YieldedTwice"
        using assms(3) nb True by (auto simp: temporal_lifespan_def Let_def is_exception_def)
      then show ?thesis using 2 True by simp
    next
      case 3
      then have "happened = ?begun @ Serving # close_transcripts lf \<and> over = Thrown CancelledError"
        using assms(3) nb True by (auto simp: temporal_lifespan_def Let_def is_exception_def ended_def)
      then show ?thesis using 3 rest by (simp add: is_exception_def)
    qed
  qed
  then obtain more where h: "happened = ?begun @ Serving # more" "TemporalConnected \<notin> set more" "WorkerStarted \<notin> set more"
    "over = YieldedTwice \<longleftrightarrow> ?failed = None \<and> is_exception (lf_worker_exit lf (lf_resume lf))" by blast
  have "TemporalConnected \<in> set happened \<longleftrightarrow> lf_tls lf = None \<and> lf_connect lf = None" "WorkerStarted \<in> set happened \<longleftrightarrow> ?failed = None"
    "Serving \<in> set happened"
    using begun h(2,3) unfolding h(1) by (simp_all only: set_append Un_iff list.set insert_iff empty_iff) simp_all
  with h(4) show ?thesis by (simp add: readyz_def deferred_client_def is_ok_def)
qed

definition no_temporal :: surroundings where
  "no_temporal = \<lparr>lf_reconcile = None, lf_transcripts = None, lf_runs = None, lf_recover = None, lf_tls = None,
     lf_connect = Some (ConnectError ''refused''), lf_worker_start = None, lf_resume = None, lf_worker_exit = id,
     lf_close = None, lf_close_runs = None\<rparr>"

theorem temporal_application_serves_witness:
  "Serving \<in> set (fst (temporal_lifespan no_temporal)) \<and> readyz (fst (temporal_lifespan no_temporal)) \<noteq> 200"
proof -
  have "lf_reconcile no_temporal = None" "uncancelled no_temporal" by (simp_all add: no_temporal_def uncancelled_def)
  from temporal_application_serves [OF this, of "fst (temporal_lifespan no_temporal)" "snd (temporal_lifespan no_temporal)"]
  show ?thesis by (simp add: no_temporal_def)
qed

text \<open>
  The local application does not serve without its run-state store, if one is configured; then the runs that
  wait for a decision were looked up before the first request.
\<close>

lemma local_application_needs_runs:
  assumes "local_lifespan lf = (happened, over)" "Serving \<in> set happened"
  shows "lf_runs lf = None \<or> (lf_runs lf = Some None \<and> lf_recover lf = None \<and> RunsConnected \<in> set happened)"
  using assms
  by (auto simp: local_lifespan_def not_begun_def Let_def connect_transcripts_def split: option.splits if_splits)

text \<open>A worker that fails while the application serves makes the generator yield again.\<close>

lemma worker_failure_yields_twice:
  assumes "lf_worker_exit lf (Some CancelledError) = Some (PyError e)" "lf_resume lf = Some CancelledError"
    and "lf_reconcile lf = None" "lf_transcripts lf = None" "lf_tls lf = None" "lf_connect lf = None" "lf_worker_start lf = None"
  shows "snd (temporal_lifespan lf) = YieldedTwice"
  using assms by (simp add: temporal_lifespan_def not_begun_def first_failure_def is_exception_def)

text \<open>The worker serves the three activities under the names the workflow calls, with any spawner and store.\<close>

lemma activities_served:
  "map activity_name (wc_activities (build_worker_config s t)) = [''run_sandbox_step'', ''build_escalation_activity'', ''send_approval_notification'']"
  by (simp add: build_worker_config_def)

text \<open>Cross-origin headers are added innermost: an answer of the limits in front does not have them.\<close>

lemma limits_before_cors:
  "temporal_layers float_of env = Ok layers \<Longrightarrow> Cors origins \<in> set layers \<Longrightarrow> last layers = Cors origins"
  by (auto simp: temporal_layers_def then_do_Ok_iff cors_layer_def Let_def split: if_splits)

text \<open>The variables that the factory reads for a conversation mean nothing to the application that serves conversations.\<close>

lemma chat_variables_differ:
  "local_chat_settings ((''CHAT_PROVIDER_NAME'', a) # (''CHAT_PROVIDER_MODEL'', b) # (''CHAT_PROVIDER_SECRET'', c)
     # (''CHAT_MAX_CONTEXT_TURNS'', d) # (''CHAT_SPAWN_MODE'', e) # env) = local_chat_settings env"
  by (simp add: local_chat_settings_def env_get_def)

end
