(* ===== verification/SpawnerFactory.thy ===== *)
theory SpawnerFactory
  imports OpenShellPolicy
begin

text \<open>
  The client of the gateway that the factory builds beside the spawner (\<open>spawner/factory.py\<close>), and the filter for the
  parameters of a broader configuration.
\<close>

datatype client_token =
    NoToken
  | StaticToken string
  | TokenProvider

record client_settings =
  cl_endpoint :: string
  cl_tls :: "(string \<times> (string \<times> string) option) option"
  cl_token :: client_token

definition client_settings_of :: "string \<Rightarrow> shell_config \<Rightarrow> client_settings" where
  "client_settings_of gateway_url cfg =
     \<lparr>cl_endpoint = strip_scheme (or_default gateway_url ''localhost:17670''),
      cl_tls = (if sh_tls_ca cfg = [] then None
                else Some (sh_tls_ca cfg, if sh_tls_cert cfg \<noteq> [] \<and> sh_tls_key cfg \<noteq> [] then Some (sh_tls_cert cfg, sh_tls_key cfg) else None)),
      cl_token = (if sh_bearer_token cfg \<noteq> [] then StaticToken (sh_bearer_token cfg)
                  else if sh_token_provider cfg then TokenProvider else NoToken)\<rparr>"

text \<open>The whole of \<open>_build_openshell_spawner\<close>: the client and the spawner's configuration.\<close>

definition build_openshell_spawner ::
  "string \<Rightarrow> shell_config \<Rightarrow> string list option \<Rightarrow> string dict option \<Rightarrow> (client_settings \<times> shell_config) res" where
  "build_openshell_spawner gateway_url cfg paths env =
     then_do (build_spawner ''openshell'' gateway_url cfg paths env) (\<lambda>c. Ok (client_settings_of gateway_url cfg, c))"

definition openshell_extra_params :: "string list" where
  "openshell_extra_params = [''max_pods'', ''extra_readable_paths'', ''extra_env'', ''min_lifetime_seconds'', ''expiry_skew_seconds'']"

definition filtered :: "(string \<times> pyval) list \<Rightarrow> string list \<Rightarrow> (string \<times> pyval) list" where
  "filtered params known = filter (\<lambda>(k, v). k \<in> set known \<and> v \<noteq> VNone) params"

text \<open>
  The two sides of a spawner talk to the same gateway with the same credentials: the client has the endpoint, the
  certificates and the token of the configuration the spawner keeps, and never two tokens.
\<close>

lemma client_matches_spawner:
  assumes "build_openshell_spawner gateway_url cfg paths env = Ok (client, shell)"
  shows "cl_endpoint client = sh_endpoint shell
    \<and> map_option fst (cl_tls client) = (if sh_tls_ca shell = [] then None else Some (sh_tls_ca shell))
    \<and> (case cl_token client of
         StaticToken t \<Rightarrow> t = sh_bearer_token shell \<and> \<not> sh_token_provider shell
       | TokenProvider \<Rightarrow> sh_token_provider shell \<and> sh_bearer_token shell = []
       | NoToken \<Rightarrow> sh_bearer_token shell = [] \<and> \<not> sh_token_provider shell)"
  using assms
  by (auto simp: build_openshell_spawner_def build_spawner_def init_openshell_def client_settings_of_def then_do_Ok_iff
      split: if_splits)

lemma filtered_known: "(k, v) \<in> set (filtered params known) \<longleftrightarrow> (k, v) \<in> set params \<and> k \<in> set known \<and> v \<noteq> VNone"
  by (auto simp: filtered_def)

end
