(* ===== verification/Spec2Isabelle.thy ===== *)
theory Spec2Isabelle
  imports AcceptedRuns RunTermination LocalRuns Guards ScheduleList CliSessions ChatRuns SubprocessStep SandboxStep OpenShellListing EscalationRuns Tools BodyLimit Progress SandboxFiles Certificates Lifespan SpawnerFactory
begin

text \<open>
  A verification library for \<open>cloud_agents\<close> (\<open>src/src/cloud_agents\<close>), a service that runs multi-step agent
  workflows: a definition is submitted or triggered, checked, normalised and executed step by step, with
  conditions, prompt templates, retries, parallel groups and human approvals, by a Temporal workflow or by
  a local runner with a state store. Paths below are relative to \<open>src/src/cloud_agents\<close>.

  \<^bold>\<open>Foundations.\<close>
  \<^item> \<open>Prelude\<close>: exceptions as values (\<open>res\<close>), Python text and ordered dictionaries. Text is a list of
    characters, so code points below 256.
  \<^item> \<open>PyValue\<close>: the values of a parsed definition with truth, equality, \<open>repr\<close> and JSON.
  \<^item> \<open>Pydantic\<close>: the declared models as data. The library that checks them is a parameter; the locale
    \<open>pydantic_engine\<close> states its documented behaviour and is interpreted on a strict engine.
  \<^item> \<open>Keyed\<close>: the locale of components that keep one record per key, interpreted for the circuit breaker and
    for the run-state store.

  \<^bold>\<open>Definitions.\<close>
  \<^item> \<open>Conditions\<close> (\<open>workflow/core/state.py\<close>, \<open>conditions.py\<close>), \<open>Interpolation\<close> (\<open>interpolation.py\<close>): the condition
    evaluator and its two levels; single-pass templates and their errors.
  \<^item> \<open>Secrets\<close>, \<open>Normalize\<close>, \<open>Retry\<close> (\<open>execution.py\<close>, \<open>mcp_resolver.py\<close>, \<open>permissions.py\<close>): the secret and provider
    gates, the whole path from a raw step and the workflow defaults to the input of an executor, the failure
    classifier, the retry loop and the grouping of parallel steps.
  \<^item> \<open>Validation\<close> (\<open>validation.py\<close>, \<open>security/content_policy.py\<close>, \<open>tool_validation.py\<close>): the gate of a submission, with
    every message, and exactly what an accepted definition satisfies.
  \<^item> \<open>DefinitionStore\<close> (\<open>definition.py\<close>, \<open>definition_store.py\<close>): versioned definitions; the locale
    \<open>definition_catalog\<close> is what the handlers rely on (what a name resolves to after a save or a deletion, what
    a recorded version keeps), its lemma is that history is immutable.

  \<^bold>\<open>Execution.\<close>
  \<^item> \<open>Transcript\<close> (\<open>models.py\<close>): normalisation and truncation of step transcripts.
  \<^item> \<open>TemporalWorkflow\<close>, \<open>TemporalRuns\<close>, \<open>RunTermination\<close> (\<open>executor/temporal/workflow.py\<close>): the coroutines of
    \<open>AgentWorkflow\<close> cut at their awaits, and the step relation \<open>run_step\<close> in which parallel members, signals and
    timers interleave. Nothing runs past a failed step, a finished run explains itself, a run is never stuck
    and never goes on forever; the retries refine the reference loop of \<open>Retry\<close>.
  \<^item> \<open>RunStateStore\<close> (\<open>storage/run_state_store.py\<close>): the table of runs, one definition per SQL statement; the locale
    \<open>row_store\<close> and the isolation of workflows.
  \<^item> \<open>LocalRunner\<close>, \<open>LocalRuns\<close> (\<open>executor/graph_translator.py\<close>, \<open>executor/local/executor.py\<close>, \<open>step/dispatch.py\<close>): the
    handlers of the graph, a segment of the local runner with its writes, approval and resumption. The graph
    engine is the locale \<open>graph_engine\<close>, interpreted on the chain; a segment refines the sequential reading.

  \<^bold>\<open>Agents and conversations.\<close>
  \<^item> \<open>Json\<close>: the decoder of \<open>json.loads\<close> on the printer of \<open>PyValue\<close>, so that answers of a model and messages
    between processes are read the way Python reads them. What a float literal and an escape beyond the
    modelled characters stand for are parameters (\<open>json_lib\<close>).
  \<^item> \<open>StepTypes\<close>, \<open>StepResources\<close> (\<open>executor/step/base.py\<close>, \<open>conversation.py\<close>, \<open>transcript_events.py\<close>, \<open>provider.py\<close>,
    \<open>tools.py\<close>, \<open>skills.py\<close>, \<open>native_output.py\<close>): inputs and results of a step, transcript events, credentials, the
    tool registry and skills.
  \<^item> \<open>DirectStep\<close>, \<open>SubprocessStep\<close> (\<open>direct.py\<close>, \<open>subprocess_exec.py\<close>, \<open>subprocess_child.py\<close>): the executors that run
    an agent in the process and in a child of it. Model requests, agent runs, the clock and process starts
    are the parameters of \<open>agent_env\<close>; environment and registry are the state \<open>host\<close>. What crosses the
    process boundary arrives unchanged, and both executors accept the same answers.
  \<^item> \<open>Middleware\<close>, \<open>TranscriptStore\<close> (\<open>executor/middleware.py\<close>, \<open>storage/transcript_store.py\<close>): the hooks around an
    executor and the table of transcripts.
  \<^item> \<open>Chat\<close>, \<open>ChatHistory\<close>, \<open>ChatRuns\<close> (\<open>executor/chat/runner.py\<close>, \<open>chat/api.py\<close>): conversations. The locale
    \<open>turn_store\<close> is what a conversation relies on of the transcript table, interpreted on that table; over
    every reachable state no turn is overwritten and the replayed history pairs calls with results.

  \<^bold>\<open>Sandboxes.\<close>
  \<^item> \<open>Spawner\<close> (\<open>spawner/base.py\<close>, \<open>lifetime.py\<close>): the concurrency cap as a counter that steps share (\<open>pool_step\<close>
    interleaves any number of them), and the deadlines of a step. The counter is exact for the Temporal engine;
    the expiry of a sandbox lies after its last use.
  \<^item> \<open>Auth\<close> (\<open>runtime/auth.py\<close>): token lists with expiry, the two middlewares and the dependency; a token is
    admitted exactly if it is configured and current.
  \<^item> \<open>SandboxRequest\<close> (\<open>security/redact.py\<close>, \<open>core/context.py\<close>, first half of \<open>core/step_runner.py\<close>): redaction, the
    context section and everything decided before the spawner is called, as the record \<open>sandbox_plan\<close>. The
    credential of the provider does not interfere with the plan; mounts are on the allow list.
  \<^item> \<open>SandboxStep\<close> (second half of \<open>step_runner.py\<close>, \<open>temporal/activities.py\<close>, \<open>step/sandbox.py\<close>): one attempt from
    the spawn to the clean-up on the state \<open>sandbox_host\<close> (slots, breaker, audit trail, transcripts, the calls
    made), with the answers of the spawner, the sandbox and the clock as the parameters of \<open>sandbox_env\<close>. The
    code exists twice, in the step runner and in the activity; the argument \<open>engine\<close> says which copy is meant
    where they differ.

  \<^item> \<open>Urls\<close>, \<open>OpenShellPolicy\<close> (\<open>spawner/openshell_spawner.py\<close>, \<open>provider_profiles.py\<close>, \<open>factory.py\<close>): what the
    OpenShell spawner decides by itself, its configuration, the network and filesystem policies, labels and
    environments, with the messages of the gateway's protocol as records.
  \<^item> \<open>SpawnerFactory\<close> (\<open>spawner/factory.py\<close>): the client of the gateway that is built beside the spawner.
  \<^item> \<open>OpenShell\<close> (the same file at work, and \<open>temporal/entrypoint.py\<close>): providers, spawn with clean-up, destroy,
    listing and the reconciliation of orphans. The gateway answers through the record \<open>gateway\<close>, one field per
    call; the spawner's dictionaries are the record \<open>openshell\<close>, and each call is recorded with what it created.
  \<^item> \<open>OpenShellRuns\<close>, \<open>OpenShellListing\<close>: the locale \<open>call_property\<close>, a property of calls that only a few of them
    can break, carries it through every operation and is interpreted for secrecy, creation and deletion. A
    failed spawn takes back what it created, secrets stay out of the environments, a listing is complete, the
    reconciliation deletes the expired sandboxes and none in use.
  \<^item> \<open>Progress\<close>, \<open>SandboxFiles\<close> (the same file, and the heartbeats of \<open>temporal/activities.py\<close>): the event stream
    of a working sandbox, cut into chunks by the gateway and put together again, and reading and writing
    files by commands, with \<open>base64\<close> and \<open>shlex.quote\<close>. The events do not depend on the chunks; the command
    writes exactly the contents to exactly the path, by reference readers of both encodings.
  \<^item> \<open>Certificates\<close> (\<open>security/tls.py\<close>): certificates as records, what signs what, and what the runner trusts; a
    reference verifier accepts them for the names of the pod and the time they are valid.

  \<^bold>\<open>Surroundings.\<close>
  \<^item> \<open>Authorization\<close> (\<open>security/authorization.py\<close>, \<open>policy_authorizer.py\<close>, \<open>auto_approve.py\<close>, \<open>advisory.py\<close>): policies
    with globs, risk classes, advisory mode; the locale \<open>workflow_authorizer\<close>.
  \<^item> \<open>Guards\<close> (\<open>runtime/circuit_breaker.py\<close>, \<open>rate_limiter.py\<close>): circuit breaker and token bucket over a clock that is
    an argument.
  \<^item> \<open>Submission\<close>, \<open>SubmissionGates\<close>, \<open>RunContext\<close>, \<open>AcceptedRuns\<close> (\<open>executor/temporal/api.py\<close>): the request handlers
    over a state of definitions, audit trail and calls to Temporal; what a started run went through, which
    resource later decisions are taken on, and that an accepted definition gives the run what it relies on.
  \<^item> \<open>Escalation\<close>, \<open>EscalationRuns\<close> (\<open>notifiers/\<close>, both remaining activities, the handoff endpoint): payloads,
    packagers and the handoff document; what leaves the process is a list of deliveries. The workflow accepts
    what the escalation activity returns, and the document shows every step.
  \<^item> \<open>AuditEvents\<close>, \<open>AlertTrigger\<close>, \<open>ScheduleTrigger\<close>, \<open>ScheduleList\<close> (\<open>runtime/audit.py\<close>, \<open>triggers/\<close>): the closed list of
    audit events, the Alertmanager webhook with its deduplication, and cron schedules with their list.
  \<^item> \<open>CliSessions\<close> (\<open>cli_session.py\<close> and the session endpoints): sessions as a step relation with the launcher's
    lock and the timeout monitor.
  \<^item> \<open>Tools\<close> (\<open>tools/\<close>): the built-in tools, with addresses as 32-bit words and networks as prefixes; which files and
    hosts a model can reach through them.
  \<^item> \<open>BodyLimit\<close> (\<open>runtime/middleware.py\<close>): the limit on request bodies in front of any application, which is a
    tree that branches on the messages it receives.
  \<^item> \<open>RunnerApi\<close>, \<open>Lifespan\<close> (\<open>executor/local/api.py\<close>, \<open>temporal/executor.py\<close>, \<open>executor/factory.py\<close>, the entry points,
    \<open>temporal/worker.py\<close>): the routes of the local engine and the checks before a run starts, the runner that talks to
    Temporal, the choice of an engine, guards and layers of the served routes, and starting and stopping an
    application as the sequence of what happens.
  \<^bold>\<open>Conventions.\<close> A handler or an operation returns its result or exception together with the new state; what a
  third party answers (Temporal, the database driver, the graph library, an agent, the clock, an identifier
  source) is an argument. No definition needs fuel: every loop of the modelled code is structural or has a
  measure, and waiting is a step of a relation; the listing of sandboxes, whose end is up to the gateway, is a
  partial function into options and shown to end.

  \<^bold>\<open>Not modelled.\<close> Logging, tracing, metrics and the sink of the
  audit trail, the database migrations, FastAPI's routing and the encoding of certificates: they call libraries and
  the operating system, and no theorem here depends on what they do. Loading policy files and the persistence
  branch of the definition store, which no module configures, are left out as well.
\<close>

section \<open>From the request to the run\<close>

text \<open>C1. End to end: if \<open>/run\<close> started a workflow, then the definition it runs was validated, its output keys are
  unique texts, and, unless a step claims the key \<open>escalation\<close> for itself, in every state the run can reach all
  steps of the units before the current one are over and none of them failed or was denied. Nothing that the
  step relation relies on has to be assumed of the definition: the gates of the request established it.\<close>

theorem started_run_never_passes_failure:
  assumes "pydantic_engine (sv_validate sv) dump" and "pf_validate pf = sv_validate sv"
    and "run_workflow sv caller req fresh_id reply st = (Ok workflow_id, st')"
    and "as_calls st' = as_calls st @ [StartWorkflow input]"
    and "accepted_steps (wi_definition input) = Ok steps" and "''escalation'' \<notin> set (map key_of steps)"
    and "(run_step pf input)\<^sup>*\<^sup>* (initial pf input now) (Active w ps rest)"
  shows "\<exists>units over u. plan input = Ok units \<and> units = over @ u # rest \<and> plan_steps units = steps
    \<and> distinct (map key_of steps)
    \<and> (\<forall>s \<in> set (plan_steps over). \<exists>r. map_of (wf_steps w) (key_of s) = Some r \<and> sr_status r \<notin> {MFailed, MDenied})"
proof -
  have gates: "is_ok (sv_validate sv WorkflowDefinition (VDict (wi_definition input)))"
    "validate_definition (sv_validate sv) (sv_bracketed_ok sv) (sv_search sv) (VDict (wi_definition input)) (sv_content_policy sv) = Ok []"
    using run_workflow_validated [OF assms(3,4)] by auto
  obtain units where plan: "plan input = Ok units" by (rule active_planned [OF assms(7)])
  have keys: "keys_ok units" by (rule accepted_keys_ok [OF assms(1) gates assms(5,6) plan])
  have eng: "pydantic_engine (pf_validate pf) dump" using assms(1,2) by simp
  from pydantic_engine.reachable_inv [OF eng refl plan keys assms(7)] obtain over u where
    "units = over @ u # rest" "list_all (settled w) (plan_steps over)" by auto
  moreover have "plan_steps units = steps" by (rule plan_accepted [OF plan assms(5)])
  moreover have "distinct (map key_of steps)" using keys calculation(3) by (simp add: keys_ok_def)
  ultimately show ?thesis using plan unfolding list_all_iff settled_def by blast
qed

definition triage_outcome :: "string res \<times> api_state" where
  "triage_outcome = run_workflow strict_service ann (run_of None (Some (named_definition ''triage'' ''claude''))) ''7'' Started idle"

definition triage_input :: workflow_input where
  "triage_input = hd (map (\<lambda>c. case c of StartWorkflow i \<Rightarrow> i | _ \<Rightarrow> sample_input) (as_calls (snd triage_outcome)))"

theorem started_run_never_passes_failure_witness:
  "\<exists>w ps rest units over u. initial strict_platform triage_input ''t0'' = Active w ps rest
    \<and> plan triage_input = Ok units \<and> units = over @ u # rest
    \<and> (\<forall>s \<in> set (plan_steps over). \<exists>r. map_of (wf_steps w) (key_of s) = Some r \<and> sr_status r \<notin> {MFailed, MDenied})"
proof -
  have "is_active (initial strict_platform triage_input ''t0'')" by code_simp
  then obtain w ps rest where init: "initial strict_platform triage_input ''t0'' = Active w ps rest"
    by (cases "initial strict_platform triage_input ''t0''") auto
  have eng: "pydantic_engine (sv_validate strict_service) drop_none"
    using strict.pydantic_engine_axioms by (simp add: strict_service_def)
  have same: "pf_validate strict_platform = sv_validate strict_service"
    by (simp add: strict_platform_def strict_service_def)
  have "fst triage_outcome = Ok ''wf-7''" by code_simp
  then have run: "run_workflow strict_service ann (run_of None (Some (named_definition ''triage'' ''claude''))) ''7'' Started idle
      = (Ok ''wf-7'', snd triage_outcome)" unfolding triage_outcome_def by (metis prod.collapse)
  obtain i where i: "as_calls (snd triage_outcome) = as_calls idle @ [StartWorkflow i]" by (rule run_workflow_OkE [OF run])
  then have calls: "as_calls (snd triage_outcome) = as_calls idle @ [StartWorkflow triage_input]"
    by (simp add: triage_input_def idle_def)
  have "(case accepted_steps (wi_definition triage_input) of Inr steps \<Rightarrow> ''escalation'' \<notin> set (map key_of steps) | Inl _ \<Rightarrow> False)"
    by code_simp
  then obtain steps where steps: "accepted_steps (wi_definition triage_input) = Ok steps" "''escalation'' \<notin> set (map key_of steps)"
    by (auto split: sum.splits)
  have reach: "(run_step strict_platform triage_input)\<^sup>*\<^sup>* (initial strict_platform triage_input ''t0'') (Active w ps rest)"
    using init by simp
  from started_run_never_passes_failure [OF eng same run calls steps reach] init show ?thesis by blast
qed

end
